(* ===== verification/Prelude.thy ===== *)
theory Prelude
  imports Main "HOL-Library.Word" "HOL-Library.Signed_Division" "HOL-Library.Sublist"
begin

text \<open>
  The vocabulary the component theories share: names for C's fixed-width integers, the
  outcome of a C operation that may stop the program or leave its objects, byte strings
  in little-endian order, and byte-addressed memory written and read by ranges.
  The collections \<open>res_simps\<close> (outcomes), \<open>width_simps\<close> (moving between
  words and natural numbers) and \<open>range_simps\<close> (memory ranges) gather the facts the
  component proofs rewrite with.
\<close>

unbundle bit_operations_syntax

named_theorems res_simps "equations about outcomes and their sequencing"
named_theorems width_simps "machine words as natural numbers"
named_theorems range_simps "memory written and read by ranges"

section \<open>Machine integers\<close>

type_synonym u8 = "8 word"
type_synonym u16 = "16 word"
type_synonym u32 = "32 word"
type_synonym u64 = "64 word"

text \<open>
  C computes \<open>(U64) a + n\<close> for 32-bit \<open>a\<close> and \<open>n\<close> without wrap-around, which is what the
  range checks of the runtime rely on.
\<close>

definition u64_sum :: "u32 \<Rightarrow> u32 \<Rightarrow> u64" where
  "u64_sum a n = ucast a + ucast n"

lemma unat_u32_less: "unat (a :: u32) < 4294967296"
  using unsigned_less [of a] by simp

lemma unat_u64_less: "unat (a :: u64) < 18446744073709551616"
  using unsigned_less [of a] by simp

lemma unat_u8_less: "unat (a :: u8) < 256"
  using unsigned_less [of a] by simp

lemma unat_ucast_32_64 [width_simps]: "unat (ucast (a :: u32) :: u64) = unat a"
  by (simp add: unsigned_ucast_eq take_bit_nat_eq_self_iff order_less_trans [OF unat_u32_less])

lemma unat_u64_sum [width_simps]: "unat (u64_sum a n) = unat a + unat n"
proof -
  have "unat a + unat n < 2 ^ LENGTH(64)"
    using unat_u32_less [of a] unat_u32_less [of n] by simp
  then show ?thesis
    by (simp add: u64_sum_def unat_word_ariths unat_ucast_32_64)
qed

lemma u64_sum_greater [width_simps]:
  "u64_sum a n > ucast (s :: u32) \<longleftrightarrow> unat a + unat n > unat s"
  by (simp add: word_less_nat_alt unat_u64_sum unat_ucast_32_64)

section \<open>Outcomes\<close>

text \<open>
  \<open>Val x\<close>: the operation returned \<open>x\<close>. \<open>Stop e\<close>: it ended with the error, the trap or the
  exit \<open>e\<close> that the code itself raises. \<open>Unsafe\<close>: it touched memory outside the
  object it addresses, which C leaves undefined; no theorem speaks of what happens afterwards.
\<close>

datatype ('e, 'a) res = Val 'a | Stop 'e | Unsafe

fun res_bind :: "('e, 'a) res \<Rightarrow> ('a \<Rightarrow> ('e, 'b) res) \<Rightarrow> ('e, 'b) res" where
  "res_bind (Val x) f = f x"
| "res_bind (Stop e) f = Stop e"
| "res_bind Unsafe f = Unsafe"

lemma res_bind_eq_Val [res_simps]:
  "res_bind r f = Val y \<longleftrightarrow> (\<exists>x. r = Val x \<and> f x = Val y)"
  by (cases r) auto

lemma res_bind_eq_Stop [res_simps]:
  "res_bind r f = Stop e \<longleftrightarrow> r = Stop e \<or> (\<exists>x. r = Val x \<and> f x = Stop e)"
  by (cases r) auto

lemma res_bind_eq_Unsafe [res_simps]:
  "res_bind r f = Unsafe \<longleftrightarrow> r = Unsafe \<or> (\<exists>x. r = Val x \<and> f x = Unsafe)"
  by (cases r) auto

lemma res_bind_assoc: "res_bind (res_bind r f) g = res_bind r (\<lambda>x. res_bind (f x) g)"
  by (cases r) auto

lemma res_bind_Val_right [simp]: "res_bind r Val = r"
  by (cases r) auto

text \<open>A loop over a list whose body may end the program.\<close>

fun res_fold :: "('a \<Rightarrow> 'b \<Rightarrow> ('e, 'b) res) \<Rightarrow> 'a list \<Rightarrow> 'b \<Rightarrow> ('e, 'b) res" where
  "res_fold f [] s = Val s"
| "res_fold f (x # xs) s = res_bind (f x s) (res_fold f xs)"

text \<open>A C guard: \<open>if (cond) stop(e);\<close> before the rest.\<close>

definition res_guard :: "bool \<Rightarrow> 'e \<Rightarrow> ('e, unit) res" where
  "res_guard ok e = (if ok then Val () else Stop e)"

lemma res_guard_eq [res_simps]:
  "res_guard ok e = Val u \<longleftrightarrow> ok"
  "res_guard ok e = Stop e' \<longleftrightarrow> \<not> ok \<and> e' = e"
  "res_guard ok e \<noteq> Unsafe"
  by (auto simp: res_guard_def)

text \<open>
  Total correctness of an outcome: it is never \<open>Unsafe\<close>, a value satisfies \<open>P\<close>, an end
  satisfies \<open>Q\<close>.
\<close>

fun res_ok :: "('a \<Rightarrow> bool) \<Rightarrow> ('e \<Rightarrow> bool) \<Rightarrow> ('e, 'a) res \<Rightarrow> bool" where
  "res_ok P Q (Val x) = P x"
| "res_ok P Q (Stop e) = Q e"
| "res_ok P Q Unsafe = False"

lemma res_ok_bind:
  "res_ok P Q r \<Longrightarrow> (\<And>x. P x \<Longrightarrow> res_ok P' Q (f x)) \<Longrightarrow> res_ok P' Q (res_bind r f)"
  by (cases r) auto

lemma res_ok_mono:
  "res_ok P Q r \<Longrightarrow> (\<And>x. P x \<Longrightarrow> P' x) \<Longrightarrow> (\<And>e. Q e \<Longrightarrow> Q' e) \<Longrightarrow> res_ok P' Q' r"
  by (cases r) auto

lemma res_ok_if: "(b \<Longrightarrow> res_ok P Q r) \<Longrightarrow> (\<not> b \<Longrightarrow> res_ok P Q s) \<Longrightarrow> res_ok P Q (if b then r else s)"
  by auto

section \<open>Little-endian byte strings\<close>

fun le_val :: "u8 list \<Rightarrow> nat" where
  "le_val [] = 0"
| "le_val (b # bs) = unat b + 256 * le_val bs"

fun le_bytes :: "nat \<Rightarrow> nat \<Rightarrow> u8 list" where
  "le_bytes 0 v = []"
| "le_bytes (Suc n) v = word_of_nat (v mod 256) # le_bytes n (v div 256)"

lemma length_le_bytes [simp]: "length (le_bytes n v) = n"
  by (induction n arbitrary: v) auto

lemma le_val_less: "le_val bs < 256 ^ length bs"
proof (induction bs)
  case Nil
  then show ?case by simp
next
  case (Cons b bs)
  from Cons.IH have "le_val bs + 1 \<le> 256 ^ length bs" by simp
  then have "256 * (le_val bs + 1) \<le> 256 * 256 ^ length bs" by (rule mult_le_mono2)
  with unat_u8_less [of b] show ?case
    by (simp add: algebra_simps)
qed

lemma unat_word_of_nat_u8: "unat (word_of_nat (v mod 256) :: u8) = v mod 256"
  by (simp add: unsigned_of_nat take_bit_eq_mod)

lemma le_val_le_bytes: "le_val (le_bytes n v) = v mod 256 ^ n"
proof (induction n arbitrary: v)
  case 0
  then show ?case by simp
next
  case (Suc n)
  have "v mod 256 + 256 * (v div 256 mod 256 ^ n) = v mod (256 * 256 ^ n)"
    by (simp add: mod_mult2_eq)
  with Suc.IH [of "v div 256"] show ?case
    by (simp only: le_bytes.simps le_val.simps unat_word_of_nat_u8 power_Suc)
qed

lemma le_bytes_le_val: "le_bytes (length bs) (le_val bs) = bs"
  by (induction bs) (auto simp: unat_u8_less)

text \<open>The value of \<open>n\<close> bytes as a word of any width, as \<open>memcpy\<close> into an integer object gives.\<close>

definition le_word :: "u8 list \<Rightarrow> 'a::len word" where
  "le_word bs = word_of_nat (le_val bs)"

lemma le_word_le_bytes:
  assumes "256 ^ n = (2 :: nat) ^ LENGTH('a)"
  shows "(le_word (le_bytes n (unat w)) :: 'a::len word) = w"
proof -
  have "unat w mod 256 ^ n = unat w"
    using unsigned_less [of w, where 'a = nat] by (simp only: assms mod_less)
  then show ?thesis
    by (simp add: le_word_def le_val_le_bytes)
qed

lemma le_word_roundtrip [simp]:
  "(le_word (le_bytes 4 (unat w32)) :: u32) = w32"
  "(le_word (le_bytes 8 (unat w64)) :: u64) = w64"
  "(le_word (le_bytes 2 (unat w16)) :: u16) = w16"
  "(le_word (le_bytes 1 (unat w8)) :: u8) = w8"
  by (rule le_word_le_bytes, simp)+

section \<open>Byte-addressed memory\<close>

type_synonym mem = "nat \<Rightarrow> u8"

definition read_range :: "mem \<Rightarrow> nat \<Rightarrow> nat \<Rightarrow> u8 list" where
  "read_range m a n = map m [a..<a + n]"

definition write_range :: "mem \<Rightarrow> nat \<Rightarrow> u8 list \<Rightarrow> mem" where
  "write_range m a bs = (\<lambda>i. if a \<le> i \<and> i < a + length bs then bs ! (i - a) else m i)"

lemma length_read_range [simp]: "length (read_range m a n) = n"
  by (simp add: read_range_def)

lemma nth_read_range [simp]: "i < n \<Longrightarrow> read_range m a n ! i = m (a + i)"
  by (simp add: read_range_def)

lemma read_range_eq_iff:
  "read_range m a n = read_range m' b n \<longleftrightarrow> (\<forall>i<n. m (a + i) = m' (b + i))"
  by (simp add: list_eq_iff_nth_eq)

lemma write_range_outside [range_simps]:
  "i < a \<or> a + length bs \<le> i \<Longrightarrow> write_range m a bs i = m i"
  by (auto simp: write_range_def)

lemma write_range_inside [range_simps]:
  "i < length bs \<Longrightarrow> write_range m a bs (a + i) = bs ! i"
  by (simp add: write_range_def)

lemma read_write_same [range_simps]:
  "n = length bs \<Longrightarrow> read_range (write_range m a bs) a n = bs"
  by (simp add: list_eq_iff_nth_eq write_range_inside)

lemma read_write_disjoint [range_simps]:
  "b + n \<le> a \<or> a + length bs \<le> b \<Longrightarrow> read_range (write_range m a bs) b n = read_range m b n"
  by (auto simp: list_eq_iff_nth_eq write_range_def)

lemma write_read_apply [range_simps]:
  "write_range m d (read_range m' s n) i = (if d \<le> i \<and> i < d + n then m' (s + (i - d)) else m i)"
  by (auto simp: write_range_def)

lemma write_range_Nil [simp]: "write_range m a [] = m"
  by (rule ext) (auto simp: write_range_def)

lemma write_range_single: "write_range m a [b] = m(a := b)"
  by (auto simp: write_range_def)

section \<open>Texts\<close>

text \<open>The bytes of a string literal.\<close>

definition str :: "string \<Rightarrow> u8 list" where
  "str s = map (\<lambda>c. of_nat (of_char c)) s"

end
