(* ===== verification/Rt_Arith.thy ===== *)
theory Rt_Arith
  imports Prelude
begin

text \<open>
  The traps and the integer arithmetic of the runtime header \<^verbatim>\<open>src/rt/w2c2_base.h\<close>: checked
  signed and unsigned division and remainder, rotates, population count and the counting loops.
  The lemmas relate each macro to the integer or bit operation it stands for.
\<close>

section \<open>Traps\<close>

datatype trap =
    trapUnreachable | trapDivByZero | trapIntOverflow | trapInvalidConversion
  | trapAllocationFailed | trapOutOfBoundsMemory | trapOutOfBoundsTable | trapNullFunction
  | trapIndirectCallTypeMismatch

fun trap_code :: "trap \<Rightarrow> nat" where
  "trap_code trapUnreachable = 1"
| "trap_code trapDivByZero = 2"
| "trap_code trapIntOverflow = 3"
| "trap_code trapInvalidConversion = 4"
| "trap_code trapAllocationFailed = 5"
| "trap_code trapOutOfBoundsMemory = 6"
| "trap_code trapOutOfBoundsTable = 7"
| "trap_code trapNullFunction = 8"
| "trap_code trapIndirectCallTypeMismatch = 9"

section \<open>Integer arithmetic\<close>

text \<open>
  The macros take the C operands already cast to the signed type; \<open>/\<close> and \<open>%\<close> truncate
  towards zero, which is \<open>sdiv\<close> and \<open>smod\<close> on the integers.
\<close>

definition INT32_MIN :: int where "INT32_MIN = - 2147483647 - 1"
definition INT64_MIN :: int where "INT64_MIN = - 9223372036854775807 - 1"

definition DIV_S :: "int \<Rightarrow> int \<Rightarrow> int \<Rightarrow> (trap, 'a::len word) res" where
  "DIV_S mn x y =
     (if y = 0 then Stop trapDivByZero
      else if x = mn \<and> y = -1 then Stop trapIntOverflow
      else Val (word_of_int (x sdiv y)))"

definition REM_S :: "int \<Rightarrow> int \<Rightarrow> int \<Rightarrow> (trap, 'a::len word) res" where
  "REM_S mn x y =
     (if y = 0 then Stop trapDivByZero
      else if x = mn \<and> y = -1 then Val 0
      else Val (word_of_int (x smod y)))"

definition I32_DIV_S :: "u32 \<Rightarrow> u32 \<Rightarrow> (trap, u32) res" where
  "I32_DIV_S x y = DIV_S INT32_MIN (sint x) (sint y)"
definition I64_DIV_S :: "u64 \<Rightarrow> u64 \<Rightarrow> (trap, u64) res" where
  "I64_DIV_S x y = DIV_S INT64_MIN (sint x) (sint y)"
definition I32_REM_S :: "u32 \<Rightarrow> u32 \<Rightarrow> (trap, u32) res" where
  "I32_REM_S x y = REM_S INT32_MIN (sint x) (sint y)"
definition I64_REM_S :: "u64 \<Rightarrow> u64 \<Rightarrow> (trap, u64) res" where
  "I64_REM_S x y = REM_S INT64_MIN (sint x) (sint y)"

definition DIVREM_U :: "('a::len word \<Rightarrow> 'a word \<Rightarrow> 'a word) \<Rightarrow> 'a word \<Rightarrow> 'a word \<Rightarrow> (trap, 'a word) res" where
  "DIVREM_U f x y = (if y = 0 then Stop trapDivByZero else Val (f x y))"
definition DIV_U :: "'a::len word \<Rightarrow> 'a word \<Rightarrow> (trap, 'a word) res" where
  "DIV_U x y = DIVREM_U (div) x y"
definition REM_U :: "'a::len word \<Rightarrow> 'a word \<Rightarrow> (trap, 'a word) res" where
  "REM_U x y = DIVREM_U (mod) x y"

text \<open>The rotate macros mask both shift counts; the mask is 31 or 63.\<close>

definition ROTL :: "'a::len word \<Rightarrow> 'a word \<Rightarrow> 'a word \<Rightarrow> 'a word" where
  "ROTL x y msk =
     push_bit (unat (y AND msk)) x OR drop_bit (unat ((msk - y + 1) AND msk)) x"
definition ROTR :: "'a::len word \<Rightarrow> 'a word \<Rightarrow> 'a word \<Rightarrow> 'a word" where
  "ROTR x y msk =
     drop_bit (unat (y AND msk)) x OR push_bit (unat ((msk - y + 1) AND msk)) x"

definition I32_ROTL :: "u32 \<Rightarrow> u32 \<Rightarrow> u32" where "I32_ROTL x y = ROTL x y 31"
definition I64_ROTL :: "u64 \<Rightarrow> u64 \<Rightarrow> u64" where "I64_ROTL x y = ROTL x y 63"
definition I32_ROTR :: "u32 \<Rightarrow> u32 \<Rightarrow> u32" where "I32_ROTR x y = ROTR x y 31"
definition I64_ROTR :: "u64 \<Rightarrow> u64 \<Rightarrow> u64" where "I64_ROTR x y = ROTR x y 63"

definition I32_POPCNT :: "u32 \<Rightarrow> u32" where
  "I32_POPCNT x =
     (let x = x - (drop_bit 1 x AND 0x55555555);
          x = (drop_bit 2 x AND 0x33333333) + (x AND 0x33333333);
          x = (drop_bit 4 x + x) AND 0x0F0F0F0F
      in drop_bit 24 (x * 0x01010101))"

definition I64_POPCNT :: "u64 \<Rightarrow> u64" where
  "I64_POPCNT x =
     (let x = x - (drop_bit 1 x AND 0x5555555555555555);
          x = (drop_bit 2 x AND 0x3333333333333333) + (x AND 0x3333333333333333);
          x = (drop_bit 4 x + x) AND 0x0f0f0f0f0f0f0f0f
      in drop_bit 56 (x * 0x0101010101010101))"

text \<open>
  The counting loops test one end bit and shift; on zero they would not end, so the functions
  return the width first. The loop is a partial function, and that it returns is proved.
\<close>

partial_function (option) clz_loop :: "'a::len word \<Rightarrow> 'a word \<Rightarrow> 'a word \<Rightarrow> 'a word option" where
  "clz_loop hibit x n = (if x AND hibit = 0 then clz_loop hibit (push_bit 1 x) (n + 1) else Some n)"
partial_function (option) ctz_loop :: "'a::len word \<Rightarrow> 'a word \<Rightarrow> 'a word option" where
  "ctz_loop x n = (if x AND 1 = 0 then ctz_loop (drop_bit 1 x) (n + 1) else Some n)"

definition I32_CLZ :: "u32 \<Rightarrow> u32 option" where
  "I32_CLZ x = (if x = 0 then Some 32 else clz_loop 0x80000000 x 0)"
definition I64_CLZ :: "u64 \<Rightarrow> u64 option" where
  "I64_CLZ x = (if x = 0 then Some 64 else clz_loop 0x8000000000000000 x 0)"
definition I32_CTZ :: "u32 \<Rightarrow> u32 option" where
  "I32_CTZ x = (if x = 0 then Some 32 else ctz_loop x 0)"
definition I64_CTZ :: "u64 \<Rightarrow> u64 option" where
  "I64_CTZ x = (if x = 0 then Some 64 else ctz_loop x 0)"


section \<open>Signed division\<close>

lemma sint_word_of_int_self:
  "- (2 ^ (LENGTH('a) - 1)) \<le> k \<Longrightarrow> k < 2 ^ (LENGTH('a) - 1) \<Longrightarrow>
   sint (word_of_int k :: 'a::len word) = k"
  by (simp add: signed_of_int signed_take_bit_int_eq_self)

lemma sint_bounds:
  "- (2 ^ (LENGTH('a) - 1)) \<le> sint (x :: 'a::len word)" "sint x < 2 ^ (LENGTH('a) - 1)"
  by (simp_all add: sint_greater_eq sint_less)

lemma sdiv_half:
  assumes "2 \<le> \<bar>y :: int\<bar>"
  shows "\<bar>x sdiv y\<bar> \<le> \<bar>x\<bar> div 2"
proof -
  have "\<bar>x\<bar> div \<bar>y\<bar> \<le> \<bar>x\<bar> div 2" using assms by (intro zdiv_mono2) auto
  moreover have "0 \<le> \<bar>x\<bar> div \<bar>y\<bar>" using assms by (intro div_int_pos_iff [THEN iffD2]) auto
  ultimately show ?thesis by (auto simp: signed_divide_int_def abs_mult abs_sgn_eq)
qed

lemma smod_less: "y \<noteq> 0 \<Longrightarrow> \<bar>x smod y\<bar> < \<bar>y :: int\<bar>"
  by (auto simp: signed_modulo_int_def abs_mult abs_sgn_eq)

lemma smod_sgn: "x smod y = 0 \<or> sgn (x smod y) = sgn (x :: int)"
  by (auto simp: signed_modulo_int_def sgn_mult)
     (smt (verit) pos_mod_sign mod_by_0 sgn_if)+

text \<open>One statement for both widths.\<close>

lemma div_rem_s:
  fixes x y :: "'a::len word"
  assumes mn: "mn = - (2 ^ (LENGTH('a) - 1))" and y: "sint y \<noteq> 0"
    and no: "\<not> (sint x = mn \<and> sint y = -1)"
  shows "\<exists>q r. (DIV_S mn (sint x) (sint y) :: (trap, 'a word) res) = Val q
     \<and> (REM_S mn (sint x) (sint y) :: (trap, 'a word) res) = Val r
     \<and> sint q = sint x sdiv sint y \<and> sint r = sint x smod sint y"
proof -
  let ?h = "2 ^ (LENGTH('a) - 1) :: int"
  have bx: "- ?h \<le> sint x" "sint x < ?h" and b: "- ?h \<le> sint y" "sint y < ?h" by (rule sint_bounds)+
  have "- ?h \<le> sint x sdiv sint y \<and> sint x sdiv sint y < ?h"
  proof (cases "\<bar>sint y\<bar> \<ge> 2")
    case True
    then show ?thesis using sdiv_half [of "sint y" "sint x"] bx by linarith
  next
    case False
    with y have "sint y = 1 \<or> sint y = -1" by linarith
    with bx no mn show ?thesis by (auto simp: signed_divide_int_def sgn_if split: if_splits)
  qed
  then have q: "sint (word_of_int (sint x sdiv sint y) :: 'a word) = sint x sdiv sint y"
    by (simp add: sint_word_of_int_self)
  have "- ?h \<le> sint x smod sint y" "sint x smod sint y < ?h"
    using smod_less [OF y, of "sint x"] b by linarith+
  then have r: "sint (word_of_int (sint x smod sint y) :: 'a word) = sint x smod sint y"
    by (simp add: sint_word_of_int_self)
  from y no q r show ?thesis by (auto simp: DIV_S_def REM_S_def)
qed



section \<open>Rotates\<close>

text \<open>Masking with 31 or 63 is the remainder; the second shift count is what is left of the width.\<close>

lemma nat_and_mask: "(n :: nat) AND 31 = n mod 32" "(n :: nat) AND 63 = n mod 64"
proof -
  have "n AND 31 = take_bit 5 n" "n AND 63 = take_bit 6 n"
    by (simp_all add: take_bit_eq_mask mask_eq_exp_minus_1)
  then show "n AND 31 = n mod 32" "n AND 63 = n mod 64" by (simp_all add: take_bit_eq_mod)
qed

lemma neg_shift_count:
  fixes y :: "'a::len word"
  assumes "w dvd (2 :: nat) ^ LENGTH('a)" and "w < 2 ^ LENGTH('a)" and "0 < w"
  shows "unat (of_nat w - y) mod w = (w - unat y mod w) mod w"
proof -
  have d: "int w dvd 2 ^ LENGTH('a)"
    using assms(1) by (metis of_nat_dvd_iff of_nat_numeral of_nat_power)
  have w: "uint (of_nat w :: 'a word) = int w"
    using assms(2) by (simp add: unsigned_of_nat take_bit_nat_eq_self)
  have "int (unat (of_nat w - y) mod w) = uint (of_nat w - y) mod int w"
    by (simp only: zmod_int of_nat_unat)
  also have "\<dots> = ((int w - uint y) mod 2 ^ LENGTH('a)) mod int w"
    by (simp only: uint_word_ariths w)
  also have "\<dots> = (int w - uint y) mod int w" using d by (rule mod_mod_cancel)
  also have "\<dots> = (int w - uint y mod int w) mod int w" by (simp only: mod_diff_right_eq)
  also have "\<dots> = (int w - int (unat y mod w)) mod int w" by (simp only: zmod_int of_nat_unat)
  also have "\<dots> = int ((w - unat y mod w) mod w)"
    using assms(3) by (simp only: zmod_int of_nat_diff mod_less_divisor less_imp_le)
  finally show ?thesis by (simp only: of_nat_eq_iff)
qed

lemma word_rotl_mod: "word_rotl (n mod LENGTH('a)) (x :: 'a::len word) = word_rotl n x"
  by (rule bit_word_eqI) (simp add: bit_word_rotl_iff)

lemma word_rotr_mod: "word_rotr (n mod LENGTH('a)) (x :: 'a::len word) = word_rotr n x"
  by (rule bit_word_eqI) (simp add: bit_word_rotr_iff mod_add_right_eq)

lemma rotl_bits:
  fixes x :: "'a::len word"
  assumes k: "k < LENGTH('a)"
  shows "push_bit k x OR drop_bit ((LENGTH('a) - k) mod LENGTH('a)) x = word_rotl k x"
proof (cases "k = 0")
  case False
  with k have "(LENGTH('a) - k) mod LENGTH('a) = LENGTH('a) - k" by simp
  then show ?thesis
    using k False
    by (intro bit_word_eqI) (auto simp: bit_simps mod_if add.commute dest: bit_imp_le_length split: if_splits)
qed (auto intro!: bit_word_eqI simp: bit_simps)

lemma rotr_bits:
  fixes x :: "'a::len word"
  assumes k: "k < LENGTH('a)"
  shows "drop_bit k x OR push_bit ((LENGTH('a) - k) mod LENGTH('a)) x = word_rotr k x"
proof (cases "k = 0")
  case False
  with k have "(LENGTH('a) - k) mod LENGTH('a) = LENGTH('a) - k" by simp
  then show ?thesis
    using k False
    by (intro bit_word_eqI) (auto simp: bit_simps mod_if add.commute dest: bit_imp_le_length split: if_splits)
qed (auto intro!: bit_word_eqI simp: bit_simps)

lemma rot_counts_32:
  "unat (y AND 31 :: u32) = unat y mod 32"
  "unat (32 - y :: u32) mod 32 = (32 - unat y mod 32) mod 32"
  using neg_shift_count [of 32 y] by (simp_all add: unsigned_and_eq nat_and_mask)

lemma rot_counts_64:
  "unat (y AND 63 :: u64) = unat y mod 64"
  "unat (64 - y :: u64) mod 64 = (64 - unat y mod 64) mod 64"
  using neg_shift_count [of 64 y] by (simp_all add: unsigned_and_eq nat_and_mask)

lemma rotates_eq:
  "I32_ROTL x y = word_rotl (unat y) x" "I32_ROTR x y = word_rotr (unat y) x"
  "I64_ROTL v w = word_rotl (unat w) v" "I64_ROTR v w = word_rotr (unat w) v"
proof -
  have len: "LENGTH(32) = 32" "LENGTH(64) = 64" by simp_all
  show "I32_ROTL x y = word_rotl (unat y) x" "I32_ROTR x y = word_rotr (unat y) x"
    "I64_ROTL v w = word_rotl (unat w) v" "I64_ROTR v w = word_rotr (unat w) v"
    using rotl_bits [of "unat y mod 32" x] rotr_bits [of "unat y mod 32" x]
      rotl_bits [of "unat w mod 64" v] rotr_bits [of "unat w mod 64" v]
      word_rotl_mod [of "unat y" x] word_rotr_mod [of "unat y" x]
      word_rotl_mod [of "unat w" v] word_rotr_mod [of "unat w" v]
    by (simp_all add: len I32_ROTL_def I32_ROTR_def I64_ROTL_def I64_ROTR_def ROTL_def ROTR_def
        rot_counts_32 rot_counts_64)
qed

section \<open>Counting loops\<close>

lemma ctz_loop_Some:
  fixes x :: "'a::len word"
  assumes "bit x k" and "\<And>i. i < k \<Longrightarrow> \<not> bit x i"
  shows "ctz_loop x n = Some (n + of_nat k)"
  using assms
proof (induction k arbitrary: x n)
  case 0
  then have "x AND 1 \<noteq> 0" by (simp add: and_one_eq bit_0 odd_iff_mod_2_eq_one)
  then show ?case by (simp add: ctz_loop.simps)
next
  case (Suc k)
  have "x AND 1 = 0" using Suc.prems(2) [of 0] by (simp add: and_one_eq bit_0 even_iff_mod_2_eq_zero)
  moreover have "ctz_loop (drop_bit 1 x) (n + 1) = Some (n + 1 + of_nat k)"
    by (rule Suc.IH) (use Suc.prems in \<open>simp_all add: bit_simps\<close>)
  ultimately show ?case by (simp add: ctz_loop.simps [of x] add.assoc)
qed

lemma clz_loop_Some:
  fixes x :: "'a::len word"
  assumes hi: "hibit = push_bit (LENGTH('a) - 1) 1"
    and "k < LENGTH('a)" and "bit x (LENGTH('a) - 1 - k)"
    and "\<And>i. LENGTH('a) - 1 - k < i \<Longrightarrow> \<not> bit x i"
  shows "clz_loop hibit x n = Some (n + of_nat k)"
  using assms(2-)
proof (induction k arbitrary: x n)
  case 0
  then have "bit (x AND hibit) (LENGTH('a) - 1)" by (simp add: hi bit_simps)
  then have "x AND hibit \<noteq> 0" by auto
  then show ?case by (simp add: clz_loop.simps)
next
  case (Suc k)
  have "\<not> bit x (LENGTH('a) - 1)" using Suc.prems by auto
  then have "x AND hibit = 0"
    by (intro bit_word_eqI) (auto simp: hi bit_simps)
  moreover have "clz_loop hibit (push_bit 1 x) (n + 1) = Some (n + 1 + of_nat k)"
  proof (rule Suc.IH)
    show "k < LENGTH('a)" using Suc.prems by simp
    have "LENGTH('a) - 1 - k = Suc (LENGTH('a) - 1 - Suc k)" using Suc.prems(1) by simp
    then show "bit (push_bit 1 x) (LENGTH('a) - 1 - k)"
      using Suc.prems by (simp only: bit_push_bit_iff) simp
    show "\<not> bit (push_bit 1 x) i" if i: "LENGTH('a) - 1 - k < i" for i
    proof -
      have "LENGTH('a) - 1 - Suc k < i - 1" using i Suc.prems(1) by simp
      with Suc.prems(3) have "\<not> bit x (i - 1)" by blast
      then show ?thesis by (simp only: bit_push_bit_iff) simp
    qed
  qed
  ultimately show ?case by (simp add: clz_loop.simps [of _ x] add.assoc)
qed

section \<open>Properties of the arithmetic\<close>

lemma div_rem_identity:
  fixes x y q r :: "'a::len word"
  assumes "sint q = sint x sdiv sint y" and "sint r = sint x smod sint y"
  shows "sint x = sint q * sint y + sint r"
  by (simp only: assms sdiv_mult_smod_eq)

lemma sint_nonzero: "y \<noteq> 0 \<Longrightarrow> sint (y :: 'a::len word) \<noteq> 0"
  by (metis signed_eq_0_iff)

definition div_rem_spec :: "int \<Rightarrow> ('a::len word \<Rightarrow> 'a word \<Rightarrow> (trap, 'a word) res)
    \<Rightarrow> ('a word \<Rightarrow> 'a word \<Rightarrow> (trap, 'a word) res) \<Rightarrow> 'a word \<Rightarrow> 'a word \<Rightarrow> bool" where
  "div_rem_spec mn d m x y \<longleftrightarrow>
     (if y = 0 then d x y = Stop trapDivByZero \<and> m x y = Stop trapDivByZero
      else if sint x = mn \<and> sint y = -1 then d x y = Stop trapIntOverflow \<and> m x y = Val 0
      else (case (d x y, m x y) of
              (Val q, Val r) \<Rightarrow> sint x = sint q * sint y + sint r \<and> \<bar>sint r\<bar> < \<bar>sint y\<bar>
                               \<and> (r = 0 \<or> sgn (sint r) = sgn (sint x))
            | _ \<Rightarrow> False))"

lemma div_rem_spec_generic:
  fixes x y :: "'a::len word"
  assumes mn: "mn = - (2 ^ (LENGTH('a) - 1))"
  shows "div_rem_spec mn (\<lambda>x y. DIV_S mn (sint x) (sint y)) (\<lambda>x y. REM_S mn (sint x) (sint y)) x y"
proof -
  consider "y = 0" | "y \<noteq> 0" "sint x = mn \<and> sint y = -1" | "y \<noteq> 0" "\<not> (sint x = mn \<and> sint y = -1)"
    by blast
  then show ?thesis
  proof cases
    case 3
    then obtain q r :: "'a word" where
      qr: "(DIV_S mn (sint x) (sint y) :: (trap, 'a word) res) = Val q"
        "(REM_S mn (sint x) (sint y) :: (trap, 'a word) res) = Val r"
      and s: "sint q = sint x sdiv sint y" "sint r = sint x smod sint y"
      using div_rem_s [OF mn sint_nonzero] by blast
    have "sint x = sint q * sint y + sint r" by (rule div_rem_identity [OF s])
    moreover have "\<bar>sint r\<bar> < \<bar>sint y\<bar>" unfolding s(2) by (rule smod_less) (rule sint_nonzero [OF 3(1)])
    moreover have "r = 0 \<or> sgn (sint r) = sgn (sint x)"
      using smod_sgn [of "sint x" "sint y"] by (metis s(2) signed_eq_0_iff)
    ultimately show ?thesis
      unfolding div_rem_spec_def if_not_P [OF 3(1)] if_not_P [OF 3(2)] qr prod.case res.case by blast
  qed (simp_all add: div_rem_spec_def DIV_S_def REM_S_def)
qed

text \<open>
  C15. Signed division and remainder of both widths: a zero divisor traps; the one quotient that
  does not fit traps and has remainder 0; otherwise \<open>x = q * y + r\<close> over the integers, \<open>r\<close> is
  smaller than \<open>y\<close> and has the sign of \<open>x\<close> or is 0 (truncation towards zero).
\<close>

theorem signed_division_correct:
  "div_rem_spec INT32_MIN I32_DIV_S I32_REM_S x32 y32 \<and> div_rem_spec INT64_MIN I64_DIV_S I64_REM_S x64 y64"
proof -
  have "div_rem_spec INT32_MIN (\<lambda>x y. DIV_S INT32_MIN (sint x) (sint y))
      (\<lambda>x y. REM_S INT32_MIN (sint x) (sint y)) x32 y32"
    by (rule div_rem_spec_generic) (simp add: INT32_MIN_def)
  moreover have "div_rem_spec INT64_MIN (\<lambda>x y. DIV_S INT64_MIN (sint x) (sint y))
      (\<lambda>x y. REM_S INT64_MIN (sint x) (sint y)) x64 y64"
    by (rule div_rem_spec_generic) (simp add: INT64_MIN_def)
  ultimately show ?thesis
    by (simp only: div_rem_spec_def I32_DIV_S_def I32_REM_S_def I64_DIV_S_def I64_REM_S_def simp_thms)
qed

text \<open>
  C16. The rotate macros, which mask both shift counts, rotate by the count modulo the width, for every
  count, zero and multiples of the width included, where an unmasked shift would be undefined.
\<close>

theorem rotates_correct:
  "I32_ROTL x y = word_rotl (unat y) x \<and> I32_ROTR x y = word_rotr (unat y) x
   \<and> I64_ROTL v w = word_rotl (unat w) v \<and> I64_ROTR v w = word_rotr (unat w) v"
  by (simp only: rotates_eq simp_thms)

lemma lowest_bit:
  assumes "x \<noteq> (0 :: 'a::len word)"
  obtains k where "k < LENGTH('a)" "bit x k" "\<And>i. i < k \<Longrightarrow> \<not> bit x i"
proof -
  from assms have "\<exists>n. bit x n" by (auto simp: bit_eq_iff)
  then have "bit x (LEAST n. bit x n)" by (rule LeastI_ex)
  moreover have "\<not> bit x i" if "i < (LEAST n. bit x n)" for i using not_less_Least [OF that] .
  ultimately show thesis using that bit_imp_le_length by blast
qed

lemma highest_bit:
  assumes "x \<noteq> (0 :: 'a::len word)"
  obtains k where "k < LENGTH('a)" "bit x (LENGTH('a) - 1 - k)"
    "\<And>i. LENGTH('a) - 1 - k < i \<Longrightarrow> \<not> bit x i"
proof -
  obtain m where m: "bit x m" and top: "\<And>i. m < i \<Longrightarrow> \<not> bit x i"
  proof -
    from assms have ne: "{n. bit x n} \<noteq> {}" by (auto simp: bit_eq_iff)
    have fin: "finite {n. bit x n}"
      by (rule finite_subset [of _ "{..<LENGTH('a)}"]) (auto dest: bit_imp_le_length)
    show thesis
    proof (rule that)
      show "bit x (Max {n. bit x n})" using Max_in [OF fin ne] by (rule CollectD)
      show "\<not> bit x i" if less: "Max {n. bit x n} < i" for i
      proof
        assume "bit x i"
        then have "i \<le> Max {n. bit x n}" by (intro Max_ge fin CollectI)
        with less show False by (rule leD [THEN notE, rotated])
      qed
    qed
  qed
  have k: "LENGTH('a) - 1 - (LENGTH('a) - 1 - m) = m" using bit_imp_le_length [OF m] by simp
  show thesis
    using bit_imp_le_length [OF m] m top
    by (intro that [of "LENGTH('a) - 1 - m"]) (simp_all only: k, simp)
qed

definition counts_trailing :: "('a::len word \<Rightarrow> 'a word option) \<Rightarrow> 'a word \<Rightarrow> bool" where
  "counts_trailing f x \<longleftrightarrow> (\<exists>k. f x = Some (of_nat k) \<and>
     (if x = 0 then k = LENGTH('a) else k < LENGTH('a) \<and> bit x k \<and> (\<forall>i<k. \<not> bit x i)))"

definition counts_leading :: "('a::len word \<Rightarrow> 'a word option) \<Rightarrow> 'a word \<Rightarrow> bool" where
  "counts_leading f x \<longleftrightarrow> (\<exists>k. f x = Some (of_nat k) \<and>
     (if x = 0 then k = LENGTH('a)
      else k < LENGTH('a) \<and> bit x (LENGTH('a) - 1 - k) \<and> (\<forall>i>LENGTH('a) - 1 - k. \<not> bit x i)))"

lemma ctz_loop_counts:
  assumes "x \<noteq> (0 :: 'a::len word)"
  shows "counts_trailing (\<lambda>x. ctz_loop x 0) x"
proof -
  obtain k where "k < LENGTH('a)" "bit x k" "\<And>i. i < k \<Longrightarrow> \<not> bit x i" using lowest_bit [OF assms] by blast
  then show ?thesis
    using assms ctz_loop_Some [of x k 0] by (auto simp: counts_trailing_def intro!: exI [of _ k])
qed

lemma clz_loop_counts:
  assumes "x \<noteq> (0 :: 'a::len word)" and hi: "hibit = push_bit (LENGTH('a) - 1) 1"
  shows "counts_leading (\<lambda>x. clz_loop hibit x 0) x"
proof -
  obtain k where "k < LENGTH('a)" "bit x (LENGTH('a) - 1 - k)"
    "\<And>i. LENGTH('a) - 1 - k < i \<Longrightarrow> \<not> bit x i" using highest_bit [OF assms(1)] by blast
  then show ?thesis
    using assms clz_loop_Some [OF hi, of k x 0] by (auto simp: counts_leading_def intro!: exI [of _ k])
qed

text \<open>
  C17. The counting loops end on every argument; the trailing count is the index of the lowest set bit,
  the leading count the distance of the highest set bit from the top, and zero gives the width.
\<close>

theorem counting_correct:
  "counts_trailing I32_CTZ x \<and> counts_leading I32_CLZ x
   \<and> counts_trailing I64_CTZ y \<and> counts_leading I64_CLZ y"
proof -
  have "counts_trailing I32_CTZ x" "counts_leading I32_CLZ x"
    using ctz_loop_counts [of x] clz_loop_counts [of x "0x80000000"]
    by (cases "x = 0"; auto simp: counts_trailing_def counts_leading_def I32_CTZ_def I32_CLZ_def)+
  moreover have "counts_trailing I64_CTZ y" "counts_leading I64_CLZ y"
    using ctz_loop_counts [of y] clz_loop_counts [of y "0x8000000000000000"]
    by (cases "y = 0"; auto simp: counts_trailing_def counts_leading_def I64_CTZ_def I64_CLZ_def)+
  ultimately show ?thesis by blast
qed

end
