(* ===== verification/Runtime.thy ===== *)
theory Runtime
  imports Rt_Arith
begin

text \<open>
  The runtime header \<^verbatim>\<open>src/rt/w2c2_base.h\<close> that every translated guest is compiled against,
  its stateful part: the linear memory in its static arena with bounds-checked accesses, and the
  function table with its checked indirect call.

  The arena is a byte-addressed memory of \<open>arena_pages\<close> pages; a raw access past its end is
  \<open>Unsafe\<close>. The invariant \<open>mem_ok\<close> says how the size, the page count, the maximum and the arena
  agree; under it no checked operation is ever \<open>Unsafe\<close>. The table arena is modelled the same way.
\<close>

section \<open>Linear memory\<close>

definition WASM_PAGE_SIZE :: u32 where "WASM_PAGE_SIZE = 65536"

text \<open>
  \<^verbatim>\<open>struct wasmMemory\<close>: \<open>mem_data\<close> says whether the \<open>data\<close> pointer is set; it can only be set to
  the one arena. \<^verbatim>\<open>wasm_arena\<close>, \<^verbatim>\<open>wasm_arena_pages\<close> and the single \<^verbatim>\<open>wasm_memory0\<close> are the runtime's state.
\<close>

record wasmMemory =
  mem_data :: bool
  mem_size :: u32
  mem_pages :: u32
  mem_max :: u32

record runtime =
  arena :: mem
  arena_pages :: u32
  memory0 :: wasmMemory

definition arena_bytes :: "runtime \<Rightarrow> nat" where
  "arena_bytes rt = unat (arena_pages rt) * 65536"

text \<open>Raw \<open>memcpy\<close> in and out of the arena, without any check of the runtime.\<close>

definition arena_read :: "runtime \<Rightarrow> nat \<Rightarrow> nat \<Rightarrow> (trap, u8 list) res" where
  "arena_read rt a n =
     (if a + n \<le> arena_bytes rt then Val (read_range (arena rt) a n) else Unsafe)"

definition arena_write :: "runtime \<Rightarrow> nat \<Rightarrow> u8 list \<Rightarrow> (trap, runtime) res" where
  "arena_write rt a bs =
     (if a + length bs \<le> arena_bytes rt
      then Val (rt\<lparr>arena := write_range (arena rt) a bs\<rparr>) else Unsafe)"

definition wasmMemoryAllocate :: "runtime \<Rightarrow> u32 \<Rightarrow> u32 \<Rightarrow> bool \<Rightarrow> (trap, runtime) res" where
  "wasmMemoryAllocate rt initialPages maxPages shared =
     (let maxPages = (if maxPages > arena_pages rt then arena_pages rt else maxPages)
      in if shared \<or> mem_data (memory0 rt) \<or> arena_pages rt \<ge> 65536 \<or> initialPages > maxPages
         then Stop trapAllocationFailed
         else Val (rt\<lparr>memory0 := \<lparr>mem_data = True, mem_size = initialPages * WASM_PAGE_SIZE,
                        mem_pages = initialPages, mem_max = maxPages\<rparr>\<rparr>))"

definition wasmMemoryFree :: "runtime \<Rightarrow> runtime" where
  "wasmMemoryFree rt = rt"

definition wasmMemoryGrow :: "runtime \<Rightarrow> u32 \<Rightarrow> runtime \<times> u32" where
  "wasmMemoryGrow rt delta =
     (let m = memory0 rt; old = mem_pages m; new = old + delta
      in if new < old \<or> new > mem_max m then (rt, - 1)
         else (rt\<lparr>memory0 := m\<lparr>mem_pages := new, mem_size := new * WASM_PAGE_SIZE\<rparr>\<rparr>, old))"

definition wasm_check :: "runtime \<Rightarrow> u32 \<Rightarrow> u32 \<Rightarrow> (trap, unit) res" where
  "wasm_check rt addr n =
     (if u64_sum addr n > ucast (mem_size (memory0 rt)) then Stop trapOutOfBoundsMemory else Val ())"

text \<open>
  \<open>memmove\<close> and \<open>memset\<close> are the host's (\<^verbatim>\<open>src/host/main.c\<close>); here they are used by their
  contract, which the theory \<open>Host\<close> proves of the loops.
\<close>

definition wasmMemoryCopy :: "runtime \<Rightarrow> u32 \<Rightarrow> u32 \<Rightarrow> u32 \<Rightarrow> (trap, runtime) res" where
  "wasmMemoryCopy rt da sa n =
     res_bind (wasm_check rt da n) (\<lambda>_.
     res_bind (wasm_check rt sa n) (\<lambda>_.
     res_bind (arena_read rt (unat sa) (unat n)) (\<lambda>bs.
     arena_write rt (unat da) bs)))"

definition wasmMemoryFill :: "runtime \<Rightarrow> u32 \<Rightarrow> u32 \<Rightarrow> u32 \<Rightarrow> (trap, runtime) res" where
  "wasmMemoryFill rt da v n =
     res_bind (wasm_check rt da n) (\<lambda>_.
     arena_write rt (unat da) (replicate (unat n) (ucast v)))"

text \<open>Active data segments (\<^verbatim>\<open>LOAD_DATA\<close>): \<open>s\<close> bytes of the segment go to offset \<open>off\<close>.\<close>

definition LOAD_DATA :: "runtime \<Rightarrow> u32 \<Rightarrow> u8 list \<Rightarrow> u32 \<Rightarrow> (trap, runtime) res" where
  "LOAD_DATA rt off seg s =
     res_bind (wasm_check rt off s) (\<lambda>_.
       if unat s \<le> length seg then arena_write rt (unat off) (take (unat s) seg) else Unsafe)"

text \<open>
  \<open>memory.init\<close> on a passive segment whose current length is \<open>seg_len\<close> (0 once dropped);
  \<open>seg\<close> is the segment's array. A source range past the array would be \<open>Unsafe\<close>.
\<close>

definition wasm_memory_init :: "runtime \<Rightarrow> u32 \<Rightarrow> u8 list \<Rightarrow> u32 \<Rightarrow> u32 \<Rightarrow> u32 \<Rightarrow> (trap, runtime) res" where
  "wasm_memory_init rt dest seg seg_len src n =
     (if u64_sum src n > ucast seg_len then Stop trapOutOfBoundsMemory
      else res_bind (wasm_check rt dest n) (\<lambda>_.
        if unat src + unat n \<le> length seg
        then arena_write rt (unat dest) (take (unat n) (drop (unat src) seg)) else Unsafe))"

section \<open>Loads and stores\<close>

text \<open>
  \<^verbatim>\<open>DEFINE_LOAD(name, t1, t2, t3)\<close>: check, copy \<open>sizeof(t1)\<close> bytes, then the casts
  \<open>(t3)(t2)\<close> given as \<open>cast\<close>. \<^verbatim>\<open>DEFINE_STORE(name, t1, t2)\<close>: truncate to \<open>t1\<close>, check, copy.
  A float is its bit pattern: the accessors only copy it.
\<close>

definition mem_load :: "nat \<Rightarrow> (u8 list \<Rightarrow> 'a) \<Rightarrow> runtime \<Rightarrow> u32 \<Rightarrow> (trap, 'a) res" where
  "mem_load n cast rt a =
     res_bind (wasm_check rt a (of_nat n)) (\<lambda>_.
     res_bind (arena_read rt (unat a) n) (\<lambda>bs. Val (cast bs)))"

definition mem_store :: "nat \<Rightarrow> ('a::len word \<Rightarrow> nat) \<Rightarrow> runtime \<Rightarrow> u32 \<Rightarrow> 'a word \<Rightarrow> (trap, runtime) res" where
  "mem_store n cast rt a v =
     res_bind (wasm_check rt a (of_nat n)) (\<lambda>_. arena_write rt (unat a) (le_bytes n (cast v)))"

definition i32_load :: "runtime \<Rightarrow> u32 \<Rightarrow> (trap, u32) res" where
  "i32_load = mem_load 4 le_word"
definition i64_load :: "runtime \<Rightarrow> u32 \<Rightarrow> (trap, u64) res" where
  "i64_load = mem_load 8 le_word"
definition f32_load :: "runtime \<Rightarrow> u32 \<Rightarrow> (trap, u32) res" where
  "f32_load = mem_load 4 le_word"
definition f64_load :: "runtime \<Rightarrow> u32 \<Rightarrow> (trap, u64) res" where
  "f64_load = mem_load 8 le_word"
definition i32_load8_s :: "runtime \<Rightarrow> u32 \<Rightarrow> (trap, u32) res" where
  "i32_load8_s = mem_load 1 (\<lambda>bs. scast (le_word bs :: u8))"
definition i64_load8_s :: "runtime \<Rightarrow> u32 \<Rightarrow> (trap, u64) res" where
  "i64_load8_s = mem_load 1 (\<lambda>bs. scast (scast (le_word bs :: u8) :: u64))"
definition i32_load8_u :: "runtime \<Rightarrow> u32 \<Rightarrow> (trap, u32) res" where
  "i32_load8_u = mem_load 1 (\<lambda>bs. ucast (le_word bs :: u8))"
definition i64_load8_u :: "runtime \<Rightarrow> u32 \<Rightarrow> (trap, u64) res" where
  "i64_load8_u = mem_load 1 (\<lambda>bs. ucast (le_word bs :: u8))"
definition i32_load16_s :: "runtime \<Rightarrow> u32 \<Rightarrow> (trap, u32) res" where
  "i32_load16_s = mem_load 2 (\<lambda>bs. scast (le_word bs :: u16))"
definition i64_load16_s :: "runtime \<Rightarrow> u32 \<Rightarrow> (trap, u64) res" where
  "i64_load16_s = mem_load 2 (\<lambda>bs. scast (le_word bs :: u16))"
definition i32_load16_u :: "runtime \<Rightarrow> u32 \<Rightarrow> (trap, u32) res" where
  "i32_load16_u = mem_load 2 (\<lambda>bs. ucast (le_word bs :: u16))"
definition i64_load16_u :: "runtime \<Rightarrow> u32 \<Rightarrow> (trap, u64) res" where
  "i64_load16_u = mem_load 2 (\<lambda>bs. ucast (le_word bs :: u16))"
definition i64_load32_s :: "runtime \<Rightarrow> u32 \<Rightarrow> (trap, u64) res" where
  "i64_load32_s = mem_load 4 (\<lambda>bs. scast (le_word bs :: u32))"
definition i64_load32_u :: "runtime \<Rightarrow> u32 \<Rightarrow> (trap, u64) res" where
  "i64_load32_u = mem_load 4 (\<lambda>bs. ucast (le_word bs :: u32))"

definition i32_store :: "runtime \<Rightarrow> u32 \<Rightarrow> u32 \<Rightarrow> (trap, runtime) res" where
  "i32_store = mem_store 4 unat"
definition i64_store :: "runtime \<Rightarrow> u32 \<Rightarrow> u64 \<Rightarrow> (trap, runtime) res" where
  "i64_store = mem_store 8 unat"
definition f32_store :: "runtime \<Rightarrow> u32 \<Rightarrow> u32 \<Rightarrow> (trap, runtime) res" where
  "f32_store = mem_store 4 unat"
definition f64_store :: "runtime \<Rightarrow> u32 \<Rightarrow> u64 \<Rightarrow> (trap, runtime) res" where
  "f64_store = mem_store 8 unat"
definition i32_store8 :: "runtime \<Rightarrow> u32 \<Rightarrow> u32 \<Rightarrow> (trap, runtime) res" where
  "i32_store8 = mem_store 1 (\<lambda>v. unat (ucast v :: u8))"
definition i32_store16 :: "runtime \<Rightarrow> u32 \<Rightarrow> u32 \<Rightarrow> (trap, runtime) res" where
  "i32_store16 = mem_store 2 (\<lambda>v. unat (ucast v :: u16))"
definition i64_store8 :: "runtime \<Rightarrow> u32 \<Rightarrow> u64 \<Rightarrow> (trap, runtime) res" where
  "i64_store8 = mem_store 1 (\<lambda>v. unat (ucast v :: u8))"
definition i64_store16 :: "runtime \<Rightarrow> u32 \<Rightarrow> u64 \<Rightarrow> (trap, runtime) res" where
  "i64_store16 = mem_store 2 (\<lambda>v. unat (ucast v :: u16))"
definition i64_store32 :: "runtime \<Rightarrow> u32 \<Rightarrow> u64 \<Rightarrow> (trap, runtime) res" where
  "i64_store32 = mem_store 4 (\<lambda>v. unat (ucast v :: u32))"

section \<open>The memory invariant\<close>

definition mem_ok :: "runtime \<Rightarrow> bool" where
  "mem_ok rt \<longleftrightarrow>
     (let m = memory0 rt in
      if mem_data m
      then arena_pages rt < 65536 \<and> mem_pages m \<le> mem_max m \<and> mem_max m \<le> arena_pages rt
           \<and> mem_size m = mem_pages m * WASM_PAGE_SIZE
      else mem_size m = 0 \<and> mem_pages m = 0 \<and> mem_max m = 0)"

text \<open>Everything of the arena above the current size is still zero.\<close>

definition mem_zero :: "runtime \<Rightarrow> bool" where
  "mem_zero rt \<longleftrightarrow>
     (\<forall>i. unat (mem_size (memory0 rt)) \<le> i \<and> i < arena_bytes rt \<longrightarrow> arena rt i = 0)"

definition mem_inv :: "runtime \<Rightarrow> bool" where
  "mem_inv rt \<longleftrightarrow> mem_ok rt \<and> mem_zero rt"

definition mem_bytes :: "runtime \<Rightarrow> nat" where
  "mem_bytes rt = unat (mem_size (memory0 rt))"

lemma unat_pages:
  assumes "p < (65536 :: u32)"
  shows "unat (p * WASM_PAGE_SIZE) = unat p * 65536"
proof -
  from assms have "unat p < 65536" by (simp add: word_less_nat_alt)
  then have "unat p * 65536 < 2 ^ LENGTH(32)" by simp
  then show ?thesis by (simp add: WASM_PAGE_SIZE_def unat_word_ariths)
qed

lemma mem_bytes_pages: "mem_ok rt \<Longrightarrow> mem_bytes rt = unat (mem_pages (memory0 rt)) * 65536"
  unfolding mem_ok_def mem_bytes_def Let_def
  by (cases "mem_data (memory0 rt)") (auto intro!: unat_pages)

lemma mem_bytes_arena: "mem_ok rt \<Longrightarrow> mem_bytes rt \<le> arena_bytes rt"
proof -
  assume ok: "mem_ok rt"
  then have "unat (mem_pages (memory0 rt)) \<le> unat (arena_pages rt)"
    by (auto simp: mem_ok_def Let_def word_le_nat_alt split: if_splits)
  with ok show ?thesis by (simp add: mem_bytes_pages arena_bytes_def)
qed

lemma wasm_check_eq:
  "wasm_check rt a n =
     (if unat a + unat n \<le> mem_bytes rt then Val () else Stop trapOutOfBoundsMemory)"
  by (auto simp: wasm_check_def mem_bytes_def u64_sum_greater not_less)

lemma arena_write_in_memory:
  "mem_ok rt \<Longrightarrow> a + length bs \<le> mem_bytes rt \<Longrightarrow>
   arena_write rt a bs = Val (rt\<lparr>arena := write_range (arena rt) a bs\<rparr>)"
  using mem_bytes_arena [of rt] by (simp add: arena_write_def)

lemma arena_read_in_memory:
  "mem_ok rt \<Longrightarrow> a + n \<le> mem_bytes rt \<Longrightarrow>
   arena_read rt a n = Val (read_range (arena rt) a n)"
  using mem_bytes_arena [of rt] by (simp add: arena_read_def)

lemma mem_inv_write [intro]:
  "mem_inv rt \<Longrightarrow> a + length bs \<le> mem_bytes rt \<Longrightarrow>
   mem_inv (rt\<lparr>arena := write_range (arena rt) a bs\<rparr>)"
  by (auto simp: mem_inv_def mem_ok_def mem_zero_def mem_bytes_def arena_bytes_def
      write_range_outside Let_def)

text \<open>What each accessor does, on every branch, in a well-formed memory.\<close>

lemma mem_load_eq:
  assumes "mem_ok rt" and "n < 2 ^ 32"
  shows "mem_load n cast rt a =
     (if unat a + n \<le> mem_bytes rt then Val (cast (read_range (arena rt) (unat a) n))
      else Stop trapOutOfBoundsMemory)"
  using assms
  by (auto simp: mem_load_def wasm_check_eq arena_read_in_memory unat_of_nat)

lemma mem_store_eq:
  assumes "mem_ok rt" and "n < 2 ^ 32"
  shows "mem_store n cast rt a v =
     (if unat a + n \<le> mem_bytes rt
      then Val (rt\<lparr>arena := write_range (arena rt) (unat a) (le_bytes n (cast v))\<rparr>)
      else Stop trapOutOfBoundsMemory)"
  using assms
  by (auto simp: mem_store_def wasm_check_eq arena_write_in_memory unat_of_nat)

lemma wasmMemoryCopy_eq:
  assumes "mem_ok rt"
  shows "wasmMemoryCopy rt da sa n =
     (if unat da + unat n \<le> mem_bytes rt \<and> unat sa + unat n \<le> mem_bytes rt
      then Val (rt\<lparr>arena := write_range (arena rt) (unat da)
                              (read_range (arena rt) (unat sa) (unat n))\<rparr>)
      else Stop trapOutOfBoundsMemory)"
  using assms
  by (auto simp: wasmMemoryCopy_def wasm_check_eq arena_read_in_memory arena_write_in_memory)

lemma wasmMemoryFill_eq:
  assumes "mem_ok rt"
  shows "wasmMemoryFill rt da v n =
     (if unat da + unat n \<le> mem_bytes rt
      then Val (rt\<lparr>arena := write_range (arena rt) (unat da) (replicate (unat n) (ucast v))\<rparr>)
      else Stop trapOutOfBoundsMemory)"
  using assms by (auto simp: wasmMemoryFill_def wasm_check_eq arena_write_in_memory)

lemma wasm_memory_init_eq:
  assumes "mem_ok rt" and "unat seg_len \<le> length seg"
  shows "wasm_memory_init rt dest seg seg_len src n =
     (if unat src + unat n \<le> unat seg_len \<and> unat dest + unat n \<le> mem_bytes rt
      then Val (rt\<lparr>arena := write_range (arena rt) (unat dest)
                              (take (unat n) (drop (unat src) seg))\<rparr>)
      else Stop trapOutOfBoundsMemory)"
  using assms
  by (auto simp: wasm_memory_init_def u64_sum_greater wasm_check_eq arena_write_in_memory)

lemma LOAD_DATA_eq:
  assumes "mem_ok rt" and "unat s \<le> length seg"
  shows "LOAD_DATA rt off seg s =
     (if unat off + unat s \<le> mem_bytes rt
      then Val (rt\<lparr>arena := write_range (arena rt) (unat off) (take (unat s) seg)\<rparr>)
      else Stop trapOutOfBoundsMemory)"
  using assms by (auto simp: LOAD_DATA_def wasm_check_eq arena_write_in_memory)

lemma wasmMemoryAllocate_inv:
  assumes "mem_inv rt" and "wasmMemoryAllocate rt ini mx sh = Val rt'"
  shows "mem_inv rt'" and "mem_data (memory0 rt')"
    and "mem_bytes rt' = unat ini * 65536" and "arena rt' = arena rt"
proof -
  let ?mx = "if mx > arena_pages rt then arena_pages rt else mx"
  from assms(2) have c: "\<not> mem_data (memory0 rt)" "arena_pages rt < 65536" "ini \<le> ?mx"
    and rt': "rt' = rt\<lparr>memory0 := \<lparr>mem_data = True, mem_size = ini * WASM_PAGE_SIZE,
                                     mem_pages = ini, mem_max = ?mx\<rparr>\<rparr>"
    by (auto simp: wasmMemoryAllocate_def Let_def split: if_splits)
  from c have mxle: "?mx \<le> arena_pages rt" by auto
  from c mxle have "ini < 65536" by (meson order_le_less_trans)
  then show b: "mem_bytes rt' = unat ini * 65536"
    by (simp add: rt' mem_bytes_def unat_pages)
  show "mem_data (memory0 rt')" "arena rt' = arena rt" by (simp_all add: rt')
  have "mem_ok rt'" using c mxle by (simp add: rt' mem_ok_def)
  moreover have "mem_size (memory0 rt) = 0"
    using assms(1) c by (simp add: mem_inv_def mem_ok_def Let_def)
  then have "mem_zero rt'"
    using assms(1) by (auto simp: rt' mem_inv_def mem_zero_def arena_bytes_def)
  ultimately show "mem_inv rt'" by (simp add: mem_inv_def)
qed

text \<open>
  \<open>memory.grow\<close>: it succeeds exactly when the sum of pages stays within the maximum, then only the
  limit moves; the bytes it exposes are zero.
\<close>

lemma wasmMemoryGrow_cases:
  assumes "mem_inv rt" and "wasmMemoryGrow rt d = (rt', r)"
  obtains (grown) "unat (mem_pages (memory0 rt)) + unat d \<le> unat (mem_max (memory0 rt))"
      "r = mem_pages (memory0 rt)" "mem_bytes rt' = mem_bytes rt + unat d * 65536"
      "arena rt' = arena rt" "arena_pages rt' = arena_pages rt" "mem_inv rt'"
      "mem_data (memory0 rt') = mem_data (memory0 rt)"
      "mem_max (memory0 rt') = mem_max (memory0 rt)"
      "mem_pages (memory0 rt') = mem_pages (memory0 rt) + d"
  | (refused) "unat (mem_max (memory0 rt)) < unat (mem_pages (memory0 rt)) + unat d"
      "r = - 1" "rt' = rt"
proof -
  let ?m = "memory0 rt" and ?new = "mem_pages (memory0 rt) + d"
  have ok: "mem_ok rt" using assms(1) by (simp add: mem_inv_def)
  then have mx: "mem_max ?m < 65536"
    by (auto simp: mem_ok_def Let_def split: if_splits)
  have wrap: "?new < mem_pages ?m \<or> ?new > mem_max ?m \<longleftrightarrow>
      unat (mem_max ?m) < unat (mem_pages ?m) + unat d"
    using mx unat_u32_less [of "mem_pages ?m"] unat_u32_less [of d]
    by (auto simp: word_less_nat_alt unat_word_ariths)
      (auto simp: mod_if split: if_splits)
  show thesis
  proof (cases "?new < mem_pages ?m \<or> ?new > mem_max ?m")
    case True
    with assms(2) wrap show thesis
      by (auto simp: wasmMemoryGrow_def Let_def intro: refused)
  next
    case False
    then have rt': "rt' = rt\<lparr>memory0 := ?m\<lparr>mem_pages := ?new, mem_size := ?new * WASM_PAGE_SIZE\<rparr>\<rparr>"
      and r: "r = mem_pages ?m"
      using assms(2) by (auto simp: wasmMemoryGrow_def Let_def)
    have le: "unat (mem_pages ?m) + unat d \<le> unat (mem_max ?m)" using False wrap by simp
    then have new: "unat ?new = unat (mem_pages ?m) + unat d"
      using mx by (auto simp: word_less_nat_alt unat_word_ariths)
    have "?new < 65536" using False mx by (meson not_less order_le_less_trans)
    then have "mem_bytes rt' = (unat (mem_pages ?m) + unat d) * 65536"
      by (simp add: rt' mem_bytes_def unat_pages new)
    then have b: "mem_bytes rt' = mem_bytes rt + unat d * 65536"
      using ok by (simp add: mem_bytes_pages add_mult_distrib)
    have "mem_zero rt'"
      using assms(1) b by (auto simp: rt' mem_inv_def mem_zero_def mem_bytes_def arena_bytes_def)
    moreover have "mem_ok rt'"
    proof (cases "mem_data ?m")
      case True
      with ok False show ?thesis by (auto simp: rt' mem_ok_def Let_def)
    next
      case False
      with ok le have "unat d = 0" by (auto simp: mem_ok_def Let_def)
      then have "d = 0" by (simp add: unat_eq_zero)
      with False ok show ?thesis by (auto simp: rt' mem_ok_def Let_def)
    qed
    ultimately have "mem_inv rt'" by (simp add: mem_inv_def)
    with le r b show thesis by (intro grown) (auto simp: rt')
  qed
qed

section \<open>Tables\<close>

text \<open>
  \<^verbatim>\<open>wasm_table_arena\<close> holds function pointers (a null pointer is \<open>None\<close>; \<open>'f\<close> is the type of
  functions) and \<^verbatim>\<open>wasm_table_types_arena\<close> the canonical type id of each entry; both have
  \<open>tab_arena_size\<close> slots. \<^verbatim>\<open>struct wasmTable\<close> points into them, so all tables share one arena.
\<close>

record 'f tables =
  tab_arena :: "nat \<Rightarrow> 'f option"
  tab_types :: "nat \<Rightarrow> u32"
  tab_arena_size :: u32

record wasmTable =
  tab_data :: bool
  tab_size :: u32
  tab_max :: u32

definition wasmTableAllocate :: "'f tables \<Rightarrow> wasmTable \<Rightarrow> u32 \<Rightarrow> u32 \<Rightarrow> (trap, wasmTable) res" where
  "wasmTableAllocate ts t tsize maxSize =
     (let maxSize = (if maxSize > tab_arena_size ts then tab_arena_size ts else maxSize)
      in if tab_data t \<or> tsize > maxSize then Stop trapAllocationFailed
         else Val \<lparr>tab_data = True, tab_size = tsize, tab_max = maxSize\<rparr>)"

definition wasmTableFree :: "wasmTable \<Rightarrow> wasmTable" where
  "wasmTableFree t = t"

definition wasm_table_init :: "wasmTable \<Rightarrow> u32 \<Rightarrow> u32 \<Rightarrow> (trap, unit) res" where
  "wasm_table_init t offset count =
     (if u64_sum offset count > ucast (tab_size t) then Stop trapOutOfBoundsTable else Val ())"

text \<open>Raw reads and writes of one slot of both arrays.\<close>

definition slot_read :: "'f tables \<Rightarrow> nat \<Rightarrow> (trap, 'f option \<times> u32) res" where
  "slot_read ts i =
     (if i < unat (tab_arena_size ts) then Val (tab_arena ts i, tab_types ts i) else Unsafe)"

definition slot_write :: "'f tables \<Rightarrow> nat \<Rightarrow> 'f \<Rightarrow> u32 \<Rightarrow> (trap, 'f tables) res" where
  "slot_write ts i f ty =
     (if i < unat (tab_arena_size ts)
      then Val (ts\<lparr>tab_arena := (tab_arena ts)(i := Some f), tab_types := (tab_types ts)(i := ty)\<rparr>)
      else Unsafe)"

definition wasm_table_get :: "'f tables \<Rightarrow> wasmTable \<Rightarrow> u32 \<Rightarrow> u32 \<Rightarrow> (trap, 'f) res" where
  "wasm_table_get ts t i expected_type =
     (if i \<ge> tab_size t then Stop trapOutOfBoundsTable
      else res_bind (slot_read ts (unat i)) (\<lambda>(f, ty).
        case f of
          None \<Rightarrow> Stop trapNullFunction
        | Some g \<Rightarrow> if ty \<noteq> expected_type then Stop trapIndirectCallTypeMismatch else Val g))"

definition tab_ok :: "'f tables \<Rightarrow> wasmTable \<Rightarrow> bool" where
  "tab_ok ts t \<longleftrightarrow> tab_size t \<le> tab_max t \<and> tab_max t \<le> tab_arena_size ts"

lemma wasmTableAllocate_ok:
  "wasmTableAllocate ts t n mx = Val t' \<Longrightarrow> tab_ok ts t' \<and> tab_size t' = n"
  by (auto simp: wasmTableAllocate_def tab_ok_def Let_def not_less split: if_splits)

lemma wasm_table_init_eq:
  "wasm_table_init t off n =
     (if unat off + unat n \<le> unat (tab_size t) then Val () else Stop trapOutOfBoundsTable)"
  by (auto simp: wasm_table_init_def u64_sum_greater not_less)

lemma tab_ok_index: "tab_ok ts t \<Longrightarrow> i < unat (tab_size t) \<Longrightarrow> i < unat (tab_arena_size ts)"
  by (simp add: tab_ok_def word_le_nat_alt)

lemma wasm_table_get_eq:
  assumes "tab_ok ts t"
  shows "wasm_table_get ts t i ty =
     (if tab_size t \<le> i then Stop trapOutOfBoundsTable
      else case tab_arena ts (unat i) of
        None \<Rightarrow> Stop trapNullFunction
      | Some f \<Rightarrow> if tab_types ts (unat i) = ty then Val f else Stop trapIndirectCallTypeMismatch)"
  using tab_ok_index [OF assms, of "unat i"]
  by (auto simp: wasm_table_get_def slot_read_def not_le word_less_nat_alt word_le_nat_alt split: option.splits)

text \<open>
  The writes the translator emits for one element segment after \<^verbatim>\<open>wasm_table_init\<close>
  (\<^verbatim>\<open>src/w2c2/c.c\<close>, \<^verbatim>\<open>wasmCWriteInitTables\<close>): entry \<open>k\<close> of the segment and its type id go to slot
  \<open>offset + k\<close>, computed in \<open>U32\<close>.
\<close>

fun element_writes :: "'f tables \<Rightarrow> u32 \<Rightarrow> ('f \<times> u32) list \<Rightarrow> (trap, 'f tables) res" where
  "element_writes ts off [] = Val ts"
| "element_writes ts off ((f, ty) # es) =
     res_bind (slot_write ts (unat off) f ty) (\<lambda>ts'. element_writes ts' (off + 1) es)"

definition element_segment :: "'f tables \<Rightarrow> wasmTable \<Rightarrow> u32 \<Rightarrow> ('f \<times> u32) list \<Rightarrow> (trap, 'f tables) res" where
  "element_segment ts t off es =
     res_bind (wasm_table_init t off (of_nat (length es))) (\<lambda>_. element_writes ts off es)"

text \<open>A checked element segment replaces exactly the slots \<open>off \<dots> off + count - 1\<close>.\<close>

lemma element_writes_eq:
  "unat off + length es \<le> unat (tab_arena_size ts) \<Longrightarrow>
   element_writes ts off es =
     Val (ts\<lparr>tab_arena := (\<lambda>i. if unat off \<le> i \<and> i < unat off + length es
                              then Some (fst (es ! (i - unat off))) else tab_arena ts i),
            tab_types := (\<lambda>i. if unat off \<le> i \<and> i < unat off + length es
                              then snd (es ! (i - unat off)) else tab_types ts i)\<rparr>)"
proof (induction es arbitrary: ts off)
  case Nil
  then show ?case by (auto simp: fun_eq_iff intro!: tables.equality)
next
  case (Cons e es)
  obtain f ty where e: "e = (f, ty)" by (cases e)
  let ?ts = "ts\<lparr>tab_arena := (tab_arena ts)(unat off := Some f),
                 tab_types := (tab_types ts)(unat off := ty)\<rparr>"
  have lt: "unat off + 1 < 4294967296 \<or> es = []"
    using Cons.prems unat_u32_less [of "tab_arena_size ts"] by (cases es) auto
  have step: "element_writes ts off (e # es) = element_writes ?ts (off + 1) es"
    using Cons.prems by (simp add: e slot_write_def)
  show ?case
  proof (cases "es = []")
    case True
    then show ?thesis
      using step by (auto simp: e fun_eq_iff intro!: tables.equality)
  next
    case False
    with lt have off1: "unat (off + 1) = Suc (unat off)"
      by (auto simp: unat_word_ariths)
    have le: "unat (off + 1) + length es \<le> unat (tab_arena_size ?ts)"
      using Cons.prems off1 by simp
    show ?thesis
      unfolding step Cons.IH [OF le] off1
      by (auto simp: e fun_eq_iff nth_Cons' intro!: tables.equality)
  qed
qed

lemma element_segment_cases:
  assumes ok: "tab_ok ts t" and len: "length es < 2 ^ 32"
  shows "element_segment ts t off es =
     (if unat off + length es \<le> unat (tab_size t)
      then Val (ts\<lparr>tab_arena := (\<lambda>i. if unat off \<le> i \<and> i < unat off + length es
                                  then Some (fst (es ! (i - unat off))) else tab_arena ts i),
                tab_types := (\<lambda>i. if unat off \<le> i \<and> i < unat off + length es
                                  then snd (es ! (i - unat off)) else tab_types ts i)\<rparr>)
      else Stop trapOutOfBoundsTable)"
proof -
  have "tab_size t \<le> tab_arena_size ts" using ok by (auto simp: tab_ok_def)
  then have "unat (tab_size t) \<le> unat (tab_arena_size ts)" by (simp add: word_le_nat_alt)
  with len show ?thesis
    by (auto simp: element_segment_def wasm_table_init_eq element_writes_eq unat_of_nat)
qed

section \<open>Properties of the runtime\<close>

text \<open>
  C9. Bounds: in a well-formed memory a load or a store of \<open>n\<close> bytes succeeds exactly when the whole
  range lies below the current size, with the address not wrapping, and traps otherwise; it never
  leaves the arena.
\<close>

theorem access_checked:
  assumes "mem_ok rt" and "n < 2 ^ 32"
  shows "mem_load n cast rt a =
      (if unat a + n \<le> mem_bytes rt then Val (cast (read_range (arena rt) (unat a) n))
       else Stop trapOutOfBoundsMemory)
    \<and> mem_store n cast' rt a v =
      (if unat a + n \<le> mem_bytes rt
       then Val (rt\<lparr>arena := write_range (arena rt) (unat a) (le_bytes n (cast' v))\<rparr>)
       else Stop trapOutOfBoundsMemory)
    \<and> mem_bytes rt \<le> arena_bytes rt"
  using mem_load_eq [OF assms] mem_store_eq [OF assms] mem_bytes_arena [OF assms(1)] by blast

definition one_page :: runtime where
  "one_page = \<lparr>arena = (\<lambda>_. 0), arena_pages = 2,
     memory0 = \<lparr>mem_data = True, mem_size = 65536, mem_pages = 1, mem_max = 2\<rparr>\<rparr>"

lemma one_page_inv: "mem_inv one_page"
  by (simp add: one_page_def mem_inv_def mem_ok_def mem_zero_def WASM_PAGE_SIZE_def arena_bytes_def)

lemma one_page_ok: "mem_ok one_page"
  using one_page_inv by (simp add: mem_inv_def)

theorem access_checked_witness:
  "mem_load 4 (le_word :: u8 list \<Rightarrow> u32) one_page 65532 =
     Val (le_word (read_range (arena one_page) 65532 4))
   \<and> mem_load 4 (le_word :: u8 list \<Rightarrow> u32) one_page 0xFFFFFFFE = Stop trapOutOfBoundsMemory"
  using access_checked [OF one_page_ok, THEN conjunct1, of 4 "le_word :: u8 list \<Rightarrow> u32" 65532]
    access_checked [OF one_page_ok, THEN conjunct1, of 4 "le_word :: u8 list \<Rightarrow> u32" "0xFFFFFFFE"]
  by (simp add: mem_bytes_def one_page_def)

lemma nth_le_bytes: "i < n \<Longrightarrow> le_bytes n x ! i = word_of_nat (x div 256 ^ i mod 256)"
proof (induction n arbitrary: i x)
  case (Suc n)
  then show ?case by (cases i) (simp_all add: div_mult2_eq [symmetric])
qed simp

text \<open>What a store of the low \<open>n\<close> bytes of \<open>x\<close> is to do: those bytes, no other, or a trap and nothing.\<close>

definition stores :: "runtime \<Rightarrow> u32 \<Rightarrow> nat \<Rightarrow> nat \<Rightarrow> (trap, runtime) res \<Rightarrow> bool" where
  "stores rt a n x r \<longleftrightarrow>
     (if unat a + n \<le> mem_bytes rt
      then \<exists>m. r = Val (rt\<lparr>arena := m\<rparr>) \<and> mem_inv (rt\<lparr>arena := m\<rparr>)
        \<and> (\<forall>i < n. unat (m (unat a + i)) = x div 256 ^ i mod 256)
        \<and> (\<forall>i. i < unat a \<or> unat a + n \<le> i \<longrightarrow> m i = arena rt i)
      else r = Stop trapOutOfBoundsMemory)"

lemma byte_of_mod: "i < n \<Longrightarrow> (x :: nat) mod 256 ^ n div 256 ^ i mod 256 = x div 256 ^ i mod 256"
proof -
  assume "i < n"
  have p: "(256 :: nat) ^ k = 2 ^ (8 * k)" for k by (simp add: power_mult)
  have "take_bit 8 (drop_bit (8 * i) (take_bit (8 * n) x)) = take_bit 8 (drop_bit (8 * i) x)"
    using \<open>i < n\<close> by (intro bit_eqI) (auto simp: bit_simps)
  then show ?thesis unfolding p by (simp add: take_bit_eq_mod drop_bit_eq_div)
qed

lemma mem_store_stores:
  assumes "mem_inv rt" "n < 2 ^ 32" "cast v = x mod 256 ^ n"
  shows "stores rt a n x (mem_store n cast rt a v)"
proof -
  have ok: "mem_ok rt" using assms(1) by (simp add: mem_inv_def)
  have b: "unat (le_bytes n (cast v) ! i) = x div 256 ^ i mod 256" if "i < n" for i
    using that assms(3) by (simp add: nth_le_bytes unat_word_of_nat_u8 byte_of_mod)
  show ?thesis
  proof (cases "unat a + n \<le> mem_bytes rt")
    case True
    let ?m = "write_range (arena rt) (unat a) (le_bytes n (cast v))"
    have "mem_store n cast rt a v = Val (rt\<lparr>arena := ?m\<rparr>)" using True by (simp add: mem_store_eq [OF ok assms(2)])
    moreover have "mem_inv (rt\<lparr>arena := ?m\<rparr>)" using True assms(1) by auto
    ultimately show ?thesis
      unfolding stores_def using True b by (auto simp: write_range_inside write_range_outside)
  next
    case False
    then show ?thesis unfolding stores_def by (simp add: mem_store_eq [OF ok assms(2)])
  qed
qed

lemma mem_store_back:
  assumes inv: "mem_inv rt" and st: "mem_store n cast rt a v = Val rt'" and n: "n < 2 ^ 32"
    and x: "dec (le_bytes n (cast v)) = x"
  shows "mem_load n dec rt' a = Val x"
proof -
  have ok: "mem_ok rt" using inv by (simp add: mem_inv_def)
  have fits: "unat a + n \<le> mem_bytes rt" and rt': "rt' = rt\<lparr>arena := write_range (arena rt) (unat a) (le_bytes n (cast v))\<rparr>"
    using st by (auto simp: mem_store_eq [OF ok n] split: if_splits)
  have "mem_inv rt'" unfolding rt' using fits inv by auto
  then have "mem_ok rt'" by (simp add: mem_inv_def)
  moreover have "mem_bytes rt' = mem_bytes rt" by (simp add: rt' mem_bytes_def)
  ultimately show ?thesis using fits n by (simp add: mem_load_eq) (simp add: rt' read_write_same x)
qed

lemma narrow:
  "(ucast (ucast (v :: u32) :: u8) :: u32) = take_bit 8 v" "(scast (ucast (v :: u32) :: u8) :: u32) = signed_take_bit 7 v"
  "(ucast (ucast (v :: u32) :: u16) :: u32) = take_bit 16 v" "(scast (ucast (v :: u32) :: u16) :: u32) = signed_take_bit 15 v"
  "(ucast (ucast (w :: u64) :: u8) :: u64) = take_bit 8 w" "(scast (ucast (w :: u64) :: u8) :: u64) = signed_take_bit 7 w"
  "(ucast (ucast (w :: u64) :: u16) :: u64) = take_bit 16 w" "(scast (ucast (w :: u64) :: u16) :: u64) = signed_take_bit 15 w"
  "(ucast (ucast (w :: u64) :: u32) :: u64) = take_bit 32 w" "(scast (ucast (w :: u64) :: u32) :: u64) = signed_take_bit 31 w"
  by (rule bit_word_eqI; auto simp: bit_simps min_def)+

text \<open>
  C10. Every store, in a well-formed memory, writes the bytes of the value it is named for in little-endian order
  at its address, and no other byte of the memory, of the tables or of anything else, or traps with nothing
  written; and the load of the same width reads it back: whole words as they were, the narrow ones extended with
  zeros or with the sign.
\<close>

theorem store_load:
  assumes "mem_inv rt"
  shows "(stores rt a 4 (unat v) (i32_store rt a v) \<and> stores rt a 8 (unat w) (i64_store rt a w)
      \<and> stores rt a 4 (unat v) (f32_store rt a v) \<and> stores rt a 8 (unat w) (f64_store rt a w)
      \<and> stores rt a 1 (unat v) (i32_store8 rt a v) \<and> stores rt a 2 (unat v) (i32_store16 rt a v)
      \<and> stores rt a 1 (unat w) (i64_store8 rt a w) \<and> stores rt a 2 (unat w) (i64_store16 rt a w)
      \<and> stores rt a 4 (unat w) (i64_store32 rt a w))
    \<and> (i32_store rt a v = Val rt' \<longrightarrow> i32_load rt' a = Val v)
    \<and> (i64_store rt a w = Val rt' \<longrightarrow> i64_load rt' a = Val w)
    \<and> (f32_store rt a v = Val rt' \<longrightarrow> f32_load rt' a = Val v)
    \<and> (f64_store rt a w = Val rt' \<longrightarrow> f64_load rt' a = Val w)
    \<and> (i32_store8 rt a v = Val rt' \<longrightarrow> i32_load8_u rt' a = Val (take_bit 8 v) \<and> i32_load8_s rt' a = Val (signed_take_bit 7 v))
    \<and> (i32_store16 rt a v = Val rt' \<longrightarrow> i32_load16_u rt' a = Val (take_bit 16 v) \<and> i32_load16_s rt' a = Val (signed_take_bit 15 v))
    \<and> (i64_store8 rt a w = Val rt' \<longrightarrow> i64_load8_u rt' a = Val (take_bit 8 w) \<and> i64_load8_s rt' a = Val (signed_take_bit 7 w))
    \<and> (i64_store16 rt a w = Val rt' \<longrightarrow> i64_load16_u rt' a = Val (take_bit 16 w) \<and> i64_load16_s rt' a = Val (signed_take_bit 15 w))
    \<and> (i64_store32 rt a w = Val rt' \<longrightarrow> i64_load32_u rt' a = Val (take_bit 32 w) \<and> i64_load32_s rt' a = Val (signed_take_bit 31 w))"
proof (intro conjI)
  note st = mem_store_stores [OF assms]
  show "stores rt a 4 (unat v) (i32_store rt a v)" "stores rt a 4 (unat v) (f32_store rt a v)"
    using unat_u32_less [of v] by (auto simp: i32_store_def f32_store_def intro!: st)
  show "stores rt a 8 (unat w) (i64_store rt a w)" "stores rt a 8 (unat w) (f64_store rt a w)"
    using unat_u64_less [of w] by (auto simp: i64_store_def f64_store_def intro!: st)
  show "stores rt a 1 (unat v) (i32_store8 rt a v)" "stores rt a 2 (unat v) (i32_store16 rt a v)"
    "stores rt a 1 (unat w) (i64_store8 rt a w)" "stores rt a 2 (unat w) (i64_store16 rt a w)"
    "stores rt a 4 (unat w) (i64_store32 rt a w)"
    unfolding i32_store8_def i32_store16_def i64_store8_def i64_store16_def i64_store32_def
    by (rule st; simp add: unsigned_ucast_eq unsigned_take_bit_eq take_bit_eq_mod)+
qed (auto simp: i32_store_def i64_store_def f32_store_def f64_store_def i32_store8_def
    i32_store16_def i64_store8_def i64_store16_def i64_store32_def i32_load_def i64_load_def f32_load_def f64_load_def
    i32_load8_u_def i32_load8_s_def i32_load16_u_def i32_load16_s_def i64_load8_u_def i64_load8_s_def i64_load16_u_def
    i64_load16_s_def i64_load32_u_def i64_load32_s_def narrow simp del: One_nat_def intro: mem_store_back [OF assms])

theorem store_load_witness:
  "\<exists>rt'. i32_store16 one_page 16 0xDEADBEEF = Val rt' \<and> i32_load16_u rt' 16 = Val 0xBEEF \<and> arena rt' 18 = arena one_page 18"
proof -
  have "stores one_page 16 2 (unat (0xDEADBEEF :: u32)) (i32_store16 one_page 16 0xDEADBEEF)"
    using store_load [OF one_page_inv, of 16 "0xDEADBEEF" 0] by blast
  moreover have "unat (16 :: u32) + 2 \<le> mem_bytes one_page" by (simp add: mem_bytes_def one_page_def)
  ultimately obtain m where "i32_store16 one_page 16 0xDEADBEEF = Val (one_page\<lparr>arena := m\<rparr>)" "m 18 = arena one_page 18"
    by (auto simp: stores_def)
  moreover from this(1) have "i32_load16_u (one_page\<lparr>arena := m\<rparr>) 16 = Val (take_bit 16 0xDEADBEEF)"
    using store_load [OF one_page_inv, of 16 "0xDEADBEEF" 0] by blast
  ultimately show ?thesis by (auto simp: take_bit_eq_mask mask_eq_exp_minus_1)
qed

text \<open>
  C11. \<open>memory.copy\<close> moves the source bytes as they were before, whatever the overlap, and is
  all or nothing: an operand range that leaves the memory traps before a byte is written.
\<close>

theorem memory_copy_correct:
  assumes "mem_inv rt"
  shows "(if unat da + unat n \<le> mem_bytes rt \<and> unat sa + unat n \<le> mem_bytes rt
          then \<exists>rt'. wasmMemoryCopy rt da sa n = Val rt' \<and> mem_inv rt'
            \<and> memory0 rt' = memory0 rt
            \<and> (\<forall>i. arena rt' i = (if unat da \<le> i \<and> i < unat da + unat n
                 then arena rt (unat sa + (i - unat da)) else arena rt i))
          else wasmMemoryCopy rt da sa n = Stop trapOutOfBoundsMemory)"
proof -
  have ok: "mem_ok rt" using assms by (simp add: mem_inv_def)
  show ?thesis
    using assms
    by (auto simp: wasmMemoryCopy_eq [OF ok] write_read_apply)
qed

theorem memory_copy_correct_witness:
  "\<exists>rt'. wasmMemoryCopy one_page 10 8 100 = Val rt' \<and> mem_inv rt'"
  using memory_copy_correct [OF one_page_inv, of 10 100 8]
  by (auto simp: mem_bytes_def one_page_def)

text \<open>
  C12. \<open>memory.grow\<close> succeeds exactly when the page counts add up to at most the maximum, without
  wrap-around; then it returns the old count, exposes only zero bytes and keeps every old byte.
  Otherwise it returns -1 and changes nothing.
\<close>

theorem memory_grow_correct:
  assumes inv: "mem_inv rt" and run: "wasmMemoryGrow rt d = (rt', r)"
  shows "mem_inv rt' \<and> arena rt' = arena rt \<and>
    (if unat (mem_pages (memory0 rt)) + unat d \<le> unat (mem_max (memory0 rt))
     then r = mem_pages (memory0 rt) \<and> mem_bytes rt' = mem_bytes rt + unat d * 65536
       \<and> (\<forall>i. mem_bytes rt \<le> i \<and> i < mem_bytes rt' \<longrightarrow> arena rt' i = 0)
     else r = - 1 \<and> rt' = rt)"
  using inv run
proof (cases rule: wasmMemoryGrow_cases)
  case grown
  then have "mem_bytes rt' \<le> arena_bytes rt'" by (intro mem_bytes_arena) (simp add: mem_inv_def)
  then have "\<forall>i. mem_bytes rt \<le> i \<and> i < mem_bytes rt' \<longrightarrow> arena rt i = 0"
    using inv grown(5) by (auto simp: mem_inv_def mem_zero_def mem_bytes_def arena_bytes_def)
  with grown show ?thesis by simp
next
  case refused
  with inv show ?thesis by simp
qed

theorem memory_grow_correct_witness:
  "mem_bytes (fst (wasmMemoryGrow one_page 1)) = 131072 \<and> snd (wasmMemoryGrow one_page 0xFFFFFFFF) = - 1"
  using memory_grow_correct [OF one_page_inv, of 1] memory_grow_correct [OF one_page_inv, of "0xFFFFFFFF"]
  by (cases "wasmMemoryGrow one_page 1"; cases "wasmMemoryGrow one_page 0xFFFFFFFF")
    (auto simp: one_page_def mem_bytes_def)

text \<open>
  C13. Indirect calls: after an element segment is placed at \<open>off\<close>, calling entry \<open>off + k\<close> at its own
  type gives its \<open>k\<close>-th function and at any other type traps; a segment or an index outside the
  table traps, and an entry never written traps.
\<close>

theorem indirect_call_correct:
  assumes ok: "tab_ok ts t" and len: "length es < 2 ^ 32"
  shows "if unat off + length es \<le> unat (tab_size t)
    then \<exists>ts'. element_segment ts t off es = Val ts' \<and> tab_ok ts' t
      \<and> (\<forall>i ty. wasm_table_get ts' t i ty =
          (if \<not> unat i < unat (tab_size t) then Stop trapOutOfBoundsTable
           else if unat off \<le> unat i \<and> unat i < unat off + length es
           then (if snd (es ! (unat i - unat off)) = ty then Val (fst (es ! (unat i - unat off)))
                 else Stop trapIndirectCallTypeMismatch)
           else wasm_table_get ts t i ty))
      \<and> (\<forall>i ty. i < tab_size t \<and> tab_arena ts (unat i) = None \<longrightarrow>
           wasm_table_get ts t i ty = Stop trapNullFunction)
    else element_segment ts t off es = Stop trapOutOfBoundsTable"
proof (cases "unat off + length es \<le> unat (tab_size t)")
  case True
  let ?ts = "ts\<lparr>tab_arena := (\<lambda>i. if unat off \<le> i \<and> i < unat off + length es
                              then Some (fst (es ! (i - unat off))) else tab_arena ts i),
                tab_types := (\<lambda>i. if unat off \<le> i \<and> i < unat off + length es
                              then snd (es ! (i - unat off)) else tab_types ts i)\<rparr>"
  have run: "element_segment ts t off es = Val ?ts"
    using True by (simp add: element_segment_cases [OF ok len])
  have ok': "tab_ok ?ts t" using ok by (simp add: tab_ok_def)
  show ?thesis
    using True run ok'
    by (auto simp: wasm_table_get_eq [OF ok] wasm_table_get_eq [OF ok'] word_le_nat_alt word_less_nat_alt
        split: option.split)
next
  case False
  then show ?thesis by (simp add: element_segment_cases [OF ok len])
qed

theorem indirect_call_correct_witness:
  "\<exists>ts'. element_segment \<lparr>tab_arena = (\<lambda>_. None), tab_types = (\<lambda>_. 0), tab_arena_size = 8\<rparr>
       \<lparr>tab_data = True, tab_size = 4, tab_max = 4\<rparr> 1 [(''f'', 7), (''g'', 9)] = Val ts'
     \<and> wasm_table_get ts' \<lparr>tab_data = True, tab_size = 4, tab_max = 4\<rparr> 2 9 = Val ''g''"
  using indirect_call_correct
    [of "\<lparr>tab_arena = (\<lambda>_. None), tab_types = (\<lambda>_. 0), tab_arena_size = 8\<rparr>"
        "\<lparr>tab_data = True, tab_size = 4, tab_max = 4\<rparr>" "[(''f'', 7), (''g'', 9)]" 1]
  by (auto simp: tab_ok_def)

end
