(* ===== verification/Host.thy ===== *)
theory Host
  imports Runtime
begin

text \<open>
  The host \<^verbatim>\<open>src/host/main.c\<close>: the libc-free process that enters strict seccomp and then runs the
  guest. Modelled are its byte-copying loops, the traps, the three imports \<^verbatim>\<open>env.read\<close>, \<^verbatim>\<open>env.write\<close>
  and \<^verbatim>\<open>env.exit\<close>, and \<^verbatim>\<open>cmain\<close>.

  System calls are recorded in a trace. The kernel is outside the source: it is the parameter
  \<open>kern\<close>, which answers a call, given the calls so far, with its result and (for \<open>read\<close>) the bytes it
  delivers; \<open>kernel_ok\<close> is the documented contract of \<open>read\<close>. The guest is generated code: it is an
  arbitrary list of calls of the runtime and of the imports, with arbitrary arguments.
\<close>

section \<open>Copying loops\<close>

text \<open>
  Addresses index one byte memory. \<open>memcpy\<close> copies upwards; \<open>memmove\<close> copies upwards when the
  destination is below the source and downwards otherwise; \<open>n\<close> counts what is left.
\<close>

fun memcpy_loop :: "mem \<Rightarrow> nat \<Rightarrow> nat \<Rightarrow> nat \<Rightarrow> mem" where
  "memcpy_loop m x y 0 = m"
| "memcpy_loop m x y (Suc n) = memcpy_loop (m(x := m y)) (x + 1) (y + 1) n"

definition memcpy :: "mem \<Rightarrow> nat \<Rightarrow> nat \<Rightarrow> nat \<Rightarrow> mem" where
  "memcpy m d s n = memcpy_loop m d s n"

fun memmove_down :: "mem \<Rightarrow> nat \<Rightarrow> nat \<Rightarrow> nat \<Rightarrow> mem" where
  "memmove_down m x y 0 = m"
| "memmove_down m x y (Suc n) = memmove_down (m(x - 1 := m (y - 1))) (x - 1) (y - 1) n"

definition memmove :: "mem \<Rightarrow> nat \<Rightarrow> nat \<Rightarrow> nat \<Rightarrow> mem" where
  "memmove m d s n = (if d < s then memcpy_loop m d s n else memmove_down m (d + n) (s + n) n)"

fun memset_loop :: "mem \<Rightarrow> nat \<Rightarrow> u8 \<Rightarrow> nat \<Rightarrow> mem" where
  "memset_loop m x c 0 = m"
| "memset_loop m x c (Suc n) = memset_loop (m(x := c)) (x + 1) c n"

definition memset :: "mem \<Rightarrow> nat \<Rightarrow> u32 \<Rightarrow> nat \<Rightarrow> mem" where
  "memset m d c n = memset_loop m d (ucast c) n"

lemma memcpy_loop_eq:
  "d \<le> s \<or> s + n \<le> d \<Longrightarrow> memcpy_loop m d s n = write_range m d (read_range m s n)"
proof (induction n arbitrary: m d s)
  case 0
  then show ?case by (simp add: read_range_def)
next
  case (Suc n)
  have "memcpy_loop (m(d := m s)) (d + 1) (s + 1) n =
      write_range (m(d := m s)) (d + 1) (read_range (m(d := m s)) (s + 1) n)"
    using Suc.prems by (intro Suc.IH) auto
  also have "\<dots> = write_range m d (read_range m s (Suc n))"
  proof
    fix i
    show "write_range (m(d := m s)) (d + 1) (read_range (m(d := m s)) (s + 1) n) i =
        write_range m d (read_range m s (Suc n)) i"
    proof (cases "d < i \<and> i \<le> d + n")
      case True
      then have "i = d + 1 + (i - d - 1)" "i - d - 1 < n" by auto
      then obtain j where "i = d + 1 + j" "j < n" by blast
      with Suc.prems show ?thesis by (auto simp: write_read_apply)
    next
      case False
      then show ?thesis by (auto simp: write_read_apply)
    qed
  qed
  finally show ?case by simp
qed

lemma memmove_down_eq:
  "s \<le> d \<Longrightarrow> memmove_down m (d + n) (s + n) n = write_range m d (read_range m s n)"
proof (induction n arbitrary: m)
  case 0
  then show ?case by (simp add: read_range_def)
next
  case (Suc n)
  let ?m = "m(d + n := m (s + n))"
  have "memmove_down m (d + Suc n) (s + Suc n) (Suc n) = write_range ?m d (read_range ?m s n)"
    using Suc by simp
  also have "\<dots> = write_range m d (read_range m s (Suc n))"
    using Suc.prems by (auto simp: fun_eq_iff write_read_apply less_Suc_eq)
  finally show ?case .
qed

lemma memmove_eq: "memmove m d s n = write_range m d (read_range m s n)"
  by (simp add: memmove_def memcpy_loop_eq memmove_down_eq)

lemma memset_eq: "memset m d c n = write_range m d (replicate n (ucast c))"
proof -
  have "memset_loop m d b n = write_range m d (replicate n b)" for b
    by (induction n arbitrary: m d) (auto simp: fun_eq_iff write_range_def nth_Cons' le_Suc_eq)
  then show ?thesis by (simp add: memset_def)
qed

section \<open>System calls and the host state\<close>

text \<open>
  A call as the kernel sees it: \<open>SysRead fd off n\<close> with the arena offset of the buffer,
  \<open>SysWrite fd bytes\<close> with the bytes at the buffer, \<open>SysExit code\<close>, \<open>SysPrctl option arg\<close>.
\<close>

datatype syscall =
    SysRead int nat nat
  | SysWrite int "u8 list"
  | SysExit int
  | SysPrctl int int

fun syscall_nr :: "syscall \<Rightarrow> nat" where
  "syscall_nr (SysRead fd off n) = 0"
| "syscall_nr (SysWrite fd bs) = 1"
| "syscall_nr (SysExit c) = 60"
| "syscall_nr (SysPrctl opt arg) = 157"

definition PR_SET_SECCOMP :: int where "PR_SET_SECCOMP = 22"
definition SECCOMP_MODE_STRICT :: int where "SECCOMP_MODE_STRICT = 1"

type_synonym kernel = "syscall list \<Rightarrow> syscall \<Rightarrow> int \<times> u8 list"

text \<open>
  The process: the runtime's memory, the guest's table in the table arena, the guest's data
  segments (each array with the current value of its \<^verbatim>\<open>dN_len\<close>), and the calls made so far.
  A process that ended is an exit code and the complete trace.
\<close>

record 'f host =
  h_rt :: runtime
  h_tabs :: "'f tables"
  h_table :: wasmTable
  h_segs :: "(u8 list \<times> u32) list"
  h_trace :: "syscall list"

type_synonym stopped = "int \<times> syscall list"

definition sys3 :: "kernel \<Rightarrow> 'f host \<Rightarrow> syscall \<Rightarrow> 'f host \<times> int \<times> u8 list" where
  "sys3 kern h c = (h\<lparr>h_trace := h_trace h @ [c]\<rparr>, kern (h_trace h) c)"

text \<open>\<open>exit\<close> does not return, so the loop around it runs once.\<close>

definition sys_exit :: "'f host \<Rightarrow> int \<Rightarrow> (stopped, 'a) res" where
  "sys_exit h code = Stop (code, h_trace h @ [SysExit code])"

definition ascii :: "string \<Rightarrow> u8 list" where
  "ascii s = map (\<lambda>c. of_nat (of_char c)) s"

definition trap_msg :: "trap \<Rightarrow> u8 list" where
  "trap_msg t = (ascii ''trap: 0'' @ [10]) [6 := 48 + of_nat (trap_code t)]"

definition trap :: "kernel \<Rightarrow> 'f host \<Rightarrow> trap \<Rightarrow> (stopped, 'a) res" where
  "trap kern h t =
     (let (h, _, _) = sys3 kern h (SysWrite 2 (take 8 (trap_msg t)))
      in sys_exit h (100 + int (trap_code t)))"

text \<open>A runtime call made in state \<open>h\<close>: its trap is the host's \<open>trap\<close>.\<close>

fun run_rt :: "kernel \<Rightarrow> 'f host \<Rightarrow> (trap, 'a) res \<Rightarrow> (stopped, 'a) res" where
  "run_rt kern h (Val x) = Val x"
| "run_rt kern h (Stop t) = trap kern h t"
| "run_rt kern h Unsafe = Unsafe"

definition calloc :: "kernel \<Rightarrow> 'f host \<Rightarrow> (stopped, 'a) res" where
  "calloc kern h = trap kern h trapAllocationFailed"

section \<open>The imports of the guest\<close>

definition ret :: "int \<Rightarrow> u32" where
  "ret r = (if r < 0 then - 1 else word_of_int r)"

text \<open>The kernel stores the delivered bytes at the buffer itself, whatever is there.\<close>

definition env__read :: "kernel \<Rightarrow> 'f host \<Rightarrow> u32 \<Rightarrow> u32 \<Rightarrow> u32 \<Rightarrow> (stopped, 'f host \<times> u32) res" where
  "env__read kern h fd ptr len =
     (if fd \<noteq> 0 then Val (h, - 1)
      else res_bind (run_rt kern h (wasm_check (h_rt h) ptr len)) (\<lambda>_.
        let (h', r, bs) = sys3 kern h (SysRead 0 (unat ptr) (unat len))
        in res_bind (run_rt kern h' (arena_write (h_rt h') (unat ptr) bs)) (\<lambda>rt'.
          Val (h'\<lparr>h_rt := rt'\<rparr>, ret r))))"

definition env__write :: "kernel \<Rightarrow> 'f host \<Rightarrow> u32 \<Rightarrow> u32 \<Rightarrow> u32 \<Rightarrow> (stopped, 'f host \<times> u32) res" where
  "env__write kern h fd ptr len =
     (if fd \<noteq> 1 \<and> fd \<noteq> 2 then Val (h, - 1)
      else res_bind (run_rt kern h (wasm_check (h_rt h) ptr len)) (\<lambda>_.
        res_bind (run_rt kern h (arena_read (h_rt h) (unat ptr) (unat len))) (\<lambda>bs.
        let (h', r, _) = sys3 kern h (SysWrite (uint fd) bs) in Val (h', ret r))))"

definition env__exit :: "'f host \<Rightarrow> u32 \<Rightarrow> (stopped, 'a) res" where
  "env__exit h code = sys_exit h (sint code)"

section \<open>The guest\<close>

text \<open>
  Everything translated code can do to the process: the accessors, bulk operations, growth,
  data and element segments, indirect calls, traps and the imports. Pure computation is not listed:
  the arguments of each call are arbitrary.
\<close>

datatype load_op =
    L_i32_load | L_i64_load | L_f32_load | L_f64_load | L_i32_load8_s
  | L_i64_load8_s | L_i32_load8_u | L_i64_load8_u | L_i32_load16_s | L_i64_load16_s
  | L_i32_load16_u | L_i64_load16_u | L_i64_load32_s | L_i64_load32_u

datatype store32_op = S_i32_store | S_f32_store | S_i32_store8 | S_i32_store16
datatype store64_op = S_i64_store | S_f64_store | S_i64_store8 | S_i64_store16 | S_i64_store32

datatype 'f guest_op =
    Op_load load_op u32
  | Op_store32 store32_op u32 u32
  | Op_store64 store64_op u32 u64
  | Op_memory_grow u32
  | Op_memory_copy u32 u32 u32
  | Op_memory_fill u32 u32 u32
  | Op_load_data u32 nat
  | Op_memory_init u32 nat u32 u32
  | Op_data_drop nat
  | Op_memory_allocate u32 u32 bool
  | Op_table_allocate u32 u32
  | Op_element_segment u32 "('f \<times> u32) list"
  | Op_call_indirect u32 u32
  | Op_trap trap
  | Op_env_read u32 u32 u32
  | Op_env_write u32 u32 u32
  | Op_env_exit u32

text \<open>
  \<open>keep\<close> runs a call that leaves the state alone, \<open>upd_rt\<close> one that returns the new memory. A
  segment index past the module's segments is a program that does not compile: \<open>Unsafe\<close> cannot arise
  from it, so the operation is skipped.
\<close>

definition keep :: "kernel \<Rightarrow> 'f host \<Rightarrow> (trap, 'a) res \<Rightarrow> (stopped, 'f host) res" where
  "keep kern h r = res_bind (run_rt kern h r) (\<lambda>_. Val h)"

definition upd_rt :: "kernel \<Rightarrow> 'f host \<Rightarrow> (trap, runtime) res \<Rightarrow> (stopped, 'f host) res" where
  "upd_rt kern h r = res_bind (run_rt kern h r) (\<lambda>rt'. Val (h\<lparr>h_rt := rt'\<rparr>))"

primrec run_load :: "load_op \<Rightarrow> kernel \<Rightarrow> 'f host \<Rightarrow> u32 \<Rightarrow> (stopped, 'f host) res" where
  "run_load L_i32_load kern h a = keep kern h (i32_load (h_rt h) a)"
| "run_load L_i64_load kern h a = keep kern h (i64_load (h_rt h) a)"
| "run_load L_f32_load kern h a = keep kern h (f32_load (h_rt h) a)"
| "run_load L_f64_load kern h a = keep kern h (f64_load (h_rt h) a)"
| "run_load L_i32_load8_s kern h a = keep kern h (i32_load8_s (h_rt h) a)"
| "run_load L_i64_load8_s kern h a = keep kern h (i64_load8_s (h_rt h) a)"
| "run_load L_i32_load8_u kern h a = keep kern h (i32_load8_u (h_rt h) a)"
| "run_load L_i64_load8_u kern h a = keep kern h (i64_load8_u (h_rt h) a)"
| "run_load L_i32_load16_s kern h a = keep kern h (i32_load16_s (h_rt h) a)"
| "run_load L_i64_load16_s kern h a = keep kern h (i64_load16_s (h_rt h) a)"
| "run_load L_i32_load16_u kern h a = keep kern h (i32_load16_u (h_rt h) a)"
| "run_load L_i64_load16_u kern h a = keep kern h (i64_load16_u (h_rt h) a)"
| "run_load L_i64_load32_s kern h a = keep kern h (i64_load32_s (h_rt h) a)"
| "run_load L_i64_load32_u kern h a = keep kern h (i64_load32_u (h_rt h) a)"

primrec run_store32 :: "store32_op \<Rightarrow> kernel \<Rightarrow> 'f host \<Rightarrow> u32 \<Rightarrow> u32 \<Rightarrow> (stopped, 'f host) res" where
  "run_store32 S_i32_store kern h a v = upd_rt kern h (i32_store (h_rt h) a v)"
| "run_store32 S_f32_store kern h a v = upd_rt kern h (f32_store (h_rt h) a v)"
| "run_store32 S_i32_store8 kern h a v = upd_rt kern h (i32_store8 (h_rt h) a v)"
| "run_store32 S_i32_store16 kern h a v = upd_rt kern h (i32_store16 (h_rt h) a v)"

primrec run_store64 :: "store64_op \<Rightarrow> kernel \<Rightarrow> 'f host \<Rightarrow> u32 \<Rightarrow> u64 \<Rightarrow> (stopped, 'f host) res" where
  "run_store64 S_i64_store kern h a v = upd_rt kern h (i64_store (h_rt h) a v)"
| "run_store64 S_f64_store kern h a v = upd_rt kern h (f64_store (h_rt h) a v)"
| "run_store64 S_i64_store8 kern h a v = upd_rt kern h (i64_store8 (h_rt h) a v)"
| "run_store64 S_i64_store16 kern h a v = upd_rt kern h (i64_store16 (h_rt h) a v)"
| "run_store64 S_i64_store32 kern h a v = upd_rt kern h (i64_store32 (h_rt h) a v)"

primrec run_op :: "kernel \<Rightarrow> 'f guest_op \<Rightarrow> 'f host \<Rightarrow> (stopped, 'f host) res" where
  "run_op kern (Op_load l a) h = run_load l kern h a"
| "run_op kern (Op_store32 s a v) h = run_store32 s kern h a v"
| "run_op kern (Op_store64 s a v) h = run_store64 s kern h a v"
| "run_op kern (Op_memory_grow d) h = Val (h\<lparr>h_rt := fst (wasmMemoryGrow (h_rt h) d)\<rparr>)"
| "run_op kern (Op_memory_copy d s n) h = upd_rt kern h (wasmMemoryCopy (h_rt h) d s n)"
| "run_op kern (Op_memory_fill d v n) h = upd_rt kern h (wasmMemoryFill (h_rt h) d v n)"
| "run_op kern (Op_load_data off k) h =
     (if k < length (h_segs h)
      then upd_rt kern h (LOAD_DATA (h_rt h) off (fst (h_segs h ! k)) (of_nat (length (fst (h_segs h ! k))))) else Val h)"
| "run_op kern (Op_memory_init d k s n) h =
     (if k < length (h_segs h)
      then upd_rt kern h (wasm_memory_init (h_rt h) d (fst (h_segs h ! k)) (snd (h_segs h ! k)) s n)
      else Val h)"
| "run_op kern (Op_data_drop k) h = Val (h\<lparr>h_segs := (h_segs h)[k := (fst (h_segs h ! k), 0)]\<rparr>)"
| "run_op kern (Op_memory_allocate i m sh) h = upd_rt kern h (wasmMemoryAllocate (h_rt h) i m sh)"
| "run_op kern (Op_table_allocate n m) h =
     res_bind (run_rt kern h (wasmTableAllocate (h_tabs h) (h_table h) n m)) (\<lambda>t. Val (h\<lparr>h_table := t\<rparr>))"
| "run_op kern (Op_element_segment off es) h =
     res_bind (run_rt kern h (element_segment (h_tabs h) (h_table h) off es)) (\<lambda>ts. Val (h\<lparr>h_tabs := ts\<rparr>))"
| "run_op kern (Op_call_indirect i ty) h = keep kern h (wasm_table_get (h_tabs h) (h_table h) i ty)"
| "run_op kern (Op_trap t) h = trap kern h t"
| "run_op kern (Op_env_read fd p n) h = res_bind (env__read kern h fd p n) (\<lambda>(h', _). Val h')"
| "run_op kern (Op_env_write fd p n) h = res_bind (env__write kern h fd p n) (\<lambda>(h', _). Val h')"
| "run_op kern (Op_env_exit c) h = env__exit h c"

fun run_ops :: "kernel \<Rightarrow> 'f guest_op list \<Rightarrow> 'f host \<Rightarrow> (stopped, 'f host) res" where
  "run_ops kern [] h = Val h"
| "run_ops kern (g # gs) h = res_bind (run_op kern g h) (run_ops kern gs)"

text \<open>
  \<^verbatim>\<open>cmain\<close>: enter strict seccomp or give up, run the instantiation and \<^verbatim>\<open>_start\<close> (the list \<open>guest\<close>),
  then exit with 0.
\<close>

definition cmain :: "kernel \<Rightarrow> 'f guest_op list \<Rightarrow> 'f host \<Rightarrow> (stopped, 'f host) res" where
  "cmain kern guest h =
     (let (h, r, _) = sys3 kern h (SysPrctl PR_SET_SECCOMP SECCOMP_MODE_STRICT)
      in if r \<noteq> 0
         then (let (h, _, _) = sys3 kern h (SysWrite 2 (ascii ''seccomp strict failed'' @ [10]))
               in sys_exit h 99)
         else res_bind (run_ops kern guest h) (\<lambda>h. sys_exit h 0))"

section \<open>Confinement\<close>

text \<open>
  \<open>kernel_ok\<close>: \<open>read\<close> delivers at most the bytes asked for, and its result counts them or is an error.
  \<open>guest_ok\<close>: a segment's element count is a \<open>U32\<close>.
\<close>

definition kernel_ok :: "kernel \<Rightarrow> bool" where
  "kernel_ok kern \<longleftrightarrow>
     (\<forall>tr fd off n. case kern tr (SysRead fd off n) of
        (r, bs) \<Rightarrow> length bs \<le> n \<and> (r = int (length bs) \<or> r < 0 \<and> bs = []))"

fun guest_ok :: "'f guest_op \<Rightarrow> bool" where
  "guest_ok (Op_element_segment off es) = (length es < 2 ^ 32)"
| "guest_ok _ = True"

definition segs_ok :: "(u8 list \<times> u32) list \<Rightarrow> bool" where
  "segs_ok ss \<longleftrightarrow> (\<forall>(bs, n)\<in>set ss. length bs < 2 ^ 32 \<and> unat n \<le> length bs)"

text \<open>The calls strict seccomp allows a running guest, with their buffers inside the arena.\<close>

fun strict_call :: "nat \<Rightarrow> syscall \<Rightarrow> bool" where
  "strict_call N (SysRead fd off n) = (fd = 0 \<and> off + n \<le> N)"
| "strict_call N (SysWrite fd bs) = (fd = 1 \<or> fd = 2)"
| "strict_call N (SysExit c) = False"
| "strict_call N (SysPrctl opt arg) = False"

definition strict_prefix_trace :: "nat \<Rightarrow> syscall list \<Rightarrow> bool" where
  "strict_prefix_trace N tr \<longleftrightarrow>
     (\<exists>cs. tr = SysPrctl PR_SET_SECCOMP SECCOMP_MODE_STRICT # cs \<and> list_all (strict_call N) cs)"

definition strict_end :: "nat \<Rightarrow> stopped \<Rightarrow> bool" where
  "strict_end N e \<longleftrightarrow> (\<exists>tr. snd e = tr @ [SysExit (fst e)] \<and> strict_prefix_trace N tr)"

definition host_ok :: "nat \<Rightarrow> 'f host \<Rightarrow> bool" where
  "host_ok N h \<longleftrightarrow>
     mem_inv (h_rt h) \<and> arena_bytes (h_rt h) = N \<and> tab_ok (h_tabs h) (h_table h)
     \<and> segs_ok (h_segs h) \<and> strict_prefix_trace N (h_trace h)"

lemma strict_prefix_trace_snoc:
  "strict_prefix_trace N tr \<Longrightarrow> strict_call N c \<Longrightarrow> strict_prefix_trace N (tr @ [c])"
  by (auto simp: strict_prefix_trace_def)

lemma kernel_okD: "kernel_ok kern \<Longrightarrow> kern tr (SysRead fd off n) = (r, bs) \<Longrightarrow> length bs \<le> n"
  unfolding kernel_ok_def by (elim allE [of _ tr] allE [of _ fd] allE [of _ off] allE [of _ n]) simp

lemma segs_okD:
  assumes "segs_ok ss" and "k < length ss"
  shows "length (fst (ss ! k)) < 2 ^ 32" and "unat (snd (ss ! k)) \<le> length (fst (ss ! k))"
proof -
  have "case ss ! k of (bs, n) \<Rightarrow> length bs < 2 ^ 32 \<and> unat n \<le> length bs"
    using assms(1) nth_mem [OF assms(2)] unfolding segs_ok_def by (rule bspec)
  then show "length (fst (ss ! k)) < 2 ^ 32" and "unat (snd (ss ! k)) \<le> length (fst (ss ! k))"
    by (simp_all only: case_prod_beta)
qed

lemma segs_ok_drop:
  assumes "segs_ok ss"
  shows "segs_ok (ss[k := (fst (ss ! k), 0)])"
proof (cases "k < length ss")
  case True
  then have "length (fst (ss ! k)) < 2 ^ 32" by (rule segs_okD(1) [OF assms])
  moreover have "set (ss[k := (fst (ss ! k), 0)]) \<subseteq> insert (fst (ss ! k), 0) (set ss)"
    by (rule set_update_subset_insert)
  ultimately show ?thesis
    using assms unfolding segs_ok_def by (auto simp only: unat_0)
next
  case False
  with assms show ?thesis by (simp only: list_update_beyond not_less)
qed

lemma sys_exit_ok: "strict_prefix_trace N (h_trace h) \<Longrightarrow> res_ok P (strict_end N) (sys_exit h c)"
  by (auto simp: sys_exit_def strict_end_def)

lemma trap_ok: "strict_prefix_trace N (h_trace h) \<Longrightarrow> res_ok P (strict_end N) (trap kern h t)"
  by (auto simp: trap_def sys3_def Let_def split: prod.split
      intro!: sys_exit_ok strict_prefix_trace_snoc)

lemma trap_bind_ok:
  "strict_prefix_trace N (h_trace h) \<Longrightarrow> res_ok P (strict_end N) (res_bind (trap kern h t) f)"
  by (rule res_ok_bind [OF trap_ok [where P = "\<lambda>_. False"]]) auto

lemma run_rt_ok:
  "strict_prefix_trace N (h_trace h) \<Longrightarrow> res_ok P Q r \<Longrightarrow> res_ok P (strict_end N) (run_rt kern h r)"
  by (cases r) (auto intro: trap_ok)

lemma keep_ok:
  "host_ok N h \<Longrightarrow> res_ok P Q r \<Longrightarrow> res_ok (host_ok N) (strict_end N) (keep kern h r)"
  unfolding keep_def
  by (rule res_ok_bind [where P = P], rule run_rt_ok) (auto simp: host_ok_def)

lemma upd_rt_ok:
  assumes "host_ok N h"
    and "res_ok (\<lambda>rt'. mem_inv rt' \<and> arena_bytes rt' = arena_bytes (h_rt h)) Q r"
  shows "res_ok (host_ok N) (strict_end N) (upd_rt kern h r)"
  unfolding upd_rt_def
  by (rule res_ok_bind, rule run_rt_ok [OF _ assms(2)]) (use assms(1) in \<open>auto simp: host_ok_def\<close>)

text \<open>Each kind of operation of the runtime, in a well-formed memory: never \<open>Unsafe\<close>, invariant kept.\<close>

abbreviation keeps_memory :: "runtime \<Rightarrow> runtime \<Rightarrow> bool" where
  "keeps_memory rt rt' \<equiv> mem_inv rt' \<and> arena_bytes rt' = arena_bytes rt"

lemma arena_bytes_update [simp]: "arena_bytes (rt\<lparr>arena := m\<rparr>) = arena_bytes rt"
  by (simp add: arena_bytes_def)

lemma mem_load_ok: "mem_ok rt \<Longrightarrow> n < 2 ^ 32 \<Longrightarrow> res_ok (\<lambda>_. True) (\<lambda>_. True) (mem_load n c rt a)"
  by (simp add: mem_load_eq)

lemma mem_store_ok:
  "mem_inv rt \<Longrightarrow> n < 2 ^ 32 \<Longrightarrow> res_ok (keeps_memory rt) (\<lambda>_. True) (mem_store n c rt a v)"
  by (subst mem_store_eq) (auto simp: mem_inv_def [of rt])

lemma bulk_ok:
  assumes "mem_inv rt"
  shows "res_ok (keeps_memory rt) (\<lambda>_. True) (wasmMemoryCopy rt d s n)"
    and "res_ok (keeps_memory rt) (\<lambda>_. True) (wasmMemoryFill rt d v n)"
    and "unat sl \<le> length seg \<Longrightarrow>
         res_ok (keeps_memory rt) (\<lambda>_. True) (wasm_memory_init rt d seg sl s n)"
    and "length seg < 2 ^ 32 \<Longrightarrow>
         res_ok (keeps_memory rt) (\<lambda>_. True) (LOAD_DATA rt d seg (of_nat (length seg)))"
    and "res_ok (keeps_memory rt) (\<lambda>_. True) (wasmMemoryAllocate rt ini mx sh)"
proof -
  have ok: "mem_ok rt" using assms by (simp add: mem_inv_def)
  show "res_ok (keeps_memory rt) (\<lambda>_. True) (wasmMemoryCopy rt d s n)"
    using assms by (auto simp: wasmMemoryCopy_eq [OF ok])
  show "res_ok (keeps_memory rt) (\<lambda>_. True) (wasmMemoryFill rt d v n)"
    using assms by (auto simp: wasmMemoryFill_eq [OF ok])
  show "unat sl \<le> length seg \<Longrightarrow>
        res_ok (keeps_memory rt) (\<lambda>_. True) (wasm_memory_init rt d seg sl s n)"
    using assms by (auto simp: wasm_memory_init_eq [OF ok])
  show "length seg < 2 ^ 32 \<Longrightarrow>
        res_ok (keeps_memory rt) (\<lambda>_. True) (LOAD_DATA rt d seg (of_nat (length seg)))"
    using assms by (subst LOAD_DATA_eq [OF ok]) (auto simp: unat_of_nat)
  show "res_ok (keeps_memory rt) (\<lambda>_. True) (wasmMemoryAllocate rt ini mx sh)"
  proof (cases "wasmMemoryAllocate rt ini mx sh")
    case (Val rt')
    then show ?thesis
      using wasmMemoryAllocate_inv [OF assms Val]
      by (auto simp: wasmMemoryAllocate_def arena_bytes_def Let_def split: if_splits)
  qed (auto simp: wasmMemoryAllocate_def Let_def split: if_splits)
qed

lemma host_okD:
  "host_ok N h \<Longrightarrow> mem_inv (h_rt h)" "host_ok N h \<Longrightarrow> mem_ok (h_rt h)"
  "host_ok N h \<Longrightarrow> arena_bytes (h_rt h) = N" "host_ok N h \<Longrightarrow> tab_ok (h_tabs h) (h_table h)"
  "host_ok N h \<Longrightarrow> segs_ok (h_segs h)" "host_ok N h \<Longrightarrow> strict_prefix_trace N (h_trace h)"
  by (auto simp: host_ok_def mem_inv_def)

lemma run_load_ok: "host_ok N h \<Longrightarrow> res_ok (host_ok N) (strict_end N) (run_load l kern h a)"
  by (cases l)
    (auto simp: i32_load_def i64_load_def f32_load_def f64_load_def i32_load8_s_def i64_load8_s_def
      i32_load8_u_def i64_load8_u_def i32_load16_s_def i64_load16_s_def i32_load16_u_def
      i64_load16_u_def i64_load32_s_def i64_load32_u_def
      intro!: keep_ok mem_load_ok intro: host_okD)

lemma run_store_ok:
  "host_ok N h \<Longrightarrow> res_ok (host_ok N) (strict_end N) (run_store32 s kern h a v)"
  "host_ok N h \<Longrightarrow> res_ok (host_ok N) (strict_end N) (run_store64 s' kern h a v')"
  by (cases s; cases s';
      auto simp: i32_store_def i64_store_def f32_store_def f64_store_def i32_store8_def
        i32_store16_def i64_store8_def i64_store16_def i64_store32_def
        intro!: upd_rt_ok mem_store_ok intro: host_okD)+

lemma env__read_ok:
  assumes "kernel_ok kern" and h: "host_ok N h"
  shows "res_ok (\<lambda>(h', r). host_ok N h') (strict_end N) (env__read kern h fd ptr len)"
proof (cases "fd = 0 \<and> unat ptr + unat len \<le> mem_bytes (h_rt h)")
  case True
  obtain r bs where k: "kern (h_trace h) (SysRead 0 (unat ptr) (unat len)) = (r, bs)" by force
  with assms(1) have "length bs \<le> unat len" by (rule kernel_okD)
  with True have le: "unat ptr + length bs \<le> mem_bytes (h_rt h)" by simp
  moreover have "strict_call N (SysRead 0 (unat ptr) (unat len))"
    using True mem_bytes_arena [OF host_okD(2) [OF h]] host_okD(3) [OF h] by simp
  ultimately show ?thesis
    using True k h
    by (auto simp: env__read_def wasm_check_eq sys3_def arena_write_in_memory host_okD)
      (auto simp: host_ok_def intro!: strict_prefix_trace_snoc)
next
  case False
  then show ?thesis
    using h by (auto simp: env__read_def wasm_check_eq intro!: trap_bind_ok host_okD)
qed

lemma env__write_ok:
  assumes h: "host_ok N h"
  shows "res_ok (\<lambda>(h', r). host_ok N h') (strict_end N) (env__write kern h fd ptr len)"
proof (cases "(fd = 1 \<or> fd = 2) \<and> unat ptr + unat len \<le> mem_bytes (h_rt h)")
  case True
  then have "strict_call N (SysWrite (uint fd) bs)" for bs by auto
  with True h show ?thesis
    by (auto simp: env__write_def wasm_check_eq sys3_def arena_read_in_memory host_okD Let_def
        split: prod.split) (auto simp: host_ok_def intro!: strict_prefix_trace_snoc)
next
  case False
  then show ?thesis
    using h by (auto simp: env__write_def wasm_check_eq intro!: trap_bind_ok host_okD)
qed

lemma run_op_ok:
  assumes k: "kernel_ok kern" and h: "host_ok N h" and g: "guest_ok g"
  shows "res_ok (host_ok N) (strict_end N) (run_op kern g h)"
proof (cases g)
  case (Op_load l a)
  with h show ?thesis by (simp add: run_load_ok)
next
  case (Op_store32 s a v)
  with h show ?thesis by (simp add: run_store_ok)
next
  case (Op_store64 s a v)
  with h show ?thesis by (simp add: run_store_ok)
next
  case (Op_memory_grow d)
  obtain rt' r where "wasmMemoryGrow (h_rt h) d = (rt', r)" by force
  with h show ?thesis
    by (auto simp: Op_memory_grow host_ok_def arena_bytes_def elim!: wasmMemoryGrow_cases [rotated])
next
  case (Op_memory_copy d s n)
  with h show ?thesis by (auto intro!: upd_rt_ok bulk_ok simp: host_okD)
next
  case (Op_memory_fill d v n)
  with h show ?thesis by (auto intro!: upd_rt_ok bulk_ok simp: host_okD)
next
  case (Op_load_data off k)
  with h show ?thesis by (auto simp: Op_load_data host_okD intro!: upd_rt_ok bulk_ok segs_okD)
next
  case (Op_memory_init d k s n)
  with h show ?thesis by (auto simp: Op_memory_init host_okD intro!: upd_rt_ok bulk_ok segs_okD)
next
  case (Op_data_drop k)
  with h show ?thesis by (simp add: Op_data_drop host_ok_def segs_ok_drop)
next
  case (Op_memory_allocate i m sh)
  with h show ?thesis by (auto intro!: upd_rt_ok bulk_ok simp: host_okD)
next
  case (Op_table_allocate n m)
  show ?thesis
    using h unfolding Op_table_allocate run_op.simps
    by (intro res_ok_bind [OF run_rt_ok [where P = "tab_ok (h_tabs h)" and Q = "\<lambda>_. True"]])
      (auto simp: host_ok_def wasmTableAllocate_def tab_ok_def Let_def)
next
  case (Op_element_segment off es)
  with g have "length es < 2 ^ 32" by simp
  then show ?thesis
    using h unfolding Op_element_segment run_op.simps
    by (intro res_ok_bind [OF run_rt_ok
          [where P = "\<lambda>ts. tab_ok ts (h_table h)" and Q = "\<lambda>_. True"]])
      (auto simp: host_ok_def element_segment_cases tab_ok_def)
next
  case (Op_call_indirect i ty)
  show ?thesis
    unfolding Op_call_indirect run_op.simps
    by (rule keep_ok [OF h, where P = "\<lambda>_. True" and Q = "\<lambda>_. True"])
      (auto simp: wasm_table_get_eq [OF host_okD(4) [OF h]] split: option.split)
next
  case (Op_trap t)
  with h show ?thesis by (auto intro: trap_ok host_okD)
next
  case (Op_env_read fd p n)
  show ?thesis unfolding Op_env_read run_op.simps
    by (rule res_ok_bind [OF env__read_ok [OF k h]]) auto
next
  case (Op_env_write fd p n)
  show ?thesis unfolding Op_env_write run_op.simps
    by (rule res_ok_bind [OF env__write_ok [OF h]]) auto
next
  case (Op_env_exit c)
  with h show ?thesis by (auto simp: env__exit_def intro: sys_exit_ok host_okD)
qed

lemma run_ops_ok:
  "kernel_ok kern \<Longrightarrow> host_ok N h \<Longrightarrow> list_all guest_ok gs \<Longrightarrow>
   res_ok (host_ok N) (strict_end N) (run_ops kern gs h)"
  by (induction gs arbitrary: h) (auto intro!: res_ok_bind [OF run_op_ok])

section \<open>The whole process\<close>

text \<open>
  The process starts with everything zero: an empty arena of \<open>pages\<close> pages, a table arena of
  \<open>slots\<close> null entries, memory and table unallocated, the data segments complete.
\<close>

definition host_init :: "u32 \<Rightarrow> u32 \<Rightarrow> u8 list list \<Rightarrow> 'f host" where
  "host_init pages slots segs =
     \<lparr>h_rt = \<lparr>arena = (\<lambda>_. 0), arena_pages = pages,
               memory0 = \<lparr>mem_data = False, mem_size = 0, mem_pages = 0, mem_max = 0\<rparr>\<rparr>,
      h_tabs = \<lparr>tab_arena = (\<lambda>_. None), tab_types = (\<lambda>_. 0), tab_arena_size = slots\<rparr>,
      h_table = \<lparr>tab_data = False, tab_size = 0, tab_max = 0\<rparr>,
      h_segs = map (\<lambda>bs. (bs, of_nat (length bs))) segs, h_trace = []\<rparr>"

definition prctl_call :: syscall where
  "prctl_call = SysPrctl PR_SET_SECCOMP SECCOMP_MODE_STRICT"

lemma host_init_ok:
  assumes "\<forall>bs\<in>set segs. length bs < 2 ^ 32"
  shows "host_ok (unat pages * 65536) ((host_init pages slots segs)\<lparr>h_trace := [prctl_call]\<rparr>)"
proof -
  have "segs_ok (map (\<lambda>bs. (bs, of_nat (length bs))) segs)"
    using assms by (auto simp: segs_ok_def unat_of_nat)
  then show ?thesis
    by (simp add: host_ok_def host_init_def mem_inv_def mem_ok_def mem_zero_def arena_bytes_def
        tab_ok_def strict_prefix_trace_def prctl_call_def)
qed

lemma cmain_eq:
  "cmain kern guest h =
     (let h' = h\<lparr>h_trace := h_trace h @ [prctl_call]\<rparr>
      in if fst (kern (h_trace h) prctl_call) \<noteq> 0
         then Stop (99, h_trace h' @ [SysWrite 2 (ascii ''seccomp strict failed'' @ [10]), SysExit 99])
         else res_bind (run_ops kern guest h') (\<lambda>h. sys_exit h 0))"
  by (simp add: cmain_def sys3_def prctl_call_def sys_exit_def Let_def case_prod_beta)

text \<open>
  C1. Confinement: whatever calls a guest makes, with whatever arguments, and whatever a kernel
  within the contract of \<^verbatim>\<open>read\<close> answers, the process never touches memory outside its arenas, and
  ends with one \<^verbatim>\<open>exit\<close>. If seccomp could be entered, its trace is the prctl, then only reads of
  descriptor 0 into the arena and writes to descriptors 1 and 2, then the exit; if not, the guest
  never runs: the trace is the prctl, the message and exit 99.
\<close>

theorem cmain_confined:
  assumes "kernel_ok kern" and "list_all guest_ok guest" and "\<forall>bs\<in>set segs. length bs < 2 ^ 32"
  shows "\<exists>code tr. cmain kern guest (host_init pages slots segs) = Stop (code, tr @ [SysExit code])
    \<and> (if fst (kern [] prctl_call) = 0
       then \<exists>cs. tr = prctl_call # cs \<and> list_all (strict_call (unat pages * 65536)) cs
       else code = 99 \<and> tr = [prctl_call, SysWrite 2 (ascii ''seccomp strict failed'' @ [10])])"
proof (cases "fst (kern [] prctl_call) = 0")
  case True
  let ?N = "unat pages * 65536" and ?h = "(host_init pages slots segs)\<lparr>h_trace := [prctl_call]\<rparr>"
  have tr: "h_trace (host_init pages slots segs) = []" by (simp add: host_init_def)
  have "res_ok (\<lambda>_ :: 'a host. False) (strict_end ?N) (res_bind (run_ops kern guest ?h) (\<lambda>h. sys_exit h 0))"
    by (rule res_ok_bind [OF run_ops_ok [OF assms(1) host_init_ok [OF assms(3)] assms(2)]])
      (auto intro: sys_exit_ok host_okD)
  with True have "res_ok (\<lambda>_. False) (strict_end ?N) (cmain kern guest (host_init pages slots segs))"
    by (simp add: cmain_eq tr Let_def)
  then show ?thesis
    using True
    by (cases "cmain kern guest (host_init pages slots segs)")
      (auto simp: strict_end_def strict_prefix_trace_def prctl_call_def [symmetric])
next
  case False
  then show ?thesis by (simp add: cmain_eq host_init_def Let_def)
qed

text \<open>A kernel that grants seccomp, delivers zero bytes on every read and accepts every write.\<close>

definition eof_kernel :: kernel where
  "eof_kernel tr c = (0, [])"

theorem cmain_confined_witness:
  "\<exists>code tr. cmain eof_kernel [Op_memory_allocate 1 1 False, Op_env_write 1 0 4, Op_env_read 0 65533 4]
       (host_init 2 4 [[1, 2, 3]] :: nat host) = Stop (code, tr @ [SysExit code])
    \<and> (\<exists>cs. tr = prctl_call # cs \<and> list_all (strict_call (unat (2 :: u32) * 65536)) cs)"
  using cmain_confined [of eof_kernel
      "[Op_memory_allocate 1 1 False, Op_env_write 1 0 4, Op_env_read 0 65533 4] :: nat guest_op list"
      "[[1, 2, 3]]" 2 4]
  by (simp add: kernel_ok_def eof_kernel_def)

text \<open>
  A trap writes the eight bytes \<^verbatim>\<open>trap: N\n\<close> with its digit to descriptor 2 and exits with
  100 plus its number, whatever the kernel answers.
\<close>

lemma trap_reports:
  "trap kern h t = Stop (100 + int (trap_code t),
     h_trace h @ [SysWrite 2 (ascii ''trap: '' @ [48 + of_nat (trap_code t), 10]),
                  SysExit (100 + int (trap_code t))])
   \<and> 1 \<le> trap_code t \<and> trap_code t \<le> 9"
  by (cases t) (simp_all add: trap_def sys3_def sys_exit_def trap_msg_def ascii_def Let_def case_prod_beta)

text \<open>
  C14. The host's \<^verbatim>\<open>memmove\<close> copies correctly for every overlap: the destination range gets what the
  source range held before, everything else is unchanged. \<^verbatim>\<open>memcpy\<close> does so when the ranges are
  disjoint or the destination is not above the source, and \<^verbatim>\<open>memset\<close> fills with the low byte.
\<close>

theorem memmove_correct:
  "(\<forall>i. memmove m d s n i = (if d \<le> i \<and> i < d + n then m (s + (i - d)) else m i))
   \<and> ((d \<le> s \<or> s + n \<le> d) \<longrightarrow> memcpy m d s n = memmove m d s n)
   \<and> (\<forall>i. memset m d c n i = (if d \<le> i \<and> i < d + n then ucast c else m i))"
proof (intro conjI allI impI)
  show "memmove m d s n i = (if d \<le> i \<and> i < d + n then m (s + (i - d)) else m i)" for i
    by (simp only: memmove_eq write_read_apply)
  show "memcpy m d s n = memmove m d s n" if "d \<le> s \<or> s + n \<le> d"
    using that by (simp add: memcpy_def memmove_eq memcpy_loop_eq)
  show "memset m d c n i = (if d \<le> i \<and> i < d + n then ucast c else m i)" for i
    by (auto simp: memset_eq write_range_def)
qed

theorem memmove_correct_witness:
  "memcpy (\<lambda>i. of_nat i) 2 3 4 = memmove (\<lambda>i. of_nat i) 2 3 4"
  using memmove_correct [of "\<lambda>i. of_nat i" 2 3 4 0] by simp

end
