(* ===== verification/Leb128.thy ===== *)
theory Leb128
  imports Prelude
begin

text \<open>
  Reading bytes: \<^verbatim>\<open>src/w2c2/buffer.h\<close> and the LEB128 decoders of \<^verbatim>\<open>src/w2c2/leb128.h\<close>.

  A \<^verbatim>\<open>Buffer\<close> is the list of its remaining bytes: \<^verbatim>\<open>length\<close> is the list's length and \<^verbatim>\<open>data\<close> points at
  its head. Skipping more than remains, without a check, is \<open>Unsafe\<close>. A reader that returns \<^verbatim>\<open>false\<close>
  is \<open>None\<close>.
\<close>

section \<open>Buffers\<close>

type_synonym buffer = "u8 list"

definition bufferSkipUnchecked :: "buffer \<Rightarrow> nat \<Rightarrow> ('e, buffer) res" where
  "bufferSkipUnchecked buf n = (if n \<le> length buf then Val (drop n buf) else Unsafe)"

definition bufferReadEqual :: "buffer \<Rightarrow> u8 list \<Rightarrow> buffer option" where
  "bufferReadEqual buf bs =
     (if length buf < length bs then None
      else if take (length bs) buf \<noteq> bs then None
      else Some (drop (length bs) buf))"

definition bufferReadByte :: "buffer \<Rightarrow> (u8 \<times> buffer) option" where
  "bufferReadByte buf = (case buf of [] \<Rightarrow> None | b # rest \<Rightarrow> Some (b, rest))"

text \<open>The floats are read as the integers with the same bits.\<close>

definition bufferReadF32 :: "buffer \<Rightarrow> (u32 \<times> buffer) option" where
  "bufferReadF32 buf = (if length buf < 4 then None else Some (le_word (take 4 buf), drop 4 buf))"

definition bufferReadF64 :: "buffer \<Rightarrow> (u64 \<times> buffer) option" where
  "bufferReadF64 buf = (if length buf < 8 then None else Some (le_word (take 8 buf), drop 8 buf))"

definition bufferAtEnd :: "buffer \<Rightarrow> bool" where
  "bufferAtEnd buf \<longleftrightarrow> length buf \<le> 0"

definition bufferSkip :: "buffer \<Rightarrow> nat \<Rightarrow> buffer" where
  "bufferSkip buf n = drop (if length buf < n then length buf else n) buf"

lemma bufferSkip_eq [simp]: "bufferSkip buf n = drop n buf"
  by (simp add: bufferSkip_def)

lemma bufferReadByte_simps [simp]:
  "bufferReadByte [] = None" "bufferReadByte (b # rest) = Some (b, rest)"
  by (simp_all add: bufferReadByte_def)

lemma bufferReadByte_eq_Some: "bufferReadByte buf = Some (b, rest) \<longleftrightarrow> buf = b # rest"
  by (auto simp: bufferReadByte_def split: list.splits)

lemma bufferReadEqual_eq_Some: "bufferReadEqual buf bs = Some rest \<longleftrightarrow> buf = bs @ rest"
  by (auto simp: bufferReadEqual_def) (metis append_take_drop_id)

section \<open>LEB128\<close>

text \<open>
  The four decoders share one loop. \<open>k\<close> is how many bytes may still be read, \<open>v\<close> the value so far,
  \<open>sh\<close> the shift, \<open>c\<close> the count of bytes read and \<open>b\<close> the last byte; a read of the empty buffer
  ends the loop.
\<close>

fun leb128_loop :: "nat \<Rightarrow> buffer \<Rightarrow> 'a::len word \<Rightarrow> nat \<Rightarrow> nat \<Rightarrow> u8
    \<Rightarrow> 'a word \<times> nat \<times> nat \<times> u8 \<times> buffer" where
  "leb128_loop 0 buf v sh c b = (v, sh, c, b, buf)"
| "leb128_loop (Suc k) buf v sh c b =
     (case bufferReadByte buf of
        None \<Rightarrow> (v, sh, c, b, buf)
      | Some (b', rest) \<Rightarrow>
          let v' = v OR push_bit sh (ucast (b' AND 0x7F))
          in if b' AND 0x80 = 0 then (v', sh + 7, c + 1, b', rest)
             else leb128_loop k rest v' (sh + 7) (c + 1) b')"

definition int32LEB128MaxByteCount :: nat where "int32LEB128MaxByteCount = 5"
definition int64LEB128MaxByteCount :: nat where "int64LEB128MaxByteCount = 10"

text \<open>Each decoder returns the value, the number of bytes read and the remaining buffer.\<close>

definition leb128ReadU32 :: "buffer \<Rightarrow> u32 \<times> nat \<times> buffer" where
  "leb128ReadU32 buf =
     (let (v, _, c, _, rest) = leb128_loop int32LEB128MaxByteCount buf 0 0 0 0 in (v, c, rest))"

definition leb128ReadI32 :: "buffer \<Rightarrow> u32 \<times> nat \<times> buffer" where
  "leb128ReadI32 buf =
     (let (v, sh, c, b, rest) = leb128_loop int32LEB128MaxByteCount buf 0 0 0 0;
          v = (if sh < 32 \<and> b AND 0x40 \<noteq> 0 then v OR push_bit sh (NOT 0) else v)
      in (v, c, rest))"

definition leb128ReadU64 :: "buffer \<Rightarrow> u64 \<times> nat \<times> buffer" where
  "leb128ReadU64 buf =
     (let (v, _, c, _, rest) = leb128_loop int64LEB128MaxByteCount buf 0 0 0 0 in (v, c, rest))"

definition leb128ReadI64 :: "buffer \<Rightarrow> u64 \<times> nat \<times> buffer" where
  "leb128ReadI64 buf =
     (let (v, sh, c, b, rest) = leb128_loop int64LEB128MaxByteCount buf 0 0 0 0;
          v = (if sh < 64 \<and> b AND 0x40 \<noteq> 0 then v OR push_bit sh (NOT 0) else v)
      in (v, c, rest))"

text \<open>A decoder consumes exactly the bytes it counts, and counts none only on the empty buffer.\<close>

lemma leb128_loop_consumes:
  "leb128_loop k buf v sh c b = (v', sh', c', b', rest) \<Longrightarrow>
   \<exists>n. n \<le> k \<and> n \<le> length buf \<and> c' = c + n \<and> rest = drop n buf \<and> (0 < k \<and> buf \<noteq> [] \<longrightarrow> 0 < n)"
proof (induction k buf v sh c b rule: leb128_loop.induct)
  case (1 buf v sh c b)
  then show ?case by auto
next
  case (2 k buf v sh c b)
  show ?case
  proof (cases buf)
    case Nil
    with "2.prems" show ?thesis by auto
  next
    case (Cons x xs)
    show ?thesis
    proof (cases "x AND 0x80 = 0")
      case True
      with "2.prems" Cons show ?thesis by (auto intro!: exI [of _ 1])
    next
      case False
      with "2.IH" [of "(x, xs)" x xs] "2.prems" Cons
      obtain n where "n \<le> k" "n \<le> length xs" "c' = c + 1 + n" "rest = drop n xs"
        by (auto simp: Let_def)
      then show ?thesis using Cons by (intro exI [of _ "Suc n"]) auto
    qed
  qed
qed

lemma leb128_consumes:
  "leb128ReadU32 buf = (v32, c, rest) \<Longrightarrow> rest = drop c buf \<and> c \<le> length buf \<and> (c = 0 \<longleftrightarrow> buf = [])"
  "leb128ReadI32 buf = (v32, c, rest) \<Longrightarrow> rest = drop c buf \<and> c \<le> length buf \<and> (c = 0 \<longleftrightarrow> buf = [])"
  "leb128ReadU64 buf = (v64, c, rest) \<Longrightarrow> rest = drop c buf \<and> c \<le> length buf \<and> (c = 0 \<longleftrightarrow> buf = [])"
  "leb128ReadI64 buf = (v64, c, rest) \<Longrightarrow> rest = drop c buf \<and> c \<le> length buf \<and> (c = 0 \<longleftrightarrow> buf = [])"
  unfolding leb128ReadU32_def leb128ReadI32_def leb128ReadU64_def leb128ReadI64_def Let_def
  by (auto simp: int32LEB128MaxByteCount_def int64LEB128MaxByteCount_def split: prod.splits
      dest!: leb128_loop_consumes)

section \<open>What the loop computes\<close>

text \<open>
  \<open>leb_groups bs x\<close>: \<open>bs\<close> is a nonempty list of groups of seven bits, least significant first, all
  but the last with the continuation bit, spelling the low bits of the integer \<open>x\<close>.
\<close>

fun leb_groups :: "u8 list \<Rightarrow> int \<Rightarrow> bool" where
  "leb_groups [] x = False"
| "leb_groups (b # bs) x =
     (uint (b AND 0x7F) = take_bit 7 x \<and>
      (if bs = [] then b AND 0x80 = 0 else b AND 0x80 \<noteq> 0 \<and> leb_groups bs (drop_bit 7 x)))"

lemma leb_group_bits:
  assumes "uint (b AND 0x7F :: u8) = take_bit 7 x"
  shows "(ucast (b AND 0x7F) :: 'a::len word) = word_of_int (take_bit 7 x)"
  by (simp only: assms [symmetric]) simp

lemma push_group_step:
  "push_bit sh (word_of_int (take_bit 7 x) :: 'a::len word)
     OR push_bit (sh + 7) (word_of_int (take_bit m (drop_bit 7 x)))
   = push_bit sh (word_of_int (take_bit (7 + m) x))"
proof (rule bit_word_eqI)
  fix i
  assume "i < LENGTH('a)"
  moreover have "7 + (i - (sh + 7)) = i - sh" if "\<not> i - sh < 7" using that by simp
  ultimately show "bit (push_bit sh (word_of_int (take_bit 7 x) :: 'a word)
     OR push_bit (sh + 7) (word_of_int (take_bit m (drop_bit 7 x)))) i
   = bit (push_bit sh (word_of_int (take_bit (7 + m) x)) :: 'a word) i"
    by (cases "i - sh < 7") (auto simp: bit_simps)
qed

lemma leb128_loop_value:
  assumes "leb_groups bs x" and "length bs \<le> k"
  shows "leb128_loop k (bs @ rest) (v :: 'a::len word) sh c b =
     (v OR push_bit sh (word_of_int (take_bit (7 * length bs) x)), sh + 7 * length bs,
      c + length bs, last bs, rest)"
  using assms
proof (induction bs arbitrary: x k v sh c b)
  case Nil
  then show ?case by simp
next
  case (Cons y ys)
  then obtain j where k: "k = Suc j" and j: "length ys \<le> j" by (cases k) auto
  have y: "(ucast (y AND 0x7F) :: 'a word) = word_of_int (take_bit 7 x)"
    using Cons.prems(1) by (intro leb_group_bits) simp
  show ?case
  proof (cases "ys = []")
    case True
    with Cons.prems(1) k y show ?thesis by simp
  next
    case False
    with Cons.prems(1) have "leb_groups ys (drop_bit 7 x)" "y AND 0x80 \<noteq> 0" by simp_all
    with Cons.IH [of "drop_bit 7 x" j, OF _ j] k False y show ?thesis
      by (simp add: or.assoc push_group_step)
  qed
qed

text \<open>An unsigned value that the groups cover is read back, a signed one after sign extension.\<close>

lemma leb_groups_bit_last:
  "leb_groups bs x \<Longrightarrow> j < 7 \<Longrightarrow> bit (last bs) j \<longleftrightarrow> bit x (7 * (length bs - 1) + j)"
proof (induction bs arbitrary: x)
  case Nil
  then show ?case by simp
next
  case (Cons y ys)
  show ?case
  proof (cases "ys = []")
    case True
    then have "uint (y AND 0x7F) = take_bit 7 x" using Cons.prems by simp
    then have "bit (uint (y AND 0x7F)) j = bit (take_bit 7 x) j" by simp
    moreover have "(0x7F :: u8) = mask 7" by (simp add: mask_eq_exp_minus_1)
    ultimately show ?thesis using True Cons.prems(2) by (simp add: bit_simps)
  next
    case False
    with Cons have "bit (last ys) j \<longleftrightarrow> bit (drop_bit 7 x) (7 * (length ys - 1) + j)" by simp
    with False show ?thesis
      by (cases ys) (simp_all add: bit_simps add.assoc)
  qed
qed

lemma leb_unsigned_value:
  assumes "leb_groups bs x" and "length bs \<le> k" and "0 \<le> x" and "x < 2 ^ (7 * length bs)"
  shows "leb128_loop k (bs @ rest) (0 :: 'a::len word) 0 0 0 =
     (word_of_int x, 7 * length bs, length bs, last bs, rest)"
  using assms(3,4) by (simp add: leb128_loop_value [OF assms(1,2)] take_bit_int_eq_self)

lemma leb_signed_value:
  assumes "leb_groups bs x" and "length bs \<le> k"
    and hi: "\<And>i. 7 * length bs - 1 \<le> i \<Longrightarrow> bit x i \<longleftrightarrow> bit x (7 * length bs - 1)"
  shows "(let (v, sh, c, b, rest) = leb128_loop k (bs @ rest) (0 :: 'a::len word) 0 0 0;
              v = (if sh < LENGTH('a) \<and> b AND 0x40 \<noteq> 0 then v OR push_bit sh (NOT 0) else v)
          in (v, c, rest)) = (word_of_int x, length bs, rest)"
proof -
  let ?n = "7 * length bs"
  from assms(1) have ne: "bs \<noteq> []" by (cases bs) auto
  then have "?n - 1 = 7 * (length bs - 1) + 6" by (cases bs) auto
  then have sgn: "bit (last bs) 6 \<longleftrightarrow> bit x (?n - 1)"
    using leb_groups_bit_last [OF assms(1), of 6] by simp
  have "(0x40 :: u8) = push_bit 6 1" by simp
  then have b: "last bs AND 0x40 \<noteq> 0 \<longleftrightarrow> bit (last bs) 6"
    by (metis bit_iff_and_push_bit_not_eq_0)
  have hi': "bit x i \<longleftrightarrow> bit (last bs) 6" if "?n \<le> i" for i
    using hi [of i] sgn that by simp
  have "(if ?n < LENGTH('a) \<and> bit (last bs) 6
         then word_of_int (take_bit ?n x) OR push_bit ?n (NOT 0) else word_of_int (take_bit ?n x))
        = (word_of_int x :: 'a word)"
  proof (rule bit_word_eqI)
    fix i
    assume "i < LENGTH('a)"
    then show "bit (if ?n < LENGTH('a) \<and> bit (last bs) 6
         then word_of_int (take_bit ?n x) OR push_bit ?n (NOT 0)
         else word_of_int (take_bit ?n x) :: 'a word) i
        = bit (word_of_int x :: 'a word) i"
      by (cases "i < ?n") (auto simp: bit_simps hi')
  qed
  then show ?thesis
    by (simp add: leb128_loop_value [OF assms(1,2)] b Let_def)
qed

end
