(* ===== verification/Emit_Buf.thy ===== *)
theory Emit_Buf
  imports Leb128
begin

text \<open>
  The byte buffer of the WebAssembly backend \<^verbatim>\<open>src/cc/codegen.c\<close> and its LEB128, name and section
  emitters, with the plain LEB128 encoding they implement, and the interface \<open>codec\<close>: an encoder and
  a decoder that undo each other with anything behind.

  A \<^verbatim>\<open>Buf\<close> is the list of bytes written and the capacity; \<^verbatim>\<open>len\<close> is the list's length.
  \<^verbatim>\<open>realloc\<close> is taken to succeed, as the code takes it.
\<close>

section \<open>The buffer\<close>

record Buf =
  buf_data :: "u8 list"
  buf_cap :: nat

definition empty_buf :: Buf where
  "empty_buf = \<lparr>buf_data = [], buf_cap = 0\<rparr>"

definition buf_u8 :: "Buf \<Rightarrow> int \<Rightarrow> Buf" where
  "buf_u8 b v =
     (let b = (if length (buf_data b) = buf_cap b
               then b\<lparr>buf_cap := (if buf_cap b \<noteq> 0 then buf_cap b * 2 else 256)\<rparr> else b)
      in b\<lparr>buf_data := buf_data b @ [word_of_int v]\<rparr>)"

definition buf_bytes :: "Buf \<Rightarrow> u8 list \<Rightarrow> Buf" where
  "buf_bytes b p = fold (\<lambda>x b. buf_u8 b (uint x)) p b"

function buf_uleb :: "Buf \<Rightarrow> u64 \<Rightarrow> Buf" where
  "buf_uleb b v =
     (let c = v AND 0x7F; v' = drop_bit 7 v;
          b' = buf_u8 b (uint (if v' \<noteq> 0 then c OR 0x80 else c))
      in if v' \<noteq> 0 then buf_uleb b' v' else b')"
  by auto

lemma unat_drop7: "unat (drop_bit 7 v) = unat (v :: u64) div 128"
  by (subst unat_drop_bit_eq) (simp add: drop_bit_eq_div)

lemma unat_drop_less: "drop_bit 7 v \<noteq> 0 \<Longrightarrow> unat (drop_bit 7 v) < unat (v :: u64)"
proof -
  assume "drop_bit 7 v \<noteq> 0"
  then have "unat v \<noteq> 0" by (auto simp: unat_eq_zero)
  then show ?thesis by (simp only: unat_drop7)
qed

lemma div128_shrinks:
  "v \<noteq> 0 \<Longrightarrow> v \<noteq> -1 \<Longrightarrow>
   (0 < v \<and> 0 \<le> v div 128 \<and> v div 128 < v) \<or> (v < -1 \<and> v div 128 < 0 \<and> v < v div (128 :: int))"
  using mult_div_mod_eq [of 128 v] pos_mod_bound [of 128 v] pos_mod_sign [of 128 v] by linarith

termination buf_uleb
  by (relation "measure (unat \<circ> snd)") (auto intro: unat_drop_less)

text \<open>The C \<^verbatim>\<open>int64_t\<close> is an integer; its shift is arithmetic.\<close>

function buf_sleb :: "Buf \<Rightarrow> int \<Rightarrow> Buf" where
  "buf_sleb b v =
     (let c = v AND 0x7F; v' = drop_bit 7 v;
          fin = (v' = 0 \<and> c AND 0x40 = 0 \<or> v' = -1 \<and> c AND 0x40 \<noteq> 0);
          b' = buf_u8 b (if fin then c else c OR 0x80)
      in if fin then b' else buf_sleb b' v')"
  by auto

termination buf_sleb
proof (relation "measure (\<lambda>(b, v). nat (if 0 \<le> v then v else - v - 1))", goal_cases)
  case (2 b v c v' d b')
  have "v \<noteq> 0" "v \<noteq> -1" using 2 by auto
  then show ?case using div128_shrinks [of v] by (auto simp: 2 drop_bit_eq_div)
qed simp

definition buf_name :: "Buf \<Rightarrow> u8 list \<Rightarrow> Buf" where
  "buf_name b s = buf_bytes (buf_uleb b (of_nat (length s))) s"

definition buf_buf :: "Buf \<Rightarrow> Buf \<Rightarrow> Buf" where
  "buf_buf b src = buf_bytes b (buf_data src)"

definition buf_section :: "Buf \<Rightarrow> int \<Rightarrow> Buf \<Rightarrow> Buf" where
  "buf_section out i content =
     buf_buf (buf_uleb (buf_u8 out i) (of_nat (length (buf_data content)))) content"

text \<open>The capacity always covers the bytes, and a write finds room.\<close>

definition buf_ok :: "Buf \<Rightarrow> bool" where
  "buf_ok b \<longleftrightarrow> length (buf_data b) \<le> buf_cap b"

lemma buf_u8_data [simp]: "buf_data (buf_u8 b v) = buf_data b @ [word_of_int v]"
  by (simp add: buf_u8_def Let_def)

lemma buf_u8_ok: "buf_ok b \<Longrightarrow> buf_ok (buf_u8 b v)"
  by (auto simp: buf_ok_def buf_u8_def Let_def)

lemma buf_bytes_data [simp]: "buf_data (buf_bytes b p) = buf_data b @ p"
  by (induction p arbitrary: b) (simp_all add: buf_bytes_def)

lemma buf_bytes_ok: "buf_ok b \<Longrightarrow> buf_ok (buf_bytes b p)"
  by (induction p arbitrary: b) (simp_all add: buf_bytes_def buf_u8_ok)

section \<open>The plain encoding\<close>

fun uleb_bytes :: "nat \<Rightarrow> u8 list" where
  "uleb_bytes n =
     (if n < 128 then [of_nat n] else of_nat (n mod 128 + 128) # uleb_bytes (n div 128))"

function sleb_bytes :: "int \<Rightarrow> u8 list" where
  "sleb_bytes x =
     (if - 64 \<le> x \<and> x < 64 then [of_int (x mod 128)]
      else of_int (x mod 128 + 128) # sleb_bytes (x div 128))"
  by auto

termination sleb_bytes
proof (relation "measure (\<lambda>v. nat (if 0 \<le> v then v else - v - 1))", goal_cases)
  case (2 v)
  then have "v \<noteq> 0" "v \<noteq> -1" by auto
  then show ?case using div128_shrinks [of v] by auto
qed simp

declare uleb_bytes.simps [simp del] sleb_bytes.simps [simp del]
declare buf_uleb.simps [simp del] buf_sleb.simps [simp del]

lemma or_128: "0 \<le> c \<Longrightarrow> c < 128 \<Longrightarrow> c OR 128 = c + (128 :: int)"
proof -
  assume "0 \<le> c" "c < 128"
  then have "take_bit 7 c = c" by (intro take_bit_int_eq_self) simp_all
  then have "\<not> bit c 7" by (metis bit_take_bit_iff less_irrefl)
  moreover have "(128 :: int) = push_bit 7 1" by simp
  ultimately have "c AND 128 = 0" by (metis bit_iff_and_push_bit_not_eq_0)
  then show ?thesis using plus_and_or [of c 128] by simp
qed

lemma and_127: "x AND 127 = x mod (128 :: int)"
  using take_bit_eq_mask [of 7 x] by (simp add: mask_eq_exp_minus_1 take_bit_eq_mod)

lemma and_64: "(x mod 128) AND 64 = 0 \<longleftrightarrow> x mod 128 < (64 :: int)"
proof -
  have "(x mod 128) AND push_bit 6 1 \<noteq> 0 \<longleftrightarrow> bit (x mod 128) 6"
    by (simp only: bit_iff_and_push_bit_not_eq_0)
  also have "\<dots> \<longleftrightarrow> odd (x mod 128 div 64)" by (simp add: bit_iff_odd)
  also have "\<dots> \<longleftrightarrow> \<not> x mod 128 < 64"
  proof -
    have "0 \<le> x mod 128" "x mod 128 < 128" by simp_all
    then have "x mod 128 div 64 = (if x mod 128 < 64 then 0 else 1)"
      by (auto intro: div_pos_pos_trivial)
    then show ?thesis by simp
  qed
  finally show ?thesis by simp
qed

lemma buf_uleb_data: "buf_data (buf_uleb b v) = buf_data b @ uleb_bytes (unat v)"
proof (induction b v rule: buf_uleb.induct)
  case (1 b v)
  have c: "uint (v AND 0x7F) = uint v mod 128" by (simp add: unsigned_and_eq and_127)
  have c': "uint (v AND 0x7F OR 0x80) = uint v mod 128 + 128"
    by (simp add: unsigned_or_eq unsigned_and_eq and_127 or_128)
  have z: "drop_bit 7 v = 0 \<longleftrightarrow> unat v < 128"
    by (simp only: unat_eq_zero [symmetric] unat_drop7 div_eq_0_iff) simp
  have n: "(of_nat (unat v mod 128 + 128) :: u8) = word_of_int (uint v mod 128 + 128)"
  proof -
    have "int (unat v mod 128 + 128) = uint v mod 128 + 128" by (simp add: zmod_int)
    then show ?thesis by (metis of_int_of_nat_eq)
  qed
  show ?case
  proof (cases "drop_bit 7 v = 0")
    case True
    have "buf_uleb b v = buf_u8 b (uint (v AND 0x7F))"
      by (simp only: buf_uleb.simps [of b v] Let_def True if_False refl not_True_eq_False)
    moreover have "uleb_bytes (unat v) = [of_nat (unat v)]"
      using True z by (simp only: uleb_bytes.simps [of "unat v"] if_True)
    moreover have l: "word_of_int (uint v mod 128) = (of_nat (unat v) :: u8)"
    proof -
      have "unat v mod 128 = unat v" using True z by simp
      then have "int (unat v) = uint v mod 128" by (metis zmod_int of_nat_numeral of_nat_unat)
      then show ?thesis by (metis of_int_of_nat_eq)
    qed
    ultimately show ?thesis by (simp only: buf_u8_data c l)
  next
    case False
    let ?b = "buf_u8 b (uint (v AND 0x7F OR 0x80))"
    have "buf_uleb b v = buf_uleb ?b (drop_bit 7 v)"
      by (simp only: buf_uleb.simps [of b v] Let_def False if_True not_False_eq_True)
    moreover have "buf_data (buf_uleb ?b (drop_bit 7 v)) = buf_data ?b @ uleb_bytes (unat v div 128)"
      using 1 [OF refl refl refl False] False by (simp only: unat_drop7 if_True not_False_eq_True)
    moreover have "uleb_bytes (unat v) = word_of_int (uint v mod 128 + 128) # uleb_bytes (unat v div 128)"
      using False z by (simp only: uleb_bytes.simps [of "unat v"] if_False n)
    ultimately show ?thesis by (simp only: buf_u8_data c' append.simps append_assoc)
  qed
qed

lemma buf_sleb_data: "buf_data (buf_sleb b v) = buf_data b @ sleb_bytes v"
proof (induction b v rule: buf_sleb.induct)
  case (1 b v)
  let ?c = "v AND 0x7F" and ?d = "drop_bit 7 v"
  let ?done = "?d = 0 \<and> ?c AND 0x40 = 0 \<or> ?d = -1 \<and> ?c AND 0x40 \<noteq> 0"
  have c: "?c = v mod 128" "?c OR 0x80 = v mod 128 + 128"
    by (simp_all add: and_127 or_128)
  have d: "?d = v div 128" by (simp add: drop_bit_eq_div)
  have "?done \<longleftrightarrow> - 64 \<le> v \<and> v < 64"
  proof -
    have v: "v = 128 * (v div 128) + v mod 128" by simp
    have "0 \<le> v mod 128" "v mod 128 < 128" by simp_all
    with v have "v div 128 = 0 \<and> v mod 128 < 64 \<or> v div 128 = -1 \<and> \<not> v mod 128 < 64 \<longleftrightarrow>
        - 64 \<le> v \<and> v < 64" by linarith
    then show ?thesis unfolding c(1) d and_64 by blast
  qed
  note fin = this
  show ?case
  proof (cases ?done)
    case True
    have "buf_sleb b v = buf_u8 b ?c"
      using True by (simp only: buf_sleb.simps [of b v] Let_def if_True)
    moreover have "sleb_bytes v = [of_int (v mod 128)]"
      using True unfolding fin by (simp only: sleb_bytes.simps [of v] if_True simp_thms)
    ultimately show ?thesis by (simp only: buf_u8_data c)
  next
    case False
    have "buf_sleb b v = buf_sleb (buf_u8 b (?c OR 0x80)) ?d"
      using False by (simp only: buf_sleb.simps [of b v] Let_def if_False)
    moreover have "buf_data (buf_sleb (buf_u8 b (?c OR 0x80)) ?d) =
        buf_data (buf_u8 b (?c OR 0x80)) @ sleb_bytes ?d"
      using 1 [OF refl refl refl refl False] False by (simp only: if_False)
    moreover have "sleb_bytes v = of_int (v mod 128 + 128) # sleb_bytes (v div 128)"
      using False unfolding fin by (simp only: sleb_bytes.simps [of v] if_False)
    ultimately show ?thesis by (simp only: buf_u8_data c(2) d append.simps append_assoc)
  qed
qed

section \<open>The encodings are LEB128 groups\<close>

lemma u8_high_bit: "(b :: u8) AND 0x80 = 0 \<longleftrightarrow> uint b < 128"
proof -
  have "b AND push_bit 7 1 \<noteq> 0 \<longleftrightarrow> bit (uint b) 7"
    by (simp only: bit_iff_and_push_bit_not_eq_0 [symmetric] bit_uint_iff) (simp add: bit_imp_le_length)
  also have "\<dots> \<longleftrightarrow> odd (uint b div 128)" by (simp add: bit_iff_odd)
  also have "\<dots> \<longleftrightarrow> \<not> uint b < 128"
  proof -
    have "0 \<le> uint b" "uint b < 256" using unsigned_less [of b, where 'a = int] by simp_all
    then have "uint b div 128 = (if uint b < 128 then 0 else 1)"
      using mult_div_mod_eq [of 128 "uint b"] pos_mod_bound [of 128 "uint b"]
        pos_mod_sign [of 128 "uint b"] by (cases "uint b < 128"; simp only: if_True if_False; linarith)
    then show ?thesis by simp
  qed
  finally show ?thesis by simp
qed

lemma word_group:
  assumes "0 \<le> m" "m < 128"
  shows "uint (of_int m AND 0x7F :: u8) = m" "of_int m AND 0x80 = (0 :: u8)"
    and "uint (of_int (m + 128) AND 0x7F :: u8) = m" "of_int (m + 128) AND 0x80 \<noteq> (0 :: u8)"
proof -
  have t: "uint (of_int m :: u8) = m" "uint (of_int (m + 128) :: u8) = m + 128"
    using assms by (simp_all add: unsigned_of_int take_bit_int_eq_self del: of_int_add)
  show "uint (of_int m AND 0x7F :: u8) = m"
    using assms t by (simp add: unsigned_and_eq and_127)
  have "uint (of_int (m + 128) AND 0x7F :: u8) = (m + 128) mod 128"
    using t by (simp add: unsigned_and_eq and_127 del: of_int_add)
  also have "\<dots> = m" using assms by simp
  finally show "uint (of_int (m + 128) AND 0x7F :: u8) = m" .
  show "of_int m AND 0x80 = (0 :: u8)" using assms t by (simp only: u8_high_bit)
  show "of_int (m + 128) AND 0x80 \<noteq> (0 :: u8)" using assms t by (simp only: u8_high_bit)
qed

lemma leb_groups_Cons:
  assumes "leb_groups bs (x div 128)"
  shows "leb_groups (of_int (x mod 128 + 128) # bs) x"
proof -
  from assms have "bs \<noteq> []" by auto
  then show ?thesis
    using assms word_group(3,4) [of "x mod 128"]
    by (simp only: leb_groups.simps if_False) (simp add: take_bit_eq_mod drop_bit_eq_div)
qed

lemma leb_groups_single: "leb_groups [of_int (x mod 128)] x"
  using word_group(1,2) [of "x mod 128"] by (simp add: take_bit_eq_mod)

lemma uleb_groups: "leb_groups (uleb_bytes n) (int n)"
proof (induction n rule: uleb_bytes.induct)
  case (1 n)
  have of_nat_int: "of_nat k = (of_int (int k) :: u8)" for k by simp
  show ?case
  proof (cases "n < 128")
    case True
    then have "int n mod 128 = int n" by simp
    then have "of_nat n = (of_int (int n mod 128) :: u8)" by (simp only: of_nat_int)
    with True show ?thesis
      using leb_groups_single [of "int n"] by (simp only: uleb_bytes.simps [of n] if_True)
  next
    case False
    have "int (n mod 128 + 128) = int n mod 128 + 128" by (simp add: zmod_int)
    then have h: "of_nat (n mod 128 + 128) = (of_int (int n mod 128 + 128) :: u8)"
      by (simp only: of_nat_int)
    have "leb_groups (uleb_bytes (n div 128)) (int n div 128)"
      using 1 [OF False] by (simp only: zdiv_int of_nat_numeral)
    then show ?thesis
      using False unfolding uleb_bytes.simps [of n] h by (simp only: if_False leb_groups_Cons)
  qed
qed

lemma sleb_groups: "leb_groups (sleb_bytes x) x"
proof (induction x rule: sleb_bytes.induct)
  case (1 x)
  show ?case
  proof (cases "- 64 \<le> x \<and> x < 64")
    case True
    then show ?thesis
      using leb_groups_single [of x] unfolding sleb_bytes.simps [of x] by (simp only: if_True simp_thms)
  next
    case False
    then show ?thesis
      using leb_groups_Cons [OF 1 [OF False]] unfolding sleb_bytes.simps [of x] by (simp only: if_False)
  qed
qed

text \<open>How many groups: enough for the value, and no more than a \<open>k\<close>-group value needs.\<close>

lemma uleb_length: "0 < k \<Longrightarrow> n < 128 ^ k \<Longrightarrow> length (uleb_bytes n) \<le> k"
proof (induction n arbitrary: k rule: uleb_bytes.induct)
  case (1 n)
  show ?case
  proof (cases "n < 128")
    case True
    with "1.prems" show ?thesis by (simp add: uleb_bytes.simps [of n])
  next
    case False
    with "1.prems" obtain j where k: "k = Suc j" "0 < j" by (cases k; cases "k - 1") auto
    with "1.prems" have "n div 128 < 128 ^ j" by (simp add: less_mult_imp_div_less mult.commute)
    with 1 False k show ?thesis by (simp add: uleb_bytes.simps [of n])
  qed
qed

lemma uleb_bound: "n < 128 ^ length (uleb_bytes n)"
proof (induction n rule: uleb_bytes.induct)
  case (1 n)
  show ?case
  proof (cases "n < 128")
    case True
    then show ?thesis by (simp add: uleb_bytes.simps [of n])
  next
    case False
    with 1 have "n div 128 < 128 ^ length (uleb_bytes (n div 128))" by simp
    then have "n < 128 * 128 ^ length (uleb_bytes (n div 128))"
      by (metis div_less_iff_less_mult mult.commute zero_less_numeral)
    with False show ?thesis by (simp add: uleb_bytes.simps [of n])
  qed
qed

lemma sleb_length:
  "0 < k \<Longrightarrow> - (64 * 128 ^ (k - 1)) \<le> x \<Longrightarrow> x < 64 * 128 ^ (k - 1) \<Longrightarrow> length (sleb_bytes x) \<le> k"
proof (induction x arbitrary: k rule: sleb_bytes.induct)
  case (1 x)
  show ?case
  proof (cases "- 64 \<le> x \<and> x < 64")
    case True
    with "1.prems" show ?thesis by (simp add: sleb_bytes.simps [of x])
  next
    case False
    with "1.prems" obtain j where k: "k = Suc (Suc j)" by (cases k; cases "k - 1") auto
    have "- (64 * 128 ^ j) \<le> x div 128"
      using "1.prems"(2) k zdiv_mono1 [of "- (64 * 128 ^ j) * 128" x 128] by (simp add: mult.assoc)
    moreover have "x div 128 < 64 * 128 ^ j"
      using "1.prems"(3) k by (simp add: div_less_iff_less_mult algebra_simps)
    ultimately have "length (sleb_bytes (x div 128)) \<le> Suc j"
      using "1.IH" [OF False, of "Suc j"] by simp
    with False k show ?thesis by (simp add: sleb_bytes.simps [of x])
  qed
qed

lemma sleb_bound:
  "- (64 * 128 ^ (length (sleb_bytes x) - 1)) \<le> x \<and> x < 64 * 128 ^ (length (sleb_bytes x) - 1)"
proof (induction x rule: sleb_bytes.induct)
  case (1 x)
  show ?case
  proof (cases "- 64 \<le> x \<and> x < 64")
    case True
    then show ?thesis by (simp add: sleb_bytes.simps [of x])
  next
    case False
    let ?n = "length (sleb_bytes (x div 128))"
    from sleb_groups [of "x div 128"] have "?n = Suc (?n - 1)" by (cases "sleb_bytes (x div 128)") auto
    then have p: "(128 :: int) ^ ?n = 128 * 128 ^ (?n - 1)" by (metis power_Suc)
    from 1 [OF False] have "- (64 * 128 ^ ?n) \<le> x \<and> x < 64 * 128 ^ ?n"
      unfolding p using mult_div_mod_eq [of 128 x] pos_mod_bound [of 128 x] pos_mod_sign [of 128 x]
      by linarith
    with False show ?thesis by (simp add: sleb_bytes.simps [of x])
  qed
qed

end
