(* ===== verification/Read_Monad.thy ===== *)
theory Read_Monad
  imports Emit_Buf
begin

text \<open>
  The way every parser of \<^verbatim>\<open>src/w2c2\<close> is written: it takes bytes from a \<^verbatim>\<open>Buffer\<close>, may allocate, and
  ends with a value or an error. A parser maps the state (remaining bytes, allocations made) to an
  outcome.

  The C library's allocator is the parameter \<open>al\<close>: \<open>al k n\<close> tells whether the \<open>k\<close>-th allocation, of
  \<open>n\<close> bytes, succeeds. \<open>rd_ok E k m\<close> is the contract the parsers share: \<open>m\<close> leaves a suffix of its
  input at least \<open>k\<close> bytes shorter and is \<open>Unsafe\<close> only if \<open>E\<close> allows it. The locale \<open>codec\<close> relates a
  parser to the encoder it undoes.
\<close>

section \<open>Parsers\<close>

record rd_state =
  rd_buffer :: buffer
  rd_allocs :: nat

type_synonym ('e, 'a) rd = "rd_state \<Rightarrow> ('e, 'a \<times> rd_state) res"
type_synonym allocator = "nat \<Rightarrow> nat \<Rightarrow> bool"

definition rd_return :: "'a \<Rightarrow> ('e, 'a) rd" where
  "rd_return x = (\<lambda>s. Val (x, s))"

definition rd_fail :: "'e \<Rightarrow> ('e, 'a) rd" where
  "rd_fail e = (\<lambda>s. Stop e)"

definition rd_bind :: "('e, 'a) rd \<Rightarrow> ('a \<Rightarrow> ('e, 'b) rd) \<Rightarrow> ('e, 'b) rd" where
  "rd_bind m f = (\<lambda>s. res_bind (m s) (\<lambda>(x, s'). f x s'))"

text \<open>\<open>if (!read(\<dots>)) { *error = e; return; }\<close>: any failure of \<open>m\<close> becomes \<open>e\<close>.\<close>

definition rd_or :: "'e \<Rightarrow> ('e2, 'a) rd \<Rightarrow> ('e, 'a) rd" where
  "rd_or e m = (\<lambda>s. case m s of Val r \<Rightarrow> Val r | Stop _ \<Rightarrow> Stop e | Unsafe \<Rightarrow> Unsafe)"

definition rd_option :: "'e \<Rightarrow> (buffer \<Rightarrow> ('a \<times> buffer) option) \<Rightarrow> ('e, 'a) rd" where
  "rd_option e f = (\<lambda>s. case f (rd_buffer s) of
     None \<Rightarrow> Stop e | Some (x, rest) \<Rightarrow> Val (x, s\<lparr>rd_buffer := rest\<rparr>))"

text \<open>\<open>if (leb128Read\<dots>(&reader->buffer, &x) == 0) { *error = e; return; }\<close>\<close>

definition rd_leb :: "'e \<Rightarrow> (buffer \<Rightarrow> 'a \<times> nat \<times> buffer) \<Rightarrow> ('e, 'a) rd" where
  "rd_leb e f = (\<lambda>s. case f (rd_buffer s) of
     (x, c, rest) \<Rightarrow> if c = 0 then Stop e else Val (x, s\<lparr>rd_buffer := rest\<rparr>))"

definition rd_byte :: "'e \<Rightarrow> ('e, u8) rd" where
  "rd_byte e = rd_option e bufferReadByte"

definition rd_u32 :: "'e \<Rightarrow> ('e, u32) rd" where
  "rd_u32 e = rd_leb e leb128ReadU32"

definition rd_guard :: "bool \<Rightarrow> 'e \<Rightarrow> ('e, unit) rd" where
  "rd_guard c e = (\<lambda>s. if c then Val ((), s) else Stop e)"

text \<open>\<^verbatim>\<open>calloc(count, size)\<close>, checked for \<^verbatim>\<open>NULL\<close>.\<close>

definition rd_calloc :: "allocator \<Rightarrow> 'e \<Rightarrow> nat \<Rightarrow> nat \<Rightarrow> ('e, unit) rd" where
  "rd_calloc al e n sz = (\<lambda>s.
     if al (rd_allocs s) (n * sz) then Val ((), s\<lparr>rd_allocs := rd_allocs s + 1\<rparr>) else Stop e)"

text \<open>\<^verbatim>\<open>for (i = 0; i < n; i++)\<close> around one element's parser.\<close>

fun rd_many :: "nat \<Rightarrow> ('e, 'a) rd \<Rightarrow> ('e, 'a list) rd" where
  "rd_many 0 m = rd_return []"
| "rd_many (Suc n) m = rd_bind m (\<lambda>x. rd_bind (rd_many n m) (\<lambda>xs. rd_return (x # xs)))"

text \<open>
  Loops that thread a value: a fixed number of rounds, one round per element of an array, and a
  \<^verbatim>\<open>while\<close> loop, which may not end. \<open>rd_while\<close> counts a loop that does not end as \<open>Unsafe\<close>.
\<close>

fun rd_iter :: "nat \<Rightarrow> ('a \<Rightarrow> ('e, 'a) rd) \<Rightarrow> 'a \<Rightarrow> ('e, 'a) rd" where
  "rd_iter 0 f x = rd_return x"
| "rd_iter (Suc n) f x = rd_bind (f x) (rd_iter n f)"

fun rd_map :: "('a \<Rightarrow> ('e, 'b) rd) \<Rightarrow> 'a list \<Rightarrow> ('e, 'b list) rd" where
  "rd_map f [] = rd_return []"
| "rd_map f (x # xs) = rd_bind (f x) (\<lambda>y. rd_bind (rd_map f xs) (\<lambda>ys. rd_return (y # ys)))"

partial_function (option) rd_loop ::
    "('a \<Rightarrow> rd_state \<Rightarrow> bool) \<Rightarrow> ('a \<Rightarrow> ('e, 'a) rd) \<Rightarrow> 'a \<Rightarrow> rd_state \<Rightarrow> ('e, 'a \<times> rd_state) res option" where
  "rd_loop c body x s =
     (if c x s
      then (case body x s of
              Val r \<Rightarrow> rd_loop c body (fst r) (snd r)
            | Stop e \<Rightarrow> Some (Stop e)
            | Unsafe \<Rightarrow> Some Unsafe)
      else Some (Val (x, s)))"

definition rd_while :: "('a \<Rightarrow> rd_state \<Rightarrow> bool) \<Rightarrow> ('a \<Rightarrow> ('e, 'a) rd) \<Rightarrow> 'a \<Rightarrow> ('e, 'a) rd" where
  "rd_while c body x = (\<lambda>s. case rd_loop c body x s of Some r \<Rightarrow> r | None \<Rightarrow> Unsafe)"

text \<open>The remaining bytes, the clamped skip and the unchecked one.\<close>

definition rd_rest :: "('e, buffer) rd" where
  "rd_rest = (\<lambda>s. Val (rd_buffer s, s))"

definition rd_skip :: "nat \<Rightarrow> ('e, unit) rd" where
  "rd_skip n = (\<lambda>s. Val ((), s\<lparr>rd_buffer := bufferSkip (rd_buffer s) n\<rparr>))"

definition rd_skip_unchecked :: "nat \<Rightarrow> ('e, unit) rd" where
  "rd_skip_unchecked n = (\<lambda>s.
     res_bind (bufferSkipUnchecked (rd_buffer s) n) (\<lambda>rest. Val ((), s\<lparr>rd_buffer := rest\<rparr>)))"

text \<open>The pattern of most sections: a count, an array of that many elements, the elements.\<close>

definition rd_vec :: "allocator \<Rightarrow> 'e \<Rightarrow> 'e \<Rightarrow> nat \<Rightarrow> ('e, 'a) rd \<Rightarrow> ('e, 'a list) rd" where
  "rd_vec al e_count e_alloc sz m =
     rd_bind (rd_u32 e_count) (\<lambda>n.
     rd_bind (rd_calloc al e_alloc (unat n) sz) (\<lambda>_.
     rd_many (unat n) m))"

section \<open>The contract of a parser\<close>

definition rd_ok :: "(rd_state \<Rightarrow> bool) \<Rightarrow> nat \<Rightarrow> ('e, 'a) rd \<Rightarrow> bool" where
  "rd_ok E k m \<longleftrightarrow> (\<forall>s. case m s of
     Val (x, s') \<Rightarrow> suffix (rd_buffer s') (rd_buffer s)
                    \<and> length (rd_buffer s') + k \<le> length (rd_buffer s)
   | Stop e \<Rightarrow> True
   | Unsafe \<Rightarrow> \<exists>s'. suffix (rd_buffer s') (rd_buffer s) \<and> E s')"

named_theorems rd_intros "parsers that keep the contract"

lemma rd_okI:
  assumes "\<And>s x s'. m s = Val (x, s') \<Longrightarrow>
      suffix (rd_buffer s') (rd_buffer s) \<and> length (rd_buffer s') + k \<le> length (rd_buffer s)"
    and "\<And>s. m s = Unsafe \<Longrightarrow> \<exists>s'. suffix (rd_buffer s') (rd_buffer s) \<and> E s'"
  shows "rd_ok E k m"
  using assms by (auto simp: rd_ok_def split: res.splits prod.splits)

lemma rd_okD:
  assumes "rd_ok E k m"
  shows "m s = Val (x, s') \<Longrightarrow> suffix (rd_buffer s') (rd_buffer s)"
    and "m s = Val (x, s') \<Longrightarrow> length (rd_buffer s') + k \<le> length (rd_buffer s)"
    and "m s = Unsafe \<Longrightarrow> \<exists>s'. suffix (rd_buffer s') (rd_buffer s) \<and> E s'"
  using assms by (auto simp: rd_ok_def dest: spec [of _ s] split: res.splits prod.splits)

lemma rd_ok_weaken: "rd_ok E k m \<Longrightarrow> j \<le> k \<Longrightarrow> rd_ok E j m"
  by (intro rd_okI) (fastforce dest: rd_okD(1) rd_okD(2), auto dest: rd_okD(3))

lemma rd_ok_return [rd_intros]: "rd_ok E 0 (rd_return x)"
  by (auto intro: rd_okI simp: rd_return_def)

lemma rd_ok_fail [rd_intros]: "rd_ok E k (rd_fail e)"
  by (auto intro: rd_okI simp: rd_fail_def)

lemma rd_ok_guard [rd_intros]: "rd_ok E 0 (rd_guard c e)"
  by (auto intro!: rd_okI simp: rd_guard_def split: if_splits)

lemma rd_ok_calloc [rd_intros]: "rd_ok E 0 (rd_calloc al e n sz)"
  by (auto intro!: rd_okI simp: rd_calloc_def split: if_splits)

lemma rd_ok_bind:
  assumes m: "rd_ok E j m" and f: "\<And>x. rd_ok E k (f x)"
  shows "rd_ok E (j + k) (rd_bind m f)"
proof (rule rd_okI)
  fix s y s2
  assume "rd_bind m f s = Val (y, s2)"
  then obtain x s1 where "m s = Val (x, s1)" "f x s1 = Val (y, s2)"
    by (auto simp: rd_bind_def res_bind_eq_Val)
  with rd_okD(1,2) [OF m] rd_okD(1,2) [OF f]
  show "suffix (rd_buffer s2) (rd_buffer s) \<and> length (rd_buffer s2) + (j + k) \<le> length (rd_buffer s)"
    by (fastforce intro: suffix_order.trans)
next
  fix s
  assume "rd_bind m f s = Unsafe"
  then consider "m s = Unsafe" | x s1 where "m s = Val (x, s1)" "f x s1 = Unsafe"
    by (auto simp: rd_bind_def res_bind_eq_Unsafe)
  then show "\<exists>s'. suffix (rd_buffer s') (rd_buffer s) \<and> E s'"
  proof cases
    case 1
    then show ?thesis by (rule rd_okD(3) [OF m])
  next
    case 2
    with rd_okD(1) [OF m] rd_okD(3) [OF f] show ?thesis by (blast intro: suffix_order.trans)
  qed
qed

text \<open>With a goal for at least \<open>n\<close> bytes: the first parser takes all that is asked, or the second.\<close>

lemma rd_ok_bind1: "rd_ok E k m \<Longrightarrow> (\<And>x. rd_ok E 0 (f x)) \<Longrightarrow> rd_ok E k (rd_bind m f)"
  using rd_ok_bind [of E k m 0 f] by simp

lemma rd_ok_bind2: "rd_ok E 0 m \<Longrightarrow> (\<And>x. rd_ok E k (f x)) \<Longrightarrow> rd_ok E k (rd_bind m f)"
  using rd_ok_bind [of E 0 m k f] by simp

lemma rd_ok_or: "rd_ok E k m \<Longrightarrow> rd_ok E k (rd_or e m)"
  by (auto simp: rd_ok_def rd_or_def split: res.splits)

lemma rd_ok_option:
  assumes "\<And>buf x rest. f buf = Some (x, rest) \<Longrightarrow> suffix rest buf \<and> length rest + k \<le> length buf"
  shows "rd_ok E k (rd_option e f)"
  using assms by (auto intro!: rd_okI simp: rd_option_def split: option.splits)

lemma rd_ok_byte [rd_intros]: "k \<le> 1 \<Longrightarrow> rd_ok E k (rd_byte e)"
  unfolding rd_byte_def
  by (rule rd_ok_option) (auto simp: bufferReadByte_eq_Some suffix_ConsI)

lemma rd_ok_leb:
  assumes "\<And>buf x c rest. f buf = (x, c, rest) \<Longrightarrow> rest = drop c buf \<and> c \<le> length buf" and "k \<le> 1"
  shows "rd_ok E k (rd_leb e f)"
proof (rule rd_okI)
  fix s x s'
  assume "rd_leb e f s = Val (x, s')"
  then obtain c rest where "f (rd_buffer s) = (x, c, rest)" "c \<noteq> 0" "s' = s\<lparr>rd_buffer := rest\<rparr>"
    by (auto simp: rd_leb_def split: prod.splits if_splits)
  then show "suffix (rd_buffer s') (rd_buffer s) \<and> length (rd_buffer s') + k \<le> length (rd_buffer s)"
    using assms by (fastforce simp: suffix_drop)
qed (auto simp: rd_leb_def split: prod.splits if_splits)

lemma rd_ok_lebs [rd_intros]:
  "k \<le> 1 \<Longrightarrow> rd_ok E k (rd_u32 e)" "k \<le> 1 \<Longrightarrow> rd_ok E k (rd_leb e leb128ReadU32)"
  "k \<le> 1 \<Longrightarrow> rd_ok E k (rd_leb e leb128ReadI32)" "k \<le> 1 \<Longrightarrow> rd_ok E k (rd_leb e leb128ReadU64)"
  "k \<le> 1 \<Longrightarrow> rd_ok E k (rd_leb e leb128ReadI64)"
  unfolding rd_u32_def by (rule rd_ok_leb; simp add: leb128_consumes)+

lemma rd_ok_many:
  assumes "rd_ok E k m"
  shows "rd_ok E (n * k) (rd_many n m)"
proof (induction n)
  case 0
  then show ?case by (simp add: rd_ok_return)
next
  case (Suc n)
  have "rd_ok E (k + (n * k + 0)) (rd_many (Suc n) m)"
    unfolding rd_many.simps by (intro rd_ok_bind assms Suc.IH rd_ok_return)
  then show ?case by simp
qed

lemma rd_ok_many0 [rd_intros]: "rd_ok E 0 m \<Longrightarrow> rd_ok E 0 (rd_many n m)"
  using rd_ok_many [of E 0 m n] by simp

lemma rd_ok_iter [rd_intros]: "(\<And>x. rd_ok E 0 (f x)) \<Longrightarrow> rd_ok E 0 (rd_iter n f x)"
  by (induction n arbitrary: x) (auto intro: rd_ok_return rd_ok_bind1)

lemma rd_ok_map [rd_intros]: "(\<And>x. rd_ok E 0 (f x)) \<Longrightarrow> rd_ok E 0 (rd_map f xs)"
  by (induction xs) (auto intro: rd_ok_return rd_ok_bind1)

lemma rd_ok_rest [rd_intros]: "rd_ok E 0 rd_rest"
  by (auto intro!: rd_okI simp: rd_rest_def)

lemma rd_ok_skip [rd_intros]: "rd_ok E 0 (rd_skip n)"
  by (auto intro!: rd_okI simp: rd_skip_def suffix_drop)

text \<open>A loop whose body takes at least a byte ends.\<close>

lemma rd_loop_ends:
  assumes "\<And>x. rd_ok E 1 (body x)"
  shows "\<exists>r. rd_loop c body x s = Some r"
proof (induction "length (rd_buffer s)" arbitrary: x s rule: less_induct)
  case less
  show ?case
  proof (cases "c x s \<and> (\<exists>y s'. body x s = Val (y, s'))")
    case True
    then obtain y s' where v: "c x s" "body x s = Val (y, s')" by blast
    with rd_okD(2) [OF assms] have "length (rd_buffer s') < length (rd_buffer s)" by fastforce
    from less [OF this, of y] v show ?thesis by (simp add: rd_loop.simps [of c body x s])
  next
    case False
    then show ?thesis by (cases "body x s") (auto simp: rd_loop.simps [of c body x s])
  qed
qed

text \<open>With a body that takes a byte, a loop keeps the contract, and every invariant of its body.\<close>

lemma rd_while_cases:
  assumes "\<And>x. rd_ok E 1 (body x)" and "rd_while c body x s = r"
    and "I x s" and "\<And>x s y s'. I x s \<Longrightarrow> c x s \<Longrightarrow> body x s = Val (y, s') \<Longrightarrow> I y s'"
  shows "case r of
      Val (y, s') \<Rightarrow> I y s' \<and> \<not> c y s' \<and> suffix (rd_buffer s') (rd_buffer s)
    | Stop e \<Rightarrow> True
    | Unsafe \<Rightarrow> \<exists>y s'. I y s' \<and> suffix (rd_buffer s') (rd_buffer s) \<and> body y s' = Unsafe"
  using assms(2,3)
proof (induction "length (rd_buffer s)" arbitrary: x s rule: less_induct)
  case less
  show ?case
  proof (cases "c x s")
    case False
    then have "r = Val (x, s)" using less.prems(1) by (simp add: rd_while_def rd_loop.simps [of c body x s])
    with False less.prems(2) show ?thesis by simp
  next
    case True
    show ?thesis
    proof (cases "body x s")
      case (Val z)
      obtain y s' where z: "z = (y, s')" by (cases z)
      have suf: "suffix (rd_buffer s') (rd_buffer s)"
        using rd_okD(1) [OF assms(1), of x s y s'] Val z by simp
      have "length (rd_buffer s') < length (rd_buffer s)"
        using rd_okD(2) [OF assms(1), of x s y s'] Val z by simp
      moreover have "rd_while c body y s' = r"
        using less.prems(1) True Val z by (simp add: rd_while_def rd_loop.simps [of c body x s])
      moreover have "I y s'" using assms(4) less.prems(2) True Val z by blast
      ultimately have "case r of
          Val (y, s'') \<Rightarrow> I y s'' \<and> \<not> c y s'' \<and> suffix (rd_buffer s'') (rd_buffer s')
        | Stop e \<Rightarrow> True
        | Unsafe \<Rightarrow> \<exists>y s''. I y s'' \<and> suffix (rd_buffer s'') (rd_buffer s') \<and> body y s'' = Unsafe"
        by (rule less.hyps)
      moreover have t: "suffix b (rd_buffer s)" if "suffix b (rd_buffer s')" for b
        using that suf by (rule suffix_order.trans)
      ultimately show ?thesis
        by (auto split: res.splits dest!: t)
    next
      case (Stop e)
      with less.prems(1) True show ?thesis by (auto simp: rd_while_def rd_loop.simps [of c body x s])
    next
      case Unsafe
      with less.prems True show ?thesis by (auto simp: rd_while_def rd_loop.simps [of c body x s])
    qed
  qed
qed

lemma rd_while_Val:
  assumes "\<And>x. rd_ok E 1 (body x)" and "rd_while c body x s = Val (y, s')" and "I x s"
    and "\<And>x s y s'. I x s \<Longrightarrow> c x s \<Longrightarrow> body x s = Val (y, s') \<Longrightarrow> I y s'"
  shows "I y s' \<and> \<not> c y s' \<and> suffix (rd_buffer s') (rd_buffer s)"
  by (rule rd_while_cases [where r = "Val (y, s')" and I = I and c = c and body = body and x = x and s = s and E = E,
      simplified res.case prod.case, OF assms(1-3)]) (rule assms(4))

lemma rd_while_Unsafe:
  assumes "\<And>x. rd_ok E 1 (body x)" and "rd_while c body x s = Unsafe" and "I x s"
    and "\<And>x s y s'. I x s \<Longrightarrow> c x s \<Longrightarrow> body x s = Val (y, s') \<Longrightarrow> I y s'"
  obtains y s' where "I y s'" "suffix (rd_buffer s') (rd_buffer s)" "body y s' = Unsafe"
proof -
  have "\<exists>y s'. I y s' \<and> suffix (rd_buffer s') (rd_buffer s) \<and> body y s' = Unsafe"
    by (rule rd_while_cases [where r = Unsafe and I = I and c = c and body = body and x = x and s = s and E = E,
      simplified res.case prod.case, OF assms(1-3)]) (rule assms(4))
  then show thesis using that by blast
qed

lemma rd_ok_while [rd_intros]:
  assumes "\<And>x. rd_ok E 1 (body x)"
  shows "rd_ok E 0 (rd_while c body x)"
proof (rule rd_okI)
  fix s y s'
  assume "rd_while c body x s = Val (y, s')"
  from rd_while_cases [OF assms this, where I = "\<lambda>_ _. True"]
  show "suffix (rd_buffer s') (rd_buffer s) \<and> length (rd_buffer s') + 0 \<le> length (rd_buffer s)"
    by (auto dest: suffix_length_le)
next
  fix s
  assume "rd_while c body x s = Unsafe"
  from rd_while_cases [OF assms this, where I = "\<lambda>_ _. True"]
  show "\<exists>s'. suffix (rd_buffer s') (rd_buffer s) \<and> E s'"
    by (auto intro: suffix_order.trans dest: rd_okD(3) [OF assms])
qed

lemma rd_ok_vec [rd_intros]: "rd_ok E 0 m \<Longrightarrow> k \<le> 1 \<Longrightarrow> rd_ok E k (rd_vec al e1 e2 sz m)"
  unfolding rd_vec_def by (intro rd_ok_bind1 rd_intros) simp_all

lemma length_rd_many: "rd_many n m s = Val (xs, s') \<Longrightarrow> length xs = n"
  by (induction n arbitrary: s xs s')
    (auto simp: rd_return_def rd_bind_def res_bind_eq_Val split: prod.splits)

text \<open>A vector has at most as many elements as its input has bytes beyond its count.\<close>

lemma rd_vec_length:
  assumes "rd_ok E 1 m" and "rd_vec al e1 e2 sz m s = Val (xs, s')"
  shows "length xs + length (rd_buffer s') \<le> length (rd_buffer s)"
proof -
  from assms(2) obtain n s1 s2 where n: "rd_u32 e1 s = Val (n, s1)"
    and "rd_calloc al e2 (unat n) sz s1 = Val ((), s2)" and many: "rd_many (unat n) m s2 = Val (xs, s')"
    by (auto simp: rd_vec_def rd_bind_def res_bind_eq_Val split: prod.splits)
  then have "rd_buffer s2 = rd_buffer s1" by (auto simp: rd_calloc_def split: if_splits)
  with rd_okD(2) [OF rd_ok_many [OF assms(1)] many] length_rd_many [OF many]
    rd_okD(2) [OF rd_ok_lebs(1) n, of 0]
  show ?thesis by auto
qed

section \<open>Encoders and their parsers\<close>

text \<open>
  \<open>codec enc dec ok\<close>: whatever follows, the parser \<open>dec\<close> gives back each value \<open>x\<close> with \<open>ok x\<close> that
  \<open>enc\<close> wrote, and stops behind it. Parsers that allocate meet it when every allocation succeeds.
\<close>

definition plenty :: allocator where
  "plenty k n = True"

abbreviation input :: "u8 list \<Rightarrow> nat \<Rightarrow> rd_state" where
  "input bs k \<equiv> \<lparr>rd_buffer = bs, rd_allocs = k\<rparr>"

locale codec =
  fixes enc :: "'a \<Rightarrow> u8 list"
    and dec :: "('e, 'a) rd"
    and ok :: "'a \<Rightarrow> bool"
  assumes dec_enc: "ok x \<Longrightarrow> \<exists>k'. dec (input (enc x @ rest) k) = Val (x, input rest k')"
begin

lemma dec_many:
  "list_all ok xs \<Longrightarrow>
   \<exists>k'. rd_many (length xs) dec (input (concat (map enc xs) @ rest) k) = Val (xs, input rest k')"
proof (induction xs arbitrary: k)
  case Nil
  then show ?case by (simp add: rd_return_def)
next
  case (Cons x xs)
  then have "ok x" by simp
  from dec_enc [OF this] obtain k1 where
    "dec (input (enc x @ concat (map enc xs) @ rest) k) = Val (x, input (concat (map enc xs) @ rest) k1)"
    by blast
  moreover from Cons obtain k2 where
    "rd_many (length xs) dec (input (concat (map enc xs) @ rest) k1) = Val (xs, input rest k2)"
    by auto
  ultimately show ?case by (simp add: rd_bind_def rd_return_def)
qed

text \<open>No encoding is a proper prefix of another: the encoding determines the value.\<close>

lemma enc_prefix_free:
  assumes "ok x" "ok y" "enc x @ r = enc y @ r'"
  shows "x = y \<and> r = r'"
proof -
  obtain k1 k2 where "dec (input (enc x @ r) 0) = Val (x, input r k1)"
    "dec (input (enc y @ r') 0) = Val (y, input r' k2)"
    using dec_enc [OF assms(1)] dec_enc [OF assms(2)] by meson
  then have "Val (x, input r k1) = (Val (y, input r' k2) :: ('e, 'a \<times> rd_state) res)"
    by (simp only: assms(3))
  then show ?thesis by simp
qed

end

text \<open>A vector: the count as unsigned LEB128, then the elements.\<close>

definition enc_vec :: "('a \<Rightarrow> u8 list) \<Rightarrow> 'a list \<Rightarrow> u8 list" where
  "enc_vec enc xs = uleb_bytes (length xs) @ concat (map enc xs)"

text \<open>The four LEB128 decoders undo the encodings of \<open>buf_uleb\<close> and \<open>buf_sleb\<close>.\<close>

lemma leb128ReadU32_uleb:
  assumes "n < 2 ^ 32"
  shows "leb128ReadU32 (uleb_bytes n @ rest) = (of_nat n, length (uleb_bytes n), rest)"
proof -
  have l: "length (uleb_bytes n) \<le> int32LEB128MaxByteCount"
    unfolding int32LEB128MaxByteCount_def by (rule uleb_length) (use assms in simp_all)
  have "int n < int (128 ^ length (uleb_bytes n))"
    using uleb_bound [of n] by (simp only: of_nat_less_iff)
  then have "int n < 2 ^ (7 * length (uleb_bytes n))" by (simp add: power_mult)
  from leb_unsigned_value [OF uleb_groups l _ this, where 'a = 32, of rest] show ?thesis
    by (simp add: leb128ReadU32_def)
qed

lemma leb128ReadU64_uleb:
  assumes "n < 2 ^ 64"
  shows "leb128ReadU64 (uleb_bytes n @ rest) = (of_nat n, length (uleb_bytes n), rest)"
proof -
  have l: "length (uleb_bytes n) \<le> int64LEB128MaxByteCount"
    unfolding int64LEB128MaxByteCount_def by (rule uleb_length) (use assms in simp_all)
  have "int n < int (128 ^ length (uleb_bytes n))"
    using uleb_bound [of n] by (simp only: of_nat_less_iff)
  then have "int n < 2 ^ (7 * length (uleb_bytes n))" by (simp add: power_mult)
  from leb_unsigned_value [OF uleb_groups l _ this, where 'a = 64, of rest] show ?thesis
    by (simp add: leb128ReadU64_def)
qed

lemma sleb_high_bits:
  assumes "7 * length (sleb_bytes x) - 1 \<le> i"
  shows "bit x i \<longleftrightarrow> bit x (7 * length (sleb_bytes x) - 1)"
proof -
  let ?n = "7 * length (sleb_bytes x) - 1"
  from sleb_groups [of x] have ne: "length (sleb_bytes x) = Suc (length (sleb_bytes x) - 1)"
    by (cases "sleb_bytes x") auto
  have "(64 :: int) * 128 ^ (length (sleb_bytes x) - 1) = 2 ^ ?n"
  proof -
    have "?n = 6 + 7 * (length (sleb_bytes x) - 1)" using ne by simp
    then have "(2 :: int) ^ ?n = 2 ^ 6 * (2 ^ 7) ^ (length (sleb_bytes x) - 1)"
      by (simp only: power_add power_mult)
    then show ?thesis by simp
  qed
  with sleb_bound [of x] have b: "- (2 ^ ?n) \<le> x" "x < 2 ^ ?n" by simp_all
  have "bit x j \<longleftrightarrow> x < 0" if "?n \<le> j" for j
  proof -
    have "(2 :: int) ^ ?n \<le> 2 ^ j" using that by (intro power_increasing) simp_all
    with b have "- (2 ^ j) \<le> x" "x < 2 ^ j" by linarith+
    then have "x div 2 ^ j = (if x < 0 then -1 else 0)"
      using int_div_pos_eq [of x "2 ^ j" "-1" "x + 2 ^ j"] div_pos_pos_trivial [of x "2 ^ j"]
      by (cases "x < 0") simp_all
    then show ?thesis by (simp add: bit_iff_odd)
  qed
  with assms show ?thesis by simp
qed

lemma leb128ReadI32_sleb:
  assumes "- (2 ^ 31) \<le> x" "x < 2 ^ 31"
  shows "leb128ReadI32 (sleb_bytes x @ rest) = (word_of_int x, length (sleb_bytes x), rest)"
proof -
  have l: "length (sleb_bytes x) \<le> int32LEB128MaxByteCount"
    unfolding int32LEB128MaxByteCount_def by (rule sleb_length) (use assms in simp_all)
  show ?thesis
    using leb_signed_value [OF sleb_groups l sleb_high_bits, where 'a = 32, of rest]
    by (simp add: leb128ReadI32_def)
qed

lemma leb128ReadI64_sleb:
  assumes "- (2 ^ 63) \<le> x" "x < 2 ^ 63"
  shows "leb128ReadI64 (sleb_bytes x @ rest) = (word_of_int x, length (sleb_bytes x), rest)"
proof -
  have l: "length (sleb_bytes x) \<le> int64LEB128MaxByteCount"
    unfolding int64LEB128MaxByteCount_def by (rule sleb_length) (use assms in simp_all)
  show ?thesis
    using leb_signed_value [OF sleb_groups l sleb_high_bits, where 'a = 64, of rest]
    by (simp add: leb128ReadI64_def)
qed

lemma uleb_nonempty [simp]: "length (uleb_bytes n) \<noteq> 0" "uleb_bytes n \<noteq> []"
  by (subst uleb_bytes.simps; simp)+

lemma rd_u32_uleb:
  "rd_u32 e (input (uleb_bytes (unat w) @ rest) k) = Val (w, input rest k)"
  by (simp add: rd_u32_def rd_leb_def leb128ReadU32_uleb unat_u32_less)

interpretation u32c: codec "\<lambda>w. uleb_bytes (unat w)" "rd_u32 e" "\<lambda>_. True"
  by unfold_locales (auto simp: rd_u32_uleb)

context codec
begin

lemma rd_vec_enc:
  assumes "list_all ok xs" and "length xs < 2 ^ 32"
  shows "\<exists>k'. rd_vec plenty e1 e2 sz dec (input (enc_vec enc xs @ rest) k) = Val (xs, input rest k')"
proof -
  have n: "unat (of_nat (length xs) :: u32) = length xs" using assms(2) by (simp add: unat_of_nat)
  have "rd_u32 e1 (input (enc_vec enc xs @ rest) k)
      = Val (of_nat (length xs), input (concat (map enc xs) @ rest) k)"
    using rd_u32_uleb [of e1 "of_nat (length xs)"] by (simp add: enc_vec_def n)
  moreover obtain k' where
    "rd_many (length xs) dec (input (concat (map enc xs) @ rest) (k + 1)) = Val (xs, input rest k')"
    using dec_many [OF assms(1)] by blast
  ultimately show ?thesis
    by (simp add: rd_vec_def rd_bind_def rd_calloc_def plenty_def n)
qed

end

section \<open>Running a parser\<close>

text \<open>The equations that evaluate a parser on a concrete input.\<close>

declare rd_loop.simps [code]

lemma leb128_loop_numeral:
  "leb128_loop (numeral k) buf v sh c b =
     (case bufferReadByte buf of
        None \<Rightarrow> (v, sh, c, b, buf)
      | Some (b', rest) \<Rightarrow>
          let v' = v OR push_bit sh (ucast (b' AND 0x7F))
          in if b' AND 0x80 = 0 then (v', sh + 7, c + 1, b', rest)
             else leb128_loop (pred_numeral k) rest v' (sh + 7) (c + 1) b')"
  by (simp add: numeral_eq_Suc)

lemma rd_many_numeral:
  "rd_many (numeral k) m =
     rd_bind m (\<lambda>x. rd_bind (rd_many (pred_numeral k) m) (\<lambda>xs. rd_return (x # xs)))"
  by (simp add: numeral_eq_Suc)

lemma rd_iter_numeral: "rd_iter (numeral k) f x = rd_bind (f x) (rd_iter (pred_numeral k) f)"
  by (simp add: numeral_eq_Suc)

lemmas rd_run = rd_bind_def rd_return_def rd_fail_def rd_or_def rd_option_def rd_leb_def rd_byte_def
  rd_u32_def rd_guard_def rd_calloc_def rd_vec_def rd_while_def rd_rest_def rd_skip_def
  rd_skip_unchecked_def bufferSkipUnchecked_def bufferAtEnd_def plenty_def
  leb128ReadU32_def int32LEB128MaxByteCount_def Let_def
  leb128_loop_numeral rd_many_numeral rd_iter_numeral

end
