(* ===== verification/Wasm_Module.thy ===== *)
theory Wasm_Module
  imports Read_Monad Sha1
begin

text \<open>
  The module a reader builds: the data types of \<^verbatim>\<open>src/w2c2\<close> (\<^verbatim>\<open>valuetype.h\<close>, \<^verbatim>\<open>locals.h\<close>,
  \<^verbatim>\<open>functiontype.h\<close>, \<^verbatim>\<open>function.h\<close>, \<^verbatim>\<open>import.h\<close>, \<^verbatim>\<open>export.h\<close>, \<^verbatim>\<open>global.h\<close>, \<^verbatim>\<open>memory.h\<close>, \<^verbatim>\<open>table.h\<close>,
  \<^verbatim>\<open>datasegment.h\<close>, \<^verbatim>\<open>elementsegment.h\<close>, \<^verbatim>\<open>debug.h\<close>, \<^verbatim>\<open>module.h\<close>) and its lookups.

  An array with its count is a list. A \<^verbatim>\<open>char*\<close> is the list of its bytes before the terminator, or
  \<open>None\<close> for \<^verbatim>\<open>NULL\<close>. A \<^verbatim>\<open>Buffer\<close> kept in the module is the list of its bytes. Indexing an array out
  of its bounds is \<open>Unsafe\<close>.
\<close>

section \<open>Value types\<close>

datatype WasmValueType =
  wasmValueTypeI32 | wasmValueTypeI64 | wasmValueTypeF32 | wasmValueTypeF64

fun wasmValueTypeDescription :: "WasmValueType \<Rightarrow> string" where
  "wasmValueTypeDescription wasmValueTypeI32 = ''i32''"
| "wasmValueTypeDescription wasmValueTypeI64 = ''i64''"
| "wasmValueTypeDescription wasmValueTypeF32 = ''f32''"
| "wasmValueTypeDescription wasmValueTypeF64 = ''f64''"

definition wasmDecodeValueType :: "u32 \<Rightarrow> WasmValueType option" where
  "wasmDecodeValueType enc =
     (if sint enc = -1 then Some wasmValueTypeI32
      else if sint enc = -2 then Some wasmValueTypeI64
      else if sint enc = -3 then Some wasmValueTypeF32
      else if sint enc = -4 then Some wasmValueTypeF64
      else None)"

text \<open>Parsers that return \<^verbatim>\<open>false\<close> end in \<open>Stop ()\<close>; their callers name the error.\<close>

definition wasmReadValueType :: "(unit, WasmValueType) rd" where
  "wasmReadValueType =
     rd_bind (rd_leb () leb128ReadI32) (\<lambda>enc.
     case wasmDecodeValueType enc of None \<Rightarrow> rd_fail () | Some t \<Rightarrow> rd_return t)"

text \<open>A block type: \<open>None\<close> is the empty type \<open>0x40\<close>.\<close>

definition wasmReadBlockType :: "(unit, WasmValueType option) rd" where
  "wasmReadBlockType =
     rd_bind (rd_leb () leb128ReadI32) (\<lambda>enc.
     if sint enc = -64 then rd_return None
     else case wasmDecodeValueType enc of None \<Rightarrow> rd_fail () | Some t \<Rightarrow> rd_return (Some t))"

lemma wasmReadValueType_ok [rd_intros]: "k \<le> 1 \<Longrightarrow> rd_ok E k wasmReadValueType"
  unfolding wasmReadValueType_def
  by (intro rd_ok_bind1 rd_intros) (auto split: option.splits intro: rd_intros)

text \<open>The byte of a value type, as the WebAssembly backend writes it, is what the reader decodes.\<close>

fun valtype_byte :: "WasmValueType \<Rightarrow> u8" where
  "valtype_byte wasmValueTypeI32 = 0x7F"
| "valtype_byte wasmValueTypeI64 = 0x7E"
| "valtype_byte wasmValueTypeF32 = 0x7D"
| "valtype_byte wasmValueTypeF64 = 0x7C"

fun valtype_code :: "WasmValueType \<Rightarrow> int" where
  "valtype_code wasmValueTypeI32 = -1"
| "valtype_code wasmValueTypeI64 = -2"
| "valtype_code wasmValueTypeF32 = -3"
| "valtype_code wasmValueTypeF64 = -4"

lemma leb128ReadI32_valtype:
  "leb128ReadI32 (valtype_byte t # rest) = (word_of_int (valtype_code t), 1, rest)"
  using leb128ReadI32_sleb [of "valtype_code t" rest]
  by (cases t) (simp_all add: sleb_bytes.simps)

lemma wasmReadValueType_byte [simp]:
  "wasmReadValueType (input (valtype_byte t # rest) k) = Val (t, input rest k)"
  by (cases t)
    (simp_all add: wasmReadValueType_def rd_bind_def rd_leb_def wasmDecodeValueType_def rd_return_def
      leb128ReadI32_valtype del: valtype_byte.simps)

interpretation valtype: codec "\<lambda>t. [valtype_byte t]" wasmReadValueType "\<lambda>_. True"
  by unfold_locales simp

lemma wasmReadValueType_bytes [simp]:
  "wasmReadValueType (input (0x7F # rest) k) = Val (wasmValueTypeI32, input rest k)"
  "wasmReadValueType (input (0x7E # rest) k) = Val (wasmValueTypeI64, input rest k)"
  "wasmReadValueType (input (0x7D # rest) k) = Val (wasmValueTypeF32, input rest k)"
  "wasmReadValueType (input (0x7C # rest) k) = Val (wasmValueTypeF64, input rest k)"
  using wasmReadValueType_byte [of wasmValueTypeI32 rest k] wasmReadValueType_byte [of wasmValueTypeI64 rest k]
    wasmReadValueType_byte [of wasmValueTypeF32 rest k] wasmReadValueType_byte [of wasmValueTypeF64 rest k]
  by simp_all

section \<open>Arrays\<close>

text \<open>
  The growing arrays of \<^verbatim>\<open>src/w2c2/array.h\<close>: the items and the capacity. Growing allocates half the
  old capacity beyond the length asked for.
\<close>

record 'a array =
  items :: "'a list"
  capacity :: nat

definition empty_array :: "'a array" where
  "empty_array = \<lparr>items = [], capacity = 0\<rparr>"

definition arrayEnsureCapacity :: "allocator \<Rightarrow> 'e \<Rightarrow> nat \<Rightarrow> nat \<Rightarrow> 'a array \<Rightarrow> ('e, 'a array) rd" where
  "arrayEnsureCapacity al e sz n a =
     (if n \<le> capacity a then rd_return a
      else let newCapacity = n + drop_bit 1 (capacity a)
           in rd_bind (rd_calloc al e newCapacity sz) (\<lambda>_. rd_return (a\<lparr>capacity := newCapacity\<rparr>)))"

text \<open>The write goes to index \<open>length\<close>, which the capacity must cover.\<close>

definition arrayAppend :: "allocator \<Rightarrow> 'e \<Rightarrow> nat \<Rightarrow> 'a array \<Rightarrow> 'a \<Rightarrow> ('e, 'a array) rd" where
  "arrayAppend al e sz a x =
     rd_bind (arrayEnsureCapacity al e sz (length (items a) + 1) a) (\<lambda>a.
     if length (items a) < capacity a then rd_return (a\<lparr>items := items a @ [x]\<rparr>) else (\<lambda>_. Unsafe))"

lemma arrayEnsureCapacity_Val:
  assumes "arrayEnsureCapacity al e sz n a s = Val (b, s')"
  shows "items b = items a" "n \<le> capacity b" "rd_buffer s' = rd_buffer s"
  using assms
  by (auto simp: arrayEnsureCapacity_def rd_return_def rd_bind_def rd_calloc_def Let_def
      split: if_splits)

lemma arrayEnsureCapacity_ok [rd_intros]: "rd_ok E 0 (arrayEnsureCapacity al e sz n a)"
  unfolding arrayEnsureCapacity_def Let_def
  by (auto intro!: rd_ok_bind1 rd_intros)

lemma arrayAppend_Val:
  assumes "arrayAppend al e sz a x s = Val (b, s')"
  shows "items b = items a @ [x]" "rd_buffer s' = rd_buffer s"
proof -
  from assms obtain a' where
    e: "arrayEnsureCapacity al e sz (length (items a) + 1) a s = Val (a', s')"
    and "b = a'\<lparr>items := items a' @ [x]\<rparr>"
    by (auto simp: arrayAppend_def rd_bind_def rd_return_def res_bind_eq_Val split: if_splits)
  with arrayEnsureCapacity_Val [OF e] show "items b = items a @ [x]" "rd_buffer s' = rd_buffer s"
    by simp_all
qed

lemma arrayAppend_ok [rd_intros]: "rd_ok E 0 (arrayAppend al e sz a x)"
proof (rule rd_okI)
  fix s y s'
  assume "arrayAppend al e sz a x s = Val (y, s')"
  then show "suffix (rd_buffer s') (rd_buffer s) \<and> length (rd_buffer s') + 0 \<le> length (rd_buffer s)"
    using arrayAppend_Val(2) [of al e sz a x s y s'] by simp
next
  fix s
  assume "arrayAppend al e sz a x s = Unsafe"
  then have "arrayEnsureCapacity al e sz (length (items a) + 1) a s = Unsafe"
  proof (cases "arrayEnsureCapacity al e sz (length (items a) + 1) a s")
    case (Val r)
    obtain b s' where r: "r = (b, s')" by (cases r)
    have "length (items b) < capacity b"
      using arrayEnsureCapacity_Val(1,2) [OF Val [unfolded r]] by simp
    with Val r show ?thesis
      using \<open>arrayAppend al e sz a x s = Unsafe\<close> by (simp add: arrayAppend_def rd_bind_def rd_return_def)
  qed (use \<open>arrayAppend al e sz a x s = Unsafe\<close> in \<open>simp_all add: arrayAppend_def rd_bind_def\<close>)
  then show "\<exists>s'. suffix (rd_buffer s') (rd_buffer s) \<and> E s'"
    by (rule rd_okD(3) [OF arrayEnsureCapacity_ok])
qed

text \<open>Appending to a fresh array cannot fail while allocations succeed.\<close>

lemma arrayAppend_plenty:
  "\<exists>k c. arrayAppend plenty e sz a x s = Val (\<lparr>items = items a @ [x], capacity = c\<rparr>, s\<lparr>rd_allocs := k\<rparr>)"
proof (cases "length (items a) + 1 \<le> capacity a")
  case True
  then have "arrayAppend plenty e sz a x s
      = Val (\<lparr>items = items a @ [x], capacity = capacity a\<rparr>, s\<lparr>rd_allocs := rd_allocs s\<rparr>)"
    by (simp add: arrayAppend_def arrayEnsureCapacity_def rd_bind_def rd_return_def)
  then show ?thesis by blast
next
  case False
  then show ?thesis
    by (auto simp: arrayAppend_def arrayEnsureCapacity_def rd_bind_def rd_return_def rd_calloc_def
        plenty_def Let_def) (cases a; simp)
qed

section \<open>Declarations\<close>

record WasmLocalsDeclaration =
  ld_type :: WasmValueType
  ld_count :: u32

record WasmFunctionType =
  parameterTypes :: "WasmValueType list"
  resultTypes :: "WasmValueType list"

record WasmFunction =
  functionTypeIndex :: u32
  localsDeclarations :: "WasmLocalsDeclaration list"
  code :: buffer
  code_start :: nat
  code_hash :: "u8 list"
  exportName :: "u8 list option"

definition wasmEmptyFunction :: WasmFunction where
  "wasmEmptyFunction =
     \<lparr>functionTypeIndex = 0, localsDeclarations = [], code = [], code_start = 0,
      code_hash = replicate 20 0, exportName = None\<rparr>"

record WasmGlobalType =
  valueType :: WasmValueType
  gt_mutable :: bool

record WasmGlobal =
  g_type :: WasmGlobalType
  g_init :: buffer

record WasmFunctionImport =
  fi_module :: "u8 list"
  fi_name :: "u8 list"
  fi_functionTypeIndex :: u32

record WasmGlobalImport =
  gi_module :: "u8 list"
  gi_name :: "u8 list"
  gi_globalType :: WasmGlobalType

text \<open>Memories and tables, defined or imported, carry limits.\<close>

record limits =
  lim_min :: u32
  lim_max :: u32
  lim_shared :: bool

record WasmLimitsImport =
  li_module :: "u8 list"
  li_name :: "u8 list"
  li_limits :: limits

datatype WasmExportKind =
  wasmExportKindFunction | wasmExportKindTable | wasmExportKindMemory | wasmExportKindGlobal

fun wasmExportKindDescription :: "WasmExportKind \<Rightarrow> string" where
  "wasmExportKindDescription wasmExportKindFunction = ''function''"
| "wasmExportKindDescription wasmExportKindTable = ''table''"
| "wasmExportKindDescription wasmExportKindMemory = ''memory''"
| "wasmExportKindDescription wasmExportKindGlobal = ''global''"

record WasmExport =
  ex_name :: "u8 list"
  ex_kind :: WasmExportKind
  ex_index :: u32

record WasmDataSegment =
  ds_memoryIndex :: u32
  ds_offset :: buffer
  ds_bytes :: buffer
  ds_passive :: bool

record WasmElementSegment =
  es_tableIndex :: u32
  es_offset :: buffer
  es_functionIndices :: "u32 list"

record WasmDebugSection =
  dbg_name :: "u8 list"
  dbg_buffer :: buffer

section \<open>Modules\<close>

record WasmModule =
  m_length :: nat
  functionTypes :: "WasmFunctionType list"
  m_functions :: "WasmFunction list"
  exports :: "WasmExport list"
  globals :: "WasmGlobal list"
  functionImports :: "WasmFunctionImport array"
  globalImports :: "WasmGlobalImport array"
  memoryImports :: "WasmLimitsImport array"
  memories :: "limits list"
  dataSegments :: "WasmDataSegment list"
  tableImports :: "WasmLimitsImport array"
  m_tables :: "limits list"
  elementSegments :: "WasmElementSegment list"
  startFunctionIndex :: "u32 option"
  debugSections :: "WasmDebugSection array"
  functionNames :: "u8 list option array"

definition emptyWasmModule :: "nat \<Rightarrow> WasmModule" where
  "emptyWasmModule len =
     \<lparr>m_length = len, functionTypes = [], m_functions = [], exports = [], globals = [],
      functionImports = empty_array, globalImports = empty_array, memoryImports = empty_array, memories = [],
      dataSegments = [], tableImports = empty_array, m_tables = [], elementSegments = [],
      startFunctionIndex = None, debugSections = empty_array, functionNames = empty_array\<rparr>"

text \<open>
  The type of a local: the declarations are scanned with a running \<^verbatim>\<open>U32\<close> count.
\<close>

fun locals_scan :: "u32 \<Rightarrow> WasmLocalsDeclaration list \<Rightarrow> u32 \<Rightarrow> WasmValueType option" where
  "locals_scan localsCount [] i = None"
| "locals_scan localsCount (d # ds) i =
     (if i < localsCount + ld_count d then Some (ld_type d)
      else locals_scan (localsCount + ld_count d) ds i)"

definition wasmLocalsDeclarationsGetType :: "WasmLocalsDeclaration list \<Rightarrow> u32 \<Rightarrow> WasmValueType option" where
  "wasmLocalsDeclarationsGetType ds i = locals_scan 0 ds i"

definition at :: "'a list \<Rightarrow> nat \<Rightarrow> (unit, 'a) res" where
  "at xs i = (if i < length xs then Val (xs ! i) else Unsafe)"

definition wasmModuleFunctionGetLocalType :: "WasmModule \<Rightarrow> WasmFunction \<Rightarrow> u32 \<Rightarrow> (unit, WasmValueType) res" where
  "wasmModuleFunctionGetLocalType m f i =
     res_bind (at (functionTypes m) (unat (functionTypeIndex f))) (\<lambda>ft.
     if i < of_nat (length (parameterTypes ft)) then at (parameterTypes ft) (unat i)
     else case wasmLocalsDeclarationsGetType (localsDeclarations f)
                 (i - of_nat (length (parameterTypes ft))) of
            None \<Rightarrow> Stop () | Some t \<Rightarrow> Val t)"

definition wasmModuleGetGlobalType :: "WasmModule \<Rightarrow> u32 \<Rightarrow> (unit, WasmValueType) res" where
  "wasmModuleGetGlobalType m i =
     (let n = of_nat (length (items (globalImports m))) in
      if i < n
      then res_bind (at (items (globalImports m)) (unat i)) (\<lambda>g. Val (valueType (gi_globalType g)))
      else let i = i - n in
        if i < of_nat (length (globals m))
        then res_bind (at (globals m) (unat i)) (\<lambda>g. Val (valueType (g_type g)))
        else Stop ())"

definition wasmModuleGetFunctionType :: "WasmModule \<Rightarrow> u32 \<Rightarrow> (unit, WasmFunctionType) res" where
  "wasmModuleGetFunctionType m i =
     (let n = of_nat (length (items (functionImports m))) in
      if i < n
      then res_bind (at (items (functionImports m)) (unat i)) (\<lambda>g.
           at (functionTypes m) (unat (fi_functionTypeIndex g)))
      else let i = i - n in
        if i < of_nat (length (m_functions m))
        then res_bind (at (m_functions m) (unat i)) (\<lambda>f.
             at (functionTypes m) (unat (functionTypeIndex f)))
        else Stop ())"

text \<open>The locals of a function in order, as the declarations spell them.\<close>

definition expand_locals :: "WasmLocalsDeclaration list \<Rightarrow> WasmValueType list" where
  "expand_locals ds = concat (map (\<lambda>d. replicate (unat (ld_count d)) (ld_type d)) ds)"

lemma locals_scan_eq:
  assumes "unat c + length (expand_locals ds) < 2 ^ 32" and "c \<le> i"
  shows "locals_scan c ds i =
     (if unat i < unat c + length (expand_locals ds)
      then Some (expand_locals ds ! (unat i - unat c)) else None)"
  using assms
proof (induction ds arbitrary: c)
  case Nil
  then show ?case by (auto simp: expand_locals_def word_le_nat_alt)
next
  case (Cons d ds)
  have len: "length (expand_locals (d # ds)) = unat (ld_count d) + length (expand_locals ds)"
    by (simp add: expand_locals_def)
  have sum: "unat (c + ld_count d) = unat c + unat (ld_count d)"
    using Cons.prems(1) by (simp add: len unat_word_ariths)
  have ci: "unat c \<le> unat i" using Cons.prems(2) by (simp add: word_le_nat_alt)
  have nth: "expand_locals (d # ds) ! j =
      (if j < unat (ld_count d) then ld_type d else expand_locals ds ! (j - unat (ld_count d)))" for j
    by (simp add: expand_locals_def nth_append)
  show ?case
  proof (cases "i < c + ld_count d")
    case True
    then have "unat i < unat c + unat (ld_count d)" by (simp add: word_less_nat_alt sum)
    with True ci show ?thesis by (auto simp: len nth)
  next
    case False
    then have ge: "unat c + unat (ld_count d) \<le> unat i" by (simp add: word_less_nat_alt sum)
    have "locals_scan (c + ld_count d) ds i =
        (if unat i < unat (c + ld_count d) + length (expand_locals ds)
         then Some (expand_locals ds ! (unat i - unat (c + ld_count d))) else None)"
      by (rule Cons.IH) (use Cons.prems(1) False in \<open>simp_all add: sum len not_less\<close>)
    with False ge show ?thesis by (auto simp: len nth sum)
  qed
qed

end
