(* ===== verification/Opcode.thy ===== *)
theory Opcode
  imports Wasm_Module
begin

text \<open>
  Opcodes: the enumerations of \<^verbatim>\<open>src/w2c2/opcode.h\<close>, as numbers, and the switches of
  \<^verbatim>\<open>src/w2c2/opcode.c\<close>. A switch is its list of case groups in the order of the text; \<open>None\<close> is the
  \<^verbatim>\<open>default\<close>, which aborts the translator in the two type tables.
\<close>

fun switch :: "(nat list \<times> 'a) list \<Rightarrow> nat \<Rightarrow> 'a option" where
  "switch [] op = None"
| "switch ((cs, x) # rest) op = (if op \<in> set cs then Some x else switch rest op)"

section \<open>The enumerations\<close>

abbreviation (input) wasmOpcodeUnreachable :: nat where "wasmOpcodeUnreachable \<equiv> 0x00"
abbreviation (input) wasmOpcodeNop :: nat where "wasmOpcodeNop \<equiv> 0x01"
abbreviation (input) wasmOpcodeBlock :: nat where "wasmOpcodeBlock \<equiv> 0x02"
abbreviation (input) wasmOpcodeLoop :: nat where "wasmOpcodeLoop \<equiv> 0x03"
abbreviation (input) wasmOpcodeIf :: nat where "wasmOpcodeIf \<equiv> 0x04"
abbreviation (input) wasmOpcodeElse :: nat where "wasmOpcodeElse \<equiv> 0x05"
abbreviation (input) wasmOpcodeEnd :: nat where "wasmOpcodeEnd \<equiv> 0x0B"
abbreviation (input) wasmOpcodeBr :: nat where "wasmOpcodeBr \<equiv> 0x0C"
abbreviation (input) wasmOpcodeBrIf :: nat where "wasmOpcodeBrIf \<equiv> 0x0D"
abbreviation (input) wasmOpcodeBrTable :: nat where "wasmOpcodeBrTable \<equiv> 0x0E"
abbreviation (input) wasmOpcodeReturn :: nat where "wasmOpcodeReturn \<equiv> 0x0F"
abbreviation (input) wasmOpcodeCall :: nat where "wasmOpcodeCall \<equiv> 0x10"
abbreviation (input) wasmOpcodeCallIndirect :: nat where "wasmOpcodeCallIndirect \<equiv> 0x11"
abbreviation (input) wasmOpcodeDrop :: nat where "wasmOpcodeDrop \<equiv> 0x1A"
abbreviation (input) wasmOpcodeSelect :: nat where "wasmOpcodeSelect \<equiv> 0x1B"
abbreviation (input) wasmOpcodeLocalGet :: nat where "wasmOpcodeLocalGet \<equiv> 0x20"
abbreviation (input) wasmOpcodeLocalSet :: nat where "wasmOpcodeLocalSet \<equiv> 0x21"
abbreviation (input) wasmOpcodeLocalTee :: nat where "wasmOpcodeLocalTee \<equiv> 0x22"
abbreviation (input) wasmOpcodeGlobalGet :: nat where "wasmOpcodeGlobalGet \<equiv> 0x23"
abbreviation (input) wasmOpcodeGlobalSet :: nat where "wasmOpcodeGlobalSet \<equiv> 0x24"
abbreviation (input) wasmOpcodeI32Load :: nat where "wasmOpcodeI32Load \<equiv> 0x28"
abbreviation (input) wasmOpcodeI64Load :: nat where "wasmOpcodeI64Load \<equiv> 0x29"
abbreviation (input) wasmOpcodeF32Load :: nat where "wasmOpcodeF32Load \<equiv> 0x2A"
abbreviation (input) wasmOpcodeF64Load :: nat where "wasmOpcodeF64Load \<equiv> 0x2B"
abbreviation (input) wasmOpcodeI32Load8S :: nat where "wasmOpcodeI32Load8S \<equiv> 0x2C"
abbreviation (input) wasmOpcodeI32Load8U :: nat where "wasmOpcodeI32Load8U \<equiv> 0x2D"
abbreviation (input) wasmOpcodeI32Load16S :: nat where "wasmOpcodeI32Load16S \<equiv> 0x2E"
abbreviation (input) wasmOpcodeI32Load16U :: nat where "wasmOpcodeI32Load16U \<equiv> 0x2F"
abbreviation (input) wasmOpcodeI64Load8S :: nat where "wasmOpcodeI64Load8S \<equiv> 0x30"
abbreviation (input) wasmOpcodeI64Load8U :: nat where "wasmOpcodeI64Load8U \<equiv> 0x31"
abbreviation (input) wasmOpcodeI64Load16S :: nat where "wasmOpcodeI64Load16S \<equiv> 0x32"
abbreviation (input) wasmOpcodeI64Load16U :: nat where "wasmOpcodeI64Load16U \<equiv> 0x33"
abbreviation (input) wasmOpcodeI64Load32S :: nat where "wasmOpcodeI64Load32S \<equiv> 0x34"
abbreviation (input) wasmOpcodeI64Load32U :: nat where "wasmOpcodeI64Load32U \<equiv> 0x35"
abbreviation (input) wasmOpcodeI32Store :: nat where "wasmOpcodeI32Store \<equiv> 0x36"
abbreviation (input) wasmOpcodeI64Store :: nat where "wasmOpcodeI64Store \<equiv> 0x37"
abbreviation (input) wasmOpcodeF32Store :: nat where "wasmOpcodeF32Store \<equiv> 0x38"
abbreviation (input) wasmOpcodeF64Store :: nat where "wasmOpcodeF64Store \<equiv> 0x39"
abbreviation (input) wasmOpcodeI32Store8 :: nat where "wasmOpcodeI32Store8 \<equiv> 0x3A"
abbreviation (input) wasmOpcodeI32Store16 :: nat where "wasmOpcodeI32Store16 \<equiv> 0x3B"
abbreviation (input) wasmOpcodeI64Store8 :: nat where "wasmOpcodeI64Store8 \<equiv> 0x3C"
abbreviation (input) wasmOpcodeI64Store16 :: nat where "wasmOpcodeI64Store16 \<equiv> 0x3D"
abbreviation (input) wasmOpcodeI64Store32 :: nat where "wasmOpcodeI64Store32 \<equiv> 0x3E"
abbreviation (input) wasmOpcodeMemorySize :: nat where "wasmOpcodeMemorySize \<equiv> 0x3F"
abbreviation (input) wasmOpcodeMemoryGrow :: nat where "wasmOpcodeMemoryGrow \<equiv> 0x40"
abbreviation (input) wasmOpcodeI32Const :: nat where "wasmOpcodeI32Const \<equiv> 0x41"
abbreviation (input) wasmOpcodeI64Const :: nat where "wasmOpcodeI64Const \<equiv> 0x42"
abbreviation (input) wasmOpcodeF32Const :: nat where "wasmOpcodeF32Const \<equiv> 0x43"
abbreviation (input) wasmOpcodeF64Const :: nat where "wasmOpcodeF64Const \<equiv> 0x44"
abbreviation (input) wasmOpcodeI32Eqz :: nat where "wasmOpcodeI32Eqz \<equiv> 0x45"
abbreviation (input) wasmOpcodeI32Eq :: nat where "wasmOpcodeI32Eq \<equiv> 0x46"
abbreviation (input) wasmOpcodeI32Ne :: nat where "wasmOpcodeI32Ne \<equiv> 0x47"
abbreviation (input) wasmOpcodeI32LtS :: nat where "wasmOpcodeI32LtS \<equiv> 0x48"
abbreviation (input) wasmOpcodeI32LtU :: nat where "wasmOpcodeI32LtU \<equiv> 0x49"
abbreviation (input) wasmOpcodeI32GtS :: nat where "wasmOpcodeI32GtS \<equiv> 0x4A"
abbreviation (input) wasmOpcodeI32GtU :: nat where "wasmOpcodeI32GtU \<equiv> 0x4B"
abbreviation (input) wasmOpcodeI32LeS :: nat where "wasmOpcodeI32LeS \<equiv> 0x4C"
abbreviation (input) wasmOpcodeI32LeU :: nat where "wasmOpcodeI32LeU \<equiv> 0x4D"
abbreviation (input) wasmOpcodeI32GeS :: nat where "wasmOpcodeI32GeS \<equiv> 0x4E"
abbreviation (input) wasmOpcodeI32GeU :: nat where "wasmOpcodeI32GeU \<equiv> 0x4F"
abbreviation (input) wasmOpcodeI64Eqz :: nat where "wasmOpcodeI64Eqz \<equiv> 0x50"
abbreviation (input) wasmOpcodeI64Eq :: nat where "wasmOpcodeI64Eq \<equiv> 0x51"
abbreviation (input) wasmOpcodeI64Ne :: nat where "wasmOpcodeI64Ne \<equiv> 0x52"
abbreviation (input) wasmOpcodeI64LtS :: nat where "wasmOpcodeI64LtS \<equiv> 0x53"
abbreviation (input) wasmOpcodeI64LtU :: nat where "wasmOpcodeI64LtU \<equiv> 0x54"
abbreviation (input) wasmOpcodeI64GtS :: nat where "wasmOpcodeI64GtS \<equiv> 0x55"
abbreviation (input) wasmOpcodeI64GtU :: nat where "wasmOpcodeI64GtU \<equiv> 0x56"
abbreviation (input) wasmOpcodeI64LeS :: nat where "wasmOpcodeI64LeS \<equiv> 0x57"
abbreviation (input) wasmOpcodeI64LeU :: nat where "wasmOpcodeI64LeU \<equiv> 0x58"
abbreviation (input) wasmOpcodeI64GeS :: nat where "wasmOpcodeI64GeS \<equiv> 0x59"
abbreviation (input) wasmOpcodeI64GeU :: nat where "wasmOpcodeI64GeU \<equiv> 0x5A"
abbreviation (input) wasmOpcodeF32Eq :: nat where "wasmOpcodeF32Eq \<equiv> 0x5B"
abbreviation (input) wasmOpcodeF32Ne :: nat where "wasmOpcodeF32Ne \<equiv> 0x5C"
abbreviation (input) wasmOpcodeF32Lt :: nat where "wasmOpcodeF32Lt \<equiv> 0x5D"
abbreviation (input) wasmOpcodeF32Gt :: nat where "wasmOpcodeF32Gt \<equiv> 0x5E"
abbreviation (input) wasmOpcodeF32Le :: nat where "wasmOpcodeF32Le \<equiv> 0x5F"
abbreviation (input) wasmOpcodeF32Ge :: nat where "wasmOpcodeF32Ge \<equiv> 0x60"
abbreviation (input) wasmOpcodeF64Eq :: nat where "wasmOpcodeF64Eq \<equiv> 0x61"
abbreviation (input) wasmOpcodeF64Ne :: nat where "wasmOpcodeF64Ne \<equiv> 0x62"
abbreviation (input) wasmOpcodeF64Lt :: nat where "wasmOpcodeF64Lt \<equiv> 0x63"
abbreviation (input) wasmOpcodeF64Gt :: nat where "wasmOpcodeF64Gt \<equiv> 0x64"
abbreviation (input) wasmOpcodeF64Le :: nat where "wasmOpcodeF64Le \<equiv> 0x65"
abbreviation (input) wasmOpcodeF64Ge :: nat where "wasmOpcodeF64Ge \<equiv> 0x66"
abbreviation (input) wasmOpcodeI32Clz :: nat where "wasmOpcodeI32Clz \<equiv> 0x67"
abbreviation (input) wasmOpcodeI32Ctz :: nat where "wasmOpcodeI32Ctz \<equiv> 0x68"
abbreviation (input) wasmOpcodeI32PopCnt :: nat where "wasmOpcodeI32PopCnt \<equiv> 0x69"
abbreviation (input) wasmOpcodeI32Add :: nat where "wasmOpcodeI32Add \<equiv> 0x6A"
abbreviation (input) wasmOpcodeI32Sub :: nat where "wasmOpcodeI32Sub \<equiv> 0x6B"
abbreviation (input) wasmOpcodeI32Mul :: nat where "wasmOpcodeI32Mul \<equiv> 0x6C"
abbreviation (input) wasmOpcodeI32DivS :: nat where "wasmOpcodeI32DivS \<equiv> 0x6D"
abbreviation (input) wasmOpcodeI32DivU :: nat where "wasmOpcodeI32DivU \<equiv> 0x6E"
abbreviation (input) wasmOpcodeI32RemS :: nat where "wasmOpcodeI32RemS \<equiv> 0x6F"
abbreviation (input) wasmOpcodeI32RemU :: nat where "wasmOpcodeI32RemU \<equiv> 0x70"
abbreviation (input) wasmOpcodeI32And :: nat where "wasmOpcodeI32And \<equiv> 0x71"
abbreviation (input) wasmOpcodeI32Or :: nat where "wasmOpcodeI32Or \<equiv> 0x72"
abbreviation (input) wasmOpcodeI32Xor :: nat where "wasmOpcodeI32Xor \<equiv> 0x73"
abbreviation (input) wasmOpcodeI32Shl :: nat where "wasmOpcodeI32Shl \<equiv> 0x74"
abbreviation (input) wasmOpcodeI32ShrS :: nat where "wasmOpcodeI32ShrS \<equiv> 0x75"
abbreviation (input) wasmOpcodeI32ShrU :: nat where "wasmOpcodeI32ShrU \<equiv> 0x76"
abbreviation (input) wasmOpcodeI32Rotl :: nat where "wasmOpcodeI32Rotl \<equiv> 0x77"
abbreviation (input) wasmOpcodeI32Rotr :: nat where "wasmOpcodeI32Rotr \<equiv> 0x78"
abbreviation (input) wasmOpcodeI64Clz :: nat where "wasmOpcodeI64Clz \<equiv> 0x79"
abbreviation (input) wasmOpcodeI64Ctz :: nat where "wasmOpcodeI64Ctz \<equiv> 0x7A"
abbreviation (input) wasmOpcodeI64PopCnt :: nat where "wasmOpcodeI64PopCnt \<equiv> 0x7B"
abbreviation (input) wasmOpcodeI64Add :: nat where "wasmOpcodeI64Add \<equiv> 0x7C"
abbreviation (input) wasmOpcodeI64Sub :: nat where "wasmOpcodeI64Sub \<equiv> 0x7D"
abbreviation (input) wasmOpcodeI64Mul :: nat where "wasmOpcodeI64Mul \<equiv> 0x7E"
abbreviation (input) wasmOpcodeI64DivS :: nat where "wasmOpcodeI64DivS \<equiv> 0x7F"
abbreviation (input) wasmOpcodeI64DivU :: nat where "wasmOpcodeI64DivU \<equiv> 0x80"
abbreviation (input) wasmOpcodeI64RemS :: nat where "wasmOpcodeI64RemS \<equiv> 0x81"
abbreviation (input) wasmOpcodeI64RemU :: nat where "wasmOpcodeI64RemU \<equiv> 0x82"
abbreviation (input) wasmOpcodeI64And :: nat where "wasmOpcodeI64And \<equiv> 0x83"
abbreviation (input) wasmOpcodeI64Or :: nat where "wasmOpcodeI64Or \<equiv> 0x84"
abbreviation (input) wasmOpcodeI64Xor :: nat where "wasmOpcodeI64Xor \<equiv> 0x85"
abbreviation (input) wasmOpcodeI64Shl :: nat where "wasmOpcodeI64Shl \<equiv> 0x86"
abbreviation (input) wasmOpcodeI64ShrS :: nat where "wasmOpcodeI64ShrS \<equiv> 0x87"
abbreviation (input) wasmOpcodeI64ShrU :: nat where "wasmOpcodeI64ShrU \<equiv> 0x88"
abbreviation (input) wasmOpcodeI64Rotl :: nat where "wasmOpcodeI64Rotl \<equiv> 0x89"
abbreviation (input) wasmOpcodeI64Rotr :: nat where "wasmOpcodeI64Rotr \<equiv> 0x8A"
abbreviation (input) wasmOpcodeF32Abs :: nat where "wasmOpcodeF32Abs \<equiv> 0x8B"
abbreviation (input) wasmOpcodeF32Neg :: nat where "wasmOpcodeF32Neg \<equiv> 0x8C"
abbreviation (input) wasmOpcodeF32Ceil :: nat where "wasmOpcodeF32Ceil \<equiv> 0x8D"
abbreviation (input) wasmOpcodeF32Floor :: nat where "wasmOpcodeF32Floor \<equiv> 0x8E"
abbreviation (input) wasmOpcodeF32Trunc :: nat where "wasmOpcodeF32Trunc \<equiv> 0x8F"
abbreviation (input) wasmOpcodeF32Nearest :: nat where "wasmOpcodeF32Nearest \<equiv> 0x90"
abbreviation (input) wasmOpcodeF32Sqrt :: nat where "wasmOpcodeF32Sqrt \<equiv> 0x91"
abbreviation (input) wasmOpcodeF32Add :: nat where "wasmOpcodeF32Add \<equiv> 0x92"
abbreviation (input) wasmOpcodeF32Sub :: nat where "wasmOpcodeF32Sub \<equiv> 0x93"
abbreviation (input) wasmOpcodeF32Mul :: nat where "wasmOpcodeF32Mul \<equiv> 0x94"
abbreviation (input) wasmOpcodeF32Div :: nat where "wasmOpcodeF32Div \<equiv> 0x95"
abbreviation (input) wasmOpcodeF32Min :: nat where "wasmOpcodeF32Min \<equiv> 0x96"
abbreviation (input) wasmOpcodeF32Max :: nat where "wasmOpcodeF32Max \<equiv> 0x97"
abbreviation (input) wasmOpcodeF32CopySign :: nat where "wasmOpcodeF32CopySign \<equiv> 0x98"
abbreviation (input) wasmOpcodeF64Abs :: nat where "wasmOpcodeF64Abs \<equiv> 0x99"
abbreviation (input) wasmOpcodeF64Neg :: nat where "wasmOpcodeF64Neg \<equiv> 0x9A"
abbreviation (input) wasmOpcodeF64Ceil :: nat where "wasmOpcodeF64Ceil \<equiv> 0x9B"
abbreviation (input) wasmOpcodeF64Floor :: nat where "wasmOpcodeF64Floor \<equiv> 0x9C"
abbreviation (input) wasmOpcodeF64Trunc :: nat where "wasmOpcodeF64Trunc \<equiv> 0x9D"
abbreviation (input) wasmOpcodeF64Nearest :: nat where "wasmOpcodeF64Nearest \<equiv> 0x9E"
abbreviation (input) wasmOpcodeF64Sqrt :: nat where "wasmOpcodeF64Sqrt \<equiv> 0x9F"
abbreviation (input) wasmOpcodeF64Add :: nat where "wasmOpcodeF64Add \<equiv> 0xA0"
abbreviation (input) wasmOpcodeF64Sub :: nat where "wasmOpcodeF64Sub \<equiv> 0xA1"
abbreviation (input) wasmOpcodeF64Mul :: nat where "wasmOpcodeF64Mul \<equiv> 0xA2"
abbreviation (input) wasmOpcodeF64Div :: nat where "wasmOpcodeF64Div \<equiv> 0xA3"
abbreviation (input) wasmOpcodeF64Min :: nat where "wasmOpcodeF64Min \<equiv> 0xA4"
abbreviation (input) wasmOpcodeF64Max :: nat where "wasmOpcodeF64Max \<equiv> 0xA5"
abbreviation (input) wasmOpcodeF64CopySign :: nat where "wasmOpcodeF64CopySign \<equiv> 0xA6"
abbreviation (input) wasmOpcodeI32WrapI64 :: nat where "wasmOpcodeI32WrapI64 \<equiv> 0xA7"
abbreviation (input) wasmOpcodeI32TruncF32S :: nat where "wasmOpcodeI32TruncF32S \<equiv> 0xA8"
abbreviation (input) wasmOpcodeI32TruncF32U :: nat where "wasmOpcodeI32TruncF32U \<equiv> 0xA9"
abbreviation (input) wasmOpcodeI32TruncF64S :: nat where "wasmOpcodeI32TruncF64S \<equiv> 0xAA"
abbreviation (input) wasmOpcodeI32TruncF64U :: nat where "wasmOpcodeI32TruncF64U \<equiv> 0xAB"
abbreviation (input) wasmOpcodeI64ExtendI32S :: nat where "wasmOpcodeI64ExtendI32S \<equiv> 0xAC"
abbreviation (input) wasmOpcodeI64ExtendI32U :: nat where "wasmOpcodeI64ExtendI32U \<equiv> 0xAD"
abbreviation (input) wasmOpcodeI64TruncF32S :: nat where "wasmOpcodeI64TruncF32S \<equiv> 0xAE"
abbreviation (input) wasmOpcodeI64TruncF32U :: nat where "wasmOpcodeI64TruncF32U \<equiv> 0xAF"
abbreviation (input) wasmOpcodeI64TruncF64S :: nat where "wasmOpcodeI64TruncF64S \<equiv> 0xB0"
abbreviation (input) wasmOpcodeI64TruncF64U :: nat where "wasmOpcodeI64TruncF64U \<equiv> 0xB1"
abbreviation (input) wasmOpcodeF32ConvertI32S :: nat where "wasmOpcodeF32ConvertI32S \<equiv> 0xB2"
abbreviation (input) wasmOpcodeF32ConvertI32U :: nat where "wasmOpcodeF32ConvertI32U \<equiv> 0xB3"
abbreviation (input) wasmOpcodeF32ConvertI64S :: nat where "wasmOpcodeF32ConvertI64S \<equiv> 0xB4"
abbreviation (input) wasmOpcodeF32ConvertI64U :: nat where "wasmOpcodeF32ConvertI64U \<equiv> 0xB5"
abbreviation (input) wasmOpcodeF32DemoteF64 :: nat where "wasmOpcodeF32DemoteF64 \<equiv> 0xB6"
abbreviation (input) wasmOpcodeF64ConvertI32S :: nat where "wasmOpcodeF64ConvertI32S \<equiv> 0xB7"
abbreviation (input) wasmOpcodeF64ConvertI32U :: nat where "wasmOpcodeF64ConvertI32U \<equiv> 0xB8"
abbreviation (input) wasmOpcodeF64ConvertI64S :: nat where "wasmOpcodeF64ConvertI64S \<equiv> 0xB9"
abbreviation (input) wasmOpcodeF64ConvertI64U :: nat where "wasmOpcodeF64ConvertI64U \<equiv> 0xBA"
abbreviation (input) wasmOpcodeF64PromoteF32 :: nat where "wasmOpcodeF64PromoteF32 \<equiv> 0xBB"
abbreviation (input) wasmOpcodeI32ReinterpretF32 :: nat where "wasmOpcodeI32ReinterpretF32 \<equiv> 0xBC"
abbreviation (input) wasmOpcodeI64ReinterpretF64 :: nat where "wasmOpcodeI64ReinterpretF64 \<equiv> 0xBD"
abbreviation (input) wasmOpcodeF32ReinterpretI32 :: nat where "wasmOpcodeF32ReinterpretI32 \<equiv> 0xBE"
abbreviation (input) wasmOpcodeF64ReinterpretI64 :: nat where "wasmOpcodeF64ReinterpretI64 \<equiv> 0xBF"
abbreviation (input) wasmOpcodeI32Extend8S :: nat where "wasmOpcodeI32Extend8S \<equiv> 0xC0"
abbreviation (input) wasmOpcodeI32Extend16S :: nat where "wasmOpcodeI32Extend16S \<equiv> 0xC1"
abbreviation (input) wasmOpcodeI64Extend8S :: nat where "wasmOpcodeI64Extend8S \<equiv> 0xC2"
abbreviation (input) wasmOpcodeI64Extend16S :: nat where "wasmOpcodeI64Extend16S \<equiv> 0xC3"
abbreviation (input) wasmOpcodeI64Extend32S :: nat where "wasmOpcodeI64Extend32S \<equiv> 0xC4"
abbreviation (input) wasmOpcodeThreadsPrefix :: nat where "wasmOpcodeThreadsPrefix \<equiv> 0xFE"
abbreviation (input) wasmOpcodeMiscPrefix :: nat where "wasmOpcodeMiscPrefix \<equiv> 0xFC"

abbreviation (input) wasmMiscOpcodeI32TruncSatF32S :: nat where "wasmMiscOpcodeI32TruncSatF32S \<equiv> 0x00"
abbreviation (input) wasmMiscOpcodeI32TruncSatF32U :: nat where "wasmMiscOpcodeI32TruncSatF32U \<equiv> 0x01"
abbreviation (input) wasmMiscOpcodeI32TruncSatF64S :: nat where "wasmMiscOpcodeI32TruncSatF64S \<equiv> 0x02"
abbreviation (input) wasmMiscOpcodeI32TruncSatF64U :: nat where "wasmMiscOpcodeI32TruncSatF64U \<equiv> 0x03"
abbreviation (input) wasmMiscOpcodeI64TruncSatF32S :: nat where "wasmMiscOpcodeI64TruncSatF32S \<equiv> 0x04"
abbreviation (input) wasmMiscOpcodeI64TruncSatF32U :: nat where "wasmMiscOpcodeI64TruncSatF32U \<equiv> 0x05"
abbreviation (input) wasmMiscOpcodeI64TruncSatF64S :: nat where "wasmMiscOpcodeI64TruncSatF64S \<equiv> 0x06"
abbreviation (input) wasmMiscOpcodeI64TruncSatF64U :: nat where "wasmMiscOpcodeI64TruncSatF64U \<equiv> 0x07"
abbreviation (input) wasmMiscOpcodeMemoryInit :: nat where "wasmMiscOpcodeMemoryInit \<equiv> 0x08"
abbreviation (input) wasmMiscOpcodeDataDrop :: nat where "wasmMiscOpcodeDataDrop \<equiv> 0x09"
abbreviation (input) wasmMiscOpcodeMemoryCopy :: nat where "wasmMiscOpcodeMemoryCopy \<equiv> 0x0A"
abbreviation (input) wasmMiscOpcodeMemoryFill :: nat where "wasmMiscOpcodeMemoryFill \<equiv> 0x0B"
abbreviation (input) wasmMiscOpcodeTableInit :: nat where "wasmMiscOpcodeTableInit \<equiv> 0x0C"
abbreviation (input) wasmMiscOpcodeElemDrop :: nat where "wasmMiscOpcodeElemDrop \<equiv> 0x0D"
abbreviation (input) wasmMiscOpcodeTableCopy :: nat where "wasmMiscOpcodeTableCopy \<equiv> 0x0E"
abbreviation (input) wasmMiscOpcodeTableGrow :: nat where "wasmMiscOpcodeTableGrow \<equiv> 0x0F"
abbreviation (input) wasmMiscOpcodeTableSize :: nat where "wasmMiscOpcodeTableSize \<equiv> 0x10"
abbreviation (input) wasmMiscOpcodeTableFill :: nat where "wasmMiscOpcodeTableFill \<equiv> 0x11"

abbreviation (input) wasmThreadsOpcodeMemoryAtomicNotify :: nat where "wasmThreadsOpcodeMemoryAtomicNotify \<equiv> 0x00"
abbreviation (input) wasmThreadsOpcodeMemoryAtomicWait32 :: nat where "wasmThreadsOpcodeMemoryAtomicWait32 \<equiv> 0x01"
abbreviation (input) wasmThreadsOpcodeMemoryAtomicWait64 :: nat where "wasmThreadsOpcodeMemoryAtomicWait64 \<equiv> 0x02"
abbreviation (input) wasmThreadsOpcodeAtomicFence :: nat where "wasmThreadsOpcodeAtomicFence \<equiv> 0x03"
abbreviation (input) wasmThreadsOpcodeI32AtomicLoad :: nat where "wasmThreadsOpcodeI32AtomicLoad \<equiv> 0x10"
abbreviation (input) wasmThreadsOpcodeI64AtomicLoad :: nat where "wasmThreadsOpcodeI64AtomicLoad \<equiv> 0x11"
abbreviation (input) wasmThreadsOpcodeI32AtomicLoad8U :: nat where "wasmThreadsOpcodeI32AtomicLoad8U \<equiv> 0x12"
abbreviation (input) wasmThreadsOpcodeI32AtomicLoad16U :: nat where "wasmThreadsOpcodeI32AtomicLoad16U \<equiv> 0x13"
abbreviation (input) wasmThreadsOpcodeI64AtomicLoad8U :: nat where "wasmThreadsOpcodeI64AtomicLoad8U \<equiv> 0x14"
abbreviation (input) wasmThreadsOpcodeI64AtomicLoad16U :: nat where "wasmThreadsOpcodeI64AtomicLoad16U \<equiv> 0x15"
abbreviation (input) wasmThreadsOpcodeI64AtomicLoad32U :: nat where "wasmThreadsOpcodeI64AtomicLoad32U \<equiv> 0x16"
abbreviation (input) wasmThreadsOpcodeI32AtomicStore :: nat where "wasmThreadsOpcodeI32AtomicStore \<equiv> 0x17"
abbreviation (input) wasmThreadsOpcodeI64AtomicStore :: nat where "wasmThreadsOpcodeI64AtomicStore \<equiv> 0x18"
abbreviation (input) wasmThreadsOpcodeI32AtomicStore8 :: nat where "wasmThreadsOpcodeI32AtomicStore8 \<equiv> 0x19"
abbreviation (input) wasmThreadsOpcodeI32AtomicStore16 :: nat where "wasmThreadsOpcodeI32AtomicStore16 \<equiv> 0x1A"
abbreviation (input) wasmThreadsOpcodeI64AtomicStore8 :: nat where "wasmThreadsOpcodeI64AtomicStore8 \<equiv> 0x1B"
abbreviation (input) wasmThreadsOpcodeI64AtomicStore16 :: nat where "wasmThreadsOpcodeI64AtomicStore16 \<equiv> 0x1C"
abbreviation (input) wasmThreadsOpcodeI64AtomicStore32 :: nat where "wasmThreadsOpcodeI64AtomicStore32 \<equiv> 0x1D"
abbreviation (input) wasmThreadsOpcodeI32AtomicRMWAdd :: nat where "wasmThreadsOpcodeI32AtomicRMWAdd \<equiv> 0x1E"
abbreviation (input) wasmThreadsOpcodeI64AtomicRMWAdd :: nat where "wasmThreadsOpcodeI64AtomicRMWAdd \<equiv> 0x1F"
abbreviation (input) wasmThreadsOpcodeI32AtomicRMW8AddU :: nat where "wasmThreadsOpcodeI32AtomicRMW8AddU \<equiv> 0x20"
abbreviation (input) wasmThreadsOpcodeI32AtomicRMW16AddU :: nat where "wasmThreadsOpcodeI32AtomicRMW16AddU \<equiv> 0x21"
abbreviation (input) wasmThreadsOpcodeI64AtomicRMW8AddU :: nat where "wasmThreadsOpcodeI64AtomicRMW8AddU \<equiv> 0x22"
abbreviation (input) wasmThreadsOpcodeI64AtomicRMW16AddU :: nat where "wasmThreadsOpcodeI64AtomicRMW16AddU \<equiv> 0x23"
abbreviation (input) wasmThreadsOpcodeI64AtomicRMW32AddU :: nat where "wasmThreadsOpcodeI64AtomicRMW32AddU \<equiv> 0x24"
abbreviation (input) wasmThreadsOpcodeI32AtomicRMWSub :: nat where "wasmThreadsOpcodeI32AtomicRMWSub \<equiv> 0x25"
abbreviation (input) wasmThreadsOpcodeI64AtomicRMWSub :: nat where "wasmThreadsOpcodeI64AtomicRMWSub \<equiv> 0x26"
abbreviation (input) wasmThreadsOpcodeI32AtomicRMW8SubU :: nat where "wasmThreadsOpcodeI32AtomicRMW8SubU \<equiv> 0x27"
abbreviation (input) wasmThreadsOpcodeI32AtomicRMW16SubU :: nat where "wasmThreadsOpcodeI32AtomicRMW16SubU \<equiv> 0x28"
abbreviation (input) wasmThreadsOpcodeI64AtomicRMW8SubU :: nat where "wasmThreadsOpcodeI64AtomicRMW8SubU \<equiv> 0x29"
abbreviation (input) wasmThreadsOpcodeI64AtomicRMW16SubU :: nat where "wasmThreadsOpcodeI64AtomicRMW16SubU \<equiv> 0x2A"
abbreviation (input) wasmThreadsOpcodeI64AtomicRMW32SubU :: nat where "wasmThreadsOpcodeI64AtomicRMW32SubU \<equiv> 0x2B"
abbreviation (input) wasmThreadsOpcodeI32AtomicRMWAnd :: nat where "wasmThreadsOpcodeI32AtomicRMWAnd \<equiv> 0x2C"
abbreviation (input) wasmThreadsOpcodeI64AtomicRMWAnd :: nat where "wasmThreadsOpcodeI64AtomicRMWAnd \<equiv> 0x2D"
abbreviation (input) wasmThreadsOpcodeI32AtomicRMW8AndU :: nat where "wasmThreadsOpcodeI32AtomicRMW8AndU \<equiv> 0x2E"
abbreviation (input) wasmThreadsOpcodeI32AtomicRMW16AndU :: nat where "wasmThreadsOpcodeI32AtomicRMW16AndU \<equiv> 0x2F"
abbreviation (input) wasmThreadsOpcodeI64AtomicRMW8AndU :: nat where "wasmThreadsOpcodeI64AtomicRMW8AndU \<equiv> 0x30"
abbreviation (input) wasmThreadsOpcodeI64AtomicRMW16AndU :: nat where "wasmThreadsOpcodeI64AtomicRMW16AndU \<equiv> 0x31"
abbreviation (input) wasmThreadsOpcodeI64AtomicRMW32AndU :: nat where "wasmThreadsOpcodeI64AtomicRMW32AndU \<equiv> 0x32"
abbreviation (input) wasmThreadsOpcodeI32AtomicRMWOr :: nat where "wasmThreadsOpcodeI32AtomicRMWOr \<equiv> 0x33"
abbreviation (input) wasmThreadsOpcodeI64AtomicRMWOr :: nat where "wasmThreadsOpcodeI64AtomicRMWOr \<equiv> 0x34"
abbreviation (input) wasmThreadsOpcodeI32AtomicRMW8OrU :: nat where "wasmThreadsOpcodeI32AtomicRMW8OrU \<equiv> 0x35"
abbreviation (input) wasmThreadsOpcodeI32AtomicRMW16OrU :: nat where "wasmThreadsOpcodeI32AtomicRMW16OrU \<equiv> 0x36"
abbreviation (input) wasmThreadsOpcodeI64AtomicRMW8OrU :: nat where "wasmThreadsOpcodeI64AtomicRMW8OrU \<equiv> 0x37"
abbreviation (input) wasmThreadsOpcodeI64AtomicRMW16OrU :: nat where "wasmThreadsOpcodeI64AtomicRMW16OrU \<equiv> 0x38"
abbreviation (input) wasmThreadsOpcodeI64AtomicRMW32OrU :: nat where "wasmThreadsOpcodeI64AtomicRMW32OrU \<equiv> 0x39"
abbreviation (input) wasmThreadsOpcodeI32AtomicRMWXor :: nat where "wasmThreadsOpcodeI32AtomicRMWXor \<equiv> 0x3A"
abbreviation (input) wasmThreadsOpcodeI64AtomicRMWXor :: nat where "wasmThreadsOpcodeI64AtomicRMWXor \<equiv> 0x3B"
abbreviation (input) wasmThreadsOpcodeI32AtomicRMW8XorU :: nat where "wasmThreadsOpcodeI32AtomicRMW8XorU \<equiv> 0x3C"
abbreviation (input) wasmThreadsOpcodeI32AtomicRMW16XorU :: nat where "wasmThreadsOpcodeI32AtomicRMW16XorU \<equiv> 0x3D"
abbreviation (input) wasmThreadsOpcodeI64AtomicRMW8XorU :: nat where "wasmThreadsOpcodeI64AtomicRMW8XorU \<equiv> 0x3E"
abbreviation (input) wasmThreadsOpcodeI64AtomicRMW16XorU :: nat where "wasmThreadsOpcodeI64AtomicRMW16XorU \<equiv> 0x3F"
abbreviation (input) wasmThreadsOpcodeI64AtomicRMW32XorU :: nat where "wasmThreadsOpcodeI64AtomicRMW32XorU \<equiv> 0x40"
abbreviation (input) wasmThreadsOpcodeI32AtomicRMWXchg :: nat where "wasmThreadsOpcodeI32AtomicRMWXchg \<equiv> 0x41"
abbreviation (input) wasmThreadsOpcodeI64AtomicRMWXchg :: nat where "wasmThreadsOpcodeI64AtomicRMWXchg \<equiv> 0x42"
abbreviation (input) wasmThreadsOpcodeI32AtomicRMW8XchgU :: nat where "wasmThreadsOpcodeI32AtomicRMW8XchgU \<equiv> 0x43"
abbreviation (input) wasmThreadsOpcodeI32AtomicRMW16XchgU :: nat where "wasmThreadsOpcodeI32AtomicRMW16XchgU \<equiv> 0x44"
abbreviation (input) wasmThreadsOpcodeI64AtomicRMW8XchgU :: nat where "wasmThreadsOpcodeI64AtomicRMW8XchgU \<equiv> 0x45"
abbreviation (input) wasmThreadsOpcodeI64AtomicRMW16XchgU :: nat where "wasmThreadsOpcodeI64AtomicRMW16XchgU \<equiv> 0x46"
abbreviation (input) wasmThreadsOpcodeI64AtomicRMW32XchgU :: nat where "wasmThreadsOpcodeI64AtomicRMW32XchgU \<equiv> 0x47"
abbreviation (input) wasmThreadsOpcodeI32AtomicRMWCmpxchg :: nat where "wasmThreadsOpcodeI32AtomicRMWCmpxchg \<equiv> 0x48"
abbreviation (input) wasmThreadsOpcodeI64AtomicRMWCmpxchg :: nat where "wasmThreadsOpcodeI64AtomicRMWCmpxchg \<equiv> 0x49"
abbreviation (input) wasmThreadsOpcodeI32AtomicRMW8CmpxchgU :: nat where "wasmThreadsOpcodeI32AtomicRMW8CmpxchgU \<equiv> 0x4A"
abbreviation (input) wasmThreadsOpcodeI32AtomicRMW16CmpxchgU :: nat where "wasmThreadsOpcodeI32AtomicRMW16CmpxchgU \<equiv> 0x4B"
abbreviation (input) wasmThreadsOpcodeI64AtomicRMW8CmpxchgU :: nat where "wasmThreadsOpcodeI64AtomicRMW8CmpxchgU \<equiv> 0x4C"
abbreviation (input) wasmThreadsOpcodeI64AtomicRMW16CmpxchgU :: nat where "wasmThreadsOpcodeI64AtomicRMW16CmpxchgU \<equiv> 0x4D"
abbreviation (input) wasmThreadsOpcodeI64AtomicRMW32CmpxchgU :: nat where "wasmThreadsOpcodeI64AtomicRMW32CmpxchgU \<equiv> 0x4E"

section \<open>The switches\<close>

definition wasmOpcodeResultType :: "nat \<Rightarrow> WasmValueType option" where
  "wasmOpcodeResultType op = switch [
      ([wasmOpcodeI32Const], wasmValueTypeI32),
      ([wasmOpcodeI64Const], wasmValueTypeI64),
      ([wasmOpcodeF32Const], wasmValueTypeF32),
      ([wasmOpcodeF64Const], wasmValueTypeF64),
      ([wasmOpcodeI32Load], wasmValueTypeI32),
      ([wasmOpcodeI64Load], wasmValueTypeI64),
      ([wasmOpcodeF32Load], wasmValueTypeF32),
      ([wasmOpcodeF64Load], wasmValueTypeF64),
      ([wasmOpcodeI32Load8S, wasmOpcodeI32Load8U, wasmOpcodeI32Load16S, wasmOpcodeI32Load16U], wasmValueTypeI32),
      ([wasmOpcodeI64Load8S, wasmOpcodeI64Load8U, wasmOpcodeI64Load16S, wasmOpcodeI64Load16U,
         wasmOpcodeI64Load32S, wasmOpcodeI64Load32U], wasmValueTypeI64),
      ([wasmOpcodeMemorySize, wasmOpcodeMemoryGrow], wasmValueTypeI32),
      ([wasmOpcodeI32Eqz, wasmOpcodeI32Eq, wasmOpcodeI32Ne, wasmOpcodeI32LtS, wasmOpcodeI32LtU,
         wasmOpcodeI32GtS, wasmOpcodeI32GtU, wasmOpcodeI32LeS, wasmOpcodeI32LeU, wasmOpcodeI32GeS,
         wasmOpcodeI32GeU, wasmOpcodeI64Eqz, wasmOpcodeI64Eq, wasmOpcodeI64Ne, wasmOpcodeI64LtS,
         wasmOpcodeI64LtU, wasmOpcodeI64GtS, wasmOpcodeI64GtU, wasmOpcodeI64LeS, wasmOpcodeI64LeU,
         wasmOpcodeI64GeS, wasmOpcodeI64GeU, wasmOpcodeF32Eq, wasmOpcodeF32Ne, wasmOpcodeF32Lt,
         wasmOpcodeF32Gt, wasmOpcodeF32Le, wasmOpcodeF32Ge, wasmOpcodeF64Eq, wasmOpcodeF64Ne,
         wasmOpcodeF64Lt, wasmOpcodeF64Gt, wasmOpcodeF64Le, wasmOpcodeF64Ge, wasmOpcodeI32Clz,
         wasmOpcodeI32Ctz, wasmOpcodeI32PopCnt, wasmOpcodeI32Add, wasmOpcodeI32Sub,
         wasmOpcodeI32Mul, wasmOpcodeI32DivS, wasmOpcodeI32DivU, wasmOpcodeI32RemS,
         wasmOpcodeI32RemU, wasmOpcodeI32And, wasmOpcodeI32Or, wasmOpcodeI32Xor, wasmOpcodeI32Shl,
         wasmOpcodeI32ShrS, wasmOpcodeI32ShrU, wasmOpcodeI32Rotl, wasmOpcodeI32Rotr], wasmValueTypeI32),
      ([wasmOpcodeI64Clz, wasmOpcodeI64Ctz, wasmOpcodeI64PopCnt, wasmOpcodeI64Add,
         wasmOpcodeI64Sub, wasmOpcodeI64Mul, wasmOpcodeI64DivS, wasmOpcodeI64DivU,
         wasmOpcodeI64RemS, wasmOpcodeI64RemU, wasmOpcodeI64And, wasmOpcodeI64Or, wasmOpcodeI64Xor,
         wasmOpcodeI64Shl, wasmOpcodeI64ShrS, wasmOpcodeI64ShrU, wasmOpcodeI64Rotl,
         wasmOpcodeI64Rotr], wasmValueTypeI64),
      ([wasmOpcodeF32Abs, wasmOpcodeF32Neg, wasmOpcodeF32Ceil, wasmOpcodeF32Floor,
         wasmOpcodeF32Trunc, wasmOpcodeF32Nearest, wasmOpcodeF32Sqrt, wasmOpcodeF32Add,
         wasmOpcodeF32Sub, wasmOpcodeF32Mul, wasmOpcodeF32Div, wasmOpcodeF32Min, wasmOpcodeF32Max,
         wasmOpcodeF32CopySign], wasmValueTypeF32),
      ([wasmOpcodeF64Abs, wasmOpcodeF64Neg, wasmOpcodeF64Ceil, wasmOpcodeF64Floor,
         wasmOpcodeF64Trunc, wasmOpcodeF64Nearest, wasmOpcodeF64Sqrt, wasmOpcodeF64Add,
         wasmOpcodeF64Sub, wasmOpcodeF64Mul, wasmOpcodeF64Div, wasmOpcodeF64Min, wasmOpcodeF64Max,
         wasmOpcodeF64CopySign], wasmValueTypeF64),
      ([wasmOpcodeI32WrapI64, wasmOpcodeI32TruncF32S, wasmOpcodeI32TruncF32U,
         wasmOpcodeI32TruncF64S, wasmOpcodeI32TruncF64U], wasmValueTypeI32),
      ([wasmOpcodeI64ExtendI32S, wasmOpcodeI64ExtendI32U, wasmOpcodeI64TruncF32S,
         wasmOpcodeI64TruncF32U, wasmOpcodeI64TruncF64S, wasmOpcodeI64TruncF64U], wasmValueTypeI64),
      ([wasmOpcodeF32ConvertI32S, wasmOpcodeF32ConvertI32U, wasmOpcodeF32ConvertI64S,
         wasmOpcodeF32ConvertI64U, wasmOpcodeF32DemoteF64], wasmValueTypeF32),
      ([wasmOpcodeF64ConvertI32S, wasmOpcodeF64ConvertI32U, wasmOpcodeF64ConvertI64S,
         wasmOpcodeF64ConvertI64U, wasmOpcodeF64PromoteF32], wasmValueTypeF64),
      ([wasmOpcodeI32ReinterpretF32], wasmValueTypeI32),
      ([wasmOpcodeI64ReinterpretF64], wasmValueTypeI64),
      ([wasmOpcodeF32ReinterpretI32], wasmValueTypeF32),
      ([wasmOpcodeF64ReinterpretI64], wasmValueTypeF64),
      ([wasmOpcodeI32Extend8S, wasmOpcodeI32Extend16S], wasmValueTypeI32),
      ([wasmOpcodeI64Extend8S, wasmOpcodeI64Extend16S, wasmOpcodeI64Extend32S], wasmValueTypeI64)] op"

definition wasmOpcodeParameter1Type :: "nat \<Rightarrow> WasmValueType option" where
  "wasmOpcodeParameter1Type op = switch [
      ([wasmOpcodeBrIf, wasmOpcodeBrTable, wasmOpcodeI32Load, wasmOpcodeI64Load,
         wasmOpcodeF32Load, wasmOpcodeF64Load, wasmOpcodeI32Load8S, wasmOpcodeI32Load8U,
         wasmOpcodeI32Load16S, wasmOpcodeI32Load16U, wasmOpcodeI64Load8S, wasmOpcodeI64Load8U,
         wasmOpcodeI64Load16S, wasmOpcodeI64Load16U, wasmOpcodeI64Load32S, wasmOpcodeI64Load32U,
         wasmOpcodeI32Store, wasmOpcodeI64Store, wasmOpcodeF32Store, wasmOpcodeF64Store,
         wasmOpcodeI32Store8, wasmOpcodeI32Store16, wasmOpcodeI64Store8, wasmOpcodeI64Store16,
         wasmOpcodeI64Store32, wasmOpcodeMemoryGrow, wasmOpcodeI32Eqz, wasmOpcodeI32Eq,
         wasmOpcodeI32Ne, wasmOpcodeI32LtS, wasmOpcodeI32LtU, wasmOpcodeI32GtS, wasmOpcodeI32GtU,
         wasmOpcodeI32LeS, wasmOpcodeI32LeU, wasmOpcodeI32GeS, wasmOpcodeI32GeU], wasmValueTypeI32),
      ([wasmOpcodeI64Eqz, wasmOpcodeI64Eq, wasmOpcodeI64Ne, wasmOpcodeI64LtS, wasmOpcodeI64LtU,
         wasmOpcodeI64GtS, wasmOpcodeI64GtU, wasmOpcodeI64LeS, wasmOpcodeI64LeU, wasmOpcodeI64GeS,
         wasmOpcodeI64GeU], wasmValueTypeI64),
      ([wasmOpcodeF32Eq, wasmOpcodeF32Ne, wasmOpcodeF32Lt, wasmOpcodeF32Gt, wasmOpcodeF32Le,
         wasmOpcodeF32Ge], wasmValueTypeF32),
      ([wasmOpcodeF64Eq, wasmOpcodeF64Ne, wasmOpcodeF64Lt, wasmOpcodeF64Gt, wasmOpcodeF64Le,
         wasmOpcodeF64Ge], wasmValueTypeF64),
      ([wasmOpcodeI32Clz, wasmOpcodeI32Ctz, wasmOpcodeI32PopCnt, wasmOpcodeI32Add,
         wasmOpcodeI32Sub, wasmOpcodeI32Mul, wasmOpcodeI32DivS, wasmOpcodeI32DivU,
         wasmOpcodeI32RemS, wasmOpcodeI32RemU, wasmOpcodeI32And, wasmOpcodeI32Or, wasmOpcodeI32Xor,
         wasmOpcodeI32Shl, wasmOpcodeI32ShrS, wasmOpcodeI32ShrU, wasmOpcodeI32Rotl,
         wasmOpcodeI32Rotr], wasmValueTypeI32),
      ([wasmOpcodeI64Clz, wasmOpcodeI64Ctz, wasmOpcodeI64PopCnt, wasmOpcodeI64Add,
         wasmOpcodeI64Sub, wasmOpcodeI64Mul, wasmOpcodeI64DivS, wasmOpcodeI64DivU,
         wasmOpcodeI64RemS, wasmOpcodeI64RemU, wasmOpcodeI64And, wasmOpcodeI64Or, wasmOpcodeI64Xor,
         wasmOpcodeI64Shl, wasmOpcodeI64ShrS, wasmOpcodeI64ShrU, wasmOpcodeI64Rotl,
         wasmOpcodeI64Rotr], wasmValueTypeI64),
      ([wasmOpcodeF32Abs, wasmOpcodeF32Neg, wasmOpcodeF32Ceil, wasmOpcodeF32Floor,
         wasmOpcodeF32Trunc, wasmOpcodeF32Nearest, wasmOpcodeF32Sqrt, wasmOpcodeF32Add,
         wasmOpcodeF32Sub, wasmOpcodeF32Mul, wasmOpcodeF32Div, wasmOpcodeF32Min, wasmOpcodeF32Max,
         wasmOpcodeF32CopySign], wasmValueTypeF32),
      ([wasmOpcodeF64Abs, wasmOpcodeF64Neg, wasmOpcodeF64Ceil, wasmOpcodeF64Floor,
         wasmOpcodeF64Trunc, wasmOpcodeF64Nearest, wasmOpcodeF64Sqrt, wasmOpcodeF64Add,
         wasmOpcodeF64Sub, wasmOpcodeF64Mul, wasmOpcodeF64Div, wasmOpcodeF64Min, wasmOpcodeF64Max,
         wasmOpcodeF64CopySign], wasmValueTypeF64),
      ([wasmOpcodeI32WrapI64], wasmValueTypeI64),
      ([wasmOpcodeI32TruncF32S, wasmOpcodeI32TruncF32U], wasmValueTypeF32),
      ([wasmOpcodeI32TruncF64S, wasmOpcodeI32TruncF64U], wasmValueTypeF64),
      ([wasmOpcodeI64ExtendI32S, wasmOpcodeI64ExtendI32U], wasmValueTypeI32),
      ([wasmOpcodeI64TruncF32S, wasmOpcodeI64TruncF32U], wasmValueTypeF32),
      ([wasmOpcodeI64TruncF64S, wasmOpcodeI64TruncF64U], wasmValueTypeF64),
      ([wasmOpcodeF32ConvertI32S, wasmOpcodeF32ConvertI32U], wasmValueTypeI32),
      ([wasmOpcodeF32ConvertI64S, wasmOpcodeF32ConvertI64U], wasmValueTypeI64),
      ([wasmOpcodeF32DemoteF64], wasmValueTypeF64),
      ([wasmOpcodeF64ConvertI32S, wasmOpcodeF64ConvertI32U], wasmValueTypeI32),
      ([wasmOpcodeF64ConvertI64S, wasmOpcodeF64ConvertI64U], wasmValueTypeI64),
      ([wasmOpcodeF64PromoteF32], wasmValueTypeF32),
      ([wasmOpcodeI32ReinterpretF32], wasmValueTypeF32),
      ([wasmOpcodeI64ReinterpretF64], wasmValueTypeF64),
      ([wasmOpcodeF32ReinterpretI32], wasmValueTypeI32),
      ([wasmOpcodeF64ReinterpretI64], wasmValueTypeI64)] op"

definition wasmOpcodeDescription :: "nat \<Rightarrow> string" where
  "wasmOpcodeDescription op =
     (case switch [
        ([wasmOpcodeUnreachable], ''unreachable''), ([wasmOpcodeNop], ''nop''),
        ([wasmOpcodeBlock], ''block''), ([wasmOpcodeLoop], ''loop''), ([wasmOpcodeIf], ''if''),
        ([wasmOpcodeElse], ''else''), ([wasmOpcodeEnd], ''end''), ([wasmOpcodeBr], ''br''),
        ([wasmOpcodeBrIf], ''br_if''), ([wasmOpcodeBrTable], ''br_table''),
        ([wasmOpcodeReturn], ''return''), ([wasmOpcodeCall], ''call''),
        ([wasmOpcodeCallIndirect], ''call_indirect''), ([wasmOpcodeDrop], ''drop''),
        ([wasmOpcodeSelect], ''select''), ([wasmOpcodeLocalGet], ''local.get''),
        ([wasmOpcodeLocalSet], ''local.set''), ([wasmOpcodeLocalTee], ''local.tee''),
        ([wasmOpcodeGlobalGet], ''global.get''), ([wasmOpcodeGlobalSet], ''global.set''),
        ([wasmOpcodeI32Load], ''i32.load''), ([wasmOpcodeI64Load], ''i64.load''),
        ([wasmOpcodeF32Load], ''f32.load''), ([wasmOpcodeF64Load], ''f64.load''),
        ([wasmOpcodeI32Load8S], ''i32.load8_s''), ([wasmOpcodeI32Load8U], ''i32.load8_u''),
        ([wasmOpcodeI32Load16S], ''i32.load16_s''), ([wasmOpcodeI32Load16U], ''i32.load16_u''),
        ([wasmOpcodeI64Load8S], ''i64.load8_s''), ([wasmOpcodeI64Load8U], ''i64.load8_u''),
        ([wasmOpcodeI64Load16S], ''i64.load16_s''), ([wasmOpcodeI64Load16U], ''i64.load16_u''),
        ([wasmOpcodeI64Load32S], ''i64.load32_s''), ([wasmOpcodeI64Load32U], ''i64.load32_u''),
        ([wasmOpcodeI32Store], ''i32.store''), ([wasmOpcodeI64Store], ''i64.store''),
        ([wasmOpcodeF32Store], ''f32.store''), ([wasmOpcodeF64Store], ''f64.store''),
        ([wasmOpcodeI32Store8], ''i32.store8''), ([wasmOpcodeI32Store16], ''i32.store16''),
        ([wasmOpcodeI64Store8], ''i64.store8''), ([wasmOpcodeI64Store16], ''i64.store16''),
        ([wasmOpcodeI64Store32], ''i64.store32''), ([wasmOpcodeMemorySize], ''memory.size''),
        ([wasmOpcodeMemoryGrow], ''memory.grow''), ([wasmOpcodeI32Const], ''i32.const''),
        ([wasmOpcodeI64Const], ''i64.const''), ([wasmOpcodeF32Const], ''f32.const''),
        ([wasmOpcodeF64Const], ''f64.const''), ([wasmOpcodeI32Eqz], ''i32.eqz''),
        ([wasmOpcodeI32Eq], ''i32.eq''), ([wasmOpcodeI32Ne], ''i32.ne''),
        ([wasmOpcodeI32LtS], ''i32.lt_s''), ([wasmOpcodeI32LtU], ''i32.lt_u''),
        ([wasmOpcodeI32GtS], ''i32.gt_s''), ([wasmOpcodeI32GtU], ''i32.gt_u''),
        ([wasmOpcodeI32LeS], ''i32.le_s''), ([wasmOpcodeI32LeU], ''i32.le_u''),
        ([wasmOpcodeI32GeS], ''i32.ge_s''), ([wasmOpcodeI32GeU], ''i32.ge_u''),
        ([wasmOpcodeI64Eqz], ''i64.eqz''), ([wasmOpcodeI64Eq], ''i64.eq''),
        ([wasmOpcodeI64Ne], ''i64.ne''), ([wasmOpcodeI64LtS], ''i64.lt_s''),
        ([wasmOpcodeI64LtU], ''i64.lt_u''), ([wasmOpcodeI64GtS], ''i64.gt_s''),
        ([wasmOpcodeI64GtU], ''i64.gt_u''), ([wasmOpcodeI64LeS], ''i64.le_s''),
        ([wasmOpcodeI64LeU], ''i64.le_u''), ([wasmOpcodeI64GeS], ''i64.ge_s''),
        ([wasmOpcodeI64GeU], ''i64.ge_u''), ([wasmOpcodeF32Eq], ''f32.eq''),
        ([wasmOpcodeF32Ne], ''f32.ne''), ([wasmOpcodeF32Lt], ''f32.lt''),
        ([wasmOpcodeF32Gt], ''f32.gt''), ([wasmOpcodeF32Le], ''f32.le''),
        ([wasmOpcodeF32Ge], ''f32.ge''), ([wasmOpcodeF64Eq], ''f64.eq''),
        ([wasmOpcodeF64Ne], ''f64.ne''), ([wasmOpcodeF64Lt], ''f64.lt''),
        ([wasmOpcodeF64Gt], ''f64.gt''), ([wasmOpcodeF64Le], ''f64.le''),
        ([wasmOpcodeF64Ge], ''f64.ge''), ([wasmOpcodeI32Clz], ''i32.clz''),
        ([wasmOpcodeI32Ctz], ''i32.ctz''), ([wasmOpcodeI32PopCnt], ''i32.popcnt''),
        ([wasmOpcodeI32Add], ''i32.add''), ([wasmOpcodeI32Sub], ''i32.sub''),
        ([wasmOpcodeI32Mul], ''i32.mul''), ([wasmOpcodeI32DivS], ''i32.div_s''),
        ([wasmOpcodeI32DivU], ''i32.div_u''), ([wasmOpcodeI32RemS], ''i32.rem_s''),
        ([wasmOpcodeI32RemU], ''i32.rem_u''), ([wasmOpcodeI32And], ''i32.and''),
        ([wasmOpcodeI32Or], ''i32.or''), ([wasmOpcodeI32Xor], ''i32.xor''),
        ([wasmOpcodeI32Shl], ''i32.shl''), ([wasmOpcodeI32ShrS], ''i32.shr_s''),
        ([wasmOpcodeI32ShrU], ''i32.shr_u''), ([wasmOpcodeI32Rotl], ''i32.rot_l''),
        ([wasmOpcodeI32Rotr], ''i32.rot_r''), ([wasmOpcodeI64Clz], ''i64.clz''),
        ([wasmOpcodeI64Ctz], ''i64.ctz''), ([wasmOpcodeI64PopCnt], ''i64.popcnt''),
        ([wasmOpcodeI64Add], ''i64.add''), ([wasmOpcodeI64Sub], ''i64.sub''),
        ([wasmOpcodeI64Mul], ''i64.mul''), ([wasmOpcodeI64DivS], ''i64.div_s''),
        ([wasmOpcodeI64DivU], ''i64.div_u''), ([wasmOpcodeI64RemS], ''i64.rem_s''),
        ([wasmOpcodeI64RemU], ''i64.rem_u''), ([wasmOpcodeI64And], ''i64.and''),
        ([wasmOpcodeI64Or], ''i64.or''), ([wasmOpcodeI64Xor], ''i64.xor''),
        ([wasmOpcodeI64Shl], ''i64.shl''), ([wasmOpcodeI64ShrS], ''i64.shr_s''),
        ([wasmOpcodeI64ShrU], ''i64.shr_u''), ([wasmOpcodeI64Rotl], ''i64.rot_l''),
        ([wasmOpcodeI64Rotr], ''i64.rot_r''), ([wasmOpcodeF32Abs], ''f32.abs''),
        ([wasmOpcodeF32Neg], ''f32.neg''), ([wasmOpcodeF32Ceil], ''f32.ceil''),
        ([wasmOpcodeF32Floor], ''f32.floor''), ([wasmOpcodeF32Trunc], ''f32.trunc''),
        ([wasmOpcodeF32Nearest], ''f32.nearest''), ([wasmOpcodeF32Sqrt], ''f32.sqrt''),
        ([wasmOpcodeF32Add], ''f32.add''), ([wasmOpcodeF32Sub], ''f32.sub''),
        ([wasmOpcodeF32Mul], ''f32.mul''), ([wasmOpcodeF32Div], ''f32.div''),
        ([wasmOpcodeF32Min], ''f32.min''), ([wasmOpcodeF32Max], ''f32.max''),
        ([wasmOpcodeF32CopySign], ''f32.copysign''), ([wasmOpcodeF64Abs], ''f64.abs''),
        ([wasmOpcodeF64Neg], ''f64.neg''), ([wasmOpcodeF64Ceil], ''f64.ceil''),
        ([wasmOpcodeF64Floor], ''f64.floor''), ([wasmOpcodeF64Trunc], ''f64.trunc''),
        ([wasmOpcodeF64Nearest], ''f64.nearest''), ([wasmOpcodeF64Sqrt], ''f64.sqrt''),
        ([wasmOpcodeF64Add], ''f64.add''), ([wasmOpcodeF64Sub], ''f64.sub''),
        ([wasmOpcodeF64Mul], ''f64.mul''), ([wasmOpcodeF64Div], ''f64.div''),
        ([wasmOpcodeF64Min], ''f64.min''), ([wasmOpcodeF64Max], ''f64.max''),
        ([wasmOpcodeF64CopySign], ''f64.copysign''), ([wasmOpcodeI32WrapI64], ''i32.wrap_i64''),
        ([wasmOpcodeI32TruncF32S], ''i32.trunc_f32_s''),
        ([wasmOpcodeI32TruncF32U], ''i32.trunc_f32_u''),
        ([wasmOpcodeI32TruncF64S], ''i32.trunc_f64_s''),
        ([wasmOpcodeI32TruncF64U], ''i32.trunc_f64_u''),
        ([wasmOpcodeI64ExtendI32S], ''i64.extend_i32_s''),
        ([wasmOpcodeI64ExtendI32U], ''i64.extend_i32_u''),
        ([wasmOpcodeI64TruncF32S], ''i64.trunc_f32_s''),
        ([wasmOpcodeI64TruncF32U], ''i64.trunc_f32_u''),
        ([wasmOpcodeI64TruncF64S], ''i64.trunc_f64_s''),
        ([wasmOpcodeI64TruncF64U], ''i64.trunc_f64_u''),
        ([wasmOpcodeF32ConvertI32S], ''f32.convert_i32_s''),
        ([wasmOpcodeF32ConvertI32U], ''f32.convert_i32_u''),
        ([wasmOpcodeF32ConvertI64S], ''f32.convert_i64_s''),
        ([wasmOpcodeF32ConvertI64U], ''f32.convert_i64_u''),
        ([wasmOpcodeF32DemoteF64], ''f32.demote_f64''),
        ([wasmOpcodeF64ConvertI32S], ''f64.convert_i32_s''),
        ([wasmOpcodeF64ConvertI32U], ''f64.convert_i32_u''),
        ([wasmOpcodeF64ConvertI64S], ''f64.convert_i64_s''),
        ([wasmOpcodeF64ConvertI64U], ''f64.convert_i64_u''),
        ([wasmOpcodeF64PromoteF32], ''f64.promote_f32''),
        ([wasmOpcodeI32ReinterpretF32], ''i32.reinterpret_f32''),
        ([wasmOpcodeI64ReinterpretF64], ''i64.reinterpret_f64''),
        ([wasmOpcodeF32ReinterpretI32], ''f32.reinterpret_i32''),
        ([wasmOpcodeF64ReinterpretI64], ''f64.reinterpret_i64''),
        ([wasmOpcodeI32Extend8S], ''i32.extend8_s''),
        ([wasmOpcodeI32Extend16S], ''i32.extend16_s''),
        ([wasmOpcodeI64Extend8S], ''i64.extend8_s''),
        ([wasmOpcodeI64Extend16S], ''i64.extend16_s''),
        ([wasmOpcodeI64Extend32S], ''i64.extend32_s'')]
        op of Some s \<Rightarrow> s | None \<Rightarrow> ''unknown'')"

definition wasmMiscOpcodeDescription :: "nat \<Rightarrow> string" where
  "wasmMiscOpcodeDescription op =
     (case switch [
        ([wasmMiscOpcodeI32TruncSatF32S], ''i32.trunc_sat_f32_s''),
        ([wasmMiscOpcodeI32TruncSatF32U], ''i32.trunc_sat_f32_u''),
        ([wasmMiscOpcodeI32TruncSatF64S], ''i32.trunc_sat_f64_s''),
        ([wasmMiscOpcodeI32TruncSatF64U], ''i32.trunc_sat_f64_u''),
        ([wasmMiscOpcodeI64TruncSatF32S], ''i64.trunc_sat_f32_s''),
        ([wasmMiscOpcodeI64TruncSatF32U], ''i64.trunc_sat_f32_u''),
        ([wasmMiscOpcodeI64TruncSatF64S], ''i64.trunc_sat_f64_s''),
        ([wasmMiscOpcodeI64TruncSatF64U], ''i64.trunc_sat_f64_u''),
        ([wasmMiscOpcodeMemoryInit], ''memory.init''), ([wasmMiscOpcodeDataDrop], ''data.drop''),
        ([wasmMiscOpcodeMemoryCopy], ''memory.copy''),
        ([wasmMiscOpcodeMemoryFill], ''memory.fill''), ([wasmMiscOpcodeTableInit], ''table.init''),
        ([wasmMiscOpcodeElemDrop], ''elem.drop''), ([wasmMiscOpcodeTableCopy], ''table.copy''),
        ([wasmMiscOpcodeTableGrow], ''table.grow''), ([wasmMiscOpcodeTableSize], ''table.size''),
        ([wasmMiscOpcodeTableFill], ''table.fill'')]
        op of Some s \<Rightarrow> s | None \<Rightarrow> ''unknown'')"

definition wasmThreadsOpcodeDescription :: "nat \<Rightarrow> string" where
  "wasmThreadsOpcodeDescription op =
     (case switch [
        ([wasmThreadsOpcodeMemoryAtomicNotify], ''memory.atomic.notify''),
        ([wasmThreadsOpcodeMemoryAtomicWait32], ''memory.atomic.wait32''),
        ([wasmThreadsOpcodeMemoryAtomicWait64], ''memory.atomic.wait64''),
        ([wasmThreadsOpcodeAtomicFence], ''atomic.fence''),
        ([wasmThreadsOpcodeI32AtomicLoad], ''i32.atomic.load''),
        ([wasmThreadsOpcodeI64AtomicLoad], ''i64.atomic.load''),
        ([wasmThreadsOpcodeI32AtomicLoad8U], ''i32.atomic.load8_u''),
        ([wasmThreadsOpcodeI32AtomicLoad16U], ''i32.atomic.load16_u''),
        ([wasmThreadsOpcodeI64AtomicLoad8U], ''i64.atomic.load8_u''),
        ([wasmThreadsOpcodeI64AtomicLoad16U], ''i64.atomic.load16_u''),
        ([wasmThreadsOpcodeI64AtomicLoad32U], ''i64.atomic.load32_u''),
        ([wasmThreadsOpcodeI32AtomicStore], ''i32.atomic.store''),
        ([wasmThreadsOpcodeI64AtomicStore], ''i64.atomic.store''),
        ([wasmThreadsOpcodeI32AtomicStore8], ''i32.atomic.store8''),
        ([wasmThreadsOpcodeI32AtomicStore16], ''i32.atomic.store16''),
        ([wasmThreadsOpcodeI64AtomicStore8], ''i64.atomic.store8''),
        ([wasmThreadsOpcodeI64AtomicStore16], ''i64.atomic.store16''),
        ([wasmThreadsOpcodeI64AtomicStore32], ''i64.atomic.store32''),
        ([wasmThreadsOpcodeI32AtomicRMWAdd], ''i32.atomic.rmw.add''),
        ([wasmThreadsOpcodeI64AtomicRMWAdd], ''i64.atomic.rmw.add''),
        ([wasmThreadsOpcodeI32AtomicRMW8AddU], ''i32.atomic.rmw8.add_u''),
        ([wasmThreadsOpcodeI32AtomicRMW16AddU], ''i32.atomic.rmw16.add_u''),
        ([wasmThreadsOpcodeI64AtomicRMW8AddU], ''i64.atomic.rmw8.add_u''),
        ([wasmThreadsOpcodeI64AtomicRMW16AddU], ''i64.atomic.rmw16.add_u''),
        ([wasmThreadsOpcodeI64AtomicRMW32AddU], ''i64.atomic.rmw32.add_u''),
        ([wasmThreadsOpcodeI32AtomicRMWSub], ''i32.atomic.rmw.sub''),
        ([wasmThreadsOpcodeI64AtomicRMWSub], ''i64.atomic.rmw.sub''),
        ([wasmThreadsOpcodeI32AtomicRMW8SubU], ''i32.atomic.rmw8.sub_u''),
        ([wasmThreadsOpcodeI32AtomicRMW16SubU], ''i32.atomic.rmw16.sub_u''),
        ([wasmThreadsOpcodeI64AtomicRMW8SubU], ''i64.atomic.rmw8.sub_u''),
        ([wasmThreadsOpcodeI64AtomicRMW16SubU], ''i64.atomic.rmw16.sub_u''),
        ([wasmThreadsOpcodeI64AtomicRMW32SubU], ''i64.atomic.rmw32.sub_u''),
        ([wasmThreadsOpcodeI32AtomicRMWAnd], ''i32.atomic.rmw.and''),
        ([wasmThreadsOpcodeI64AtomicRMWAnd], ''i64.atomic.rmw.and''),
        ([wasmThreadsOpcodeI32AtomicRMW8AndU], ''i32.atomic.rmw8.and_u''),
        ([wasmThreadsOpcodeI32AtomicRMW16AndU], ''i32.atomic.rmw16.and_u''),
        ([wasmThreadsOpcodeI64AtomicRMW8AndU], ''i64.atomic.rmw8.and_u''),
        ([wasmThreadsOpcodeI64AtomicRMW16AndU], ''i64.atomic.rmw16.and_u''),
        ([wasmThreadsOpcodeI64AtomicRMW32AndU], ''i64.atomic.rmw32.and_u''),
        ([wasmThreadsOpcodeI32AtomicRMWOr], ''i32.atomic.rmw.or''),
        ([wasmThreadsOpcodeI64AtomicRMWOr], ''i64.atomic.rmw.or''),
        ([wasmThreadsOpcodeI32AtomicRMW8OrU], ''i32.atomic.rmw8.or_u''),
        ([wasmThreadsOpcodeI32AtomicRMW16OrU], ''i32.atomic.rmw16.or_u''),
        ([wasmThreadsOpcodeI64AtomicRMW8OrU], ''i64.atomic.rmw8.or_u''),
        ([wasmThreadsOpcodeI64AtomicRMW16OrU], ''i64.atomic.rmw16.or_u''),
        ([wasmThreadsOpcodeI64AtomicRMW32OrU], ''i64.atomic.rmw32.or_u''),
        ([wasmThreadsOpcodeI32AtomicRMWXor], ''i32.atomic.rmw.xor''),
        ([wasmThreadsOpcodeI64AtomicRMWXor], ''i64.atomic.rmw.xor''),
        ([wasmThreadsOpcodeI32AtomicRMW8XorU], ''i32.atomic.rmw8.xor_u''),
        ([wasmThreadsOpcodeI32AtomicRMW16XorU], ''i32.atomic.rmw16.xor_u''),
        ([wasmThreadsOpcodeI64AtomicRMW8XorU], ''i64.atomic.rmw8.xor_u''),
        ([wasmThreadsOpcodeI64AtomicRMW16XorU], ''i64.atomic.rmw16.xor_u''),
        ([wasmThreadsOpcodeI64AtomicRMW32XorU], ''i64.atomic.rmw32.xor_u''),
        ([wasmThreadsOpcodeI32AtomicRMWXchg], ''i32.atomic.rmw.xchg''),
        ([wasmThreadsOpcodeI64AtomicRMWXchg], ''i64.atomic.rmw.xchg''),
        ([wasmThreadsOpcodeI32AtomicRMW8XchgU], ''i32.atomic.rmw8.xchg_u''),
        ([wasmThreadsOpcodeI32AtomicRMW16XchgU], ''i32.atomic.rmw16.xchg_u''),
        ([wasmThreadsOpcodeI64AtomicRMW8XchgU], ''i64.atomic.rmw8.xchg_u''),
        ([wasmThreadsOpcodeI64AtomicRMW16XchgU], ''i64.atomic.rmw16.xchg_u''),
        ([wasmThreadsOpcodeI64AtomicRMW32XchgU], ''i64.atomic.rmw32.xchg_u''),
        ([wasmThreadsOpcodeI32AtomicRMWCmpxchg], ''i32.atomic.rmw.cmpxchg''),
        ([wasmThreadsOpcodeI64AtomicRMWCmpxchg], ''i64.atomic.rmw.cmpxchg''),
        ([wasmThreadsOpcodeI32AtomicRMW8CmpxchgU], ''i32.atomic.rmw8.cmpxchg_u''),
        ([wasmThreadsOpcodeI32AtomicRMW16CmpxchgU], ''i32.atomic.rmw16.cmpxchg_u''),
        ([wasmThreadsOpcodeI64AtomicRMW8CmpxchgU], ''i64.atomic.rmw8.cmpxchg_u''),
        ([wasmThreadsOpcodeI64AtomicRMW16CmpxchgU], ''i64.atomic.rmw16.cmpxchg_u''),
        ([wasmThreadsOpcodeI64AtomicRMW32CmpxchgU], ''i64.atomic.rmw32.cmpxchg_u'')]
        op of Some s \<Rightarrow> s | None \<Rightarrow> ''unknown'')"

end
