(* ===== verification/Instruction.thy ===== *)
theory Instruction
  imports Opcode
begin

text \<open>
  The immediate operands of instructions (\<^verbatim>\<open>src/w2c2/instruction.c\<close>, \<^verbatim>\<open>instruction.h\<close>) and the
  opcode reader of \<^verbatim>\<open>opcode.h\<close>: each takes its operands from the buffer or fails.
\<close>

section \<open>Readers\<close>

definition wasmOpcodeRead :: "(unit, nat) rd" where
  "wasmOpcodeRead = rd_bind (rd_byte ()) (\<lambda>b. rd_return (unat b))"

definition wasmLocalInstructionRead :: "(unit, u32) rd" where
  "wasmLocalInstructionRead = rd_u32 ()"

definition wasmGlobalInstructionRead :: "(unit, u32) rd" where
  "wasmGlobalInstructionRead = rd_u32 ()"

text \<open>The union holds 32 or 64 bits.\<close>

datatype WasmValue = Value32 u32 | Value64 u64

definition wasmConstInstructionRead :: "nat \<Rightarrow> (unit, WasmValue) rd" where
  "wasmConstInstructionRead opcode =
     (if opcode = wasmOpcodeI32Const then rd_bind (rd_leb () leb128ReadI32) (\<lambda>v. rd_return (Value32 v))
      else if opcode = wasmOpcodeI64Const then rd_bind (rd_leb () leb128ReadI64) (\<lambda>v. rd_return (Value64 v))
      else if opcode = wasmOpcodeF32Const then rd_bind (rd_option () bufferReadF32) (\<lambda>v. rd_return (Value32 v))
      else if opcode = wasmOpcodeF64Const then rd_bind (rd_option () bufferReadF64) (\<lambda>v. rd_return (Value64 v))
      else rd_fail ())"

definition wasmMemoryArgumentInstructionRead :: "(unit, u32 \<times> u32) rd" where
  "wasmMemoryArgumentInstructionRead =
     rd_bind (rd_u32 ()) (\<lambda>align. rd_bind (rd_u32 ()) (\<lambda>offset. rd_return (align, offset)))"

text \<open>
  \<^verbatim>\<open>wasmMemoryArgument8InstructionRead\<close> and its siblings demand the alignment exponent 0, 1, 2 or 3.
\<close>

definition memarg_read_aligned :: "u32 \<Rightarrow> (unit, u32 \<times> u32) rd" where
  "memarg_read_aligned want =
     rd_bind wasmMemoryArgumentInstructionRead (\<lambda>(align, offset).
     rd_bind (rd_guard (align = want) ()) (\<lambda>_. rd_return (align, offset)))"

definition wasmMemoryArgument8InstructionRead :: "(unit, u32 \<times> u32) rd" where
  "wasmMemoryArgument8InstructionRead = memarg_read_aligned 0"
definition wasmMemoryArgument16InstructionRead :: "(unit, u32 \<times> u32) rd" where
  "wasmMemoryArgument16InstructionRead = memarg_read_aligned 1"
definition wasmMemoryArgument32InstructionRead :: "(unit, u32 \<times> u32) rd" where
  "wasmMemoryArgument32InstructionRead = memarg_read_aligned 2"
definition wasmMemoryArgument64InstructionRead :: "(unit, u32 \<times> u32) rd" where
  "wasmMemoryArgument64InstructionRead = memarg_read_aligned 3"

definition wasmCallInstructionRead :: "(unit, u32) rd" where
  "wasmCallInstructionRead = rd_u32 ()"

definition wasmCallIndirectInstructionRead :: "(unit, u32 \<times> u32) rd" where
  "wasmCallIndirectInstructionRead =
     rd_bind (rd_u32 ()) (\<lambda>typeIndex. rd_bind (rd_u32 ()) (\<lambda>tableIndex. rd_return (typeIndex, tableIndex)))"

definition wasmBranchInstructionRead :: "(unit, u32) rd" where
  "wasmBranchInstructionRead = rd_u32 ()"

text \<open>
  The result of this \<^verbatim>\<open>calloc\<close> is not checked: storing the first index through \<^verbatim>\<open>NULL\<close> is \<open>Unsafe\<close>.
\<close>

definition calloc_unchecked :: "allocator \<Rightarrow> nat \<Rightarrow> nat \<Rightarrow> (unit, bool) rd" where
  "calloc_unchecked al n sz = (\<lambda>s.
     Val (al (rd_allocs s) (n * sz), s\<lparr>rd_allocs := rd_allocs s + 1\<rparr>))"

definition wasmBranchTableInstructionRead :: "allocator \<Rightarrow> (unit, u32 list \<times> u32) rd" where
  "wasmBranchTableInstructionRead al =
     rd_bind (rd_u32 ()) (\<lambda>labelIndexCount.
     rd_bind (calloc_unchecked al (unat labelIndexCount) 4) (\<lambda>allocated.
     if \<not> allocated \<and> 0 < labelIndexCount then (\<lambda>_. Unsafe)
     else rd_bind (rd_many (unat labelIndexCount) (rd_u32 ())) (\<lambda>labelIndices.
     rd_bind (rd_u32 ()) (\<lambda>defaultLabelIndex. rd_return (labelIndices, defaultLabelIndex)))))"

definition wasmMemoryInstructionRead :: "(unit, u32) rd" where
  "wasmMemoryInstructionRead = rd_u32 ()"

definition wasmMemoryCopyInstructionRead :: "(unit, u32 \<times> u32) rd" where
  "wasmMemoryCopyInstructionRead =
     rd_bind (rd_u32 ()) (\<lambda>memoryIndex1. rd_bind (rd_u32 ()) (\<lambda>memoryIndex2.
     rd_return (memoryIndex1, memoryIndex2)))"

definition wasmMemoryInitInstructionRead :: "(unit, u32 \<times> u32) rd" where
  "wasmMemoryInitInstructionRead =
     rd_bind (rd_u32 ()) (\<lambda>dataSegmentIndex. rd_bind (rd_u32 ()) (\<lambda>memoryIndex.
     rd_return (dataSegmentIndex, memoryIndex)))"

section \<open>Contracts\<close>

lemma rd_ok_floats [rd_intros]:
  "k \<le> 1 \<Longrightarrow> rd_ok E k (rd_option () bufferReadF32)"
  "k \<le> 1 \<Longrightarrow> rd_ok E k (rd_option () bufferReadF64)"
  by (rule rd_ok_option; auto simp: bufferReadF32_def bufferReadF64_def suffix_drop split: if_splits)+

lemma wasmOpcodeRead_ok [rd_intros]: "k \<le> 1 \<Longrightarrow> rd_ok E k wasmOpcodeRead"
  unfolding wasmOpcodeRead_def by (intro rd_ok_bind1 rd_intros)

lemma wasmGlobalInstructionRead_ok [rd_intros]: "k \<le> 1 \<Longrightarrow> rd_ok E k wasmGlobalInstructionRead"
  unfolding wasmGlobalInstructionRead_def by (intro rd_intros)

lemma wasmConstInstructionRead_ok [rd_intros]: "k \<le> 1 \<Longrightarrow> rd_ok E k (wasmConstInstructionRead op)"
  unfolding wasmConstInstructionRead_def
  by (auto intro!: rd_ok_bind1 rd_intros simp del: One_nat_def)

end
