(* ===== verification/C_Builder.thy ===== *)
theory C_Builder
  imports Instruction
begin

text \<open>
  What the C writer of the translator is built on: the string builder (\<^verbatim>\<open>src/w2c2/stringbuilder.c\<close>), the
  stacks of types and labels (\<^verbatim>\<open>typestack.h\<close>, \<^verbatim>\<open>labelstack.h\<close>), and the writer's state
  (\<^verbatim>\<open>WasmCFunctionWriter\<close> of \<^verbatim>\<open>c.c\<close>). Text is a list of characters. Allocation is the parameter \<open>al\<close> of the
  readers; a function that returns \<^verbatim>\<open>false\<close> stops with \<open>()\<close>. Assertions are on, as in the translator's build.
\<close>

section \<open>Numbers as text\<close>

text \<open>The \<^verbatim>\<open>sprintf\<close> conversions \<^verbatim>\<open>%u\<close>, \<^verbatim>\<open>%i\<close>, \<^verbatim>\<open>%llu\<close>, \<^verbatim>\<open>%lli\<close> and \<^verbatim>\<open>%0nX\<close> of a number that fits in \<open>n\<close> digits.\<close>

definition digit :: "nat \<Rightarrow> char" where
  "digit d = char_of (if d < 10 then 48 + d else 55 + d)"

fun decimal :: "nat \<Rightarrow> string" where
  "decimal n = (if n < 10 then [digit n] else decimal (n div 10) @ [digit (n mod 10)])"

declare decimal.simps [simp del]

definition decimal_int :: "int \<Rightarrow> string" where
  "decimal_int i = (if i < 0 then ''-'' @ decimal (nat (- i)) else decimal (nat i))"

fun hex :: "nat \<Rightarrow> nat \<Rightarrow> string" where
  "hex 0 n = []"
| "hex (Suc k) n = hex k (n div 16) @ [digit (n mod 16)]"

section \<open>The string builder\<close>

text \<open>The characters before the terminator, and the allocated size; nothing is allocated while it is 0.\<close>

record StringBuilder =
  sb_string :: string
  sb_capacity :: nat

definition emptyStringBuilder :: StringBuilder where
  "emptyStringBuilder = \<lparr>sb_string = [], sb_capacity = 0\<rparr>"

definition stringBuilderEnsureCapacity :: "allocator \<Rightarrow> nat \<Rightarrow> StringBuilder \<Rightarrow> (unit, StringBuilder) rd" where
  "stringBuilderEnsureCapacity al n b =
     (let lengthWithNull = n + 1 in
      if lengthWithNull > sb_capacity b
      then let newCapacity = lengthWithNull + drop_bit 1 (sb_capacity b)
           in rd_bind (rd_calloc al () newCapacity 1) (\<lambda>_. rd_return (b\<lparr>sb_capacity := newCapacity\<rparr>))
      else rd_return b)"

definition stringBuilderInitialize :: "allocator \<Rightarrow> StringBuilder \<Rightarrow> (unit, StringBuilder) rd" where
  "stringBuilderInitialize al b =
     rd_bind (rd_guard (sb_capacity b = 0) ()) (\<lambda>_.
     rd_bind (rd_calloc al () 8 1) (\<lambda>_. rd_return \<lparr>sb_string = [], sb_capacity = 8\<rparr>))"

definition stringBuilderReset :: "allocator \<Rightarrow> StringBuilder \<Rightarrow> (unit, StringBuilder) rd" where
  "stringBuilderReset al b =
     rd_bind (if sb_capacity b < 1 then stringBuilderInitialize al b else rd_return b) (\<lambda>b.
     rd_return (b\<lparr>sb_string := []\<rparr>))"

definition stringBuilderFree :: "StringBuilder \<Rightarrow> StringBuilder" where
  "stringBuilderFree b = (if sb_capacity b = 0 then b else emptyStringBuilder)"

text \<open>The text and its terminator are written into the allocated bytes.\<close>

definition append_text :: "string \<Rightarrow> StringBuilder \<Rightarrow> (unit, StringBuilder) rd" where
  "append_text s b =
     (if length (sb_string b) + length s < sb_capacity b
      then rd_return (b\<lparr>sb_string := sb_string b @ s\<rparr>) else (\<lambda>_. Unsafe))"

definition stringBuilderAppendSized :: "allocator \<Rightarrow> string \<Rightarrow> StringBuilder \<Rightarrow> (unit, StringBuilder) rd" where
  "stringBuilderAppendSized al s b =
     rd_bind (stringBuilderEnsureCapacity al (length (sb_string b) + length s) b) (append_text s)"

definition stringBuilderAppend :: "allocator \<Rightarrow> string \<Rightarrow> StringBuilder \<Rightarrow> (unit, StringBuilder) rd" where
  "stringBuilderAppend = stringBuilderAppendSized"

definition stringBuilderAppendChar :: "allocator \<Rightarrow> char \<Rightarrow> StringBuilder \<Rightarrow> (unit, StringBuilder) rd" where
  "stringBuilderAppendChar al c b =
     rd_bind (stringBuilderEnsureCapacity al (length (sb_string b) + 1) b) (append_text [c])"

text \<open>\<^verbatim>\<open>char buffer[room]; sprintf(buffer, \<dots>)\<close>: text too long for the buffer is written past its end.\<close>

definition append_printed :: "allocator \<Rightarrow> nat \<Rightarrow> string \<Rightarrow> StringBuilder \<Rightarrow> (unit, StringBuilder) rd" where
  "append_printed al room s b =
     (if length s < room then stringBuilderAppendSized al s b else (\<lambda>_. Unsafe))"

definition stringBuilderAppendU32 :: "allocator \<Rightarrow> u32 \<Rightarrow> StringBuilder \<Rightarrow> (unit, StringBuilder) rd" where
  "stringBuilderAppendU32 al v = append_printed al 11 (decimal (unat v))"

definition stringBuilderAppendI32 :: "allocator \<Rightarrow> u32 \<Rightarrow> StringBuilder \<Rightarrow> (unit, StringBuilder) rd" where
  "stringBuilderAppendI32 al v = append_printed al 12 (decimal_int (sint v))"

definition stringBuilderAppendU64 :: "allocator \<Rightarrow> u64 \<Rightarrow> StringBuilder \<Rightarrow> (unit, StringBuilder) rd" where
  "stringBuilderAppendU64 al v = append_printed al 21 (decimal (unat v))"

definition stringBuilderAppendI64 :: "allocator \<Rightarrow> u64 \<Rightarrow> StringBuilder \<Rightarrow> (unit, StringBuilder) rd" where
  "stringBuilderAppendI64 al v = append_printed al 22 (decimal_int (sint v))"

text \<open>A \<^verbatim>\<open>char\<close> is signed on the translator's targets: from 0x80 on \<^verbatim>\<open>%02X\<close> prints the eight digits of a negative \<^verbatim>\<open>int\<close>.\<close>

definition char_hex :: "u8 \<Rightarrow> string" where
  "char_hex c = (if unat c < 128 then hex 2 (unat c) else hex 8 (2 ^ 32 - 256 + unat c))"

definition stringBuilderAppendCharHex :: "allocator \<Rightarrow> u8 \<Rightarrow> StringBuilder \<Rightarrow> (unit, StringBuilder) rd" where
  "stringBuilderAppendCharHex al c = append_printed al 3 (char_hex c)"

definition stringBuilderAppendU32Hex :: "allocator \<Rightarrow> u32 \<Rightarrow> StringBuilder \<Rightarrow> (unit, StringBuilder) rd" where
  "stringBuilderAppendU32Hex al v = append_printed al 9 (hex 8 (unat v))"

definition stringBuilderAppendU64Hex :: "allocator \<Rightarrow> u64 \<Rightarrow> StringBuilder \<Rightarrow> (unit, StringBuilder) rd" where
  "stringBuilderAppendU64Hex al v = append_printed al 17 (hex 16 (unat v))"

section \<open>Type stacks\<close>

text \<open>
  The slots written since the array was allocated, the length and the capacity. Dropped slots are zeroed
  and stay: setting the length back up shows them again. The stack of operand types holds value types,
  the stack of declarations sets of them as bits.
\<close>

record 'a WasmTypeStack =
  ts_slots :: "'a list"
  ts_length :: nat
  ts_capacity :: nat

definition wasmEmptyTypeStack :: "'a WasmTypeStack" where
  "wasmEmptyTypeStack = \<lparr>ts_slots = [], ts_length = 0, ts_capacity = 0\<rparr>"

definition wasmTypeStackEnsureCapacity :: "allocator \<Rightarrow> nat \<Rightarrow> 'a WasmTypeStack \<Rightarrow> (unit, 'a WasmTypeStack) rd" where
  "wasmTypeStackEnsureCapacity al n ts =
     rd_bind (arrayEnsureCapacity al () 4 n \<lparr>items = ts_slots ts, capacity = ts_capacity ts\<rparr>) (\<lambda>a.
     rd_return (ts\<lparr>ts_capacity := capacity a\<rparr>))"

definition put_slot :: "nat \<Rightarrow> 'a \<Rightarrow> 'a list \<Rightarrow> 'a list" where
  "put_slot i x xs = (if i < length xs then xs[i := x] else xs @ [x])"

definition wasmTypeStackAppend :: "allocator \<Rightarrow> 'a \<Rightarrow> 'a WasmTypeStack \<Rightarrow> (unit, 'a WasmTypeStack) rd" where
  "wasmTypeStackAppend al x ts =
     rd_bind (wasmTypeStackEnsureCapacity al (ts_length ts + 1) ts) (\<lambda>ts.
     if ts_length ts < ts_capacity ts
     then rd_return (ts\<lparr>ts_slots := put_slot (ts_length ts) x (ts_slots ts), ts_length := ts_length ts + 1\<rparr>)
     else (\<lambda>_. Unsafe))"

definition wasmTypeStackDrop :: "'a \<Rightarrow> nat \<Rightarrow> 'a WasmTypeStack \<Rightarrow> 'a WasmTypeStack" where
  "wasmTypeStackDrop zero count ts =
     (let count = (if count > ts_length ts then ts_length ts else count);
          newLength = ts_length ts - count
      in ts\<lparr>ts_slots := take newLength (ts_slots ts) @ replicate count zero @ drop (ts_length ts) (ts_slots ts),
            ts_length := newLength\<rparr>)"

definition wasmTypeStackClear :: "'a \<Rightarrow> 'a WasmTypeStack \<Rightarrow> 'a WasmTypeStack" where
  "wasmTypeStackClear zero ts = ts\<lparr>ts_slots := replicate (ts_capacity ts) zero, ts_length := 0\<rparr>"

text \<open>The new length \<open>index + 1\<close> is a \<^verbatim>\<open>U32\<close>.\<close>

fun type_bit :: "WasmValueType \<Rightarrow> u32" where
  "type_bit wasmValueTypeI32 = 1"
| "type_bit wasmValueTypeI64 = 2"
| "type_bit wasmValueTypeF32 = 4"
| "type_bit wasmValueTypeF64 = 8"

definition wasmTypeStackSet :: "allocator \<Rightarrow> u32 \<Rightarrow> WasmValueType \<Rightarrow> u32 WasmTypeStack \<Rightarrow> (unit, u32 WasmTypeStack) rd" where
  "wasmTypeStackSet al index t ts =
     (let newLength = unat (index + 1) in
      rd_bind (if ts_length ts < newLength
               then rd_bind (wasmTypeStackEnsureCapacity al newLength ts) (\<lambda>ts.
                    rd_return (ts\<lparr>ts_slots := take (ts_length ts) (ts_slots ts)
                        @ replicate (newLength - ts_length ts) 0 @ drop newLength (ts_slots ts),
                      ts_length := newLength\<rparr>))
               else rd_return ts) (\<lambda>ts.
      if unat index < length (ts_slots ts)
      then rd_return (ts\<lparr>ts_slots := (ts_slots ts)[unat index := ts_slots ts ! unat index OR type_bit t]\<rparr>)
      else (\<lambda>_. Unsafe)))"

definition wasmTypeStackIsSet :: "u32 WasmTypeStack \<Rightarrow> nat \<Rightarrow> WasmValueType \<Rightarrow> bool" where
  "wasmTypeStackIsSet ts i t \<longleftrightarrow> i < ts_length ts \<and> ts_slots ts ! i AND type_bit t \<noteq> 0"

section \<open>Labels\<close>

record WasmLabel =
  lb_index :: u32
  lb_typeStackLength :: nat
  lb_type :: "WasmValueType option"

record WasmLabelStack =
  ls_labels :: "WasmLabel array"
  ls_next :: u32

definition wasmEmptyLabelStack :: WasmLabelStack where
  "wasmEmptyLabelStack = \<lparr>ls_labels = empty_array, ls_next = 0\<rparr>"

definition wasmLabelStackClear :: "WasmLabelStack \<Rightarrow> WasmLabelStack" where
  "wasmLabelStackClear ls = ls\<lparr>ls_labels := (ls_labels ls)\<lparr>items := []\<rparr>, ls_next := 0\<rparr>"

definition wasmLabelStackPush ::
    "allocator \<Rightarrow> nat \<Rightarrow> WasmValueType option \<Rightarrow> WasmLabelStack \<Rightarrow> (unit, WasmLabel \<times> WasmLabelStack) rd" where
  "wasmLabelStackPush al n t ls =
     (let l = \<lparr>lb_index = ls_next ls, lb_typeStackLength = n, lb_type = t\<rparr> in
      rd_bind (arrayAppend al () 24 (ls_labels ls) l) (\<lambda>a.
      rd_return (l, ls\<lparr>ls_labels := a, ls_next := ls_next ls + 1\<rparr>)))"

definition wasmLabelStackPop :: "WasmLabelStack \<Rightarrow> WasmLabelStack" where
  "wasmLabelStackPop ls = ls\<lparr>ls_labels := (ls_labels ls)\<lparr>items := butlast (items (ls_labels ls))\<rparr>\<rparr>"

section \<open>The writer\<close>

text \<open>\<^verbatim>\<open>false\<close>, \<^verbatim>\<open>abort\<close> (of an assertion, too), and the recursion's fuel.\<close>

datatype werr = Failed | Aborted | OutOfFuel

record WasmDebugLine =
  dl_address :: nat
  dl_path :: "u8 list"
  dl_number :: u64

text \<open>What stays the same while a function is written, and what changes.\<close>

record cenv =
  ce_al :: allocator
  ce_module :: WasmModule
  ce_moduleName :: "u8 list"
  ce_function :: WasmFunction
  ce_pretty :: bool
  ce_debug :: bool
  ce_multipleModules :: bool

record WasmCFunctionWriter =
  cw_code :: rd_state
  cw_builder :: StringBuilder
  cw_typeStack :: "WasmValueType WasmTypeStack"
  cw_stackDeclarations :: "u32 WasmTypeStack"
  cw_labelStack :: WasmLabelStack
  cw_indent :: u32
  cw_ignore :: bool
  cw_debugLines :: "WasmDebugLine list"

type_synonym act = "WasmCFunctionWriter \<Rightarrow> (werr, WasmCFunctionWriter) res"

text \<open>A reader or allocating operation whose failure makes the writer return \<^verbatim>\<open>false\<close>.\<close>

definition must ::
    "(unit, 'a) rd \<Rightarrow> ('a \<Rightarrow> WasmCFunctionWriter \<Rightarrow> (werr, 'b) res) \<Rightarrow> WasmCFunctionWriter \<Rightarrow> (werr, 'b) res" where
  "must m k = (\<lambda>w. case m (cw_code w) of
     Val (x, r) \<Rightarrow> k x (w\<lparr>cw_code := r\<rparr>) | Stop _ \<Rightarrow> Stop Failed | Unsafe \<Rightarrow> Unsafe)"

definition must_res :: "(unit, 'a) res \<Rightarrow> ('a \<Rightarrow> act) \<Rightarrow> act" where
  "must_res r k = (case r of Val x \<Rightarrow> k x | Stop _ \<Rightarrow> (\<lambda>_. Stop Failed) | Unsafe \<Rightarrow> (\<lambda>_. Unsafe))"

definition fails :: act where "fails = (\<lambda>_. Stop Failed)"

fun steps :: "act list \<Rightarrow> act" where
  "steps [] = Val"
| "steps (a # as) = (\<lambda>w. res_bind (a w) (steps as))"

definition on_builder :: "(StringBuilder \<Rightarrow> (unit, StringBuilder) rd) \<Rightarrow> act" where
  "on_builder f = (\<lambda>w. must (f (cw_builder w)) (\<lambda>b w. Val (w\<lparr>cw_builder := b\<rparr>)) w)"

text \<open>\<^verbatim>\<open>wasmTypeStackGetTopIndex(writer->typeStack, k)\<close>, whose \<^verbatim>\<open>size_t\<close> difference is asserted to fit in a \<^verbatim>\<open>U32\<close>.\<close>

definition wasmTypeStackGetTopIndex :: "'a WasmTypeStack \<Rightarrow> nat \<Rightarrow> (werr, u32) res" where
  "wasmTypeStackGetTopIndex ts k =
     (if k < ts_length ts \<and> ts_length ts - 1 - k < 2 ^ 32 then Val (of_nat (ts_length ts - 1 - k)) else Stop Aborted)"

definition wasmLabelStackGetTopIndex :: "WasmLabelStack \<Rightarrow> u32 \<Rightarrow> (werr, u32) res" where
  "wasmLabelStackGetTopIndex ls k =
     (let n = length (items (ls_labels ls)) in
      if unat k < n \<and> n - 1 - unat k < 2 ^ 32 then Val (of_nat (n - 1 - unat k)) else Stop Aborted)"

definition top :: "nat \<Rightarrow> (u32 \<Rightarrow> act) \<Rightarrow> act" where
  "top k f = (\<lambda>w. res_bind (wasmTypeStackGetTopIndex (cw_typeStack w) k) (\<lambda>i. f i w))"

text \<open>\<^verbatim>\<open>writer->typeStack->valueTypes[i]\<close>\<close>

definition slot_type :: "u32 \<Rightarrow> (WasmValueType \<Rightarrow> act) \<Rightarrow> act" where
  "slot_type i f = (\<lambda>w. if unat i < length (ts_slots (cw_typeStack w))
     then f (ts_slots (cw_typeStack w) ! unat i) w else Unsafe)"

definition push_type :: "cenv \<Rightarrow> WasmValueType \<Rightarrow> act" where
  "push_type env t = (\<lambda>w. must (wasmTypeStackAppend (ce_al env) t (cw_typeStack w))
     (\<lambda>ts w. Val (w\<lparr>cw_typeStack := ts\<rparr>)) w)"

definition drop_types :: "nat \<Rightarrow> act" where
  "drop_types n = (\<lambda>w. Val (w\<lparr>cw_typeStack := wasmTypeStackDrop wasmValueTypeI32 n (cw_typeStack w)\<rparr>))"

definition declare_slot :: "cenv \<Rightarrow> u32 \<Rightarrow> WasmValueType \<Rightarrow> act" where
  "declare_slot env i t = (\<lambda>w. must (wasmTypeStackSet (ce_al env) i t (cw_stackDeclarations w))
     (\<lambda>ts w. Val (w\<lparr>cw_stackDeclarations := ts\<rparr>)) w)"

definition if_written :: "act \<Rightarrow> act" where
  "if_written a = (\<lambda>w. if cw_ignore w then Val w else a w)"

end
