(* ===== verification/C_Names.thy ===== *)
theory C_Names
  imports C_Builder
begin

text \<open>
  The first part of \<^verbatim>\<open>src/w2c2/c.c\<close>: names of locals, globals, memories, tables, data segments, functions,
  stack slots and labels, and the small writers every expression is made of. What goes into the string
  builder is an action of the writer, what goes into a file is the text itself (write errors are ignored by
  the code).
\<close>

section \<open>Constants\<close>

fun valueTypeNames :: "WasmValueType \<Rightarrow> string" where
  "valueTypeNames wasmValueTypeI32 = ''U32''"
| "valueTypeNames wasmValueTypeI64 = ''U64''"
| "valueTypeNames wasmValueTypeF32 = ''F32''"
| "valueTypeNames wasmValueTypeF64 = ''F64''"

text \<open>Arrays of two entries: a floating-point type indexes past their end.\<close>

fun signedTypeNames :: "WasmValueType \<Rightarrow> string option" where
  "signedTypeNames wasmValueTypeI32 = Some ''I32''"
| "signedTypeNames wasmValueTypeI64 = Some ''I64''"
| "signedTypeNames _ = None"

fun shiftMaskStrings :: "WasmValueType \<Rightarrow> string option" where
  "shiftMaskStrings wasmValueTypeI32 = Some ''31''"
| "shiftMaskStrings wasmValueTypeI64 = Some ''63''"
| "shiftMaskStrings _ = None"

fun valueTypeStackNames :: "WasmValueType \<Rightarrow> char" where
  "valueTypeStackNames wasmValueTypeI32 = CHR ''i''"
| "valueTypeStackNames wasmValueTypeI64 = CHR ''j''"
| "valueTypeStackNames wasmValueTypeF32 = CHR ''f''"
| "valueTypeStackNames wasmValueTypeF64 = CHR ''d''"

definition nl :: string where "nl = [CHR 0x0A]"
definition dquote :: string where "dquote = [CHR 0x22]"

text \<open>The bytes of a C string as characters.\<close>

definition chars :: "u8 list \<Rightarrow> string" where
  "chars bs = map (\<lambda>b. char_of (unat b)) bs"

section \<open>Small writers\<close>

definition wasmCWrite :: "cenv \<Rightarrow> string \<Rightarrow> act" where
  "wasmCWrite env s = on_builder (stringBuilderAppend (ce_al env) s)"

definition wasmCWriteChar :: "cenv \<Rightarrow> char \<Rightarrow> act" where
  "wasmCWriteChar env c = on_builder (stringBuilderAppendChar (ce_al env) c)"

definition write_u32 :: "cenv \<Rightarrow> u32 \<Rightarrow> act" where
  "write_u32 env v = on_builder (stringBuilderAppendU32 (ce_al env) v)"

definition pretty_or :: "cenv \<Rightarrow> string \<Rightarrow> string \<Rightarrow> act" where
  "pretty_or env s t = wasmCWrite env (if ce_pretty env then s else t)"

definition wasmCWriteIndent :: "cenv \<Rightarrow> act" where
  "wasmCWriteIndent env =
     (if ce_pretty env then (\<lambda>w. steps (replicate (unat (cw_indent w) + 1) (wasmCWrite env ''  '')) w) else Val)"

definition wasmCWriteAssign :: "cenv \<Rightarrow> act" where
  "wasmCWriteAssign env = (if ce_pretty env then wasmCWrite env '' = '' else wasmCWriteChar env CHR ''='')"

definition wasmCWriteComma :: "cenv \<Rightarrow> act" where
  "wasmCWriteComma env = (if ce_pretty env then wasmCWrite env '', '' else wasmCWriteChar env CHR '','')"

definition wasmCWritePlus :: "cenv \<Rightarrow> act" where
  "wasmCWritePlus env = (if ce_pretty env then wasmCWrite env '' + '' else wasmCWriteChar env CHR ''+'')"

section \<open>Escaped names\<close>

definition is_alnum :: "u8 \<Rightarrow> bool" where
  "is_alnum c \<longleftrightarrow> (48 \<le> unat c \<and> unat c \<le> 57) \<or> (65 \<le> unat c \<and> unat c \<le> 90) \<or> (97 \<le> unat c \<and> unat c \<le> 122)"

text \<open>\<open>prev\<close>: the character before was an underscore.\<close>

fun escape_from :: "bool \<Rightarrow> u8 list \<Rightarrow> string" where
  "escape_from prev [] = []"
| "escape_from prev (c # cs) =
     (if c = 95 then (if prev then ''__'' else ''_'')
      else if c \<noteq> 88 \<and> is_alnum c then [char_of (unat c)]
      else ''X'' @ char_hex c) @ escape_from (c = 95) cs"

definition wasmCWriteFileEscaped :: "u8 list \<Rightarrow> string" where
  "wasmCWriteFileEscaped name = escape_from False name"

fun write_escaped_from :: "cenv \<Rightarrow> bool \<Rightarrow> u8 list \<Rightarrow> act" where
  "write_escaped_from env prev [] = Val"
| "write_escaped_from env prev (c # cs) = steps
     [if c = 95 then (if prev then wasmCWrite env ''__'' else wasmCWriteChar env CHR ''_'')
      else if c \<noteq> 88 \<and> is_alnum c then wasmCWriteChar env (char_of (unat c))
      else steps [wasmCWriteChar env CHR ''X'', on_builder (stringBuilderAppendCharHex (ce_al env) c)],
      write_escaped_from env (c = 95) cs]"

definition wasmCWriteStringEscaped :: "cenv \<Rightarrow> u8 list \<Rightarrow> act" where
  "wasmCWriteStringEscaped env name = write_escaped_from env False name"

definition wasmImportNameSeparator :: string where "wasmImportNameSeparator = ''__''"

definition wasmCWriteFileImportName :: "u8 list \<Rightarrow> u8 list \<Rightarrow> string" where
  "wasmCWriteFileImportName m n = wasmCWriteFileEscaped m @ wasmImportNameSeparator @ wasmCWriteFileEscaped n"

definition write_import_name :: "cenv \<Rightarrow> u8 list \<Rightarrow> u8 list \<Rightarrow> act" where
  "write_import_name env m n = steps
     [wasmCWriteStringEscaped env m, wasmCWrite env wasmImportNameSeparator, wasmCWriteStringEscaped env n]"

section \<open>Names of things\<close>

definition file_u32 :: "u32 \<Rightarrow> string" where "file_u32 v = decimal (unat v)"

definition wasmCWriteFileLocalName :: "u32 \<Rightarrow> string" where
  "wasmCWriteFileLocalName i = ''l'' @ file_u32 i"

definition wasmCWriteFileGlobalNonImportName :: "u32 \<Rightarrow> string" where
  "wasmCWriteFileGlobalNonImportName i = ''g'' @ file_u32 i"

definition wasmCWriteFileGlobalUse :: "WasmModule \<Rightarrow> u32 \<Rightarrow> bool \<Rightarrow> string" where
  "wasmCWriteFileGlobalUse m i ref =
     (if unat i < length (items (globalImports m))
      then let im = items (globalImports m) ! unat i
           in (if \<not> ref then ''(*'' else []) @ ''i->'' @ wasmCWriteFileImportName (gi_module im) (gi_name im)
              @ (if \<not> ref then '')'' else [])
      else (if ref then ''&'' else []) @ ''i->'' @ wasmCWriteFileGlobalNonImportName i)"

definition wasmCWriteStringGlobalUse :: "cenv \<Rightarrow> u32 \<Rightarrow> bool \<Rightarrow> act" where
  "wasmCWriteStringGlobalUse env i ref =
     (let m = ce_module env in
      if unat i < length (items (globalImports m))
      then let im = items (globalImports m) ! unat i
           in steps [if \<not> ref then wasmCWrite env ''(*'' else Val, wasmCWrite env ''i->'',
                write_import_name env (gi_module im) (gi_name im),
                if \<not> ref then wasmCWriteChar env CHR '')'' else Val]
      else steps [if ref then wasmCWriteChar env CHR ''&'' else Val, wasmCWrite env ''i->'',
             wasmCWriteChar env CHR ''g'', write_u32 env i])"

definition wasmCWriteFileMemoryNonImportName :: "u32 \<Rightarrow> string" where
  "wasmCWriteFileMemoryNonImportName i = ''m'' @ file_u32 i"

definition wasmCWriteFileMemoryUse :: "WasmModule \<Rightarrow> u32 \<Rightarrow> string option \<Rightarrow> bool \<Rightarrow> string" where
  "wasmCWriteFileMemoryUse m i variableName ref =
     (if \<not> ref then ''(*'' else []) @ (case variableName of None \<Rightarrow> ''i'' | Some v \<Rightarrow> v) @ ''->''
     @ (if unat i < length (items (memoryImports m))
        then let im = items (memoryImports m) ! unat i in wasmCWriteFileImportName (li_module im) (li_name im)
        else wasmCWriteFileMemoryNonImportName i)
     @ (if \<not> ref then '')'' else [])"

definition wasmCWriteStringMemoryUse :: "cenv \<Rightarrow> u32 \<Rightarrow> bool \<Rightarrow> act" where
  "wasmCWriteStringMemoryUse env i ref =
     (let m = ce_module env in steps
        [if \<not> ref then wasmCWrite env ''(*'' else Val, wasmCWrite env ''i->'',
         if unat i < length (items (memoryImports m))
         then let im = items (memoryImports m) ! unat i in write_import_name env (li_module im) (li_name im)
         else steps [wasmCWriteChar env CHR ''m'', write_u32 env i],
         if \<not> ref then wasmCWriteChar env CHR '')'' else Val])"

definition wasmCWriteFileTableNonImportName :: "u32 \<Rightarrow> string" where
  "wasmCWriteFileTableNonImportName i = ''t'' @ file_u32 i"

definition wasmCWriteFileTableUse :: "WasmModule \<Rightarrow> u32 \<Rightarrow> bool \<Rightarrow> string" where
  "wasmCWriteFileTableUse m i ref =
     (if unat i < length (items (tableImports m))
      then let im = items (tableImports m) ! unat i
           in (if \<not> ref then ''(*'' else []) @ ''i->'' @ wasmCWriteFileImportName (li_module im) (li_name im)
              @ (if \<not> ref then '')'' else [])
      else (if ref then ''&'' else []) @ ''i->'' @ wasmCWriteFileTableNonImportName i)"

definition wasmCWriteStringTableUse :: "cenv \<Rightarrow> u32 \<Rightarrow> bool \<Rightarrow> act" where
  "wasmCWriteStringTableUse env i ref =
     (let m = ce_module env in
      if unat i < length (items (tableImports m))
      then let im = items (tableImports m) ! unat i
           in steps [if \<not> ref then wasmCWrite env ''(*'' else Val, wasmCWrite env ''i->'',
                write_import_name env (li_module im) (li_name im),
                if \<not> ref then wasmCWriteChar env CHR '')'' else Val]
      else steps [if ref then wasmCWriteChar env CHR ''&'' else Val, wasmCWrite env ''i->'',
             wasmCWriteChar env CHR ''t'', write_u32 env i])"

definition wasmCWriteFileDataSegmentName :: "u32 \<Rightarrow> string" where
  "wasmCWriteFileDataSegmentName i = ''d'' @ file_u32 i"

definition wasmCWriteStringDataSegmentName :: "cenv \<Rightarrow> u32 \<Rightarrow> act" where
  "wasmCWriteStringDataSegmentName env i = steps [wasmCWriteChar env CHR ''d'', write_u32 env i]"

definition wasmCWriteFileFunctionNonImportName :: "u32 \<Rightarrow> string" where
  "wasmCWriteFileFunctionNonImportName i = ''f'' @ file_u32 i"

definition wasmCWriteFileFunctionUse :: "WasmModule \<Rightarrow> u8 list \<Rightarrow> u32 \<Rightarrow> bool \<Rightarrow> bool \<Rightarrow> string" where
  "wasmCWriteFileFunctionUse m moduleName i ref pre =
     (if ref then ''&'' else []) @ (if pre then chars moduleName @ ''_'' else [])
     @ (if unat i < length (items (functionImports m))
        then let im = items (functionImports m) ! unat i in wasmCWriteFileImportName (fi_module im) (fi_name im)
        else wasmCWriteFileFunctionNonImportName i)"

definition wasmCWriteStringFunctionUse :: "cenv \<Rightarrow> u32 \<Rightarrow> bool \<Rightarrow> bool \<Rightarrow> act" where
  "wasmCWriteStringFunctionUse env i ref pre =
     (let m = ce_module env in steps
        [if ref then wasmCWriteChar env CHR ''&'' else Val,
         if pre then steps [wasmCWrite env (chars (ce_moduleName env)), wasmCWriteChar env CHR ''_''] else Val,
         if unat i < length (items (functionImports m))
         then let im = items (functionImports m) ! unat i in write_import_name env (fi_module im) (fi_name im)
         else steps [wasmCWriteChar env CHR ''f'', write_u32 env i]])"

definition wasmCWriteFileStackName :: "u32 \<Rightarrow> WasmValueType \<Rightarrow> string" where
  "wasmCWriteFileStackName i t = ''s'' @ [valueTypeStackNames t] @ file_u32 i"

definition wasmCWriteStringStackName :: "cenv \<Rightarrow> u32 \<Rightarrow> WasmValueType \<Rightarrow> act" where
  "wasmCWriteStringStackName env i t = steps
     [wasmCWriteChar env CHR ''s'', wasmCWriteChar env (valueTypeStackNames t), write_u32 env i]"

text \<open>\<^verbatim>\<open>wasmCWriteStringStackName(builder, i, typeStack->valueTypes[i])\<close>\<close>

definition write_slot :: "cenv \<Rightarrow> u32 \<Rightarrow> act" where
  "write_slot env i = slot_type i (wasmCWriteStringStackName env i)"

definition wasmCWriteStringLocalName :: "cenv \<Rightarrow> u32 \<Rightarrow> act" where
  "wasmCWriteStringLocalName env i = steps [wasmCWriteChar env CHR ''l'', write_u32 env i]"

definition wasmCWriteStringLabelName :: "cenv \<Rightarrow> u32 \<Rightarrow> act" where
  "wasmCWriteStringLabelName env i = steps [wasmCWriteChar env CHR ''L'', write_u32 env i]"

text \<open>More than one result aborts.\<close>

definition wasmCGetReturnType :: "WasmFunctionType \<Rightarrow> (werr, string) res" where
  "wasmCGetReturnType ft = (case resultTypes ft of
     [] \<Rightarrow> Val ''void'' | [t] \<Rightarrow> Val (valueTypeNames t) | _ \<Rightarrow> Stop Aborted)"

section \<open>Literals\<close>

definition append_i32 :: "cenv \<Rightarrow> u32 \<Rightarrow> act" where
  "append_i32 env v = on_builder (stringBuilderAppendI32 (ce_al env) v)"

definition append_i64 :: "cenv \<Rightarrow> u64 \<Rightarrow> act" where
  "append_i64 env v = on_builder (stringBuilderAppendI64 (ce_al env) v)"

definition f32_bits :: "cenv \<Rightarrow> u32 \<Rightarrow> act" where
  "f32_bits env v = steps [wasmCWrite env ''f32_reinterpret_i32(0x'',
     on_builder (stringBuilderAppendU32Hex (ce_al env) v), wasmCWriteChar env CHR '')'']"

definition f64_bits :: "cenv \<Rightarrow> u64 \<Rightarrow> act" where
  "f64_bits env v = steps [wasmCWrite env ''f64_reinterpret_i64(0x'',
     on_builder (stringBuilderAppendU64Hex (ce_al env) v), wasmCWriteChar env CHR '')'']"

text \<open>
  The low and the high half of the union's 8 bytes are the value's; a 32-bit value leaves the rest unset,
  so the reader's constant for a 64-bit type always is the wide one.
\<close>

definition wasmCWriteLiteral :: "cenv \<Rightarrow> WasmValueType \<Rightarrow> WasmValue \<Rightarrow> act" where
  "wasmCWriteLiteral env t v = (case (t, v) of
     (wasmValueTypeI32, Value32 x) \<Rightarrow> steps [append_i32 env x, wasmCWriteChar env CHR ''U'']
   | (wasmValueTypeI64, Value64 x) \<Rightarrow> steps [wasmCWrite env ''W2C2_LL('', append_i64 env x, wasmCWrite env ''U)'']
   | (wasmValueTypeF32, Value32 x) \<Rightarrow>
       if x AND 0x7F800000 = 0x7F800000
       then if x AND 0x7FFFFF = 0
            then steps [if x AND 0x80000000 \<noteq> 0 then wasmCWriteChar env CHR ''-'' else Val, wasmCWrite env ''INFINITY'']
            else f32_bits env x
       else f32_bits env x
   | (wasmValueTypeF64, Value64 x) \<Rightarrow>
       if x AND 0x7FF0000000000000 = 0x7FF0000000000000
       then if x AND 0x7FFFFF = 0
            then steps [if x AND 0x8000000000000000 \<noteq> 0 then wasmCWriteChar env CHR ''-'' else Val, wasmCWrite env ''INFINITY'']
            else f64_bits env x
       else f64_bits env x
   | _ \<Rightarrow> (\<lambda>_. Unsafe))"

end
