(* ===== verification/C_Expr.thy ===== *)
theory C_Expr
  imports C_Names
begin

text \<open>
  The expression writers of \<^verbatim>\<open>src/w2c2/c.c\<close>: each reads its instruction's operands, and unless the code is
  unreachable writes one C statement over the stack slots and keeps the two type stacks.
\<close>

section \<open>Calls\<close>

text \<open>
  Slots \<open>n - 1 - k\<close> below the top are the arguments in order; \<open>skip\<close> more slots lie above them.
\<close>

fun write_arguments :: "cenv \<Rightarrow> nat \<Rightarrow> WasmValueType list \<Rightarrow> act" where
  "write_arguments env skip [] = Val"
| "write_arguments env skip (t # ts) = steps
     [top (length ts + skip) (\<lambda>i. steps [wasmCWriteComma env, wasmCWriteStringStackName env i t]),
      write_arguments env skip ts]"

fun push_types :: "cenv \<Rightarrow> WasmValueType list \<Rightarrow> act" where
  "push_types env [] = Val"
| "push_types env (t # ts) = steps [push_type env t, push_types env ts]"

text \<open>\<^verbatim>\<open>assertSizeU32(length) - parameterCount\<close> in \<^verbatim>\<open>U32\<close> arithmetic.\<close>

definition assertSizeU32 :: "nat \<Rightarrow> (werr, u32) res" where
  "assertSizeU32 n = (if n < 2 ^ 32 then Val (of_nat n) else Stop Aborted)"

definition write_result_slot :: "cenv \<Rightarrow> nat \<Rightarrow> WasmFunctionType \<Rightarrow> act" where
  "write_result_slot env skip ft = (case resultTypes ft of
     [] \<Rightarrow> Val
   | t # _ \<Rightarrow> (\<lambda>w.
       if ts_length (cw_typeStack w) < skip then Stop Aborted
       else res_bind (assertSizeU32 (ts_length (cw_typeStack w) - skip)) (\<lambda>n.
         let i = n - of_nat (length (parameterTypes ft))
         in steps [declare_slot env i t, wasmCWriteStringStackName env i t, wasmCWriteAssign env] w)))"

definition wasmCWriteCallExpr :: "cenv \<Rightarrow> act" where
  "wasmCWriteCallExpr env =
     must wasmCallInstructionRead (\<lambda>funcIndex. if_written
       (must_res (wasmModuleGetFunctionType (ce_module env) funcIndex) (\<lambda>ft. steps
         [wasmCWriteIndent env, write_result_slot env 0 ft,
          wasmCWriteStringFunctionUse env funcIndex False (ce_multipleModules env),
          wasmCWrite env ''(i'', write_arguments env 0 (parameterTypes ft), wasmCWrite env ('');'' @ nl),
          drop_types (length (parameterTypes ft)), push_types env (resultTypes ft)])))"

definition wasmCWriteParameters :: "cenv \<Rightarrow> WasmFunctionType \<Rightarrow> act" where
  "wasmCWriteParameters env ft = steps
     [wasmCWriteChar env CHR ''('', wasmCWrite env (chars (ce_moduleName env)), wasmCWrite env ''Instance*'',
      steps (map (\<lambda>t. steps [wasmCWriteComma env, wasmCWrite env (valueTypeNames t)]) (parameterTypes ft)),
      wasmCWriteChar env CHR '')'']"

text \<open>The first structurally equal type.\<close>

definition same_type :: "WasmFunctionType \<Rightarrow> WasmFunctionType \<Rightarrow> bool" where
  "same_type u t \<longleftrightarrow> length (parameterTypes u) = length (parameterTypes t)
     \<and> length (resultTypes u) = length (resultTypes t)
     \<and> list_all2 (\<lambda>a b. a = b) (parameterTypes u) (parameterTypes t)
     \<and> list_all2 (\<lambda>a b. a = b) (resultTypes u) (resultTypes t)"

definition wasmCanonicalFunctionTypeIndex :: "WasmModule \<Rightarrow> u32 \<Rightarrow> (unit, u32) res" where
  "wasmCanonicalFunctionTypeIndex m i =
     res_bind (at (functionTypes m) (unat i)) (\<lambda>t.
     Val (case find (\<lambda>j. same_type (functionTypes m ! j) t) [0..<unat i] of None \<Rightarrow> i | Some j \<Rightarrow> of_nat j))"

definition wasmCanonicalFunctionTypeIndexOfFunction :: "WasmModule \<Rightarrow> u32 \<Rightarrow> (unit, u32) res" where
  "wasmCanonicalFunctionTypeIndexOfFunction m i =
     (let n = of_nat (length (items (functionImports m))) in
      if i < n
      then res_bind (at (items (functionImports m)) (unat i)) (\<lambda>f. wasmCanonicalFunctionTypeIndex m (fi_functionTypeIndex f))
      else res_bind (at (m_functions m) (unat (i - n))) (\<lambda>f. wasmCanonicalFunctionTypeIndex m (functionTypeIndex f)))"

definition aborting :: "(werr, 'a) res \<Rightarrow> ('a \<Rightarrow> act) \<Rightarrow> act" where
  "aborting r k = (\<lambda>w. res_bind r (\<lambda>x. k x w))"

definition wasmCWriteCallIndirectExpr :: "cenv \<Rightarrow> act" where
  "wasmCWriteCallIndirectExpr env =
     must wasmCallIndirectInstructionRead (\<lambda>(typeIndex, tableIndex). if_written
       (must_res (at (functionTypes (ce_module env)) (unat typeIndex)) (\<lambda>ft. steps
         [wasmCWriteIndent env, write_result_slot env 1 ft,
          wasmCWrite env ''TF('', wasmCWriteStringTableUse env tableIndex False, wasmCWriteComma env,
          top 0 (write_slot env), wasmCWriteComma env,
          must_res (wasmCanonicalFunctionTypeIndex (ce_module env) typeIndex) (write_u32 env),
          wasmCWriteChar env CHR ''U'', wasmCWriteComma env,
          aborting (wasmCGetReturnType ft) (wasmCWrite env), wasmCWrite env '' (*)'', wasmCWriteParameters env ft,
          wasmCWrite env '')(i'', write_arguments env 1 (parameterTypes ft), wasmCWrite env ('');'' @ nl),
          drop_types (length (parameterTypes ft) + 1), push_types env (resultTypes ft)])))"

section \<open>Variables\<close>

definition wasmCWriteLocalGetExpr :: "cenv \<Rightarrow> act" where
  "wasmCWriteLocalGetExpr env =
     must wasmLocalInstructionRead (\<lambda>localIndex. if_written
       (must_res (wasmModuleFunctionGetLocalType (ce_module env) (ce_function env) localIndex) (\<lambda>t. steps
         [push_type env t,
          top 0 (\<lambda>i. steps [declare_slot env i t, wasmCWriteIndent env, wasmCWriteStringStackName env i t,
            wasmCWriteAssign env, wasmCWriteStringLocalName env localIndex, wasmCWrite env ('';'' @ nl)])])))"

definition wasmCWriteLocalAssignmentExpr :: "cenv \<Rightarrow> nat \<Rightarrow> act" where
  "wasmCWriteLocalAssignmentExpr env opcode =
     must wasmLocalInstructionRead (\<lambda>localIndex. if_written
       (must_res (wasmModuleFunctionGetLocalType (ce_module env) (ce_function env) localIndex) (\<lambda>t. steps
         [top 0 (\<lambda>i. steps [declare_slot env i t, wasmCWriteIndent env, wasmCWriteStringLocalName env localIndex,
            wasmCWriteAssign env, wasmCWriteStringStackName env i t, wasmCWrite env ('';'' @ nl)]),
          if opcode = wasmOpcodeLocalSet then drop_types 1 else Val])))"

definition wasmCWriteGlobalGetExpr :: "cenv \<Rightarrow> act" where
  "wasmCWriteGlobalGetExpr env =
     must wasmGlobalInstructionRead (\<lambda>globalIndex. if_written
       (must_res (wasmModuleGetGlobalType (ce_module env) globalIndex) (\<lambda>t. steps
         [push_type env t,
          top 0 (\<lambda>i. steps [declare_slot env i t, wasmCWriteIndent env, wasmCWriteStringStackName env i t,
            wasmCWriteAssign env, wasmCWriteStringGlobalUse env globalIndex False, wasmCWrite env ('';'' @ nl)])])))"

definition wasmCWriteGlobalSetExpr :: "cenv \<Rightarrow> act" where
  "wasmCWriteGlobalSetExpr env =
     must wasmGlobalInstructionRead (\<lambda>globalIndex. if_written
       (must_res (wasmModuleGetGlobalType (ce_module env) globalIndex) (\<lambda>t. steps
         [top 0 (\<lambda>i. steps [declare_slot env i t, wasmCWriteIndent env, wasmCWriteStringGlobalUse env globalIndex False,
            wasmCWriteAssign env, wasmCWriteStringStackName env i t, wasmCWrite env ('';'' @ nl)]),
          drop_types 1])))"

text \<open>\<open>wasmOpcodeResultType\<close> of an opcode it does not list aborts.\<close>

definition result_type :: "nat \<Rightarrow> (werr, WasmValueType) res" where
  "result_type opcode = (case wasmOpcodeResultType opcode of None \<Rightarrow> Stop Aborted | Some t \<Rightarrow> Val t)"

definition parameter1_type :: "nat \<Rightarrow> (werr, WasmValueType) res" where
  "parameter1_type opcode = (case wasmOpcodeParameter1Type opcode of None \<Rightarrow> Stop Aborted | Some t \<Rightarrow> Val t)"

definition wasmCWriteConstExpr :: "cenv \<Rightarrow> nat \<Rightarrow> act" where
  "wasmCWriteConstExpr env opcode =
     must (wasmConstInstructionRead opcode) (\<lambda>v. if_written
       (aborting (result_type opcode) (\<lambda>t. steps
         [push_type env t,
          top 0 (\<lambda>i. steps [declare_slot env i t, wasmCWriteIndent env, wasmCWriteStringStackName env i t,
            wasmCWriteAssign env, wasmCWriteLiteral env t v, wasmCWrite env ('';'' @ nl)])])))"

section \<open>Memory\<close>

text \<open>The address is written as a 32-bit sum.\<close>

definition write_offset :: "cenv \<Rightarrow> u32 \<Rightarrow> act" where
  "write_offset env offset =
     (if offset \<noteq> 0 then steps [wasmCWritePlus env, write_u32 env offset, wasmCWriteChar env CHR ''U''] else Val)"

definition wasmCWriteLoad :: "cenv \<Rightarrow> u32 \<Rightarrow> string \<Rightarrow> WasmValueType \<Rightarrow> act" where
  "wasmCWriteLoad env offset functionName t =
     top 0 (\<lambda>i. steps
       [declare_slot env i t, wasmCWriteIndent env, wasmCWriteStringStackName env i t, wasmCWriteAssign env,
        wasmCWrite env functionName, wasmCWriteChar env CHR ''('', wasmCWriteStringMemoryUse env 0 True,
        wasmCWriteComma env, write_slot env i, write_offset env offset, wasmCWrite env ('');'' @ nl),
        drop_types 1, push_type env t])"

definition load_functions :: "nat \<Rightarrow> (WasmValueType \<times> string) option" where
  "load_functions opcode = switch
     [([wasmOpcodeI32Load], (wasmValueTypeI32, ''i32_load'')), ([wasmOpcodeI64Load], (wasmValueTypeI64, ''i64_load'')),
      ([wasmOpcodeF32Load], (wasmValueTypeF32, ''f32_load'')), ([wasmOpcodeF64Load], (wasmValueTypeF64, ''f64_load'')),
      ([wasmOpcodeI32Load8S], (wasmValueTypeI32, ''i32_load8_s'')), ([wasmOpcodeI64Load8S], (wasmValueTypeI64, ''i64_load8_s'')),
      ([wasmOpcodeI32Load8U], (wasmValueTypeI32, ''i32_load8_u'')), ([wasmOpcodeI64Load8U], (wasmValueTypeI64, ''i64_load8_u'')),
      ([wasmOpcodeI32Load16S], (wasmValueTypeI32, ''i32_load16_s'')), ([wasmOpcodeI64Load16S], (wasmValueTypeI64, ''i64_load16_s'')),
      ([wasmOpcodeI32Load16U], (wasmValueTypeI32, ''i32_load16_u'')), ([wasmOpcodeI64Load16U], (wasmValueTypeI64, ''i64_load16_u'')),
      ([wasmOpcodeI64Load32S], (wasmValueTypeI64, ''i64_load32_s'')), ([wasmOpcodeI64Load32U], (wasmValueTypeI64, ''i64_load32_u''))] opcode"

definition wasmCWriteLoadExpr :: "cenv \<Rightarrow> nat \<Rightarrow> act" where
  "wasmCWriteLoadExpr env opcode =
     must wasmMemoryArgumentInstructionRead (\<lambda>(align, offset). if_written
       (case load_functions opcode of None \<Rightarrow> fails | Some (t, f) \<Rightarrow> wasmCWriteLoad env offset f t))"

definition wasmCWriteStore :: "cenv \<Rightarrow> u32 \<Rightarrow> string \<Rightarrow> act" where
  "wasmCWriteStore env offset functionName =
     top 0 (\<lambda>i0. top 1 (\<lambda>i1. steps
       [wasmCWriteIndent env, wasmCWrite env functionName, wasmCWriteChar env CHR ''('',
        wasmCWriteStringMemoryUse env 0 True, wasmCWriteComma env, write_slot env i1, write_offset env offset,
        wasmCWriteComma env, write_slot env i0, wasmCWrite env ('');'' @ nl), drop_types 2]))"

definition store_functions :: "nat \<Rightarrow> string option" where
  "store_functions opcode = switch
     [([wasmOpcodeI32Store], ''i32_store''), ([wasmOpcodeI64Store], ''i64_store''), ([wasmOpcodeF32Store], ''f32_store''),
      ([wasmOpcodeF64Store], ''f64_store''), ([wasmOpcodeI32Store8], ''i32_store8''), ([wasmOpcodeI64Store8], ''i64_store8''),
      ([wasmOpcodeI32Store16], ''i32_store16''), ([wasmOpcodeI64Store16], ''i64_store16''),
      ([wasmOpcodeI64Store32], ''i64_store32'')] opcode"

definition wasmCWriteStoreExpr :: "cenv \<Rightarrow> nat \<Rightarrow> act" where
  "wasmCWriteStoreExpr env opcode =
     must wasmMemoryArgumentInstructionRead (\<lambda>(align, offset). if_written
       (case store_functions opcode of None \<Rightarrow> fails | Some f \<Rightarrow> wasmCWriteStore env offset f))"

definition wasmCWriteMemorySizeExpr :: "cenv \<Rightarrow> act" where
  "wasmCWriteMemorySizeExpr env =
     must wasmMemoryInstructionRead (\<lambda>memoryIndex.
       if memoryIndex \<noteq> 0 then fails
       else if_written (steps
         [push_type env wasmValueTypeI32,
          top 0 (\<lambda>i. steps [declare_slot env i wasmValueTypeI32, wasmCWriteIndent env,
            wasmCWriteStringStackName env i wasmValueTypeI32, wasmCWriteAssign env,
            wasmCWriteStringMemoryUse env memoryIndex False, wasmCWrite env (''.pages;'' @ nl)])]))"

definition wasmCWriteMemoryGrowExpr :: "cenv \<Rightarrow> act" where
  "wasmCWriteMemoryGrowExpr env =
     must wasmMemoryInstructionRead (\<lambda>memoryIndex.
       if memoryIndex \<noteq> 0 then fails
       else if_written (top 0 (\<lambda>i. steps
         [declare_slot env i wasmValueTypeI32, wasmCWriteIndent env, wasmCWriteStringStackName env i wasmValueTypeI32,
          wasmCWriteAssign env, wasmCWrite env ''wasmMemoryGrow('', wasmCWriteStringMemoryUse env memoryIndex True,
          wasmCWriteComma env, write_slot env i, wasmCWrite env ('');'' @ nl)])))"

definition wasmCWriteMemoryInitExpr :: "cenv \<Rightarrow> act" where
  "wasmCWriteMemoryInitExpr env =
     must wasmMemoryInitInstructionRead (\<lambda>(dataSegmentIndex, memoryIndex). if_written
       (top 0 (\<lambda>i0. top 1 (\<lambda>i1. top 2 (\<lambda>i2. steps
         [wasmCWriteIndent env, wasmCWrite env ''MEMORY_INIT('', wasmCWriteStringMemoryUse env memoryIndex False,
          wasmCWriteComma env, write_slot env i2, wasmCWriteComma env,
          wasmCWriteStringDataSegmentName env dataSegmentIndex, wasmCWriteComma env,
          wasmCWriteStringDataSegmentName env dataSegmentIndex, wasmCWrite env ''_len'', wasmCWriteComma env,
          write_slot env i1, wasmCWriteComma env, write_slot env i0, wasmCWrite env ('');'' @ nl), drop_types 3])))))"

definition wasmCWriteMemoryCopyExpr :: "cenv \<Rightarrow> act" where
  "wasmCWriteMemoryCopyExpr env =
     must wasmMemoryCopyInstructionRead (\<lambda>(memoryIndex1, memoryIndex2).
       if memoryIndex1 \<noteq> 0 then fails else if memoryIndex2 \<noteq> 0 then fails
       else if_written (top 0 (\<lambda>i0. top 1 (\<lambda>i1. top 2 (\<lambda>i2. steps
         [wasmCWriteIndent env, wasmCWrite env ''wasmMemoryCopy('', wasmCWriteStringMemoryUse env memoryIndex1 True,
          wasmCWriteComma env, wasmCWriteStringMemoryUse env memoryIndex2 True, wasmCWriteComma env,
          write_slot env i2, wasmCWriteComma env, write_slot env i1, wasmCWriteComma env, write_slot env i0,
          wasmCWrite env ('');'' @ nl), drop_types 3])))))"

definition wasmCWriteMemoryFillExpr :: "cenv \<Rightarrow> act" where
  "wasmCWriteMemoryFillExpr env =
     must wasmMemoryInstructionRead (\<lambda>memoryIndex.
       if memoryIndex \<noteq> 0 then fails
       else if_written (top 0 (\<lambda>i0. top 1 (\<lambda>i1. top 2 (\<lambda>i2. steps
         [wasmCWriteIndent env, wasmCWrite env ''wasmMemoryFill('', wasmCWriteStringMemoryUse env memoryIndex True,
          wasmCWriteComma env, write_slot env i2, wasmCWriteComma env, write_slot env i1, wasmCWriteComma env,
          write_slot env i0, wasmCWrite env ('');'' @ nl), drop_types 3])))))"

section \<open>Operators\<close>

definition wasmCWriteUnaryExpr :: "cenv \<Rightarrow> WasmValueType \<Rightarrow> string \<Rightarrow> act" where
  "wasmCWriteUnaryExpr env t operator =
     top 0 (\<lambda>i. steps
       [declare_slot env i t, wasmCWriteIndent env, wasmCWriteStringStackName env i t, wasmCWriteAssign env,
        wasmCWrite env operator, wasmCWriteChar env CHR ''('', write_slot env i, wasmCWrite env ('');'' @ nl),
        drop_types 1, push_type env t])"

definition wasmCWriteInfixBinaryExpr :: "cenv \<Rightarrow> WasmValueType \<Rightarrow> string \<Rightarrow> bool \<Rightarrow> act" where
  "wasmCWriteInfixBinaryExpr env t operator assignmentAllowed =
     top 1 (\<lambda>i1. top 0 (\<lambda>i0. steps
       [declare_slot env i1 t, wasmCWriteIndent env, wasmCWriteStringStackName env i1 t,
        if assignmentAllowed
        then steps [if ce_pretty env then wasmCWriteChar env CHR '' '' else Val, wasmCWrite env operator,
               wasmCWriteChar env CHR ''='', if ce_pretty env then wasmCWriteChar env CHR '' '' else Val]
        else steps [wasmCWriteAssign env, write_slot env i1, wasmCWriteChar env CHR '' '', wasmCWrite env operator,
               wasmCWriteChar env CHR '' ''],
        write_slot env i0, wasmCWrite env ('';'' @ nl), drop_types 2, push_type env t]))"

text \<open>The arrays of signed names have two entries: past them is \<open>Unsafe\<close>.\<close>

definition write_entry :: "cenv \<Rightarrow> string option \<Rightarrow> act" where
  "write_entry env name = (case name of None \<Rightarrow> (\<lambda>_. Unsafe) | Some s \<Rightarrow> wasmCWrite env s)"

definition wasmCWriteSignedInfixBinaryExpr :: "cenv \<Rightarrow> nat \<Rightarrow> string \<Rightarrow> act" where
  "wasmCWriteSignedInfixBinaryExpr env opcode operator =
     aborting (result_type opcode) (\<lambda>t. aborting (parameter1_type opcode) (\<lambda>pt.
     top 1 (\<lambda>i1. top 0 (\<lambda>i0. steps
       [declare_slot env i1 t, wasmCWriteIndent env, wasmCWriteStringStackName env i1 t, pretty_or env '' = ('' ''=('',
        wasmCWrite env (valueTypeNames pt), wasmCWrite env '')(('', write_entry env (signedTypeNames pt),
        wasmCWriteChar env CHR '')'', write_slot env i1, if ce_pretty env then wasmCWriteChar env CHR '' '' else Val,
        wasmCWrite env operator, if ce_pretty env then wasmCWrite env '' ('' else wasmCWriteChar env CHR ''('',
        write_entry env (signedTypeNames pt), wasmCWriteChar env CHR '')'', write_slot env i0,
        wasmCWrite env ('');'' @ nl), drop_types 2, push_type env t]))))"

definition wasmCWritePrefixBinaryExpr :: "cenv \<Rightarrow> WasmValueType \<Rightarrow> string \<Rightarrow> act" where
  "wasmCWritePrefixBinaryExpr env t operator =
     top 1 (\<lambda>i1. top 0 (\<lambda>i0. steps
       [declare_slot env i1 t, wasmCWriteIndent env, wasmCWriteStringStackName env i1 t, wasmCWriteAssign env,
        wasmCWrite env operator, wasmCWriteChar env CHR ''('', write_slot env i1, wasmCWriteComma env,
        write_slot env i0, wasmCWrite env ('');'' @ nl), drop_types 2, push_type env t]))"

definition declare_as_is :: "cenv \<Rightarrow> u32 \<Rightarrow> act" where
  "declare_as_is env i = slot_type i (declare_slot env i)"

definition write_shift_count :: "cenv \<Rightarrow> WasmValueType \<Rightarrow> u32 \<Rightarrow> act" where
  "write_shift_count env t i0 = steps
     [write_slot env i0, if ce_pretty env then wasmCWrite env '' & '' else wasmCWriteChar env CHR ''&'',
      write_entry env (shiftMaskStrings t)]"

definition wasmCWriteSignedShiftRightExpr :: "cenv \<Rightarrow> nat \<Rightarrow> act" where
  "wasmCWriteSignedShiftRightExpr env opcode =
     aborting (result_type opcode) (\<lambda>t. top 1 (\<lambda>i1. top 0 (\<lambda>i0. steps
       [declare_as_is env i1, wasmCWriteIndent env, write_slot env i1, pretty_or env '' = ('' ''=('',
        wasmCWrite env (valueTypeNames t), wasmCWrite env '')(('', write_entry env (signedTypeNames t),
        wasmCWriteChar env CHR '')'', write_slot env i1, pretty_or env '' >> ('' ''>>('',
        write_shift_count env t i0, wasmCWrite env (''));'' @ nl), drop_types 1])))"

definition wasmCWriteUnsignedShiftRightExpr :: "cenv \<Rightarrow> nat \<Rightarrow> act" where
  "wasmCWriteUnsignedShiftRightExpr env opcode =
     aborting (result_type opcode) (\<lambda>t. top 1 (\<lambda>i1. top 0 (\<lambda>i0. steps
       [declare_as_is env i1, wasmCWriteIndent env, write_slot env i1, pretty_or env '' >>= ('' ''>>=('',
        write_shift_count env t i0, wasmCWrite env ('');'' @ nl), drop_types 1])))"

definition wasmCWriteShiftLeftExpr :: "cenv \<Rightarrow> nat \<Rightarrow> act" where
  "wasmCWriteShiftLeftExpr env opcode =
     aborting (result_type opcode) (\<lambda>t. top 1 (\<lambda>i1. top 0 (\<lambda>i0. steps
       [declare_as_is env i1, wasmCWriteIndent env, write_slot env i1, pretty_or env '' <<= ('' ''<<=('',
        write_shift_count env t i0, wasmCWrite env ('');'' @ nl), drop_types 1])))"

definition wasmCWriteSelectExpr :: "cenv \<Rightarrow> act" where
  "wasmCWriteSelectExpr env =
     top 0 (\<lambda>i0. top 1 (\<lambda>i1. top 2 (\<lambda>i2. slot_type i1 (\<lambda>t. steps
       [declare_slot env i2 t, wasmCWriteIndent env, wasmCWriteStringStackName env i2 t, wasmCWriteAssign env,
        write_slot env i0, if ce_pretty env then wasmCWrite env '' ? '' else wasmCWriteChar env CHR ''?'',
        write_slot env i2, if ce_pretty env then wasmCWrite env '' : '' else wasmCWriteChar env CHR '':'',
        write_slot env i1, wasmCWrite env ('';'' @ nl), drop_types 3, push_type env t]))))"

end
