(* ===== verification/C_Atomics.thy ===== *)
theory C_Atomics
  imports C_Expr
begin

text \<open>
  The writers of the threads instructions in \<^verbatim>\<open>src/w2c2/c.c\<close>: notify, wait, fence, and the atomic loads,
  stores, read-modify-writes and compare-exchanges, whose tables give the alignment exponent each demands,
  its result type and the runtime function. The runtime of this repository has none of these functions.
\<close>

section \<open>Wait, notify, fence\<close>

text \<open>The offset of the memory argument is read and not used.\<close>

definition wasmCWriteMemoryAtomicNotifyExpr :: "cenv \<Rightarrow> act" where
  "wasmCWriteMemoryAtomicNotifyExpr env =
     must wasmMemoryArgument32InstructionRead (\<lambda>(align, offset). if_written
       (top 0 (\<lambda>i0. top 1 (\<lambda>i1. steps
         [declare_slot env i1 wasmValueTypeI32, wasmCWriteIndent env, wasmCWriteStringStackName env i1 wasmValueTypeI32,
          wasmCWriteAssign env, wasmCWrite env ''wasmMemoryAtomicNotify('', wasmCWriteStringMemoryUse env 0 True,
          wasmCWriteComma env, write_slot env i1, wasmCWriteComma env, write_slot env i0, wasmCWrite env ('');'' @ nl),
          drop_types 2, push_type env wasmValueTypeI32]))))"

definition wasmCWriteMemoryAtomicWaitExpr :: "cenv \<Rightarrow> bool \<Rightarrow> act" where
  "wasmCWriteMemoryAtomicWaitExpr env isWait64 = if_written
     (top 0 (\<lambda>i0. top 1 (\<lambda>i1. top 2 (\<lambda>i2. steps
       [declare_slot env i2 wasmValueTypeI32, wasmCWriteIndent env, wasmCWriteStringStackName env i2 wasmValueTypeI32,
        wasmCWriteAssign env, wasmCWrite env ''wasmMemoryAtomicWait('', wasmCWriteStringMemoryUse env 0 True,
        wasmCWriteComma env, write_slot env i2, wasmCWriteComma env, write_slot env i1, wasmCWriteComma env,
        write_slot env i0, wasmCWriteComma env, wasmCWrite env (if isWait64 then ''true'' else ''false''),
        wasmCWrite env ('');'' @ nl), drop_types 3, push_type env wasmValueTypeI32]))))"

definition wasmCWriteMemoryAtomicWait32Expr :: "cenv \<Rightarrow> act" where
  "wasmCWriteMemoryAtomicWait32Expr env =
     must wasmMemoryArgument32InstructionRead (\<lambda>_. wasmCWriteMemoryAtomicWaitExpr env False)"

definition wasmCWriteMemoryAtomicWait64Expr :: "cenv \<Rightarrow> act" where
  "wasmCWriteMemoryAtomicWait64Expr env =
     must wasmMemoryArgument64InstructionRead (\<lambda>_. wasmCWriteMemoryAtomicWaitExpr env True)"

definition wasmCWriteAtomicFenceExpr :: "cenv \<Rightarrow> act" where
  "wasmCWriteAtomicFenceExpr env =
     must (rd_byte ()) (\<lambda>immediate. if immediate \<noteq> 0 then fails
       else if_written (steps [wasmCWriteIndent env, wasmCWrite env (''atomic_fence();'' @ nl)]))"

section \<open>Loads and stores\<close>

definition atomic_loads :: "nat \<Rightarrow> (u32 \<times> WasmValueType \<times> string) option" where
  "atomic_loads opcode = switch
     [([wasmThreadsOpcodeI32AtomicLoad], (2, wasmValueTypeI32, ''i32_atomic_load'')),
      ([wasmThreadsOpcodeI64AtomicLoad], (3, wasmValueTypeI64, ''i64_atomic_load'')),
      ([wasmThreadsOpcodeI32AtomicLoad8U], (0, wasmValueTypeI32, ''i32_atomic_load8_u'')),
      ([wasmThreadsOpcodeI32AtomicLoad16U], (1, wasmValueTypeI32, ''i32_atomic_load16_u'')),
      ([wasmThreadsOpcodeI64AtomicLoad8U], (0, wasmValueTypeI64, ''i64_atomic_load8_u'')),
      ([wasmThreadsOpcodeI64AtomicLoad16U], (1, wasmValueTypeI64, ''i64_atomic_load16_u'')),
      ([wasmThreadsOpcodeI64AtomicLoad32U], (2, wasmValueTypeI64, ''i64_atomic_load32_u''))] opcode"

definition wasmCWriteAtomicLoadExpr :: "cenv \<Rightarrow> nat \<Rightarrow> act" where
  "wasmCWriteAtomicLoadExpr env opcode =
     must wasmMemoryArgumentInstructionRead (\<lambda>(align, offset). if_written
       (case atomic_loads opcode of None \<Rightarrow> fails
        | Some (expectedAlign, t, f) \<Rightarrow> if align \<noteq> expectedAlign then fails else wasmCWriteLoad env offset f t))"

definition atomic_stores :: "nat \<Rightarrow> (u32 \<times> string) option" where
  "atomic_stores opcode = switch
     [([wasmThreadsOpcodeI32AtomicStore], (2, ''i32_atomic_store'')),
      ([wasmThreadsOpcodeI64AtomicStore], (3, ''i64_atomic_store'')),
      ([wasmThreadsOpcodeI32AtomicStore8], (0, ''i32_atomic_store8'')),
      ([wasmThreadsOpcodeI64AtomicStore8], (0, ''i64_atomic_store8'')),
      ([wasmThreadsOpcodeI32AtomicStore16], (1, ''i32_atomic_store16'')),
      ([wasmThreadsOpcodeI64AtomicStore16], (1, ''i64_atomic_store16'')),
      ([wasmThreadsOpcodeI64AtomicStore32], (2, ''i64_atomic_store32''))] opcode"

definition wasmCWriteAtomicStoreExpr :: "cenv \<Rightarrow> nat \<Rightarrow> act" where
  "wasmCWriteAtomicStoreExpr env opcode =
     must wasmMemoryArgumentInstructionRead (\<lambda>(align, offset). if_written
       (case atomic_stores opcode of None \<Rightarrow> fails
        | Some (expectedAlign, f) \<Rightarrow> if align \<noteq> expectedAlign then fails else wasmCWriteStore env offset f))"

section \<open>Read-modify-write\<close>

definition atomic_rmws :: "nat \<Rightarrow> (u32 \<times> WasmValueType \<times> string) option" where
  "atomic_rmws opcode = switch
     [([wasmThreadsOpcodeI32AtomicRMWAdd], (2, wasmValueTypeI32, ''i32_atomic_rmw_add'')),
      ([wasmThreadsOpcodeI64AtomicRMWAdd], (3, wasmValueTypeI64, ''i64_atomic_rmw_add'')),
      ([wasmThreadsOpcodeI32AtomicRMW8AddU], (0, wasmValueTypeI32, ''i32_atomic_rmw8_add_u'')),
      ([wasmThreadsOpcodeI32AtomicRMW16AddU], (1, wasmValueTypeI32, ''i32_atomic_rmw16_add_u'')),
      ([wasmThreadsOpcodeI64AtomicRMW8AddU], (0, wasmValueTypeI64, ''i64_atomic_rmw8_add_u'')),
      ([wasmThreadsOpcodeI64AtomicRMW16AddU], (1, wasmValueTypeI64, ''i64_atomic_rmw16_add_u'')),
      ([wasmThreadsOpcodeI64AtomicRMW32AddU], (2, wasmValueTypeI64, ''i64_atomic_rmw32_add_u'')),
      ([wasmThreadsOpcodeI32AtomicRMWSub], (2, wasmValueTypeI32, ''i32_atomic_rmw_sub'')),
      ([wasmThreadsOpcodeI64AtomicRMWSub], (3, wasmValueTypeI64, ''i64_atomic_rmw_sub'')),
      ([wasmThreadsOpcodeI32AtomicRMW8SubU], (0, wasmValueTypeI32, ''i32_atomic_rmw8_sub_u'')),
      ([wasmThreadsOpcodeI32AtomicRMW16SubU], (1, wasmValueTypeI32, ''i32_atomic_rmw16_sub_u'')),
      ([wasmThreadsOpcodeI64AtomicRMW8SubU], (0, wasmValueTypeI64, ''i64_atomic_rmw8_sub_u'')),
      ([wasmThreadsOpcodeI64AtomicRMW16SubU], (1, wasmValueTypeI64, ''i64_atomic_rmw16_sub_u'')),
      ([wasmThreadsOpcodeI64AtomicRMW32SubU], (2, wasmValueTypeI64, ''i64_atomic_rmw32_sub_u'')),
      ([wasmThreadsOpcodeI32AtomicRMWAnd], (2, wasmValueTypeI32, ''i32_atomic_rmw_and'')),
      ([wasmThreadsOpcodeI64AtomicRMWAnd], (3, wasmValueTypeI64, ''i64_atomic_rmw_and'')),
      ([wasmThreadsOpcodeI32AtomicRMW8AndU], (0, wasmValueTypeI32, ''i32_atomic_rmw8_and_u'')),
      ([wasmThreadsOpcodeI32AtomicRMW16AndU], (1, wasmValueTypeI32, ''i32_atomic_rmw16_and_u'')),
      ([wasmThreadsOpcodeI64AtomicRMW8AndU], (0, wasmValueTypeI64, ''i64_atomic_rmw8_and_u'')),
      ([wasmThreadsOpcodeI64AtomicRMW16AndU], (1, wasmValueTypeI64, ''i64_atomic_rmw16_and_u'')),
      ([wasmThreadsOpcodeI64AtomicRMW32AndU], (2, wasmValueTypeI64, ''i64_atomic_rmw32_and_u'')),
      ([wasmThreadsOpcodeI32AtomicRMWOr], (2, wasmValueTypeI32, ''i32_atomic_rmw_or'')),
      ([wasmThreadsOpcodeI64AtomicRMWOr], (3, wasmValueTypeI64, ''i64_atomic_rmw_or'')),
      ([wasmThreadsOpcodeI32AtomicRMW8OrU], (0, wasmValueTypeI32, ''i32_atomic_rmw8_or_u'')),
      ([wasmThreadsOpcodeI32AtomicRMW16OrU], (1, wasmValueTypeI32, ''i32_atomic_rmw16_or_u'')),
      ([wasmThreadsOpcodeI64AtomicRMW8OrU], (0, wasmValueTypeI64, ''i64_atomic_rmw8_or_u'')),
      ([wasmThreadsOpcodeI64AtomicRMW16OrU], (1, wasmValueTypeI64, ''i64_atomic_rmw16_or_u'')),
      ([wasmThreadsOpcodeI64AtomicRMW32OrU], (2, wasmValueTypeI64, ''i64_atomic_rmw32_or_u'')),
      ([wasmThreadsOpcodeI32AtomicRMWXor], (2, wasmValueTypeI32, ''i32_atomic_rmw_xor'')),
      ([wasmThreadsOpcodeI64AtomicRMWXor], (3, wasmValueTypeI64, ''i64_atomic_rmw_xor'')),
      ([wasmThreadsOpcodeI32AtomicRMW8XorU], (0, wasmValueTypeI32, ''i32_atomic_rmw8_xor_u'')),
      ([wasmThreadsOpcodeI32AtomicRMW16XorU], (1, wasmValueTypeI32, ''i32_atomic_rmw16_xor_u'')),
      ([wasmThreadsOpcodeI64AtomicRMW8XorU], (0, wasmValueTypeI64, ''i64_atomic_rmw8_xor_u'')),
      ([wasmThreadsOpcodeI64AtomicRMW16XorU], (1, wasmValueTypeI64, ''i64_atomic_rmw16_xor_u'')),
      ([wasmThreadsOpcodeI64AtomicRMW32XorU], (2, wasmValueTypeI64, ''i64_atomic_rmw32_xor_u'')),
      ([wasmThreadsOpcodeI32AtomicRMWXchg], (2, wasmValueTypeI32, ''i32_atomic_rmw_xchg'')),
      ([wasmThreadsOpcodeI64AtomicRMWXchg], (3, wasmValueTypeI64, ''i64_atomic_rmw_xchg'')),
      ([wasmThreadsOpcodeI32AtomicRMW8XchgU], (0, wasmValueTypeI32, ''i32_atomic_rmw8_xchg_u'')),
      ([wasmThreadsOpcodeI32AtomicRMW16XchgU], (1, wasmValueTypeI32, ''i32_atomic_rmw16_xchg_u'')),
      ([wasmThreadsOpcodeI64AtomicRMW8XchgU], (0, wasmValueTypeI64, ''i64_atomic_rmw8_xchg_u'')),
      ([wasmThreadsOpcodeI64AtomicRMW16XchgU], (1, wasmValueTypeI64, ''i64_atomic_rmw16_xchg_u'')),
      ([wasmThreadsOpcodeI64AtomicRMW32XchgU], (2, wasmValueTypeI64, ''i64_atomic_rmw32_xchg_u''))] opcode"

definition wasmCWriteAtomicRMWExpr :: "cenv \<Rightarrow> nat \<Rightarrow> act" where
  "wasmCWriteAtomicRMWExpr env opcode =
     must wasmMemoryArgumentInstructionRead (\<lambda>(align, offset). if_written
       (case atomic_rmws opcode of None \<Rightarrow> fails
        | Some (expectedAlign, t, f) \<Rightarrow> if align \<noteq> expectedAlign then fails
          else top 1 (\<lambda>i1. top 0 (\<lambda>i0. steps
            [declare_slot env i1 t, wasmCWriteIndent env, wasmCWriteStringStackName env i1 t, wasmCWriteAssign env,
             wasmCWrite env f, wasmCWriteChar env CHR ''('', wasmCWriteStringMemoryUse env 0 True, wasmCWriteComma env,
             write_slot env i1, write_offset env offset, wasmCWriteComma env, write_slot env i0,
             wasmCWrite env ('');'' @ nl), drop_types 2, push_type env t]))))"

definition atomic_cmpxchgs :: "nat \<Rightarrow> (u32 \<times> WasmValueType \<times> string) option" where
  "atomic_cmpxchgs opcode = switch
     [([wasmThreadsOpcodeI32AtomicRMWCmpxchg], (2, wasmValueTypeI32, ''i32_atomic_rmw_cmpxchg'')),
      ([wasmThreadsOpcodeI64AtomicRMWCmpxchg], (3, wasmValueTypeI64, ''i64_atomic_rmw_cmpxchg'')),
      ([wasmThreadsOpcodeI32AtomicRMW8CmpxchgU], (0, wasmValueTypeI32, ''i32_atomic_rmw8_cmpxchg_u'')),
      ([wasmThreadsOpcodeI32AtomicRMW16CmpxchgU], (1, wasmValueTypeI32, ''i32_atomic_rmw16_cmpxchg_u'')),
      ([wasmThreadsOpcodeI64AtomicRMW8CmpxchgU], (0, wasmValueTypeI64, ''i64_atomic_rmw8_cmpxchg_u'')),
      ([wasmThreadsOpcodeI64AtomicRMW16CmpxchgU], (1, wasmValueTypeI64, ''i64_atomic_rmw16_cmpxchg_u'')),
      ([wasmThreadsOpcodeI64AtomicRMW32CmpxchgU], (2, wasmValueTypeI64, ''i64_atomic_rmw32_cmpxchg_u''))] opcode"

definition wasmCWriteAtomicRMWCmpxchgExpr :: "cenv \<Rightarrow> nat \<Rightarrow> act" where
  "wasmCWriteAtomicRMWCmpxchgExpr env opcode =
     must wasmMemoryArgumentInstructionRead (\<lambda>(align, offset). if_written
       (case atomic_cmpxchgs opcode of None \<Rightarrow> fails
        | Some (expectedAlign, t, f) \<Rightarrow> if align \<noteq> expectedAlign then fails
          else top 2 (\<lambda>i2. top 1 (\<lambda>i1. top 0 (\<lambda>i0. steps
            [declare_slot env i2 t, wasmCWriteIndent env, wasmCWriteStringStackName env i2 t, wasmCWriteAssign env,
             wasmCWrite env f, wasmCWriteChar env CHR ''('', wasmCWriteStringMemoryUse env 0 True, wasmCWriteComma env,
             write_slot env i2, write_offset env offset, wasmCWriteComma env, write_slot env i1, wasmCWriteComma env,
             write_slot env i0, wasmCWrite env ('');'' @ nl), drop_types 3, push_type env t])))))"

end
