(* ===== verification/C_Function.thy ===== *)
theory C_Function
  imports C_Atomics
begin

text \<open>
  Function bodies in \<^verbatim>\<open>src/w2c2/c.c\<close>: branches and blocks, the dispatch over the opcodes, the declarations of
  locals and stack slots, the return, and the loop over the functions of a file. Blocks nest: the writer of
  a block calls the writer of code, which here has fuel; every call reads an opcode, so as much fuel as
  there are bytes is enough.
\<close>

section \<open>Labels and branches\<close>

definition wasmCWriteLabel :: "cenv \<Rightarrow> u32 \<Rightarrow> act" where
  "wasmCWriteLabel env labelIndex = steps
     [wasmCWriteIndent env, wasmCWriteStringLabelName env labelIndex, wasmCWrite env ('':;'' @ nl)]"

definition wasmCWriteGoto :: "cenv \<Rightarrow> u32 \<Rightarrow> act" where
  "wasmCWriteGoto env labelStackIndex = (\<lambda>w.
     if length (items (ls_labels (cw_labelStack w))) \<le> unat labelStackIndex then Unsafe
     else let label = items (ls_labels (cw_labelStack w)) ! unat labelStackIndex
     in steps
       [wasmCWriteIndent env,
        (case lb_type label of
           None \<Rightarrow> Val
         | Some t \<Rightarrow> top 0 (\<lambda>i0. aborting (assertSizeU32 (lb_typeStackLength label)) (\<lambda>i.
             if i \<noteq> i0
             then steps [declare_slot env i t, wasmCWriteStringStackName env i t, wasmCWriteAssign env, write_slot env i0,
                    if ce_pretty env then wasmCWrite env ''; '' else wasmCWriteChar env CHR '';'']
             else Val))),
        wasmCWrite env ''goto '', wasmCWriteStringLabelName env (lb_index label), wasmCWrite env ('';'' @ nl)] w)"

definition goto_label :: "cenv \<Rightarrow> u32 \<Rightarrow> act" where
  "goto_label env k = (\<lambda>w. res_bind (wasmLabelStackGetTopIndex (cw_labelStack w) k) (\<lambda>i. wasmCWriteGoto env i w))"

definition wasmCWriteBranchExpr :: "cenv \<Rightarrow> act" where
  "wasmCWriteBranchExpr env = must wasmBranchInstructionRead (\<lambda>labelIndex. if_written (goto_label env labelIndex))"

definition indent_more :: act where "indent_more = (\<lambda>w. Val (w\<lparr>cw_indent := cw_indent w + 1\<rparr>))"
definition indent_less :: act where "indent_less = (\<lambda>w. Val (w\<lparr>cw_indent := cw_indent w - 1\<rparr>))"

definition wasmCWriteBranchIfExpr :: "cenv \<Rightarrow> act" where
  "wasmCWriteBranchIfExpr env =
     must wasmBranchInstructionRead (\<lambda>labelIndex. if_written (top 0 (\<lambda>i0. steps
       [wasmCWriteIndent env, pretty_or env ''if ('' ''if('', write_slot env i0,
        pretty_or env ('') {'' @ nl) (''){'' @ nl), indent_more, drop_types 1, goto_label env labelIndex, indent_less,
        wasmCWriteIndent env, wasmCWrite env (''}'' @ nl)])))"

fun write_cases :: "cenv \<Rightarrow> nat \<Rightarrow> u32 list \<Rightarrow> act" where
  "write_cases env k [] = Val"
| "write_cases env k (l # ls) = steps
     [wasmCWriteIndent env, wasmCWrite env ''case '', write_u32 env (of_nat k), wasmCWrite env ('':'' @ nl),
      indent_more, goto_label env l, indent_less, write_cases env (k + 1) ls]"

definition wasmCWriteBranchTableExpr :: "cenv \<Rightarrow> act" where
  "wasmCWriteBranchTableExpr env =
     must (wasmBranchTableInstructionRead (ce_al env)) (\<lambda>(labelIndices, defaultLabelIndex). if_written (top 0 (\<lambda>i0. steps
       [wasmCWriteIndent env, pretty_or env ''switch ('' ''switch('', write_slot env i0,
        pretty_or env ('') {'' @ nl) (''){'' @ nl), drop_types 1, write_cases env 0 labelIndices,
        wasmCWriteIndent env, wasmCWrite env (''default:'' @ nl), indent_more, goto_label env defaultLabelIndex,
        indent_less, wasmCWriteIndent env, wasmCWrite env (''}'' @ nl)])))"

section \<open>Blocks\<close>

text \<open>
  \<open>rec\<close> writes the code up to the next \<^verbatim>\<open>else\<close> or \<^verbatim>\<open>end\<close> of the same depth; it takes the last opcode read and
  gives the new one.
\<close>

type_synonym code_writer = "nat \<Rightarrow> WasmCFunctionWriter \<Rightarrow> (werr, nat \<times> WasmCFunctionWriter) res"

definition set_ignore :: "bool \<Rightarrow> act" where "set_ignore b = (\<lambda>w. Val (w\<lparr>cw_ignore := b\<rparr>))"

definition set_length :: "nat \<Rightarrow> act" where
  "set_length n = (\<lambda>w. Val (w\<lparr>cw_typeStack := (cw_typeStack w)\<lparr>ts_length := n\<rparr>\<rparr>))"

definition pop_label :: act where
  "pop_label = (\<lambda>w. Val (w\<lparr>cw_labelStack := wasmLabelStackPop (cw_labelStack w)\<rparr>))"

definition push_label ::
    "cenv \<Rightarrow> WasmValueType option \<Rightarrow> WasmCFunctionWriter \<Rightarrow> (werr, (WasmLabel \<times> nat) \<times> WasmCFunctionWriter) res" where
  "push_label env t = (\<lambda>w.
     let n = ts_length (cw_typeStack w)
     in must (wasmLabelStackPush (ce_al env) n t (cw_labelStack w)) (\<lambda>(l, ls) w. Val ((l, n), w\<lparr>cw_labelStack := ls\<rparr>)) w)"

definition push_block_type :: "cenv \<Rightarrow> WasmValueType option \<Rightarrow> act" where
  "push_block_type env bt = (case bt of None \<Rightarrow> Val | Some t \<Rightarrow> push_type env t)"

text \<open>The start and the end of a block, which write nothing in unreachable code.\<close>

definition if_start :: "cenv \<Rightarrow> WasmValueType option \<Rightarrow> WasmCFunctionWriter
    \<Rightarrow> (werr, (WasmLabel \<times> nat) \<times> WasmCFunctionWriter) res" where
  "if_start env bt = (\<lambda>w. res_bind
     (steps [wasmCWriteIndent env, pretty_or env ''if ('' ''if('', top 0 (write_slot env),
        pretty_or env ('') {'' @ nl) (''){'' @ nl), drop_types 1] w) (\<lambda>w.
     res_bind (push_label env bt w) (\<lambda>(x, w). res_bind (indent_more w) (\<lambda>w. Val (x, w)))))"

definition close_branch :: "cenv \<Rightarrow> act" where
  "close_branch env = steps [set_ignore False, indent_less, wasmCWriteIndent env, wasmCWriteChar env CHR ''}'']"

definition block_end :: "cenv \<Rightarrow> WasmValueType option \<Rightarrow> nat \<Rightarrow> act" where
  "block_end env bt base = steps [set_length base, pop_label, push_block_type env bt]"

definition unless :: "bool \<Rightarrow> act \<Rightarrow> act" where
  "unless ignore a = (if ignore then Val else a)"

definition opened :: "bool \<Rightarrow> (WasmCFunctionWriter \<Rightarrow> (werr, (WasmLabel \<times> nat) \<times> WasmCFunctionWriter) res) \<Rightarrow>
    WasmCFunctionWriter \<Rightarrow> (werr, (WasmLabel \<times> nat) \<times> WasmCFunctionWriter) res" where
  "opened ignore a = (if ignore
     then (\<lambda>w. Val ((\<lparr>lb_index = 0, lb_typeStackLength = 0, lb_type = None\<rparr>, 0), w)) else a)"

definition wasmCWriteIfExpr :: "cenv \<Rightarrow> code_writer \<Rightarrow> code_writer" where
  "wasmCWriteIfExpr env rec opcode = must wasmReadBlockType (\<lambda>bt w.
     let ignore = cw_ignore w in
     res_bind (opened ignore (if_start env bt) w) (\<lambda>((label, base), w).
     res_bind (rec opcode w) (\<lambda>(opcode, w).
     res_bind (unless ignore (close_branch env) w) (\<lambda>w.
     res_bind (if opcode = wasmOpcodeElse
       then res_bind (unless ignore (steps
              [set_length base, pretty_or env ('' else {'' @ nl) (''else{'' @ nl), indent_more]) w) (\<lambda>w.
            res_bind (rec opcode w) (\<lambda>(opcode, w).
            res_bind (unless ignore (close_branch env) w) (\<lambda>w. Val (opcode, w))))
       else Val (opcode, w)) (\<lambda>(opcode, w).
     res_bind (unless ignore (steps
       [wasmCWrite env nl, wasmCWriteLabel env (lb_index label), block_end env bt base]) w) (\<lambda>w. Val (opcode, w)))))))"

definition block_start :: "cenv \<Rightarrow> WasmValueType option \<Rightarrow> WasmCFunctionWriter
    \<Rightarrow> (werr, (WasmLabel \<times> nat) \<times> WasmCFunctionWriter) res" where
  "block_start env bt = (\<lambda>w.
     res_bind (push_label env bt w) (\<lambda>(x, w).
     res_bind (if ce_pretty env then steps [wasmCWriteIndent env, wasmCWrite env (''{'' @ nl), indent_more] w else Val w)
       (\<lambda>w. Val (x, w))))"

definition wasmCWriteBlockExpr :: "cenv \<Rightarrow> code_writer \<Rightarrow> code_writer" where
  "wasmCWriteBlockExpr env rec opcode = must wasmReadBlockType (\<lambda>bt w.
     let ignore = cw_ignore w in
     res_bind (opened ignore (block_start env bt) w) (\<lambda>((label, base), w).
     res_bind (rec opcode w) (\<lambda>(opcode, w).
     res_bind (unless ignore (steps
       [set_ignore False,
        if ce_pretty env then steps [indent_less, wasmCWriteIndent env, wasmCWrite env (''}'' @ nl)] else Val,
        wasmCWriteLabel env (lb_index label), block_end env bt base]) w) (\<lambda>w. Val (opcode, w)))))"

text \<open>A branch to a loop carries no value.\<close>

definition loop_start :: "cenv \<Rightarrow> WasmCFunctionWriter \<Rightarrow> (werr, (WasmLabel \<times> nat) \<times> WasmCFunctionWriter) res" where
  "loop_start env = (\<lambda>w.
     res_bind (push_label env None w) (\<lambda>((label, base), w).
     res_bind (steps [wasmCWriteLabel env (lb_index label), wasmCWrite env (''W2C2_LOOP_START'' @ nl),
       wasmCWriteIndent env, wasmCWrite env (''{'' @ nl), indent_more] w) (\<lambda>w. Val ((label, base), w))))"

definition wasmCWriteLoopExpr :: "cenv \<Rightarrow> code_writer \<Rightarrow> code_writer" where
  "wasmCWriteLoopExpr env rec opcode = must wasmReadBlockType (\<lambda>bt w.
     let ignore = cw_ignore w in
     res_bind (opened ignore (loop_start env) w) (\<lambda>((label, base), w).
     res_bind (rec opcode w) (\<lambda>(opcode, w).
     res_bind (unless ignore (steps
       [set_ignore False, indent_less, wasmCWriteIndent env, wasmCWrite env (''}'' @ nl), block_end env bt base]) w)
       (\<lambda>w. Val (opcode, w)))))"

section \<open>Debug lines\<close>

definition wasmCGetDebugLine :: "WasmDebugLine list \<Rightarrow> nat \<Rightarrow> WasmDebugLine option \<times> WasmDebugLine list" where
  "wasmCGetDebugLine lines absoluteAddress =
     (case lines of
        [] \<Rightarrow> (None, [])
      | l # rest \<Rightarrow>
          let lines = (case rest of [] \<Rightarrow> lines | l' # _ \<Rightarrow> if absoluteAddress \<ge> dl_address l' then rest else lines)
          in (if absoluteAddress < dl_address (hd lines) then None else Some (hd lines), lines))"

definition wasmCWriteDebugLine :: "cenv \<Rightarrow> WasmDebugLine \<Rightarrow> act" where
  "wasmCWriteDebugLine env l = steps
     [wasmCWrite env ''#line '', on_builder (stringBuilderAppendU64 (ce_al env) (dl_number l)),
      wasmCWrite env ('' '' @ dquote), wasmCWrite env (chars (dl_path l)), wasmCWrite env (dquote @ nl)]"

definition write_debug_line :: "cenv \<Rightarrow> act" where
  "write_debug_line env = (\<lambda>w.
     if ce_debug env
     then let relativeAddress = length (code (ce_function env)) - length (rd_buffer (cw_code w));
              (line, lines) = wasmCGetDebugLine (cw_debugLines w) (code_start (ce_function env) + relativeAddress);
              w = w\<lparr>cw_debugLines := lines\<rparr>
          in (case line of None \<Rightarrow> Val w | Some l \<Rightarrow> wasmCWriteDebugLine env l w)
     else Val w)"

section \<open>The dispatch over opcodes\<close>

text \<open>The numeric operators, in the order of the switch, in four parts.\<close>

definition comparison_writers :: "(nat list \<times> (cenv \<Rightarrow> nat \<Rightarrow> act)) list" where
  "comparison_writers =
     [([wasmOpcodeI32Eq, wasmOpcodeI64Eq, wasmOpcodeF32Eq, wasmOpcodeF64Eq], \<lambda>env op. wasmCWriteInfixBinaryExpr env wasmValueTypeI32 ''=='' False),
      ([wasmOpcodeI32Ne, wasmOpcodeI64Ne, wasmOpcodeF32Ne, wasmOpcodeF64Ne], \<lambda>env op. wasmCWriteInfixBinaryExpr env wasmValueTypeI32 ''!='' False),
      ([wasmOpcodeI32LtS, wasmOpcodeI64LtS], \<lambda>env op. wasmCWriteSignedInfixBinaryExpr env op ''<''),
      ([wasmOpcodeI32LtU, wasmOpcodeI64LtU, wasmOpcodeF32Lt, wasmOpcodeF64Lt], \<lambda>env op. wasmCWriteInfixBinaryExpr env wasmValueTypeI32 ''<'' False),
      ([wasmOpcodeI32LeS, wasmOpcodeI64LeS], \<lambda>env op. wasmCWriteSignedInfixBinaryExpr env op ''<=''),
      ([wasmOpcodeI32LeU, wasmOpcodeI64LeU, wasmOpcodeF32Le, wasmOpcodeF64Le], \<lambda>env op. wasmCWriteInfixBinaryExpr env wasmValueTypeI32 ''<='' False),
      ([wasmOpcodeI32GtS, wasmOpcodeI64GtS], \<lambda>env op. wasmCWriteSignedInfixBinaryExpr env op ''>''),
      ([wasmOpcodeI32GtU, wasmOpcodeI64GtU, wasmOpcodeF32Gt, wasmOpcodeF64Gt], \<lambda>env op. wasmCWriteInfixBinaryExpr env wasmValueTypeI32 ''>'' False),
      ([wasmOpcodeI32GeS, wasmOpcodeI64GeS], \<lambda>env op. wasmCWriteSignedInfixBinaryExpr env op ''>=''),
      ([wasmOpcodeI32GeU, wasmOpcodeI64GeU, wasmOpcodeF32Ge, wasmOpcodeF64Ge], \<lambda>env op. wasmCWriteInfixBinaryExpr env wasmValueTypeI32 ''>='' False)]"

definition arithmetic_writers :: "(nat list \<times> (cenv \<Rightarrow> nat \<Rightarrow> act)) list" where
  "arithmetic_writers =
     [([wasmOpcodeI32Add], \<lambda>env op. wasmCWriteInfixBinaryExpr env wasmValueTypeI32 ''+'' True),
      ([wasmOpcodeI64Add], \<lambda>env op. wasmCWriteInfixBinaryExpr env wasmValueTypeI64 ''+'' True),
      ([wasmOpcodeF32Add], \<lambda>env op. wasmCWriteInfixBinaryExpr env wasmValueTypeF32 ''+'' True),
      ([wasmOpcodeF64Add], \<lambda>env op. wasmCWriteInfixBinaryExpr env wasmValueTypeF64 ''+'' True),
      ([wasmOpcodeI32Sub], \<lambda>env op. wasmCWriteInfixBinaryExpr env wasmValueTypeI32 ''-'' True),
      ([wasmOpcodeI64Sub], \<lambda>env op. wasmCWriteInfixBinaryExpr env wasmValueTypeI64 ''-'' True),
      ([wasmOpcodeF32Sub], \<lambda>env op. wasmCWriteInfixBinaryExpr env wasmValueTypeF32 ''-'' True),
      ([wasmOpcodeF64Sub], \<lambda>env op. wasmCWriteInfixBinaryExpr env wasmValueTypeF64 ''-'' True),
      ([wasmOpcodeI32Mul], \<lambda>env op. wasmCWriteInfixBinaryExpr env wasmValueTypeI32 ''*'' True),
      ([wasmOpcodeI64Mul], \<lambda>env op. wasmCWriteInfixBinaryExpr env wasmValueTypeI64 ''*'' True),
      ([wasmOpcodeF32Mul], \<lambda>env op. wasmCWriteInfixBinaryExpr env wasmValueTypeF32 ''*'' True),
      ([wasmOpcodeF64Mul], \<lambda>env op. wasmCWriteInfixBinaryExpr env wasmValueTypeF64 ''*'' True),
      ([wasmOpcodeI32DivS], \<lambda>env op. wasmCWritePrefixBinaryExpr env wasmValueTypeI32 ''I32_DIV_S''),
      ([wasmOpcodeI64DivS], \<lambda>env op. wasmCWritePrefixBinaryExpr env wasmValueTypeI64 ''I64_DIV_S''),
      ([wasmOpcodeI32DivU], \<lambda>env op. wasmCWritePrefixBinaryExpr env wasmValueTypeI32 ''DIV_U''),
      ([wasmOpcodeI64DivU], \<lambda>env op. wasmCWritePrefixBinaryExpr env wasmValueTypeI64 ''DIV_U''),
      ([wasmOpcodeF32Div], \<lambda>env op. wasmCWriteInfixBinaryExpr env wasmValueTypeF32 ''/'' True),
      ([wasmOpcodeF64Div], \<lambda>env op. wasmCWriteInfixBinaryExpr env wasmValueTypeF64 ''/'' True),
      ([wasmOpcodeI32Eqz, wasmOpcodeI64Eqz], \<lambda>env op. wasmCWriteUnaryExpr env wasmValueTypeI32 ''!''),
      ([wasmOpcodeI32And], \<lambda>env op. wasmCWriteInfixBinaryExpr env wasmValueTypeI32 ''&'' True),
      ([wasmOpcodeI64And], \<lambda>env op. wasmCWriteInfixBinaryExpr env wasmValueTypeI64 ''&'' True),
      ([wasmOpcodeI32Or], \<lambda>env op. wasmCWriteInfixBinaryExpr env wasmValueTypeI32 ''|'' True),
      ([wasmOpcodeI64Or], \<lambda>env op. wasmCWriteInfixBinaryExpr env wasmValueTypeI64 ''|'' True),
      ([wasmOpcodeI32Xor], \<lambda>env op. wasmCWriteInfixBinaryExpr env wasmValueTypeI32 ''^'' True),
      ([wasmOpcodeI64Xor], \<lambda>env op. wasmCWriteInfixBinaryExpr env wasmValueTypeI64 ''^'' True),
      ([wasmOpcodeI32RemS], \<lambda>env op. wasmCWritePrefixBinaryExpr env wasmValueTypeI32 ''I32_REM_S''),
      ([wasmOpcodeI64RemS], \<lambda>env op. wasmCWritePrefixBinaryExpr env wasmValueTypeI64 ''I64_REM_S''),
      ([wasmOpcodeI32RemU], \<lambda>env op. wasmCWritePrefixBinaryExpr env wasmValueTypeI32 ''REM_U''),
      ([wasmOpcodeI64RemU], \<lambda>env op. wasmCWritePrefixBinaryExpr env wasmValueTypeI64 ''REM_U'')]"

definition function_writers :: "(nat list \<times> (cenv \<Rightarrow> nat \<Rightarrow> act)) list" where
  "function_writers =
     [([wasmOpcodeI32Clz], \<lambda>env op. wasmCWriteUnaryExpr env wasmValueTypeI32 ''I32_CLZ''),
      ([wasmOpcodeI64Clz], \<lambda>env op. wasmCWriteUnaryExpr env wasmValueTypeI64 ''I64_CLZ''),
      ([wasmOpcodeI32Ctz], \<lambda>env op. wasmCWriteUnaryExpr env wasmValueTypeI32 ''I32_CTZ''),
      ([wasmOpcodeI64Ctz], \<lambda>env op. wasmCWriteUnaryExpr env wasmValueTypeI64 ''I64_CTZ''),
      ([wasmOpcodeI32PopCnt], \<lambda>env op. wasmCWriteUnaryExpr env wasmValueTypeI32 ''I32_POPCNT''),
      ([wasmOpcodeI64PopCnt], \<lambda>env op. wasmCWriteUnaryExpr env wasmValueTypeI64 ''I64_POPCNT''),
      ([wasmOpcodeF32Neg], \<lambda>env op. wasmCWriteUnaryExpr env wasmValueTypeF32 ''-''),
      ([wasmOpcodeF64Neg], \<lambda>env op. wasmCWriteUnaryExpr env wasmValueTypeF64 ''-''),
      ([wasmOpcodeF32Abs], \<lambda>env op. wasmCWriteUnaryExpr env wasmValueTypeF32 ''fabsf''),
      ([wasmOpcodeF64Abs], \<lambda>env op. wasmCWriteUnaryExpr env wasmValueTypeF64 ''fabs''),
      ([wasmOpcodeF32Sqrt], \<lambda>env op. wasmCWriteUnaryExpr env wasmValueTypeF32 ''sqrtf''),
      ([wasmOpcodeF64Sqrt], \<lambda>env op. wasmCWriteUnaryExpr env wasmValueTypeF64 ''sqrt''),
      ([wasmOpcodeF32Ceil], \<lambda>env op. wasmCWriteUnaryExpr env wasmValueTypeF32 ''ceilf''),
      ([wasmOpcodeF64Ceil], \<lambda>env op. wasmCWriteUnaryExpr env wasmValueTypeF64 ''ceil''),
      ([wasmOpcodeF32Floor], \<lambda>env op. wasmCWriteUnaryExpr env wasmValueTypeF32 ''floorf''),
      ([wasmOpcodeF64Floor], \<lambda>env op. wasmCWriteUnaryExpr env wasmValueTypeF64 ''floor''),
      ([wasmOpcodeF32Trunc], \<lambda>env op. wasmCWriteUnaryExpr env wasmValueTypeF32 ''truncf''),
      ([wasmOpcodeF64Trunc], \<lambda>env op. wasmCWriteUnaryExpr env wasmValueTypeF64 ''trunc''),
      ([wasmOpcodeF32Nearest], \<lambda>env op. wasmCWriteUnaryExpr env wasmValueTypeF32 ''nearbyintf''),
      ([wasmOpcodeF64Nearest], \<lambda>env op. wasmCWriteUnaryExpr env wasmValueTypeF64 ''nearbyint''),
      ([wasmOpcodeI32Extend8S], \<lambda>env op. wasmCWriteUnaryExpr env wasmValueTypeI32 ''(U32)(U32)(I8)(U8)''),
      ([wasmOpcodeI32Extend16S], \<lambda>env op. wasmCWriteUnaryExpr env wasmValueTypeI32 ''(U32)(I32)(I16)(U16)''),
      ([wasmOpcodeI64Extend8S], \<lambda>env op. wasmCWriteUnaryExpr env wasmValueTypeI64 ''(U64)(I64)(I8)(U8)''),
      ([wasmOpcodeI64Extend16S], \<lambda>env op. wasmCWriteUnaryExpr env wasmValueTypeI64 ''(U64)(I64)(I16)(U16)''),
      ([wasmOpcodeI64Extend32S], \<lambda>env op. wasmCWriteUnaryExpr env wasmValueTypeI64 ''(U64)(I64)(I32)(U32)''),
      ([wasmOpcodeI32Shl, wasmOpcodeI64Shl], \<lambda>env op. wasmCWriteShiftLeftExpr env op),
      ([wasmOpcodeI32ShrS, wasmOpcodeI64ShrS], \<lambda>env op. wasmCWriteSignedShiftRightExpr env op),
      ([wasmOpcodeI32ShrU, wasmOpcodeI64ShrU], \<lambda>env op. wasmCWriteUnsignedShiftRightExpr env op),
      ([wasmOpcodeI32Rotl], \<lambda>env op. wasmCWritePrefixBinaryExpr env wasmValueTypeI32 ''I32_ROTL''),
      ([wasmOpcodeI64Rotl], \<lambda>env op. wasmCWritePrefixBinaryExpr env wasmValueTypeI64 ''I64_ROTL''),
      ([wasmOpcodeI32Rotr], \<lambda>env op. wasmCWritePrefixBinaryExpr env wasmValueTypeI32 ''I32_ROTR''),
      ([wasmOpcodeI64Rotr], \<lambda>env op. wasmCWritePrefixBinaryExpr env wasmValueTypeI64 ''I64_ROTR''),
      ([wasmOpcodeF32Min], \<lambda>env op. wasmCWritePrefixBinaryExpr env wasmValueTypeF32 ''FMIN''),
      ([wasmOpcodeF64Min], \<lambda>env op. wasmCWritePrefixBinaryExpr env wasmValueTypeF64 ''FMIN''),
      ([wasmOpcodeF32Max], \<lambda>env op. wasmCWritePrefixBinaryExpr env wasmValueTypeF32 ''FMAX''),
      ([wasmOpcodeF64Max], \<lambda>env op. wasmCWritePrefixBinaryExpr env wasmValueTypeF64 ''FMAX''),
      ([wasmOpcodeF32CopySign], \<lambda>env op. wasmCWritePrefixBinaryExpr env wasmValueTypeF32 ''copysignf''),
      ([wasmOpcodeF64CopySign], \<lambda>env op. wasmCWritePrefixBinaryExpr env wasmValueTypeF64 ''copysign'')]"

definition conversion_writers :: "(nat list \<times> (cenv \<Rightarrow> nat \<Rightarrow> act)) list" where
  "conversion_writers =
     [([wasmOpcodeI64ExtendI32S], \<lambda>env op. wasmCWriteUnaryExpr env wasmValueTypeI64 ''(U64)(I64)(I32)''),
      ([wasmOpcodeI64ExtendI32U], \<lambda>env op. wasmCWriteUnaryExpr env wasmValueTypeI64 ''(U64)''),
      ([wasmOpcodeI32WrapI64], \<lambda>env op. wasmCWriteUnaryExpr env wasmValueTypeI32 ''(U32)''),
      ([wasmOpcodeI32TruncF32S], \<lambda>env op. wasmCWriteUnaryExpr env wasmValueTypeI32 ''I32_TRUNC_S_F32''),
      ([wasmOpcodeI64TruncF32S], \<lambda>env op. wasmCWriteUnaryExpr env wasmValueTypeI64 ''I64_TRUNC_S_F32''),
      ([wasmOpcodeI32TruncF64S], \<lambda>env op. wasmCWriteUnaryExpr env wasmValueTypeI32 ''I32_TRUNC_S_F64''),
      ([wasmOpcodeI64TruncF64S], \<lambda>env op. wasmCWriteUnaryExpr env wasmValueTypeI64 ''I64_TRUNC_S_F64''),
      ([wasmOpcodeI32TruncF32U], \<lambda>env op. wasmCWriteUnaryExpr env wasmValueTypeI32 ''I32_TRUNC_U_F32''),
      ([wasmOpcodeI64TruncF32U], \<lambda>env op. wasmCWriteUnaryExpr env wasmValueTypeI64 ''I64_TRUNC_U_F32''),
      ([wasmOpcodeI32TruncF64U], \<lambda>env op. wasmCWriteUnaryExpr env wasmValueTypeI32 ''I32_TRUNC_U_F64''),
      ([wasmOpcodeI64TruncF64U], \<lambda>env op. wasmCWriteUnaryExpr env wasmValueTypeI64 ''I64_TRUNC_U_F64''),
      ([wasmOpcodeF32ConvertI32S], \<lambda>env op. wasmCWriteUnaryExpr env wasmValueTypeF32 ''(F32)(I32)''),
      ([wasmOpcodeF32ConvertI64S], \<lambda>env op. wasmCWriteUnaryExpr env wasmValueTypeF32 ''(F32)(I64)''),
      ([wasmOpcodeF32ConvertI32U, wasmOpcodeF32DemoteF64], \<lambda>env op. wasmCWriteUnaryExpr env wasmValueTypeF32 ''(F32)''),
      ([wasmOpcodeF32ConvertI64U], \<lambda>env op. wasmCWriteUnaryExpr env wasmValueTypeF32 ''(F32)''),
      ([wasmOpcodeF64ConvertI32S], \<lambda>env op. wasmCWriteUnaryExpr env wasmValueTypeF64 ''(F64)(I32)''),
      ([wasmOpcodeF64ConvertI64S], \<lambda>env op. wasmCWriteUnaryExpr env wasmValueTypeF64 ''(F64)(I64)''),
      ([wasmOpcodeF64ConvertI32U, wasmOpcodeF64PromoteF32], \<lambda>env op. wasmCWriteUnaryExpr env wasmValueTypeF64 ''(F64)''),
      ([wasmOpcodeF64ConvertI64U], \<lambda>env op. wasmCWriteUnaryExpr env wasmValueTypeF64 ''(F64)''),
      ([wasmOpcodeF32ReinterpretI32], \<lambda>env op. wasmCWriteUnaryExpr env wasmValueTypeF32 ''f32_reinterpret_i32''),
      ([wasmOpcodeI32ReinterpretF32], \<lambda>env op. wasmCWriteUnaryExpr env wasmValueTypeI32 ''i32_reinterpret_f32''),
      ([wasmOpcodeF64ReinterpretI64], \<lambda>env op. wasmCWriteUnaryExpr env wasmValueTypeF64 ''f64_reinterpret_i64''),
      ([wasmOpcodeI64ReinterpretF64], \<lambda>env op. wasmCWriteUnaryExpr env wasmValueTypeI64 ''i64_reinterpret_f64'')]"

definition operators :: "nat \<Rightarrow> (cenv \<Rightarrow> nat \<Rightarrow> act) option" where
  "operators = switch (comparison_writers @ arithmetic_writers @ function_writers @ conversion_writers)"

definition threads_writers :: "nat \<Rightarrow> (cenv \<Rightarrow> nat \<Rightarrow> act) option" where
  "threads_writers opcode = switch
     [([wasmThreadsOpcodeMemoryAtomicNotify],
       \<lambda>env op. wasmCWriteMemoryAtomicNotifyExpr env),
      ([wasmThreadsOpcodeMemoryAtomicWait32],
       \<lambda>env op. wasmCWriteMemoryAtomicWait32Expr env),
      ([wasmThreadsOpcodeMemoryAtomicWait64],
       \<lambda>env op. wasmCWriteMemoryAtomicWait64Expr env),
      ([wasmThreadsOpcodeAtomicFence],
       \<lambda>env op. wasmCWriteAtomicFenceExpr env),
      ([wasmThreadsOpcodeI32AtomicLoad, wasmThreadsOpcodeI64AtomicLoad, wasmThreadsOpcodeI32AtomicLoad8U,
        wasmThreadsOpcodeI32AtomicLoad16U, wasmThreadsOpcodeI64AtomicLoad8U, wasmThreadsOpcodeI64AtomicLoad16U,
        wasmThreadsOpcodeI64AtomicLoad32U],
       \<lambda>env op. wasmCWriteAtomicLoadExpr env op),
      ([wasmThreadsOpcodeI32AtomicStore, wasmThreadsOpcodeI64AtomicStore, wasmThreadsOpcodeI32AtomicStore8,
        wasmThreadsOpcodeI32AtomicStore16, wasmThreadsOpcodeI64AtomicStore8, wasmThreadsOpcodeI64AtomicStore16,
        wasmThreadsOpcodeI64AtomicStore32],
       \<lambda>env op. wasmCWriteAtomicStoreExpr env op),
      ([wasmThreadsOpcodeI32AtomicRMWAdd, wasmThreadsOpcodeI64AtomicRMWAdd, wasmThreadsOpcodeI32AtomicRMW8AddU,
        wasmThreadsOpcodeI32AtomicRMW16AddU, wasmThreadsOpcodeI64AtomicRMW8AddU,
        wasmThreadsOpcodeI64AtomicRMW16AddU, wasmThreadsOpcodeI64AtomicRMW32AddU,
        wasmThreadsOpcodeI32AtomicRMWSub, wasmThreadsOpcodeI64AtomicRMWSub, wasmThreadsOpcodeI32AtomicRMW8SubU,
        wasmThreadsOpcodeI32AtomicRMW16SubU, wasmThreadsOpcodeI64AtomicRMW8SubU,
        wasmThreadsOpcodeI64AtomicRMW16SubU, wasmThreadsOpcodeI64AtomicRMW32SubU,
        wasmThreadsOpcodeI32AtomicRMWAnd, wasmThreadsOpcodeI64AtomicRMWAnd, wasmThreadsOpcodeI32AtomicRMW8AndU,
        wasmThreadsOpcodeI32AtomicRMW16AndU, wasmThreadsOpcodeI64AtomicRMW8AndU,
        wasmThreadsOpcodeI64AtomicRMW16AndU, wasmThreadsOpcodeI64AtomicRMW32AndU,
        wasmThreadsOpcodeI32AtomicRMWOr, wasmThreadsOpcodeI64AtomicRMWOr, wasmThreadsOpcodeI32AtomicRMW8OrU,
        wasmThreadsOpcodeI32AtomicRMW16OrU, wasmThreadsOpcodeI64AtomicRMW8OrU,
        wasmThreadsOpcodeI64AtomicRMW16OrU, wasmThreadsOpcodeI64AtomicRMW32OrU,
        wasmThreadsOpcodeI32AtomicRMWXor, wasmThreadsOpcodeI64AtomicRMWXor, wasmThreadsOpcodeI32AtomicRMW8XorU,
        wasmThreadsOpcodeI32AtomicRMW16XorU, wasmThreadsOpcodeI64AtomicRMW8XorU,
        wasmThreadsOpcodeI64AtomicRMW16XorU, wasmThreadsOpcodeI64AtomicRMW32XorU,
        wasmThreadsOpcodeI32AtomicRMWXchg, wasmThreadsOpcodeI64AtomicRMWXchg,
        wasmThreadsOpcodeI32AtomicRMW8XchgU, wasmThreadsOpcodeI32AtomicRMW16XchgU,
        wasmThreadsOpcodeI64AtomicRMW8XchgU, wasmThreadsOpcodeI64AtomicRMW16XchgU,
        wasmThreadsOpcodeI64AtomicRMW32XchgU],
       \<lambda>env op. wasmCWriteAtomicRMWExpr env op),
      ([wasmThreadsOpcodeI32AtomicRMWCmpxchg, wasmThreadsOpcodeI64AtomicRMWCmpxchg,
        wasmThreadsOpcodeI32AtomicRMW8CmpxchgU, wasmThreadsOpcodeI32AtomicRMW16CmpxchgU,
        wasmThreadsOpcodeI64AtomicRMW8CmpxchgU, wasmThreadsOpcodeI64AtomicRMW16CmpxchgU,
        wasmThreadsOpcodeI64AtomicRMW32CmpxchgU],
       \<lambda>env op. wasmCWriteAtomicRMWCmpxchgExpr env op)] opcode"

definition trunc_sats :: "nat \<Rightarrow> (WasmValueType \<times> string) option" where
  "trunc_sats opcode = switch
     [([wasmMiscOpcodeI32TruncSatF32S], (wasmValueTypeI32, ''I32_TRUNC_SAT_S_F32'')),
      ([wasmMiscOpcodeI64TruncSatF32S], (wasmValueTypeI64, ''I64_TRUNC_SAT_S_F32'')),
      ([wasmMiscOpcodeI32TruncSatF64S], (wasmValueTypeI32, ''I32_TRUNC_SAT_S_F64'')),
      ([wasmMiscOpcodeI64TruncSatF64S], (wasmValueTypeI64, ''I64_TRUNC_SAT_S_F64'')),
      ([wasmMiscOpcodeI32TruncSatF32U], (wasmValueTypeI32, ''I32_TRUNC_SAT_U_F32'')),
      ([wasmMiscOpcodeI64TruncSatF32U], (wasmValueTypeI64, ''I64_TRUNC_SAT_U_F32'')),
      ([wasmMiscOpcodeI32TruncSatF64U], (wasmValueTypeI32, ''I32_TRUNC_SAT_U_F64'')),
      ([wasmMiscOpcodeI64TruncSatF64U], (wasmValueTypeI64, ''I64_TRUNC_SAT_U_F64''))] opcode"

text \<open>A threads opcode the switch does not list is skipped.\<close>

definition write_threads :: "cenv \<Rightarrow> act" where
  "write_threads env = must (rd_u32 ()) (\<lambda>op. case threads_writers (unat op) of None \<Rightarrow> Val | Some f \<Rightarrow> f env (unat op))"

text \<open>The unimplemented table instructions read their operands, complain and go on.\<close>

definition misc_instruction :: "cenv \<Rightarrow> nat \<Rightarrow> act" where
  "misc_instruction env op =
     (if op = wasmMiscOpcodeMemoryInit then wasmCWriteMemoryInitExpr env
     else if op = wasmMiscOpcodeDataDrop then
       must (rd_u32 ()) (\<lambda>dataIndex. if_written (steps
         [wasmCWriteIndent env, wasmCWriteStringDataSegmentName env dataIndex, wasmCWrite env (''_len=0;'' @ nl)]))
     else if op = wasmMiscOpcodeMemoryCopy then wasmCWriteMemoryCopyExpr env
     else if op = wasmMiscOpcodeMemoryFill then wasmCWriteMemoryFillExpr env
     else if op = wasmMiscOpcodeTableInit \<or> op = wasmMiscOpcodeTableCopy then must (rd_u32 ()) (\<lambda>_. must (rd_u32 ()) (\<lambda>_. Val))
     else if op = wasmMiscOpcodeElemDrop \<or> op = wasmMiscOpcodeTableGrow \<or> op = wasmMiscOpcodeTableSize
       \<or> op = wasmMiscOpcodeTableFill then must (rd_u32 ()) (\<lambda>_. Val)
     else if_written (case trunc_sats op of None \<Rightarrow> fails | Some (t, f) \<Rightarrow> wasmCWriteUnaryExpr env t f))"

definition write_misc :: "cenv \<Rightarrow> act" where
  "write_misc env = must (rd_u32 ()) (\<lambda>miscOpcode. misc_instruction env (unat miscOpcode))"

text \<open>The innermost switch, for code that is reachable.\<close>

definition write_operator :: "cenv \<Rightarrow> nat \<Rightarrow> act" where
  "write_operator env op =
     (if op = wasmOpcodeDrop then drop_types 1
      else if op = wasmOpcodeUnreachable then
        steps [wasmCWriteIndent env, wasmCWrite env (''UNREACHABLE;'' @ nl), set_ignore True]
      else if op = wasmOpcodeSelect then wasmCWriteSelectExpr env
      else if op = wasmOpcodeReturn then steps [wasmCWriteGoto env 0, set_ignore True]
      else case operators op of None \<Rightarrow> fails | Some f \<Rightarrow> f env op)"

text \<open>Every instruction that is not a block, an \<^verbatim>\<open>else\<close> or an \<^verbatim>\<open>end\<close>.\<close>

definition write_instruction :: "cenv \<Rightarrow> nat \<Rightarrow> act" where
  "write_instruction env op =
     (if op = wasmOpcodeNop then Val
      else if op = wasmOpcodeCall then wasmCWriteCallExpr env
      else if op = wasmOpcodeCallIndirect then wasmCWriteCallIndirectExpr env
      else if op = wasmOpcodeBr then steps [wasmCWriteBranchExpr env, set_ignore True]
      else if op = wasmOpcodeBrIf then wasmCWriteBranchIfExpr env
      else if op = wasmOpcodeBrTable then steps [wasmCWriteBranchTableExpr env, set_ignore True]
      else if op = wasmOpcodeLocalGet then wasmCWriteLocalGetExpr env
      else if op = wasmOpcodeLocalSet \<or> op = wasmOpcodeLocalTee then wasmCWriteLocalAssignmentExpr env op
      else if op = wasmOpcodeGlobalGet then wasmCWriteGlobalGetExpr env
      else if op = wasmOpcodeGlobalSet then wasmCWriteGlobalSetExpr env
      else if op \<in> {wasmOpcodeI32Const, wasmOpcodeI64Const, wasmOpcodeF32Const, wasmOpcodeF64Const}
        then wasmCWriteConstExpr env op
      else if wasmOpcodeI32Load \<le> op \<and> op \<le> wasmOpcodeI64Load32U then wasmCWriteLoadExpr env op
      else if wasmOpcodeI32Store \<le> op \<and> op \<le> wasmOpcodeI64Store32 then wasmCWriteStoreExpr env op
      else if op = wasmOpcodeMemorySize then wasmCWriteMemorySizeExpr env
      else if op = wasmOpcodeMemoryGrow then wasmCWriteMemoryGrowExpr env
      else if op = wasmOpcodeThreadsPrefix then write_threads env
      else if op = wasmOpcodeMiscPrefix then write_misc env
      else if_written (write_operator env op))"

text \<open>\<open>opcode\<close> is the last one read, kept when the code ends without one.\<close>

primrec wasmCWriteFunctionCode :: "cenv \<Rightarrow> nat \<Rightarrow> code_writer" where
  "wasmCWriteFunctionCode env 0 opcode = (\<lambda>w. Stop OutOfFuel)"
| "wasmCWriteFunctionCode env (Suc fuel) opcode = (\<lambda>w.
     res_bind (write_debug_line env w) (\<lambda>w.
     case wasmOpcodeRead (cw_code w) of
       Stop _ \<Rightarrow> Val (opcode, w)
     | Unsafe \<Rightarrow> Unsafe
     | Val (op, r) \<Rightarrow>
         let w = w\<lparr>cw_code := r\<rparr>; rec = wasmCWriteFunctionCode env fuel;
             block = (\<lambda>write. res_bind (write env rec op w) (\<lambda>(op, w).
               if op = wasmOpcodeElse then Val (op, w) else rec op w))
         in if op = wasmOpcodeElse \<or> op = wasmOpcodeEnd then Val (op, w)
            else if op = wasmOpcodeIf then block wasmCWriteIfExpr
            else if op = wasmOpcodeBlock then block wasmCWriteBlockExpr
            else if op = wasmOpcodeLoop then block wasmCWriteLoopExpr
            else res_bind (write_instruction env op w) (rec op)))"

section \<open>Function bodies\<close>

fun local_declarations :: "bool \<Rightarrow> u32 \<Rightarrow> u32 \<Rightarrow> WasmLocalsDeclaration list \<Rightarrow> string" where
  "local_declarations pretty parameterCount localIndex [] = []"
| "local_declarations pretty parameterCount localIndex (d # ds) =
     (let endIndex = localIndex + ld_count d;
          n = (if localIndex < endIndex then unat (endIndex - localIndex) else 0)
      in concat (map (\<lambda>k. (if pretty then ''  '' else []) @ valueTypeNames (ld_type d) @ '' ''
            @ wasmCWriteFileLocalName (parameterCount + localIndex + of_nat k)
            @ (if pretty then '' = 0;'' else ''=0;'') @ nl) [0..<n])
         @ local_declarations pretty parameterCount (localIndex + of_nat n) ds)"

definition wasmCWriteFileLocalsDeclarations :: "cenv \<Rightarrow> WasmFunctionType \<Rightarrow> string" where
  "wasmCWriteFileLocalsDeclarations env ft =
     local_declarations (ce_pretty env) (of_nat (length (parameterTypes ft))) 0 (localsDeclarations (ce_function env))"

fun join_with :: "string \<Rightarrow> string list \<Rightarrow> string" where
  "join_with sep [] = []"
| "join_with sep [s] = s"
| "join_with sep (s # ss) = s @ sep @ join_with sep ss"

definition wasmCWriteStackDeclarations :: "bool \<Rightarrow> u32 WasmTypeStack \<Rightarrow> string" where
  "wasmCWriteStackDeclarations pretty ts = concat (map (\<lambda>t.
     let is = filter (\<lambda>i. ts_slots ts ! i \<noteq> 0 \<and> wasmTypeStackIsSet ts i t) [0..<ts_length ts]
     in if is = [] then []
        else (if pretty then ''  '' else []) @ valueTypeNames t @ '' ''
           @ join_with (if pretty then '', '' else '','') (map (\<lambda>i. wasmCWriteFileStackName (of_nat i) t) is)
           @ '';'' @ nl)
     [wasmValueTypeI32, wasmValueTypeI64, wasmValueTypeF32, wasmValueTypeF64])"

definition wasmCWriteFunctionReturn :: "cenv \<Rightarrow> WasmFunctionType \<Rightarrow> act" where
  "wasmCWriteFunctionReturn env ft = (case resultTypes ft of
     [] \<Rightarrow> Val
   | t # _ \<Rightarrow> (\<lambda>w.
       if ts_length (cw_stackDeclarations w) > 0
       then steps
         [(\<lambda>w. Val (w\<lparr>cw_typeStack := wasmTypeStackClear wasmValueTypeI32 (cw_typeStack w)\<rparr>)), push_type env t,
          top 0 (\<lambda>i. steps [declare_slot env i t, wasmCWriteIndent env, wasmCWrite env ''return '',
            wasmCWriteStringStackName env i t, wasmCWrite env ('';'' @ nl)])] w
       else Val w))"

text \<open>The stacks are kept from function to function, for their memory.\<close>

record body_state =
  bs_allocs :: nat
  bs_typeStack :: "WasmValueType WasmTypeStack"
  bs_stackDeclarations :: "u32 WasmTypeStack"
  bs_labelStack :: WasmLabelStack
  bs_debugLines :: "WasmDebugLine list"

definition body_writer :: "cenv \<Rightarrow> body_state \<Rightarrow> WasmCFunctionWriter" where
  "body_writer env bs =
     \<lparr>cw_code = \<lparr>rd_buffer = code (ce_function env), rd_allocs = bs_allocs bs\<rparr>, cw_builder = emptyStringBuilder,
      cw_typeStack = bs_typeStack bs, cw_stackDeclarations = bs_stackDeclarations bs,
      cw_labelStack = bs_labelStack bs, cw_indent = 0, cw_ignore = False, cw_debugLines = bs_debugLines bs\<rparr>"

definition body_code :: "cenv \<Rightarrow> WasmFunctionType \<Rightarrow> act" where
  "body_code env ft = (\<lambda>w.
     must (stringBuilderInitialize (ce_al env) (cw_builder w)) (\<lambda>b w.
     let w = w\<lparr>cw_builder := b\<rparr> in
     must (wasmLabelStackPush (ce_al env) 0
         (case resultTypes ft of [] \<Rightarrow> None | t # _ \<Rightarrow> Some t) (cw_labelStack w)) (\<lambda>(label, ls) w.
     res_bind (wasmCWriteFunctionCode env (length (rd_buffer (cw_code w)) + 1) wasmOpcodeUnreachable
         (w\<lparr>cw_labelStack := ls\<rparr>)) (\<lambda>(opcode, w).
     steps [wasmCWriteLabel env (lb_index label), wasmCWriteFunctionReturn env ft] w)) w) w)"

definition wasmCWriteFunctionBody :: "cenv \<Rightarrow> body_state \<Rightarrow> (werr, string \<times> body_state) res" where
  "wasmCWriteFunctionBody env bs =
     (case at (functionTypes (ce_module env)) (unat (functionTypeIndex (ce_function env))) of
        Val ft \<Rightarrow>
          if length (resultTypes ft) > 1 then Stop Failed
          else res_bind (body_code env ft (body_writer env bs)) (\<lambda>w.
            Val (''{'' @ nl @ wasmCWriteFileLocalsDeclarations env ft
                 @ wasmCWriteStackDeclarations (ce_pretty env) (cw_stackDeclarations w)
                 @ sb_string (cw_builder w) @ ''}'' @ nl,
               \<lparr>bs_allocs = rd_allocs (cw_code w), bs_typeStack = cw_typeStack w,
                bs_stackDeclarations = cw_stackDeclarations w, bs_labelStack = cw_labelStack w,
                bs_debugLines = cw_debugLines w\<rparr>))
      | _ \<Rightarrow> Unsafe)"

section \<open>Signatures and files\<close>

definition wasmCWriteFileParameters :: "u8 list \<Rightarrow> WasmFunctionType \<Rightarrow> bool \<Rightarrow> bool \<Rightarrow> bool \<Rightarrow> string" where
  "wasmCWriteFileParameters moduleName ft writeParameterNames voidPointerInstanceType pretty =
     ''('' @ (if voidPointerInstanceType then ''void*'' else chars moduleName @ ''Instance*'')
     @ (if writeParameterNames then (if pretty then '' i'' else ''i'') else [])
     @ concat (map (\<lambda>(k, t). (if pretty then '', '' else '','') @ valueTypeNames t
         @ (if writeParameterNames then '' '' @ wasmCWriteFileLocalName (of_nat k) else []))
         (enumerate 0 (parameterTypes ft))) @ '')''"

definition wasmCWriteFileFunctionSignature ::
    "WasmModule \<Rightarrow> u8 list \<Rightarrow> WasmFunction \<Rightarrow> u32 \<Rightarrow> bool \<Rightarrow> bool \<Rightarrow> bool \<Rightarrow> (werr, string) res" where
  "wasmCWriteFileFunctionSignature m moduleName f functionIndex writeParameterNames pretty pre =
     (case at (functionTypes m) (unat (functionTypeIndex f)) of
        Val ft \<Rightarrow> res_bind (wasmCGetReturnType ft) (\<lambda>rt.
          Val (rt @ '' '' @ (if pre then chars moduleName @ ''_'' else [])
            @ wasmCWriteFileFunctionNonImportName functionIndex
            @ wasmCWriteFileParameters moduleName ft writeParameterNames False pretty))
      | _ \<Rightarrow> Unsafe)"

text \<open>Declarations; with debug information a function that is not exported gets the name of the name section.\<close>

definition function_declaration ::
    "WasmModule \<Rightarrow> u8 list \<Rightarrow> bool \<Rightarrow> bool \<Rightarrow> bool \<Rightarrow> nat \<times> WasmFunction \<Rightarrow> (werr, string) res" where
  "function_declaration m moduleName pretty debug multipleModules = (\<lambda>(k, f).
     res_bind (assertSizeU32 (length (items (functionImports m)))) (\<lambda>n.
     let i = n + of_nat k in
     res_bind (wasmCWriteFileFunctionSignature m moduleName f i False pretty multipleModules) (\<lambda>s.
     Val (s @ (if debug \<and> exportName f = None \<and> unat i < length (items (functionNames m))
               then (case items (functionNames m) ! unat i of
                       None \<Rightarrow> []
                     | Some name \<Rightarrow> '' __asm__('' @ dquote @ chars moduleName @ ''_'' @ chars name @ dquote @ '')'')
               else []) @ '';'' @ nl @ nl))))"

fun texts :: "('e, string) res list \<Rightarrow> ('e, string) res" where
  "texts [] = Val []"
| "texts (r # rs) = res_bind r (\<lambda>s. res_bind (texts rs) (\<lambda>t. Val (s @ t)))"

definition wasmCWriteFunctionDeclarations :: "WasmModule \<Rightarrow> u8 list \<Rightarrow> bool \<Rightarrow> bool \<Rightarrow> bool \<Rightarrow> (werr, string) res" where
  "wasmCWriteFunctionDeclarations m moduleName pretty debug multipleModules =
     texts (map (function_declaration m moduleName pretty debug multipleModules) (enumerate 0 (m_functions m)))"

text \<open>The functions of one file, by their indices among the definitions.\<close>

fun write_implementations ::
    "cenv \<Rightarrow> u32 list \<Rightarrow> body_state \<Rightarrow> (werr, string \<times> body_state) res" where
  "write_implementations env [] bs = Val ([], bs)"
| "write_implementations env (functionIndex # ids) bs =
     (case at (m_functions (ce_module env)) (unat functionIndex) of
        Val f \<Rightarrow>
          (let bs = bs\<lparr>bs_typeStack := wasmTypeStackClear wasmValueTypeI32 (bs_typeStack bs),
                      bs_stackDeclarations := wasmTypeStackClear 0 (bs_stackDeclarations bs),
                      bs_labelStack := wasmLabelStackClear (bs_labelStack bs)\<rparr>;
               (line, lines) = (if ce_debug env then wasmCGetDebugLine (bs_debugLines bs) (code_start f)
                                else (None, bs_debugLines bs));
               lineText = (case line of None \<Rightarrow> []
                 | Some l \<Rightarrow> ''#line '' @ file_u32 (ucast (dl_number l)) @ '' '' @ dquote @ chars (dl_path l) @ dquote @ nl)
           in res_bind (assertSizeU32 (length (items (functionImports (ce_module env))))) (\<lambda>n.
              res_bind (wasmCWriteFileFunctionSignature (ce_module env) (ce_moduleName env) f (n + functionIndex) True
                (ce_pretty env) (ce_multipleModules env)) (\<lambda>signature.
              res_bind (wasmCWriteFunctionBody (env\<lparr>ce_function := f\<rparr>) (bs\<lparr>bs_debugLines := lines\<rparr>)) (\<lambda>(body, bs).
              res_bind (write_implementations env ids bs) (\<lambda>(rest, bs).
              Val (lineText @ signature @ '' '' @ body @ nl @ rest, bs))))))
      | _ \<Rightarrow> Unsafe)"

definition wasmCWriteFunctionImplementations :: "cenv \<Rightarrow> nat \<Rightarrow> WasmDebugLine list \<Rightarrow> u32 list \<Rightarrow> (werr, string) res" where
  "wasmCWriteFunctionImplementations env allocs lines ids =
     res_bind (write_implementations env ids
       \<lparr>bs_allocs = allocs, bs_typeStack = wasmEmptyTypeStack, bs_stackDeclarations = wasmEmptyTypeStack,
        bs_labelStack = wasmEmptyLabelStack, bs_debugLines = lines\<rparr>) (\<lambda>(text, bs). Val text)"

end
