(* ===== verification/Reader_Error.thy ===== *)
theory Reader_Error
  imports Prelude
begin

text \<open>The error codes of the module reader (\<^verbatim>\<open>src/w2c2/reader.h\<close>) and their messages (\<^verbatim>\<open>reader.c\<close>).\<close>

datatype (plugins only: code size) WasmModuleReaderErrorCode =
  wasmModuleReaderInvalidMagic | wasmModuleReaderAllocationFailed | wasmModuleReaderInvalidSectionID
  | wasmModuleReaderInvalidSectionSize | wasmModuleReaderIncorrectSectionRead
  | wasmModuleReaderInvalidCustomSectionName | wasmModuleReaderDebugSectionAppendFailed
  | wasmModuleReaderInvalidTypeSectionTypeCount | wasmModuleReaderInvalidFunctionTypeIndicator
  | wasmModuleReaderInvalidFunctionTypeParameterCount
  | wasmModuleReaderInvalidFunctionTypeResultCount | wasmModuleReaderInvalidImportSectionImportCount
  | wasmModuleReaderInvalidImportSectionImportModule
  | wasmModuleReaderInvalidImportSectionImportName | wasmModuleReaderInvalidImportSectionImportKind
  | wasmModuleReaderInvalidImportSectionFunctionTypeIndex | wasmModuleReaderInvalidValueType
  | wasmModuleReaderInvalidFunctionSectionFunctionCount | wasmModuleReaderInvalidFunctionTypeIndex
  | wasmModuleReaderInvalidCodeSectionFunctionCount | wasmModuleReaderInvalidCodeSectionCodeSize
  | wasmModuleReaderInvalidCodeSectionLocalsDeclarations
  | wasmModuleReaderInvalidExportSectionExportCount | wasmModuleReaderInvalidExportSectionExportName
  | wasmModuleReaderInvalidExportSectionExportKind | wasmModuleReaderInvalidExportSectionExportIndex
  | wasmModuleReaderInvalidGlobalSectionGlobalCount
  | wasmModuleReaderInvalidGlobalSectionMutabilityIndicator
  | wasmModuleReaderInvalidGlobalSectionInitExpression
  | wasmModuleReaderInvalidMemorySectionMemoryCount | wasmModuleReaderInvalidLimitKind
  | wasmModuleReaderInvalidLimitMinimum | wasmModuleReaderInvalidLimitMaximum
  | wasmModuleReaderInvalidDataSectionDataSegmentCount | wasmModuleReaderInvalidDataSectionKind
  | wasmModuleReaderInvalidDataSectionMemoryIndex
  | wasmModuleReaderInvalidDataSectionOffsetExpression | wasmModuleReaderInvalidDataSectionBytes
  | wasmModuleReaderInvalidDataCountSectionDataCount | wasmModuleReaderInvalidTableSectionTableCount
  | wasmModuleReaderInvalidTableSectionTableType
  | wasmModuleReaderInvalidElementSectionElementSegmentCount
  | wasmModuleReaderInvalidElementSectionTableIndex
  | wasmModuleReaderInvalidElementSectionOffsetExpression
  | wasmModuleReaderInvalidElementSectionFunctionIndexCount
  | wasmModuleReaderInvalidElementSectionFunctionIndex
  | wasmModuleReaderInvalidStartSectionFunctionIndex
  | wasmModuleReaderInvalidNameSectionFunctionNameCount
  | wasmModuleReaderInvalidNameSectionFunctionIndex | wasmModuleReaderInvalidNameSectionFunctionName

definition wasmModuleReaderErrorMessage :: "WasmModuleReaderErrorCode \<Rightarrow> string" where
  "wasmModuleReaderErrorMessage e = (case e of
     wasmModuleReaderInvalidMagic \<Rightarrow> ''invalid magic''
   | wasmModuleReaderAllocationFailed \<Rightarrow> ''allocation failed''
   | wasmModuleReaderInvalidSectionID \<Rightarrow> ''invalid section ID''
   | wasmModuleReaderInvalidSectionSize \<Rightarrow> ''invalid section size''
   | wasmModuleReaderIncorrectSectionRead \<Rightarrow> ''invalid section read''
   | wasmModuleReaderInvalidCustomSectionName \<Rightarrow> ''invalid custom section name''
   | wasmModuleReaderDebugSectionAppendFailed \<Rightarrow> ''failed to append debug section''
   | wasmModuleReaderInvalidTypeSectionTypeCount \<Rightarrow> ''invalid type section type count''
   | wasmModuleReaderInvalidFunctionTypeIndicator \<Rightarrow> ''invalid function type indicator''
   | wasmModuleReaderInvalidFunctionTypeParameterCount \<Rightarrow> ''invalid function type parameter count''
   | wasmModuleReaderInvalidFunctionTypeResultCount \<Rightarrow> ''invalid function type result count''
   | wasmModuleReaderInvalidImportSectionImportCount \<Rightarrow> ''invalid import section import count''
   | wasmModuleReaderInvalidImportSectionImportModule \<Rightarrow> ''invalid import section import module''
   | wasmModuleReaderInvalidImportSectionImportName \<Rightarrow> ''invalid import section import name''
   | wasmModuleReaderInvalidImportSectionImportKind \<Rightarrow> ''invalid import section import kind''
   | wasmModuleReaderInvalidImportSectionFunctionTypeIndex \<Rightarrow> ''invalid import section index''
   | wasmModuleReaderInvalidValueType \<Rightarrow> ''invalid value type''
   | wasmModuleReaderInvalidFunctionSectionFunctionCount \<Rightarrow> ''invalid function section function count''
   | wasmModuleReaderInvalidFunctionTypeIndex \<Rightarrow> ''invalid function type index''
   | wasmModuleReaderInvalidCodeSectionFunctionCount \<Rightarrow> ''invalid code section function count''
   | wasmModuleReaderInvalidCodeSectionCodeSize \<Rightarrow> ''invalid code section code size''
   | wasmModuleReaderInvalidCodeSectionLocalsDeclarations \<Rightarrow> ''invalid code section local declarations''
   | wasmModuleReaderInvalidExportSectionExportCount \<Rightarrow> ''invalid export section export count''
   | wasmModuleReaderInvalidExportSectionExportName \<Rightarrow> ''invalid export section export name''
   | wasmModuleReaderInvalidExportSectionExportKind \<Rightarrow> ''invalid export section export kind''
   | wasmModuleReaderInvalidExportSectionExportIndex \<Rightarrow> ''invalid export section export index''
   | wasmModuleReaderInvalidGlobalSectionGlobalCount \<Rightarrow> ''invalid global section global count''
   | wasmModuleReaderInvalidGlobalSectionMutabilityIndicator \<Rightarrow> ''invalid global section mutability indicator''
   | wasmModuleReaderInvalidGlobalSectionInitExpression \<Rightarrow> ''invalid global section init expression''
   | wasmModuleReaderInvalidMemorySectionMemoryCount \<Rightarrow> ''invalid memory section memory count''
   | wasmModuleReaderInvalidLimitKind \<Rightarrow> ''invalid limit kind''
   | wasmModuleReaderInvalidLimitMinimum \<Rightarrow> ''invalid limit minimum''
   | wasmModuleReaderInvalidLimitMaximum \<Rightarrow> ''invalid limit maximum''
   | wasmModuleReaderInvalidDataSectionDataSegmentCount \<Rightarrow> ''invalid data section data segment count''
   | wasmModuleReaderInvalidDataSectionKind \<Rightarrow> ''invalid data section kind''
   | wasmModuleReaderInvalidDataSectionMemoryIndex \<Rightarrow> ''invalid data section memory index''
   | wasmModuleReaderInvalidDataSectionOffsetExpression \<Rightarrow> ''invalid data section offset expression''
   | wasmModuleReaderInvalidDataSectionBytes \<Rightarrow> ''invalid data section bytes''
   | wasmModuleReaderInvalidDataCountSectionDataCount \<Rightarrow> ''invalid data count section data count''
   | wasmModuleReaderInvalidTableSectionTableCount \<Rightarrow> ''invalid table section table count''
   | wasmModuleReaderInvalidTableSectionTableType \<Rightarrow> ''invalid table section table type''
   | wasmModuleReaderInvalidElementSectionElementSegmentCount \<Rightarrow> ''invalid element section element segment count''
   | wasmModuleReaderInvalidElementSectionTableIndex \<Rightarrow> ''invalid element section table index''
   | wasmModuleReaderInvalidElementSectionOffsetExpression \<Rightarrow> ''invalid element section offset expression''
   | wasmModuleReaderInvalidElementSectionFunctionIndexCount \<Rightarrow> ''invalid element section function index count''
   | wasmModuleReaderInvalidElementSectionFunctionIndex \<Rightarrow> ''invalid element section function index''
   | wasmModuleReaderInvalidStartSectionFunctionIndex \<Rightarrow> ''invalid start section function index''
   | wasmModuleReaderInvalidNameSectionFunctionNameCount \<Rightarrow> ''invalid name section function name count''
   | wasmModuleReaderInvalidNameSectionFunctionIndex \<Rightarrow> ''invalid name section function index''
   | wasmModuleReaderInvalidNameSectionFunctionName \<Rightarrow> ''invalid name section function name'')"

end
