(* ===== verification/Reader.thy ===== *)
theory Reader
  imports Instruction Reader_Error "HOL-Library.List_Lexorder"
begin

text \<open>
  The module reader \<^verbatim>\<open>src/w2c2/reader.c\<close>: from the bytes of a WebAssembly binary to a module, or to one
  of its error codes. The functions and their error codes are those of the code, in its order; a
  failed \<^verbatim>\<open>bool\<close> helper is \<open>Stop ()\<close>. Messages to standard error are left out, and so is what happens to
  memory that is no longer used. The sizes given to \<^verbatim>\<open>calloc\<close> are those of the 64-bit ABI.
\<close>

type_synonym 'a reader = "(WasmModuleReaderErrorCode, 'a) rd"

section \<open>Magic, value types, function types\<close>

definition wasmMagic :: "u8 list" where
  "wasmMagic = [0x00, 0x61, 0x73, 0x6D, 0x01, 0x00, 0x00, 0x00]"

definition wasmModuleReadMagic :: "unit reader" where
  "wasmModuleReadMagic =
     rd_option wasmModuleReaderInvalidMagic
       (\<lambda>buf. map_option (Pair ()) (bufferReadEqual buf wasmMagic))"

definition wasmModuleReadValueType :: "WasmValueType reader" where
  "wasmModuleReadValueType = rd_or wasmModuleReaderInvalidValueType wasmReadValueType"

definition wasmReadValueTypes :: "allocator \<Rightarrow> nat \<Rightarrow> WasmValueType list reader" where
  "wasmReadValueTypes al n =
     rd_bind (rd_calloc al wasmModuleReaderAllocationFailed n 4) (\<lambda>_.
     rd_many n wasmModuleReadValueType)"

definition wasmFunctionTypeIndicator :: u8 where "wasmFunctionTypeIndicator = 0x60"

definition wasmReadFunctionType :: "allocator \<Rightarrow> WasmFunctionType reader" where
  "wasmReadFunctionType al =
     rd_bind (rd_byte wasmModuleReaderInvalidFunctionTypeIndicator) (\<lambda>typeIndicator.
     rd_bind (rd_guard (typeIndicator = wasmFunctionTypeIndicator)
                wasmModuleReaderInvalidFunctionTypeIndicator) (\<lambda>_.
     rd_bind (rd_u32 wasmModuleReaderInvalidFunctionTypeParameterCount) (\<lambda>parameterCount.
     rd_bind (wasmReadValueTypes al (unat parameterCount)) (\<lambda>params.
     rd_bind (rd_u32 wasmModuleReaderInvalidFunctionTypeResultCount) (\<lambda>resultCount.
     rd_bind (wasmReadValueTypes al (unat resultCount)) (\<lambda>results.
     rd_return \<lparr>parameterTypes = params, resultTypes = results\<rparr>))))))"

section \<open>Names\<close>

text \<open>
  The name is \<open>length\<close> bytes, cut at the first zero byte by \<^verbatim>\<open>strncpy\<close>. The array has \<open>length + 1\<close>
  bytes in \<^verbatim>\<open>U32\<close> arithmetic; when that wraps, the copy would leave it.
\<close>

definition wasmReadName :: "allocator \<Rightarrow> (unit, u8 list) rd" where
  "wasmReadName al =
     rd_bind (rd_u32 ()) (\<lambda>len.
     rd_bind rd_rest (\<lambda>buf.
     rd_bind (rd_guard (unat len \<le> length buf) ()) (\<lambda>_.
     rd_bind (rd_calloc al () (unat (len + 1)) 1) (\<lambda>_.
     if unat (len + 1) \<le> unat len then (\<lambda>_. Unsafe)
     else rd_bind (rd_skip_unchecked (unat len)) (\<lambda>_.
     rd_return (takeWhile (\<lambda>b. b \<noteq> 0) (take (unat len) buf)))))))"

text \<open>
  Removing duplicate names: the entries (name and function index) are sorted by name, then each entry
  equal to its predecessor clears both names. \<open>None\<close> is a name that is \<^verbatim>\<open>NULL\<close> or was never written;
  with two or more entries the sort compares every name, and comparing such a one is \<open>Unsafe\<close>.
\<close>

fun clear_duplicates :: "(u8 list \<times> nat) list \<Rightarrow> u8 list option list \<Rightarrow> u8 list option list" where
  "clear_duplicates (p # c # es) names =
     clear_duplicates (c # es)
       (if fst p = fst c then names[snd p := None, snd c := None] else names)"
| "clear_duplicates _ names = names"

definition wasmFunctionNamesRemoveDuplicates ::
    "allocator \<Rightarrow> u8 list option list \<Rightarrow> u8 list option list reader" where
  "wasmFunctionNamesRemoveDuplicates al names =
     rd_bind (rd_calloc al wasmModuleReaderAllocationFailed (length names) 16) (\<lambda>_.
     if 2 \<le> length names \<and> None \<in> set names then (\<lambda>_. Unsafe)
     else rd_return (clear_duplicates (sort_key fst (zip (map the names) [0..<length names])) names))"

definition wasmNameSubsectionIDFunctionNames :: u8 where "wasmNameSubsectionIDFunctionNames = 1"

definition functionCount :: "WasmModule \<Rightarrow> u32" where
  "functionCount m = of_nat (length (items (functionImports m))) + of_nat (length (m_functions m))"

definition wasmReadFunctionName ::
    "allocator \<Rightarrow> u32 \<Rightarrow> u8 list option list \<Rightarrow> u8 list option list reader" where
  "wasmReadFunctionName al count names =
     rd_bind (rd_u32 wasmModuleReaderInvalidNameSectionFunctionIndex) (\<lambda>functionIndex.
     rd_bind (rd_guard (\<not> functionIndex \<ge> count) wasmModuleReaderInvalidNameSectionFunctionIndex) (\<lambda>_.
     rd_bind (rd_or wasmModuleReaderInvalidNameSectionFunctionName (wasmReadName al)) (\<lambda>name.
     if unat functionIndex < length names
     then rd_return (names[unat functionIndex := Some name]) else (\<lambda>_. Unsafe))))"

definition wasmReadNameSubsection :: "allocator \<Rightarrow> WasmModule \<Rightarrow> WasmModule reader" where
  "wasmReadNameSubsection al m =
     rd_bind (rd_byte wasmModuleReaderInvalidGlobalSectionMutabilityIndicator) (\<lambda>subsectionID.
     rd_bind (rd_u32 wasmModuleReaderInvalidSectionSize) (\<lambda>subsectionSize.
     if subsectionID = wasmNameSubsectionIDFunctionNames then
       rd_bind (rd_u32 wasmModuleReaderInvalidNameSectionFunctionNameCount) (\<lambda>functionNameCount.
       rd_bind (arrayEnsureCapacity al wasmModuleReaderAllocationFailed 8 (unat (functionCount m))
                  (functionNames m)) (\<lambda>arr.
       let n = unat (functionCount m); names = take n (items arr @ replicate n None)
       in rd_bind (rd_iter (unat functionNameCount) (wasmReadFunctionName al (functionCount m)) names) (\<lambda>names.
       rd_bind (wasmFunctionNamesRemoveDuplicates al names) (\<lambda>names.
       rd_return (m\<lparr>functionNames := arr\<lparr>items := names\<rparr>\<rparr>)))))
     else rd_bind (rd_skip (unat subsectionSize)) (\<lambda>_. rd_return m)))"

text \<open>\<^verbatim>\<open>while (reader->buffer.data < end)\<close>, with \<^verbatim>\<open>end\<close> at \<open>sectionSize\<close> bytes from the start.\<close>

definition wasmReadNameSection :: "allocator \<Rightarrow> WasmModule \<Rightarrow> u32 \<Rightarrow> WasmModule reader" where
  "wasmReadNameSection al m sectionSize =
     rd_bind rd_rest (\<lambda>start.
     rd_while (\<lambda>_ s. length start < length (rd_buffer s) + unat sectionSize)
       (wasmReadNameSubsection al) m)"

section \<open>Custom and type sections\<close>

definition debug_prefix :: "u8 list" where
  "debug_prefix = map (\<lambda>c. of_nat (of_char c)) ''.debug_''"

definition wasmNameSectionName :: "u8 list" where
  "wasmNameSectionName = map (\<lambda>c. of_nat (of_char c)) ''name''"

definition wasmReadCustomSection :: "allocator \<Rightarrow> bool \<Rightarrow> WasmModule \<Rightarrow> u32 \<Rightarrow> WasmModule reader" where
  "wasmReadCustomSection al dbg m sectionSize =
     rd_bind rd_rest (\<lambda>start.
     rd_bind (rd_or wasmModuleReaderInvalidCustomSectionName (wasmReadName al)) (\<lambda>name.
     rd_bind rd_rest (\<lambda>buf.
     let sectionSize = sectionSize - of_nat (length start - length buf) in
     if take (length debug_prefix) name = debug_prefix then
       rd_bind (arrayAppend al wasmModuleReaderDebugSectionAppendFailed 24 (debugSections m)
                  \<lparr>dbg_name = name, dbg_buffer = take (unat sectionSize) buf\<rparr>) (\<lambda>secs.
       rd_bind (rd_skip (unat sectionSize)) (\<lambda>_. rd_return (m\<lparr>debugSections := secs\<rparr>)))
     else if dbg \<and> name = wasmNameSectionName then wasmReadNameSection al m sectionSize
     else rd_bind (rd_skip (unat sectionSize)) (\<lambda>_. rd_return m))))"

definition wasmReadTypeSection :: "allocator \<Rightarrow> WasmModule \<Rightarrow> WasmModule reader" where
  "wasmReadTypeSection al m =
     rd_bind (rd_vec al wasmModuleReaderInvalidTypeSectionTypeCount wasmModuleReaderAllocationFailed 32
                (wasmReadFunctionType al)) (\<lambda>ts.
     rd_return (m\<lparr>functionTypes := ts\<rparr>))"

section \<open>Imports\<close>

definition wasmReadGlobalType :: "WasmGlobalType reader" where
  "wasmReadGlobalType =
     rd_bind wasmModuleReadValueType (\<lambda>t.
     rd_bind (rd_byte wasmModuleReaderInvalidGlobalSectionMutabilityIndicator) (\<lambda>mutabilityIndicator.
     rd_bind (rd_guard (\<not> mutabilityIndicator > 1)
                wasmModuleReaderInvalidGlobalSectionMutabilityIndicator) (\<lambda>_.
     rd_return \<lparr>valueType = t, gt_mutable = (mutabilityIndicator = 1)\<rparr>)))"

definition wasmReadFunctionImport ::
    "allocator \<Rightarrow> WasmModule \<Rightarrow> u8 list \<Rightarrow> u8 list \<Rightarrow> WasmModule reader" where
  "wasmReadFunctionImport al m module name =
     rd_bind (rd_u32 wasmModuleReaderInvalidImportSectionFunctionTypeIndex) (\<lambda>ti.
     rd_bind (arrayAppend al wasmModuleReaderAllocationFailed 24 (functionImports m)
                \<lparr>fi_module = module, fi_name = name, fi_functionTypeIndex = ti\<rparr>) (\<lambda>is.
     rd_return (m\<lparr>functionImports := is\<rparr>)))"

definition wasmReadGlobalImport ::
    "allocator \<Rightarrow> WasmModule \<Rightarrow> u8 list \<Rightarrow> u8 list \<Rightarrow> WasmModule reader" where
  "wasmReadGlobalImport al m module name =
     rd_bind wasmReadGlobalType (\<lambda>t.
     rd_bind (arrayAppend al wasmModuleReaderAllocationFailed 24 (globalImports m)
                \<lparr>gi_module = module, gi_name = name, gi_globalType = t\<rparr>) (\<lambda>is.
     rd_return (m\<lparr>globalImports := is\<rparr>)))"

definition wasmReadLimits :: "limits reader" where
  "wasmReadLimits =
     rd_bind (rd_byte wasmModuleReaderInvalidLimitKind) (\<lambda>kindIndicator.
     rd_bind (rd_u32 wasmModuleReaderInvalidLimitMinimum) (\<lambda>mn.
     if kindIndicator = 0 then rd_return \<lparr>lim_min = mn, lim_max = 0, lim_shared = False\<rparr>
     else if kindIndicator = 1 then
       rd_bind (rd_u32 wasmModuleReaderInvalidLimitMaximum) (\<lambda>mx.
       rd_return \<lparr>lim_min = mn, lim_max = mx, lim_shared = False\<rparr>)
     else if kindIndicator = 3 then
       rd_bind (rd_u32 wasmModuleReaderInvalidLimitMaximum) (\<lambda>mx.
       rd_return \<lparr>lim_min = mn, lim_max = mx, lim_shared = True\<rparr>)
     else rd_fail wasmModuleReaderInvalidLimitKind))"

definition UINT32_MAX :: u32 where "UINT32_MAX = 4294967295"

definition wasmReadMemoryType :: "limits reader" where
  "wasmReadMemoryType =
     rd_bind wasmReadLimits (\<lambda>l.
     rd_return (if lim_max l = 0 then l\<lparr>lim_max := UINT32_MAX div 65536\<rparr> else l))"

definition wasmReadMemoryImport ::
    "allocator \<Rightarrow> WasmModule \<Rightarrow> u8 list \<Rightarrow> u8 list \<Rightarrow> WasmModule reader" where
  "wasmReadMemoryImport al m module name =
     rd_bind wasmReadMemoryType (\<lambda>l.
     rd_bind (arrayAppend al wasmModuleReaderAllocationFailed 32 (memoryImports m)
                \<lparr>li_module = module, li_name = name, li_limits = l\<rparr>) (\<lambda>is.
     rd_return (m\<lparr>memoryImports := is\<rparr>)))"

definition wasmTableTypeFuncRef :: u8 where "wasmTableTypeFuncRef = 0x70"

definition wasmReadTableType :: "limits reader" where
  "wasmReadTableType =
     rd_bind (rd_byte wasmModuleReaderInvalidTableSectionTableType) (\<lambda>tableType.
     rd_bind (rd_guard (tableType = wasmTableTypeFuncRef)
                wasmModuleReaderInvalidTableSectionTableType) (\<lambda>_.
     rd_bind wasmReadLimits (\<lambda>l.
     rd_return (if lim_max l = 0 then l\<lparr>lim_max := UINT32_MAX\<rparr> else l))))"

definition wasmReadTableImport ::
    "allocator \<Rightarrow> WasmModule \<Rightarrow> u8 list \<Rightarrow> u8 list \<Rightarrow> WasmModule reader" where
  "wasmReadTableImport al m module name =
     rd_bind wasmReadTableType (\<lambda>l.
     rd_bind (arrayAppend al wasmModuleReaderAllocationFailed 32 (tableImports m)
                \<lparr>li_module = module, li_name = name, li_limits = l\<rparr>) (\<lambda>is.
     rd_return (m\<lparr>tableImports := is\<rparr>)))"

text \<open>The import kinds: 0 a function, 1 a table, 2 a memory, 3 a global.\<close>

definition wasmReadImport :: "allocator \<Rightarrow> WasmModule \<Rightarrow> WasmModule reader" where
  "wasmReadImport al m =
     rd_bind (rd_or wasmModuleReaderInvalidImportSectionImportModule (wasmReadName al)) (\<lambda>module.
     rd_bind (rd_or wasmModuleReaderInvalidImportSectionImportName (wasmReadName al)) (\<lambda>name.
     rd_bind (rd_byte wasmModuleReaderInvalidImportSectionImportKind) (\<lambda>kindIndicator.
     rd_bind (rd_guard (\<not> kindIndicator \<ge> 4) wasmModuleReaderInvalidImportSectionImportKind) (\<lambda>_.
     if kindIndicator = 0 then wasmReadFunctionImport al m module name
     else if kindIndicator = 3 then wasmReadGlobalImport al m module name
     else if kindIndicator = 2 then wasmReadMemoryImport al m module name
     else if kindIndicator = 1 then wasmReadTableImport al m module name
     else rd_fail wasmModuleReaderInvalidImportSectionImportKind))))"

text \<open>The error for a missing import count is the type section's.\<close>

definition wasmReadImportSection :: "allocator \<Rightarrow> WasmModule \<Rightarrow> WasmModule reader" where
  "wasmReadImportSection al m =
     rd_bind (rd_u32 wasmModuleReaderInvalidTypeSectionTypeCount) (\<lambda>importCount.
     rd_iter (unat importCount) (wasmReadImport al) m)"

section \<open>Functions, memories, globals\<close>

definition wasmReadFunctionDeclaration :: "nat \<Rightarrow> WasmFunction reader" where
  "wasmReadFunctionDeclaration typeCount =
     rd_bind (rd_u32 wasmModuleReaderInvalidFunctionTypeIndex) (\<lambda>ti.
     rd_bind (rd_guard (\<not> ti \<ge> of_nat typeCount) wasmModuleReaderInvalidFunctionTypeIndex) (\<lambda>_.
     rd_return (wasmEmptyFunction\<lparr>functionTypeIndex := ti\<rparr>)))"

definition wasmReadFunctionSection :: "allocator \<Rightarrow> WasmModule \<Rightarrow> WasmModule reader" where
  "wasmReadFunctionSection al m =
     rd_bind (rd_vec al wasmModuleReaderInvalidFunctionSectionFunctionCount
                wasmModuleReaderAllocationFailed 80
                (wasmReadFunctionDeclaration (length (functionTypes m)))) (\<lambda>fs.
     rd_return (m\<lparr>m_functions := fs\<rparr>))"

definition wasmReadConstantExpr :: "(unit, unit) rd" where
  "wasmReadConstantExpr =
     rd_bind wasmOpcodeRead (\<lambda>opcode.
     let rest = rd_bind wasmOpcodeRead (\<lambda>opcode. rd_guard (opcode = wasmOpcodeEnd) ()) in
     if opcode \<in> {wasmOpcodeI32Const, wasmOpcodeI64Const, wasmOpcodeF32Const, wasmOpcodeF64Const}
     then rd_bind (wasmConstInstructionRead opcode) (\<lambda>_. rest)
     else if opcode = wasmOpcodeGlobalGet then rd_bind wasmGlobalInstructionRead (\<lambda>_. rest)
     else if opcode = wasmOpcodeEnd then rd_return ()
     else rd_fail ())"

text \<open>
  \<^verbatim>\<open>init = reader->buffer; read; init.length -= reader->buffer.length\<close>: the bytes of the expression.
\<close>

definition rd_consumed :: "('e, unit) rd \<Rightarrow> ('e, buffer) rd" where
  "rd_consumed m =
     rd_bind rd_rest (\<lambda>before. rd_bind m (\<lambda>_. rd_bind rd_rest (\<lambda>after.
     rd_return (take (length before - length after) before))))"

definition wasmReadMemorySection :: "allocator \<Rightarrow> WasmModule \<Rightarrow> WasmModule reader" where
  "wasmReadMemorySection al m =
     rd_bind (rd_vec al wasmModuleReaderInvalidMemorySectionMemoryCount
                wasmModuleReaderAllocationFailed 12 wasmReadMemoryType) (\<lambda>ms.
     rd_return (m\<lparr>memories := ms\<rparr>))"

definition wasmReadGlobal :: "WasmGlobal reader" where
  "wasmReadGlobal =
     rd_bind wasmReadGlobalType (\<lambda>t.
     rd_bind (rd_consumed (rd_or wasmModuleReaderInvalidGlobalSectionInitExpression
                wasmReadConstantExpr)) (\<lambda>init.
     rd_return \<lparr>g_type = t, g_init = init\<rparr>))"

definition wasmReadGlobalSection :: "allocator \<Rightarrow> WasmModule \<Rightarrow> WasmModule reader" where
  "wasmReadGlobalSection al m =
     rd_bind (rd_vec al wasmModuleReaderInvalidGlobalSectionGlobalCount
                wasmModuleReaderAllocationFailed 24 wasmReadGlobal) (\<lambda>gs.
     rd_return (m\<lparr>globals := gs\<rparr>))"

section \<open>Exports\<close>

definition export_kind :: "u8 \<Rightarrow> WasmExportKind" where
  "export_kind k =
     (if k = 0 then wasmExportKindFunction else if k = 1 then wasmExportKindTable
      else if k = 2 then wasmExportKindMemory else wasmExportKindGlobal)"

definition wasmReadExport :: "allocator \<Rightarrow> WasmExport reader" where
  "wasmReadExport al =
     rd_bind (rd_or wasmModuleReaderInvalidExportSectionExportName (wasmReadName al)) (\<lambda>name.
     rd_bind (rd_byte wasmModuleReaderInvalidExportSectionExportKind) (\<lambda>kindIndicator.
     rd_bind (rd_guard (\<not> kindIndicator \<ge> 4) wasmModuleReaderInvalidExportSectionExportKind) (\<lambda>_.
     rd_bind (rd_u32 wasmModuleReaderInvalidExportSectionExportIndex) (\<lambda>index.
     rd_return \<lparr>ex_name = name, ex_kind = export_kind kindIndicator, ex_index = index\<rparr>))))"

text \<open>
  One round of the loop: a function export must name a function, and gives a defined one its name.
\<close>

definition export_round ::
    "allocator \<Rightarrow> WasmModule \<Rightarrow> WasmExport list \<times> WasmFunction list
     \<Rightarrow> (WasmExport list \<times> WasmFunction list) reader" where
  "export_round al m = (\<lambda>(exs, fs).
     rd_bind (wasmReadExport al) (\<lambda>ex.
     if ex_kind ex = wasmExportKindFunction then
       rd_bind (rd_guard (\<not> ex_index ex \<ge> functionCount m)
                  wasmModuleReaderInvalidExportSectionExportIndex) (\<lambda>_.
       let imports = length (items (functionImports m)) in
       if imports \<le> unat (ex_index ex) then
         let i = unat (ex_index ex) - imports in
         if i < length fs
         then rd_return (exs @ [ex], fs[i := (fs ! i)\<lparr>exportName := Some (ex_name ex)\<rparr>])
         else (\<lambda>_. Unsafe)
       else rd_return (exs @ [ex], fs))
     else rd_return (exs @ [ex], fs)))"

definition wasmReadExportSection :: "allocator \<Rightarrow> WasmModule \<Rightarrow> WasmModule reader" where
  "wasmReadExportSection al m =
     rd_bind (rd_u32 wasmModuleReaderInvalidExportSectionExportCount) (\<lambda>exportCount.
     rd_bind (rd_calloc al wasmModuleReaderAllocationFailed (unat exportCount) 16) (\<lambda>_.
     rd_bind (rd_iter (unat exportCount) (export_round al m) ([], m_functions m)) (\<lambda>(exs, fs).
     rd_return (m\<lparr>exports := exs, m_functions := fs\<rparr>))))"

section \<open>Code\<close>

definition wasmReadCodeLocalsDeclarations :: "allocator \<Rightarrow> (unit, WasmLocalsDeclaration list) rd" where
  "wasmReadCodeLocalsDeclarations al =
     rd_bind (rd_u32 ()) (\<lambda>declarationCount.
     if declarationCount > 0 then
       rd_bind (rd_calloc al () (unat declarationCount) 8) (\<lambda>_.
       rd_many (unat declarationCount)
         (rd_bind (rd_u32 ()) (\<lambda>n. rd_bind wasmReadValueType (\<lambda>t.
          rd_return \<lparr>ld_type = t, ld_count = n\<rparr>))))
     else rd_return [])"

text \<open>
  One function's body. The locals are read without regard to \<open>codeSize\<close>; what they took is then
  subtracted from it in \<^verbatim>\<open>U32\<close>, and the rest is skipped unchecked.
\<close>

definition wasmReadCode :: "allocator \<Rightarrow> nat \<Rightarrow> nat \<Rightarrow> WasmFunction \<Rightarrow> WasmFunction reader" where
  "wasmReadCode al moduleLength codeStart f =
     rd_bind (rd_u32 wasmModuleReaderInvalidCodeSectionCodeSize) (\<lambda>codeSize.
     rd_bind rd_rest (\<lambda>body.
     rd_bind (rd_guard (\<not> unat codeSize > length body) wasmModuleReaderInvalidCodeSectionCodeSize) (\<lambda>_.
     rd_bind (rd_or wasmModuleReaderInvalidCodeSectionLocalsDeclarations
                (wasmReadCodeLocalsDeclarations al)) (\<lambda>locals.
     rd_bind rd_rest (\<lambda>buf.
     let codeSize' = codeSize - of_nat (length body - length buf) in
     rd_bind (rd_skip_unchecked (unat codeSize')) (\<lambda>_.
     rd_return (f\<lparr>code_hash := SHA1 (take (unat codeSize) body), localsDeclarations := locals,
                 code_start := moduleLength - length buf - codeStart,
                 code := take (unat codeSize') buf\<rparr>)))))))"

definition wasmReadCodeSection :: "allocator \<Rightarrow> WasmModule \<Rightarrow> WasmModule reader" where
  "wasmReadCodeSection al m =
     rd_bind rd_rest (\<lambda>start.
     let codeStart = m_length m - length start in
     rd_bind (rd_u32 wasmModuleReaderInvalidCodeSectionFunctionCount) (\<lambda>count.
     rd_bind (rd_guard (count = of_nat (length (m_functions m)))
                wasmModuleReaderInvalidCodeSectionFunctionCount) (\<lambda>_.
     rd_bind (rd_map (wasmReadCode al (m_length m) codeStart) (m_functions m)) (\<lambda>fs.
     rd_return (m\<lparr>m_functions := fs\<rparr>)))))"

section \<open>Data, tables, elements, start\<close>

definition wasmReadBytes :: "allocator \<Rightarrow> (unit, buffer) rd" where
  "wasmReadBytes al =
     rd_bind (rd_u32 ()) (\<lambda>len.
     rd_bind rd_rest (\<lambda>buf.
     rd_bind (rd_guard (unat len \<le> length buf) ()) (\<lambda>_.
     rd_bind (rd_calloc al () (unat len) 1) (\<lambda>_.
     rd_bind (rd_skip_unchecked (unat len)) (\<lambda>_.
     rd_return (take (unat len) buf))))))"

definition wasmReadDataSegment :: "allocator \<Rightarrow> WasmDataSegment reader" where
  "wasmReadDataSegment al =
     rd_bind (rd_u32 wasmModuleReaderInvalidDataSectionKind) (\<lambda>kind.
     rd_bind (rd_guard (kind = 0 \<or> kind = 1 \<or> kind = 2) wasmModuleReaderInvalidDataSectionKind) (\<lambda>_.
     rd_bind (if kind = 2 then rd_u32 wasmModuleReaderInvalidDataSectionMemoryIndex
              else rd_return 0) (\<lambda>memoryIndex.
     rd_bind (if kind \<noteq> 1
              then rd_consumed (rd_or wasmModuleReaderInvalidDataSectionOffsetExpression
                     wasmReadConstantExpr)
              else rd_return []) (\<lambda>offset.
     rd_bind (rd_or wasmModuleReaderInvalidDataSectionBytes (wasmReadBytes al)) (\<lambda>bytes.
     rd_return \<lparr>ds_memoryIndex = memoryIndex, ds_offset = offset, ds_bytes = bytes,
                ds_passive = (kind = 1)\<rparr>)))))"

definition wasmReadDataSection :: "allocator \<Rightarrow> WasmModule \<Rightarrow> WasmModule reader" where
  "wasmReadDataSection al m =
     rd_bind (rd_vec al wasmModuleReaderInvalidDataSectionDataSegmentCount
                wasmModuleReaderAllocationFailed 48 (wasmReadDataSegment al)) (\<lambda>ds.
     rd_return (m\<lparr>dataSegments := ds\<rparr>))"

definition wasmReadDataCountSection :: "WasmModule \<Rightarrow> WasmModule reader" where
  "wasmReadDataCountSection m =
     rd_bind (rd_u32 wasmModuleReaderInvalidDataCountSectionDataCount) (\<lambda>_. rd_return m)"

definition wasmReadTableSection :: "allocator \<Rightarrow> WasmModule \<Rightarrow> WasmModule reader" where
  "wasmReadTableSection al m =
     rd_bind (rd_vec al wasmModuleReaderInvalidTableSectionTableCount
                wasmModuleReaderAllocationFailed 12 wasmReadTableType) (\<lambda>ts.
     rd_return (m\<lparr>m_tables := ts\<rparr>))"

definition wasmReadElementSegment :: "allocator \<Rightarrow> WasmElementSegment reader" where
  "wasmReadElementSegment al =
     rd_bind (rd_u32 wasmModuleReaderInvalidElementSectionTableIndex) (\<lambda>tableIndex.
     rd_bind (rd_consumed (rd_or wasmModuleReaderInvalidElementSectionOffsetExpression
                wasmReadConstantExpr)) (\<lambda>offset.
     rd_bind (rd_vec al wasmModuleReaderInvalidElementSectionFunctionIndexCount
                wasmModuleReaderAllocationFailed 4
                (rd_u32 wasmModuleReaderInvalidElementSectionFunctionIndex)) (\<lambda>fis.
     rd_return \<lparr>es_tableIndex = tableIndex, es_offset = offset, es_functionIndices = fis\<rparr>)))"

definition wasmReadElementSection :: "allocator \<Rightarrow> WasmModule \<Rightarrow> WasmModule reader" where
  "wasmReadElementSection al m =
     rd_bind (rd_vec al wasmModuleReaderInvalidElementSectionElementSegmentCount
                wasmModuleReaderAllocationFailed 40 (wasmReadElementSegment al)) (\<lambda>es.
     rd_return (m\<lparr>elementSegments := es\<rparr>))"

definition wasmReadStartSection :: "WasmModule \<Rightarrow> WasmModule reader" where
  "wasmReadStartSection m =
     rd_bind (rd_u32 wasmModuleReaderInvalidStartSectionFunctionIndex) (\<lambda>i.
     rd_return (m\<lparr>startFunctionIndex := Some i\<rparr>))"

section \<open>Sections and modules\<close>

text \<open>The array \<^verbatim>\<open>wasmSectionReaders\<close>, indexed by the section id; past its end there is no reader.\<close>

definition wasmSectionReaders ::
    "allocator \<Rightarrow> bool \<Rightarrow> u8 \<Rightarrow> (WasmModule \<Rightarrow> u32 \<Rightarrow> WasmModule reader) option" where
  "wasmSectionReaders al dbg sectionID =
     (if sectionID = 0 then Some (wasmReadCustomSection al dbg)
      else if sectionID = 1 then Some (\<lambda>m _. wasmReadTypeSection al m)
      else if sectionID = 2 then Some (\<lambda>m _. wasmReadImportSection al m)
      else if sectionID = 3 then Some (\<lambda>m _. wasmReadFunctionSection al m)
      else if sectionID = 4 then Some (\<lambda>m _. wasmReadTableSection al m)
      else if sectionID = 5 then Some (\<lambda>m _. wasmReadMemorySection al m)
      else if sectionID = 6 then Some (\<lambda>m _. wasmReadGlobalSection al m)
      else if sectionID = 7 then Some (\<lambda>m _. wasmReadExportSection al m)
      else if sectionID = 8 then Some (\<lambda>m _. wasmReadStartSection m)
      else if sectionID = 9 then Some (\<lambda>m _. wasmReadElementSection al m)
      else if sectionID = 10 then Some (\<lambda>m _. wasmReadCodeSection al m)
      else if sectionID = 11 then Some (\<lambda>m _. wasmReadDataSection al m)
      else if sectionID = 12 then Some (\<lambda>m _. wasmReadDataCountSection m)
      else None)"

definition wasmModuleReadSection :: "allocator \<Rightarrow> bool \<Rightarrow> WasmModule \<Rightarrow> WasmModule reader" where
  "wasmModuleReadSection al dbg m =
     rd_bind (rd_byte wasmModuleReaderInvalidSectionID) (\<lambda>sectionID.
     rd_bind (rd_u32 wasmModuleReaderInvalidSectionSize) (\<lambda>sectionSize.
     case wasmSectionReaders al dbg sectionID of
       Some wasmSectionReader \<Rightarrow>
         rd_bind rd_rest (\<lambda>start.
         rd_bind (wasmSectionReader m sectionSize) (\<lambda>m'.
         rd_bind rd_rest (\<lambda>after.
         rd_bind (rd_guard (length start - length after = unat sectionSize)
                    wasmModuleReaderIncorrectSectionRead) (\<lambda>_.
         rd_return m'))))
     | None \<Rightarrow> rd_bind (rd_skip (unat sectionSize)) (\<lambda>_. rd_return m)))"

text \<open>
  \<open>wasmModuleRead\<close> on the whole file; \<^verbatim>\<open>wasmParseDebugInfo\<close> (\<^verbatim>\<open>debug.c\<close>) always gives no lines.
\<close>

definition wasmModuleRead :: "allocator \<Rightarrow> bool \<Rightarrow> buffer \<Rightarrow> (WasmModuleReaderErrorCode, WasmModule) res" where
  "wasmModuleRead al dbg bytes =
     res_bind
       (rd_bind wasmModuleReadMagic (\<lambda>_.
        rd_bind (rd_calloc al wasmModuleReaderAllocationFailed 1 312) (\<lambda>_.
        rd_while (\<lambda>_ s. \<not> bufferAtEnd (rd_buffer s)) (wasmModuleReadSection al dbg)
          (emptyWasmModule (length bytes)))) (input bytes 0))
       (\<lambda>(m, _). Val m)"

end
