(* ===== verification/Reader_Safety.thy ===== *)
theory Reader_Safety
  imports Reader
begin

text \<open>
  What the reader never does: every function of \<^verbatim>\<open>reader.c\<close> keeps within the file and leaves a suffix of
  it, its loops end, and the one way a file below 4 GiB takes the reader outside its buffer
  is a function body, reached in a code section, whose local declarations are longer than its announced size.
\<close>

section \<open>The hazards\<close>

definition huge :: "rd_state \<Rightarrow> bool" where
  "huge s \<longleftrightarrow> 2 ^ 32 - 1 \<le> length (rd_buffer s)"

text \<open>At \<open>s\<close> stands a body whose declarations take more bytes than its announced size.\<close>

definition locals_overrun :: "allocator \<Rightarrow> rd_state \<Rightarrow> bool" where
  "locals_overrun al s \<longleftrightarrow>
     (\<exists>n s1 ls s2. rd_u32 () s = Val (n, s1) \<and> unat n \<le> length (rd_buffer s1)
        \<and> wasmReadCodeLocalsDeclarations al s1 = Val (ls, s2)
        \<and> unat n < length (rd_buffer s1) - length (rd_buffer s2))"

definition hazard :: "allocator \<Rightarrow> rd_state \<Rightarrow> bool" where
  "hazard al s \<longleftrightarrow> huge s \<or> locals_overrun al s"

section \<open>The contract of every function\<close>

lemma rd_ok_bind_val:
  assumes m: "rd_ok E j m" and f: "\<And>s x s'. m s = Val (x, s') \<Longrightarrow> rd_ok E k (f x)"
  shows "rd_ok E (j + k) (rd_bind m f)"
proof (rule rd_okI)
  fix s y s2
  assume "rd_bind m f s = Val (y, s2)"
  then obtain x s1 where 1: "m s = Val (x, s1)" and 2: "f x s1 = Val (y, s2)"
    by (auto simp: rd_bind_def res_bind_eq_Val)
  from rd_okD(1,2) [OF m 1] rd_okD(1,2) [OF f [OF 1] 2]
  show "suffix (rd_buffer s2) (rd_buffer s) \<and> length (rd_buffer s2) + (j + k) \<le> length (rd_buffer s)"
    by (auto intro: suffix_order.trans)
next
  fix s
  assume "rd_bind m f s = Unsafe"
  then consider "m s = Unsafe" | x s1 where "m s = Val (x, s1)" "f x s1 = Unsafe"
    by (auto simp: rd_bind_def res_bind_eq_Unsafe)
  then show "\<exists>s'. suffix (rd_buffer s') (rd_buffer s) \<and> E s'"
  proof cases
    case 1
    then show ?thesis by (rule rd_okD(3) [OF m])
  next
    case 2
    with rd_okD(1) [OF m 2(1)] rd_okD(3) [OF f [OF 2(1)] 2(2)] show ?thesis
      by (blast intro: suffix_order.trans)
  qed
qed

lemma rd_ok_magic [rd_intros]: "rd_ok E 0 wasmModuleReadMagic"
  unfolding wasmModuleReadMagic_def
  by (rule rd_ok_option) (auto simp: bufferReadEqual_eq_Some suffix_appendI)

lemma wasmModuleReadValueType_ok [rd_intros]: "k \<le> 1 \<Longrightarrow> rd_ok E k wasmModuleReadValueType"
  unfolding wasmModuleReadValueType_def by (intro rd_ok_or rd_intros)

lemma wasmReadValueTypes_ok [rd_intros]: "rd_ok E 0 (wasmReadValueTypes al n)"
  unfolding wasmReadValueTypes_def by (intro rd_ok_bind1 rd_intros) simp

lemma wasmReadFunctionType_ok [rd_intros]: "k \<le> 1 \<Longrightarrow> rd_ok E k (wasmReadFunctionType al)"
  unfolding wasmReadFunctionType_def by (intro rd_ok_bind1 rd_intros) simp_all

lemma rd_u32_Val:
  assumes "rd_u32 e s = Val (n, s1)"
  shows "suffix (rd_buffer s1) (rd_buffer s)" "length (rd_buffer s1) + 1 \<le> length (rd_buffer s)"
  using rd_okD(1,2) [OF rd_ok_lebs(1) [of 1] assms] by simp_all

lemma rd_u32_safe [simp]: "rd_u32 e s \<noteq> Unsafe"
  by (simp add: rd_u32_def rd_leb_def split: prod.split)

text \<open>An unchecked skip of at most what the rest holds.\<close>

lemma rd_skip_unchecked_eq:
  "n \<le> length (rd_buffer s) \<Longrightarrow>
   rd_skip_unchecked n s = Val ((), s\<lparr>rd_buffer := drop n (rd_buffer s)\<rparr>)"
  by (simp add: rd_skip_unchecked_def bufferSkipUnchecked_def)

text \<open>A name and a block of bytes, with all they leave.\<close>

lemma wasmReadName_cases:
  obtains (fail) "wasmReadName al s = Stop ()"
  | (huge) s' where "wasmReadName al s = Unsafe" "suffix (rd_buffer s') (rd_buffer s)" "huge s'"
  | (name) n s1 k where "rd_u32 () s = Val (n, s1)" "unat n \<le> length (rd_buffer s1)"
      "wasmReadName al s = Val (takeWhile (\<lambda>b. b \<noteq> 0) (take (unat n) (rd_buffer s1)),
         \<lparr>rd_buffer = drop (unat n) (rd_buffer s1), rd_allocs = k\<rparr>)"
proof -
  show thesis
  proof (cases "rd_u32 () s")
    case (Val r)
    obtain n s1 where r: "r = (n, s1)" by (cases r)
    note run = wasmReadName_def rd_bind_def rd_rest_def rd_guard_def rd_calloc_def
    show thesis
    proof (cases "unat n \<le> length (rd_buffer s1) \<and> al (rd_allocs s1) (unat (n + 1))")
      case False
      with Val r show thesis by (intro fail) (auto simp: run)
    next
      case True
      show thesis
      proof (cases "unat (n + 1) \<le> unat n")
        case wrap: True
        have "unat n = 2 ^ 32 - 1"
          using wrap unat_u32_less [of n] by (auto simp: unat_word_ariths mod_if split: if_splits)
        with True have "huge s1" by (simp add: huge_def)
        with True wrap Val r show thesis
          using rd_u32_Val(1) [OF Val [unfolded r]] by (intro huge [of s1]) (auto simp: run)
      next
        case False
        with True Val r show thesis
          by (intro name [of n s1 "rd_allocs s1 + 1"])
            (auto simp: run rd_skip_unchecked_eq rd_return_def intro!: rd_state.equality)
      qed
    qed
  next
    case (Stop e)
    then show thesis by (intro fail) (simp add: wasmReadName_def rd_bind_def)
  next
    case Unsafe
    then show thesis by simp
  qed
qed

lemma wasmReadName_ok [rd_intros]:
  assumes "\<And>s. huge s \<Longrightarrow> E s" and "k \<le> 1"
  shows "rd_ok E k (wasmReadName al)"
proof (rule rd_okI)
  fix s x s'
  assume *: "wasmReadName al s = Val (x, s')"
  show "suffix (rd_buffer s') (rd_buffer s) \<and> length (rd_buffer s') + k \<le> length (rd_buffer s)"
  proof (cases al s rule: wasmReadName_cases)
    case (name n s1 k')
    with * have "rd_buffer s' = drop (unat n) (rd_buffer s1)" by auto
    with rd_u32_Val [OF name(1)] assms(2) show ?thesis
      by (auto intro: suffix_order.trans suffix_drop)
  qed (use * in simp_all)
next
  fix s
  assume *: "wasmReadName al s = Unsafe"
  show "\<exists>s'. suffix (rd_buffer s') (rd_buffer s) \<and> E s'"
    by (cases al s rule: wasmReadName_cases) (use * assms(1) in auto)
qed

lemma wasmReadBytes_ok [rd_intros]: "k \<le> 1 \<Longrightarrow> rd_ok E k (wasmReadBytes al)"
proof (rule rd_okI)
  assume "k \<le> 1"
  fix s x s'
  assume "wasmReadBytes al s = Val (x, s')"
  then obtain n s1 where "rd_u32 () s = Val (n, s1)" "rd_buffer s' = drop (unat n) (rd_buffer s1)"
    by (auto simp: wasmReadBytes_def rd_bind_def rd_rest_def rd_guard_def rd_calloc_def rd_return_def
        rd_skip_unchecked_eq res_bind_eq_Val split: if_splits)
  with rd_u32_Val [OF this(1)] \<open>k \<le> 1\<close>
  show "suffix (rd_buffer s') (rd_buffer s) \<and> length (rd_buffer s') + k \<le> length (rd_buffer s)"
    by (auto intro: suffix_order.trans suffix_drop)
next
  fix s
  assume "wasmReadBytes al s = Unsafe"
  then have False
    by (auto simp: wasmReadBytes_def rd_bind_def rd_rest_def rd_guard_def rd_calloc_def rd_return_def
        rd_skip_unchecked_eq res_bind_eq_Unsafe split: if_splits)
  then show "\<exists>s'. suffix (rd_buffer s') (rd_buffer s) \<and> E s'" ..
qed

text \<open>Where any state is excused, so is an operation that is \<open>Unsafe\<close>.\<close>

lemma rd_ok_unsafe: "(\<And>s. E s) \<Longrightarrow> rd_ok E k (\<lambda>_. Unsafe)"
  by (auto simp: rd_ok_def intro!: exI [of _ "_ :: rd_state"])

lemma rd_ok_branch:
  "(b \<Longrightarrow> rd_ok E k m) \<Longrightarrow> (\<not> b \<Longrightarrow> rd_ok E k m') \<Longrightarrow> rd_ok E k (if b then m else m')"
  by simp

lemma rd_ok_guard_bind:
  "(c \<Longrightarrow> rd_ok E k (f ())) \<Longrightarrow> rd_ok E k (rd_bind (rd_guard c e) f)"
  by (cases c) (auto simp: rd_ok_def rd_bind_def rd_guard_def)

lemma wasmReadNameSection_ok:
  assumes E: "\<And>s. E s"
  shows "rd_ok E 0 (wasmReadNameSection al m sectionSize)"
proof -
  have name: "rd_ok E 0 (wasmReadFunctionName al c ns)" for c ns
    unfolding wasmReadFunctionName_def
    by (intro rd_ok_bind1 rd_ok_or rd_ok_branch rd_ok_unsafe rd_intros E) simp_all
  have dup: "rd_ok E 0 (wasmFunctionNamesRemoveDuplicates al ns)" for ns
    unfolding wasmFunctionNamesRemoveDuplicates_def
    by (intro rd_ok_bind1 rd_ok_branch rd_ok_unsafe rd_intros E)
  have "rd_ok E 1 (wasmReadNameSubsection al m)" for m
    unfolding wasmReadNameSubsection_def Let_def
    by (intro rd_ok_bind1 rd_ok_branch rd_intros name dup) simp_all
  then show ?thesis
    unfolding wasmReadNameSection_def by (intro rd_ok_bind1 rd_intros)
qed

lemma wasmReadCustomSection_ok:
  assumes "\<And>s. huge s \<Longrightarrow> E s" and "dbg \<Longrightarrow> (\<And>s. E s)"
  shows "rd_ok E 0 (wasmReadCustomSection al dbg m sectionSize)"
  unfolding wasmReadCustomSection_def Let_def
  by (intro rd_ok_bind1 rd_ok_or rd_ok_branch rd_intros wasmReadNameSection_ok assms) simp_all

lemma wasmReadGlobalType_ok [rd_intros]: "k \<le> 1 \<Longrightarrow> rd_ok E k wasmReadGlobalType"
  unfolding wasmReadGlobalType_def by (intro rd_ok_bind1 rd_intros) simp_all

lemma wasmReadLimits_ok [rd_intros]: "k \<le> 1 \<Longrightarrow> rd_ok E k wasmReadLimits"
  unfolding wasmReadLimits_def by (intro rd_ok_bind1 rd_ok_branch rd_intros) simp_all

lemma wasmReadMemoryType_ok [rd_intros]: "k \<le> 1 \<Longrightarrow> rd_ok E k wasmReadMemoryType"
  unfolding wasmReadMemoryType_def by (intro rd_ok_bind1 rd_intros)

lemma wasmReadTableType_ok [rd_intros]: "k \<le> 1 \<Longrightarrow> rd_ok E k wasmReadTableType"
  unfolding wasmReadTableType_def by (intro rd_ok_bind1 rd_intros) simp_all

lemma wasmReadImport_ok:
  assumes "\<And>s. huge s \<Longrightarrow> E s" and "k \<le> 1"
  shows "rd_ok E k (wasmReadImport al m)"
  unfolding wasmReadImport_def wasmReadFunctionImport_def wasmReadGlobalImport_def
    wasmReadMemoryImport_def wasmReadTableImport_def
  by (intro rd_ok_bind1 rd_ok_or rd_ok_branch rd_intros assms) simp_all

lemma wasmReadImportSection_ok:
  "(\<And>s. huge s \<Longrightarrow> E s) \<Longrightarrow> rd_ok E 0 (wasmReadImportSection al m)"
  unfolding wasmReadImportSection_def
  by (intro rd_ok_bind1 rd_intros wasmReadImport_ok) simp_all

lemma wasmReadFunctionDeclaration_ok [rd_intros]:
  "k \<le> 1 \<Longrightarrow> rd_ok E k (wasmReadFunctionDeclaration n)"
  unfolding wasmReadFunctionDeclaration_def by (intro rd_ok_bind1 rd_intros)

lemma wasmReadConstantExpr_ok [rd_intros]: "k \<le> 1 \<Longrightarrow> rd_ok E k wasmReadConstantExpr"
  unfolding wasmReadConstantExpr_def Let_def
  by (intro rd_ok_bind1 rd_ok_branch rd_intros) simp_all

lemma rd_consumed_ok [rd_intros]: "rd_ok E k m \<Longrightarrow> rd_ok E k (rd_consumed m)"
  unfolding rd_consumed_def by (intro rd_ok_bind2 [OF rd_ok_rest] rd_ok_bind1 rd_intros)

lemma wasmReadGlobal_ok [rd_intros]: "rd_ok E 0 wasmReadGlobal"
  unfolding wasmReadGlobal_def by (intro rd_ok_bind1 rd_ok_or rd_intros) simp_all

lemma wasmReadExport_ok: "(\<And>s. huge s \<Longrightarrow> E s) \<Longrightarrow> rd_ok E 0 (wasmReadExport al)"
  unfolding wasmReadExport_def by (intro rd_ok_bind1 rd_ok_or rd_intros) simp_all

text \<open>The index of an exported function is within the functions, unless the two counts wrap.\<close>

lemma export_round_ok:
  assumes "\<And>s. huge s \<Longrightarrow> E s"
    and "length (items (functionImports m)) + length (m_functions m) < 2 ^ 32 \<or> (\<forall>s. E s)"
    and len: "length fs = length (m_functions m)"
  shows "rd_ok E 0 (export_round al m (exs, fs))"
proof -
  have "unat i - length (items (functionImports m)) < length fs \<or> (\<forall>s. E s)"
    if "\<not> i \<ge> functionCount m" "length (items (functionImports m)) \<le> unat i" for i
    using that assms(2) len
    by (auto simp: functionCount_def not_le word_less_nat_alt unat_word_ariths unat_of_nat)
  then show ?thesis
    unfolding export_round_def Let_def split
    by (intro rd_ok_bind1 [OF wasmReadExport_ok [OF assms(1)]] rd_ok_branch rd_ok_guard_bind
        rd_intros rd_ok_unsafe) auto
qed

lemma export_round_length:
  assumes "export_round al m (exs, fs) s = Val ((exs', fs'), s')"
  shows "length fs' = length fs"
  using assms
  by (auto simp: export_round_def rd_bind_def rd_guard_def rd_return_def res_bind_eq_Val Let_def
      split: if_splits)

lemma export_rounds_ok:
  assumes E: "\<And>s. huge s \<Longrightarrow> E s"
    and sum: "length (items (functionImports m)) + length (m_functions m) < 2 ^ 32 \<or> (\<forall>s. E s)"
    and "length fs = length (m_functions m)"
  shows "rd_ok E 0 (rd_iter n (export_round al m) (exs, fs))"
  using assms(3)
proof (induction n arbitrary: exs fs)
  case 0
  then show ?case by (simp add: rd_ok_return)
next
  case (Suc n)
  have "rd_ok E 0 (rd_iter n (export_round al m) x)" if "export_round al m (exs, fs) s = Val (x, s')"
    for s x s'
    using that export_round_length [of al m exs fs s "fst x" "snd x" s'] Suc.prems Suc.IH by (cases x) simp
  then have "rd_ok E (0 + 0) (rd_bind (export_round al m (exs, fs)) (rd_iter n (export_round al m)))"
    by (intro rd_ok_bind_val export_round_ok E sum Suc.prems)
  then show ?case by simp
qed

lemma wasmReadExportSection_ok:
  assumes E: "\<And>s. huge s \<Longrightarrow> E s"
    and sum: "length (items (functionImports m)) + length (m_functions m) < 2 ^ 32 \<or> (\<forall>s. E s)"
  shows "rd_ok E 0 (wasmReadExportSection al m)"
proof -
  have "rd_ok E 0 (rd_return (m\<lparr>exports := exs, m_functions := fs\<rparr>))" for exs fs
    by (rule rd_ok_return)
  then show ?thesis
    unfolding wasmReadExportSection_def
    by (intro rd_ok_bind1 rd_intros export_rounds_ok [OF E sum]) (auto split: prod.splits)
qed

lemma wasmReadCodeLocalsDeclarations_ok [rd_intros]:
  "k \<le> 1 \<Longrightarrow> rd_ok E k (wasmReadCodeLocalsDeclarations al)"
  unfolding wasmReadCodeLocalsDeclarations_def
  by (intro rd_ok_bind1 rd_ok_branch rd_intros) simp_all

text \<open>A body is read safely unless its declarations overrun it.\<close>

lemma unat_minus_of_nat:
  assumes "k \<le> unat n"
  shows "unat (n - of_nat k) = unat (n :: u32) - k"
proof -
  have k: "unat (of_nat k :: u32) = k"
    using assms unat_u32_less [of n] by (simp add: unat_of_nat)
  with assms have "of_nat k \<le> n" by (simp add: word_le_nat_alt)
  then have "unat (n - of_nat k) = unat n - unat (of_nat k :: u32)" by (rule unat_sub)
  with k show ?thesis by simp
qed

lemma wasmReadCode_cases:
  obtains (fail) e where "wasmReadCode al ml cs f s = Stop e"
  | (overrun) "locals_overrun al s"
  | (body) n s1 ls s2 where "rd_u32 () s = Val (n, s1)" "unat n \<le> length (rd_buffer s1)"
      "wasmReadCodeLocalsDeclarations al s1 = Val (ls, s2)"
      "length (rd_buffer s1) - length (rd_buffer s2) \<le> unat n"
      "suffix (rd_buffer s2) (rd_buffer s1)"
      "wasmReadCode al ml cs f s =
         Val (f\<lparr>code_hash := SHA1 (take (unat n) (rd_buffer s1)), localsDeclarations := ls,
                code_start := ml - length (rd_buffer s2) - cs,
                code := drop (length (rd_buffer s1) - length (rd_buffer s2))
                             (take (unat n) (rd_buffer s1))\<rparr>,
              s2\<lparr>rd_buffer := drop (unat n) (rd_buffer s1)\<rparr>)"
proof -
  note run = wasmReadCode_def rd_bind_def rd_rest_def rd_guard_def rd_or_def Let_def
  have u: "rd_u32 e s = (case rd_u32 () s of Val r \<Rightarrow> Val r | Stop _ \<Rightarrow> Stop e | Unsafe \<Rightarrow> Unsafe)"
    for e :: WasmModuleReaderErrorCode
    by (simp add: rd_u32_def rd_leb_def split: prod.split)
  show thesis
  proof (cases "rd_u32 () s")
    case (Val r)
    obtain n s1 where r: "r = (n, s1)" by (cases r)
    show thesis
    proof (cases "unat n \<le> length (rd_buffer s1)")
      case le: True
      show thesis
      proof (cases "wasmReadCodeLocalsDeclarations al s1")
        case locs: (Val q)
        obtain ls s2 where q: "q = (ls, s2)" by (cases q)
        have suf: "suffix (rd_buffer s2) (rd_buffer s1)"
          using rd_okD(1) [OF wasmReadCodeLocalsDeclarations_ok [of 0]] locs q by simp
        let ?d = "length (rd_buffer s1) - length (rd_buffer s2)"
        show thesis
        proof (cases "?d \<le> unat n")
          case True
          have c: "unat (n - of_nat ?d) = unat n - ?d"
            using True by (rule unat_minus_of_nat)
          obtain z where z: "rd_buffer s1 = z @ rd_buffer s2" using suf by (auto simp: suffix_def)
          have zn: "length z \<le> unat n" using True z by simp
          have skip: "unat n - ?d \<le> length (rd_buffer s2)" using le z by simp
          have dd: "drop (unat n - ?d) (rd_buffer s2) = drop (unat n) (rd_buffer s1)"
            using zn by (simp add: z)
          have dt: "take (unat n - ?d) (rd_buffer s2) = drop ?d (take (unat n) (rd_buffer s1))"
            using zn by (simp add: z)
          show thesis
          proof (rule body)
            show "wasmReadCode al ml cs f s =
               Val (f\<lparr>code_hash := SHA1 (take (unat n) (rd_buffer s1)), localsDeclarations := ls,
                code_start := ml - length (rd_buffer s2) - cs,
                code := drop ?d (take (unat n) (rd_buffer s1))\<rparr>,
                s2\<lparr>rd_buffer := drop (unat n) (rd_buffer s1)\<rparr>)"
              using Val r le locs q
              by (simp add: run u c skip rd_skip_unchecked_eq dd dt rd_return_def del: of_nat_diff)
          qed (use Val r le locs q True suf in simp_all)
        next
          case False
          with Val r le locs q show thesis by (intro overrun) (auto simp: locals_overrun_def)
        qed
      next
        case (Stop e)
        with Val r le show thesis by (intro fail) (simp add: run u)
      next
        case Unsafe
        with rd_okD(3) [OF wasmReadCodeLocalsDeclarations_ok [where E = "\<lambda>_. False" and k = 0]]
        show thesis by blast
      qed
    next
      case False
      with Val r show thesis by (intro fail) (simp add: run u)
    qed
  next
    case (Stop e)
    then show thesis by (intro fail) (simp add: run u)
  qed simp
qed

lemma rd_ok_skip_unchecked: "(\<And>s. E s) \<Longrightarrow> rd_ok E 0 (rd_skip_unchecked n)"
  by (auto intro!: rd_okI exI [of _ "_ :: rd_state"]
      simp: rd_skip_unchecked_def bufferSkipUnchecked_def suffix_drop split: if_splits)

lemma wasmReadCode_ok:
  assumes "\<And>s. locals_overrun al s \<Longrightarrow> E s"
  shows "rd_ok E 0 (wasmReadCode al ml cs f)"
proof (rule rd_okI)
  have ok: "rd_ok (\<lambda>_. True) 0 (wasmReadCode al ml cs f)"
    unfolding wasmReadCode_def Let_def
    by (intro rd_ok_bind1 rd_ok_or rd_intros rd_ok_skip_unchecked) simp_all
  show "suffix (rd_buffer s') (rd_buffer s) \<and> length (rd_buffer s') + 0 \<le> length (rd_buffer s)"
    if "wasmReadCode al ml cs f s = Val (x, s')" for s x s'
    using rd_okD(1,2) [OF ok that] by simp
  show "\<exists>s'. suffix (rd_buffer s') (rd_buffer s) \<and> E s'" if "wasmReadCode al ml cs f s = Unsafe" for s
    using that assms by (cases al ml cs f s rule: wasmReadCode_cases) auto
qed

lemma wasmReadCodeSection_ok:
  "(\<And>s. locals_overrun al s \<Longrightarrow> E s) \<Longrightarrow> rd_ok E 0 (wasmReadCodeSection al m)"
  unfolding wasmReadCodeSection_def Let_def
  by (intro rd_ok_bind1 rd_intros wasmReadCode_ok) simp_all

lemma wasmReadDataSegment_ok [rd_intros]: "rd_ok E 0 (wasmReadDataSegment al)"
  unfolding wasmReadDataSegment_def
  by (intro rd_ok_bind1 rd_ok_or rd_ok_branch rd_intros) simp_all

lemma wasmReadElementSegment_ok [rd_intros]: "rd_ok E 0 (wasmReadElementSegment al)"
  unfolding wasmReadElementSegment_def by (intro rd_ok_bind1 rd_ok_or rd_intros) simp_all

lemmas plain_sections = wasmReadTypeSection_def wasmReadFunctionSection_def wasmReadTableSection_def
  wasmReadMemorySection_def wasmReadGlobalSection_def wasmReadStartSection_def
  wasmReadElementSection_def wasmReadDataSection_def wasmReadDataCountSection_def

lemma wasmSectionReaders_ok:
  assumes huge: "\<And>s. huge s \<Longrightarrow> E s" and body: "i = 10 \<Longrightarrow> (\<And>s. locals_overrun al s \<Longrightarrow> E s)"
    and dbg: "dbg \<Longrightarrow> (\<And>s. E s)"
    and sum: "length (items (functionImports m)) + length (m_functions m) < 2 ^ 32 \<or> (\<forall>s. E s)"
    and "wasmSectionReaders al dbg i = Some rd"
  shows "rd_ok E 0 (rd m n)"
proof -
  have plain: "rd_ok E 0 (wasmReadTypeSection al m)" "rd_ok E 0 (wasmReadFunctionSection al m)"
    "rd_ok E 0 (wasmReadTableSection al m)" "rd_ok E 0 (wasmReadMemorySection al m)"
    "rd_ok E 0 (wasmReadGlobalSection al m)" "rd_ok E 0 (wasmReadStartSection m)"
    "rd_ok E 0 (wasmReadElementSection al m)" "rd_ok E 0 (wasmReadDataSection al m)"
    "rd_ok E 0 (wasmReadDataCountSection m)"
    unfolding plain_sections by (intro rd_ok_bind1 rd_intros; simp)+
  have "rd_ok E 0 (wasmReadCustomSection al dbg m n)" "rd_ok E 0 (wasmReadImportSection al m)"
    "rd_ok E 0 (wasmReadExportSection al m)" "i = 10 \<Longrightarrow> rd_ok E 0 (wasmReadCodeSection al m)"
    using huge body dbg sum
    by (auto intro!: wasmReadCustomSection_ok wasmReadImportSection_ok
        wasmReadExportSection_ok wasmReadCodeSection_ok)
  with plain assms(5) show ?thesis
    by (auto simp: wasmSectionReaders_def split: if_splits)
qed

lemma wasmModuleReadSection_ok:
  assumes E: "\<And>s. hazard al s \<Longrightarrow> E s" and dbg: "dbg \<Longrightarrow> (\<And>s. E s)"
    and sum: "length (items (functionImports m)) + length (m_functions m) < 2 ^ 32 \<or> (\<forall>s. E s)"
  shows "rd_ok E 1 (wasmModuleReadSection al dbg m)"
proof -
  have "rd_ok E 0 (rd m n)" if "wasmSectionReaders al dbg i = Some rd" for i n rd
    by (rule wasmSectionReaders_ok [OF _ _ dbg sum that]) (auto intro: E simp: hazard_def)
  then show ?thesis
    unfolding wasmModuleReadSection_def
    by (intro rd_ok_bind1 rd_intros) (auto split: option.split intro!: rd_ok_bind1 rd_intros)
qed

section \<open>Functions and imports are bounded by the input\<close>

text \<open>
  Every function and function import costs at least a byte, so their numbers cannot wrap: no section
  makes the number of them plus the bytes left grow.
\<close>

definition entities :: "WasmModule \<Rightarrow> nat" where
  "entities m = length (items (functionImports m)) + length (m_functions m)"

definition bounded :: "WasmModule \<Rightarrow> WasmModule reader \<Rightarrow> bool" where
  "bounded m rd \<longleftrightarrow> (\<forall>s m' s'. rd s = Val (m', s') \<longrightarrow>
     entities m' + length (rd_buffer s') \<le> entities m + length (rd_buffer s))"

lemma boundedD:
  "bounded m rd \<Longrightarrow> rd s = Val (m', s') \<Longrightarrow>
   entities m' + length (rd_buffer s') \<le> entities m + length (rd_buffer s)"
  by (simp add: bounded_def)

lemma entities_simps [simp]:
  "entities (m\<lparr>functionTypes := ts\<rparr>) = entities m" "entities (m\<lparr>exports := es\<rparr>) = entities m"
  "entities (m\<lparr>globals := gs\<rparr>) = entities m" "entities (m\<lparr>globalImports := gis\<rparr>) = entities m"
  "entities (m\<lparr>memoryImports := mis\<rparr>) = entities m" "entities (m\<lparr>memories := ms\<rparr>) = entities m"
  "entities (m\<lparr>dataSegments := ds\<rparr>) = entities m" "entities (m\<lparr>tableImports := tis\<rparr>) = entities m"
  "entities (m\<lparr>m_tables := tbs\<rparr>) = entities m" "entities (m\<lparr>elementSegments := els\<rparr>) = entities m"
  "entities (m\<lparr>startFunctionIndex := i\<rparr>) = entities m"
  "entities (m\<lparr>debugSections := dbgs\<rparr>) = entities m" "entities (m\<lparr>functionNames := ns\<rparr>) = entities m"
  by (simp_all add: entities_def)

lemma bounded_return: "entities m' = entities m \<Longrightarrow> bounded m (rd_return m')"
  by (simp add: bounded_def rd_return_def)

lemma bounded_bind:
  assumes "rd_ok (\<lambda>_. True) 0 p" and "\<And>x. bounded m (f x)"
  shows "bounded m (rd_bind p f)"
  unfolding bounded_def
proof (intro allI impI)
  fix s m' s'
  assume "rd_bind p f s = Val (m', s')"
  then obtain x s1 where 1: "p s = Val (x, s1)" and 2: "f x s1 = Val (m', s')"
    by (auto simp: rd_bind_def res_bind_eq_Val)
  from rd_okD(2) [OF assms(1) 1] boundedD [OF assms(2) 2]
  show "entities m' + length (rd_buffer s') \<le> entities m + length (rd_buffer s)" by simp
qed

lemma bounded_branch: "(b \<Longrightarrow> bounded m p) \<Longrightarrow> (\<not> b \<Longrightarrow> bounded m q) \<Longrightarrow> bounded m (if b then p else q)"
  by simp

lemma bounded_plain:
  "bounded m (wasmReadTypeSection al m)" "bounded m (wasmReadTableSection al m)"
  "bounded m (wasmReadMemorySection al m)" "bounded m (wasmReadGlobalSection al m)"
  "bounded m (wasmReadStartSection m)" "bounded m (wasmReadElementSection al m)"
  "bounded m (wasmReadDataSection al m)" "bounded m (wasmReadDataCountSection m)"
  unfolding plain_sections by (intro bounded_bind bounded_return rd_intros; simp)+

lemma bounded_function: "bounded m (wasmReadFunctionSection al m)"
proof -
  have ok: "rd_ok (\<lambda>_. True) 1 (wasmReadFunctionDeclaration n)" for n
    by (rule wasmReadFunctionDeclaration_ok) simp
  show ?thesis
    using rd_vec_length [OF ok]
    by (fastforce simp: bounded_def wasmReadFunctionSection_def rd_bind_def rd_return_def
        res_bind_eq_Val entities_def)
qed

lemma wasmReadImport_entities:
  assumes "wasmReadImport al m s = Val (m', s')"
  shows "entities m' \<le> entities m + 1"
proof -
  note [dest!] = arrayAppend_Val(1)
  show ?thesis
    using assms
    unfolding wasmReadImport_def wasmReadFunctionImport_def wasmReadGlobalImport_def
      wasmReadMemoryImport_def wasmReadTableImport_def
    by (auto simp: rd_bind_def rd_return_def rd_fail_def res_bind_eq_Val entities_def
        split: if_splits)
qed

lemma bounded_import: "bounded m (wasmReadImportSection al m)"
proof -
  have one: "rd_ok (\<lambda>_. True) 1 (wasmReadImport al m)" for m
    by (rule wasmReadImport_ok) simp_all
  have "bounded m (rd_iter n (wasmReadImport al) m)" for n
  proof (induction n arbitrary: m)
    case 0
    then show ?case by (simp add: bounded_return)
  next
    case (Suc n)
    show ?case
      unfolding bounded_def
    proof (intro allI impI)
      fix s m' s'
      assume "rd_iter (Suc n) (wasmReadImport al) m s = Val (m', s')"
      then obtain m1 s1 where 1: "wasmReadImport al m s = Val (m1, s1)"
        and 2: "rd_iter n (wasmReadImport al) m1 s1 = Val (m', s')"
        by (auto simp: rd_bind_def res_bind_eq_Val)
      from wasmReadImport_entities [OF 1] rd_okD(2) [OF one 1] boundedD [OF Suc.IH 2]
      show "entities m' + length (rd_buffer s') \<le> entities m + length (rd_buffer s)" by simp
    qed
  qed
  then show ?thesis
    unfolding wasmReadImportSection_def by (intro bounded_bind rd_intros) simp_all
qed

lemma export_rounds_length:
  "rd_iter n (export_round al m) (exs, fs) s = Val ((exs', fs'), s') \<Longrightarrow> length fs' = length fs"
proof (induction n arbitrary: exs fs s)
  case 0
  then show ?case by (simp add: rd_return_def)
next
  case (Suc n)
  then obtain exs1 fs1 s1 where "export_round al m (exs, fs) s = Val ((exs1, fs1), s1)"
    and "rd_iter n (export_round al m) (exs1, fs1) s1 = Val ((exs', fs'), s')"
    by (auto simp: rd_bind_def res_bind_eq_Val)
  with Suc.IH export_round_length show ?case by fastforce
qed

lemma bounded_export: "bounded m (wasmReadExportSection al m)"
  unfolding bounded_def
proof (intro allI impI)
  fix s m' s'
  assume *: "wasmReadExportSection al m s = Val (m', s')"
  then have "entities m' = entities m"
    by (auto simp: wasmReadExportSection_def rd_bind_def rd_return_def res_bind_eq_Val entities_def
        dest!: export_rounds_length)
  moreover have ok: "rd_ok (\<lambda>_. True) 0 (wasmReadExportSection al m)"
    by (rule wasmReadExportSection_ok) simp_all
  ultimately show "entities m' + length (rd_buffer s') \<le> entities m + length (rd_buffer s)"
    using rd_okD(2) [OF ok *] by simp
qed

lemma rd_map_length: "rd_map f xs s = Val (ys, s') \<Longrightarrow> length ys = length xs"
  by (induction xs arbitrary: s ys s') (auto simp: rd_bind_def rd_return_def res_bind_eq_Val)

lemma bounded_code: "bounded m (wasmReadCodeSection al m)"
  unfolding bounded_def
proof (intro allI impI)
  fix s m' s'
  assume *: "wasmReadCodeSection al m s = Val (m', s')"
  then have "entities m' = entities m"
    by (auto simp: wasmReadCodeSection_def rd_bind_def rd_return_def res_bind_eq_Val entities_def
        Let_def dest!: rd_map_length)
  moreover have ok: "rd_ok (\<lambda>_. True) 0 (wasmReadCodeSection al m)"
    by (rule wasmReadCodeSection_ok) simp_all
  ultimately show "entities m' + length (rd_buffer s') \<le> entities m + length (rd_buffer s)"
    using rd_okD(2) [OF ok *] by simp
qed

lemma wasmReadNameSubsection_ok: "rd_ok (\<lambda>_. True) 1 (wasmReadNameSubsection al m)"
  unfolding wasmReadNameSubsection_def Let_def wasmReadFunctionName_def
    wasmFunctionNamesRemoveDuplicates_def
  by (intro rd_ok_bind1 rd_ok_or rd_ok_branch rd_ok_unsafe rd_intros) simp_all

lemma wasmReadNameSubsection_entities:
  "wasmReadNameSubsection al m s = Val (m', s') \<Longrightarrow> entities m' = entities m"
  by (auto simp: wasmReadNameSubsection_def rd_bind_def rd_return_def res_bind_eq_Val Let_def
      split: if_splits)

lemma bounded_custom: "bounded m (wasmReadCustomSection al dbg m n)"
proof -
  have "bounded m (wasmReadNameSection al m n)" for n
    unfolding bounded_def
  proof (intro allI impI)
    fix s m' s'
    assume "wasmReadNameSection al m n s = Val (m', s')"
    then have "rd_while (\<lambda>_ s'. length (rd_buffer s) < length (rd_buffer s') + unat n)
        (wasmReadNameSubsection al) m s = Val (m', s')"
      by (simp add: wasmReadNameSection_def rd_bind_def rd_rest_def)
    from rd_while_Val [OF wasmReadNameSubsection_ok this, where I = "\<lambda>x _. entities x = entities m"]
    have "entities m' = entities m \<and> suffix (rd_buffer s') (rd_buffer s)"
      by (metis wasmReadNameSubsection_entities)
    then show "entities m' + length (rd_buffer s') \<le> entities m + length (rd_buffer s)"
      by (simp add: suffix_length_le)
  qed
  then show ?thesis
    unfolding wasmReadCustomSection_def Let_def
    by (intro bounded_bind bounded_branch bounded_return rd_ok_or rd_intros) simp_all
qed

lemma bounded_check:
  "bounded m p \<Longrightarrow>
   bounded m (rd_bind p (\<lambda>m'. rd_bind rd_rest (\<lambda>after. rd_bind (rd_guard (g after) e) (\<lambda>_. rd_return m'))))"
  by (auto simp: bounded_def rd_bind_def rd_rest_def rd_guard_def rd_return_def res_bind_eq_Val
      split: if_splits)

lemma bounded_section: "bounded m (wasmModuleReadSection al dbg m)"
proof -
  have reader: "bounded m (rd m n)" if "wasmSectionReaders al dbg i = Some rd" for i n rd
    using that bounded_plain bounded_function bounded_import bounded_export bounded_code bounded_custom
    by (auto simp: wasmSectionReaders_def split: if_splits)
  have skip: "bounded m (rd_bind (rd_skip n) (\<lambda>_. rd_return m))" for n
    by (intro bounded_bind rd_intros bounded_return refl)
  have read: "bounded m (rd_bind rd_rest (\<lambda>start. rd_bind (rd m n) (\<lambda>m'. rd_bind rd_rest (\<lambda>after.
      rd_bind (rd_guard (g start after) e) (\<lambda>_. rd_return m')))))"
    if "wasmSectionReaders al dbg i = Some rd" for i n rd g e
    by (intro bounded_bind [OF rd_ok_rest] bounded_check reader [OF that])
  show ?thesis
    unfolding wasmModuleReadSection_def
    by (intro bounded_bind rd_intros) (auto split: option.split intro: skip read)
qed

section \<open>The bodies the reader reaches\<close>

text \<open>
  \<open>sections_read al bytes m s\<close>: the reader, started on the file, has read whole sections, has made \<open>m\<close> of them and
  stands at \<open>s\<close>. \<open>body_reached al bytes s\<close>: it then takes a code section, and in its loop over the functions it
  has read the bodies of some and is about to read the next one at \<open>s\<close>.
\<close>

inductive sections_read :: "allocator \<Rightarrow> u8 list \<Rightarrow> WasmModule \<Rightarrow> rd_state \<Rightarrow> bool" for al bytes where
  at_start: "wasmModuleReadMagic (input bytes 0) = Val ((), s0) \<Longrightarrow>
    rd_calloc al wasmModuleReaderAllocationFailed 1 312 s0 = Val ((), s) \<Longrightarrow>
    sections_read al bytes (emptyWasmModule (length bytes)) s"
| one_section: "sections_read al bytes m s \<Longrightarrow> \<not> bufferAtEnd (rd_buffer s) \<Longrightarrow>
    wasmModuleReadSection al False m s = Val (m', s') \<Longrightarrow> sections_read al bytes m' s'"

definition body_reached :: "allocator \<Rightarrow> u8 list \<Rightarrow> rd_state \<Rightarrow> bool" where
  "body_reached al bytes s \<longleftrightarrow> (\<exists>m s1 s2 n s3 s4 fs f gs ys.
     sections_read al bytes m s1
     \<and> rd_byte wasmModuleReaderInvalidSectionID s1 = Val (10, s2)
     \<and> rd_u32 wasmModuleReaderInvalidSectionSize s2 = Val (n, s3)
     \<and> rd_u32 wasmModuleReaderInvalidCodeSectionFunctionCount s3 = Val (of_nat (length (m_functions m)), s4)
     \<and> m_functions m = fs @ f # gs
     \<and> rd_map (wasmReadCode al (m_length m) (m_length m - length (rd_buffer s3))) fs s4 = Val (ys, s))"

lemma rd_u32_any:
  "rd_u32 (e :: WasmModuleReaderErrorCode) s = (case rd_u32 () s of Val r \<Rightarrow> Val r | Stop _ \<Rightarrow> Stop e | Unsafe \<Rightarrow> Unsafe)"
  by (simp add: rd_u32_def rd_leb_def split: prod.split)

text \<open>On a file below 4 GiB such a body is fatal: the size that is left wraps past everything there is.\<close>

lemma unat_minus_wraps:
  assumes "unat n < k" "k < 2 ^ 32"
  shows "unat (n - of_nat k) = 2 ^ 32 + unat (n :: u32) - k"
proof -
  have k: "unat (of_nat k :: u32) = k" using assms(2) by (simp add: unat_of_nat)
  then show ?thesis using assms(1) unat_sub_if' [of n "of_nat k"] by simp
qed

lemma wasmReadCode_overrun:
  assumes "locals_overrun al s" "length (rd_buffer s) < 2 ^ 32 - 1"
  shows "wasmReadCode al ml cs f s = Unsafe"
proof -
  obtain n s1 ls s2 where r: "rd_u32 () s = Val (n, s1)" "unat n \<le> length (rd_buffer s1)"
      "wasmReadCodeLocalsDeclarations al s1 = Val (ls, s2)" "unat n < length (rd_buffer s1) - length (rd_buffer s2)"
    using assms(1) by (auto simp: locals_overrun_def)
  let ?k = "length (rd_buffer s1) - length (rd_buffer s2)"
  have len: "length (rd_buffer s1) < 2 ^ 32 - 1" using rd_u32_Val(2) [OF r(1)] assms(2) by simp
  have suf: "length (rd_buffer s2) \<le> length (rd_buffer s1)"
    using rd_okD(2) [OF wasmReadCodeLocalsDeclarations_ok [of 0] r(3)] by simp
  have k: "?k < 2 ^ 32" using len by simp
  have "length (rd_buffer s2) < unat (n - of_nat ?k)"
    unfolding unat_minus_wraps [OF r(4) k] using len suf by simp
  then show ?thesis
    using r(1,2,3)
    by (simp add: wasmReadCode_def rd_bind_def rd_rest_def rd_guard_def rd_or_def Let_def rd_u32_any [of _ s]
        rd_skip_unchecked_def bufferSkipUnchecked_def del: of_nat_diff)
qed

text \<open>Only the code section can go wrong, and only in the body it has come to.\<close>

lemma rd_map_Unsafe:
  "rd_map f xs s = Unsafe \<Longrightarrow>
   \<exists>us x vs ys s'. xs = us @ x # vs \<and> rd_map f us s = Val (ys, s') \<and> f x s' = Unsafe"
proof (induction xs arbitrary: s)
  case (Cons x xs)
  show ?case
  proof (cases "f x s")
    case (Val r)
    obtain y s1 where r: "r = (y, s1)" by (cases r)
    have "rd_map f xs s1 = Unsafe"
      using Cons.prems Val r by (auto simp: rd_bind_def rd_return_def res_bind_eq_Unsafe)
    then obtain us z vs ys s' where "xs = us @ z # vs" "rd_map f us s1 = Val (ys, s')" "f z s' = Unsafe"
      using Cons.IH by blast
    moreover from this(2) have "rd_map f (x # us) s = Val (y # ys, s')"
      using Val r by (simp add: rd_bind_def rd_return_def)
    ultimately show ?thesis by (metis append_Cons)
  next
    case Unsafe
    then have "x # xs = [] @ x # xs \<and> rd_map f [] s = Val ([], s) \<and> f x s = Unsafe" by (simp add: rd_return_def)
    then show ?thesis by blast
  qed (use Cons.prems in \<open>simp add: rd_bind_def\<close>)
qed (simp add: rd_return_def)

lemma rd_map_app_Unsafe:
  "rd_map f us s = Val (ys, s') \<Longrightarrow> f x s' = Unsafe \<Longrightarrow> rd_map f (us @ x # vs) s = Unsafe"
  by (induction us arbitrary: s ys) (auto simp: rd_bind_def rd_return_def res_bind_eq_Val)

lemma wasmModuleReadSection_Unsafe:
  assumes unsafe: "wasmModuleReadSection al False m s = Unsafe"
    and len: "length (rd_buffer s) < 2 ^ 32 - 1" and sum: "length (items (functionImports m)) + length (m_functions m) < 2 ^ 32"
  obtains s2 n s3 where "rd_byte wasmModuleReaderInvalidSectionID s = Val (10, s2)"
    "rd_u32 wasmModuleReaderInvalidSectionSize s2 = Val (n, s3)" "wasmReadCodeSection al m s3 = Unsafe"
proof -
  have byte: "rd_byte e t \<noteq> Unsafe" for e :: WasmModuleReaderErrorCode and t
    by (simp add: rd_byte_def rd_option_def split: option.split)
  obtain i s2 where b: "rd_byte wasmModuleReaderInvalidSectionID s = Val (i, s2)"
    using unsafe byte by (auto simp: wasmModuleReadSection_def rd_bind_def res_bind_eq_Unsafe)
  obtain n s3 where n: "rd_u32 wasmModuleReaderInvalidSectionSize s2 = Val (n, s3)"
    using unsafe b by (auto simp: wasmModuleReadSection_def rd_bind_def res_bind_eq_Unsafe)
  have "rd_ok (\<lambda>_. True) 1 (rd_byte wasmModuleReaderInvalidSectionID :: u8 reader)" by (rule rd_ok_byte) simp
  from rd_okD(2) [OF this b] rd_u32_Val(2) [OF n] have l3: "length (rd_buffer s3) < 2 ^ 32 - 1" using len by simp
  obtain rd where rd: "wasmSectionReaders al False i = Some rd" "rd m n s3 = Unsafe"
  proof (cases "wasmSectionReaders al False i")
    case None
    then show thesis
      using unsafe b n by (auto simp: wasmModuleReadSection_def rd_bind_def rd_skip_def rd_return_def)
  next
    case (Some rd)
    then show thesis
      using unsafe b n
      by (intro that [of rd])
        (auto simp: wasmModuleReadSection_def rd_bind_def rd_rest_def rd_guard_def rd_return_def res_bind_eq_Unsafe split: if_splits)
  qed
  have "i = 10"
  proof (rule ccontr)
    assume i: "i \<noteq> 10"
    have "rd_ok huge 0 (rd m n)"
      by (rule wasmSectionReaders_ok [OF _ _ _ _ rd(1)]) (use i sum in auto)
    from rd_okD(3) [OF this rd(2)] obtain s' where "suffix (rd_buffer s') (rd_buffer s3)" "huge s'" by blast
    then show False using l3 suffix_length_le by (fastforce simp: huge_def)
  qed
  then have "wasmReadCodeSection al m s3 = Unsafe" using rd by (auto simp: wasmSectionReaders_def)
  then show thesis using b n \<open>i = 10\<close> by (intro that) auto
qed

lemma wasmReadCodeSection_Unsafe:
  "wasmReadCodeSection al m s = Unsafe \<longleftrightarrow> (\<exists>s4 fs f gs ys s'.
     rd_u32 wasmModuleReaderInvalidCodeSectionFunctionCount s = Val (of_nat (length (m_functions m)), s4)
     \<and> m_functions m = fs @ f # gs
     \<and> rd_map (wasmReadCode al (m_length m) (m_length m - length (rd_buffer s))) fs s4 = Val (ys, s')
     \<and> wasmReadCode al (m_length m) (m_length m - length (rd_buffer s)) f s' = Unsafe)"
  (is "?l \<longleftrightarrow> ?r")
proof
  assume ?l
  then obtain s4 where "rd_u32 wasmModuleReaderInvalidCodeSectionFunctionCount s = Val (of_nat (length (m_functions m)), s4)"
    "rd_map (wasmReadCode al (m_length m) (m_length m - length (rd_buffer s))) (m_functions m) s4 = Unsafe"
    by (auto simp: wasmReadCodeSection_def rd_bind_def rd_rest_def rd_guard_def rd_return_def Let_def
        res_bind_eq_Unsafe split: if_splits)
  with rd_map_Unsafe [OF this(2)] show ?r by metis
next
  assume ?r
  then show ?l
    by (auto simp: wasmReadCodeSection_def rd_bind_def rd_rest_def rd_guard_def Let_def rd_map_app_Unsafe)
qed

section \<open>The whole reader\<close>

abbreviation section_rounds :: "allocator \<Rightarrow> WasmModule \<Rightarrow> WasmModule reader" where
  "section_rounds al \<equiv> rd_while (\<lambda>_ s. \<not> bufferAtEnd (rd_buffer s)) (wasmModuleReadSection al False)"

lemma section_rounds_step:
  "\<not> bufferAtEnd (rd_buffer s) \<Longrightarrow> wasmModuleReadSection al False m s = Val (m', s') \<Longrightarrow>
   section_rounds al m s = section_rounds al m' s'"
  "\<not> bufferAtEnd (rd_buffer s) \<Longrightarrow> wasmModuleReadSection al False m s = Unsafe \<Longrightarrow> section_rounds al m s = Unsafe"
  by (simp_all add: rd_while_def rd_loop.simps [of _ _ m s])

lemma sections_read_bound:
  "sections_read al bytes m s \<Longrightarrow>
   suffix (rd_buffer s) bytes \<and> entities m + length (rd_buffer s) \<le> length bytes"
proof (induction rule: sections_read.induct)
  case (at_start s0 s)
  have "suffix (rd_buffer s0) bytes"
    using rd_okD(1) [OF rd_ok_magic [where E = "\<lambda>_. True"], of "input bytes 0"] at_start(1) by simp
  moreover have "rd_buffer s = rd_buffer s0" using at_start(2) by (auto simp: rd_calloc_def split: if_splits)
  ultimately show ?case using suffix_length_le by (fastforce simp: entities_def emptyWasmModule_def empty_array_def)
next
  case (one_section m s m' s')
  have "rd_ok (\<lambda>_. True) 1 (wasmModuleReadSection al False m)" by (rule wasmModuleReadSection_ok) simp_all
  from rd_okD(1) [OF this one_section(3)] boundedD [OF bounded_section one_section(3)] one_section(4) show ?case
    by (auto intro: suffix_order.trans)
qed

lemma sections_read_run:
  "sections_read al bytes m s \<Longrightarrow> wasmModuleRead al False bytes = res_bind (section_rounds al m s) (\<lambda>(m, _). Val m)"
  by (induction rule: sections_read.induct) (simp_all add: wasmModuleRead_def rd_bind_def section_rounds_step(1))

lemma reader_reaches_overrun:
  assumes len: "length bytes < 2 ^ 32 - 1" and unsafe: "wasmModuleRead al False bytes = Unsafe"
  shows "\<exists>s. body_reached al bytes s \<and> locals_overrun al s"
proof -
  let ?body = "wasmModuleReadSection al False" and ?c = "\<lambda>_ s. \<not> bufferAtEnd (rd_buffer s)"
  have magic: "wasmModuleReadMagic (input bytes 0) \<noteq> Unsafe"
    by (simp add: wasmModuleReadMagic_def rd_option_def split: option.split)
  have ok: "rd_ok (\<lambda>_. True) 1 (?body m)" for m
    by (rule wasmModuleReadSection_ok) simp_all
  from magic unsafe obtain s0 where s0: "wasmModuleReadMagic (input bytes 0) = Val ((), s0)"
    by (cases "wasmModuleReadMagic (input bytes 0)") (auto simp: wasmModuleRead_def rd_bind_def)
  obtain s where s: "rd_calloc al wasmModuleReaderAllocationFailed 1 312 s0 = Val ((), s)"
    using unsafe s0 by (auto simp: wasmModuleRead_def rd_bind_def rd_calloc_def split: if_splits)
  note start = sections_read.at_start [OF s0 s]
  have loop: "rd_while ?c ?body (emptyWasmModule (length bytes)) s = Unsafe"
    using unsafe sections_read_run [OF start] by (auto simp: res_bind_eq_Unsafe)
  obtain m s' where m: "sections_read al bytes m s'" and bad: "?body m s' = Unsafe"
    using rd_while_Unsafe [where I = "sections_read al bytes", OF ok loop start] sections_read.one_section by metis
  have b: "length (rd_buffer s') < 2 ^ 32 - 1" "length (items (functionImports m)) + length (m_functions m) < 2 ^ 32"
    using sections_read_bound [OF m] len by (simp_all add: entities_def)
  obtain s2 n s3 where 1: "rd_byte wasmModuleReaderInvalidSectionID s' = Val (10, s2)"
    "rd_u32 wasmModuleReaderInvalidSectionSize s2 = Val (n, s3)" "wasmReadCodeSection al m s3 = Unsafe"
    by (rule wasmModuleReadSection_Unsafe [OF bad b])
  then obtain s4 fs f gs ys t where 2: "rd_u32 wasmModuleReaderInvalidCodeSectionFunctionCount s3 = Val (of_nat (length (m_functions m)), s4)"
    "m_functions m = fs @ f # gs" "rd_map (wasmReadCode al (m_length m) (m_length m - length (rd_buffer s3))) fs s4 = Val (ys, t)"
    "wasmReadCode al (m_length m) (m_length m - length (rd_buffer s3)) f t = Unsafe"
    unfolding wasmReadCodeSection_Unsafe by blast
  have "locals_overrun al t"
    by (cases al "m_length m" "m_length m - length (rd_buffer s3)" f t rule: wasmReadCode_cases) (use 2(4) in simp_all)
  moreover have "body_reached al bytes t" using m 1(1,2) 2(1-3) unfolding body_reached_def by blast
  ultimately show ?thesis by blast
qed

lemma overrun_is_unsafe:
  assumes len: "length bytes < 2 ^ 32 - 1" and "body_reached al bytes s" "locals_overrun al s"
  shows "wasmModuleRead al False bytes = Unsafe"
proof -
  obtain m s1 s2 n s3 s4 fs f gs ys where r: "sections_read al bytes m s1"
     "rd_byte wasmModuleReaderInvalidSectionID s1 = Val (10, s2)"
     "rd_u32 wasmModuleReaderInvalidSectionSize s2 = Val (n, s3)"
     "rd_u32 wasmModuleReaderInvalidCodeSectionFunctionCount s3 = Val (of_nat (length (m_functions m)), s4)"
     "m_functions m = fs @ f # gs"
     "rd_map (wasmReadCode al (m_length m) (m_length m - length (rd_buffer s3))) fs s4 = Val (ys, s)"
    using assms(2) by (auto simp: body_reached_def)
  have "rd_ok (\<lambda>_. True) 1 (rd_byte wasmModuleReaderInvalidSectionID :: u8 reader)" by (rule rd_ok_byte) simp
  note b = rd_okD(2) [OF this r(2)]
  have "rd_ok (\<lambda>_. True) 0 (rd_map (wasmReadCode al (m_length m) (m_length m - length (rd_buffer s3))) fs)"
    by (intro rd_ok_map wasmReadCode_ok) simp
  from rd_okD(2) [OF this r(6)] rd_u32_Val(2) [OF r(4)] rd_u32_Val(2) [OF r(3)] b sections_read_bound [OF r(1)] len
  have "length (rd_buffer s) < 2 ^ 32 - 1" by simp
  then have "wasmReadCode al (m_length m) (m_length m - length (rd_buffer s3)) f s = Unsafe"
    by (rule wasmReadCode_overrun [OF assms(3)])
  then have "wasmReadCodeSection al m s3 = Unsafe"
    unfolding wasmReadCodeSection_Unsafe using r(4-6) by blast
  then have "wasmModuleReadSection al False m s1 = Unsafe"
    using r(2,3) by (simp add: wasmModuleReadSection_def rd_bind_def rd_rest_def wasmSectionReaders_def)
  moreover have "\<not> bufferAtEnd (rd_buffer s1)" using b by (auto simp: bufferAtEnd_def)
  ultimately show ?thesis using sections_read_run [OF r(1)] section_rounds_step(2) by simp
qed

text \<open>
  C6. Termination of the reader, in both modes, with every allocator and on every input: the loop over the
  subsections of a name section ends from every module, size and position, and so does the loop over the sections
  around it. All other loops of the reader run a number of rounds that is fixed beforehand.
\<close>

theorem wasmModuleRead_terminates:
  "(\<exists>r. rd_loop (\<lambda>_ s'. length start < length (rd_buffer s') + unat sectionSize) (wasmReadNameSubsection al) m s = Some r)
    \<and> (\<exists>r. rd_loop (\<lambda>_ s. \<not> bufferAtEnd (rd_buffer s)) (wasmModuleReadSection al dbg) m s = Some r)"
proof
  show "\<exists>r. rd_loop (\<lambda>_ s'. length start < length (rd_buffer s') + unat sectionSize) (wasmReadNameSubsection al) m s = Some r"
    by (rule rd_loop_ends) (rule wasmReadNameSubsection_ok)
  show "\<exists>r. rd_loop (\<lambda>_ s. \<not> bufferAtEnd (rd_buffer s)) (wasmModuleReadSection al dbg) m s = Some r"
  proof (rule rd_loop_ends)
    show "rd_ok (\<lambda>_. True) 1 (wasmModuleReadSection al dbg m)" for m by (rule wasmModuleReadSection_ok) simp_all
  qed
qed

text \<open>
  C5. Memory safety of the reader, exactly: read without debug information, a file below 4 GiB takes the reader
  outside its buffer or its arrays if and only if the reader, having read all that comes before, arrives in a code
  section at a function body whose local declarations take more bytes than its announced size.
\<close>

theorem wasmModuleRead_safe:
  assumes "length bytes < 2 ^ 32 - 1"
  shows "wasmModuleRead al False bytes = Unsafe \<longleftrightarrow> (\<exists>s. body_reached al bytes s \<and> locals_overrun al s)"
  using reader_reaches_overrun [OF assms] overrun_is_unsafe [OF assms] by blast

text \<open>A file whose only function body announces one byte and declares locals in three.\<close>

definition overrun_module :: "u8 list" where
  "overrun_module = wasmMagic @
     [1, 4, 1, 0x60, 0, 0,
      3, 2, 1, 0,
      10, 5, 1, 1, 1, 5, 0x7F]"

theorem wasmModuleRead_safe_witness:
  "wasmModuleRead plenty False overrun_module = Unsafe
   \<and> (\<exists>s. body_reached plenty overrun_module s \<and> locals_overrun plenty s)"
proof -
  have "wasmModuleRead plenty False overrun_module = Unsafe"
    by (simp add: rd_run rd_loop.simps wasmModuleRead_def overrun_module_def wasmMagic_def
        wasmModuleReadMagic_def bufferReadEqual_def wasmModuleReadSection_def wasmSectionReaders_def
        wasmReadTypeSection_def wasmReadFunctionType_def wasmReadValueTypes_def
        wasmFunctionTypeIndicator_def wasmReadFunctionSection_def wasmReadFunctionDeclaration_def
        wasmReadCodeSection_def wasmReadCode_def wasmReadCodeLocalsDeclarations_def
        emptyWasmModule_def)
  moreover have "length overrun_module < 2 ^ 32 - 1" by (simp add: overrun_module_def wasmMagic_def)
  ultimately show ?thesis using wasmModuleRead_safe by blast
qed

end
