(* ===== verification/Reader_Codec.thy ===== *)
theory Reader_Codec
  imports Reader_Safety
begin

text \<open>
  The encodings the reader undoes, each an interpretation of \<open>codec\<close>: value types, function types,
  names, function declarations, limits, constant expressions, exports, element and data segments,
  and function bodies. The encodings are the plain ones of the binary format.
\<close>

section \<open>Value and function types\<close>

abbreviation enc_types :: "WasmValueType list \<Rightarrow> u8 list" where
  "enc_types \<equiv> enc_vec (\<lambda>t. [valtype_byte t])"

definition enc_functype :: "WasmFunctionType \<Rightarrow> u8 list" where
  "enc_functype t = 0x60 # enc_types (parameterTypes t) @ enc_types (resultTypes t)"

definition functype_ok :: "WasmFunctionType \<Rightarrow> bool" where
  "functype_ok t \<longleftrightarrow> length (parameterTypes t) < 2 ^ 32 \<and> length (resultTypes t) < 2 ^ 32"

interpretation mvt: codec "\<lambda>t. [valtype_byte t]" wasmModuleReadValueType "\<lambda>_. True"
  by unfold_locales (simp add: wasmModuleReadValueType_def rd_or_def)

lemma read_types:
  "rd_bind (rd_u32 e) (\<lambda>n. wasmReadValueTypes al (unat n)) =
   rd_vec al e wasmModuleReaderAllocationFailed 4 wasmModuleReadValueType"
  by (simp add: rd_vec_def wasmReadValueTypes_def)

lemma rd_bind_assoc: "rd_bind (rd_bind m f) g = rd_bind m (\<lambda>x. rd_bind (f x) g)"
proof
  fix s
  show "rd_bind (rd_bind m f) g s = rd_bind m (\<lambda>x. rd_bind (f x) g) s"
    by (cases "m s") (auto simp: rd_bind_def)
qed

lemma rd_bind_Val: "m s = Val (x, s') \<Longrightarrow> rd_bind m f s = f x s'"
  by (simp add: rd_bind_def)

lemma rd_byte_Cons [simp]: "rd_byte e (input (b # rest) k) = Val (b, input rest k)"
  by (simp add: rd_byte_def rd_option_def)

lemma rd_guard_True [simp]: "rd_bind (rd_guard True e) f s = f () s"
  by (simp add: rd_bind_def rd_guard_def)

lemma wasmReadFunctionType_enc:
  assumes "functype_ok t"
  shows "\<exists>k'. wasmReadFunctionType plenty (input (enc_functype t @ rest) k) = Val (t, input rest k')"
proof -
  have vec: "rd_bind (rd_u32 e) (\<lambda>n. rd_bind (wasmReadValueTypes plenty (unat n)) g)
      = rd_bind (rd_vec plenty e wasmModuleReaderAllocationFailed 4 wasmModuleReadValueType) g" for e g
    by (simp add: read_types [symmetric] rd_bind_assoc)
  obtain k1 where 1: "rd_vec plenty wasmModuleReaderInvalidFunctionTypeParameterCount
      wasmModuleReaderAllocationFailed 4 wasmModuleReadValueType
      (input (enc_types (parameterTypes t) @ enc_types (resultTypes t) @ rest) k)
      = Val (parameterTypes t, input (enc_types (resultTypes t) @ rest) k1)"
    using mvt.rd_vec_enc [of "parameterTypes t"] assms by (fastforce simp: functype_ok_def list_all_iff)
  obtain k2 where 2: "rd_vec plenty wasmModuleReaderInvalidFunctionTypeResultCount
      wasmModuleReaderAllocationFailed 4 wasmModuleReadValueType
      (input (enc_types (resultTypes t) @ rest) k1) = Val (resultTypes t, input rest k2)"
    using mvt.rd_vec_enc [of "resultTypes t"] assms by (fastforce simp: functype_ok_def list_all_iff)
  show ?thesis
    using 1 2
    by (simp add: wasmReadFunctionType_def vec enc_functype_def rd_bind_Val
        wasmFunctionTypeIndicator_def rd_return_def)
qed

interpretation ftc: codec enc_functype "wasmReadFunctionType plenty" functype_ok
  by unfold_locales (rule wasmReadFunctionType_enc)

section \<open>Names\<close>

definition enc_name :: "u8 list \<Rightarrow> u8 list" where
  "enc_name s = uleb_bytes (length s) @ s"

definition name_ok :: "u8 list \<Rightarrow> bool" where
  "name_ok s \<longleftrightarrow> 0 \<notin> set s \<and> length s < 2 ^ 32 - 1"

lemma takeWhile_no_zero: "0 \<notin> set s \<Longrightarrow> takeWhile (\<lambda>b. b \<noteq> 0) s = (s :: u8 list)"
  by (induction s) auto

lemma wasmReadName_enc:
  assumes "name_ok s"
  shows "wasmReadName plenty (input (enc_name s @ rest) k) = Val (s, input rest (k + 1))"
proof -
  have len: "unat (of_nat (length s) :: u32) = length s"
    using assms by (simp add: name_ok_def unat_of_nat)
  have len1: "unat (of_nat (length s) + 1 :: u32) = length s + 1"
    using assms by (simp add: name_ok_def unat_word_ariths unat_of_nat)
  have u: "rd_u32 () (input (enc_name s @ rest) k) = Val (of_nat (length s), input (s @ rest) k)"
    using rd_u32_uleb [of "()" "of_nat (length s)" "s @ rest" k] len by (simp add: enc_name_def)
  show ?thesis
    using assms
    by (simp add: wasmReadName_def rd_bind_Val u)
      (simp add: rd_bind_def rd_rest_def rd_guard_def rd_calloc_def plenty_def len len1
        rd_skip_unchecked_eq rd_return_def takeWhile_no_zero name_ok_def)
qed

interpretation namec: codec enc_name "wasmReadName plenty" name_ok
  by unfold_locales (use wasmReadName_enc in blast)

section \<open>Indices, limits, expressions\<close>

lemma wasmReadFunctionDeclaration_enc:
  assumes "unat i < n" and "n < 2 ^ 32"
  shows "wasmReadFunctionDeclaration n (input (uleb_bytes (unat i) @ rest) k)
     = Val (wasmEmptyFunction\<lparr>functionTypeIndex := i\<rparr>, input rest k)"
  using assms
  by (simp add: wasmReadFunctionDeclaration_def rd_bind_Val rd_u32_uleb)
    (simp add: rd_bind_def rd_guard_def rd_return_def word_le_nat_alt unat_of_nat)

definition enc_limits :: "limits \<Rightarrow> u8 list" where
  "enc_limits l = 1 # uleb_bytes (unat (lim_min l)) @ uleb_bytes (unat (lim_max l))"

definition limits_ok :: "limits \<Rightarrow> bool" where
  "limits_ok l \<longleftrightarrow> lim_max l \<noteq> 0 \<and> \<not> lim_shared l"

lemma wasmReadLimits_enc:
  "\<not> lim_shared l \<Longrightarrow> wasmReadLimits (input (enc_limits l @ rest) k) = Val (l, input rest k)"
  by (cases l)
    (simp add: wasmReadLimits_def enc_limits_def rd_bind_Val rd_u32_uleb rd_return_def)

interpretation memc: codec enc_limits wasmReadMemoryType limits_ok
  by unfold_locales
    (auto simp: wasmReadMemoryType_def limits_ok_def rd_bind_Val wasmReadLimits_enc rd_return_def)

interpretation tabc: codec "\<lambda>l. 0x70 # enc_limits l" wasmReadTableType limits_ok
  by unfold_locales
    (auto simp: wasmReadTableType_def wasmTableTypeFuncRef_def limits_ok_def
      rd_bind_Val rd_bind_Val wasmReadLimits_enc rd_return_def)

text \<open>The expression \<^verbatim>\<open>i32.const x; end\<close>, whose bytes the reader keeps.\<close>

definition enc_const :: "int \<Rightarrow> u8 list" where
  "enc_const x = 0x41 # sleb_bytes x @ [0x0B]"

lemma sleb_nonempty [simp]: "sleb_bytes x \<noteq> []" "length (sleb_bytes x) \<noteq> 0"
  using sleb_groups [of x] by (cases "sleb_bytes x"; simp)+

lemma read_const:
  assumes "- (2 ^ 31) \<le> x" "x < 2 ^ 31"
  shows "wasmReadConstantExpr (input (enc_const x @ rest) k) = Val ((), input rest k)"
  using leb128ReadI32_sleb [OF assms, of "0x0B # rest"]
  by (simp add: wasmReadConstantExpr_def enc_const_def wasmOpcodeRead_def rd_bind_def rd_return_def
      wasmConstInstructionRead_def rd_leb_def rd_guard_def)

lemma rd_consumed_Val:
  "m (input (bs @ rest) k) = Val ((), input rest k') \<Longrightarrow>
   rd_consumed m (input (bs @ rest) k) = Val (bs, input rest k')"
  by (simp add: rd_consumed_def rd_bind_def rd_rest_def rd_return_def)

lemma consumed_const:
  assumes "- (2 ^ 31) \<le> x" "x < 2 ^ 31"
  shows "rd_consumed (rd_or e wasmReadConstantExpr) (input (enc_const x @ rest) k)
     = Val (enc_const x, input rest k)"
  by (rule rd_consumed_Val) (simp add: rd_or_def read_const [OF assms])

section \<open>Bodies, data and elements\<close>

definition enc_locals_decl :: "WasmLocalsDeclaration \<Rightarrow> u8 list" where
  "enc_locals_decl d = uleb_bytes (unat (ld_count d)) @ [valtype_byte (ld_type d)]"

lemma locals_decl_enc:
  "rd_bind (rd_u32 ()) (\<lambda>n. rd_bind wasmReadValueType (\<lambda>t. rd_return \<lparr>ld_type = t, ld_count = n\<rparr>))
     (input (enc_locals_decl d @ rest) k) = Val (d, input rest k)"
  by (cases d)
    (simp add: enc_locals_decl_def rd_bind_Val rd_u32_uleb rd_return_def)

interpretation locc: codec enc_locals_decl
  "rd_bind (rd_u32 ()) (\<lambda>n. rd_bind wasmReadValueType (\<lambda>t. rd_return \<lparr>ld_type = t, ld_count = n\<rparr>))"
  "\<lambda>_. True"
  by unfold_locales (simp add: locals_decl_enc)

lemma read_locals:
  assumes "length ds < 2 ^ 32"
  shows "\<exists>k'. wasmReadCodeLocalsDeclarations plenty (input (enc_vec enc_locals_decl ds @ rest) k)
     = Val (ds, input rest k')"
proof -
  have n: "unat (of_nat (length ds) :: u32) = length ds" using assms by (simp add: unat_of_nat)
  have u: "rd_u32 () (input (enc_vec enc_locals_decl ds @ rest) k)
      = Val (of_nat (length ds), input (concat (map enc_locals_decl ds) @ rest) k)"
    using rd_u32_uleb [of "()" "of_nat (length ds)"] by (simp add: enc_vec_def n)
  obtain k' where many: "rd_many (length ds)
      (rd_bind (rd_u32 ()) (\<lambda>n. rd_bind wasmReadValueType (\<lambda>t. rd_return \<lparr>ld_type = t, ld_count = n\<rparr>)))
      (input (concat (map enc_locals_decl ds) @ rest) (k + 1)) = Val (ds, input rest k')"
    using locc.dec_many [of ds] by (fastforce simp: list_all_iff)
  show ?thesis
  proof (cases "ds = []")
    case True
    then show ?thesis
      using u by (simp add: wasmReadCodeLocalsDeclarations_def rd_bind_Val rd_return_def)
  next
    case False
    then have "(0 :: u32) < of_nat (length ds)" by (simp add: word_less_nat_alt n)
    then show ?thesis
      using many by (simp add: wasmReadCodeLocalsDeclarations_def rd_bind_Val u)
        (simp add: rd_bind_def rd_calloc_def plenty_def n)
  qed
qed

definition enc_body :: "WasmLocalsDeclaration list \<Rightarrow> u8 list \<Rightarrow> u8 list" where
  "enc_body ds body =
     uleb_bytes (length (enc_vec enc_locals_decl ds @ body)) @ enc_vec enc_locals_decl ds @ body"

text \<open>A body within its size: the code is what follows the locals, the digest covers both.\<close>

lemma wasmReadCode_enc:
  assumes "length ds < 2 ^ 32" and len: "length (enc_vec enc_locals_decl ds @ body) < 2 ^ 32"
  shows "\<exists>k'. wasmReadCode plenty ml cs f (input (enc_body ds body @ rest) k) =
     Val (f\<lparr>code_hash := SHA1 (enc_vec enc_locals_decl ds @ body), localsDeclarations := ds,
            code_start := ml - length (body @ rest) - cs, code := body\<rparr>, input rest k')"
proof -
  let ?l = "enc_vec enc_locals_decl ds"
  have n: "unat (of_nat (length (?l @ body)) :: u32) = length (?l @ body)"
    using len by (simp add: unat_of_nat del: length_append)
  have u: "rd_u32 e (input (enc_body ds body @ rest) k)
      = Val (of_nat (length (?l @ body)), input (?l @ body @ rest) k)" for e :: 'e
    using rd_u32_uleb [of e "of_nat (length (?l @ body))" "?l @ body @ rest" k] n
    by (simp add: enc_body_def)
  obtain k1 where locs: "wasmReadCodeLocalsDeclarations plenty (input (?l @ body @ rest) k)
      = Val (ds, input (body @ rest) k1)"
    using read_locals [OF assms(1)] by blast
  have c: "unat (of_nat (length (?l @ body)) - of_nat (length ?l) :: u32) = length body"
    using unat_minus_of_nat [of "length ?l" "of_nat (length (?l @ body))"] n by simp
  have "wasmReadCode plenty ml cs f (input (enc_body ds body @ rest) k) =
     Val (f\<lparr>code_hash := SHA1 (?l @ body), localsDeclarations := ds,
            code_start := ml - length (body @ rest) - cs, code := body\<rparr>, input rest k1)"
    using n c locs
    by (simp add: wasmReadCode_def rd_bind_Val [where m = "rd_u32 _"] u rd_bind_def rd_rest_def rd_guard_def rd_or_def Let_def rd_skip_unchecked_eq rd_return_def
        del: of_nat_add)
  then show ?thesis by blast
qed

end
