(* ===== verification/Cc_Types.thy ===== *)
theory Cc_Types
  imports Prelude
begin

text \<open>
  The C types of the compiler (\<^verbatim>\<open>struct Type\<close> of \<^verbatim>\<open>src/cc/chibicc.h\<close> and \<^verbatim>\<open>src/cc/type.c\<close>), as far as
  expressions and the WebAssembly backend look at them: kinds, sizes, signedness, what a pointer or an
  array is based on, and function signatures. A type is the tree its pointers unfold to; the fields
  that only the parser reads (names, members, \<^verbatim>\<open>origin\<close>) are left out. The target is wasm32.
\<close>

section \<open>Types\<close>

datatype type_kind =
  TY_VOID | TY_BOOL | TY_CHAR | TY_SHORT | TY_INT | TY_LONG | TY_FLOAT | TY_DOUBLE | TY_LDOUBLE
  | TY_ENUM | TY_PTR | TY_FUNC | TY_ARRAY | TY_VLA | TY_STRUCT | TY_UNION

text \<open>\<open>Type kind size align is_unsigned base\<close>; a function type has its signature.\<close>

datatype ctype =
    Type type_kind int int bool "ctype option"
  | FuncType functype
and functype = Func (return_ty: ctype) (ft_params: "ctype list") (is_variadic: bool)

fun ty_kind :: "ctype \<Rightarrow> type_kind" where
  "ty_kind (Type k sz al u b) = k"
| "ty_kind (FuncType f) = TY_FUNC"

fun ty_size :: "ctype \<Rightarrow> int" where
  "ty_size (Type k sz al u b) = sz"
| "ty_size (FuncType f) = 1"

fun ty_align :: "ctype \<Rightarrow> int" where
  "ty_align (Type k sz al u b) = al"
| "ty_align (FuncType f) = 1"

fun is_unsigned :: "ctype \<Rightarrow> bool" where
  "is_unsigned (Type k sz al u b) = u"
| "is_unsigned (FuncType f) = False"

fun ty_base :: "ctype \<Rightarrow> ctype option" where
  "ty_base (Type k sz al u b) = b"
| "ty_base (FuncType f) = None"

definition ty_void :: ctype where "ty_void = Type TY_VOID 1 1 False None"
definition ty_bool :: ctype where "ty_bool = Type TY_BOOL 1 1 False None"
definition ty_char :: ctype where "ty_char = Type TY_CHAR 1 1 False None"
definition ty_short :: ctype where "ty_short = Type TY_SHORT 2 2 False None"
definition ty_int :: ctype where "ty_int = Type TY_INT 4 4 False None"
definition ty_long :: ctype where "ty_long = Type TY_LONG 4 4 False None"
definition ty_llong :: ctype where "ty_llong = Type TY_LONG 8 8 False None"
definition ty_uchar :: ctype where "ty_uchar = Type TY_CHAR 1 1 True None"
definition ty_ushort :: ctype where "ty_ushort = Type TY_SHORT 2 2 True None"
definition ty_uint :: ctype where "ty_uint = Type TY_INT 4 4 True None"
definition ty_ulong :: ctype where "ty_ulong = Type TY_LONG 4 4 True None"
definition ty_ullong :: ctype where "ty_ullong = Type TY_LONG 8 8 True None"
definition ty_float :: ctype where "ty_float = Type TY_FLOAT 4 4 False None"
definition ty_double :: ctype where "ty_double = Type TY_DOUBLE 8 8 False None"
definition ty_ldouble :: ctype where "ty_ldouble = Type TY_LDOUBLE 8 8 False None"

lemmas basic_types = ty_void_def ty_bool_def ty_char_def ty_short_def ty_int_def ty_long_def
  ty_llong_def ty_uchar_def ty_ushort_def ty_uint_def ty_ulong_def ty_ullong_def ty_float_def
  ty_double_def ty_ldouble_def

definition ptr_size :: int where "ptr_size = 4"

definition is_integer :: "ctype \<Rightarrow> bool" where
  "is_integer ty \<longleftrightarrow> ty_kind ty \<in> {TY_BOOL, TY_CHAR, TY_SHORT, TY_INT, TY_LONG, TY_ENUM}"

definition is_flonum :: "ctype \<Rightarrow> bool" where
  "is_flonum ty \<longleftrightarrow> ty_kind ty \<in> {TY_FLOAT, TY_DOUBLE, TY_LDOUBLE}"

definition is_numeric :: "ctype \<Rightarrow> bool" where
  "is_numeric ty \<longleftrightarrow> is_integer ty \<or> is_flonum ty"

definition is_struct :: "ctype \<Rightarrow> bool" where
  "is_struct ty \<longleftrightarrow> ty_kind ty = TY_STRUCT \<or> ty_kind ty = TY_UNION"

definition pointer_to :: "ctype \<Rightarrow> ctype" where
  "pointer_to base = Type TY_PTR ptr_size ptr_size True (Some base)"

definition array_of :: "ctype \<Rightarrow> int \<Rightarrow> ctype" where
  "array_of base len = Type TY_ARRAY (ty_size base * len) (ty_align base) False (Some base)"

definition vla_of :: "ctype \<Rightarrow> ctype" where
  "vla_of base = Type TY_VLA ptr_size ptr_size False (Some base)"

definition enum_type :: ctype where "enum_type = Type TY_ENUM 4 4 False None"

section \<open>The usual arithmetic conversions\<close>

definition get_common_type :: "ctype \<Rightarrow> ctype \<Rightarrow> ctype" where
  "get_common_type ty1 ty2 =
     (case ty_base ty1 of Some b \<Rightarrow> pointer_to b
      | None \<Rightarrow>
        if ty_kind ty1 = TY_FUNC then pointer_to ty1
        else if ty_kind ty2 = TY_FUNC then pointer_to ty2
        else if ty_kind ty1 = TY_LDOUBLE \<or> ty_kind ty2 = TY_LDOUBLE then ty_ldouble
        else if ty_kind ty1 = TY_DOUBLE \<or> ty_kind ty2 = TY_DOUBLE then ty_double
        else if ty_kind ty1 = TY_FLOAT \<or> ty_kind ty2 = TY_FLOAT then ty_float
        else
          let ty1 = (if ty_size ty1 < 4 then ty_int else ty1);
              ty2 = (if ty_size ty2 < 4 then ty_int else ty2)
          in if ty_size ty1 \<noteq> ty_size ty2 then (if ty_size ty1 < ty_size ty2 then ty2 else ty1)
             else if is_unsigned ty2 then ty2 else ty1)"

section \<open>Value classes\<close>

text \<open>The WebAssembly value classes of the backend; \<open>None\<close> is \<^verbatim>\<open>NULL\<close>.\<close>

datatype vclass = VC_NONE | VC_I32 | VC_I64 | VC_F32 | VC_F64

fun valtype :: "vclass \<Rightarrow> int" where
  "valtype VC_NONE = 0"
| "valtype VC_I32 = 0x7F"
| "valtype VC_I64 = 0x7E"
| "valtype VC_F32 = 0x7D"
| "valtype VC_F64 = 0x7C"

definition vclass :: "ctype option \<Rightarrow> vclass" where
  "vclass ty = (case ty of None \<Rightarrow> VC_NONE | Some t \<Rightarrow>
     (case ty_kind t of
        TY_VOID \<Rightarrow> VC_NONE
      | TY_FLOAT \<Rightarrow> VC_F32
      | TY_DOUBLE \<Rightarrow> VC_F64 | TY_LDOUBLE \<Rightarrow> VC_F64
      | TY_STRUCT \<Rightarrow> VC_I32 | TY_UNION \<Rightarrow> VC_I32 | TY_ARRAY \<Rightarrow> VC_I32
      | TY_FUNC \<Rightarrow> VC_I32 | TY_PTR \<Rightarrow> VC_I32 | TY_VLA \<Rightarrow> VC_I32
      | _ \<Rightarrow> if ty_size t = 8 then VC_I64 else VC_I32))"

definition result_class :: "functype \<Rightarrow> vclass" where
  "result_class fty = (if is_struct (return_ty fty) then VC_NONE else vclass (Some (return_ty fty)))"

lemma vclass_None [simp]: "vclass None = VC_NONE"
  by (simp add: vclass_def)

lemma vclass_pointer [simp]: "vclass (Some (pointer_to t)) = VC_I32"
  by (simp add: vclass_def pointer_to_def)

lemma vclass_int [simp]: "vclass (Some ty_int) = VC_I32"
  by (simp add: vclass_def ty_int_def)

lemma vclass_struct: "is_struct t \<Longrightarrow> vclass (Some t) = VC_I32"
  by (auto simp: vclass_def is_struct_def)

lemma vclass_float:
  "is_flonum t \<longleftrightarrow> vclass (Some t) = VC_F32 \<or> vclass (Some t) = VC_F64"
  by (cases "ty_kind t") (auto simp: vclass_def is_flonum_def)

end
