(* ===== verification/Cc_Node.thy ===== *)
theory Cc_Node
  imports Cc_Types
begin

text \<open>
  The syntax tree of the compiler (\<^verbatim>\<open>struct Node\<close>, \<^verbatim>\<open>struct Obj\<close>, \<^verbatim>\<open>struct Member\<close> of
  \<^verbatim>\<open>src/cc/chibicc.h\<close>) and the typing pass \<^verbatim>\<open>add_type\<close> of \<^verbatim>\<open>src/cc/type.c\<close>.

  A constructor carries the fields its kind uses; \<open>next\<close> chains are lists; an expression's first field
  is \<^verbatim>\<open>node->ty\<close>, \<open>None\<close> while it is \<^verbatim>\<open>NULL\<close>. A variable is named by its place: a local of the
  current function or a global object, so that all nodes share the object, as the pointers do. A
  floating literal carries the bit patterns of its two conversions.
\<close>

section \<open>Objects and nodes\<close>

datatype var = Local nat | Global nat

record Member =
  m_ty :: ctype
  m_offset :: int
  is_bitfield :: bool

datatype bin_kind =
    ND_ADD | ND_SUB | ND_MUL | ND_DIV | ND_MOD | ND_BITAND | ND_BITOR | ND_BITXOR
  | ND_SHL | ND_SHR | ND_EQ | ND_NE | ND_LT | ND_LE

text \<open>Statements the WebAssembly backend refuses.\<close>

datatype other_stmt = ND_GOTO_EXPR | ND_ASM

datatype (plugins only: code size) node =
    ND_NULL_EXPR
  | ND_NUM "ctype option" int "u32 \<times> u64"
  | ND_BINARY bin_kind "ctype option" node node
  | ND_NEG "ctype option" node
  | ND_NOT "ctype option" node
  | ND_BITNOT "ctype option" node
  | ND_ADDR "ctype option" node
  | ND_DEREF "ctype option" node
  | ND_CAST "ctype option" node
  | ND_LOGAND "ctype option" node node
  | ND_LOGOR "ctype option" node node
  | ND_COMMA "ctype option" node node
  | ND_ASSIGN "ctype option" node node
  | ND_COND "ctype option" node node node
  | ND_MEMBER "ctype option" node Member
  | ND_VAR "ctype option" var
  | ND_MEMZERO nat
  | ND_FUNCALL "ctype option" functype node "node list" "nat option"
  | ND_STMT_EXPR "ctype option" "node list"
  | ND_LABEL_VAL "ctype option"
  | ND_CAS "ctype option" node node node
  | ND_EXCH "ctype option" node node
  | ND_VLA_PTR "ctype option" var
  | ND_EXPR_STMT node
  | ND_BLOCK "node list"
  | ND_IF node node "node option"
  | ND_FOR "node option" "node option" "node option" node string string
  | ND_DO node node string string
  | ND_SWITCH node node "(string \<times> int \<times> int) list" "string option" string
  | ND_CASE string node
  | ND_GOTO string
  | ND_LABEL string node
  | ND_RETURN "node option"
  | ND_OTHER_STMT other_stmt

fun node_ty :: "node \<Rightarrow> ctype option" where
  "node_ty (ND_NUM ty v f) = ty"
| "node_ty (ND_BINARY k ty a b) = ty"
| "node_ty (ND_NEG ty a) = ty"
| "node_ty (ND_NOT ty a) = ty"
| "node_ty (ND_BITNOT ty a) = ty"
| "node_ty (ND_ADDR ty a) = ty"
| "node_ty (ND_DEREF ty a) = ty"
| "node_ty (ND_CAST ty a) = ty"
| "node_ty (ND_LOGAND ty a b) = ty"
| "node_ty (ND_LOGOR ty a b) = ty"
| "node_ty (ND_COMMA ty a b) = ty"
| "node_ty (ND_ASSIGN ty a b) = ty"
| "node_ty (ND_COND ty c a b) = ty"
| "node_ty (ND_MEMBER ty a m) = ty"
| "node_ty (ND_VAR ty v) = ty"
| "node_ty (ND_FUNCALL ty f g args r) = ty"
| "node_ty (ND_STMT_EXPR ty b) = ty"
| "node_ty (ND_LABEL_VAL ty) = ty"
| "node_ty (ND_CAS ty a b c) = ty"
| "node_ty (ND_EXCH ty a b) = ty"
| "node_ty (ND_VLA_PTR ty v) = ty"
| "node_ty _ = None"

text \<open>\<^verbatim>\<open>struct Obj\<close>: locals and globals. \<open>init_data\<close> is \<open>None\<close> when it is \<^verbatim>\<open>NULL\<close>.\<close>

record Lvar =
  l_ty :: ctype
  l_align :: int

record Relocation =
  rel_offset :: nat
  rel_label :: "u8 list"
  rel_addend :: int

record Obj =
  o_name :: "u8 list"
  o_ty :: ctype
  o_align :: int
  is_function :: bool
  is_definition :: bool
  is_tls :: bool
  init_data :: "u8 list option"
  o_rel :: "Relocation list"
  o_fty :: functype
  o_params :: "nat list"
  o_body :: node
  o_locals :: "Lvar list"
  va_area :: nat

section \<open>The typing pass\<close>

fun res_list :: "('e, 'a) res list \<Rightarrow> ('e, 'a list) res" where
  "res_list [] = Val []"
| "res_list (x # xs) = res_bind x (\<lambda>y. res_bind (res_list xs) (\<lambda>ys. Val (y # ys)))"

fun res_option :: "('e, 'a) res option \<Rightarrow> ('e, 'a option) res" where
  "res_option None = Val None"
| "res_option (Some x) = res_bind x (\<lambda>y. Val (Some y))"

text \<open>\<^verbatim>\<open>node->ty->kind\<close> and the like, where a \<^verbatim>\<open>NULL\<close> type is a crash.\<close>

definition deref_ty :: "node \<Rightarrow> (ctype \<Rightarrow> ('e, 'a) res) \<Rightarrow> ('e, 'a) res" where
  "deref_ty n k = (case node_ty n of None \<Rightarrow> Unsafe | Some t \<Rightarrow> k t)"

text \<open>\<^verbatim>\<open>new_cast\<close> on an expression that has been typed.\<close>

definition new_cast :: "node \<Rightarrow> ctype \<Rightarrow> node" where
  "new_cast e ty = ND_CAST (Some ty) e"

definition usual_arith_conv :: "node \<Rightarrow> node \<Rightarrow> (node \<times> node \<Rightarrow> ('e, 'a) res) \<Rightarrow> ('e, 'a) res" where
  "usual_arith_conv lhs rhs k =
     deref_ty lhs (\<lambda>t1. deref_ty rhs (\<lambda>t2.
       let ty = get_common_type t1 t2 in k (new_cast lhs ty, new_cast rhs ty)))"

definition if_untyped :: "ctype option \<Rightarrow> node \<Rightarrow> (string, node) res \<Rightarrow> (string, node) res" where
  "if_untyped ty n k = (if ty \<noteq> None then Val n else k)"

definition stmt_expr_type :: "node list \<Rightarrow> (string, node) res" where
  "stmt_expr_type body =
     (case body of [] \<Rightarrow> Stop ''statement expression returning void is not supported''
      | _ \<Rightarrow> (case last body of
          ND_EXPR_STMT e \<Rightarrow> Val (ND_STMT_EXPR (node_ty e) body)
        | _ \<Rightarrow> Stop ''statement expression returning void is not supported''))"

definition is_arith :: "bin_kind \<Rightarrow> bool" where
  "is_arith k \<longleftrightarrow> k \<in> {ND_ADD, ND_SUB, ND_MUL, ND_DIV, ND_MOD, ND_BITAND, ND_BITOR, ND_BITXOR}"

definition is_comparison :: "bin_kind \<Rightarrow> bool" where
  "is_comparison k \<longleftrightarrow> k \<in> {ND_EQ, ND_NE, ND_LT, ND_LE}"

text \<open>\<open>vt\<close> gives the type of a variable.\<close>

primrec add_type :: "(var \<Rightarrow> ctype) \<Rightarrow> node \<Rightarrow> (string, node) res" where
  "add_type vt ND_NULL_EXPR = Val ND_NULL_EXPR"
| "add_type vt (ND_NUM ty v f) = if_untyped ty (ND_NUM ty v f) (Val (ND_NUM (Some ty_int) v f))"
| "add_type vt (ND_BINARY k ty a b) = if_untyped ty (ND_BINARY k ty a b)
     (res_bind (add_type vt a) (\<lambda>a'. res_bind (add_type vt b) (\<lambda>b'.
      if is_arith k then
        usual_arith_conv a' b' (\<lambda>(x, y). Val (ND_BINARY k (node_ty x) x y))
      else if is_comparison k then
        usual_arith_conv a' b' (\<lambda>(x, y). Val (ND_BINARY k (Some ty_int) x y))
      else Val (ND_BINARY k (node_ty a') a' b'))))"
| "add_type vt (ND_NEG ty a) = if_untyped ty (ND_NEG ty a)
     (res_bind (add_type vt a) (\<lambda>a'. deref_ty a' (\<lambda>t.
      let ty = get_common_type ty_int t in Val (ND_NEG (Some ty) (new_cast a' ty)))))"
| "add_type vt (ND_NOT ty a) = if_untyped ty (ND_NOT ty a)
     (res_bind (add_type vt a) (\<lambda>a'. Val (ND_NOT (Some ty_int) a')))"
| "add_type vt (ND_BITNOT ty a) = if_untyped ty (ND_BITNOT ty a)
     (res_bind (add_type vt a) (\<lambda>a'. Val (ND_BITNOT (node_ty a') a')))"
| "add_type vt (ND_ADDR ty a) = if_untyped ty (ND_ADDR ty a)
     (res_bind (add_type vt a) (\<lambda>a'. deref_ty a' (\<lambda>t.
      if ty_kind t = TY_ARRAY
      then (case ty_base t of None \<Rightarrow> Unsafe | Some b \<Rightarrow> Val (ND_ADDR (Some (pointer_to b)) a'))
      else Val (ND_ADDR (Some (pointer_to t)) a'))))"
| "add_type vt (ND_DEREF ty a) = if_untyped ty (ND_DEREF ty a)
     (res_bind (add_type vt a) (\<lambda>a'. deref_ty a' (\<lambda>t.
      case ty_base t of None \<Rightarrow> Stop ''invalid pointer dereference''
      | Some b \<Rightarrow> if ty_kind b = TY_VOID then Stop ''dereferencing a void pointer''
                   else Val (ND_DEREF (Some b) a'))))"
| "add_type vt (ND_CAST ty a) = if_untyped ty (ND_CAST ty a)
     (res_bind (add_type vt a) (\<lambda>a'. Val (ND_CAST None a')))"
| "add_type vt (ND_LOGAND ty a b) = if_untyped ty (ND_LOGAND ty a b)
     (res_bind (add_type vt a) (\<lambda>a'. res_bind (add_type vt b) (\<lambda>b'. Val (ND_LOGAND (Some ty_int) a' b'))))"
| "add_type vt (ND_LOGOR ty a b) = if_untyped ty (ND_LOGOR ty a b)
     (res_bind (add_type vt a) (\<lambda>a'. res_bind (add_type vt b) (\<lambda>b'. Val (ND_LOGOR (Some ty_int) a' b'))))"
| "add_type vt (ND_COMMA ty a b) = if_untyped ty (ND_COMMA ty a b)
     (res_bind (add_type vt a) (\<lambda>a'. res_bind (add_type vt b) (\<lambda>b'. Val (ND_COMMA (node_ty b') a' b'))))"
| "add_type vt (ND_ASSIGN ty a b) = if_untyped ty (ND_ASSIGN ty a b)
     (res_bind (add_type vt a) (\<lambda>a'. res_bind (add_type vt b) (\<lambda>b'. deref_ty a' (\<lambda>t.
      if ty_kind t = TY_ARRAY then Stop ''not an lvalue''
      else Val (ND_ASSIGN (Some t) a' (if ty_kind t \<noteq> TY_STRUCT then new_cast b' t else b'))))))"
| "add_type vt (ND_COND ty c a b) = if_untyped ty (ND_COND ty c a b)
     (res_bind (add_type vt c) (\<lambda>c'. res_bind (add_type vt a) (\<lambda>a'. res_bind (add_type vt b) (\<lambda>b'.
      deref_ty a' (\<lambda>ta.
      if ty_kind ta = TY_VOID then Val (ND_COND (Some ty_void) c' a' b')
      else deref_ty b' (\<lambda>tb.
        if ty_kind tb = TY_VOID then Val (ND_COND (Some ty_void) c' a' b')
        else usual_arith_conv a' b' (\<lambda>(x, y). Val (ND_COND (node_ty x) c' x y))))))))"
| "add_type vt (ND_MEMBER ty a m) = if_untyped ty (ND_MEMBER ty a m)
     (res_bind (add_type vt a) (\<lambda>a'. Val (ND_MEMBER (Some (m_ty m)) a' m)))"
| "add_type vt (ND_VAR ty v) = if_untyped ty (ND_VAR ty v) (Val (ND_VAR (Some (vt v)) v))"
| "add_type vt (ND_MEMZERO v) = Val (ND_MEMZERO v)"
| "add_type vt (ND_FUNCALL ty f g args r) = if_untyped ty (ND_FUNCALL ty f g args r)
     (res_bind (add_type vt g) (\<lambda>g'. res_bind (res_list (map (add_type vt) args)) (\<lambda>args'.
      Val (ND_FUNCALL (Some (return_ty f)) f g' args' r))))"
| "add_type vt (ND_STMT_EXPR ty body) = if_untyped ty (ND_STMT_EXPR ty body)
     (res_bind (res_list (map (add_type vt) body)) stmt_expr_type)"
| "add_type vt (ND_LABEL_VAL ty) = if_untyped ty (ND_LABEL_VAL ty) (Val (ND_LABEL_VAL (Some (pointer_to ty_void))))"
| "add_type vt (ND_CAS ty a old new) = if_untyped ty (ND_CAS ty a old new)
     (res_bind (add_type vt a) (\<lambda>a'. res_bind (add_type vt old) (\<lambda>old'. res_bind (add_type vt new) (\<lambda>new'.
      deref_ty a' (\<lambda>t. if ty_kind t \<noteq> TY_PTR then Stop ''pointer expected''
      else deref_ty old' (\<lambda>t. if ty_kind t \<noteq> TY_PTR then Stop ''pointer expected''
      else Val (ND_CAS (Some ty_bool) a' old' new')))))))"
| "add_type vt (ND_EXCH ty a b) = if_untyped ty (ND_EXCH ty a b)
     (res_bind (add_type vt a) (\<lambda>a'. res_bind (add_type vt b) (\<lambda>b'. deref_ty a' (\<lambda>t.
      if ty_kind t \<noteq> TY_PTR then Unsafe else Val (ND_EXCH (ty_base t) a' b')))))"
| "add_type vt (ND_VLA_PTR ty v) = if_untyped ty (ND_VLA_PTR ty v) (Val (ND_VLA_PTR (Some (vt v)) v))"
| "add_type vt (ND_EXPR_STMT a) = res_bind (add_type vt a) (\<lambda>a'. Val (ND_EXPR_STMT a'))"
| "add_type vt (ND_BLOCK body) = res_bind (res_list (map (add_type vt) body)) (\<lambda>body'. Val (ND_BLOCK body'))"
| "add_type vt (ND_IF c a b) =
     res_bind (add_type vt c) (\<lambda>c'. res_bind (add_type vt a) (\<lambda>a'. res_bind (res_option (map_option (add_type vt) b)) (\<lambda>b'.
     Val (ND_IF c' a' b'))))"
| "add_type vt (ND_FOR i c n a brk cont) =
     res_bind (res_option (map_option (add_type vt) c)) (\<lambda>c'. res_bind (add_type vt a) (\<lambda>a'.
     res_bind (res_option (map_option (add_type vt) i)) (\<lambda>i'. res_bind (res_option (map_option (add_type vt) n)) (\<lambda>n'.
     Val (ND_FOR i' c' n' a' brk cont)))))"
| "add_type vt (ND_DO a c brk cont) =
     res_bind (add_type vt c) (\<lambda>c'. res_bind (add_type vt a) (\<lambda>a'. Val (ND_DO a' c' brk cont)))"
| "add_type vt (ND_SWITCH c a cs d brk) =
     res_bind (add_type vt c) (\<lambda>c'. res_bind (add_type vt a) (\<lambda>a'. Val (ND_SWITCH c' a' cs d brk)))"
| "add_type vt (ND_CASE l a) = res_bind (add_type vt a) (\<lambda>a'. Val (ND_CASE l a'))"
| "add_type vt (ND_GOTO l) = Val (ND_GOTO l)"
| "add_type vt (ND_LABEL l a) = res_bind (add_type vt a) (\<lambda>a'. Val (ND_LABEL l a'))"
| "add_type vt (ND_RETURN a) = res_bind (res_option (map_option (add_type vt) a)) (\<lambda>a'. Val (ND_RETURN a'))"
| "add_type vt (ND_OTHER_STMT k) = Val (ND_OTHER_STMT k)"

end
