(* ===== verification/Codegen.thy ===== *)
theory Codegen
  imports Emit_Buf Cc_Node
begin

text \<open>
  The WebAssembly backend \<^verbatim>\<open>src/cc/codegen.c\<close>, from expressions and statements to the bytes of a
  function's code. The static variables it works on are the state \<open>cg\<close>: the code buffer, the control
  stack with its counter, and the type entries; what it only reads while it generates a function (the
  objects and their addresses, the function indices, the frame) is the context \<open>cctx\<close>. A step that
  calls \<^verbatim>\<open>error\<close> or \<^verbatim>\<open>error_tok\<close> stops with its message.
\<close>

section \<open>Opcodes\<close>

abbreviation (input) OP_UNREACHABLE :: int where "OP_UNREACHABLE \<equiv> 0x00"
abbreviation (input) OP_BLOCK :: int where "OP_BLOCK \<equiv> 0x02"
abbreviation (input) OP_LOOP :: int where "OP_LOOP \<equiv> 0x03"
abbreviation (input) OP_IF :: int where "OP_IF \<equiv> 0x04"
abbreviation (input) OP_ELSE :: int where "OP_ELSE \<equiv> 0x05"
abbreviation (input) OP_END :: int where "OP_END \<equiv> 0x0B"
abbreviation (input) OP_BR :: int where "OP_BR \<equiv> 0x0C"
abbreviation (input) OP_BR_IF :: int where "OP_BR_IF \<equiv> 0x0D"
abbreviation (input) OP_RETURN :: int where "OP_RETURN \<equiv> 0x0F"
abbreviation (input) OP_CALL :: int where "OP_CALL \<equiv> 0x10"
abbreviation (input) OP_CALL_INDIRECT :: int where "OP_CALL_INDIRECT \<equiv> 0x11"
abbreviation (input) OP_DROP :: int where "OP_DROP \<equiv> 0x1A"
abbreviation (input) OP_SELECT :: int where "OP_SELECT \<equiv> 0x1B"
abbreviation (input) OP_LOCAL_GET :: int where "OP_LOCAL_GET \<equiv> 0x20"
abbreviation (input) OP_LOCAL_SET :: int where "OP_LOCAL_SET \<equiv> 0x21"
abbreviation (input) OP_LOCAL_TEE :: int where "OP_LOCAL_TEE \<equiv> 0x22"
abbreviation (input) OP_GLOBAL_GET :: int where "OP_GLOBAL_GET \<equiv> 0x23"
abbreviation (input) OP_GLOBAL_SET :: int where "OP_GLOBAL_SET \<equiv> 0x24"
abbreviation (input) OP_I32_LOAD :: int where "OP_I32_LOAD \<equiv> 0x28"
abbreviation (input) OP_I64_LOAD :: int where "OP_I64_LOAD \<equiv> 0x29"
abbreviation (input) OP_F32_LOAD :: int where "OP_F32_LOAD \<equiv> 0x2A"
abbreviation (input) OP_F64_LOAD :: int where "OP_F64_LOAD \<equiv> 0x2B"
abbreviation (input) OP_I32_LOAD8_S :: int where "OP_I32_LOAD8_S \<equiv> 0x2C"
abbreviation (input) OP_I32_LOAD8_U :: int where "OP_I32_LOAD8_U \<equiv> 0x2D"
abbreviation (input) OP_I32_LOAD16_S :: int where "OP_I32_LOAD16_S \<equiv> 0x2E"
abbreviation (input) OP_I32_LOAD16_U :: int where "OP_I32_LOAD16_U \<equiv> 0x2F"
abbreviation (input) OP_I32_STORE :: int where "OP_I32_STORE \<equiv> 0x36"
abbreviation (input) OP_I64_STORE :: int where "OP_I64_STORE \<equiv> 0x37"
abbreviation (input) OP_F32_STORE :: int where "OP_F32_STORE \<equiv> 0x38"
abbreviation (input) OP_F64_STORE :: int where "OP_F64_STORE \<equiv> 0x39"
abbreviation (input) OP_I32_STORE8 :: int where "OP_I32_STORE8 \<equiv> 0x3A"
abbreviation (input) OP_I32_STORE16 :: int where "OP_I32_STORE16 \<equiv> 0x3B"
abbreviation (input) OP_MEMORY_SIZE :: int where "OP_MEMORY_SIZE \<equiv> 0x3F"
abbreviation (input) OP_MEMORY_GROW :: int where "OP_MEMORY_GROW \<equiv> 0x40"
abbreviation (input) OP_I32_CONST :: int where "OP_I32_CONST \<equiv> 0x41"
abbreviation (input) OP_I64_CONST :: int where "OP_I64_CONST \<equiv> 0x42"
abbreviation (input) OP_F32_CONST :: int where "OP_F32_CONST \<equiv> 0x43"
abbreviation (input) OP_F64_CONST :: int where "OP_F64_CONST \<equiv> 0x44"
abbreviation (input) OP_I32_EQZ :: int where "OP_I32_EQZ \<equiv> 0x45"
abbreviation (input) OP_I32_EQ :: int where "OP_I32_EQ \<equiv> 0x46"
abbreviation (input) OP_I32_NE :: int where "OP_I32_NE \<equiv> 0x47"
abbreviation (input) OP_I32_LT_S :: int where "OP_I32_LT_S \<equiv> 0x48"
abbreviation (input) OP_I32_LT_U :: int where "OP_I32_LT_U \<equiv> 0x49"
abbreviation (input) OP_I32_LE_S :: int where "OP_I32_LE_S \<equiv> 0x4C"
abbreviation (input) OP_I32_LE_U :: int where "OP_I32_LE_U \<equiv> 0x4D"
abbreviation (input) OP_I64_EQZ :: int where "OP_I64_EQZ \<equiv> 0x50"
abbreviation (input) OP_I64_EQ :: int where "OP_I64_EQ \<equiv> 0x51"
abbreviation (input) OP_I64_NE :: int where "OP_I64_NE \<equiv> 0x52"
abbreviation (input) OP_I64_LT_S :: int where "OP_I64_LT_S \<equiv> 0x53"
abbreviation (input) OP_I64_LT_U :: int where "OP_I64_LT_U \<equiv> 0x54"
abbreviation (input) OP_I64_LE_S :: int where "OP_I64_LE_S \<equiv> 0x57"
abbreviation (input) OP_I64_LE_U :: int where "OP_I64_LE_U \<equiv> 0x58"
abbreviation (input) OP_F32_EQ :: int where "OP_F32_EQ \<equiv> 0x5B"
abbreviation (input) OP_F32_NE :: int where "OP_F32_NE \<equiv> 0x5C"
abbreviation (input) OP_F32_LT :: int where "OP_F32_LT \<equiv> 0x5D"
abbreviation (input) OP_F32_LE :: int where "OP_F32_LE \<equiv> 0x5F"
abbreviation (input) OP_F64_EQ :: int where "OP_F64_EQ \<equiv> 0x61"
abbreviation (input) OP_F64_NE :: int where "OP_F64_NE \<equiv> 0x62"
abbreviation (input) OP_F64_LT :: int where "OP_F64_LT \<equiv> 0x63"
abbreviation (input) OP_F64_LE :: int where "OP_F64_LE \<equiv> 0x65"
abbreviation (input) OP_I32_ADD :: int where "OP_I32_ADD \<equiv> 0x6A"
abbreviation (input) OP_I32_SUB :: int where "OP_I32_SUB \<equiv> 0x6B"
abbreviation (input) OP_I32_MUL :: int where "OP_I32_MUL \<equiv> 0x6C"
abbreviation (input) OP_I32_DIV_S :: int where "OP_I32_DIV_S \<equiv> 0x6D"
abbreviation (input) OP_I32_DIV_U :: int where "OP_I32_DIV_U \<equiv> 0x6E"
abbreviation (input) OP_I32_REM_S :: int where "OP_I32_REM_S \<equiv> 0x6F"
abbreviation (input) OP_I32_REM_U :: int where "OP_I32_REM_U \<equiv> 0x70"
abbreviation (input) OP_I32_AND :: int where "OP_I32_AND \<equiv> 0x71"
abbreviation (input) OP_I32_OR :: int where "OP_I32_OR \<equiv> 0x72"
abbreviation (input) OP_I32_XOR :: int where "OP_I32_XOR \<equiv> 0x73"
abbreviation (input) OP_I32_SHL :: int where "OP_I32_SHL \<equiv> 0x74"
abbreviation (input) OP_I32_SHR_S :: int where "OP_I32_SHR_S \<equiv> 0x75"
abbreviation (input) OP_I32_SHR_U :: int where "OP_I32_SHR_U \<equiv> 0x76"
abbreviation (input) OP_I64_ADD :: int where "OP_I64_ADD \<equiv> 0x7C"
abbreviation (input) OP_I64_SUB :: int where "OP_I64_SUB \<equiv> 0x7D"
abbreviation (input) OP_I64_MUL :: int where "OP_I64_MUL \<equiv> 0x7E"
abbreviation (input) OP_I64_DIV_S :: int where "OP_I64_DIV_S \<equiv> 0x7F"
abbreviation (input) OP_I64_DIV_U :: int where "OP_I64_DIV_U \<equiv> 0x80"
abbreviation (input) OP_I64_REM_S :: int where "OP_I64_REM_S \<equiv> 0x81"
abbreviation (input) OP_I64_REM_U :: int where "OP_I64_REM_U \<equiv> 0x82"
abbreviation (input) OP_I64_AND :: int where "OP_I64_AND \<equiv> 0x83"
abbreviation (input) OP_I64_OR :: int where "OP_I64_OR \<equiv> 0x84"
abbreviation (input) OP_I64_XOR :: int where "OP_I64_XOR \<equiv> 0x85"
abbreviation (input) OP_I64_SHL :: int where "OP_I64_SHL \<equiv> 0x86"
abbreviation (input) OP_I64_SHR_S :: int where "OP_I64_SHR_S \<equiv> 0x87"
abbreviation (input) OP_I64_SHR_U :: int where "OP_I64_SHR_U \<equiv> 0x88"
abbreviation (input) OP_F32_NEG :: int where "OP_F32_NEG \<equiv> 0x8C"
abbreviation (input) OP_F32_ADD :: int where "OP_F32_ADD \<equiv> 0x92"
abbreviation (input) OP_F32_SUB :: int where "OP_F32_SUB \<equiv> 0x93"
abbreviation (input) OP_F32_MUL :: int where "OP_F32_MUL \<equiv> 0x94"
abbreviation (input) OP_F32_DIV :: int where "OP_F32_DIV \<equiv> 0x95"
abbreviation (input) OP_F64_NEG :: int where "OP_F64_NEG \<equiv> 0x9A"
abbreviation (input) OP_F64_ADD :: int where "OP_F64_ADD \<equiv> 0xA0"
abbreviation (input) OP_F64_SUB :: int where "OP_F64_SUB \<equiv> 0xA1"
abbreviation (input) OP_F64_MUL :: int where "OP_F64_MUL \<equiv> 0xA2"
abbreviation (input) OP_F64_DIV :: int where "OP_F64_DIV \<equiv> 0xA3"
abbreviation (input) OP_I32_WRAP_I64 :: int where "OP_I32_WRAP_I64 \<equiv> 0xA7"
abbreviation (input) OP_I32_TRUNC_F32_S :: int where "OP_I32_TRUNC_F32_S \<equiv> 0xA8"
abbreviation (input) OP_I32_TRUNC_F32_U :: int where "OP_I32_TRUNC_F32_U \<equiv> 0xA9"
abbreviation (input) OP_I32_TRUNC_F64_S :: int where "OP_I32_TRUNC_F64_S \<equiv> 0xAA"
abbreviation (input) OP_I32_TRUNC_F64_U :: int where "OP_I32_TRUNC_F64_U \<equiv> 0xAB"
abbreviation (input) OP_I64_EXTEND_I32_S :: int where "OP_I64_EXTEND_I32_S \<equiv> 0xAC"
abbreviation (input) OP_I64_EXTEND_I32_U :: int where "OP_I64_EXTEND_I32_U \<equiv> 0xAD"
abbreviation (input) OP_I64_TRUNC_F32_S :: int where "OP_I64_TRUNC_F32_S \<equiv> 0xAE"
abbreviation (input) OP_I64_TRUNC_F32_U :: int where "OP_I64_TRUNC_F32_U \<equiv> 0xAF"
abbreviation (input) OP_I64_TRUNC_F64_S :: int where "OP_I64_TRUNC_F64_S \<equiv> 0xB0"
abbreviation (input) OP_I64_TRUNC_F64_U :: int where "OP_I64_TRUNC_F64_U \<equiv> 0xB1"
abbreviation (input) OP_F32_CONVERT_I32_S :: int where "OP_F32_CONVERT_I32_S \<equiv> 0xB2"
abbreviation (input) OP_F32_CONVERT_I32_U :: int where "OP_F32_CONVERT_I32_U \<equiv> 0xB3"
abbreviation (input) OP_F32_CONVERT_I64_S :: int where "OP_F32_CONVERT_I64_S \<equiv> 0xB4"
abbreviation (input) OP_F32_CONVERT_I64_U :: int where "OP_F32_CONVERT_I64_U \<equiv> 0xB5"
abbreviation (input) OP_F32_DEMOTE_F64 :: int where "OP_F32_DEMOTE_F64 \<equiv> 0xB6"
abbreviation (input) OP_F64_CONVERT_I32_S :: int where "OP_F64_CONVERT_I32_S \<equiv> 0xB7"
abbreviation (input) OP_F64_CONVERT_I32_U :: int where "OP_F64_CONVERT_I32_U \<equiv> 0xB8"
abbreviation (input) OP_F64_CONVERT_I64_S :: int where "OP_F64_CONVERT_I64_S \<equiv> 0xB9"
abbreviation (input) OP_F64_CONVERT_I64_U :: int where "OP_F64_CONVERT_I64_U \<equiv> 0xBA"
abbreviation (input) OP_F64_PROMOTE_F32 :: int where "OP_F64_PROMOTE_F32 \<equiv> 0xBB"
abbreviation (input) OP_I32_EXTEND8_S :: int where "OP_I32_EXTEND8_S \<equiv> 0xC0"
abbreviation (input) OP_I32_EXTEND16_S :: int where "OP_I32_EXTEND16_S \<equiv> 0xC1"
abbreviation (input) OP_PREFIX_FC :: int where "OP_PREFIX_FC \<equiv> 0xFC"

section \<open>State, context and emitters\<close>

text \<open>The control stack has its top first.\<close>

record cg =
  cg_code :: Buf
  cg_ctl :: "(string option \<times> nat) list"
  ctl_id_counter :: nat
  cg_types :: "u8 list list"

record cctx =
  cx_obj :: "nat \<Rightarrow> Obj"
  cx_local :: "nat \<Rightarrow> Lvar"
  cx_offset :: "nat \<Rightarrow> int"
  cx_func_index :: "u8 list \<Rightarrow> nat option"
  cx_global_def :: "u8 list \<Rightarrow> int option"
  cx_heap_base :: int
  cx_return_ty :: ctype
  cx_loc_fp :: nat
  cx_frame_size :: int

type_synonym gen = "cg \<Rightarrow> (string, cg) res"

fun emit :: "gen list \<Rightarrow> gen" where
  "emit [] s = Val s"
| "emit (g # gs) s = res_bind (g s) (emit gs)"

definition error :: "string \<Rightarrow> gen" where
  "error msg = (\<lambda>_. Stop msg)"

abbreviation unreachable :: gen where
  "unreachable \<equiv> error ''internal error''"

definition on_ty :: "node \<Rightarrow> (ctype \<Rightarrow> gen) \<Rightarrow> gen" where
  "on_ty n k = (case node_ty n of None \<Rightarrow> (\<lambda>_. Unsafe) | Some t \<Rightarrow> k t)"

definition put :: "(Buf \<Rightarrow> Buf) \<Rightarrow> gen" where
  "put f = (\<lambda>s. Val (s\<lparr>cg_code := f (cg_code s)\<rparr>))"

definition byte :: "int \<Rightarrow> gen" where "byte v = put (\<lambda>b. buf_u8 b v)"

definition op :: "int \<Rightarrow> gen" where "op c = byte c"

definition op_u :: "int \<Rightarrow> nat \<Rightarrow> gen" where
  "op_u o' v = put (\<lambda>b. buf_uleb (buf_u8 b o') (of_nat v))"

definition i32c :: "int \<Rightarrow> gen" where
  "i32c v = put (\<lambda>b. buf_sleb (buf_u8 b OP_I32_CONST) (sint (word_of_int v :: u32)))"

definition i64c :: "int \<Rightarrow> gen" where
  "i64c v = put (\<lambda>b. buf_sleb (buf_u8 b OP_I64_CONST) v)"

definition buf_le :: "Buf \<Rightarrow> u64 \<Rightarrow> nat \<Rightarrow> Buf" where
  "buf_le b v n = fold (\<lambda>i b. buf_u8 b (uint (drop_bit (8 * i) v AND 0xFF))) [0..<n] b"

definition f32c :: "u32 \<Rightarrow> gen" where
  "f32c u = put (\<lambda>b. buf_le (buf_u8 b OP_F32_CONST) (ucast u) 4)"

definition f64c :: "u64 \<Rightarrow> gen" where
  "f64c u = put (\<lambda>b. buf_le (buf_u8 b OP_F64_CONST) u 8)"

definition memarg :: "int \<Rightarrow> nat \<Rightarrow> gen" where
  "memarg o' align_log2 = put (\<lambda>b. buf_uleb (buf_uleb (buf_u8 b o') (of_nat align_log2)) 0)"

definition memory_copy :: gen where
  "memory_copy = emit [op OP_PREFIX_FC, put (\<lambda>b. buf_u8 (buf_u8 (buf_uleb b 10) 0) 0)]"

definition memory_fill :: gen where
  "memory_fill = emit [op OP_PREFIX_FC, put (\<lambda>b. buf_u8 (buf_uleb b 11) 0)]"

section \<open>The control stack\<close>

definition push_ctl :: "string option \<Rightarrow> gen" where
  "push_ctl label = (\<lambda>s.
     if length (cg_ctl s) = 512 then Stop ''control nesting too deep''
     else Val (s\<lparr>cg_ctl := (label, ctl_id_counter s) # cg_ctl s, ctl_id_counter := ctl_id_counter s + 1\<rparr>))"

definition pop_ctl :: gen where
  "pop_ctl = (\<lambda>s. Val (s\<lparr>cg_ctl := tl (cg_ctl s)\<rparr>))"

fun depth_of_label :: "(string option \<times> nat) list \<Rightarrow> string \<Rightarrow> nat option" where
  "depth_of_label [] label = None"
| "depth_of_label ((l, i) # ctl) label =
     (if l = Some label then Some 0 else map_option Suc (depth_of_label ctl label))"

fun depth_of_id :: "(string option \<times> nat) list \<Rightarrow> nat \<Rightarrow> nat option" where
  "depth_of_id [] i = None"
| "depth_of_id ((l, j) # ctl) i = (if j = i then Some 0 else map_option Suc (depth_of_id ctl i))"

definition block :: "string option \<Rightarrow> int \<Rightarrow> gen" where
  "block label blocktype = emit [op OP_BLOCK, byte blocktype, push_ctl label]"

text \<open>\<^verbatim>\<open>int top = loop(); \<dots>\<close>: the rest of the statement gets the id of the loop.\<close>

definition loop :: "(nat \<Rightarrow> gen) \<Rightarrow> gen" where
  "loop k = (\<lambda>s. emit [op OP_LOOP, byte 0x40, push_ctl None, k (ctl_id_counter s)] s)"

definition if_blk :: "int \<Rightarrow> gen" where
  "if_blk blocktype = emit [op OP_IF, byte blocktype, push_ctl None]"

definition end_blk :: gen where
  "end_blk = emit [op OP_END, pop_ctl]"

definition no_label :: string where
  "no_label = ''unsupported control flow: no enclosing block for label''"

definition br_label :: "int \<Rightarrow> string \<Rightarrow> gen" where
  "br_label o' label = (\<lambda>s. case depth_of_label (cg_ctl s) label of
     None \<Rightarrow> Stop no_label | Some d \<Rightarrow> op_u o' d s)"

definition br_id :: "int \<Rightarrow> nat \<Rightarrow> gen" where
  "br_id o' i = (\<lambda>s. case depth_of_id (cg_ctl s) i of
     None \<Rightarrow> Stop ''internal error'' | Some d \<Rightarrow> op_u o' d s)"

definition top_label_is :: "string \<Rightarrow> cg \<Rightarrow> bool" where
  "top_label_is label s \<longleftrightarrow> (case cg_ctl s of [] \<Rightarrow> False | (l, _) # _ \<Rightarrow> l = Some label)"

section \<open>Signatures\<close>

text \<open>A type entry: a returned structure becomes a hidden first parameter, varargs a hidden last one.\<close>

definition sig_entry :: "functype \<Rightarrow> Buf" where
  "sig_entry fty =
     (let e = buf_u8 empty_buf 0x60;
          p = (if is_struct (return_ty fty) then buf_u8 empty_buf 0x7F else empty_buf);
          n = (if is_struct (return_ty fty) then 1 else 0) + length (ft_params fty)
              + (if is_variadic fty then 1 else 0);
          p = fold (\<lambda>t p. buf_u8 p (valtype (vclass (Some t)))) (ft_params fty) p;
          p = (if is_variadic fty then buf_u8 p 0x7F else p);
          e = buf_buf (buf_uleb e (of_nat n)) p;
          rc = result_class fty
      in if rc = VC_NONE then buf_u8 e 0 else buf_u8 (buf_u8 e 1) (valtype rc))"

text \<open>The entries so far, each as its bytes; the answer is the index of the given one.\<close>

fun entry_index :: "nat \<Rightarrow> u8 list list \<Rightarrow> u8 list \<Rightarrow> nat option" where
  "entry_index i [] e = None"
| "entry_index i (t # ts) e = (if t = e then Some i else entry_index (i + 1) ts e)"

definition add_type_entry :: "u8 list list \<Rightarrow> Buf \<Rightarrow> nat \<times> u8 list list" where
  "add_type_entry entries e =
     (case entry_index 0 entries (buf_data e) of
        Some i \<Rightarrow> (i, entries)
      | None \<Rightarrow> (length entries, entries @ [buf_data e]))"

definition sig_index :: "functype \<Rightarrow> u8 list list \<Rightarrow> nat \<times> u8 list list" where
  "sig_index fty entries = add_type_entry entries (sig_entry fty)"

section \<open>Addresses of objects, loads and stores\<close>

definition func_idx :: "cctx \<Rightarrow> u8 list \<Rightarrow> (nat \<Rightarrow> gen) \<Rightarrow> gen" where
  "func_idx cx name k =
     (case cx_func_index cx name of
        None \<Rightarrow> error ''function is neither defined nor an env import'' | Some i \<Rightarrow> k i)"

definition global_addr :: "cctx \<Rightarrow> Obj \<Rightarrow> (string, int) res" where
  "global_addr cx var =
     (if is_function var
      then (case cx_func_index cx (o_name var) of
              None \<Rightarrow> Stop ''function is neither defined nor an env import''
            | Some i \<Rightarrow> Val (int i + 1))
      else (case cx_global_def cx (o_name var) of
              Some off \<Rightarrow> Val off
            | None \<Rightarrow> if o_name var = str ''__heap_base'' then Val (cx_heap_base cx)
                      else Stop ''undefined global''))"

definition load :: "ctype \<Rightarrow> gen" where
  "load ty =
     (if ty_kind ty \<in> {TY_ARRAY, TY_STRUCT, TY_UNION, TY_FUNC, TY_VLA} then Val
      else if ty_kind ty = TY_FLOAT then memarg OP_F32_LOAD 2
      else if ty_kind ty = TY_DOUBLE \<or> ty_kind ty = TY_LDOUBLE then memarg OP_F64_LOAD 3
      else if ty_size ty = 1
        then memarg (if is_unsigned ty \<or> ty_kind ty = TY_BOOL then OP_I32_LOAD8_U else OP_I32_LOAD8_S) 0
      else if ty_size ty = 2 then memarg (if is_unsigned ty then OP_I32_LOAD16_U else OP_I32_LOAD16_S) 1
      else if ty_size ty = 4 then memarg OP_I32_LOAD 2
      else if ty_size ty = 8 then memarg OP_I64_LOAD 3
      else unreachable)"

definition store :: "ctype \<Rightarrow> gen" where
  "store ty =
     (if ty_kind ty = TY_FLOAT then memarg OP_F32_STORE 2
      else if ty_kind ty = TY_DOUBLE \<or> ty_kind ty = TY_LDOUBLE then memarg OP_F64_STORE 3
      else if ty_size ty = 1 then memarg OP_I32_STORE8 0
      else if ty_size ty = 2 then memarg OP_I32_STORE16 1
      else if ty_size ty = 4 then memarg OP_I32_STORE 2
      else if ty_size ty = 8 then memarg OP_I64_STORE 3
      else unreachable)"

section \<open>Casts\<close>

fun to_bool :: "vclass \<Rightarrow> gen" where
  "to_bool VC_I32 = emit [i32c 0, op OP_I32_NE]"
| "to_bool VC_I64 = emit [i64c 0, op OP_I64_NE]"
| "to_bool VC_F32 = emit [f32c 0, op OP_F32_NE]"
| "to_bool VC_F64 = emit [f64c 0, op OP_F64_NE]"
| "to_bool VC_NONE = Val"

text \<open>\<^verbatim>\<open>convert(from, to, from_unsigned)\<close>.\<close>

fun convert_op :: "vclass \<Rightarrow> vclass \<Rightarrow> bool \<Rightarrow> gen" where
  "convert_op VC_I32 VC_I64 u = op (if u then OP_I64_EXTEND_I32_U else OP_I64_EXTEND_I32_S)"
| "convert_op VC_I32 VC_F32 u = op (if u then OP_F32_CONVERT_I32_U else OP_F32_CONVERT_I32_S)"
| "convert_op VC_I32 VC_F64 u = op (if u then OP_F64_CONVERT_I32_U else OP_F64_CONVERT_I32_S)"
| "convert_op VC_I64 VC_I32 u = op OP_I32_WRAP_I64"
| "convert_op VC_I64 VC_F32 u = op (if u then OP_F32_CONVERT_I64_U else OP_F32_CONVERT_I64_S)"
| "convert_op VC_I64 VC_F64 u = op (if u then OP_F64_CONVERT_I64_U else OP_F64_CONVERT_I64_S)"
| "convert_op VC_F32 VC_F64 u = op OP_F64_PROMOTE_F32"
| "convert_op VC_F32 VC_I32 u = op (if u then OP_I32_TRUNC_F32_U else OP_I32_TRUNC_F32_S)"
| "convert_op VC_F32 VC_I64 u = op (if u then OP_I64_TRUNC_F32_U else OP_I64_TRUNC_F32_S)"
| "convert_op VC_F64 VC_F32 u = op OP_F32_DEMOTE_F64"
| "convert_op VC_F64 VC_I32 u = op (if u then OP_I32_TRUNC_F64_U else OP_I32_TRUNC_F64_S)"
| "convert_op VC_F64 VC_I64 u = op (if u then OP_I64_TRUNC_F64_U else OP_I64_TRUNC_F64_S)"
| "convert_op _ _ u = unreachable"

definition convert :: "vclass \<Rightarrow> vclass \<Rightarrow> bool \<Rightarrow> gen" where
  "convert from to from_unsigned = (if from = to then Val else convert_op from to from_unsigned)"

definition narrow :: "ctype \<Rightarrow> gen" where
  "narrow to =
     (if ty_kind to = TY_BOOL then Val
      else if ty_size to = 1
        then (if is_unsigned to then emit [i32c 0xFF, op OP_I32_AND] else op OP_I32_EXTEND8_S)
      else if ty_size to = 2
        then (if is_unsigned to then emit [i32c 0xFFFF, op OP_I32_AND] else op OP_I32_EXTEND16_S)
      else Val)"

definition cast :: "ctype \<Rightarrow> ctype \<Rightarrow> gen" where
  "cast from to =
     (let fc = vclass (Some from); tc = vclass (Some to) in
      if ty_kind to = TY_VOID then (if fc \<noteq> VC_NONE then op OP_DROP else Val)
      else if ty_kind to = TY_BOOL then to_bool fc
      else
        let from_unsigned = (is_unsigned from \<or> ty_kind from = TY_PTR \<or> ty_kind from = TY_ARRAY);
            from_unsigned = (if (fc = VC_F32 \<or> fc = VC_F64) \<and> (tc = VC_I32 \<or> tc = VC_I64)
                             then is_unsigned to else from_unsigned)
        in emit [convert fc tc from_unsigned,
             if tc = VC_I32 \<and> is_integer to \<and> ty_size to < 4
                \<and> (ty_size from > ty_size to \<or> fc \<noteq> VC_I32 \<or> is_unsigned from \<noteq> is_unsigned to)
             then narrow to else Val])"

text \<open>
  The conversion after an expression in \<^verbatim>\<open>gen_expr_as\<close> and \<^verbatim>\<open>gen_cond\<close>; \<open>g\<close> is the expression's code.
\<close>

definition gen_as :: "node \<Rightarrow> gen \<Rightarrow> vclass \<Rightarrow> gen" where
  "gen_as n g vc = emit [g, on_ty n (\<lambda>t. convert (vclass (Some t)) vc (is_unsigned t \<or> ty_kind t = TY_PTR))]"

definition cond_of :: "node \<Rightarrow> gen \<Rightarrow> gen" where
  "cond_of n g = emit [g, to_bool (vclass (node_ty n))]"

definition drop_value :: "node \<Rightarrow> gen" where
  "drop_value n = (if vclass (node_ty n) \<noteq> VC_NONE then op OP_DROP else Val)"

definition fp_plus :: "cctx \<Rightarrow> int \<Rightarrow> gen" where
  "fp_plus cx off = emit [op_u OP_LOCAL_GET (cx_loc_fp cx),
     if off \<noteq> 0 then emit [i32c off, op OP_I32_ADD] else Val]"

definition add_offset :: "int \<Rightarrow> gen" where
  "add_offset off = (if off \<noteq> 0 then emit [i32c off, op OP_I32_ADD] else Val)"

text \<open>The scratch locals come behind the frame pointer: \<^verbatim>\<open>t32\<close>, \<^verbatim>\<open>t32b\<close>, \<^verbatim>\<open>t64\<close>, \<^verbatim>\<open>tf32\<close>, \<^verbatim>\<open>tf64\<close>, \<^verbatim>\<open>rv\<close>.\<close>

definition loc_t32b :: "cctx \<Rightarrow> nat" where "loc_t32b cx = cx_loc_fp cx + 2"
definition loc_rv :: "cctx \<Rightarrow> nat" where "loc_rv cx = cx_loc_fp cx + 6"

fun scratch_local :: "cctx \<Rightarrow> vclass \<Rightarrow> nat option" where
  "scratch_local cx VC_I32 = Some (cx_loc_fp cx + 1)"
| "scratch_local cx VC_I64 = Some (cx_loc_fp cx + 3)"
| "scratch_local cx VC_F32 = Some (cx_loc_fp cx + 4)"
| "scratch_local cx VC_F64 = Some (cx_loc_fp cx + 5)"
| "scratch_local cx VC_NONE = None"

definition op_scratch :: "cctx \<Rightarrow> int \<Rightarrow> vclass \<Rightarrow> gen" where
  "op_scratch cx o' vc = (case scratch_local cx vc of None \<Rightarrow> unreachable | Some l \<Rightarrow> op_u o' l)"

section \<open>Calls\<close>

fun align_to :: "int \<Rightarrow> int \<Rightarrow> int" where
  "align_to n align = (n + align - 1) sdiv align * align"

text \<open>The function a call names directly, if it does.\<close>

definition callee_of :: "cctx \<Rightarrow> node \<Rightarrow> Obj option" where
  "callee_of cx n = (case n of
     ND_VAR ty (Global i) \<Rightarrow> if is_function (cx_obj cx i) then Some (cx_obj cx i) else None
   | _ \<Rightarrow> None)"

definition call_indirect :: "functype \<Rightarrow> gen" where
  "call_indirect fty = emit [op OP_CALL_INDIRECT, (\<lambda>s.
     let (i, types) = sig_index fty (cg_types s)
     in Val (s\<lparr>cg_types := types, cg_code := buf_u8 (buf_uleb (cg_code s) (of_nat i)) 0\<rparr>))]"

definition va_store :: "vclass \<Rightarrow> gen" where
  "va_store vc = (case vc of
     VC_I32 \<Rightarrow> memarg OP_I32_STORE 2 | VC_I64 \<Rightarrow> memarg OP_I64_STORE 3
   | VC_F32 \<Rightarrow> memarg OP_F32_STORE 2 | VC_F64 \<Rightarrow> memarg OP_F64_STORE 3
   | VC_NONE \<Rightarrow> unreachable)"

text \<open>One variadic argument: its code and the store into its slot of the shadow stack.\<close>

definition va_arg :: "nat \<Rightarrow> node \<times> gen \<Rightarrow> gen" where
  "va_arg slot = (\<lambda>(a, g). on_ty a (\<lambda>t.
     if is_struct t then error ''passing a struct as a variadic argument is not supported''
     else emit [op_u OP_GLOBAL_GET 0, add_offset (int slot * 8), g, va_store (vclass (Some t))]))"

fun va_args :: "nat \<Rightarrow> (node \<times> gen) list \<Rightarrow> gen" where
  "va_args slot [] = Val"
| "va_args slot (a # args) = emit [va_arg slot a, va_args (slot + 1) args]"

text \<open>
  The callee and the arguments come with the code of each. Fewer arguments than fixed parameters
  would be a \<^verbatim>\<open>NULL\<close> node.
\<close>

definition gen_call :: "cctx \<Rightarrow> functype \<Rightarrow> node \<Rightarrow> gen \<Rightarrow> (node \<times> gen) list \<Rightarrow> nat option \<Rightarrow> gen" where
  "gen_call cx fty lhs glhs args ret_buffer =
     (let ret = (case ret_buffer of None \<Rightarrow> Val | Some r \<Rightarrow> fp_plus cx (cx_offset cx r));
          nfixed = length (ft_params fty);
          call = (case callee_of cx lhs of
                    Some f \<Rightarrow> func_idx cx (o_name f) (op_u OP_CALL)
                  | None \<Rightarrow> emit [gen_as lhs glhs VC_I32, call_indirect fty]);
          size = align_to (int (length args - nfixed) * 8) 16;
          move = (\<lambda>o'. if size \<noteq> 0
                   then emit [op_u OP_GLOBAL_GET 0, i32c size, op o', op_u OP_GLOBAL_SET 0] else Val)
      in emit [ret, emit (map snd (take nfixed args)),
           if length args < nfixed then (\<lambda>_. Unsafe)
           else if is_variadic fty
             then emit [move OP_I32_SUB, va_args 0 (drop nfixed args), op_u OP_GLOBAL_GET 0, call, move OP_I32_ADD]
           else if length args \<noteq> nfixed then error ''too many arguments''
           else call,
           ret])"

definition gen_funcall ::
    "cctx \<Rightarrow> ctype option \<Rightarrow> functype \<Rightarrow> node \<Rightarrow> gen \<Rightarrow> (node \<times> gen) list \<Rightarrow> nat option \<Rightarrow> gen" where
  "gen_funcall cx ty fty lhs glhs args ret_buffer =
     (case callee_of cx lhs of
        Some f \<Rightarrow>
          if o_name f = str ''__builtin_wasm_memory_size'' then
            emit [emit (map (\<lambda>(a, g). emit [g, op OP_DROP]) args), op OP_MEMORY_SIZE, byte 0,
                  convert VC_I32 (vclass ty) True]
          else if o_name f = str ''__builtin_wasm_memory_grow'' then
            (case args of
               (a, ga) # (b, gb) # _ \<Rightarrow>
                 emit [ga, op OP_DROP, gen_as b gb VC_I32, op OP_MEMORY_GROW, byte 0,
                       convert VC_I32 (vclass ty) True]
             | _ \<Rightarrow> (\<lambda>_. Unsafe))
          else if o_name f = str ''alloca'' then error ''alloca is not supported''
          else gen_call cx fty lhs glhs args ret_buffer
      | None \<Rightarrow> gen_call cx fty lhs glhs args ret_buffer)"

section \<open>Binary operations\<close>

fun float_op :: "bin_kind \<Rightarrow> bool \<Rightarrow> gen" where
  "float_op ND_ADD d = op (if d then OP_F64_ADD else OP_F32_ADD)"
| "float_op ND_SUB d = op (if d then OP_F64_SUB else OP_F32_SUB)"
| "float_op ND_MUL d = op (if d then OP_F64_MUL else OP_F32_MUL)"
| "float_op ND_DIV d = op (if d then OP_F64_DIV else OP_F32_DIV)"
| "float_op ND_EQ d = op (if d then OP_F64_EQ else OP_F32_EQ)"
| "float_op ND_NE d = op (if d then OP_F64_NE else OP_F32_NE)"
| "float_op ND_LT d = op (if d then OP_F64_LT else OP_F32_LT)"
| "float_op ND_LE d = op (if d then OP_F64_LE else OP_F32_LE)"
| "float_op _ d = error ''invalid float operation''"

fun int_op :: "bin_kind \<Rightarrow> bool \<Rightarrow> bool \<Rightarrow> int" where
  "int_op ND_ADD w u = (if w then OP_I64_ADD else OP_I32_ADD)"
| "int_op ND_SUB w u = (if w then OP_I64_SUB else OP_I32_SUB)"
| "int_op ND_MUL w u = (if w then OP_I64_MUL else OP_I32_MUL)"
| "int_op ND_DIV w u = (if w then (if u then OP_I64_DIV_U else OP_I64_DIV_S) else (if u then OP_I32_DIV_U else OP_I32_DIV_S))"
| "int_op ND_MOD w u = (if w then (if u then OP_I64_REM_U else OP_I64_REM_S) else (if u then OP_I32_REM_U else OP_I32_REM_S))"
| "int_op ND_BITAND w u = (if w then OP_I64_AND else OP_I32_AND)"
| "int_op ND_BITOR w u = (if w then OP_I64_OR else OP_I32_OR)"
| "int_op ND_BITXOR w u = (if w then OP_I64_XOR else OP_I32_XOR)"
| "int_op ND_SHL w u = (if w then OP_I64_SHL else OP_I32_SHL)"
| "int_op ND_SHR w u = (if w then (if u then OP_I64_SHR_U else OP_I64_SHR_S) else (if u then OP_I32_SHR_U else OP_I32_SHR_S))"
| "int_op ND_EQ w u = (if w then OP_I64_EQ else OP_I32_EQ)"
| "int_op ND_NE w u = (if w then OP_I64_NE else OP_I32_NE)"
| "int_op ND_LT w u = (if w then (if u then OP_I64_LT_U else OP_I64_LT_S) else (if u then OP_I32_LT_U else OP_I32_LT_S))"
| "int_op ND_LE w u = (if w then (if u then OP_I64_LE_U else OP_I64_LE_S) else (if u then OP_I32_LE_U else OP_I32_LE_S))"

definition gen_binary :: "bin_kind \<Rightarrow> ctype option \<Rightarrow> node \<Rightarrow> gen \<Rightarrow> node \<Rightarrow> gen \<Rightarrow> gen" where
  "gen_binary k ty lhs glhs rhs grhs = on_ty lhs (\<lambda>lt.
     let fl = is_flonum lt;
         u = (is_unsigned lt \<or> ty_kind lt = TY_PTR \<or> ty_kind lt = TY_ARRAY);
         vc = (if is_comparison k then vclass (Some lt) else vclass ty)
     in emit [gen_as lhs glhs vc, gen_as rhs grhs vc,
          if fl then float_op k (vc = VC_F64) else op (int_op k (vc = VC_I64) u)])"

section \<open>Expressions\<close>

definition gen_num :: "ctype option \<Rightarrow> int \<Rightarrow> u32 \<times> u64 \<Rightarrow> gen" where
  "gen_num ty v f = (case vclass ty of
     VC_F32 \<Rightarrow> f32c (fst f) | VC_F64 \<Rightarrow> f64c (snd f) | VC_I64 \<Rightarrow> i64c v | _ \<Rightarrow> i32c v)"

definition gen_neg :: "ctype option \<Rightarrow> node \<Rightarrow> gen \<Rightarrow> gen" where
  "gen_neg ty lhs g = (case vclass ty of
     VC_F32 \<Rightarrow> emit [g, op OP_F32_NEG] | VC_F64 \<Rightarrow> emit [g, op OP_F64_NEG]
   | VC_I64 \<Rightarrow> emit [i64c 0, gen_as lhs g VC_I64, op OP_I64_SUB]
   | _ \<Rightarrow> emit [i32c 0, gen_as lhs g VC_I32, op OP_I32_SUB])"

definition gen_assign :: "cctx \<Rightarrow> ctype option \<Rightarrow> gen \<Rightarrow> node \<Rightarrow> gen \<Rightarrow> gen" where
  "gen_assign cx ty addr rhs g = (case ty of None \<Rightarrow> (\<lambda>_. Unsafe) | Some t \<Rightarrow>
     if is_struct t then
       emit [addr, op_u OP_LOCAL_TEE (loc_t32b cx), g, i32c (ty_size t), memory_copy,
             op_u OP_LOCAL_GET (loc_t32b cx)]
     else
       let vc = vclass (Some t)
       in emit [addr, gen_as rhs g vc, op_scratch cx OP_LOCAL_TEE vc, store t, op_scratch cx OP_LOCAL_GET vc])"

definition gen_cond_expr :: "ctype option \<Rightarrow> node \<Rightarrow> gen \<Rightarrow> node \<Rightarrow> gen \<Rightarrow> node \<Rightarrow> gen \<Rightarrow> gen" where
  "gen_cond_expr ty c gc a ga b gb =
     (let vc = vclass ty
      in emit [cond_of c gc, if_blk (if vc = VC_NONE then 0x40 else valtype vc), gen_as a ga vc, op OP_ELSE,
               gen_as b gb vc, end_blk])"

definition gen_memzero :: "cctx \<Rightarrow> nat \<Rightarrow> gen" where
  "gen_memzero cx i =
     emit [fp_plus cx (cx_offset cx i), i32c 0, i32c (ty_size (l_ty (cx_local cx i))), memory_fill]"

definition addr_var :: "cctx \<Rightarrow> var \<Rightarrow> gen" where
  "addr_var cx v = (case v of
     Local i \<Rightarrow> if ty_kind (l_ty (cx_local cx i)) = TY_VLA then error ''VLA is not supported''
                else fp_plus cx (cx_offset cx i)
   | Global i \<Rightarrow> let var = cx_obj cx i in
       if ty_kind (o_ty var) = TY_VLA then error ''VLA is not supported''
       else if is_tls var then error ''TLS is not supported''
       else (\<lambda>s. res_bind (global_addr cx var) (\<lambda>a. i32c a s)))"

text \<open>
  \<^verbatim>\<open>gen_expr\<close> and \<^verbatim>\<open>gen_addr\<close> call each other, also on the same node; \<open>gen_both\<close> gives the pair of them
  by recursion on the tree.
\<close>

abbreviation not_lvalue :: gen where
  "not_lvalue \<equiv> error ''not an lvalue''"

definition is_bitfield_member :: "node \<Rightarrow> bool" where
  "is_bitfield_member n = (case n of ND_MEMBER ty a m \<Rightarrow> is_bitfield m | _ \<Rightarrow> False)"

definition struct_addr :: "ctype option \<Rightarrow> gen \<Rightarrow> gen" where
  "struct_addr ty g = (case ty of None \<Rightarrow> (\<lambda>_. Unsafe) | Some t \<Rightarrow> if is_struct t then g else not_lvalue)"

definition load_ty :: "ctype option \<Rightarrow> gen" where
  "load_ty ty = (case ty of None \<Rightarrow> (\<lambda>_. Unsafe) | Some t \<Rightarrow> load t)"

primrec gen_both :: "cctx \<Rightarrow> node \<Rightarrow> gen \<times> gen" where
  "gen_both cx ND_NULL_EXPR = (Val, not_lvalue)"
| "gen_both cx (ND_NUM ty v f) = (gen_num ty v f, not_lvalue)"
| "gen_both cx (ND_BINARY k ty a b) =
     (gen_binary k ty a (fst (gen_both cx a)) b (fst (gen_both cx b)), not_lvalue)"
| "gen_both cx (ND_NEG ty a) = (gen_neg ty a (fst (gen_both cx a)), not_lvalue)"
| "gen_both cx (ND_NOT ty a) = (emit [cond_of a (fst (gen_both cx a)), op OP_I32_EQZ], not_lvalue)"
| "gen_both cx (ND_BITNOT ty a) =
     (if vclass ty = VC_I64 then emit [gen_as a (fst (gen_both cx a)) VC_I64, i64c (-1), op OP_I64_XOR]
      else emit [gen_as a (fst (gen_both cx a)) VC_I32, i32c (-1), op OP_I32_XOR], not_lvalue)"
| "gen_both cx (ND_ADDR ty a) = (snd (gen_both cx a), not_lvalue)"
| "gen_both cx (ND_DEREF ty a) =
     (emit [gen_as a (fst (gen_both cx a)) VC_I32, load_ty ty], gen_as a (fst (gen_both cx a)) VC_I32)"
| "gen_both cx (ND_CAST ty a) =
     (emit [fst (gen_both cx a), on_ty a (\<lambda>from. case ty of None \<Rightarrow> (\<lambda>_. Unsafe) | Some to \<Rightarrow> cast from to)],
      not_lvalue)"
| "gen_both cx (ND_LOGAND ty a b) =
     (emit [cond_of a (fst (gen_both cx a)), if_blk 0x7F, cond_of b (fst (gen_both cx b)), op OP_ELSE, i32c 0, end_blk],
      not_lvalue)"
| "gen_both cx (ND_LOGOR ty a b) =
     (emit [cond_of a (fst (gen_both cx a)), if_blk 0x7F, i32c 1, op OP_ELSE, cond_of b (fst (gen_both cx b)), end_blk],
      not_lvalue)"
| "gen_both cx (ND_COMMA ty a b) =
     (emit [fst (gen_both cx a), drop_value a, fst (gen_both cx b)],
      emit [fst (gen_both cx a), drop_value a, snd (gen_both cx b)])"
| "gen_both cx (ND_ASSIGN ty a b) =
     (let e = (if is_bitfield_member a then error ''bitfields are not supported''
               else gen_assign cx ty (snd (gen_both cx a)) b (fst (gen_both cx b)))
      in (e, struct_addr ty e))"
| "gen_both cx (ND_COND ty c a b) =
     (let e = gen_cond_expr ty c (fst (gen_both cx c)) a (fst (gen_both cx a)) b (fst (gen_both cx b))
      in (e, struct_addr ty e))"
| "gen_both cx (ND_MEMBER ty a m) =
     (let addr = emit [snd (gen_both cx a), add_offset (m_offset m)]
      in (if is_bitfield m then error ''bitfields are not supported'' else emit [addr, load_ty ty], addr))"
| "gen_both cx (ND_VAR ty v) = (emit [addr_var cx v, load_ty ty], addr_var cx v)"
| "gen_both cx (ND_MEMZERO i) = (gen_memzero cx i, not_lvalue)"
| "gen_both cx (ND_FUNCALL ty f g args r) =
     (let e = gen_funcall cx ty f g (fst (gen_both cx g)) (map (\<lambda>a. (a, fst (gen_both cx a))) args) r
      in (e, if r \<noteq> None then e else not_lvalue))"
| "gen_both cx (ND_STMT_EXPR ty body) = (error ''statement expressions are not supported'', not_lvalue)"
| "gen_both cx (ND_LABEL_VAL ty) = (error ''unsupported expression'', not_lvalue)"
| "gen_both cx (ND_CAS ty a b c) = (error ''unsupported expression'', not_lvalue)"
| "gen_both cx (ND_EXCH ty a b) = (error ''unsupported expression'', not_lvalue)"
| "gen_both cx (ND_VLA_PTR ty v) = (error ''unsupported expression'', not_lvalue)"
| "gen_both cx (ND_EXPR_STMT a) = (error ''invalid expression'', not_lvalue)"
| "gen_both cx (ND_BLOCK body) = (error ''invalid expression'', not_lvalue)"
| "gen_both cx (ND_IF c a b) = (error ''invalid expression'', not_lvalue)"
| "gen_both cx (ND_FOR i c n a brk cont) = (error ''invalid expression'', not_lvalue)"
| "gen_both cx (ND_DO a c brk cont) = (error ''invalid expression'', not_lvalue)"
| "gen_both cx (ND_SWITCH c a cs d brk) = (error ''invalid expression'', not_lvalue)"
| "gen_both cx (ND_CASE l a) = (error ''invalid expression'', not_lvalue)"
| "gen_both cx (ND_GOTO l) = (error ''invalid expression'', not_lvalue)"
| "gen_both cx (ND_LABEL l a) = (error ''invalid expression'', not_lvalue)"
| "gen_both cx (ND_RETURN a) = (error ''invalid expression'', not_lvalue)"
| "gen_both cx (ND_OTHER_STMT k) = (error ''invalid expression'', not_lvalue)"

definition gen_expr :: "cctx \<Rightarrow> node \<Rightarrow> gen" where "gen_expr cx n = fst (gen_both cx n)"
definition gen_addr :: "cctx \<Rightarrow> node \<Rightarrow> gen" where "gen_addr cx n = snd (gen_both cx n)"

definition gen_expr_as :: "cctx \<Rightarrow> node \<Rightarrow> vclass \<Rightarrow> gen" where
  "gen_expr_as cx n vc = gen_as n (gen_expr cx n) vc"

definition gen_cond :: "cctx \<Rightarrow> node \<Rightarrow> gen" where
  "gen_cond cx n = cond_of n (gen_expr cx n)"

section \<open>Statements\<close>

text \<open>The labels of the cases at the top level of a switch body, in source order.\<close>

fun case_chain :: "node \<Rightarrow> string list" where
  "case_chain (ND_CASE l a) = l # case_chain a"
| "case_chain _ = []"

definition collect_cases :: "node \<Rightarrow> string list" where
  "collect_cases body = (case body of
     ND_BLOCK ns \<Rightarrow> concat (map case_chain ns) | _ \<Rightarrow> case_chain body)"

definition case_test :: "cctx \<Rightarrow> vclass \<Rightarrow> string \<times> int \<times> int \<Rightarrow> gen" where
  "case_test cx vc = (\<lambda>(label, lo, hi).
     emit [op_scratch cx OP_LOCAL_GET vc,
       if lo = hi then (if vc = VC_I64 then emit [i64c lo, op OP_I64_EQ] else emit [i32c lo, op OP_I32_EQ])
       else if vc = VC_I64 then emit [i64c lo, op OP_I64_SUB, i64c (hi - lo), op OP_I64_LE_U]
       else emit [i32c lo, op OP_I32_SUB, i32c (hi - lo), op OP_I32_LE_U],
       br_label OP_BR_IF label])"

definition gen_switch ::
    "cctx \<Rightarrow> node \<Rightarrow> node \<Rightarrow> gen \<Rightarrow> (string \<times> int \<times> int) list \<Rightarrow> string option \<Rightarrow> string \<Rightarrow> gen" where
  "gen_switch cx cond body gbody cases dflt brk =
     (let vc = vclass (node_ty cond); labels = collect_cases body
      in emit [gen_expr cx cond, op_scratch cx OP_LOCAL_SET vc,
           if length labels > 1024 then error ''too many cases'' else Val,
           block (Some brk) 0x40, emit (map (\<lambda>l. block (Some l) 0x40) (rev labels)),
           emit (map (case_test cx vc) cases),
           br_label OP_BR (case dflt of Some l \<Rightarrow> l | None \<Rightarrow> brk),
           gbody,
           (\<lambda>s. if top_label_is brk s then end_blk s
                else Stop ''unsupported switch shape (a case is nested inside another statement)'')])"

definition close_label :: "string \<Rightarrow> string \<Rightarrow> gen" where
  "close_label l msg = (\<lambda>s. if top_label_is l s then end_blk s else Stop msg)"

definition RET_LABEL :: string where "RET_LABEL = ''.ret''"

definition gen_return :: "cctx \<Rightarrow> node option \<Rightarrow> gen" where
  "gen_return cx lhs =
     emit [(case lhs of None \<Rightarrow> Val
            | Some e \<Rightarrow> on_ty e (\<lambda>t.
                if is_struct t
                then emit [op_u OP_LOCAL_GET 0, gen_expr cx e, i32c (ty_size t), memory_copy]
                else emit [gen_expr_as cx e (vclass (Some (cx_return_ty cx))), op_u OP_LOCAL_SET (loc_rv cx)])),
           br_label OP_BR RET_LABEL]"

definition opt :: "gen option \<Rightarrow> gen" where
  "opt g = (case g of None \<Rightarrow> Val | Some g \<Rightarrow> g)"

primrec gen_stmt :: "cctx \<Rightarrow> node \<Rightarrow> gen" where
  "gen_stmt cx (ND_BLOCK body) = emit (map (gen_stmt cx) body)"
| "gen_stmt cx (ND_EXPR_STMT a) = emit [gen_expr cx a, drop_value a]"
| "gen_stmt cx (ND_IF c a b) =
     emit [gen_cond cx c, if_blk 0x40, gen_stmt cx a,
           (case map_option (gen_stmt cx) b of None \<Rightarrow> Val | Some g \<Rightarrow> emit [op OP_ELSE, g]), end_blk]"
| "gen_stmt cx (ND_FOR i c n a brk cont) =
     emit [opt (map_option (gen_stmt cx) i), block (Some brk) 0x40,
       loop (\<lambda>top. emit [
         (case c of None \<Rightarrow> Val | Some c \<Rightarrow> emit [gen_cond cx c, op OP_I32_EQZ, br_label OP_BR_IF brk]),
         block (Some cont) 0x40, gen_stmt cx a, end_blk,
         (case n of None \<Rightarrow> Val | Some n \<Rightarrow> emit [gen_expr cx n, drop_value n]),
         br_id OP_BR top, end_blk, end_blk])]"
| "gen_stmt cx (ND_DO a c brk cont) =
     emit [block (Some brk) 0x40,
       loop (\<lambda>top. emit [block (Some cont) 0x40, gen_stmt cx a, end_blk, gen_cond cx c, br_id OP_BR_IF top,
         end_blk, end_blk])]"
| "gen_stmt cx (ND_SWITCH c a cs d brk) = gen_switch cx c a (gen_stmt cx a) cs d brk"
| "gen_stmt cx (ND_CASE l a) =
     emit [close_label l ''unsupported switch shape (case nested inside another statement)'', gen_stmt cx a]"
| "gen_stmt cx (ND_GOTO l) = br_label OP_BR l"
| "gen_stmt cx (ND_LABEL l a) =
     emit [close_label l ''unsupported label position (labels must be at the top level of the function body)'',
           gen_stmt cx a]"
| "gen_stmt cx (ND_RETURN a) = gen_return cx a"
| "gen_stmt cx (ND_OTHER_STMT k) = error ''unsupported statement''"
| "gen_stmt cx ND_NULL_EXPR = error ''invalid statement''"
| "gen_stmt cx (ND_NUM ty v f) = error ''invalid statement''"
| "gen_stmt cx (ND_BINARY k ty a b) = error ''invalid statement''"
| "gen_stmt cx (ND_NEG ty a) = error ''invalid statement''"
| "gen_stmt cx (ND_NOT ty a) = error ''invalid statement''"
| "gen_stmt cx (ND_BITNOT ty a) = error ''invalid statement''"
| "gen_stmt cx (ND_ADDR ty a) = error ''invalid statement''"
| "gen_stmt cx (ND_DEREF ty a) = error ''invalid statement''"
| "gen_stmt cx (ND_CAST ty a) = error ''invalid statement''"
| "gen_stmt cx (ND_LOGAND ty a b) = error ''invalid statement''"
| "gen_stmt cx (ND_LOGOR ty a b) = error ''invalid statement''"
| "gen_stmt cx (ND_COMMA ty a b) = error ''invalid statement''"
| "gen_stmt cx (ND_ASSIGN ty a b) = error ''invalid statement''"
| "gen_stmt cx (ND_COND ty c a b) = error ''invalid statement''"
| "gen_stmt cx (ND_MEMBER ty a m) = error ''invalid statement''"
| "gen_stmt cx (ND_VAR ty v) = error ''invalid statement''"
| "gen_stmt cx (ND_MEMZERO i) = error ''invalid statement''"
| "gen_stmt cx (ND_FUNCALL ty f g args r) = error ''invalid statement''"
| "gen_stmt cx (ND_STMT_EXPR ty body) = error ''invalid statement''"
| "gen_stmt cx (ND_LABEL_VAL ty) = error ''invalid statement''"
| "gen_stmt cx (ND_CAS ty a b c) = error ''invalid statement''"
| "gen_stmt cx (ND_EXCH ty a b) = error ''invalid statement''"
| "gen_stmt cx (ND_VLA_PTR ty v) = error ''invalid statement''"

end
