(* ===== verification/Emit_Module.thy ===== *)
theory Emit_Module
  imports Codegen
begin

text \<open>
  The rest of the WebAssembly backend \<^verbatim>\<open>src/cc/codegen.c\<close>: which functions are imported, the numbering
  of functions, the layout of globals and frames, whole function bodies, the data image and the module
  written by \<^verbatim>\<open>codegen\<close>. The name tables \<^verbatim>\<open>func_index\<close>, \<^verbatim>\<open>global_def\<close> and \<^verbatim>\<open>referenced\<close> are maps.
\<close>

section \<open>References\<close>

text \<open>\<^verbatim>\<open>mark_refs\<close>: the functions named in an expression or a statement; \<open>fn\<close> gives a global's name if it is a function.\<close>

primrec mark_refs :: "(nat \<Rightarrow> u8 list option) \<Rightarrow> node \<Rightarrow> u8 list list" where
  "mark_refs fn ND_NULL_EXPR = []"
| "mark_refs fn (ND_NUM ty v f) = []"
| "mark_refs fn (ND_BINARY k ty a b) = mark_refs fn a @ mark_refs fn b"
| "mark_refs fn (ND_NEG ty a) = mark_refs fn a"
| "mark_refs fn (ND_NOT ty a) = mark_refs fn a"
| "mark_refs fn (ND_BITNOT ty a) = mark_refs fn a"
| "mark_refs fn (ND_ADDR ty a) = mark_refs fn a"
| "mark_refs fn (ND_DEREF ty a) = mark_refs fn a"
| "mark_refs fn (ND_CAST ty a) = mark_refs fn a"
| "mark_refs fn (ND_LOGAND ty a b) = mark_refs fn a @ mark_refs fn b"
| "mark_refs fn (ND_LOGOR ty a b) = mark_refs fn a @ mark_refs fn b"
| "mark_refs fn (ND_COMMA ty a b) = mark_refs fn a @ mark_refs fn b"
| "mark_refs fn (ND_ASSIGN ty a b) = mark_refs fn a @ mark_refs fn b"
| "mark_refs fn (ND_COND ty c a b) = mark_refs fn c @ mark_refs fn a @ mark_refs fn b"
| "mark_refs fn (ND_MEMBER ty a m) = mark_refs fn a"
| "mark_refs fn (ND_VAR ty v) = (case v of Local i \<Rightarrow> [] | Global i \<Rightarrow>
     (case fn i of None \<Rightarrow> [] | Some name \<Rightarrow> [name]))"
| "mark_refs fn (ND_MEMZERO i) = []"
| "mark_refs fn (ND_FUNCALL ty f g args r) = mark_refs fn g @ concat (map (mark_refs fn) args)"
| "mark_refs fn (ND_STMT_EXPR ty body) = concat (map (mark_refs fn) body)"
| "mark_refs fn (ND_LABEL_VAL ty) = []"
| "mark_refs fn (ND_CAS ty a b c) = []"
| "mark_refs fn (ND_EXCH ty a b) = mark_refs fn a @ mark_refs fn b"
| "mark_refs fn (ND_VLA_PTR ty v) = []"
| "mark_refs fn (ND_EXPR_STMT a) = mark_refs fn a"
| "mark_refs fn (ND_BLOCK body) = concat (map (mark_refs fn) body)"
| "mark_refs fn (ND_IF c a b) = mark_refs fn c @ mark_refs fn a
     @ (case map_option (mark_refs fn) b of None \<Rightarrow> [] | Some xs \<Rightarrow> xs)"
| "mark_refs fn (ND_FOR i c n a brk cont) =
     (case map_option (mark_refs fn) c of None \<Rightarrow> [] | Some xs \<Rightarrow> xs) @ mark_refs fn a
     @ (case map_option (mark_refs fn) i of None \<Rightarrow> [] | Some xs \<Rightarrow> xs)
     @ (case map_option (mark_refs fn) n of None \<Rightarrow> [] | Some xs \<Rightarrow> xs)"
| "mark_refs fn (ND_DO a c brk cont) = mark_refs fn c @ mark_refs fn a"
| "mark_refs fn (ND_SWITCH c a cs d brk) = mark_refs fn c @ mark_refs fn a"
| "mark_refs fn (ND_CASE l a) = mark_refs fn a"
| "mark_refs fn (ND_GOTO l) = []"
| "mark_refs fn (ND_LABEL l a) = mark_refs fn a"
| "mark_refs fn (ND_RETURN a) = (case map_option (mark_refs fn) a of None \<Rightarrow> [] | Some xs \<Rightarrow> xs)"
| "mark_refs fn (ND_OTHER_STMT k) = []"

definition function_names :: "Obj list \<Rightarrow> nat \<Rightarrow> u8 list option" where
  "function_names prog i = (if is_function (prog ! i) then Some (o_name (prog ! i)) else None)"

definition referenced :: "Obj list \<Rightarrow> u8 list set" where
  "referenced prog = set
     (concat (map (\<lambda>fn. if is_function fn \<and> is_definition fn then mark_refs (function_names prog) (o_body fn)
                        else []) prog)
      @ concat (map (\<lambda>v. if \<not> is_function v \<and> is_definition v then map rel_label (o_rel v) else []) prog))"

section \<open>Numbering\<close>

definition data_base :: int where "data_base = 1024"

text \<open>What the numbering of the functions leaves: the two section buffers, types, indices and functions.\<close>

record numbering =
  nb_imports :: Buf
  nb_funcsec :: Buf
  nb_types :: "u8 list list"
  nb_index :: "u8 list \<Rightarrow> nat option"
  nb_funcs :: "Obj list"

definition number :: "Obj \<Rightarrow> numbering \<Rightarrow> numbering" where
  "number fn nb = nb\<lparr>nb_index := (nb_index nb)(o_name fn \<mapsto> length (nb_funcs nb)),
                     nb_funcs := nb_funcs nb @ [fn]\<rparr>"

definition number_import :: "u8 list set \<Rightarrow> Obj \<Rightarrow> numbering \<Rightarrow> (string, numbering) res" where
  "number_import refs fn nb =
     (if \<not> is_function fn then Val nb
      else if is_definition fn \<or> o_name fn \<notin> refs then Val nb
      else if take 10 (o_name fn) = str ''__builtin_'' then Val nb
      else if take 6 (o_name fn) \<noteq> str ''__env_'' then Stop ''undefined function (env imports must be named __env_*)''
      else let (i, types) = sig_index (o_fty fn) (nb_types nb);
               b = buf_u8 (buf_name (buf_name (nb_imports nb) (str ''env'')) (drop 6 (o_name fn))) 0
           in Val (number fn (nb\<lparr>nb_imports := buf_uleb b (of_nat i), nb_types := types\<rparr>)))"

definition number_def :: "Obj \<Rightarrow> numbering \<Rightarrow> (string, numbering) res" where
  "number_def fn nb =
     (if \<not> is_function fn then Val nb
      else if \<not> is_definition fn then Val nb
      else let (i, types) = sig_index (o_fty fn) (nb_types nb)
           in Val (number fn (nb\<lparr>nb_funcsec := buf_uleb (nb_funcsec nb) (of_nat i), nb_types := types\<rparr>)))"

section \<open>Layout\<close>

text \<open>
  \<^verbatim>\<open>align_to\<close> and the sums around it are \<^verbatim>\<open>int\<close> arithmetic: an overflow is undefined behaviour.
\<close>

definition int_ok :: "int \<Rightarrow> bool" where
  "int_ok n \<longleftrightarrow> - (2 ^ 31) \<le> n \<and> n < 2 ^ 31"

definition align_int :: "int \<Rightarrow> int \<Rightarrow> (string, int) res" where
  "align_int n align = (if int_ok (n + align - 1) then Val (align_to n align) else Unsafe)"

text \<open>Frame offsets of a function's locals, and the size of its frame.\<close>

fun assign_lvar_offsets :: "Lvar list \<Rightarrow> int \<Rightarrow> (string, int list \<times> int) res" where
  "assign_lvar_offsets [] off = res_bind (align_int off 16) (\<lambda>frame_size. Val ([], frame_size))"
| "assign_lvar_offsets (v # vs) off =
     (if ty_kind (l_ty v) = TY_VLA then Stop ''VLA is not supported''
      else res_bind (align_int off (if l_align v < 1 then 1 else l_align v)) (\<lambda>off.
           if \<not> int_ok (off + ty_size (l_ty v)) then Unsafe
           else res_bind (assign_lvar_offsets vs (off + ty_size (l_ty v))) (\<lambda>(offs, frame_size).
                Val (off # offs, frame_size))))"

text \<open>
  The globals: the address so far and the defining object's address of each name. \<open>initialised\<close> is the
  first of the two passes.
\<close>

definition layout_global :: "bool \<Rightarrow> Obj \<Rightarrow> int \<times> (u8 list \<Rightarrow> int option) \<Rightarrow>
    (string, int \<times> (u8 list \<Rightarrow> int option)) res" where
  "layout_global initialised var = (\<lambda>(addr, defs).
     if is_function var \<or> \<not> is_definition var then Val (addr, defs)
     else if (init_data var \<noteq> None) \<noteq> initialised then Val (addr, defs)
     else if defs (o_name var) \<noteq> None
       then (if init_data var \<noteq> None then Stop ''redefinition'' else Val (addr, defs))
     else res_bind (align_int addr (if o_align var < 1 then 1 else o_align var)) (\<lambda>addr.
          let next = addr + ty_size (o_ty var)
          in if next > 0x7FFFFFFF then Stop ''globals do not fit in 2 GiB''
             else Val (next, defs(o_name var \<mapsto> addr))))"

record layout =
  lay_defs :: "u8 list \<Rightarrow> int option"
  lay_data_end :: int
  lay_stack_top :: int

definition layout_globals :: "int \<Rightarrow> int \<Rightarrow> Obj list \<Rightarrow> (string, layout) res" where
  "layout_globals opt_stack_size opt_max_pages prog =
     res_bind (res_fold (layout_global True) prog (data_base, Map.empty)) (\<lambda>(data_end, defs).
     res_bind (res_fold (layout_global False) prog (data_end, defs)) (\<lambda>(addr, defs).
     res_bind (align_int addr 16) (\<lambda>stack_bottom.
     res_bind (align_int opt_stack_size 16) (\<lambda>stack_size.
     let top = stack_bottom + stack_size
     in if top + 65535 > opt_max_pages * 65536 \<or> top > 0x7FFFFFFF
        then Stop ''data plus stack do not fit''
        else Val \<lparr>lay_defs = defs, lay_data_end = data_end, lay_stack_top = top\<rparr>))))"

section \<open>Function bodies\<close>

definition fn_ctx :: "cctx \<Rightarrow> Obj \<Rightarrow> int list \<Rightarrow> int \<Rightarrow> cctx" where
  "fn_ctx cx fn offs frame_size =
     cx\<lparr>cx_local := (\<lambda>i. o_locals fn ! i), cx_offset := (\<lambda>i. offs ! i),
        cx_return_ty := return_ty (o_fty fn),
        cx_loc_fp := length (o_params fn) + (if is_variadic (o_fty fn) then 1 else 0),
        cx_frame_size := frame_size\<rparr>"

definition prologue :: "cctx \<Rightarrow> gen" where
  "prologue cx =
     emit [op_u OP_GLOBAL_GET 0,
           if cx_frame_size cx \<noteq> 0 then emit [i32c (cx_frame_size cx), op OP_I32_SUB] else Val,
           op_u OP_LOCAL_TEE (cx_loc_fp cx), op_u OP_GLOBAL_SET 0]"

text \<open>Parameter \<open>i\<close>, the local \<open>p\<close>, goes into its frame slot.\<close>

definition spill_param :: "cctx \<Rightarrow> nat \<times> nat \<Rightarrow> gen" where
  "spill_param cx = (\<lambda>(i, p).
     if is_struct (l_ty (cx_local cx p))
     then emit [fp_plus cx (cx_offset cx p), op_u OP_LOCAL_GET i, i32c (ty_size (l_ty (cx_local cx p))), memory_copy]
     else emit [fp_plus cx (cx_offset cx p), op_u OP_LOCAL_GET i, store (l_ty (cx_local cx p))])"

definition top_labels :: "node \<Rightarrow> string list" where
  "top_labels body = (case body of
     ND_BLOCK ns \<Rightarrow> concat (map (\<lambda>n. case n of ND_LABEL l a \<Rightarrow> [l] | _ \<Rightarrow> []) ns) | _ \<Rightarrow> [])"

definition epilogue :: "cctx \<Rightarrow> vclass \<Rightarrow> gen" where
  "epilogue cx rc =
     emit [op_u OP_LOCAL_GET (cx_loc_fp cx),
           if cx_frame_size cx \<noteq> 0 then emit [i32c (cx_frame_size cx), op OP_I32_ADD] else Val,
           op_u OP_GLOBAL_SET 0,
           if rc \<noteq> VC_NONE then op_u OP_LOCAL_GET (loc_rv cx) else Val,
           op OP_END]"

definition function_code :: "cctx \<Rightarrow> Obj \<Rightarrow> gen" where
  "function_code cx fn =
     emit [prologue cx, emit (map (spill_param cx) (enumerate 0 (o_params fn))),
       if is_variadic (o_fty fn)
       then emit [fp_plus cx (cx_offset cx (va_area fn)), op_u OP_LOCAL_GET (length (o_params fn)),
                  memarg OP_I32_STORE 2]
       else Val,
       if length (top_labels (o_body fn)) > 256 then error ''too many labels'' else Val,
       block (Some RET_LABEL) 0x40,
       emit (map (\<lambda>l. block (Some l) 0x40) (rev (top_labels (o_body fn)))),
       gen_stmt cx (o_body fn),
       (\<lambda>s. if length (cg_ctl s) \<noteq> 1 then Stop ''internal error: unbalanced control stack'' else Val s),
       end_blk, epilogue cx (result_class (o_fty fn))]"

text \<open>The declaration of the scratch locals, with one more for the return value.\<close>

definition function_locals :: "vclass \<Rightarrow> Buf" where
  "function_locals rc =
     (let b = buf_uleb empty_buf (if rc = VC_NONE then 4 else 5);
          b = buf_u8 (buf_uleb b 3) 0x7F;
          b = buf_u8 (buf_uleb b 1) 0x7E;
          b = buf_u8 (buf_uleb b 1) 0x7D;
          b = buf_u8 (buf_uleb b 1) 0x7C
      in if rc \<noteq> VC_NONE then buf_u8 (buf_uleb b 1) (valtype rc) else b)"

definition gen_function :: "cctx \<Rightarrow> Obj \<Rightarrow> cg \<times> Buf \<Rightarrow> (string, cg \<times> Buf) res" where
  "gen_function cx fn = (\<lambda>(s, out).
     res_bind (assign_lvar_offsets (o_locals fn) 0) (\<lambda>(offs, frame_size).
     let s = s\<lparr>cg_code := (cg_code s)\<lparr>buf_data := []\<rparr>, cg_ctl := []\<rparr>
     in res_bind (function_code (fn_ctx cx fn offs frame_size) fn s) (\<lambda>s.
        let body_buf = buf_buf (function_locals (result_class (o_fty fn))) (cg_code s)
        in Val (s, buf_buf (buf_uleb out (of_nat (length (buf_data body_buf)))) body_buf))))"

section \<open>Data\<close>

definition le32 :: "int \<Rightarrow> u8 list" where
  "le32 v = map (\<lambda>k. of_int (v div 2 ^ (8 * k))) [0..<4]"

definition overwrite :: "u8 list \<Rightarrow> nat \<Rightarrow> u8 list \<Rightarrow> (string, u8 list) res" where
  "overwrite img at bs =
     (if at + length bs \<le> length img then Val (take at img @ bs @ drop (at + length bs) img) else Unsafe)"

text \<open>A relocation stores the address of its target, the first object of that name, plus the addend.\<close>

definition relocate :: "cctx \<Rightarrow> Obj list \<Rightarrow> nat \<Rightarrow> Relocation \<Rightarrow> u8 list \<Rightarrow> (string, u8 list) res" where
  "relocate cx prog base rel img =
     (case find (\<lambda>o'. o_name o' = rel_label rel) prog of
        None \<Rightarrow> Stop ''relocation to unknown symbol''
      | Some target \<Rightarrow>
          res_bind (global_addr cx target) (\<lambda>a.
          overwrite img (base + rel_offset rel) (le32 (a + rel_addend rel))))"

text \<open>
  The initialised definitions. An initialised object whose layout succeeded is the one its name stands
  for, as a second one stops the layout, so the test for it is the lookup of its address.
\<close>

fun data_image :: "cctx \<Rightarrow> Obj list \<Rightarrow> Obj list \<Rightarrow> u8 list \<Rightarrow> (string, u8 list) res" where
  "data_image cx prog [] img = Val img"
| "data_image cx prog (var # vars) img =
     (case (is_function var \<or> \<not> is_definition var, init_data var, cx_global_def cx (o_name var)) of
        (False, Some bytes, Some addr) \<Rightarrow>
          let base = nat (addr - data_base)
          in res_bind (if length bytes < nat (ty_size (o_ty var)) then Unsafe
                       else overwrite img base (take (nat (ty_size (o_ty var))) bytes)) (\<lambda>img.
             res_bind (res_fold (relocate cx prog base) (o_rel var) img) (\<lambda>img.
             data_image cx prog vars img))
      | _ \<Rightarrow> data_image cx prog vars img)"

definition emit_data :: "u8 list \<Rightarrow> Buf \<Rightarrow> Buf" where
  "emit_data img sec =
     (let sec = buf_u8 (buf_uleb sec 1) 0;
          sec = buf_u8 (buf_sleb (buf_u8 sec 0x41) data_base) 0x0B
      in buf_bytes (buf_uleb sec (of_nat (length img))) img)"

section \<open>The module\<close>

text \<open>The sections, once everything that goes into them is known.\<close>

record parts =
  pt_types :: "u8 list list"
  pt_nimports :: nat
  pt_imports :: Buf
  pt_nfuncs :: nat
  pt_funcsec :: Buf
  pt_codesec :: Buf
  pt_stack_top :: int
  pt_start :: "nat option"
  pt_image :: "u8 list"

definition write_module :: "int \<Rightarrow> parts \<Rightarrow> (string, Buf) res" where
  "write_module opt_max_pages p =
     (let out = buf_bytes empty_buf [0x00, 0x61, 0x73, 0x6D, 0x01, 0x00, 0x00, 0x00];
          s = buf_bytes (buf_uleb empty_buf (of_nat (length (pt_types p)))) (concat (pt_types p));
          out = buf_section out 1 s;
          out = (if pt_nimports p \<noteq> 0
                 then buf_section out 2 (buf_buf (buf_uleb empty_buf (of_nat (pt_nimports p))) (pt_imports p))
                 else out);
          s = buf_buf (buf_uleb empty_buf (of_nat (pt_nfuncs p - pt_nimports p))) (pt_funcsec p);
          out = buf_section out 3 s;
          s = buf_u8 (buf_u8 (buf_uleb empty_buf 1) 0x70) 1;
          s = buf_uleb (buf_uleb s (of_nat (pt_nfuncs p + 1))) (of_nat (pt_nfuncs p + 1));
          out = buf_section out 4 s;
          min_pages = (pt_stack_top p + 65535) div 65536
      in if \<not> int_ok (pt_stack_top p + 65535) then Unsafe
         else if min_pages > opt_max_pages then Stop ''initial memory exceeds -mmaxpages''
         else
         let s = buf_u8 (buf_uleb empty_buf 1) 1;
             s = buf_uleb (buf_uleb s (of_int min_pages)) (of_int opt_max_pages);
             out = buf_section out 5 s;
             s = buf_u8 (buf_u8 (buf_uleb empty_buf 1) 0x7F) 1;
             s = buf_u8 (buf_sleb (buf_u8 s 0x41) (pt_stack_top p)) 0x0B;
             out = buf_section out 6 s;
             s = buf_uleb empty_buf (if pt_start p \<noteq> None then 2 else 1);
             s = buf_uleb (buf_u8 (buf_name s (str ''memory'')) 2) 0;
             s = (case pt_start p of None \<Rightarrow> s
                  | Some i \<Rightarrow> buf_uleb (buf_u8 (buf_name s (str ''_start'')) 0) (of_nat i));
             out = buf_section out 7 s;
             s = buf_u8 (buf_uleb empty_buf 1) 0;
             s = buf_u8 (buf_sleb (buf_u8 s 0x41) 1) 0x0B;
             s = buf_uleb s (of_nat (pt_nfuncs p));
             s = fold (\<lambda>i s. buf_uleb s (of_nat i)) [0..<pt_nfuncs p] s;
             out = buf_section out 9 s;
             out = buf_section out 10 (pt_codesec p);
             out = buf_section out 11 (emit_data (pt_image p) empty_buf)
         in Val out)"

text \<open>
  \<^verbatim>\<open>codegen\<close> on the objects in source order (the parser's reverse order has been undone). File-scope
  assembly is refused before. Imports are numbered first, then definitions.
\<close>

definition number_functions :: "Obj list \<Rightarrow> (string, nat \<times> numbering) res" where
  "number_functions prog =
     res_bind (res_fold (number_import (referenced prog)) prog
        \<lparr>nb_imports = empty_buf, nb_funcsec = empty_buf, nb_types = [], nb_index = Map.empty, nb_funcs = []\<rparr>) (\<lambda>nb0.
     res_bind (res_fold number_def prog nb0) (\<lambda>nb. Val (length (nb_funcs nb0), nb)))"

definition module_ctx :: "Obj list \<Rightarrow> numbering \<Rightarrow> layout \<Rightarrow> cctx" where
  "module_ctx prog nb lay =
     \<lparr>cx_obj = (\<lambda>i. prog ! i), cx_local = (\<lambda>_. \<lparr>l_ty = ty_void, l_align = 0\<rparr>), cx_offset = (\<lambda>_. 0),
      cx_func_index = nb_index nb, cx_global_def = lay_defs lay, cx_heap_base = lay_stack_top lay,
      cx_return_ty = ty_void, cx_loc_fp = 0, cx_frame_size = 0\<rparr>"

definition codegen :: "int \<Rightarrow> int \<Rightarrow> Obj list \<Rightarrow> (string, Buf) res" where
  "codegen opt_stack_size opt_max_pages prog =
     res_bind (number_functions prog) (\<lambda>(nimports, nb).
     res_bind (layout_globals opt_stack_size opt_max_pages prog) (\<lambda>lay.
     let nfuncs = length (nb_funcs nb);
         cx = module_ctx prog nb lay;
         s0 = \<lparr>cg_code = empty_buf, cg_ctl = [], ctl_id_counter = 0, cg_types = nb_types nb\<rparr>
     in res_bind (res_fold (gen_function cx) (drop nimports (nb_funcs nb))
          (s0, buf_uleb empty_buf (of_nat (nfuncs - nimports)))) (\<lambda>(s, codesec).
        res_bind (data_image cx prog prog (replicate (nat (lay_data_end lay - data_base)) 0)) (\<lambda>img.
        write_module opt_max_pages
          \<lparr>pt_types = cg_types s, pt_nimports = nimports, pt_imports = nb_imports nb, pt_nfuncs = nfuncs,
           pt_funcsec = nb_funcsec nb, pt_codesec = codesec, pt_stack_top = lay_stack_top lay,
           pt_start = nb_index nb (str ''_start''), pt_image = img\<rparr>))))"

end
