(* ===== verification/Emit_Read.thy ===== *)
theory Emit_Read
  imports Reader_Codec Emit_Module
begin

text \<open>
  What the compiler's backend writes, the translator's reader reads back: the sections one by one,
  then the whole module. \<open>reads dbg m bs m'\<close> says that the reader's section loop, in front of the bytes
  \<open>bs\<close> with module \<open>m\<close>, goes on behind them with module \<open>m'\<close>.
\<close>

section \<open>The section loop\<close>

abbreviation section_loop :: "bool \<Rightarrow> WasmModule \<Rightarrow> WasmModule reader" where
  "section_loop dbg \<equiv> rd_while (\<lambda>_ s. \<not> bufferAtEnd (rd_buffer s)) (wasmModuleReadSection plenty dbg)"

definition reads :: "bool \<Rightarrow> WasmModule \<Rightarrow> u8 list \<Rightarrow> WasmModule \<Rightarrow> bool" where
  "reads dbg m bs m' \<longleftrightarrow> m_length m' = m_length m \<and>
     (\<forall>rest k. length (bs @ rest) \<le> m_length m \<longrightarrow>
        (\<exists>k'. section_loop dbg m (input (bs @ rest) k) = section_loop dbg m' (input rest k')))"

lemma reads_append:
  assumes 1: "reads dbg m bs m1" and 2: "reads dbg m1 cs m2"
  shows "reads dbg m (bs @ cs) m2"
  unfolding reads_def
proof (intro conjI allI impI)
  show "m_length m2 = m_length m" using 1 2 by (simp add: reads_def)
  fix rest k
  assume len: "length ((bs @ cs) @ rest) \<le> m_length m"
  then obtain k1 where "section_loop dbg m (input (bs @ cs @ rest) k) = section_loop dbg m1 (input (cs @ rest) k1)"
    using 1 unfolding reads_def by (metis append_assoc)
  moreover have "length (cs @ rest) \<le> m_length m1" using len 1 by (simp add: reads_def)
  ultimately show "\<exists>k'. section_loop dbg m (input ((bs @ cs) @ rest) k) = section_loop dbg m2 (input rest k')"
    using 2 unfolding reads_def by simp
qed

lemma reads_refl: "reads dbg m [] m"
  by (auto simp: reads_def)

lemma reads_end:
  assumes "reads dbg m bs m'" and "length bs \<le> m_length m"
  shows "\<exists>k'. section_loop dbg m (input bs k) = Val (m', input [] k')"
proof -
  from assms obtain k' where "section_loop dbg m (input (bs @ []) k) = section_loop dbg m' (input [] k')"
    unfolding reads_def by (metis append_Nil2)
  then show ?thesis by (simp add: rd_while_def rd_loop.simps [of _ _ m'] bufferAtEnd_def)
qed

definition section_bytes :: "u8 \<Rightarrow> u8 list \<Rightarrow> u8 list" where
  "section_bytes i content = i # uleb_bytes (length content) @ content"

lemma buf_section_data:
  "length (buf_data c) < 2 ^ 64 \<Longrightarrow>
   buf_data (buf_section out i c) = buf_data out @ section_bytes (word_of_int i) (buf_data c)"
  by (simp add: buf_section_def buf_buf_def buf_uleb_data section_bytes_def unat_of_nat)

lemma reads_section:
  assumes rd: "wasmSectionReaders plenty dbg i = Some rd" and len: "length content < 2 ^ 32"
    and keep: "m_length m' = m_length m"
    and run: "\<And>rest k. length (content @ rest) \<le> m_length m \<Longrightarrow>
      \<exists>k'. rd m (of_nat (length content)) (input (content @ rest) k) = Val (m', input rest k')"
  shows "reads dbg m (section_bytes i content) m'"
  unfolding reads_def
proof (intro conjI allI impI keep)
  fix rest k
  assume fits: "length (section_bytes i content @ rest) \<le> m_length m"
  have n: "unat (of_nat (length content) :: u32) = length content" using len by (simp add: unat_of_nat)
  have u: "rd_u32 e (input (uleb_bytes (length content) @ bs) k) = Val (of_nat (length content), input bs k)"
    for e :: WasmModuleReaderErrorCode and bs k
    using rd_u32_uleb [of e "of_nat (length content)" bs k] n by simp
  obtain k' where r: "rd m (of_nat (length content)) (input (content @ rest) k) = Val (m', input rest k')"
    using run fits by (fastforce simp: section_bytes_def)
  have "wasmModuleReadSection plenty dbg m (input (section_bytes i content @ rest) k) = Val (m', input rest k')"
    using r n by (simp add: wasmModuleReadSection_def section_bytes_def rd_bind_Val u rd)
      (simp add: rd_bind_def rd_rest_def rd_guard_def rd_return_def)
  then have "section_loop dbg m (input (section_bytes i content @ rest) k) = section_loop dbg m' (input rest k')"
    by (simp add: rd_while_def rd_loop.simps [of _ _ m] bufferAtEnd_def section_bytes_def)
  then show "\<exists>k'. section_loop dbg m (input (section_bytes i content @ rest) k)
      = section_loop dbg m' (input rest k')" ..
qed

section \<open>One section after the other\<close>

lemma enc_vec_single: "enc_vec enc [x] = 1 # enc x"
  by (simp add: enc_vec_def uleb_bytes.simps)

lemma reads_types:
  assumes "list_all functype_ok ts" "length ts < 2 ^ 32" "length (enc_vec enc_functype ts) < 2 ^ 32"
  shows "reads dbg m (section_bytes 1 (enc_vec enc_functype ts)) (m\<lparr>functionTypes := ts\<rparr>)"
proof (rule reads_section [where rd = "\<lambda>m _. wasmReadTypeSection plenty m"])
  fix rest k
  obtain k' where "rd_vec plenty wasmModuleReaderInvalidTypeSectionTypeCount
      wasmModuleReaderAllocationFailed 32 (wasmReadFunctionType plenty)
      (input (enc_vec enc_functype ts @ rest) k) = Val (ts, input rest k')"
    using ftc.rd_vec_enc [of ts] assms(1,2) by fastforce
  then show "\<exists>k'. wasmReadTypeSection plenty m (input (enc_vec enc_functype ts @ rest) k)
      = Val (m\<lparr>functionTypes := ts\<rparr>, input rest k')"
    by (simp add: wasmReadTypeSection_def rd_bind_Val rd_return_def)
qed (use assms(3) in \<open>simp_all add: wasmSectionReaders_def\<close>)

definition enc_fimport :: "WasmFunctionImport \<Rightarrow> u8 list" where
  "enc_fimport im = enc_name (fi_module im) @ enc_name (fi_name im) @ 0 # uleb_bytes (unat (fi_functionTypeIndex im))"

definition append_array :: "'a \<Rightarrow> 'a array \<Rightarrow> 'a array" where
  "append_array x a = \<lparr>items = items a @ [x],
     capacity = (if length (items a) + 1 \<le> capacity a then capacity a
                 else length (items a) + 1 + drop_bit 1 (capacity a))\<rparr>"

lemma items_append_arrays: "items (fold append_array xs a) = items a @ xs"
  by (induction xs arbitrary: a) (simp_all add: append_array_def)

lemma arrayAppend_plenty_eq:
  "\<exists>k'. arrayAppend plenty e sz a x (input bs k) = Val (append_array x a, input bs k')"
  by (cases a)
    (auto simp: arrayAppend_def arrayEnsureCapacity_def rd_bind_def rd_return_def rd_calloc_def
      plenty_def Let_def append_array_def)

lemma wasmReadImport_enc:
  assumes "name_ok (fi_module im)" "name_ok (fi_name im)"
  shows "\<exists>k'. wasmReadImport plenty m (input (enc_fimport im @ rest) k)
     = Val (m\<lparr>functionImports := append_array im (functionImports m)\<rparr>, input rest k')"
proof -
  obtain k' where app: "arrayAppend plenty wasmModuleReaderAllocationFailed 24 (functionImports m) im
      (input rest (k + 2)) = Val (append_array im (functionImports m), input rest k')"
    using arrayAppend_plenty_eq [of wasmModuleReaderAllocationFailed 24 "functionImports m" im rest "k + 2"]
    by blast
  have im: "\<lparr>fi_module = fi_module im, fi_name = fi_name im,
      fi_functionTypeIndex = fi_functionTypeIndex im\<rparr> = im"
    by (cases im) simp
  have "rd_or e (wasmReadName plenty) (input (enc_name s @ bs) k) = Val (s, input bs (k + 1))"
    if "name_ok s" for e :: WasmModuleReaderErrorCode and s bs k
    using wasmReadName_enc [OF that] by (simp add: rd_or_def)
  then show ?thesis
    using assms app
    by (auto simp: wasmReadImport_def enc_fimport_def rd_bind_Val wasmReadFunctionImport_def
        rd_u32_uleb im rd_return_def)
qed

lemma reads_imports:
  assumes "list_all (\<lambda>im. name_ok (fi_module im) \<and> name_ok (fi_name im)) ims"
    and "length ims < 2 ^ 32" "length (enc_vec enc_fimport ims) < 2 ^ 32"
  shows "reads dbg m (section_bytes 2 (enc_vec enc_fimport ims))
     (m\<lparr>functionImports := fold append_array ims (functionImports m)\<rparr>)"
proof (rule reads_section [where rd = "\<lambda>m _. wasmReadImportSection plenty m"])
  fix rest k
  have iter: "\<exists>k'. rd_iter (length ims) (wasmReadImport plenty) m (input (concat (map enc_fimport ims) @ rest) k)
      = Val (m\<lparr>functionImports := fold append_array ims (functionImports m)\<rparr>, input rest k')" for k
    using assms(1)
  proof (induction ims arbitrary: m k)
    case Nil
    then show ?case by (simp add: rd_return_def)
  next
    case (Cons im ims)
    let ?m = "m\<lparr>functionImports := append_array im (functionImports m)\<rparr>"
    obtain k1 where 1: "wasmReadImport plenty m
        (input (enc_fimport im @ concat (map enc_fimport ims) @ rest) k)
        = Val (?m, input (concat (map enc_fimport ims) @ rest) k1)"
      using wasmReadImport_enc [of im m "concat (map enc_fimport ims) @ rest" k] Cons.prems by auto
    obtain k2 where "rd_iter (length ims) (wasmReadImport plenty) ?m
        (input (concat (map enc_fimport ims) @ rest) k1)
        = Val (?m\<lparr>functionImports := fold append_array ims (functionImports ?m)\<rparr>, input rest k2)"
      using Cons.IH [of ?m k1] Cons.prems by auto
    with 1 show ?case by (simp add: rd_bind_Val)
  qed
  have n: "unat (of_nat (length ims) :: u32) = length ims" using assms(2) by (simp add: unat_of_nat)
  have "rd_u32 e (input (enc_vec enc_fimport ims @ rest) k)
      = Val (of_nat (length ims), input (concat (map enc_fimport ims) @ rest) k)"
    for e :: WasmModuleReaderErrorCode
    using rd_u32_uleb [of e "of_nat (length ims)"] n by (simp add: enc_vec_def)
  then show "\<exists>k'. wasmReadImportSection plenty m (input (enc_vec enc_fimport ims @ rest) k)
      = Val (m\<lparr>functionImports := fold append_array ims (functionImports m)\<rparr>, input rest k')"
    using iter [of k] n by (simp add: wasmReadImportSection_def rd_bind_Val)
qed (use assms(3) in \<open>simp_all add: wasmSectionReaders_def\<close>)

definition declared :: "u32 \<Rightarrow> WasmFunction" where
  "declared i = wasmEmptyFunction\<lparr>functionTypeIndex := i\<rparr>"

definition decl_ok :: "nat \<Rightarrow> WasmFunction \<Rightarrow> bool" where
  "decl_ok n f \<longleftrightarrow> f = declared (functionTypeIndex f) \<and> unat (functionTypeIndex f) < n \<and> n < 2 ^ 32"

interpretation declc: codec "\<lambda>f. uleb_bytes (unat (functionTypeIndex f))"
  "wasmReadFunctionDeclaration n" "decl_ok n"
  by unfold_locales (metis decl_ok_def declared_def wasmReadFunctionDeclaration_enc)

lemma reads_functions:
  assumes "list_all (\<lambda>i. unat i < length (functionTypes m)) tis" "length (functionTypes m) < 2 ^ 32"
    and "length tis < 2 ^ 32" "length (enc_vec (\<lambda>i. uleb_bytes (unat i)) tis) < 2 ^ 32"
  shows "reads dbg m (section_bytes 3 (enc_vec (\<lambda>i. uleb_bytes (unat i)) tis))
     (m\<lparr>m_functions := map declared tis\<rparr>)"
proof (rule reads_section [where rd = "\<lambda>m _. wasmReadFunctionSection plenty m"])
  fix rest k
  have "list_all (decl_ok (length (functionTypes m))) (map declared tis)"
    using assms(1,2) by (auto simp: list_all_iff decl_ok_def declared_def)
  moreover have "enc_vec (\<lambda>f. uleb_bytes (unat (functionTypeIndex f))) (map declared tis)
      = enc_vec (\<lambda>i. uleb_bytes (unat i)) tis"
    by (simp add: enc_vec_def comp_def declared_def)
  ultimately obtain k' where "rd_vec plenty wasmModuleReaderInvalidFunctionSectionFunctionCount
      wasmModuleReaderAllocationFailed 80 (wasmReadFunctionDeclaration (length (functionTypes m)))
      (input (enc_vec (\<lambda>i. uleb_bytes (unat i)) tis @ rest) k) = Val (map declared tis, input rest k')"
    using declc.rd_vec_enc [of "length (functionTypes m)" "map declared tis"] assms(3) by fastforce
  then show "\<exists>k'. wasmReadFunctionSection plenty m (input (enc_vec (\<lambda>i. uleb_bytes (unat i)) tis @ rest) k)
      = Val (m\<lparr>m_functions := map declared tis\<rparr>, input rest k')"
    by (simp add: wasmReadFunctionSection_def rd_bind_Val rd_return_def)
qed (use assms(4) in \<open>simp_all add: wasmSectionReaders_def\<close>)

lemma reads_table:
  assumes "limits_ok l" "length (enc_limits l) < 2 ^ 32 - 2"
  shows "reads dbg m (section_bytes 4 (1 # 0x70 # enc_limits l)) (m\<lparr>m_tables := [l]\<rparr>)"
proof (rule reads_section [where rd = "\<lambda>m _. wasmReadTableSection plenty m"])
  fix rest k
  obtain k' where "rd_vec plenty wasmModuleReaderInvalidTableSectionTableCount
      wasmModuleReaderAllocationFailed 12 wasmReadTableType
      (input (enc_vec (\<lambda>l. 0x70 # enc_limits l) [l] @ rest) k) = Val ([l], input rest k')"
    using tabc.rd_vec_enc [of "[l]"] assms(1) by fastforce
  then show "\<exists>k'. wasmReadTableSection plenty m (input ((1 # 0x70 # enc_limits l) @ rest) k)
      = Val (m\<lparr>m_tables := [l]\<rparr>, input rest k')"
    by (simp add: wasmReadTableSection_def enc_vec_single rd_bind_Val rd_return_def)
qed (use assms in \<open>simp_all add: wasmSectionReaders_def\<close>)

lemma reads_memory:
  assumes "limits_ok l" "length (enc_limits l) < 2 ^ 32 - 1"
  shows "reads dbg m (section_bytes 5 (1 # enc_limits l)) (m\<lparr>memories := [l]\<rparr>)"
proof (rule reads_section [where rd = "\<lambda>m _. wasmReadMemorySection plenty m"])
  fix rest k
  obtain k' where "rd_vec plenty wasmModuleReaderInvalidMemorySectionMemoryCount
      wasmModuleReaderAllocationFailed 12 wasmReadMemoryType
      (input (enc_vec enc_limits [l] @ rest) k) = Val ([l], input rest k')"
    using memc.rd_vec_enc [of "[l]"] assms(1) by fastforce
  then show "\<exists>k'. wasmReadMemorySection plenty m (input ((1 # enc_limits l) @ rest) k)
      = Val (m\<lparr>memories := [l]\<rparr>, input rest k')"
    by (simp add: wasmReadMemorySection_def enc_vec_single rd_bind_Val rd_return_def)
qed (use assms in \<open>simp_all add: wasmSectionReaders_def\<close>)

definition enc_global :: "WasmGlobal \<Rightarrow> u8 list" where
  "enc_global g = [valtype_byte (valueType (g_type g)), if gt_mutable (g_type g) then 1 else 0] @ g_init g"

definition const_expr :: "u8 list \<Rightarrow> bool" where
  "const_expr e \<longleftrightarrow> (\<exists>x. - (2 ^ 31) \<le> x \<and> x < 2 ^ 31 \<and> e = enc_const x)"

lemma consumed_const_expr:
  "const_expr e \<Longrightarrow>
   rd_consumed (rd_or er wasmReadConstantExpr) (input (e @ rest) k) = Val (e, input rest k)"
  by (auto simp: const_expr_def consumed_const)

interpretation globc: codec enc_global wasmReadGlobal "\<lambda>g. const_expr (g_init g)"
proof (unfold_locales, intro exI)
  fix g :: WasmGlobal and rest k
  assume "const_expr (g_init g)"
  moreover have "wasmReadGlobalType (input (valtype_byte (valueType (g_type g))
      # (if gt_mutable (g_type g) then 1 else 0) # bs) k) = Val (g_type g, input bs k)" for bs
    by (cases "g_type g")
      (simp add: wasmReadGlobalType_def rd_bind_Val wasmModuleReadValueType_def rd_or_def rd_return_def)
  ultimately show "wasmReadGlobal (input (enc_global g @ rest) k) = Val (g, input rest k)"
    by (cases g) (simp add: wasmReadGlobal_def enc_global_def rd_bind_Val consumed_const_expr rd_return_def)
qed

definition enc_data :: "WasmDataSegment \<Rightarrow> u8 list" where
  "enc_data d = 0 # ds_offset d @ uleb_bytes (length (ds_bytes d)) @ ds_bytes d"

definition data_ok :: "WasmDataSegment \<Rightarrow> bool" where
  "data_ok d \<longleftrightarrow> const_expr (ds_offset d) \<and> ds_memoryIndex d = 0 \<and> \<not> ds_passive d \<and>
     length (ds_bytes d) < 2 ^ 32"

lemma uleb_zero: "uleb_bytes 0 = [0]"
  by (simp add: uleb_bytes.simps)

lemma rd_u32_zero: "rd_u32 e (input (0 # rest) k) = Val (0, input rest k)"
  using rd_u32_uleb [of e 0 rest k] by (simp add: uleb_zero)

lemma wasmReadBytes_enc:
  assumes "length bs < 2 ^ 32"
  shows "wasmReadBytes plenty (input (uleb_bytes (length bs) @ bs @ rest) k) = Val (bs, input rest (k + 1))"
proof -
  have n: "unat (of_nat (length bs) :: u32) = length bs" using assms by (simp add: unat_of_nat)
  show ?thesis
    using rd_u32_uleb [of "()" "of_nat (length bs)" "bs @ rest" k]
    by (simp add: n wasmReadBytes_def rd_bind_Val)
      (simp add: rd_bind_def rd_rest_def rd_guard_def rd_calloc_def plenty_def n rd_skip_unchecked_eq rd_return_def)
qed

interpretation datac: codec enc_data "wasmReadDataSegment plenty" data_ok
proof (unfold_locales, intro exI)
  fix d rest k
  assume ok: "data_ok d"
  have "rd_or wasmModuleReaderInvalidDataSectionBytes (wasmReadBytes plenty)
      (input (uleb_bytes (length (ds_bytes d)) @ ds_bytes d @ rest) k) = Val (ds_bytes d, input rest (k + 1))"
    using ok wasmReadBytes_enc [of "ds_bytes d" rest k] by (simp add: rd_or_def data_ok_def)
  then show "wasmReadDataSegment plenty (input (enc_data d @ rest) k) = Val (d, input rest (k + 1))"
    using ok
    by (cases d)
      (simp add: wasmReadDataSegment_def enc_data_def data_ok_def rd_bind_Val rd_u32_zero
        consumed_const_expr rd_return_def)
qed

definition enc_element :: "WasmElementSegment \<Rightarrow> u8 list" where
  "enc_element e = uleb_bytes (unat (es_tableIndex e)) @ es_offset e
     @ enc_vec (\<lambda>i. uleb_bytes (unat i)) (es_functionIndices e)"

definition element_ok :: "WasmElementSegment \<Rightarrow> bool" where
  "element_ok e \<longleftrightarrow> const_expr (es_offset e) \<and> length (es_functionIndices e) < 2 ^ 32"

interpretation elemc: codec enc_element "wasmReadElementSegment plenty" element_ok
proof unfold_locales
  fix e rest k
  assume ok: "element_ok e"
  then obtain k' where "rd_vec plenty wasmModuleReaderInvalidElementSectionFunctionIndexCount
      wasmModuleReaderAllocationFailed 4 (rd_u32 wasmModuleReaderInvalidElementSectionFunctionIndex)
      (input (enc_vec (\<lambda>i. uleb_bytes (unat i)) (es_functionIndices e) @ rest) k)
      = Val (es_functionIndices e, input rest k')"
    using u32c.rd_vec_enc [of "es_functionIndices e"] by (fastforce simp: element_ok_def list_all_iff)
  then show "\<exists>k'. wasmReadElementSegment plenty (input (enc_element e @ rest) k) = Val (e, input rest k')"
    using ok
    by (cases e)
      (simp add: wasmReadElementSegment_def enc_element_def element_ok_def rd_bind_Val rd_u32_uleb
        consumed_const_expr rd_return_def)
qed

lemma reads_globals:
  assumes "const_expr (g_init g)" "length (enc_global g) < 2 ^ 32 - 1"
  shows "reads dbg m (section_bytes 6 (1 # enc_global g)) (m\<lparr>globals := [g]\<rparr>)"
proof (rule reads_section [where rd = "\<lambda>m _. wasmReadGlobalSection plenty m"])
  fix rest k
  obtain k' where "rd_vec plenty wasmModuleReaderInvalidGlobalSectionGlobalCount
      wasmModuleReaderAllocationFailed 24 wasmReadGlobal (input (enc_vec enc_global [g] @ rest) k)
      = Val ([g], input rest k')"
    using globc.rd_vec_enc [of "[g]"] assms(1) by fastforce
  then show "\<exists>k'. wasmReadGlobalSection plenty m (input ((1 # enc_global g) @ rest) k)
      = Val (m\<lparr>globals := [g]\<rparr>, input rest k')"
    by (simp add: wasmReadGlobalSection_def enc_vec_single rd_bind_Val rd_return_def)
qed (use assms in \<open>simp_all add: wasmSectionReaders_def\<close>)

lemma reads_elements:
  assumes "element_ok e" "length (enc_element e) < 2 ^ 32 - 1"
  shows "reads dbg m (section_bytes 9 (1 # enc_element e)) (m\<lparr>elementSegments := [e]\<rparr>)"
proof (rule reads_section [where rd = "\<lambda>m _. wasmReadElementSection plenty m"])
  fix rest k
  obtain k' where "rd_vec plenty wasmModuleReaderInvalidElementSectionElementSegmentCount
      wasmModuleReaderAllocationFailed 40 (wasmReadElementSegment plenty)
      (input (enc_vec enc_element [e] @ rest) k) = Val ([e], input rest k')"
    using elemc.rd_vec_enc [of "[e]"] assms(1) by fastforce
  then show "\<exists>k'. wasmReadElementSection plenty m (input ((1 # enc_element e) @ rest) k)
      = Val (m\<lparr>elementSegments := [e]\<rparr>, input rest k')"
    by (simp add: wasmReadElementSection_def enc_vec_single rd_bind_Val rd_return_def)
qed (use assms in \<open>simp_all add: wasmSectionReaders_def\<close>)

lemma reads_data:
  assumes "data_ok d" "length (enc_data d) < 2 ^ 32 - 1"
  shows "reads dbg m (section_bytes 11 (1 # enc_data d)) (m\<lparr>dataSegments := [d]\<rparr>)"
proof (rule reads_section [where rd = "\<lambda>m _. wasmReadDataSection plenty m"])
  fix rest k
  obtain k' where "rd_vec plenty wasmModuleReaderInvalidDataSectionDataSegmentCount
      wasmModuleReaderAllocationFailed 48 (wasmReadDataSegment plenty)
      (input (enc_vec enc_data [d] @ rest) k) = Val ([d], input rest k')"
    using datac.rd_vec_enc [of "[d]"] assms(1) by fastforce
  then show "\<exists>k'. wasmReadDataSection plenty m (input ((1 # enc_data d) @ rest) k)
      = Val (m\<lparr>dataSegments := [d]\<rparr>, input rest k')"
    by (simp add: wasmReadDataSection_def enc_vec_single rd_bind_Val rd_return_def)
qed (use assms in \<open>simp_all add: wasmSectionReaders_def\<close>)

section \<open>Exports\<close>

fun export_byte :: "WasmExportKind \<Rightarrow> u8" where
  "export_byte wasmExportKindFunction = 0"
| "export_byte wasmExportKindTable = 1"
| "export_byte wasmExportKindMemory = 2"
| "export_byte wasmExportKindGlobal = 3"

definition enc_export :: "WasmExport \<Rightarrow> u8 list" where
  "enc_export e = enc_name (ex_name e) @ export_byte (ex_kind e) # uleb_bytes (unat (ex_index e))"

interpretation expc: codec enc_export "wasmReadExport plenty" "\<lambda>e. name_ok (ex_name e)"
proof (unfold_locales, intro exI)
  fix e :: WasmExport and rest k
  assume "name_ok (ex_name e)"
  then have "rd_or er (wasmReadName plenty) (input (enc_name (ex_name e) @ bs) k)
      = Val (ex_name e, input bs (k + 1))" for bs and er :: WasmModuleReaderErrorCode
    using wasmReadName_enc by (simp add: rd_or_def)
  then show "wasmReadExport plenty (input (enc_export e @ rest) k) = Val (e, input rest (k + 1))"
    by (cases e, cases "ex_kind e")
      (simp_all add: wasmReadExport_def enc_export_def rd_bind_Val rd_u32_uleb rd_return_def
        export_kind_def word_le_nat_alt)
qed

text \<open>What an export does to the defined functions: one of them gets its name.\<close>

definition name_export :: "nat \<Rightarrow> WasmExport \<Rightarrow> WasmFunction list \<Rightarrow> WasmFunction list" where
  "name_export imports e fs =
     (if ex_kind e = wasmExportKindFunction \<and> imports \<le> unat (ex_index e)
      then fs[unat (ex_index e) - imports := (fs ! (unat (ex_index e) - imports))\<lparr>exportName := Some (ex_name e)\<rparr>]
      else fs)"

lemma length_name_export [simp]: "length (name_export n e fs) = length fs"
  by (simp add: name_export_def)

definition export_ok :: "WasmModule \<Rightarrow> WasmExport \<Rightarrow> bool" where
  "export_ok m e \<longleftrightarrow> name_ok (ex_name e) \<and>
     (ex_kind e = wasmExportKindFunction \<longrightarrow>
        unat (ex_index e) < length (items (functionImports m)) + length (m_functions m))"

lemma export_round_enc:
  assumes "export_ok m (e :: WasmExport)" "length fs = length (m_functions m)"
    and "length (items (functionImports m)) + length (m_functions m) < 2 ^ 32"
  shows "\<exists>k'. export_round plenty m (exs, fs) (input (enc_export e @ rest) k)
     = Val ((exs @ [e], name_export (length (items (functionImports m))) e fs), input rest k')"
proof -
  obtain k' where "wasmReadExport plenty (input (enc_export e @ rest) k) = Val (e, input rest k')"
    using expc.dec_enc assms(1) unfolding export_ok_def by blast
  moreover have "unat (functionCount m) = length (items (functionImports m)) + length (m_functions m)"
    using assms(3) by (simp add: functionCount_def unat_word_ariths unat_of_nat)
  moreover have "unat (ex_index e) - n < m"
    if "unat (ex_index e) < n + m" "n \<le> unat (ex_index e)" for n m
    using that by linarith
  ultimately show ?thesis
    using assms
    by (cases "ex_kind e = wasmExportKindFunction")
      (simp_all add: export_round_def rd_bind_Val name_export_def rd_return_def export_ok_def
        word_le_nat_alt Let_def not_le)
qed

lemma reads_exports:
  assumes ok: "list_all (export_ok m) exs" and "length exs < 2 ^ 32"
    and len: "length (items (functionImports m)) + length (m_functions m) < 2 ^ 32"
    and "length (enc_vec enc_export exs) < 2 ^ 32"
  shows "reads dbg m (section_bytes 7 (enc_vec enc_export exs)) (m\<lparr>exports := exs,
     m_functions := fold (name_export (length (items (functionImports m)))) exs (m_functions m)\<rparr>)"
proof (rule reads_section [where rd = "\<lambda>m _. wasmReadExportSection plenty m"])
  fix rest k
  have iter: "\<exists>k'. rd_iter (length es) (export_round plenty m) (pre, fs)
        (input (concat (map enc_export es) @ rest) k)
      = Val ((pre @ es, fold (name_export (length (items (functionImports m)))) es fs), input rest k')"
    if "list_all (export_ok m) es" "length fs = length (m_functions m)" for es pre fs k
    using that
  proof (induction es arbitrary: pre fs k)
    case Nil
    then show ?case by (simp add: rd_return_def)
  next
    case (Cons e es)
    obtain k1 where 1: "export_round plenty m (pre, fs)
        (input (enc_export e @ concat (map enc_export es) @ rest) k)
        = Val ((pre @ [e], name_export (length (items (functionImports m))) e fs),
            input (concat (map enc_export es) @ rest) k1)"
      using export_round_enc [of m e fs] Cons.prems len by fastforce
    with Cons.IH [of "name_export (length (items (functionImports m))) e fs" "pre @ [e]" k1] Cons.prems
    show ?case by (simp add: rd_bind_Val)
  qed
  have n: "unat (of_nat (length exs) :: u32) = length exs" using assms(2) by (simp add: unat_of_nat)
  have u: "rd_u32 e (input (enc_vec enc_export exs @ rest) k)
      = Val (of_nat (length exs), input (concat (map enc_export exs) @ rest) k)"
    for e :: WasmModuleReaderErrorCode
    using rd_u32_uleb [of e "of_nat (length exs)"] n by (simp add: enc_vec_def)
  have "rd_calloc plenty e c sz (input bs k) = Val ((), input bs (k + 1))"
    for e :: WasmModuleReaderErrorCode and c sz bs
    by (simp add: rd_calloc_def plenty_def)
  then show "\<exists>k'. wasmReadExportSection plenty m (input (enc_vec enc_export exs @ rest) k)
      = Val (m\<lparr>exports := exs, m_functions :=
          fold (name_export (length (items (functionImports m)))) exs (m_functions m)\<rparr>, input rest k')"
    using iter [OF ok refl, of "[]" "k + 1"] n
    by (auto simp: wasmReadExportSection_def rd_bind_Val u rd_return_def)
qed (use assms(4) in \<open>simp_all add: wasmSectionReaders_def\<close>)

section \<open>Code\<close>

text \<open>The functions with their bodies in place, the first body's size at \<open>pos\<close> in the section.\<close>

fun placed :: "nat \<Rightarrow> WasmFunction list \<Rightarrow> (WasmLocalsDeclaration list \<times> u8 list) list \<Rightarrow> WasmFunction list" where
  "placed pos (f # fs) ((ds, body) # bodies) =
     f\<lparr>code_hash := SHA1 (enc_vec enc_locals_decl ds @ body), localsDeclarations := ds,
       code_start := pos + length (enc_body ds body) - length body, code := body\<rparr>
     # placed (pos + length (enc_body ds body)) fs bodies"
| "placed pos _ _ = []"

abbreviation enc_bodies :: "(WasmLocalsDeclaration list \<times> u8 list) list \<Rightarrow> u8 list" where
  "enc_bodies bodies \<equiv> concat (map (\<lambda>(ds, body). enc_body ds body) bodies)"

definition body_ok :: "WasmLocalsDeclaration list \<times> u8 list \<Rightarrow> bool" where
  "body_ok = (\<lambda>(ds, body). length ds < 2 ^ 32 \<and> length (enc_vec enc_locals_decl ds @ body) < 2 ^ 32)"

lemma read_bodies:
  assumes "list_all body_ok bodies" "length fs = length bodies"
    and "ml = cs + pos + length (enc_bodies bodies @ rest)"
  shows "\<exists>k'. rd_map (wasmReadCode plenty ml cs) fs (input (enc_bodies bodies @ rest) k)
     = Val (placed pos fs bodies, input rest k')"
  using assms
proof (induction bodies arbitrary: fs pos k)
  case Nil
  then show ?case by (simp add: rd_return_def)
next
  case (Cons b bodies)
  obtain ds body where b: "b = (ds, body)" by (cases b)
  from Cons.prems(2) obtain f fs' where fs: "fs = f # fs'" by (cases fs) auto
  let ?rest = "enc_bodies bodies @ rest"
  obtain k1 where 1: "wasmReadCode plenty ml cs f (input (enc_body ds body @ ?rest) k) =
     Val (f\<lparr>code_hash := SHA1 (enc_vec enc_locals_decl ds @ body), localsDeclarations := ds,
            code_start := ml - length (body @ ?rest) - cs, code := body\<rparr>, input ?rest k1)"
    using wasmReadCode_enc [of ds body ml cs f ?rest k] Cons.prems(1) b by (auto simp: body_ok_def)
  obtain k2 where 2: "rd_map (wasmReadCode plenty ml cs) fs' (input ?rest k1)
     = Val (placed (pos + length (enc_body ds body)) fs' bodies, input rest k2)"
    using Cons.IH [of fs' "pos + length (enc_body ds body)" k1] Cons.prems fs b by auto
  have "ml - length (body @ ?rest) - cs = pos + length (enc_body ds body) - length body"
    using Cons.prems(3) b by simp
  with 1 2 show ?case
    by (simp add: fs b rd_bind_Val rd_return_def)
qed

lemma reads_code:
  assumes "list_all body_ok bodies" "length (m_functions m) = length bodies" "length bodies < 2 ^ 32"
    and "length (uleb_bytes (length bodies) @ enc_bodies bodies) < 2 ^ 32"
  shows "reads dbg m (section_bytes 10 (uleb_bytes (length bodies) @ enc_bodies bodies))
     (m\<lparr>m_functions := placed (length (uleb_bytes (length bodies))) (m_functions m) bodies\<rparr>)"
proof (rule reads_section [where rd = "\<lambda>m _. wasmReadCodeSection plenty m"])
  fix rest k
  let ?n = "uleb_bytes (length bodies)"
  assume fits: "length ((?n @ enc_bodies bodies) @ rest) \<le> m_length m"
  define cs where "cs = m_length m - length ((?n @ enc_bodies bodies) @ rest)"
  have ml: "m_length m = cs + length ?n + length (enc_bodies bodies @ rest)"
    using fits by (simp add: cs_def)
  obtain k' where r: "rd_map (wasmReadCode plenty (m_length m) cs) (m_functions m)
      (input (enc_bodies bodies @ rest) k) = Val (placed (length ?n) (m_functions m) bodies, input rest k')"
    using read_bodies [OF assms(1,2) ml] by blast
  have "unat (of_nat (length bodies) :: u32) = length bodies" using assms(3) by (simp add: unat_of_nat)
  then have u: "rd_u32 e (input (?n @ bs) k) = Val (of_nat (length bodies), input bs k)"
    for e :: WasmModuleReaderErrorCode and bs
    using rd_u32_uleb [of e "of_nat (length bodies)"] by simp
  show "\<exists>k'. wasmReadCodeSection plenty m (input ((?n @ enc_bodies bodies) @ rest) k)
      = Val (m\<lparr>m_functions := placed (length ?n) (m_functions m) bodies\<rparr>, input rest k')"
    using r assms(2)
    by (simp add: wasmReadCodeSection_def rd_bind_def [of rd_rest] rd_rest_def Let_def rd_bind_Val u
        cs_def rd_return_def)
qed (use assms(4) in \<open>simp_all add: wasmSectionReaders_def\<close>)

end
