(* ===== verification/Wasm_Typing.thy ===== *)
theory Wasm_Typing
  imports Emit_Buf Cc_Types
begin

text \<open>
  Validation of WebAssembly code as the core specification's algorithm does it, over the bytes of the
  instructions the compiler emits: a configuration is the stack of open blocks, the function's own
  last, each with its kind, the type a branch to it takes, the type it leaves, and its operands, top first.
  \<open>vinstr E bs c c'\<close> is one instruction, \<open>vruns\<close> a sequence. The operand stack after a branch, which
  validation leaves open, is kept.
\<close>

section \<open>Instruction types\<close>

text \<open>Instructions without immediates: the operands they take, top first, and what they leave.\<close>

definition plain_op :: "int \<Rightarrow> (vclass list \<times> vclass list) option" where
  "plain_op c =
     (if c = 0x45 then Some ([VC_I32], [VC_I32])
      else if 0x46 \<le> c \<and> c \<le> 0x4F then Some ([VC_I32, VC_I32], [VC_I32])
      else if c = 0x50 then Some ([VC_I64], [VC_I32])
      else if 0x51 \<le> c \<and> c \<le> 0x5A then Some ([VC_I64, VC_I64], [VC_I32])
      else if 0x5B \<le> c \<and> c \<le> 0x60 then Some ([VC_F32, VC_F32], [VC_I32])
      else if 0x61 \<le> c \<and> c \<le> 0x66 then Some ([VC_F64, VC_F64], [VC_I32])
      else if 0x67 \<le> c \<and> c \<le> 0x69 then Some ([VC_I32], [VC_I32])
      else if 0x6A \<le> c \<and> c \<le> 0x78 then Some ([VC_I32, VC_I32], [VC_I32])
      else if 0x79 \<le> c \<and> c \<le> 0x7B then Some ([VC_I64], [VC_I64])
      else if 0x7C \<le> c \<and> c \<le> 0x8A then Some ([VC_I64, VC_I64], [VC_I64])
      else if 0x8B \<le> c \<and> c \<le> 0x91 then Some ([VC_F32], [VC_F32])
      else if 0x92 \<le> c \<and> c \<le> 0x98 then Some ([VC_F32, VC_F32], [VC_F32])
      else if 0x99 \<le> c \<and> c \<le> 0x9F then Some ([VC_F64], [VC_F64])
      else if 0xA0 \<le> c \<and> c \<le> 0xA6 then Some ([VC_F64, VC_F64], [VC_F64])
      else if c = 0xA7 then Some ([VC_I64], [VC_I32])
      else if c = 0xA8 \<or> c = 0xA9 then Some ([VC_F32], [VC_I32])
      else if c = 0xAA \<or> c = 0xAB then Some ([VC_F64], [VC_I32])
      else if c = 0xAC \<or> c = 0xAD then Some ([VC_I32], [VC_I64])
      else if c = 0xAE \<or> c = 0xAF then Some ([VC_F32], [VC_I64])
      else if c = 0xB0 \<or> c = 0xB1 then Some ([VC_F64], [VC_I64])
      else if c = 0xB2 \<or> c = 0xB3 then Some ([VC_I32], [VC_F32])
      else if c = 0xB4 \<or> c = 0xB5 then Some ([VC_I64], [VC_F32])
      else if c = 0xB6 then Some ([VC_F64], [VC_F32])
      else if c = 0xB7 \<or> c = 0xB8 then Some ([VC_I32], [VC_F64])
      else if c = 0xB9 \<or> c = 0xBA then Some ([VC_I64], [VC_F64])
      else if c = 0xBB then Some ([VC_F32], [VC_F64])
      else if c = 0xBC then Some ([VC_F32], [VC_I32])
      else if c = 0xBD then Some ([VC_F64], [VC_I64])
      else if c = 0xBE then Some ([VC_I32], [VC_F32])
      else if c = 0xBF then Some ([VC_I64], [VC_F64])
      else if c = 0xC0 \<or> c = 0xC1 then Some ([VC_I32], [VC_I32])
      else if 0xC2 \<le> c \<and> c \<le> 0xC4 then Some ([VC_I64], [VC_I64])
      else None)"

text \<open>Loads and stores: the class and the largest alignment exponent.\<close>

definition load_op :: "int \<Rightarrow> (vclass \<times> nat) option" where
  "load_op c =
     (if c = 0x28 then Some (VC_I32, 2) else if c = 0x29 then Some (VC_I64, 3)
      else if c = 0x2A then Some (VC_F32, 2) else if c = 0x2B then Some (VC_F64, 3)
      else if c = 0x2C \<or> c = 0x2D then Some (VC_I32, 0) else if c = 0x2E \<or> c = 0x2F then Some (VC_I32, 1)
      else if c = 0x30 \<or> c = 0x31 then Some (VC_I64, 0) else if c = 0x32 \<or> c = 0x33 then Some (VC_I64, 1)
      else if c = 0x34 \<or> c = 0x35 then Some (VC_I64, 2) else None)"

definition store_op :: "int \<Rightarrow> (vclass \<times> nat) option" where
  "store_op c =
     (if c = 0x36 then Some (VC_I32, 2) else if c = 0x37 then Some (VC_I64, 3)
      else if c = 0x38 then Some (VC_F32, 2) else if c = 0x39 then Some (VC_F64, 3)
      else if c = 0x3A then Some (VC_I32, 0) else if c = 0x3B then Some (VC_I32, 1)
      else if c = 0x3C then Some (VC_I64, 0) else if c = 0x3D then Some (VC_I64, 1)
      else if c = 0x3E then Some (VC_I64, 2) else None)"

section \<open>Signatures and environments\<close>

definition sig_params :: "functype \<Rightarrow> vclass list" where
  "sig_params fty =
     (if is_struct (return_ty fty) then [VC_I32] else [])
     @ map (\<lambda>t. vclass (Some t)) (ft_params fty) @ (if is_variadic fty then [VC_I32] else [])"

definition of_class :: "vclass \<Rightarrow> vclass list" where
  "of_class c = (if c = VC_NONE then [] else [c])"

definition sig_results :: "functype \<Rightarrow> vclass list" where
  "sig_results fty = of_class (result_class fty)"

text \<open>A type entry as the binary format has it.\<close>

definition sig_bytes :: "vclass list \<Rightarrow> vclass list \<Rightarrow> u8 list" where
  "sig_bytes ps rs = 0x60 # uleb_bytes (length ps) @ map (\<lambda>c. word_of_int (valtype c)) ps
     @ of_nat (length rs) # map (\<lambda>c. word_of_int (valtype c)) rs"

record wenv =
  we_locals :: "nat \<Rightarrow> vclass option"
  we_funcs :: "nat \<Rightarrow> (vclass list \<times> vclass list) option"
  we_types :: "u8 list list"

section \<open>Validation\<close>

datatype fkind = K_FUNC | K_BLOCK | K_LOOP | K_IF | K_ELSE

datatype frame = Frame (fr_kind: fkind) (fr_label: "vclass list") (fr_res: "vclass list") (fr_stk: "vclass list")

definition blocktype :: "vclass list \<Rightarrow> u8" where
  "blocktype rs = (case rs of [] \<Rightarrow> 0x40 | c # _ \<Rightarrow> word_of_int (valtype c))"

definition block_results :: "vclass list \<Rightarrow> bool" where
  "block_results rs \<longleftrightarrow> length rs \<le> 1 \<and> VC_NONE \<notin> set rs"

inductive vinstr :: "wenv \<Rightarrow> u8 list \<Rightarrow> frame list \<Rightarrow> frame list \<Rightarrow> bool" for E :: wenv where
  v_plain: "plain_op c = Some (ins, outs) \<Longrightarrow>
     vinstr E [word_of_int c] (Frame k l r (ins @ s) # fs) (Frame k l r (outs @ s) # fs)"
| v_drop: "vinstr E [0x1A] (Frame k l r (c # s) # fs) (Frame k l r s # fs)"
| v_i32: "- (2 ^ 31) \<le> v \<Longrightarrow> v < 2 ^ 31 \<Longrightarrow>
     vinstr E (0x41 # sleb_bytes v) (Frame k l r s # fs) (Frame k l r (VC_I32 # s) # fs)"
| v_i64: "- (2 ^ 63) \<le> v \<Longrightarrow> v < 2 ^ 63 \<Longrightarrow>
     vinstr E (0x42 # sleb_bytes v) (Frame k l r s # fs) (Frame k l r (VC_I64 # s) # fs)"
| v_f32: "length bs = 4 \<Longrightarrow> vinstr E (0x43 # bs) (Frame k l r s # fs) (Frame k l r (VC_F32 # s) # fs)"
| v_f64: "length bs = 8 \<Longrightarrow> vinstr E (0x44 # bs) (Frame k l r s # fs) (Frame k l r (VC_F64 # s) # fs)"
| v_local_get: "we_locals E i = Some c \<Longrightarrow>
     vinstr E (0x20 # uleb_bytes i) (Frame k l r s # fs) (Frame k l r (c # s) # fs)"
| v_local_set: "we_locals E i = Some c \<Longrightarrow>
     vinstr E (0x21 # uleb_bytes i) (Frame k l r (c # s) # fs) (Frame k l r s # fs)"
| v_local_tee: "we_locals E i = Some c \<Longrightarrow>
     vinstr E (0x22 # uleb_bytes i) (Frame k l r (c # s) # fs) (Frame k l r (c # s) # fs)"
| v_global_get: "vinstr E (0x23 # uleb_bytes 0) (Frame k l r s # fs) (Frame k l r (VC_I32 # s) # fs)"
| v_global_set: "vinstr E (0x24 # uleb_bytes 0) (Frame k l r (VC_I32 # s) # fs) (Frame k l r s # fs)"
| v_load: "load_op c = Some (t, a) \<Longrightarrow> b \<le> a \<Longrightarrow>
     vinstr E (word_of_int c # uleb_bytes b @ uleb_bytes 0)
       (Frame k l r (VC_I32 # s) # fs) (Frame k l r (t # s) # fs)"
| v_store: "store_op c = Some (t, a) \<Longrightarrow> b \<le> a \<Longrightarrow>
     vinstr E (word_of_int c # uleb_bytes b @ uleb_bytes 0)
       (Frame k l r (t # VC_I32 # s) # fs) (Frame k l r s # fs)"
| v_memory_size: "vinstr E [0x3F, 0] (Frame k l r s # fs) (Frame k l r (VC_I32 # s) # fs)"
| v_memory_grow: "vinstr E [0x40, 0] (Frame k l r (VC_I32 # s) # fs) (Frame k l r (VC_I32 # s) # fs)"
| v_memory_copy: "vinstr E (0xFC # uleb_bytes 10 @ [0, 0])
     (Frame k l r (VC_I32 # VC_I32 # VC_I32 # s) # fs) (Frame k l r s # fs)"
| v_memory_fill: "vinstr E (0xFC # uleb_bytes 11 @ [0])
     (Frame k l r (VC_I32 # VC_I32 # VC_I32 # s) # fs) (Frame k l r s # fs)"
| v_call: "we_funcs E i = Some (ps, rs) \<Longrightarrow>
     vinstr E (0x10 # uleb_bytes i) (Frame k l r (rev ps @ s) # fs) (Frame k l r (rs @ s) # fs)"
| v_call_indirect: "i < length (we_types E) \<Longrightarrow> we_types E ! i = sig_bytes ps rs \<Longrightarrow>
     vinstr E (0x11 # uleb_bytes i @ [0]) (Frame k l r (VC_I32 # rev ps @ s) # fs) (Frame k l r (rs @ s) # fs)"
| v_block: "block_results rs \<Longrightarrow>
     vinstr E [0x02, blocktype rs] (Frame k l r s # fs) (Frame K_BLOCK rs rs [] # Frame k l r s # fs)"
| v_loop: "block_results rs \<Longrightarrow>
     vinstr E [0x03, blocktype rs] (Frame k l r s # fs) (Frame K_LOOP [] rs [] # Frame k l r s # fs)"
| v_if: "block_results rs \<Longrightarrow>
     vinstr E [0x04, blocktype rs] (Frame k l r (VC_I32 # s) # fs) (Frame K_IF rs rs [] # Frame k l r s # fs)"
| v_else: "vinstr E [0x05] (Frame K_IF l r r # fs) (Frame K_ELSE l r [] # fs)"
| v_end: "k = K_IF \<longrightarrow> r = [] \<Longrightarrow> k \<noteq> K_FUNC \<Longrightarrow>
     vinstr E [0x0B] (Frame k l r r # Frame k' l' r' s # fs) (Frame k' l' r' (r @ s) # fs)"
| v_end_function: "vinstr E [0x0B] [Frame K_FUNC l r r] []"
| v_br: "d < length (Frame k l r (t @ s) # fs) \<Longrightarrow> fr_label ((Frame k l r (t @ s) # fs) ! d) = t \<Longrightarrow>
     vinstr E (0x0C # uleb_bytes d) (Frame k l r (t @ s) # fs) (Frame k l r (t @ s) # fs)"
| v_br_if: "d < length (Frame k l r (t @ s) # fs) \<Longrightarrow> fr_label ((Frame k l r (t @ s) # fs) ! d) = t \<Longrightarrow>
     vinstr E (0x0D # uleb_bytes d) (Frame k l r (VC_I32 # t @ s) # fs) (Frame k l r (t @ s) # fs)"

inductive vruns :: "wenv \<Rightarrow> u8 list \<Rightarrow> frame list \<Rightarrow> frame list \<Rightarrow> bool" for E :: wenv where
  vr_nil: "vruns E [] c c"
| vr_step: "vinstr E i c c1 \<Longrightarrow> vruns E bs c1 c2 \<Longrightarrow> vruns E (i @ bs) c c2"

lemma vruns_single: "vinstr E i c c' \<Longrightarrow> vruns E i c c'"
  using vr_step [OF _ vr_nil] by simp

lemma vruns_append: "vruns E a c c1 \<Longrightarrow> vruns E b c1 c2 \<Longrightarrow> vruns E (a @ b) c c2"
  by (induction rule: vruns.induct) (auto intro: vr_step)

text \<open>A whole function body, up to its final \<^verbatim>\<open>end\<close>.\<close>

definition valid_body :: "wenv \<Rightarrow> u8 list \<Rightarrow> vclass list \<Rightarrow> bool" where
  "valid_body E code rs \<longleftrightarrow> vruns E code [Frame K_FUNC rs rs []] []"

end
