(* ===== verification/Codegen_Typing.thy ===== *)
theory Codegen_Typing
  imports Codegen Wasm_Typing
begin

text \<open>
  The code the WebAssembly backend generates is valid. \<open>hoare cx ft A P g Q\<close>: from a state and a
  validation configuration that satisfy \<open>P\<close>, the generator step \<open>g\<close> appends bytes that validation runs
  to a configuration satisfying \<open>Q\<close>; it may stop with an error message only if \<open>A\<close>, and never goes wrong.
  \<open>ex_spec\<close> is the special case of code that works on the operands of one block. The environment a
  module provides is only known once all types are collected, so it comes last.
\<close>

named_theorems ex_intros "typing rules of the emitters"

section \<open>Hoare triples over emitted code\<close>

text \<open>What is known around a function: the type of each numbered function and the classes of its parameters.\<close>

record fenv =
  fe_type :: "nat \<Rightarrow> functype"
  fe_params :: "vclass list"

definition result_of :: "ctype \<Rightarrow> vclass" where
  "result_of t = (if is_struct t then VC_NONE else vclass (Some t))"

lemma result_class_of: "result_class fty = result_of (return_ty fty)"
  by (simp add: result_class_def result_of_def)

definition env_ok :: "cctx \<Rightarrow> fenv \<Rightarrow> wenv \<Rightarrow> bool" where
  "env_ok cx ft E \<longleftrightarrow>
     we_locals E (cx_loc_fp cx) = Some VC_I32 \<and> we_locals E (cx_loc_fp cx + 1) = Some VC_I32
   \<and> we_locals E (cx_loc_fp cx + 2) = Some VC_I32 \<and> we_locals E (cx_loc_fp cx + 3) = Some VC_I64
   \<and> we_locals E (cx_loc_fp cx + 4) = Some VC_F32 \<and> we_locals E (cx_loc_fp cx + 5) = Some VC_F64
   \<and> (\<forall>i < length (fe_params ft). we_locals E i = Some (fe_params ft ! i))
   \<and> (result_of (cx_return_ty cx) \<noteq> VC_NONE \<longrightarrow> we_locals E (cx_loc_fp cx + 6) = Some (result_of (cx_return_ty cx)))
   \<and> (\<forall>i c. we_locals E i = Some c \<longrightarrow> i < 2 ^ 64) \<and> length (we_types E) < 2 ^ 64
   \<and> (\<forall>i sig. we_funcs E i = Some sig \<longrightarrow> i < 2 ^ 64)
   \<and> (\<forall>name i. cx_func_index cx name = Some i \<longrightarrow> we_funcs E i = Some (sig_params (fe_type ft i), sig_results (fe_type ft i)))"

text \<open>Types are only added behind those there are, and only those of signatures with value classes.\<close>

definition sig_ok :: "functype \<Rightarrow> bool" where
  "sig_ok fty \<longleftrightarrow> length (ft_params fty) < 2 ^ 31 \<and> list_all (\<lambda>t. vclass (Some t) \<noteq> VC_NONE) (ft_params fty)"

definition sigs_ok :: "u8 list list \<Rightarrow> bool" where
  "sigs_ok ts \<longleftrightarrow> list_all (\<lambda>e. \<exists>fty. sig_ok fty \<and> e = sig_bytes (sig_params fty) (sig_results fty)) ts"

definition types_ext :: "u8 list list \<Rightarrow> u8 list list \<Rightarrow> bool" where
  "types_ext ts ts' \<longleftrightarrow> prefix ts ts' \<and> (sigs_ok ts \<longrightarrow> sigs_ok ts')"

lemma types_ext_refl [simp]: "types_ext ts ts"
  by (simp add: types_ext_def)

lemma types_ext_trans: "types_ext a b \<Longrightarrow> types_ext b c \<Longrightarrow> types_ext a c"
  unfolding types_ext_def using prefix_order.trans by blast

lemma types_ext_prefix: "types_ext a b \<Longrightarrow> prefix b c \<Longrightarrow> prefix a c"
  unfolding types_ext_def using prefix_order.trans by blast

definition code_of :: "cg \<Rightarrow> u8 list" where "code_of s = buf_data (cg_code s)"

definition hoare :: "cctx \<Rightarrow> fenv \<Rightarrow> bool \<Rightarrow> (cg \<Rightarrow> frame list \<Rightarrow> bool) \<Rightarrow> gen
    \<Rightarrow> (cg \<Rightarrow> frame list \<Rightarrow> bool) \<Rightarrow> bool" where
  "hoare cx ft A P g Q \<longleftrightarrow> (\<forall>s c. P s c \<longrightarrow> (case g s of
       Val s' \<Rightarrow> \<exists>bs c'. code_of s' = code_of s @ bs \<and> types_ext (cg_types s) (cg_types s')
         \<and> ctl_id_counter s \<le> ctl_id_counter s'
         \<and> (\<forall>E. env_ok cx ft E \<longrightarrow> prefix (cg_types s') (we_types E) \<longrightarrow> vruns E bs c c') \<and> Q s' c'
     | Stop e \<Rightarrow> A | Unsafe \<Rightarrow> False))"

lemma hoareI:
  assumes "\<And>s c. P s c \<Longrightarrow> (\<exists>s' bs c'. g s = Val s' \<and> code_of s' = code_of s @ bs
      \<and> types_ext (cg_types s) (cg_types s') \<and> ctl_id_counter s \<le> ctl_id_counter s'
      \<and> (\<forall>E. env_ok cx ft E \<longrightarrow> prefix (cg_types s') (we_types E) \<longrightarrow> vruns E bs c c') \<and> Q s' c')
     \<or> A \<and> (\<exists>e. g s = Stop e)"
  shows "hoare cx ft A P g Q"
  using assms unfolding hoare_def by (fastforce split: res.split)

lemma hoareD:
  assumes "hoare cx ft A P g Q" and "P s c" and "g s = Val s'"
  obtains bs c' where "code_of s' = code_of s @ bs" "types_ext (cg_types s) (cg_types s')"
    "ctl_id_counter s \<le> ctl_id_counter s'" "Q s' c'"
    "\<And>E. env_ok cx ft E \<Longrightarrow> prefix (cg_types s') (we_types E) \<Longrightarrow> vruns E bs c c'"
  using assms unfolding hoare_def by (fastforce split: res.splits)

lemma hoare_Stop: "hoare cx ft A P g Q \<Longrightarrow> P s c \<Longrightarrow> g s = Stop e \<Longrightarrow> A"
  unfolding hoare_def by (fastforce split: res.splits)

lemma hoare_Unsafe: "hoare cx ft A P g Q \<Longrightarrow> P s c \<Longrightarrow> g s \<noteq> Unsafe"
  unfolding hoare_def by (fastforce split: res.splits)

lemma hoare_weaken:
  assumes h: "hoare cx ft A P g Q" and p: "\<And>s c. P' s c \<Longrightarrow> P s c" and q: "\<And>s c. Q s c \<Longrightarrow> Q' s c"
    and a: "A \<Longrightarrow> A'"
  shows "hoare cx ft A' P' g Q'"
proof (rule hoareI)
  fix s c assume "P' s c"
  then have P: "P s c" by (rule p)
  show "(\<exists>s' bs c'. g s = Val s' \<and> code_of s' = code_of s @ bs
      \<and> types_ext (cg_types s) (cg_types s') \<and> ctl_id_counter s \<le> ctl_id_counter s'
      \<and> (\<forall>E. env_ok cx ft E \<longrightarrow> prefix (cg_types s') (we_types E) \<longrightarrow> vruns E bs c c') \<and> Q' s' c')
     \<or> A' \<and> (\<exists>e. g s = Stop e)"
  proof (cases "g s")
    case (Val s')
    from hoareD [OF h P Val] q show ?thesis using Val by metis
  next
    case (Stop e)
    then show ?thesis using hoare_Stop [OF h P Stop] a by simp
  next
    case Unsafe
    then show ?thesis using hoare_Unsafe [OF h P] by simp
  qed
qed

lemma hoare_Val: "hoare cx ft A P Val P"
  by (rule hoareI) (auto intro: vr_nil)

lemma hoare_bind:
  assumes g: "hoare cx ft A P g R" and h: "hoare cx ft A R h Q"
  shows "hoare cx ft A P (\<lambda>s. res_bind (g s) h) Q"
proof (rule hoareI)
  fix s c assume P: "P s c"
  show "(\<exists>s' bs c'. res_bind (g s) h = Val s' \<and> code_of s' = code_of s @ bs
      \<and> types_ext (cg_types s) (cg_types s') \<and> ctl_id_counter s \<le> ctl_id_counter s'
      \<and> (\<forall>E. env_ok cx ft E \<longrightarrow> prefix (cg_types s') (we_types E) \<longrightarrow> vruns E bs c c') \<and> Q s' c')
     \<or> A \<and> (\<exists>e. res_bind (g s) h = Stop e)"
  proof (cases "g s")
    case (Val s1)
    from hoareD [OF g P Val] obtain bs1 c1 where 1: "code_of s1 = code_of s @ bs1"
      "types_ext (cg_types s) (cg_types s1)" "ctl_id_counter s \<le> ctl_id_counter s1" "R s1 c1"
      "\<And>E. env_ok cx ft E \<Longrightarrow> prefix (cg_types s1) (we_types E) \<Longrightarrow> vruns E bs1 c c1" by blast
    show ?thesis
    proof (cases "h s1")
      case (Val s2)
      from hoareD [OF h 1(4) Val] obtain bs2 c2 where 2: "code_of s2 = code_of s1 @ bs2"
        "types_ext (cg_types s1) (cg_types s2)" "ctl_id_counter s1 \<le> ctl_id_counter s2" "Q s2 c2"
        "\<And>E. env_ok cx ft E \<Longrightarrow> prefix (cg_types s2) (we_types E) \<Longrightarrow> vruns E bs2 c1 c2" by blast
      have "vruns E (bs1 @ bs2) c c2" if "env_ok cx ft E" "prefix (cg_types s2) (we_types E)" for E
        using vruns_append [OF 1(5) 2(5)] that 2(2) types_ext_prefix by blast
      then show ?thesis
        using Val \<open>g s = Val s1\<close> 1(1-3) 2(1-4) types_ext_trans
        by (intro disjI1 exI [of _ s2] exI [of _ "bs1 @ bs2"] exI [of _ c2]) auto
    next
      case (Stop e)
      then show ?thesis using hoare_Stop [OF h 1(4)] \<open>g s = Val s1\<close> by auto
    next
      case Unsafe
      then show ?thesis using hoare_Unsafe [OF h 1(4)] by simp
    qed
  next
    case (Stop e)
    then show ?thesis using hoare_Stop [OF g P] by simp
  next
    case Unsafe
    then show ?thesis using hoare_Unsafe [OF g P] by simp
  qed
qed

lemma hoare_emit_Nil: "hoare cx ft A P (emit []) P"
  by (rule hoareI) (auto intro: vr_nil)

lemma emit_Nil [simp]: "emit [] = Val"
  by (rule ext) simp

lemma hoare_emit_Cons:
  "hoare cx ft A P g R \<Longrightarrow> hoare cx ft A R (emit gs) Q \<Longrightarrow> hoare cx ft A P (emit (g # gs)) Q"
proof -
  assume "hoare cx ft A P g R" "hoare cx ft A R (emit gs) Q"
  moreover have "emit (g # gs) = (\<lambda>s. res_bind (g s) (emit gs))" by auto
  ultimately show ?thesis using hoare_bind by simp
qed

text \<open>A step that only writes bytes.\<close>

lemma hoare_put:
  assumes "\<And>b. buf_data (f b) = buf_data b @ bs"
    and "\<And>s c. P s c \<Longrightarrow> Q (s\<lparr>cg_code := f (cg_code s)\<rparr>) (T c)
      \<and> (\<forall>E. env_ok cx ft E \<longrightarrow> vruns E bs c (T c))"
  shows "hoare cx ft A P (put f) Q"
proof (rule hoareI, rule disjI1)
  fix s c assume "P s c"
  with assms show "\<exists>s' bs c'. put f s = Val s' \<and> code_of s' = code_of s @ bs
      \<and> types_ext (cg_types s) (cg_types s') \<and> ctl_id_counter s \<le> ctl_id_counter s'
      \<and> (\<forall>E. env_ok cx ft E \<longrightarrow> prefix (cg_types s') (we_types E) \<longrightarrow> vruns E bs c c') \<and> Q s' c'"
    by (intro exI [of _ "s\<lparr>cg_code := f (cg_code s)\<rparr>"] exI [of _ bs] exI [of _ "T c"])
      (simp add: put_def code_of_def)
qed

section \<open>Code on the operands of one block\<close>

definition at_frame :: "(string option \<times> nat) list \<Rightarrow> fkind \<Rightarrow> vclass list \<Rightarrow> vclass list \<Rightarrow> vclass list
    \<Rightarrow> frame list \<Rightarrow> cg \<Rightarrow> frame list \<Rightarrow> bool" where
  "at_frame ctl k l r st fs s c \<longleftrightarrow> cg_ctl s = ctl \<and> c = Frame k l r st # fs"

definition ex_spec :: "cctx \<Rightarrow> fenv \<Rightarrow> bool \<Rightarrow> nat \<Rightarrow> gen \<Rightarrow> vclass list \<Rightarrow> vclass list \<Rightarrow> bool" where
  "ex_spec cx ft A d g ins outs \<longleftrightarrow> (\<forall>ctl k l r fs. A \<or> length ctl + d \<le> 512 \<longrightarrow>
     hoare cx ft A (at_frame ctl k l r ins fs) g (at_frame ctl k l r outs fs))"

lemma ex_specI:
  "(\<And>ctl k l r fs. A \<or> length ctl + d \<le> 512 \<Longrightarrow>
     hoare cx ft A (at_frame ctl k l r ins fs) g (at_frame ctl k l r outs fs)) \<Longrightarrow>
   ex_spec cx ft A d g ins outs"
  by (simp add: ex_spec_def)

lemma ex_specD:
  "ex_spec cx ft A d g ins outs \<Longrightarrow> A \<or> length ctl + d \<le> 512 \<Longrightarrow>
   hoare cx ft A (at_frame ctl k l r ins fs) g (at_frame ctl k l r outs fs)"
  unfolding ex_spec_def by blast

lemma ex_Val [ex_intros]: "ex_spec cx ft A d Val st st"
  by (rule ex_specI) (rule hoare_Val)

lemma ex_Nil [ex_intros]: "ex_spec cx ft A d (emit []) st st"
  by (rule ex_specI) (rule hoare_emit_Nil)

lemma ex_Cons:
  assumes "ex_spec cx ft A d g ins mid" "ex_spec cx ft A d (emit gs) mid outs"
  shows "ex_spec cx ft A d (emit (g # gs)) ins outs"
  by (rule ex_specI) (rule hoare_emit_Cons [OF ex_specD [OF assms(1)] ex_specD [OF assms(2)]])

lemma ex_mono: "ex_spec cx ft A d g i j \<Longrightarrow> d \<le> d' \<Longrightarrow> ex_spec cx ft A d' g i j"
  by (rule ex_specI) (auto intro: ex_specD)

text \<open>One instruction.\<close>

lemma ex_put:
  assumes "\<And>b. buf_data (f b) = buf_data b @ bs"
    and "\<And>E k l r fs. env_ok cx ft E \<Longrightarrow> vinstr E bs (Frame k l r ins # fs) (Frame k l r outs # fs)"
  shows "ex_spec cx ft A d (put f) ins outs"
proof (rule ex_specI)
  fix ctl k l r fs
  show "hoare cx ft A (at_frame ctl k l r ins fs) (put f) (at_frame ctl k l r outs fs)"
    by (rule hoare_put [where bs = bs and T = "\<lambda>_. Frame k l r outs # fs", OF assms(1)])
      (auto simp: at_frame_def intro: vruns_single assms(2))
qed

lemma op_eq: "op c = put (\<lambda>b. buf_u8 b c)"
  by (simp add: op_def byte_def)

lemma ex_op:
  "(\<And>E k l r fs. vinstr E [word_of_int c] (Frame k l r ins # fs) (Frame k l r outs # fs)) \<Longrightarrow>
   ex_spec cx ft A d (op c) ins outs"
  unfolding op_eq by (rule ex_put) auto

lemma ex_unop: "plain_op c = Some ([a], [b]) \<Longrightarrow> ex_spec cx ft A d (op c) (a # st) (b # st)"
  by (rule ex_op) (use v_plain [of c "[a]" "[b]"] in simp)

lemma ex_binop: "plain_op c = Some ([a, a'], [b]) \<Longrightarrow> ex_spec cx ft A d (op c) (a # a' # st) (b # st)"
  by (rule ex_op) (use v_plain [of c "[a, a']" "[b]"] in simp)

lemma ex_binops [ex_intros]:
  "ex_spec cx ft A d (op OP_I32_EQ) (VC_I32 # VC_I32 # st) (VC_I32 # st)"
  "ex_spec cx ft A d (op OP_I32_NE) (VC_I32 # VC_I32 # st) (VC_I32 # st)"
  "ex_spec cx ft A d (op OP_I32_LT_S) (VC_I32 # VC_I32 # st) (VC_I32 # st)"
  "ex_spec cx ft A d (op OP_I32_LT_U) (VC_I32 # VC_I32 # st) (VC_I32 # st)"
  "ex_spec cx ft A d (op OP_I32_LE_S) (VC_I32 # VC_I32 # st) (VC_I32 # st)"
  "ex_spec cx ft A d (op OP_I32_LE_U) (VC_I32 # VC_I32 # st) (VC_I32 # st)"
  "ex_spec cx ft A d (op OP_I64_EQ) (VC_I64 # VC_I64 # st) (VC_I32 # st)"
  "ex_spec cx ft A d (op OP_I64_NE) (VC_I64 # VC_I64 # st) (VC_I32 # st)"
  "ex_spec cx ft A d (op OP_I64_LT_S) (VC_I64 # VC_I64 # st) (VC_I32 # st)"
  "ex_spec cx ft A d (op OP_I64_LT_U) (VC_I64 # VC_I64 # st) (VC_I32 # st)"
  "ex_spec cx ft A d (op OP_I64_LE_S) (VC_I64 # VC_I64 # st) (VC_I32 # st)"
  "ex_spec cx ft A d (op OP_I64_LE_U) (VC_I64 # VC_I64 # st) (VC_I32 # st)"
  "ex_spec cx ft A d (op OP_F32_EQ) (VC_F32 # VC_F32 # st) (VC_I32 # st)"
  "ex_spec cx ft A d (op OP_F32_NE) (VC_F32 # VC_F32 # st) (VC_I32 # st)"
  "ex_spec cx ft A d (op OP_F32_LT) (VC_F32 # VC_F32 # st) (VC_I32 # st)"
  "ex_spec cx ft A d (op OP_F32_LE) (VC_F32 # VC_F32 # st) (VC_I32 # st)"
  "ex_spec cx ft A d (op OP_F64_EQ) (VC_F64 # VC_F64 # st) (VC_I32 # st)"
  "ex_spec cx ft A d (op OP_F64_NE) (VC_F64 # VC_F64 # st) (VC_I32 # st)"
  "ex_spec cx ft A d (op OP_F64_LT) (VC_F64 # VC_F64 # st) (VC_I32 # st)"
  "ex_spec cx ft A d (op OP_F64_LE) (VC_F64 # VC_F64 # st) (VC_I32 # st)"
  "ex_spec cx ft A d (op OP_I32_ADD) (VC_I32 # VC_I32 # st) (VC_I32 # st)"
  "ex_spec cx ft A d (op OP_I32_SUB) (VC_I32 # VC_I32 # st) (VC_I32 # st)"
  "ex_spec cx ft A d (op OP_I32_MUL) (VC_I32 # VC_I32 # st) (VC_I32 # st)"
  "ex_spec cx ft A d (op OP_I32_DIV_S) (VC_I32 # VC_I32 # st) (VC_I32 # st)"
  "ex_spec cx ft A d (op OP_I32_DIV_U) (VC_I32 # VC_I32 # st) (VC_I32 # st)"
  "ex_spec cx ft A d (op OP_I32_REM_S) (VC_I32 # VC_I32 # st) (VC_I32 # st)"
  "ex_spec cx ft A d (op OP_I32_REM_U) (VC_I32 # VC_I32 # st) (VC_I32 # st)"
  "ex_spec cx ft A d (op OP_I32_AND) (VC_I32 # VC_I32 # st) (VC_I32 # st)"
  "ex_spec cx ft A d (op OP_I32_OR) (VC_I32 # VC_I32 # st) (VC_I32 # st)"
  "ex_spec cx ft A d (op OP_I32_XOR) (VC_I32 # VC_I32 # st) (VC_I32 # st)"
  "ex_spec cx ft A d (op OP_I32_SHL) (VC_I32 # VC_I32 # st) (VC_I32 # st)"
  "ex_spec cx ft A d (op OP_I32_SHR_S) (VC_I32 # VC_I32 # st) (VC_I32 # st)"
  "ex_spec cx ft A d (op OP_I32_SHR_U) (VC_I32 # VC_I32 # st) (VC_I32 # st)"
  "ex_spec cx ft A d (op OP_I64_ADD) (VC_I64 # VC_I64 # st) (VC_I64 # st)"
  "ex_spec cx ft A d (op OP_I64_SUB) (VC_I64 # VC_I64 # st) (VC_I64 # st)"
  "ex_spec cx ft A d (op OP_I64_MUL) (VC_I64 # VC_I64 # st) (VC_I64 # st)"
  "ex_spec cx ft A d (op OP_I64_DIV_S) (VC_I64 # VC_I64 # st) (VC_I64 # st)"
  "ex_spec cx ft A d (op OP_I64_DIV_U) (VC_I64 # VC_I64 # st) (VC_I64 # st)"
  "ex_spec cx ft A d (op OP_I64_REM_S) (VC_I64 # VC_I64 # st) (VC_I64 # st)"
  "ex_spec cx ft A d (op OP_I64_REM_U) (VC_I64 # VC_I64 # st) (VC_I64 # st)"
  "ex_spec cx ft A d (op OP_I64_AND) (VC_I64 # VC_I64 # st) (VC_I64 # st)"
  "ex_spec cx ft A d (op OP_I64_OR) (VC_I64 # VC_I64 # st) (VC_I64 # st)"
  "ex_spec cx ft A d (op OP_I64_XOR) (VC_I64 # VC_I64 # st) (VC_I64 # st)"
  "ex_spec cx ft A d (op OP_I64_SHL) (VC_I64 # VC_I64 # st) (VC_I64 # st)"
  "ex_spec cx ft A d (op OP_I64_SHR_S) (VC_I64 # VC_I64 # st) (VC_I64 # st)"
  "ex_spec cx ft A d (op OP_I64_SHR_U) (VC_I64 # VC_I64 # st) (VC_I64 # st)"
  "ex_spec cx ft A d (op OP_F32_ADD) (VC_F32 # VC_F32 # st) (VC_F32 # st)"
  "ex_spec cx ft A d (op OP_F32_SUB) (VC_F32 # VC_F32 # st) (VC_F32 # st)"
  "ex_spec cx ft A d (op OP_F32_MUL) (VC_F32 # VC_F32 # st) (VC_F32 # st)"
  "ex_spec cx ft A d (op OP_F32_DIV) (VC_F32 # VC_F32 # st) (VC_F32 # st)"
  "ex_spec cx ft A d (op OP_F64_ADD) (VC_F64 # VC_F64 # st) (VC_F64 # st)"
  "ex_spec cx ft A d (op OP_F64_SUB) (VC_F64 # VC_F64 # st) (VC_F64 # st)"
  "ex_spec cx ft A d (op OP_F64_MUL) (VC_F64 # VC_F64 # st) (VC_F64 # st)"
  "ex_spec cx ft A d (op OP_F64_DIV) (VC_F64 # VC_F64 # st) (VC_F64 # st)"
  by (rule ex_binop, simp add: plain_op_def)+

lemma ex_unops [ex_intros]:
  "ex_spec cx ft A d (op OP_I32_EQZ) (VC_I32 # st) (VC_I32 # st)"
  "ex_spec cx ft A d (op OP_I64_EQZ) (VC_I64 # st) (VC_I32 # st)"
  "ex_spec cx ft A d (op OP_F32_NEG) (VC_F32 # st) (VC_F32 # st)"
  "ex_spec cx ft A d (op OP_F64_NEG) (VC_F64 # st) (VC_F64 # st)"
  "ex_spec cx ft A d (op OP_I32_WRAP_I64) (VC_I64 # st) (VC_I32 # st)"
  "ex_spec cx ft A d (op OP_I32_TRUNC_F32_S) (VC_F32 # st) (VC_I32 # st)"
  "ex_spec cx ft A d (op OP_I32_TRUNC_F32_U) (VC_F32 # st) (VC_I32 # st)"
  "ex_spec cx ft A d (op OP_I32_TRUNC_F64_S) (VC_F64 # st) (VC_I32 # st)"
  "ex_spec cx ft A d (op OP_I32_TRUNC_F64_U) (VC_F64 # st) (VC_I32 # st)"
  "ex_spec cx ft A d (op OP_I64_EXTEND_I32_S) (VC_I32 # st) (VC_I64 # st)"
  "ex_spec cx ft A d (op OP_I64_EXTEND_I32_U) (VC_I32 # st) (VC_I64 # st)"
  "ex_spec cx ft A d (op OP_I64_TRUNC_F32_S) (VC_F32 # st) (VC_I64 # st)"
  "ex_spec cx ft A d (op OP_I64_TRUNC_F32_U) (VC_F32 # st) (VC_I64 # st)"
  "ex_spec cx ft A d (op OP_I64_TRUNC_F64_S) (VC_F64 # st) (VC_I64 # st)"
  "ex_spec cx ft A d (op OP_I64_TRUNC_F64_U) (VC_F64 # st) (VC_I64 # st)"
  "ex_spec cx ft A d (op OP_F32_CONVERT_I32_S) (VC_I32 # st) (VC_F32 # st)"
  "ex_spec cx ft A d (op OP_F32_CONVERT_I32_U) (VC_I32 # st) (VC_F32 # st)"
  "ex_spec cx ft A d (op OP_F32_CONVERT_I64_S) (VC_I64 # st) (VC_F32 # st)"
  "ex_spec cx ft A d (op OP_F32_CONVERT_I64_U) (VC_I64 # st) (VC_F32 # st)"
  "ex_spec cx ft A d (op OP_F32_DEMOTE_F64) (VC_F64 # st) (VC_F32 # st)"
  "ex_spec cx ft A d (op OP_F64_CONVERT_I32_S) (VC_I32 # st) (VC_F64 # st)"
  "ex_spec cx ft A d (op OP_F64_CONVERT_I32_U) (VC_I32 # st) (VC_F64 # st)"
  "ex_spec cx ft A d (op OP_F64_CONVERT_I64_S) (VC_I64 # st) (VC_F64 # st)"
  "ex_spec cx ft A d (op OP_F64_CONVERT_I64_U) (VC_I64 # st) (VC_F64 # st)"
  "ex_spec cx ft A d (op OP_F64_PROMOTE_F32) (VC_F32 # st) (VC_F64 # st)"
  "ex_spec cx ft A d (op OP_I32_EXTEND8_S) (VC_I32 # st) (VC_I32 # st)"
  "ex_spec cx ft A d (op OP_I32_EXTEND16_S) (VC_I32 # st) (VC_I32 # st)"
  by (rule ex_unop, simp add: plain_op_def)+

lemma ex_drop [ex_intros]: "ex_spec cx ft A d (op OP_DROP) (a # st) st"
  by (rule ex_op) (use v_drop in simp)

lemma sint_bounds32: "- (2 ^ 31) \<le> sint (w :: u32)" "sint (w :: u32) < 2 ^ 31"
  using sint_greater_eq [of w] sint_less [of w] by simp_all

lemma ex_i32c [ex_intros]: "ex_spec cx ft A d (i32c v) st (VC_I32 # st)"
  unfolding i32c_def
  by (rule ex_put [where bs = "0x41 # sleb_bytes (sint (word_of_int v :: u32))"])
    (use sint_bounds32 [of "word_of_int v"] in \<open>simp_all add: buf_sleb_data v_i32\<close>)

lemma ex_i64c [ex_intros]:
  "- (2 ^ 63) \<le> v \<Longrightarrow> v < 2 ^ 63 \<Longrightarrow> ex_spec cx ft A d (i64c v) st (VC_I64 # st)"
  unfolding i64c_def
  by (rule ex_put [where bs = "0x42 # sleb_bytes v"]) (simp_all add: buf_sleb_data v_i64)

lemma buf_le_data:
  "\<exists>bs. length bs = n \<and> (\<forall>b. buf_data (buf_le b v n) = buf_data b @ bs)"
proof (intro exI [of _ "map (\<lambda>i. word_of_int (uint (drop_bit (8 * i) v AND 0xFF))) [0..<n]"] conjI allI)
  fix b
  show "buf_data (buf_le b v n)
      = buf_data b @ map (\<lambda>i. word_of_int (uint (drop_bit (8 * i) v AND 0xFF))) [0..<n]"
    unfolding buf_le_def by (induction n) simp_all
qed simp

lemma ex_f32c [ex_intros]: "ex_spec cx ft A d (f32c v) st (VC_F32 # st)"
proof -
  obtain bs where bs: "length bs = 4" "\<And>b. buf_data (buf_le b (ucast v) 4) = buf_data b @ bs"
    using buf_le_data [of 4 "ucast v"] by blast
  show ?thesis
    unfolding f32c_def by (rule ex_put [where bs = "0x43 # bs"]) (simp_all add: bs v_f32)
qed

lemma ex_f64c [ex_intros]: "ex_spec cx ft A d (f64c v) st (VC_F64 # st)"
proof -
  obtain bs where bs: "length bs = 8" "\<And>b. buf_data (buf_le b v 8) = buf_data b @ bs"
    using buf_le_data [of 8 v] by blast
  show ?thesis
    unfolding f64c_def by (rule ex_put [where bs = "0x44 # bs"]) (simp_all add: bs v_f64)
qed

text \<open>Indices: where the environment knows one, it is below \<open>2^64\<close> and its encoding is plain.\<close>

lemma unat_of_nat_64 [simp]: "i < 2 ^ 64 \<Longrightarrow> unat (of_nat i :: u64) = i"
  by (simp add: unat_of_nat)

lemma ex_op_u:
  assumes "\<And>E k l r fs. env_ok cx ft E \<Longrightarrow>
     i < 2 ^ 64 \<and> vinstr E (word_of_int c # uleb_bytes i) (Frame k l r ins # fs) (Frame k l r outs # fs)"
  shows "ex_spec cx ft A d (op_u c i) ins outs"
  unfolding op_u_def
proof (rule ex_put [where bs = "word_of_int c # uleb_bytes (unat (of_nat i :: u64))"])
  fix E k l r fs assume "env_ok cx ft E"
  then show "vinstr E (word_of_int c # uleb_bytes (unat (of_nat i :: u64)))
      (Frame k l r ins # fs) (Frame k l r outs # fs)"
    using assms by (metis unat_of_nat_64)
qed (simp add: buf_uleb_data)

lemma env_local: "env_ok cx ft E \<Longrightarrow> we_locals E i = Some c \<Longrightarrow> i < 2 ^ 64"
  unfolding env_ok_def by blast

text \<open>A local the environment is known to have.\<close>

definition has_local :: "cctx \<Rightarrow> fenv \<Rightarrow> nat \<Rightarrow> vclass \<Rightarrow> bool" where
  "has_local cx ft i c \<longleftrightarrow> (\<forall>E. env_ok cx ft E \<longrightarrow> we_locals E i = Some c)"

lemma ex_locals [ex_intros]:
  assumes "has_local cx ft i c"
  shows "ex_spec cx ft A d (op_u OP_LOCAL_GET i) st (c # st)"
    and "ex_spec cx ft A d (op_u OP_LOCAL_SET i) (c # st) st"
    and "ex_spec cx ft A d (op_u OP_LOCAL_TEE i) (c # st) (c # st)"
  using assms env_local
  by (auto intro!: ex_op_u v_local_get v_local_set v_local_tee simp: has_local_def)

lemma frame_locals [ex_intros]:
  "has_local cx ft (cx_loc_fp cx) VC_I32" "has_local cx ft (loc_t32b cx) VC_I32"
  by (auto simp: has_local_def env_ok_def loc_t32b_def)

lemma ex_scratch [ex_intros]:
  assumes "vc \<noteq> VC_NONE"
  shows "ex_spec cx ft A d (op_scratch cx OP_LOCAL_GET vc) st (vc # st)"
    and "ex_spec cx ft A d (op_scratch cx OP_LOCAL_SET vc) (vc # st) st"
    and "ex_spec cx ft A d (op_scratch cx OP_LOCAL_TEE vc) (vc # st) (vc # st)"
proof -
  obtain i where i: "scratch_local cx vc = Some i" "has_local cx ft i vc"
    using assms by (cases vc) (auto simp: has_local_def env_ok_def)
  then show "ex_spec cx ft A d (op_scratch cx OP_LOCAL_GET vc) st (vc # st)"
    "ex_spec cx ft A d (op_scratch cx OP_LOCAL_SET vc) (vc # st) st"
    "ex_spec cx ft A d (op_scratch cx OP_LOCAL_TEE vc) (vc # st) (vc # st)"
    by (simp_all add: op_scratch_def ex_locals)
qed

lemma ex_globals [ex_intros]:
  "ex_spec cx ft A d (op_u OP_GLOBAL_GET 0) st (VC_I32 # st)"
  "ex_spec cx ft A d (op_u OP_GLOBAL_SET 0) (VC_I32 # st) st"
  using v_global_get v_global_set by (auto intro!: ex_op_u)

lemma ex_memarg_load:
  "load_op c = Some (t, a) \<Longrightarrow> b \<le> a \<Longrightarrow> b < 2 ^ 64 \<Longrightarrow>
   ex_spec cx ft A d (memarg c b) (VC_I32 # st) (t # st)"
  unfolding memarg_def
  by (rule ex_put [where bs = "word_of_int c # uleb_bytes b @ uleb_bytes 0"])
    (simp_all add: buf_uleb_data v_load)

lemma ex_memarg_store:
  "store_op c = Some (t, a) \<Longrightarrow> b \<le> a \<Longrightarrow> b < 2 ^ 64 \<Longrightarrow>
   ex_spec cx ft A d (memarg c b) (t # VC_I32 # st) st"
  unfolding memarg_def
  by (rule ex_put [where bs = "word_of_int c # uleb_bytes b @ uleb_bytes 0"])
    (simp_all add: buf_uleb_data v_store)

lemma ex_memargs [ex_intros]:
  "ex_spec cx ft A d (memarg OP_I32_LOAD 2) (VC_I32 # st) (VC_I32 # st)"
  "ex_spec cx ft A d (memarg OP_I64_LOAD 3) (VC_I32 # st) (VC_I64 # st)"
  "ex_spec cx ft A d (memarg OP_F32_LOAD 2) (VC_I32 # st) (VC_F32 # st)"
  "ex_spec cx ft A d (memarg OP_F64_LOAD 3) (VC_I32 # st) (VC_F64 # st)"
  "ex_spec cx ft A d (memarg OP_I32_LOAD8_S 0) (VC_I32 # st) (VC_I32 # st)"
  "ex_spec cx ft A d (memarg OP_I32_LOAD8_U 0) (VC_I32 # st) (VC_I32 # st)"
  "ex_spec cx ft A d (memarg OP_I32_LOAD16_S 1) (VC_I32 # st) (VC_I32 # st)"
  "ex_spec cx ft A d (memarg OP_I32_LOAD16_U 1) (VC_I32 # st) (VC_I32 # st)"
  "ex_spec cx ft A d (memarg OP_I32_STORE 2) (VC_I32 # VC_I32 # st) st"
  "ex_spec cx ft A d (memarg OP_I64_STORE 3) (VC_I64 # VC_I32 # st) st"
  "ex_spec cx ft A d (memarg OP_F32_STORE 2) (VC_F32 # VC_I32 # st) st"
  "ex_spec cx ft A d (memarg OP_F64_STORE 3) (VC_F64 # VC_I32 # st) st"
  "ex_spec cx ft A d (memarg OP_I32_STORE8 0) (VC_I32 # VC_I32 # st) st"
  "ex_spec cx ft A d (memarg OP_I32_STORE16 1) (VC_I32 # VC_I32 # st) st"
  by (rule ex_memarg_load ex_memarg_store, simp add: load_op_def store_op_def, simp, simp)+

lemma emit_append: "emit (xs @ ys) s = res_bind (emit xs s) (emit ys)"
  by (induction xs arbitrary: s) (auto simp: res_bind_assoc intro!: arg_cong [of _ _ "res_bind _"])

lemma ex_memory_copy [ex_intros]:
  "ex_spec cx ft A d memory_copy (VC_I32 # VC_I32 # VC_I32 # st) st"
proof -
  have e: "memory_copy = put (\<lambda>b. buf_u8 (buf_u8 (buf_uleb (buf_u8 b 0xFC) 10) 0) 0)"
    by (rule ext) (simp add: memory_copy_def op_eq put_def)
  show ?thesis
    unfolding e by (rule ex_put [where bs = "0xFC # uleb_bytes 10 @ [0, 0]"])
      (simp_all add: buf_uleb_data v_memory_copy)
qed

lemma ex_memory_fill [ex_intros]:
  "ex_spec cx ft A d memory_fill (VC_I32 # VC_I32 # VC_I32 # st) st"
proof -
  have e: "memory_fill = put (\<lambda>b. buf_u8 (buf_uleb (buf_u8 b 0xFC) 11) 0)"
    by (rule ext) (simp add: memory_fill_def op_eq put_def)
  show ?thesis
    unfolding e by (rule ex_put [where bs = "0xFC # uleb_bytes 11 @ [0]"])
      (simp_all add: buf_uleb_data v_memory_fill)
qed

lemma ex_memory_size_grow:
  assumes "ex_spec cx ft A d (emit gs) (VC_I32 # st) outs"
  shows "ex_spec cx ft A d (emit (op OP_MEMORY_SIZE # byte 0 # gs)) st outs"
    and "ex_spec cx ft A d (emit (op OP_MEMORY_GROW # byte 0 # gs)) (VC_I32 # st) outs"
proof -
  have e: "emit (op c # byte 0 # gs) = emit (put (\<lambda>b. buf_u8 (buf_u8 b c) 0) # gs)" for c
    by (rule ext) (simp add: op_eq byte_def put_def)
  show "ex_spec cx ft A d (emit (op OP_MEMORY_SIZE # byte 0 # gs)) st outs"
    unfolding e by (rule ex_Cons [OF _ assms], rule ex_put [where bs = "[0x3F, 0]"])
      (simp_all add: v_memory_size)
  show "ex_spec cx ft A d (emit (op OP_MEMORY_GROW # byte 0 # gs)) (VC_I32 # st) outs"
    unfolding e by (rule ex_Cons [OF _ assms], rule ex_put [where bs = "[0x40, 0]"])
      (simp_all add: v_memory_grow)
qed

section \<open>The emitters\<close>

lemma ex_if [ex_intros]:
  "(c \<Longrightarrow> ex_spec cx ft A d g i j) \<Longrightarrow> (\<not> c \<Longrightarrow> ex_spec cx ft A d h i j) \<Longrightarrow>
   ex_spec cx ft A d (if c then g else h) i j"
  by simp

lemma ex_add_offset [ex_intros]: "ex_spec cx ft A d (add_offset off) (VC_I32 # st) (VC_I32 # st)"
  unfolding add_offset_def
  by (rule ex_intros ex_Cons)+

lemma ex_fp_plus [ex_intros]: "ex_spec cx ft A d (fp_plus cx off) st (VC_I32 # st)"
  unfolding fp_plus_def add_offset_def [symmetric] by (rule ex_intros ex_Cons)+

text \<open>Types of objects in memory.\<close>

definition mem_ty :: "ctype \<Rightarrow> bool" where
  "mem_ty t \<longleftrightarrow> is_flonum t \<or> ty_kind t = TY_PTR \<and> ty_size t = 4
     \<or> is_integer t \<and> ty_size t \<in> {1, 2, 4, 8}"

definition load_ok :: "ctype \<Rightarrow> bool" where
  "load_ok t \<longleftrightarrow> mem_ty t \<or> ty_kind t \<in> {TY_ARRAY, TY_STRUCT, TY_UNION, TY_FUNC, TY_VLA}"

lemma ex_load [ex_intros]:
  assumes "load_ok t"
  shows "ex_spec cx ft A d (load t) (VC_I32 # st) (vclass (Some t) # st)"
  using assms
  by (cases "ty_kind t")
    (auto simp: load_def load_ok_def mem_ty_def vclass_def is_flonum_def is_integer_def intro!: ex_intros
      simp del: One_nat_def)

lemma ex_store [ex_intros]:
  assumes "mem_ty t"
  shows "ex_spec cx ft A d (store t) (vclass (Some t) # VC_I32 # st) st"
  using assms
  by (cases "ty_kind t")
    (auto simp: store_def mem_ty_def vclass_def is_flonum_def is_integer_def intro!: ex_intros
      simp del: One_nat_def)

lemma ex_to_bool [ex_intros]:
  "vc \<noteq> VC_NONE \<Longrightarrow> ex_spec cx ft A d (to_bool vc) (vc # st) (VC_I32 # st)"
  by (cases vc) (simp_all, (rule ex_intros ex_Cons | simp)+)

lemma ex_convert [ex_intros]:
  assumes "from \<noteq> VC_NONE" "to \<noteq> VC_NONE"
  shows "ex_spec cx ft A d (convert from to u) (from # st) (to # st)"
  using assms
  by (cases "from"; cases to)
    (simp_all add: convert_def ex_intros)

lemma ex_narrow [ex_intros]: "ex_spec cx ft A d (narrow to) (VC_I32 # st) (VC_I32 # st)"
  unfolding narrow_def by (rule ex_intros ex_Cons)+

definition cast_ok :: "ctype \<Rightarrow> ctype \<Rightarrow> bool" where
  "cast_ok t to \<longleftrightarrow> ty_kind to = TY_VOID
     \<or> vclass (Some t) \<noteq> VC_NONE \<and> vclass (Some to) \<noteq> VC_NONE \<and> (ty_kind to = TY_BOOL \<longrightarrow> ty_size to = 1)"

lemma ex_cast [ex_intros]:
  assumes "cast_ok t to"
  shows "ex_spec cx ft A d (cast t to) (of_class (vclass (Some t)) @ st) (of_class (vclass (Some to)) @ st)"
proof (cases "ty_kind to = TY_VOID")
  case True
  then have "vclass (Some to) = VC_NONE" by (simp add: vclass_def)
  with True show ?thesis by (auto simp: cast_def of_class_def Let_def intro!: ex_intros)
next
  case False
  with assms have c: "vclass (Some t) \<noteq> VC_NONE" "vclass (Some to) \<noteq> VC_NONE" by (simp_all add: cast_ok_def)
  show ?thesis
  proof (cases "ty_kind to = TY_BOOL")
    case True
    moreover from True have "vclass (Some to) = VC_I32"
      using assms False by (simp add: vclass_def cast_ok_def)
    ultimately show ?thesis using c by (simp add: cast_def of_class_def ex_to_bool Let_def)
  next
    case bool: False
    have "ex_spec cx ft A d (emit [convert (vclass (Some t)) (vclass (Some to)) u, if v then narrow to else Val])
        (vclass (Some t) # st) (vclass (Some to) # st)" if "v \<longrightarrow> vclass (Some to) = VC_I32" for u v
    proof (rule ex_Cons [OF ex_convert [OF c] ex_Cons [OF _ ex_Nil]], cases v)
      case True
      with that have "vclass (Some to) = VC_I32" by simp
      with True show "ex_spec cx ft A d (if v then narrow to else Val) (vclass (Some to) # st) (vclass (Some to) # st)"
        by (simp add: ex_narrow)
    qed (simp add: ex_Val)
    then show ?thesis
      using False bool c by (simp add: cast_def of_class_def Let_def)
  qed
qed

section \<open>Conditionals\<close>

text \<open>An \<^verbatim>\<open>if\<close> with two arms of the same type; each arm starts without operands.\<close>

lemma hoare_if_blk:
  assumes "word_of_int bt = blocktype rs" "block_results rs" "A \<or> length ctl < 512"
  shows "hoare cx ft A (at_frame ctl k l r (VC_I32 # st) fs) (if_blk bt)
    (\<lambda>s c. \<exists>i. at_frame ((None, i) # ctl) K_IF rs rs [] (Frame k l r st # fs) s c)"
proof (rule hoareI)
  fix s c assume P: "at_frame ctl k l r (VC_I32 # st) fs s c"
  let ?s = "s\<lparr>cg_code := buf_u8 (buf_u8 (cg_code s) OP_IF) bt\<rparr>"
  have e: "if_blk bt s = push_ctl None ?s"
    by (simp add: if_blk_def op_eq byte_def put_def)
  show "(\<exists>s' bs c'. if_blk bt s = Val s' \<and> code_of s' = code_of s @ bs
      \<and> types_ext (cg_types s) (cg_types s') \<and> ctl_id_counter s \<le> ctl_id_counter s'
      \<and> (\<forall>E. env_ok cx ft E \<longrightarrow> prefix (cg_types s') (we_types E) \<longrightarrow> vruns E bs c c')
      \<and> (\<exists>i. at_frame ((None, i) # ctl) K_IF rs rs [] (Frame k l r st # fs) s' c'))
     \<or> A \<and> (\<exists>e. if_blk bt s = Stop e)"
  proof (cases "length ctl = 512")
    case True
    then show ?thesis using P assms(3) e by (auto simp: push_ctl_def at_frame_def)
  next
    case False
    have "vinstr E [0x04, word_of_int bt] c (Frame K_IF rs rs [] # Frame k l r st # fs)" for E
      using P assms(1,2) v_if by (simp add: at_frame_def)
    then have "vruns E [0x04, word_of_int bt] c (Frame K_IF rs rs [] # Frame k l r st # fs)" for E
      by (rule vruns_single)
    moreover have "if_blk bt s = Val (?s\<lparr>cg_ctl := (None, ctl_id_counter s) # ctl,
        ctl_id_counter := ctl_id_counter s + 1\<rparr>)"
      using P False by (simp add: e push_ctl_def at_frame_def)
    ultimately show ?thesis
      by (intro disjI1 exI conjI) (auto simp: code_of_def at_frame_def)
  qed
qed

lemma hoare_else:
  "hoare cx ft A (\<lambda>s c. \<exists>i. at_frame ((None, i) # ctl) K_IF rs rs rs fs s c) (op OP_ELSE)
    (\<lambda>s c. \<exists>i. at_frame ((None, i) # ctl) K_ELSE rs rs [] fs s c)"
  unfolding op_eq
  by (rule hoare_put [where bs = "[0x05]" and T = "\<lambda>_. Frame K_ELSE rs rs [] # fs"])
    (auto simp: at_frame_def intro: vruns_single v_else)

lemma hoare_end:
  assumes "kk = K_IF \<longrightarrow> rs = []" "kk \<noteq> K_FUNC"
  shows "hoare cx ft A (\<lambda>s c. \<exists>x. at_frame (x # ctl) kk l rs rs (Frame k l' r st # fs) s c) end_blk
    (at_frame ctl k l' r (rs @ st) fs)"
proof (rule hoareI, rule disjI1)
  fix s c assume "\<exists>x. at_frame (x # ctl) kk l rs rs (Frame k l' r st # fs) s c"
  then obtain x where P: "at_frame (x # ctl) kk l rs rs (Frame k l' r st # fs) s c" ..
  have "vruns E [0x0B] c (Frame k l' r (rs @ st) # fs)" for E
    using P v_end [OF assms] by (auto simp: at_frame_def intro: vruns_single)
  moreover have "end_blk s = Val (s\<lparr>cg_code := buf_u8 (cg_code s) OP_END, cg_ctl := ctl\<rparr>)"
    using P by (simp add: end_blk_def op_eq put_def pop_ctl_def at_frame_def)
  ultimately show "\<exists>s' bs c'. end_blk s = Val s' \<and> code_of s' = code_of s @ bs
      \<and> types_ext (cg_types s) (cg_types s') \<and> ctl_id_counter s \<le> ctl_id_counter s'
      \<and> (\<forall>E. env_ok cx ft E \<longrightarrow> prefix (cg_types s') (we_types E) \<longrightarrow> vruns E bs c c')
      \<and> at_frame ctl k l' r (rs @ st) fs s' c'"
    by (intro exI conjI) (auto simp: code_of_def at_frame_def)
qed

lemma hoare_ex:
  "(\<And>i. hoare cx ft A (P i) g (Q i)) \<Longrightarrow> hoare cx ft A (\<lambda>s c. \<exists>i. P i s c) g (\<lambda>s c. \<exists>i. Q i s c)"
  unfolding hoare_def by (fastforce split: res.splits)

lemma ex_if_else:
  assumes bt: "word_of_int bt = blocktype rs" "block_results rs"
    and a: "ex_spec cx ft A d a [] rs" and b: "ex_spec cx ft A d b [] rs"
  shows "ex_spec cx ft A (d + 1) (emit [if_blk bt, a, op OP_ELSE, b, end_blk]) (VC_I32 # st) (rs @ st)"
proof (rule ex_specI)
  fix ctl :: "(string option \<times> nat) list" and k l r fs
  assume depth: "A \<or> length ctl + (d + 1) \<le> 512"
  then have d1: "A \<or> length ((None, i) # ctl) + d \<le> 512" and d2: "A \<or> length ctl < 512" for i :: nat
    by auto
  have fin: "hoare cx ft A (\<lambda>s c. \<exists>i. at_frame ((None, i) # ctl) K_ELSE rs rs rs (Frame k l r st # fs) s c)
      (emit [end_blk]) (at_frame ctl k l r (rs @ st) fs)"
    by (rule hoare_weaken [OF hoare_emit_Cons [OF hoare_end hoare_emit_Nil]]) auto
  show "hoare cx ft A (at_frame ctl k l r (VC_I32 # st) fs) (emit [if_blk bt, a, op OP_ELSE, b, end_blk])
      (at_frame ctl k l r (rs @ st) fs)"
    by (rule fin hoare_emit_Cons [OF hoare_if_blk [OF bt d2]]
        hoare_emit_Cons [OF hoare_ex [OF ex_specD [OF a d1]]]
        hoare_emit_Cons [OF hoare_else] hoare_emit_Cons [OF hoare_ex [OF ex_specD [OF b d1]]])+
qed

section \<open>Typed expressions\<close>

text \<open>
  What the backend relies on: \<open>typed cx ft n\<close> for an expression, \<open>typed_addr\<close> for one whose address is
  taken. The signature of a function that is called directly must be that of its number.
\<close>

definition has_value :: "node \<Rightarrow> bool" where
  "has_value n \<longleftrightarrow> vclass (node_ty n) \<noteq> VC_NONE"

definition int64 :: "int \<Rightarrow> bool" where
  "int64 v \<longleftrightarrow> - (2 ^ 63) \<le> v \<and> v < 2 ^ 63"

definition ty_load_ok :: "ctype option \<Rightarrow> bool" where
  "ty_load_ok ty \<longleftrightarrow> (case ty of None \<Rightarrow> False | Some t \<Rightarrow> load_ok t)"

definition var_ok :: "cctx \<Rightarrow> var \<Rightarrow> bool" where
  "var_ok cx v \<longleftrightarrow> (case v of
     Local i \<Rightarrow> ty_kind (l_ty (cx_local cx i)) \<noteq> TY_VLA
   | Global i \<Rightarrow> ty_kind (o_ty (cx_obj cx i)) \<noteq> TY_VLA \<and> \<not> is_tls (cx_obj cx i)
       \<and> (case global_addr cx (cx_obj cx i) of Val a \<Rightarrow> True | _ \<Rightarrow> False))"

definition binary_ok :: "bin_kind \<Rightarrow> ctype option \<Rightarrow> node \<Rightarrow> node \<Rightarrow> bool" where
  "binary_ok k ty a b \<longleftrightarrow> has_value a \<and> has_value b \<and>
     (let float = (vclass (node_ty a) = VC_F32 \<or> vclass (node_ty a) = VC_F64) in
      if is_comparison k then vclass ty = VC_I32
      else (if float then (vclass ty = VC_F32 \<or> vclass ty = VC_F64) \<and> k \<in> {ND_ADD, ND_SUB, ND_MUL, ND_DIV}
            else vclass ty = VC_I32 \<or> vclass ty = VC_I64))"

text \<open>The arguments of a call against its signature; variadic ones are any values but structures.\<close>

definition args_ok :: "functype \<Rightarrow> node list \<Rightarrow> bool" where
  "args_ok fty args \<longleftrightarrow>
     length (ft_params fty) \<le> length args
   \<and> (\<not> is_variadic fty \<longrightarrow> length args = length (ft_params fty))
   \<and> list_all2 (\<lambda>t a. vclass (node_ty a) = vclass (Some t) \<and> has_value a)
       (ft_params fty) (take (length (ft_params fty)) args)
   \<and> list_all (\<lambda>a. has_value a \<and> \<not> is_struct (the (node_ty a))) (drop (length (ft_params fty)) args)"

definition call_ok :: "cctx \<Rightarrow> fenv \<Rightarrow> ctype option \<Rightarrow> functype \<Rightarrow> node \<Rightarrow> node list \<Rightarrow> nat option \<Rightarrow> bool" where
  "call_ok cx ft ty fty g args ret \<longleftrightarrow> ty = Some (return_ty fty) \<and> args_ok fty args
     \<and> sig_ok fty
     \<and> (ret \<noteq> None \<longleftrightarrow> is_struct (return_ty fty))
     \<and> (case callee_of cx g of
          Some f \<Rightarrow> (case cx_func_index cx (o_name f) of None \<Rightarrow> False
                   | Some i \<Rightarrow> sig_params (fe_type ft i) = sig_params fty \<and> sig_results (fe_type ft i) = sig_results fty)
        | None \<Rightarrow> has_value g)"

text \<open>The two memory builtins and the refused \<^verbatim>\<open>alloca\<close>.\<close>

definition funcall_ok :: "cctx \<Rightarrow> fenv \<Rightarrow> ctype option \<Rightarrow> functype \<Rightarrow> node \<Rightarrow> node list \<Rightarrow> nat option \<Rightarrow> bool" where
  "funcall_ok cx ft ty fty g args ret \<longleftrightarrow>
     (case map_option o_name (callee_of cx g) of
        None \<Rightarrow> call_ok cx ft ty fty g args ret
      | Some name \<Rightarrow>
          if name = str ''__builtin_wasm_memory_size'' then vclass ty \<noteq> VC_NONE \<and> list_all has_value args
          else if name = str ''__builtin_wasm_memory_grow'' then
            vclass ty \<noteq> VC_NONE \<and> 2 \<le> length args \<and> has_value (args ! 0) \<and> has_value (args ! 1)
          else name \<noteq> str ''alloca'' \<and> call_ok cx ft ty fty g args ret)"

primrec typed_both :: "cctx \<Rightarrow> fenv \<Rightarrow> node \<Rightarrow> bool \<times> bool" where
  "typed_both cx ft ND_NULL_EXPR = (True, False)"
| "typed_both cx ft (ND_NUM ty v f) = (vclass ty \<noteq> VC_NONE \<and> int64 v, False)"
| "typed_both cx ft (ND_BINARY k ty a b) =
     (fst (typed_both cx ft a) \<and> fst (typed_both cx ft b) \<and> binary_ok k ty a b, False)"
| "typed_both cx ft (ND_NEG ty a) =
     (fst (typed_both cx ft a) \<and> has_value a \<and> vclass ty \<noteq> VC_NONE
      \<and> (vclass ty \<in> {VC_F32, VC_F64} \<longrightarrow> vclass (node_ty a) = vclass ty), False)"
| "typed_both cx ft (ND_NOT ty a) = (fst (typed_both cx ft a) \<and> has_value a \<and> vclass ty = VC_I32, False)"
| "typed_both cx ft (ND_BITNOT ty a) =
     (fst (typed_both cx ft a) \<and> has_value a \<and> vclass ty \<in> {VC_I32, VC_I64}, False)"
| "typed_both cx ft (ND_ADDR ty a) = (snd (typed_both cx ft a) \<and> vclass ty = VC_I32, False)"
| "typed_both cx ft (ND_DEREF ty a) =
     (let ok = (fst (typed_both cx ft a) \<and> has_value a) in (ok \<and> ty_load_ok ty, ok))"
| "typed_both cx ft (ND_CAST ty a) =
     (fst (typed_both cx ft a) \<and> (case (node_ty a, ty) of (Some t, Some to) \<Rightarrow> cast_ok t to | _ \<Rightarrow> False), False)"
| "typed_both cx ft (ND_LOGAND ty a b) =
     (fst (typed_both cx ft a) \<and> fst (typed_both cx ft b) \<and> has_value a \<and> has_value b \<and> vclass ty = VC_I32, False)"
| "typed_both cx ft (ND_LOGOR ty a b) =
     (fst (typed_both cx ft a) \<and> fst (typed_both cx ft b) \<and> has_value a \<and> has_value b \<and> vclass ty = VC_I32, False)"
| "typed_both cx ft (ND_COMMA ty a b) =
     (fst (typed_both cx ft a) \<and> fst (typed_both cx ft b) \<and> vclass ty = vclass (node_ty b),
      fst (typed_both cx ft a) \<and> snd (typed_both cx ft b))"
| "typed_both cx ft (ND_ASSIGN ty a b) =
     (let ok = (snd (typed_both cx ft a) \<and> fst (typed_both cx ft b) \<and> \<not> is_bitfield_member a
          \<and> (case ty of None \<Rightarrow> False | Some t \<Rightarrow>
               if is_struct t then vclass (node_ty b) = VC_I32 else has_value b \<and> mem_ty t))
      in (ok, ok \<and> is_struct (the ty)))"
| "typed_both cx ft (ND_COND ty c a b) =
     (let ok = (fst (typed_both cx ft c) \<and> fst (typed_both cx ft a) \<and> fst (typed_both cx ft b) \<and> has_value c
          \<and> node_ty a \<noteq> None \<and> node_ty b \<noteq> None
          \<and> (vclass ty = VC_NONE \<longleftrightarrow> \<not> has_value a) \<and> (vclass ty = VC_NONE \<longleftrightarrow> \<not> has_value b))
      in (ok, ok \<and> ty \<noteq> None \<and> is_struct (the ty)))"
| "typed_both cx ft (ND_MEMBER ty a m) =
     (snd (typed_both cx ft a) \<and> \<not> is_bitfield m \<and> ty_load_ok ty, snd (typed_both cx ft a))"
| "typed_both cx ft (ND_VAR ty v) = (var_ok cx v \<and> ty_load_ok ty, var_ok cx v)"
| "typed_both cx ft (ND_MEMZERO i) = (True, False)"
| "typed_both cx ft (ND_FUNCALL ty f g args r) =
     (let ok = (list_all fst (map (typed_both cx ft) args) \<and> (callee_of cx g = None \<longrightarrow> fst (typed_both cx ft g))
                \<and> funcall_ok cx ft ty f g args r)
      in (ok, ok \<and> r \<noteq> None \<and> vclass ty = VC_I32))"
| "typed_both cx ft (ND_STMT_EXPR ty body) = (False, False)"
| "typed_both cx ft (ND_LABEL_VAL ty) = (False, False)"
| "typed_both cx ft (ND_CAS ty a b c) = (False, False)"
| "typed_both cx ft (ND_EXCH ty a b) = (False, False)"
| "typed_both cx ft (ND_VLA_PTR ty v) = (False, False)"
| "typed_both cx ft (ND_EXPR_STMT a) = (False, False)"
| "typed_both cx ft (ND_BLOCK body) = (False, False)"
| "typed_both cx ft (ND_IF c a b) = (False, False)"
| "typed_both cx ft (ND_FOR i c n a brk cont) = (False, False)"
| "typed_both cx ft (ND_DO a c brk cont) = (False, False)"
| "typed_both cx ft (ND_SWITCH c a cs d brk) = (False, False)"
| "typed_both cx ft (ND_CASE l a) = (False, False)"
| "typed_both cx ft (ND_GOTO l) = (False, False)"
| "typed_both cx ft (ND_LABEL l a) = (False, False)"
| "typed_both cx ft (ND_RETURN a) = (False, False)"
| "typed_both cx ft (ND_OTHER_STMT k) = (False, False)"

definition typed :: "cctx \<Rightarrow> fenv \<Rightarrow> node \<Rightarrow> bool" where
  "typed cx ft n = fst (typed_both cx ft n)"

definition typed_addr :: "cctx \<Rightarrow> fenv \<Rightarrow> node \<Rightarrow> bool" where
  "typed_addr cx ft n = snd (typed_both cx ft n)"

text \<open>How deep an expression nests conditional blocks.\<close>

primrec nest :: "node \<Rightarrow> nat" where
  "nest ND_NULL_EXPR = 0"
| "nest (ND_NUM ty v f) = 0"
| "nest (ND_BINARY k ty a b) = max (nest a) (nest b)"
| "nest (ND_NEG ty a) = nest a"
| "nest (ND_NOT ty a) = nest a"
| "nest (ND_BITNOT ty a) = nest a"
| "nest (ND_ADDR ty a) = nest a"
| "nest (ND_DEREF ty a) = nest a"
| "nest (ND_CAST ty a) = nest a"
| "nest (ND_LOGAND ty a b) = max (nest a) (nest b + 1)"
| "nest (ND_LOGOR ty a b) = max (nest a) (nest b + 1)"
| "nest (ND_COMMA ty a b) = max (nest a) (nest b)"
| "nest (ND_ASSIGN ty a b) = max (nest a) (nest b)"
| "nest (ND_COND ty c a b) = max (nest c) (max (nest a) (nest b) + 1)"
| "nest (ND_MEMBER ty a m) = nest a"
| "nest (ND_VAR ty v) = 0"
| "nest (ND_MEMZERO i) = 0"
| "nest (ND_FUNCALL ty f g args r) = max (nest g) (fold max (map nest args) 0)"
| "nest (ND_STMT_EXPR ty body) = 0"
| "nest (ND_LABEL_VAL ty) = 0"
| "nest (ND_CAS ty a b c) = 0"
| "nest (ND_EXCH ty a b) = 0"
| "nest (ND_VLA_PTR ty v) = 0"
| "nest (ND_EXPR_STMT a) = 0"
| "nest (ND_BLOCK body) = 0"
| "nest (ND_IF c a b) = 0"
| "nest (ND_FOR i c n a brk cont) = 0"
| "nest (ND_DO a c brk cont) = 0"
| "nest (ND_SWITCH c a cs d brk) = 0"
| "nest (ND_CASE l a) = 0"
| "nest (ND_GOTO l) = 0"
| "nest (ND_LABEL l a) = 0"
| "nest (ND_RETURN a) = 0"
| "nest (ND_OTHER_STMT k) = 0"

section \<open>Parts of expressions\<close>

lemma of_class_simps [simp]:
  "of_class VC_NONE = []" "c \<noteq> VC_NONE \<Longrightarrow> of_class c = [c]"
  by (simp_all add: of_class_def)

lemma has_value_ty: "has_value n \<Longrightarrow> \<exists>t. node_ty n = Some t \<and> vclass (Some t) \<noteq> VC_NONE"
  by (cases "node_ty n") (auto simp: has_value_def)

lemma ex_gen_as:
  assumes "ex_spec cx ft A d g st (vclass (node_ty n) # st)" "has_value n" "vc \<noteq> VC_NONE"
  shows "ex_spec cx ft A d (gen_as n g vc) st (vc # st)"
proof -
  from assms(2) obtain t where t: "node_ty n = Some t" "vclass (Some t) \<noteq> VC_NONE"
    using has_value_ty by blast
  then have "ex_spec cx ft A d (on_ty n (\<lambda>t. convert (vclass (Some t)) vc (is_unsigned t \<or> ty_kind t = TY_PTR)))
      (vclass (node_ty n) # st) (vc # st)"
    using ex_convert [OF t(2) assms(3)] by (simp add: on_ty_def)
  then show ?thesis unfolding gen_as_def by (intro ex_Cons [OF assms(1)] ex_Cons [OF _ ex_Nil])
qed

lemma ex_cond_of:
  assumes "ex_spec cx ft A d g st (vclass (node_ty n) # st)" "has_value n"
  shows "ex_spec cx ft A d (cond_of n g) st (VC_I32 # st)"
  unfolding cond_of_def
  by (rule ex_Cons [OF assms(1)], rule ex_Cons [OF ex_to_bool ex_Nil])
    (use assms(2) in \<open>simp add: has_value_def\<close>)

lemma ex_drop_value:
  "ex_spec cx ft A d (drop_value n) (of_class (vclass (node_ty n)) @ st) st"
  by (auto simp: drop_value_def intro: ex_drop ex_Val)

lemma ex_float_op:
  assumes "is_comparison k \<or> k \<in> {ND_ADD, ND_SUB, ND_MUL, ND_DIV}" and "vc = VC_F32 \<or> vc = VC_F64"
  shows "ex_spec cx ft A d (float_op k (vc = VC_F64)) (vc # vc # st)
    ((if is_comparison k then VC_I32 else vc) # st)"
  using assms by (cases k) (auto simp: is_comparison_def ex_intros)

lemma ex_int_op:
  assumes "vc = VC_I32 \<or> vc = VC_I64"
  shows "ex_spec cx ft A d (op (int_op k (vc = VC_I64) u)) (vc # vc # st)
    ((if is_comparison k then VC_I32 else vc) # st)"
  using assms by (cases k; cases u) (auto simp: is_comparison_def ex_intros)

lemma ex_gen_binary:
  assumes a: "\<And>st. ex_spec cx ft A d ga st (vclass (node_ty a) # st)"
    and b: "\<And>st. ex_spec cx ft A d gb st (vclass (node_ty b) # st)"
    and ok: "binary_ok k ty a b"
  shows "ex_spec cx ft A d (gen_binary k ty a ga b gb) st (vclass ty # st)"
proof -
  from ok have va: "has_value a" and vb: "has_value b" by (simp_all add: binary_ok_def)
  from va obtain t where t: "node_ty a = Some t" "vclass (Some t) \<noteq> VC_NONE" using has_value_ty by blast
  let ?vc = "if is_comparison k then vclass (Some t) else vclass ty"
  have res: "vclass ty = (if is_comparison k then VC_I32 else ?vc)" and vc: "?vc \<noteq> VC_NONE"
    using ok t by (auto simp: binary_ok_def Let_def split: if_splits)
  have fin: "ex_spec cx ft A d (if is_flonum t then float_op k (?vc = VC_F64) else op (int_op k (?vc = VC_I64) u))
      (?vc # ?vc # st) (vclass ty # st)" for u
  proof (cases "is_flonum t")
    case True
    then show ?thesis
      using ok t ex_float_op [of k ?vc cx ft A d st] res
      by (auto simp: binary_ok_def Let_def vclass_float split: if_splits)
  next
    case False
    then have "?vc = VC_I32 \<or> ?vc = VC_I64"
      using ok t by (cases "vclass (Some t)") (auto simp: binary_ok_def Let_def vclass_float split: if_splits)
    then show ?thesis using ex_int_op [of ?vc cx ft A d k u st] res False by auto
  qed
  show ?thesis
    unfolding gen_binary_def on_ty_def t(1) option.case Let_def
    by (rule ex_Cons [OF ex_gen_as [OF a va vc]], rule ex_Cons [OF ex_gen_as [OF b vb vc]],
      rule ex_Cons [OF fin ex_Nil])
qed

lemma ex_gen_num:
  "vclass ty \<noteq> VC_NONE \<Longrightarrow> int64 v \<Longrightarrow> ex_spec cx ft A d (gen_num ty v f) st (vclass ty # st)"
  by (cases "vclass ty") (auto simp: gen_num_def int64_def ex_intros)

lemma ex_gen_neg:
  assumes a: "\<And>st. ex_spec cx ft A d ga st (vclass (node_ty a) # st)"
    and "has_value a" "vclass ty \<noteq> VC_NONE"
    and "vclass ty \<in> {VC_F32, VC_F64} \<longrightarrow> vclass (node_ty a) = vclass ty"
  shows "ex_spec cx ft A d (gen_neg ty a ga) st (vclass ty # st)"
  using assms(2-) a [of st]
  by (cases "vclass ty")
    (auto simp: gen_neg_def intro!: ex_Cons [OF _ ex_Cons [OF _ ex_Nil]]
      ex_Cons [OF _ ex_Cons [OF ex_gen_as [OF a] ex_Cons [OF _ ex_Nil]]] ex_intros)

lemma ex_gen_assign:
  assumes a: "\<And>st. ex_spec cx ft A d addr st (VC_I32 # st)"
    and b: "\<And>st. ex_spec cx ft A d gb st (of_class (vclass (node_ty b)) @ st)"
    and ok: "if is_struct t then vclass (node_ty b) = VC_I32 else has_value b \<and> mem_ty t"
  shows "ex_spec cx ft A d (gen_assign cx (Some t) addr b gb) st (vclass (Some t) # st)"
proof (cases "is_struct t")
  case True
  then have c: "vclass (Some t) = VC_I32" and b': "ex_spec cx ft A d gb st (VC_I32 # st)" for st
    using ok b [of st] by (simp_all add: vclass_struct)
  show ?thesis
    using True
    by (simp add: gen_assign_def c) (rule a b' ex_intros ex_Cons)+
next
  case False
  then have m: "mem_ty t" and vb: "has_value b" using ok by auto
  then have c: "vclass (Some t) \<noteq> VC_NONE"
    by (cases "ty_kind t") (auto simp: mem_ty_def vclass_def is_flonum_def is_integer_def)
  have b': "ex_spec cx ft A d gb st (vclass (node_ty b) # st)" for st
    using b [of st] vb by (simp add: has_value_def)
  show ?thesis
    using False m
    by (simp add: gen_assign_def Let_def)
      (rule ex_Cons [OF a], rule ex_Cons [OF ex_gen_as [OF b' vb c]],
        rule ex_Cons [OF ex_scratch(3) [OF c]], rule ex_Cons [OF ex_store [OF m]],
        rule ex_Cons [OF ex_scratch(1) [OF c] ex_Nil])
qed

lemma blocktype_class:
  "word_of_int (if vc = VC_NONE then 0x40 else valtype vc) = blocktype (of_class vc)" "block_results (of_class vc)"
  by (cases vc; simp add: blocktype_def block_results_def)+

end
