(* ===== verification/Codegen_Valid.thy ===== *)
theory Codegen_Valid
  imports Codegen_Typing
begin

text \<open>
  Calls, and with them whole expressions: a well-typed expression compiles to valid code.
\<close>

section \<open>Calls\<close>

lemma fold_valtypes:
  "buf_data (fold (\<lambda>t p. buf_u8 p (valtype (vclass (Some t)))) ts b)
   = buf_data b @ map (\<lambda>t. word_of_int (valtype (vclass (Some t)))) ts"
  by (induction ts arbitrary: b) simp_all

lemma sig_entry_data:
  assumes "length (ft_params fty) < 2 ^ 32"
  shows "buf_data (sig_entry fty) = sig_bytes (sig_params fty) (sig_results fty)"
proof -
  have n: "unat (of_nat n :: u64) = n" if "n \<le> length (ft_params fty) + 2" for n
    using that assms by (simp add: unat_of_nat)
  have n1: "unat (1 + of_nat (length (ft_params fty)) :: u64) = Suc (length (ft_params fty))"
    and n2: "unat (2 + of_nat (length (ft_params fty)) :: u64) = Suc (Suc (length (ft_params fty)))"
    using n [of "Suc (length (ft_params fty))"] n [of "Suc (Suc (length (ft_params fty)))"]
    by (simp_all add: add.commute)
  have n3: "unat (of_nat (length (ft_params fty)) + 1 :: u64) = Suc (length (ft_params fty))"
    using n1 by (simp add: add.commute)
  show ?thesis
    by (cases "result_class fty")
      (simp_all add: sig_entry_def Let_def fold_valtypes buf_buf_def buf_uleb_data sig_bytes_def
        sig_params_def sig_results_def empty_buf_def comp_def n n1 n2 n3)
qed

lemma entry_index_Some:
  "entry_index i ts e = Some j \<Longrightarrow> i \<le> j \<and> j < i + length ts \<and> ts ! (j - i) = e"
  by (induction i ts e rule: entry_index.induct) (fastforce split: if_splits simp: nth_Cons')+

lemma sig_index_types:
  assumes "sig_index fty ts = (i, ts')"
  shows "i < length ts'" "ts' ! i = buf_data (sig_entry fty)" "prefix ts ts'"
  using assms entry_index_Some [of 0 ts "buf_data (sig_entry fty)"]
  by (auto simp: sig_index_def add_type_entry_def split: option.splits)

lemma sig_index_ext:
  assumes "sig_ok fty" "sig_index fty ts = (i, ts')"
  shows "types_ext ts ts'"
proof -
  have e: "buf_data (sig_entry fty) = sig_bytes (sig_params fty) (sig_results fty)"
    by (rule sig_entry_data) (use assms(1) in \<open>simp add: sig_ok_def\<close>)
  show ?thesis
    using assms sig_index_types(3) [OF assms(2)]
    by (auto simp: types_ext_def sig_index_def add_type_entry_def sigs_ok_def e split: option.splits)
qed

lemma ex_call_indirect:
  assumes "sig_ok fty"
  shows "ex_spec cx ft A d (call_indirect fty) (VC_I32 # rev (sig_params fty) @ st) (sig_results fty @ st)"
proof (rule ex_specI, rule hoareI, rule disjI1)
  fix ctl k l r fs s c
  assume P: "at_frame ctl k l r (VC_I32 # rev (sig_params fty) @ st) fs s c"
  obtain i ts where sig: "sig_index fty (cg_types s) = (i, ts)" by fastforce
  note t = sig_index_types [OF sig]
  let ?b = "buf_u8 (buf_uleb (buf_u8 (cg_code s) OP_CALL_INDIRECT) (of_nat i)) 0"
  let ?bs = "0x11 # uleb_bytes (unat (of_nat i :: u64)) @ [0]"
  have v: "vruns E ?bs c (Frame k l r (sig_results fty @ st) # fs)"
    if E: "env_ok cx ft E" "prefix ts (we_types E)" for E
  proof -
    from E(2) t have "i < length (we_types E)" "we_types E ! i = sig_bytes (sig_params fty) (sig_results fty)"
      using sig_entry_data [of fty] assms by (auto simp: prefix_def nth_append sig_ok_def)
    moreover have "i < 2 ^ 64" using E(1) calculation(1) unfolding env_ok_def by linarith
    ultimately show ?thesis
      using P v_call_indirect by (auto simp: at_frame_def intro!: vruns_single)
  qed
  show "\<exists>s' bs c'. call_indirect fty s = Val s' \<and> code_of s' = code_of s @ bs
      \<and> types_ext (cg_types s) (cg_types s') \<and> ctl_id_counter s \<le> ctl_id_counter s'
      \<and> (\<forall>E. env_ok cx ft E \<longrightarrow> prefix (cg_types s') (we_types E) \<longrightarrow> vruns E bs c c')
      \<and> at_frame ctl k l r (sig_results fty @ st) fs s' c'"
    using P sig_index_ext [OF assms sig] v
    by (intro exI [of _ "s\<lparr>cg_types := ts, cg_code := ?b\<rparr>"] exI [of _ ?bs]
        exI [of _ "Frame k l r (sig_results fty @ st) # fs"])
      (simp add: call_indirect_def op_eq put_def sig code_of_def buf_uleb_data at_frame_def)
qed

lemma ex_func_idx:
  assumes "cx_func_index cx name = Some i" "sig_params (fe_type ft i) = sig_params fty" "sig_results (fe_type ft i) = sig_results fty"
  shows "ex_spec cx ft A d (func_idx cx name (op_u OP_CALL)) (rev (sig_params fty) @ st) (sig_results fty @ st)"
  unfolding func_idx_def assms(1) option.case
proof (rule ex_op_u)
  fix E k l r fs assume "env_ok cx ft E"
  then have "we_funcs E i = Some (sig_params fty, sig_results fty) \<and> i < 2 ^ 64"
    using assms unfolding env_ok_def by metis
  then show "i < 2 ^ 64 \<and> vinstr E (word_of_int OP_CALL # uleb_bytes i)
      (Frame k l r (rev (sig_params fty) @ st) # fs) (Frame k l r (sig_results fty @ st) # fs)"
    using v_call by auto
qed

text \<open>\<open>args\<close> with their code, each leaving its value.\<close>

definition args_spec :: "cctx \<Rightarrow> fenv \<Rightarrow> bool \<Rightarrow> nat \<Rightarrow> (node \<times> gen) list \<Rightarrow> bool" where
  "args_spec cx ft A d args \<longleftrightarrow> list_all (\<lambda>(a, g). has_value a \<and>
     (\<forall>st. ex_spec cx ft A d g st (vclass (node_ty a) # st))) args"

lemma ex_fixed_args:
  "args_spec cx ft A d args \<Longrightarrow>
   ex_spec cx ft A d (emit (map snd args)) st (rev (map (\<lambda>(a, g). vclass (node_ty a)) args) @ st)"
proof (induction args arbitrary: st)
  case Nil
  then show ?case by (simp add: ex_Val)
next
  case (Cons x args)
  then show ?case
    using Cons.IH [of "(case x of (a, g) \<Rightarrow> vclass (node_ty a)) # st"]
    by (cases x) (auto simp: args_spec_def intro!: ex_Cons simp del: emit.simps)
qed

lemma ex_va_args:
  assumes "args_spec cx ft A d args" "list_all (\<lambda>(a, g). \<not> is_struct (the (node_ty a))) args"
  shows "ex_spec cx ft A d (va_args slot args) st st"
  using assms
proof (induction args arbitrary: slot)
  case Nil
  then show ?case by (simp add: ex_Val)
next
  case (Cons x args)
  obtain a g where x: "x = (a, g)" by (cases x)
  with Cons.prems have v: "has_value a" and g: "\<And>st. ex_spec cx ft A d g st (vclass (node_ty a) # st)"
    and ns: "\<not> is_struct (the (node_ty a))" by (simp_all add: args_spec_def)
  from v obtain t where t: "node_ty a = Some t" "vclass (Some t) \<noteq> VC_NONE" using has_value_ty by blast
  have "ex_spec cx ft A d (va_store (vclass (Some t))) (vclass (Some t) # VC_I32 # st) st"
    using t(2) by (cases "vclass (Some t)") (auto simp: va_store_def ex_intros)
  then have "ex_spec cx ft A d (va_arg slot (a, g)) st st"
    using ns t g
    by (simp add: va_arg_def on_ty_def)
      (rule ex_Cons [OF ex_globals(1)], rule ex_Cons [OF ex_add_offset], rule ex_Cons [OF g [unfolded t(1)]],
        rule ex_Cons [OF _ ex_Nil], assumption)
  then show ?case
    using Cons x by (auto simp: args_spec_def intro!: ex_Cons [OF _ ex_Cons [OF _ ex_Nil]] simp del: emit.simps)
qed

text \<open>The callee, the variadic block around it, and the whole call.\<close>

lemma ex_callee:
  assumes g: "callee_of cx g = None \<Longrightarrow> (\<And>st. ex_spec cx ft A d gg st (of_class (vclass (node_ty g)) @ st))"
    and ok: "call_ok cx ft ty fty g as r"
  shows "ex_spec cx ft A d (case callee_of cx g of
        Some f \<Rightarrow> func_idx cx (o_name f) (op_u OP_CALL)
      | None \<Rightarrow> emit [gen_as g gg VC_I32, call_indirect fty]) (rev (sig_params fty) @ st) (sig_results fty @ st)"
proof (cases "callee_of cx g")
  case None
  then have v: "has_value g" and n: "sig_ok fty" using ok by (simp_all add: call_ok_def)
  have "ex_spec cx ft A d gg st (vclass (node_ty g) # st)" for st
    using g [OF None, of st] v by (simp add: has_value_def)
  then show ?thesis
    unfolding None option.case
    by (rule ex_Cons [OF ex_gen_as [OF _ v] ex_Cons [OF ex_call_indirect [OF n] ex_Nil]]) simp
next
  case (Some f)
  then show ?thesis using ok by (auto simp: call_ok_def intro: ex_func_idx split: option.splits)
qed

lemma ex_move_sp:
  assumes "o' = OP_I32_SUB \<or> o' = OP_I32_ADD"
  shows "ex_spec cx ft A d (if sz \<noteq> 0
    then emit [op_u OP_GLOBAL_GET 0, i32c sz, op o', op_u OP_GLOBAL_SET 0] else Val) st st"
proof -
  have o': "ex_spec cx ft A d (op o') (VC_I32 # VC_I32 # st) (VC_I32 # st)" for st
    using assms ex_binops by auto
  show ?thesis by (cases "sz = 0") (simp_all del: emit.simps, (rule ex_intros ex_Cons o')+)
qed

lemma ex_call_sequence:
  assumes call: "\<And>st. ex_spec cx ft A d call (rev (sig_params fty) @ st) (sig_results fty @ st)"
    and vas: "\<And>st. ex_spec cx ft A d vas st st"
    and mv: "\<And>st. ex_spec cx ft A d mv1 st st" "\<And>st. ex_spec cx ft A d mv2 st st"
    and len: "\<not> nargs < n" "\<not> is_variadic fty \<Longrightarrow> nargs = n"
  shows "ex_spec cx ft A d (if nargs < n then (\<lambda>_. Unsafe)
      else if is_variadic fty then emit [mv1, vas, op_u OP_GLOBAL_GET 0, call, mv2]
      else if nargs \<noteq> n then error msg else call)
    (rev (map (\<lambda>t. vclass (Some t)) (ft_params fty)) @ (if is_struct (return_ty fty) then [VC_I32] else []) @ st)
    (sig_results fty @ st)"
proof (cases "is_variadic fty")
  case True
  have p: "rev (sig_params fty) @ st = VC_I32 # rev (map (\<lambda>t. vclass (Some t)) (ft_params fty))
      @ (if is_struct (return_ty fty) then [VC_I32] else []) @ st"
    using True by (simp add: sig_params_def)
  show ?thesis
    unfolding if_not_P [OF len(1)] if_P [OF True]
    by (rule ex_Cons [OF mv(1)], rule ex_Cons [OF vas], rule ex_Cons [OF ex_globals(1)],
        rule ex_Cons [OF call [of st, unfolded p]], rule ex_Cons [OF mv(2) ex_Nil])
next
  case False
  have p: "rev (sig_params fty) @ st = rev (map (\<lambda>t. vclass (Some t)) (ft_params fty))
      @ (if is_struct (return_ty fty) then [VC_I32] else []) @ st"
    using False by (simp add: sig_params_def)
  have "(if nargs \<noteq> n then error msg else call) = call" using len(2) [OF False] by simp
  then show ?thesis
    unfolding if_not_P [OF len(1)] if_not_P [OF False] using call [of st] p by simp
qed

lemma ex_gen_call:
  assumes args: "args_spec cx ft A d args"
    and g: "callee_of cx g = None \<Longrightarrow> (\<And>st. ex_spec cx ft A d gg st (of_class (vclass (node_ty g)) @ st))"
    and ok: "call_ok cx ft ty fty g (map fst args) r"
  shows "ex_spec cx ft A d (gen_call cx fty g gg args r) st (of_class (vclass ty) @ st)"
proof -
  let ?n = "length (ft_params fty)"
  let ?s = "if is_struct (return_ty fty) then [VC_I32] else []"
  have ty: "ty = Some (return_ty fty)" and r: "r \<noteq> None \<longleftrightarrow> is_struct (return_ty fty)"
    and len: "?n \<le> length args" "\<not> is_variadic fty \<Longrightarrow> length args = ?n"
    and fixed: "list_all2 (\<lambda>t a. vclass (node_ty a) = vclass (Some t) \<and> has_value a) (ft_params fty) (take ?n (map fst args))"
    and va: "list_all (\<lambda>a. has_value a \<and> \<not> is_struct (the (node_ty a))) (drop ?n (map fst args))"
    using ok by (simp_all add: call_ok_def args_ok_def)
  have ret: "ex_spec cx ft A d (case r of None \<Rightarrow> Val | Some r \<Rightarrow> fp_plus cx (cx_offset cx r)) st (?s @ st)" for st
    using r by (cases r) (simp_all add: ex_Val ex_fp_plus)
  have cls: "map (\<lambda>(a, g). vclass (node_ty a)) (take ?n args) = map (\<lambda>t. vclass (Some t)) (ft_params fty)"
    using fixed len(1) by (auto simp: list_all2_conv_all_nth list_eq_iff_nth_eq case_prod_beta)
  have part: "args_spec cx ft A d (take ?n args)" "args_spec cx ft A d (drop ?n args)"
    using args unfolding args_spec_def list_all_iff by (blast dest: in_set_takeD in_set_dropD)+
  have fx: "ex_spec cx ft A d (emit (map snd (take ?n args))) st
      (rev (map (\<lambda>t. vclass (Some t)) (ft_params fty)) @ st)" for st
    using ex_fixed_args [OF part(1), of st] unfolding cls .
  have vas: "ex_spec cx ft A d (va_args 0 (drop ?n args)) st st" for st
    by (rule ex_va_args [OF part(2)]) (use va in \<open>auto simp: list_all_iff drop_map\<close>)
  have res: "?s @ sig_results fty @ st = of_class (vclass ty) @ st"
    by (simp add: sig_results_def result_class_def ty vclass_struct)
  have callee: "ex_spec cx ft A d (case callee_of cx g of
        Some f \<Rightarrow> func_idx cx (o_name f) (op_u OP_CALL)
      | None \<Rightarrow> emit [gen_as g gg VC_I32, call_indirect fty]) (rev (sig_params fty) @ st) (sig_results fty @ st)" for st
    by (rule ex_callee [OF g ok])
  note mid = ex_call_sequence [where nargs = "length args" and n = ?n,
      OF callee vas ex_move_sp [OF disjI1, OF refl] ex_move_sp [OF disjI2, OF refl], unfolded not_less, OF len]
  have fin: "ex_spec cx ft A d (emit [case r of None \<Rightarrow> Val | Some r \<Rightarrow> fp_plus cx (cx_offset cx r)])
      (sig_results fty @ st) (of_class (vclass ty) @ st)"
    using ex_Cons [OF ret ex_Nil, of "sig_results fty @ st"] unfolding res .
  show ?thesis
    unfolding gen_call_def Let_def
    by (rule ex_Cons [OF ret ex_Cons [OF fx ex_Cons [OF mid fin]]])
qed

text \<open>The memory builtins.\<close>

lemma args_ok_values:
  assumes "args_ok fty as"
  shows "list_all has_value as"
proof -
  let ?n = "length (ft_params fty)"
  have "list_all2 (\<lambda>t a. has_value a) (ft_params fty) (take ?n as)"
    using assms by (auto simp: args_ok_def elim!: list_all2_mono)
  then have "list_all has_value (take ?n as)" by (simp add: list_all2_conv_all_nth list_all_length)
  moreover have "list_all has_value (drop ?n as)"
    using assms by (auto simp: args_ok_def elim!: list.pred_mono_strong)
  ultimately show ?thesis by (metis append_take_drop_id list_all_append)
qed

lemma ex_drop_args:
  "args_spec cx ft A d args \<Longrightarrow> ex_spec cx ft A d (emit (map (\<lambda>(a, g). emit [g, op OP_DROP]) args)) st st"
proof (induction args)
  case Nil
  then show ?case by (simp add: ex_Val)
next
  case (Cons x args)
  obtain a g where x: "x = (a, g)" by (cases x)
  with Cons.prems have g: "ex_spec cx ft A d g st (vclass (node_ty a) # st)" and r: "args_spec cx ft A d args"
    by (simp_all add: args_spec_def)
  show ?case
    unfolding x list.map prod.case
    by (rule ex_Cons [OF ex_Cons [OF g ex_Cons [OF ex_drop ex_Nil]] Cons.IH [OF r]])
qed

lemma ex_gen_funcall:
  assumes g: "callee_of cx g = None \<Longrightarrow> (\<And>st. ex_spec cx ft A d gg st (of_class (vclass (node_ty g)) @ st))"
    and args: "\<And>a ga st. (a, ga) \<in> set args \<Longrightarrow> ex_spec cx ft A d ga st (of_class (vclass (node_ty a)) @ st)"
    and ok: "funcall_ok cx ft ty fty g (map fst args) r"
  shows "ex_spec cx ft A d (gen_funcall cx ty fty g gg args r) st (of_class (vclass ty) @ st)"
proof -
  have all: "args_spec cx ft A d args" if "list_all has_value (map fst args)"
    using that args by (fastforce simp: args_spec_def list_all_iff has_value_def)
  have conv: "ex_spec cx ft A d (emit [convert VC_I32 (vclass ty) True]) (VC_I32 # st) (of_class (vclass ty) @ st)"
    if "vclass ty \<noteq> VC_NONE" for st
    using ex_Cons [OF ex_convert [OF _ that] ex_Nil, of VC_I32] that by simp
  have call: "ex_spec cx ft A d (gen_call cx fty g gg args r) st (of_class (vclass ty) @ st)"
    if c: "call_ok cx ft ty fty g (map fst args) r"
  proof (rule ex_gen_call [OF all g c])
    show "list_all has_value (map fst args)"
      using c by (intro args_ok_values [of fty]) (simp add: call_ok_def)
  qed simp_all
  show ?thesis
  proof (cases "callee_of cx g")
    case None
    with ok have "call_ok cx ft ty fty g (map fst args) r" by (simp add: funcall_ok_def)
    with None call show ?thesis by (simp add: gen_funcall_def)
  next
    case (Some f)
    consider (sz) "o_name f = str ''__builtin_wasm_memory_size''"
      | (grow) "o_name f = str ''__builtin_wasm_memory_grow''" "o_name f \<noteq> str ''__builtin_wasm_memory_size''"
      | (call) "o_name f \<noteq> str ''__builtin_wasm_memory_size''" "o_name f \<noteq> str ''__builtin_wasm_memory_grow''"
      by blast
    then show ?thesis
    proof cases
      case sz
      with ok Some have v: "vclass ty \<noteq> VC_NONE" "list_all has_value (map fst args)"
        by (simp_all add: funcall_ok_def)
      have "gen_funcall cx ty fty g gg args r =
          emit [emit (map (\<lambda>(a, g). emit [g, op OP_DROP]) args), op OP_MEMORY_SIZE, byte 0, convert VC_I32 (vclass ty) True]"
        unfolding gen_funcall_def Some option.case if_P [OF sz] ..
      then show ?thesis
        using ex_Cons [OF ex_drop_args [OF all [OF v(2)]] ex_memory_size_grow(1) [OF conv [OF v(1)]]] by simp
    next
      case grow
      with ok Some have v: "vclass ty \<noteq> VC_NONE" and n: "2 \<le> length args"
        "has_value (map fst args ! 0)" "has_value (map fst args ! 1)"
        by (simp_all add: funcall_ok_def del: nth_map)
      then obtain a ga b gb rest where as: "args = (a, ga) # (b, gb) # rest"
        by (cases args; cases "tl args") auto
      with n have va: "vclass (node_ty a) \<noteq> VC_NONE" and vb: "has_value b" by (simp_all add: has_value_def)
      have a: "ex_spec cx ft A d ga st (vclass (node_ty a) # st)" for st using args [of a ga] va as by simp
      have b: "ex_spec cx ft A d gb st (vclass (node_ty b) # st)" for st
        using args [of b gb] vb as by (simp add: has_value_def)
      have "gen_funcall cx ty fty g gg args r = emit [ga, op OP_DROP, gen_as b gb VC_I32, op OP_MEMORY_GROW, byte 0,
          convert VC_I32 (vclass ty) True]"
        unfolding gen_funcall_def Some option.case if_not_P [OF grow(2)] if_P [OF grow(1)] as by simp
      then show ?thesis
        using ex_Cons [OF a ex_Cons [OF ex_drop ex_Cons [OF ex_gen_as [OF b vb] ex_memory_size_grow(2) [OF conv [OF v]]]]]
        by simp
    next
      case call': call
      with ok Some have c: "o_name f \<noteq> str ''alloca''" "call_ok cx ft ty fty g (map fst args) r"
        by (simp_all add: funcall_ok_def split: if_splits)
      with call [OF c(2)] call' Some show ?thesis by (simp add: gen_funcall_def)
    qed
  qed
qed

section \<open>Expressions\<close>

lemma ex_gen_cond_expr:
  assumes c: "\<And>st. ex_spec cx ft A d gc st (of_class (vclass (node_ty c)) @ st)" "has_value c"
    and a: "\<And>st. ex_spec cx ft A d' ga st (of_class (vclass (node_ty a)) @ st)"
    and b: "\<And>st. ex_spec cx ft A d' gb st (of_class (vclass (node_ty b)) @ st)"
    and ty: "node_ty a \<noteq> None" "node_ty b \<noteq> None" "vclass ty = VC_NONE \<longleftrightarrow> \<not> has_value a"
      "vclass ty = VC_NONE \<longleftrightarrow> \<not> has_value b"
    and d: "d' + 1 \<le> d"
  shows "ex_spec cx ft A d (gen_cond_expr ty c gc a ga b gb) st (of_class (vclass ty) @ st)"
proof -
  have arm: "ex_spec cx ft A d' (gen_as n g (vclass ty)) [] (of_class (vclass ty))"
    if g: "ex_spec cx ft A d' g [] (of_class (vclass (node_ty n)) @ [])"
      and n: "node_ty n \<noteq> None" "vclass ty = VC_NONE \<longleftrightarrow> \<not> has_value n" for n g
  proof (cases "has_value n")
    case True
    then show ?thesis using ex_gen_as [of cx ft A d' g "[]" n "vclass ty"] g n by (simp add: has_value_def)
  next
    case False
    then obtain t where t: "node_ty n = Some t" "vclass (Some t) = VC_NONE" "vclass ty = VC_NONE"
      using n by (auto simp: has_value_def)
    with g have "ex_spec cx ft A d' g [] []" by simp
    moreover have "ex_spec cx ft A d' (on_ty n (\<lambda>t. convert (vclass (Some t)) (vclass ty) (is_unsigned t \<or> ty_kind t = TY_PTR))) [] []"
      using t by (simp add: on_ty_def convert_def ex_Val)
    ultimately show ?thesis
      unfolding gen_as_def using t by (simp del: emit.simps) (rule ex_Cons ex_Nil | assumption)+
  qed
  have c': "ex_spec cx ft A d (cond_of c gc) st (VC_I32 # st)"
    using c(1) [of st] c(2) by (intro ex_cond_of) (simp_all add: has_value_def)
  note ie = ex_if_else [OF blocktype_class arm [OF a ty(1,3)] arm [OF b ty(2,4)], of st, THEN ex_mono, OF d]
  show ?thesis
    unfolding gen_cond_expr_def Let_def by (rule ex_Cons [OF c' ie])
qed

text \<open>A node whose code and whose address code are as its type says.\<close>

definition compiles :: "cctx \<Rightarrow> fenv \<Rightarrow> bool \<Rightarrow> node \<Rightarrow> bool" where
  "compiles cx ft A n \<longleftrightarrow>
     (fst (typed_both cx ft n) \<longrightarrow> (\<forall>d st. nest n \<le> d \<longrightarrow>
        ex_spec cx ft A d (fst (gen_both cx n)) st (of_class (vclass (node_ty n)) @ st)))
   \<and> (snd (typed_both cx ft n) \<longrightarrow> (\<forall>d st. nest n \<le> d \<longrightarrow>
        ex_spec cx ft A d (snd (gen_both cx n)) st (VC_I32 # st)))"

lemma compilesI:
  assumes "\<And>d st. fst (typed_both cx ft n) \<Longrightarrow> nest n \<le> d \<Longrightarrow>
      ex_spec cx ft A d (fst (gen_both cx n)) st (of_class (vclass (node_ty n)) @ st)"
    and "\<And>d st. snd (typed_both cx ft n) \<Longrightarrow> nest n \<le> d \<Longrightarrow>
      ex_spec cx ft A d (snd (gen_both cx n)) st (VC_I32 # st)"
  shows "compiles cx ft A n"
  using assms by (simp add: compiles_def)

lemma compilesD:
  assumes "compiles cx ft A n"
  shows "fst (typed_both cx ft n) \<Longrightarrow> nest n \<le> d \<Longrightarrow>
      ex_spec cx ft A d (fst (gen_both cx n)) st (of_class (vclass (node_ty n)) @ st)"
    and "fst (typed_both cx ft n) \<Longrightarrow> has_value n \<Longrightarrow> nest n \<le> d \<Longrightarrow>
      ex_spec cx ft A d (fst (gen_both cx n)) st (vclass (node_ty n) # st)"
    and "snd (typed_both cx ft n) \<Longrightarrow> nest n \<le> d \<Longrightarrow>
      ex_spec cx ft A d (snd (gen_both cx n)) st (VC_I32 # st)"
  using assms by (auto simp: compiles_def has_value_def)

lemma compiles_untyped: "typed_both cx ft n = (False, False) \<Longrightarrow> compiles cx ft A n"
  by (simp add: compiles_def)

lemma mem_ty_class: "mem_ty t \<Longrightarrow> vclass (Some t) \<noteq> VC_NONE"
  by (cases "ty_kind t") (auto simp: mem_ty_def vclass_def is_flonum_def is_integer_def)

lemma ex_addr_var: "var_ok cx v \<Longrightarrow> ex_spec cx ft A d (addr_var cx v) st (VC_I32 # st)"
  by (auto simp: var_ok_def addr_var_def Let_def ex_fp_plus ex_i32c split: var.splits res.splits)

lemma ex_load_ty: "ty_load_ok ty \<Longrightarrow> ex_spec cx ft A d (load_ty ty) (VC_I32 # st) (of_class (vclass ty) @ st)"
proof (cases ty)
  case (Some t)
  assume "ty_load_ok ty"
  with Some have t: "load_ok t" by (simp add: ty_load_ok_def)
  then have "vclass (Some t) \<noteq> VC_NONE"
    by (cases "ty_kind t") (auto simp: load_ok_def mem_ty_def vclass_def is_flonum_def is_integer_def)
  with Some ex_load [OF t] show ?thesis by (simp add: load_ty_def)
qed (simp add: ty_load_ok_def)

lemma struct_addr_code: "ty \<noteq> None \<Longrightarrow> is_struct (the ty) \<Longrightarrow> struct_addr ty g = g"
  by (auto simp: struct_addr_def)

lemma fold_max_ge: "x \<in> set xs \<or> x \<le> k \<Longrightarrow> (x :: nat) \<le> fold max xs k"
proof (induction xs arbitrary: k)
  case (Cons y xs)
  from Cons.prems have "x \<in> set xs \<or> x \<le> max y k" by auto
  then show ?case using Cons.IH by simp
qed simp

lemma compiles_unary:
  assumes "compiles cx ft A a"
  shows "compiles cx ft A (ND_NEG ty a)" "compiles cx ft A (ND_NOT ty a)" "compiles cx ft A (ND_BITNOT ty a)"
    "compiles cx ft A (ND_ADDR ty a)" "compiles cx ft A (ND_DEREF ty a)"
proof -
  note c = compilesD [OF assms]
  show "compiles cx ft A (ND_NEG ty a)"
    by (rule compilesI) (auto intro!: ex_gen_neg c)
  show "compiles cx ft A (ND_NOT ty a)"
  proof (rule compilesI)
    fix d st assume t: "fst (typed_both cx ft (ND_NOT ty a))" and d: "nest (ND_NOT ty a) \<le> d"
    then have "fst (typed_both cx ft a)" "has_value a" "nest a \<le> d" "vclass ty = VC_I32" by simp_all
    then show "ex_spec cx ft A d (fst (gen_both cx (ND_NOT ty a))) st (of_class (vclass (node_ty (ND_NOT ty a))) @ st)"
      using ex_Cons [OF ex_cond_of [OF c(2)] ex_Cons [OF ex_unops(1) ex_Nil]] by (simp del: emit.simps)
  qed simp
  show "compiles cx ft A (ND_BITNOT ty a)"
  proof (rule compilesI)
    fix d st assume t: "fst (typed_both cx ft (ND_BITNOT ty a))" and d: "nest (ND_BITNOT ty a) \<le> d"
    then have v: "fst (typed_both cx ft a)" "has_value a" "nest a \<le> d" and ty: "vclass ty = VC_I32 \<or> vclass ty = VC_I64"
      by auto
    have i: "ex_spec cx ft A d (gen_as a (fst (gen_both cx a)) vc) st (vc # st)" if "vc \<noteq> VC_NONE" for vc st
      using ex_gen_as [OF c(2) v(2) that] v by simp
    show "ex_spec cx ft A d (fst (gen_both cx (ND_BITNOT ty a))) st (of_class (vclass (node_ty (ND_BITNOT ty a))) @ st)"
    proof (cases "vclass ty = VC_I64")
      case True
      have "ex_spec cx ft A d (emit [gen_as a (fst (gen_both cx a)) VC_I64, i64c (-1), op OP_I64_XOR]) st (VC_I64 # st)"
        by (rule ex_Cons [OF i ex_Cons [OF ex_i64c ex_Cons [OF ex_binops(43) ex_Nil]]]) simp_all
      with True show ?thesis by (simp del: emit.simps)
    next
      case False
      have "ex_spec cx ft A d (emit [gen_as a (fst (gen_both cx a)) VC_I32, i32c (-1), op OP_I32_XOR]) st (VC_I32 # st)"
        by (rule ex_Cons [OF i ex_Cons [OF ex_i32c ex_Cons [OF ex_binops(30) ex_Nil]]]) simp_all
      with False ty show ?thesis by (simp del: emit.simps)
    qed
  qed simp
  show "compiles cx ft A (ND_ADDR ty a)"
    by (rule compilesI) (auto intro!: c)
  show "compiles cx ft A (ND_DEREF ty a)"
    by (rule compilesI) (auto simp: Let_def simp del: emit.simps
        intro!: ex_Cons [OF ex_gen_as ex_Cons [OF ex_load_ty ex_Nil]] ex_gen_as c)
qed

lemma compiles_binary:
  assumes a: "compiles cx ft A a" and b: "compiles cx ft A b"
  shows "compiles cx ft A (ND_BINARY k ty a b)" "compiles cx ft A (ND_LOGAND ty a b)"
    "compiles cx ft A (ND_LOGOR ty a b)" "compiles cx ft A (ND_COMMA ty a b)" "compiles cx ft A (ND_ASSIGN ty a b)"
proof -
  note a = compilesD [OF a] and b = compilesD [OF b]
  show "compiles cx ft A (ND_BINARY k ty a b)"
  proof (rule compilesI)
    fix d st assume t: "fst (typed_both cx ft (ND_BINARY k ty a b))" and d: "nest (ND_BINARY k ty a b) \<le> d"
    then have ok: "binary_ok k ty a b" and "vclass ty \<noteq> VC_NONE"
      by (auto simp: binary_ok_def Let_def split: if_splits)
    then show "ex_spec cx ft A d (fst (gen_both cx (ND_BINARY k ty a b))) st
        (of_class (vclass (node_ty (ND_BINARY k ty a b))) @ st)"
      using ex_gen_binary [OF a(2) b(2) ok, of d st] t d by (simp add: binary_ok_def)
  qed simp
  have b7f: "word_of_int 0x7F = blocktype [VC_I32]" by (simp add: blocktype_def)
  show "compiles cx ft A (ND_LOGAND ty a b)"
  proof (rule compilesI)
    fix d st assume t: "fst (typed_both cx ft (ND_LOGAND ty a b))" and d: "nest (ND_LOGAND ty a b) \<le> d"
    have "ex_spec cx ft A (nest b + 1) (emit [if_blk 0x7F, cond_of b (fst (gen_both cx b)), op OP_ELSE, i32c 0, end_blk])
        (VC_I32 # st) ([VC_I32] @ st)"
      by (rule ex_if_else [OF b7f _ ex_cond_of ex_i32c]) (use t in \<open>auto simp: block_results_def intro!: b\<close>)
    from ex_mono [OF this] show "ex_spec cx ft A d (fst (gen_both cx (ND_LOGAND ty a b))) st
        (of_class (vclass (node_ty (ND_LOGAND ty a b))) @ st)"
      using t d by (auto simp del: emit.simps intro!: ex_Cons [OF ex_cond_of] a)
  qed simp
  show "compiles cx ft A (ND_LOGOR ty a b)"
  proof (rule compilesI)
    fix d st assume t: "fst (typed_both cx ft (ND_LOGOR ty a b))" and d: "nest (ND_LOGOR ty a b) \<le> d"
    have "ex_spec cx ft A (nest b + 1) (emit [if_blk 0x7F, i32c 1, op OP_ELSE, cond_of b (fst (gen_both cx b)), end_blk])
        (VC_I32 # st) ([VC_I32] @ st)"
      by (rule ex_if_else [OF b7f _ ex_i32c ex_cond_of]) (use t in \<open>auto simp: block_results_def intro!: b\<close>)
    from ex_mono [OF this] show "ex_spec cx ft A d (fst (gen_both cx (ND_LOGOR ty a b))) st
        (of_class (vclass (node_ty (ND_LOGOR ty a b))) @ st)"
      using t d by (auto simp del: emit.simps intro!: ex_Cons [OF ex_cond_of] a)
  qed simp
  show "compiles cx ft A (ND_COMMA ty a b)"
    by (rule compilesI) (auto simp del: emit.simps
        intro!: ex_Cons [OF _ ex_Cons [OF ex_drop_value ex_Cons [OF _ ex_Nil]]] a b(1,3))
  show "compiles cx ft A (ND_ASSIGN ty a b)"
  proof -
    have e: "ex_spec cx ft A d (gen_assign cx ty (snd (gen_both cx a)) b (fst (gen_both cx b))) st (vclass ty # st)
        \<and> vclass ty \<noteq> VC_NONE"
      if t: "fst (typed_both cx ft (ND_ASSIGN ty a b))" and d: "nest (ND_ASSIGN ty a b) \<le> d" for d st
    proof -
      from t obtain u where u: "ty = Some u" by (cases ty) auto
      have "ex_spec cx ft A d (gen_assign cx (Some u) (snd (gen_both cx a)) b (fst (gen_both cx b))) st (vclass (Some u) # st)"
        by (rule ex_gen_assign) (use t d u in \<open>auto simp: Let_def intro!: a b\<close>)
      moreover have "vclass (Some u) \<noteq> VC_NONE"
        using t u mem_ty_class by (auto simp: Let_def vclass_struct split: if_splits)
      ultimately show ?thesis using u by simp
    qed
    show ?thesis
      by (rule compilesI) (use e in \<open>auto simp: Let_def struct_addr_code vclass_struct split: option.splits\<close>)
  qed
qed

lemma compiles_simple:
  "compiles cx ft A ND_NULL_EXPR" "compiles cx ft A (ND_NUM ty v f)" "compiles cx ft A (ND_VAR ty v')"
  "compiles cx ft A (ND_MEMZERO i)"
proof -
  show "compiles cx ft A ND_NULL_EXPR" by (rule compilesI) (simp_all add: ex_Val)
  show "compiles cx ft A (ND_NUM ty v f)" by (rule compilesI) (simp_all add: ex_gen_num)
  show "compiles cx ft A (ND_VAR ty v')"
    by (rule compilesI) (simp_all add: ex_addr_var ex_Cons [OF ex_addr_var ex_Cons [OF ex_load_ty ex_Nil]] del: emit.simps)
  have "ex_spec cx ft A d (gen_memzero cx i) st st" for d st
    unfolding gen_memzero_def by (rule ex_Cons ex_intros)+
  then show "compiles cx ft A (ND_MEMZERO i)" by (intro compilesI) simp_all
qed

lemma compiles_cast:
  assumes "compiles cx ft A a"
  shows "compiles cx ft A (ND_CAST ty a)"
proof (rule compilesI)
  fix d st assume t: "fst (typed_both cx ft (ND_CAST ty a))" and d: "nest (ND_CAST ty a) \<le> d"
  then obtain u to where u: "node_ty a = Some u" "ty = Some to" "cast_ok u to" by (auto split: option.splits)
  then have "ex_spec cx ft A d (on_ty a (\<lambda>from. case ty of None \<Rightarrow> (\<lambda>_. Unsafe) | Some to \<Rightarrow> cast from to))
      (of_class (vclass (node_ty a)) @ st) (of_class (vclass ty) @ st)"
    using ex_cast by (simp add: on_ty_def)
  with compilesD(1) [OF assms] t d show "ex_spec cx ft A d (fst (gen_both cx (ND_CAST ty a))) st
      (of_class (vclass (node_ty (ND_CAST ty a))) @ st)"
    by (simp del: emit.simps) (rule ex_Cons [OF _ ex_Cons [OF _ ex_Nil]])
qed simp

lemma compiles_member:
  assumes "compiles cx ft A a"
  shows "compiles cx ft A (ND_MEMBER ty a m)"
proof -
  have a: "ex_spec cx ft A d (emit [snd (gen_both cx a), add_offset (m_offset m)]) st (VC_I32 # st)"
    if "snd (typed_both cx ft a)" "nest a \<le> d" for d st
    by (rule ex_Cons [OF compilesD(3) [OF assms that] ex_Cons [OF ex_add_offset ex_Nil]])
  have "ex_spec cx ft A d (emit [emit [snd (gen_both cx a), add_offset (m_offset m)], load_ty ty]) st (of_class (vclass ty) @ st)"
    if "snd (typed_both cx ft a)" "nest a \<le> d" "ty_load_ok ty" for d st
    by (rule ex_Cons [OF a ex_Cons [OF ex_load_ty ex_Nil]]) (use that in simp_all)
  then show ?thesis
    using a by (intro compilesI) (auto simp: Let_def simp del: emit.simps)
qed

lemma compiles_cond:
  assumes "compiles cx ft A c" "compiles cx ft A a" "compiles cx ft A b"
  shows "compiles cx ft A (ND_COND ty c a b)"
proof -
  let ?n = "ND_COND ty c a b"
  have e: "ex_spec cx ft A d (gen_cond_expr ty c (fst (gen_both cx c)) a (fst (gen_both cx a)) b (fst (gen_both cx b))) st
      (of_class (vclass ty) @ st)" if t: "fst (typed_both cx ft ?n)" and d: "nest ?n \<le> d" for d st
    by (rule ex_gen_cond_expr [where d' = "max (nest a) (nest b)"])
      (use t d in \<open>auto simp: Let_def intro!: compilesD(1) [OF assms(1)] compilesD(1) [OF assms(2)] compilesD(1) [OF assms(3)]\<close>)
  then show ?thesis
    by (intro compilesI) (auto simp: Let_def struct_addr_code vclass_struct)
qed

lemma compiles_funcall:
  assumes g: "compiles cx ft A g" and args: "\<And>a. a \<in> set args \<Longrightarrow> compiles cx ft A a"
  shows "compiles cx ft A (ND_FUNCALL ty f g args r)"
proof -
  let ?n = "ND_FUNCALL ty f g args r"
  have e: "ex_spec cx ft A d (gen_funcall cx ty f g (fst (gen_both cx g)) (map (\<lambda>a. (a, fst (gen_both cx a))) args) r) st
      (of_class (vclass ty) @ st)" if t: "fst (typed_both cx ft ?n)" and d: "nest ?n \<le> d" for d st
  proof (rule ex_gen_funcall)
    have n: "nest g \<le> d" "a \<in> set args \<Longrightarrow> nest a \<le> d" for a
      using d fold_max_ge [of "nest a" "map nest args" 0] by auto
    show "ex_spec cx ft A d (fst (gen_both cx g)) st (of_class (vclass (node_ty g)) @ st)" if "callee_of cx g = None" for st
      using compilesD(1) [OF g _ n(1)] t that by (simp add: Let_def)
    show "ex_spec cx ft A d ga st (of_class (vclass (node_ty a)) @ st)"
      if "(a, ga) \<in> set (map (\<lambda>a. (a, fst (gen_both cx a))) args)" for a ga st
      using compilesD(1) [OF args _ n(2)] t that by (auto simp: Let_def list_all_iff)
    show "funcall_ok cx ft ty f g (map fst (map (\<lambda>a. (a, fst (gen_both cx a))) args)) r"
      using t by (simp add: Let_def comp_def)
  qed
  then show ?thesis
    by (intro compilesI) (auto simp: Let_def)
qed

theorem all_compile: "compiles cx ft A n"
proof (induction n rule: node.induct)
qed (auto simp: compiles_unary compiles_binary compiles_simple compiles_cast compiles_member compiles_cond
    intro: compiles_funcall compiles_untyped)

end
