(* ===== verification/Codegen_Stmt.thy ===== *)
theory Codegen_Stmt
  imports Codegen_Valid Emit_Module
begin

text \<open>
  Statements and whole functions. Between statements the open blocks of the generator and of validation
  agree (\<open>at_stk\<close>); a statement may close labelled blocks on top, never others, and a branch always finds
  a block that expects no operands. The generator may still stop on a shape it does not support.
\<close>

section \<open>Open blocks\<close>

type_synonym open_block = "(string option \<times> nat) \<times> fkind"

definition frames_of :: "open_block list \<Rightarrow> vclass list \<Rightarrow> vclass list \<Rightarrow> frame list" where
  "frames_of zs rs st = (case zs of
     [] \<Rightarrow> [Frame K_FUNC rs rs st]
   | z # zs \<Rightarrow> Frame (snd z) [] [] st # map (\<lambda>z. Frame (snd z) [] [] []) zs @ [Frame K_FUNC rs rs []])"

definition block_ids :: "open_block list \<Rightarrow> nat set" where
  "block_ids zs = (snd \<circ> fst) ` set zs"

definition at_stk :: "open_block list \<Rightarrow> vclass list \<Rightarrow> vclass list \<Rightarrow> cg \<Rightarrow> frame list \<Rightarrow> bool" where
  "at_stk zs rs st s c \<longleftrightarrow> cg_ctl s = map fst zs \<and> c = frames_of zs rs st \<and> K_FUNC \<notin> snd ` set zs
     \<and> length zs \<le> 512 \<and> distinct (map (snd \<circ> fst) zs) \<and> (\<forall>i \<in> block_ids zs. i < ctl_id_counter s)"

lemma frames_head: "\<exists>k l r fs. \<forall>st. frames_of zs rs st = Frame k l r st # fs"
  by (cases zs) (auto simp: frames_of_def)

lemma frames_Cons: "frames_of (z # zs) rs st = Frame (snd z) [] [] st # frames_of zs rs []"
  by (cases zs) (simp_all add: frames_of_def)

lemma frames_length: "length (frames_of zs rs st) = Suc (length zs)"
  by (cases zs) (simp_all add: frames_of_def)

lemma frames_label: "d < length zs \<Longrightarrow> fr_label (frames_of zs rs st ! d) = []"
  by (cases zs) (auto simp: frames_of_def nth_append nth_Cons split: nat.split)

lemma hoare_exP: "(\<And>x. hoare cx ft A (P x) g Q) \<Longrightarrow> hoare cx ft A (\<lambda>s c. \<exists>x. P x s c) g Q"
  unfolding hoare_def by (fastforce split: res.splits)

lemma hoare_conjP: "(C \<Longrightarrow> hoare cx ft A P g Q) \<Longrightarrow> hoare cx ft A (\<lambda>s c. C \<and> P s c) g Q"
  unfolding hoare_def by (fastforce split: res.splits)

lemma hoare_disjP:
  "hoare cx ft A P g Q \<Longrightarrow> hoare cx ft A P' g Q \<Longrightarrow> hoare cx ft A (\<lambda>s c. P s c \<or> P' s c) g Q"
  unfolding hoare_def by (fastforce split: res.splits)

lemma hoare_post: "hoare cx ft A P g Q \<Longrightarrow> (\<And>s c. Q s c \<Longrightarrow> Q' s c) \<Longrightarrow> hoare cx ft A P g Q'"
  by (rule hoare_weaken)

lemma hoare_cong: "hoare cx ft A P h Q \<Longrightarrow> (\<And>s c. P s c \<Longrightarrow> g s = h s) \<Longrightarrow> hoare cx ft A P g Q"
  unfolding hoare_def by simp

lemma hoare_stop: "hoare cx ft True P (\<lambda>s. Stop e) Q"
  unfolding hoare_def by simp

text \<open>Straight code keeps the blocks.\<close>

lemma stk_ex:
  assumes "ex_spec cx ft True d g i j"
  shows "hoare cx ft True (at_stk zs rs i) g (at_stk zs rs j)"
proof -
  obtain k l r fs where f: "\<And>st. frames_of zs rs st = Frame k l r st # fs" using frames_head by meson
  have h: "hoare cx ft True (at_frame (map fst zs) k l r i fs) g (at_frame (map fst zs) k l r j fs)"
    using ex_specD [OF assms] by simp
  show ?thesis
  proof (rule hoareI)
    fix s c assume P: "at_stk zs rs i s c"
    then have at: "at_frame (map fst zs) k l r i fs s c" by (simp add: at_stk_def at_frame_def f)
    show "(\<exists>s' bs c'. g s = Val s' \<and> code_of s' = code_of s @ bs
        \<and> types_ext (cg_types s) (cg_types s') \<and> ctl_id_counter s \<le> ctl_id_counter s'
        \<and> (\<forall>E. env_ok cx ft E \<longrightarrow> prefix (cg_types s') (we_types E) \<longrightarrow> vruns E bs c c') \<and> at_stk zs rs j s' c')
       \<or> True \<and> (\<exists>e. g s = Stop e)"
    proof (cases "g s")
      case (Val s')
      from hoareD [OF h at Val] obtain bs c' where r: "code_of s' = code_of s @ bs" "types_ext (cg_types s) (cg_types s')"
        "ctl_id_counter s \<le> ctl_id_counter s'" "at_frame (map fst zs) k l r j fs s' c'"
        "\<And>E. env_ok cx ft E \<Longrightarrow> prefix (cg_types s') (we_types E) \<Longrightarrow> vruns E bs c c'" by blast
      then have "at_stk zs rs j s' c'" using P by (auto simp: at_stk_def at_frame_def f)
      with r Val show ?thesis by blast
    qed (use hoare_Unsafe [OF h at] in auto)
  qed
qed

section \<open>Opening and closing blocks\<close>

text \<open>The bytes that open a block: what \<^verbatim>\<open>block\<close>, \<^verbatim>\<open>loop\<close> and \<^verbatim>\<open>if_\<close> share. \<open>i\<close> is the new block's id.\<close>

lemma at_stk_fresh: "at_stk zs rs st s c \<Longrightarrow> ctl_id_counter s \<notin> block_ids zs"
  by (auto simp: at_stk_def)

lemma stk_open_at:
  assumes "k \<noteq> K_FUNC"
    and v: "\<And>E k' l r fs. vinstr E [word_of_int c, 0x40] (Frame k' l r ins # fs) (Frame k [] [] [] # Frame k' l r [] # fs)"
  shows "hoare cx ft True (\<lambda>s c. at_stk zs rs ins s c \<and> ctl_id_counter s = i) (emit [op c, byte 0x40, push_ctl l])
    (at_stk (((l, i), k) # zs) rs [])"
proof (rule hoareI)
  fix s fr assume P: "at_stk zs rs ins s fr \<and> ctl_id_counter s = i"
  let ?s = "s\<lparr>cg_code := buf_u8 (buf_u8 (cg_code s) c) 0x40\<rparr>"
  have e: "emit [op c, byte 0x40, push_ctl l] s = push_ctl l ?s"
    by (simp add: op_eq byte_def put_def)
  obtain k' l' r' fs where f: "\<And>st. frames_of zs rs st = Frame k' l' r' st # fs" using frames_head by meson
  have fresh: "i \<notin> block_ids zs" using P at_stk_fresh by blast
  show "(\<exists>s' bs c'. emit [op c, byte 0x40, push_ctl l] s = Val s' \<and> code_of s' = code_of s @ bs
      \<and> types_ext (cg_types s) (cg_types s') \<and> ctl_id_counter s \<le> ctl_id_counter s'
      \<and> (\<forall>E. env_ok cx ft E \<longrightarrow> prefix (cg_types s') (we_types E) \<longrightarrow> vruns E bs fr c')
      \<and> at_stk (((l, i), k) # zs) rs [] s' c')
     \<or> True \<and> (\<exists>e. emit [op c, byte 0x40, push_ctl l] s = Stop e)"
  proof (cases "length zs = 512")
    case True
    then show ?thesis using P unfolding e by (auto simp: push_ctl_def at_stk_def)
  next
    case False
    let ?s' = "?s\<lparr>cg_ctl := (l, i) # map fst zs, ctl_id_counter := i + 1\<rparr>"
    have r: "vruns E [word_of_int c, 0x40] fr (frames_of (((l, i), k) # zs) rs [])" for E
      using P v by (auto simp: at_stk_def f frames_Cons intro!: vruns_single)
    have at: "at_stk (((l, i), k) # zs) rs [] ?s' (frames_of (((l, i), k) # zs) rs [])"
      using P False fresh assms(1) by (auto simp: at_stk_def block_ids_def less_Suc_eq)
    have "push_ctl l ?s = Val ?s'" using P False by (auto simp: push_ctl_def at_stk_def)
    then show ?thesis
      unfolding e using r at P
      by (intro disjI1 exI [of _ ?s'] exI [of _ "[word_of_int c, 0x40]"] exI conjI) (auto simp: code_of_def)
  qed
qed

lemma hoare_counter:
  "(\<And>i. hoare cx ft A (\<lambda>s c. P s c \<and> ctl_id_counter s = i) (g i) Q) \<Longrightarrow>
   hoare cx ft A P (\<lambda>s. g (ctl_id_counter s) s) Q"
  unfolding hoare_def by blast

lemma stk_open:
  assumes "k \<noteq> K_FUNC"
    and v: "\<And>E k' l r fs. vinstr E [word_of_int c, 0x40] (Frame k' l r ins # fs) (Frame k [] [] [] # Frame k' l r [] # fs)"
  shows "hoare cx ft True (at_stk zs rs ins) (emit [op c, byte 0x40, push_ctl l])
    (\<lambda>s c. \<exists>i. at_stk (((l, i), k) # zs) rs [] s c)"
  by (rule hoare_counter [where g = "\<lambda>_. emit [op c, byte 0x40, push_ctl l]"])
    (rule hoare_post [OF stk_open_at [OF assms]], blast)

lemma stk_block:
  "hoare cx ft True (at_stk zs rs []) (block l 0x40) (\<lambda>s c. \<exists>i. at_stk (((l, i), K_BLOCK) # zs) rs [] s c)"
  unfolding block_def by (rule stk_open) (use v_block [of "[]"] in \<open>simp_all add: blocktype_def block_results_def\<close>)

lemma stk_if_blk:
  "hoare cx ft True (at_stk zs rs [VC_I32]) (if_blk 0x40) (\<lambda>s c. \<exists>i. at_stk (((None, i), K_IF) # zs) rs [] s c)"
  unfolding if_blk_def by (rule stk_open) (use v_if [of "[]"] in \<open>simp_all add: blocktype_def block_results_def\<close>)

lemma stk_loop:
  assumes "\<And>i. i \<notin> block_ids zs \<Longrightarrow> hoare cx ft True (at_stk (((None, i), K_LOOP) # zs) rs []) (k i) Q"
  shows "hoare cx ft True (at_stk zs rs []) (loop k) Q"
  unfolding loop_def
proof (rule hoare_counter [where g = "\<lambda>i. emit [op OP_LOOP, byte 0x40, push_ctl None, k i]"])
  fix i
  have e: "emit [op OP_LOOP, byte 0x40, push_ctl None, k i] = emit [emit [op OP_LOOP, byte 0x40, push_ctl None], k i]"
    using emit_append [of "[op OP_LOOP, byte 0x40, push_ctl None]" "[k i]"]
      emit.simps(2) [of "emit [op OP_LOOP, byte 0x40, push_ctl None]" "[k i]"]
    unfolding append.simps by (intro ext) metis
  have o: "hoare cx ft True (\<lambda>s c. at_stk zs rs [] s c \<and> ctl_id_counter s = i)
      (emit [op OP_LOOP, byte 0x40, push_ctl None]) (at_stk (((None, i), K_LOOP) # zs) rs [])"
    by (rule stk_open_at) (use v_loop [of "[]"] in \<open>simp_all add: blocktype_def block_results_def\<close>)
  have "hoare cx ft True (\<lambda>s c. at_stk zs rs [] s c \<and> ctl_id_counter s = i)
      (emit [op OP_LOOP, byte 0x40, push_ctl None, k i]) Q" if "i \<notin> block_ids zs"
    unfolding e by (rule hoare_emit_Cons [OF o hoare_emit_Cons [OF assms [OF that] hoare_emit_Nil]])
  moreover have "hoare cx ft True (\<lambda>s c. at_stk zs rs [] s c \<and> ctl_id_counter s = i) g Q" if "i \<in> block_ids zs" for g
    using that by (auto simp: hoare_def dest: at_stk_fresh)
  ultimately show "hoare cx ft True (\<lambda>s c. at_stk zs rs [] s c \<and> ctl_id_counter s = i)
      (emit [op OP_LOOP, byte 0x40, push_ctl None, k i]) Q" by blast
qed

lemma stk_put:
  assumes "\<And>b. buf_data (f b) = buf_data b @ bs"
    and v: "\<And>E. length zs \<le> 512 \<Longrightarrow> K_FUNC \<notin> snd ` set zs \<Longrightarrow> vinstr E bs (frames_of zs rs st) (frames_of zs rs st')"
  shows "hoare cx ft True (at_stk zs rs st) (put f) (at_stk zs rs st')"
  by (rule hoare_put [where bs = bs and T = "\<lambda>_. frames_of zs rs st'", OF assms(1)])
    (use v in \<open>auto simp: at_stk_def intro!: vruns_single\<close>)

lemma hoare_end_blk: "hoare cx ft True (at_stk (z # zs) rs []) end_blk (at_stk zs rs [])"
proof (rule hoareI, rule disjI1)
  fix s c assume P: "at_stk (z # zs) rs [] s c"
  obtain k l r fs where f: "\<And>st. frames_of zs rs st = Frame k l r st # fs" using frames_head by meson
  have "vruns E [0x0B] c (frames_of zs rs [])" for E
    using P v_end [of "snd z" "[]" E] by (auto simp: at_stk_def frames_Cons f intro!: vruns_single)
  moreover have "end_blk s = Val (s\<lparr>cg_code := buf_u8 (cg_code s) OP_END, cg_ctl := map fst zs\<rparr>)"
    using P by (simp add: end_blk_def op_eq put_def pop_ctl_def at_stk_def)
  ultimately show "\<exists>s' bs c'. end_blk s = Val s' \<and> code_of s' = code_of s @ bs
      \<and> types_ext (cg_types s) (cg_types s') \<and> ctl_id_counter s \<le> ctl_id_counter s'
      \<and> (\<forall>E. env_ok cx ft E \<longrightarrow> prefix (cg_types s') (we_types E) \<longrightarrow> vruns E bs c c')
      \<and> at_stk zs rs [] s' c'"
    using P by (intro exI conjI) (auto simp: code_of_def at_stk_def block_ids_def)
qed

lemma hoare_else_blk:
  "hoare cx ft True (at_stk (((l, i), K_IF) # zs) rs []) (op OP_ELSE) (at_stk (((l, i), K_ELSE) # zs) rs [])"
  unfolding op_eq
  by (rule hoare_put [where bs = "[0x05]" and T = "\<lambda>_. frames_of (((l, i), K_ELSE) # zs) rs []"])
    (auto simp: at_stk_def frames_Cons block_ids_def intro!: vruns_single v_else)

section \<open>Branches\<close>

lemma depth_label_bound: "depth_of_label ctl l = Some d \<Longrightarrow> d < length ctl"
  by (induction ctl l arbitrary: d rule: depth_of_label.induct) (auto split: if_splits)

lemma depth_id_bound: "depth_of_id ctl i = Some d \<Longrightarrow> d < length ctl"
  by (induction ctl i arbitrary: d rule: depth_of_id.induct) (auto split: if_splits)

lemma depth_id_None: "i \<notin> block_ids zs \<Longrightarrow> depth_of_id (map fst zs) i = None"
  by (induction zs) (auto simp: block_ids_def)

lemma stk_branch:
  assumes "d < length zs" and "o' = OP_BR \<and> ins = [] \<or> o' = OP_BR_IF \<and> ins = [VC_I32]"
  shows "hoare cx ft True (at_stk zs rs ins) (op_u o' d) (at_stk zs rs [])"
proof (rule hoareI, rule disjI1)
  fix s c assume P: "at_stk zs rs ins s c"
  obtain k l r fs where f: "\<And>st. frames_of zs rs st = Frame k l r st # fs" using frames_head by meson
  have lab: "fr_label ((Frame k l r ([] @ []) # fs) ! d) = []" and len: "d < length (Frame k l r ([] @ []) # fs)"
    using frames_label [OF assms(1), of rs "[]"] frames_length [of zs rs "[]"] assms(1) unfolding f by simp_all
  have u: "unat (of_nat d :: u64) = d" using P assms(1) by (intro unat_of_nat_64) (simp add: at_stk_def)
  have "vinstr E (word_of_int o' # uleb_bytes d) c (frames_of zs rs [])" for E
    using assms(2) P v_br [OF len lab] v_br_if [OF len lab] by (auto simp: at_stk_def f)
  then show "\<exists>s' bs c'. op_u o' d s = Val s' \<and> code_of s' = code_of s @ bs
      \<and> types_ext (cg_types s) (cg_types s') \<and> ctl_id_counter s \<le> ctl_id_counter s'
      \<and> (\<forall>E. env_ok cx ft E \<longrightarrow> prefix (cg_types s') (we_types E) \<longrightarrow> vruns E bs c c')
      \<and> at_stk zs rs [] s' c'"
    using P u vruns_single
    by (intro exI [of _ "s\<lparr>cg_code := buf_uleb (buf_u8 (cg_code s) o') (of_nat d)\<rparr>"]
        exI [of _ "word_of_int o' # uleb_bytes d"] exI [of _ "frames_of zs rs []"])
      (auto simp: op_u_def put_def code_of_def buf_uleb_data at_stk_def)
qed

lemma stk_br_label:
  assumes "o' = OP_BR \<and> ins = [] \<or> o' = OP_BR_IF \<and> ins = [VC_I32]"
  shows "hoare cx ft True (at_stk zs rs ins) (br_label o' l) (at_stk zs rs [])"
proof (cases "depth_of_label (map fst zs) l")
  case None
  then show ?thesis by (auto simp: hoare_def br_label_def at_stk_def)
next
  case (Some d)
  then have "d < length zs" using depth_label_bound by fastforce
  then have "hoare cx ft True (at_stk zs rs ins) (op_u o' d) (at_stk zs rs [])" by (rule stk_branch [OF _ assms])
  with Some show ?thesis by (auto simp: hoare_def br_label_def at_stk_def)
qed

lemma stk_br_id:
  assumes "o' = OP_BR \<and> ins = [] \<or> o' = OP_BR_IF \<and> ins = [VC_I32]"
  shows "hoare cx ft True (at_stk zs rs ins) (br_id o' i) (at_stk zs rs [])"
    and "i \<notin> block_ids zs \<Longrightarrow> hoare cx ft True (at_stk zs rs ins) (br_id o' i) Q"
proof -
  show "hoare cx ft True (at_stk zs rs ins) (br_id o' i) (at_stk zs rs [])"
  proof (cases "depth_of_id (map fst zs) i")
    case None
    then show ?thesis by (auto simp: hoare_def br_id_def at_stk_def)
  next
    case (Some d)
    then have "d < length zs" using depth_id_bound by fastforce
    then have "hoare cx ft True (at_stk zs rs ins) (op_u o' d) (at_stk zs rs [])" by (rule stk_branch [OF _ assms])
    with Some show ?thesis by (auto simp: hoare_def br_id_def at_stk_def)
  qed
  show "hoare cx ft True (at_stk zs rs ins) (br_id o' i) Q" if "i \<notin> block_ids zs"
    using depth_id_None [OF that] by (auto simp: hoare_def br_id_def at_stk_def)
qed

section \<open>Statements\<close>

text \<open>A statement may close labelled blocks that are open on top.\<close>

definition closes :: "open_block list \<Rightarrow> open_block list \<Rightarrow> bool" where
  "closes zs zs' \<longleftrightarrow> (\<exists>ys. zs = ys @ zs' \<and> list_all (\<lambda>z. fst (fst z) \<noteq> None) ys)"

lemma closes_refl [simp]: "closes zs zs"
  by (simp add: closes_def)

lemma closes_trans: "closes a b \<Longrightarrow> closes b c \<Longrightarrow> closes a c"
  by (force simp: closes_def)

lemma closes_unlabelled [simp]: "closes (((None, i), k) # zs) zs' \<longleftrightarrow> zs' = ((None, i), k) # zs"
  by (auto simp: closes_def Cons_eq_append_conv)

lemma closes_labelled [simp]: "closes (((Some l, i), k) # zs) zs' \<longleftrightarrow> zs' = ((Some l, i), k) # zs \<or> closes zs zs'"
  by (fastforce simp: closes_def Cons_eq_append_conv)

definition stmt_spec :: "cctx \<Rightarrow> fenv \<Rightarrow> gen \<Rightarrow> bool" where
  "stmt_spec cx ft g \<longleftrightarrow> (\<forall>zs rs. hoare cx ft True (at_stk zs rs []) g
     (\<lambda>s c. \<exists>zs'. closes zs zs' \<and> at_stk zs' rs [] s c))"

lemma stmt_specI:
  "(\<And>zs rs. hoare cx ft True (at_stk zs rs []) g (\<lambda>s c. \<exists>zs'. closes zs zs' \<and> at_stk zs' rs [] s c)) \<Longrightarrow>
   stmt_spec cx ft g"
  by (simp add: stmt_spec_def)

lemma stmt_specD:
  "stmt_spec cx ft g \<Longrightarrow> hoare cx ft True (at_stk zs rs []) g (\<lambda>s c. \<exists>zs'. closes zs zs' \<and> at_stk zs' rs [] s c)"
  by (simp add: stmt_spec_def)

lemma stmt_keepI:
  assumes "\<And>zs rs. hoare cx ft True (at_stk zs rs []) g (at_stk zs rs [])"
  shows "stmt_spec cx ft g"
proof (rule stmt_specI)
  fix zs rs
  show "hoare cx ft True (at_stk zs rs []) g (\<lambda>s c. \<exists>zs'. closes zs zs' \<and> at_stk zs' rs [] s c)"
    using closes_refl by (blast intro: hoare_post [OF assms])
qed

lemma stmt_ex: "ex_spec cx ft True d g [] [] \<Longrightarrow> stmt_spec cx ft g"
  by (rule stmt_keepI [OF stk_ex])

lemma stmt_Val: "stmt_spec cx ft Val"
  by (rule stmt_ex [OF ex_Val])

lemma stmt_Stop: "stmt_spec cx ft (error e)"
  by (rule stmt_specI) (simp add: hoare_def error_def)

lemma stmt_Cons:
  assumes g: "stmt_spec cx ft g" and gs: "stmt_spec cx ft (emit gs)"
  shows "stmt_spec cx ft (emit (g # gs))"
proof (rule stmt_specI)
  fix zs rs
  have "hoare cx ft True (at_stk zs' rs []) (emit gs) (\<lambda>s c. \<exists>zs'. closes zs zs' \<and> at_stk zs' rs [] s c)"
    if "closes zs zs'" for zs'
    by (rule hoare_post [OF stmt_specD [OF gs]]) (use that closes_trans in blast)
  then show "hoare cx ft True (at_stk zs rs []) (emit (g # gs)) (\<lambda>s c. \<exists>zs'. closes zs zs' \<and> at_stk zs' rs [] s c)"
    by (intro hoare_emit_Cons [OF stmt_specD [OF g]] hoare_exP hoare_conjP)
qed

lemma stmt_emit: "list_all (stmt_spec cx ft) gs \<Longrightarrow> stmt_spec cx ft (emit gs)"
proof (induction gs)
  case Nil
  then show ?case by (simp add: stmt_Val)
next
  case (Cons g gs)
  then show ?case by (intro stmt_Cons) simp_all
qed

lemma stmt_inside:
  assumes "stmt_spec cx ft g"
  shows "hoare cx ft True (at_stk (((None, i), k) # zs) rs []) g (at_stk (((None, i), k) # zs) rs [])"
  by (rule hoare_post [OF stmt_specD [OF assms]]) auto

lemma stmt_br: "stmt_spec cx ft (br_label OP_BR l)"
  by (rule stmt_keepI [OF stk_br_label]) simp

lemma stmt_close: "stmt_spec cx ft (close_label l msg)"
proof (rule stmt_specI)
  fix zs rs
  show "hoare cx ft True (at_stk zs rs []) (close_label l msg) (\<lambda>s c. \<exists>zs'. closes zs zs' \<and> at_stk zs' rs [] s c)"
  proof (cases "\<exists>i k zs0. zs = ((Some l, i), k) # zs0")
    case True
    then obtain i k zs0 where z: "zs = ((Some l, i), k) # zs0" by blast
    have "hoare cx ft True (at_stk zs rs []) (close_label l msg) (at_stk zs0 rs [])"
      unfolding z by (rule hoare_cong [OF hoare_end_blk]) (simp add: close_label_def top_label_is_def at_stk_def)
    moreover have "closes zs zs0" using z by simp
    ultimately show ?thesis by (blast intro: hoare_post)
  next
    case False
    have "close_label l msg s = Stop msg" if "at_stk zs rs [] s c" for s c
      using that False by (cases zs) (auto simp: close_label_def top_label_is_def at_stk_def)
    then show ?thesis by (rule hoare_cong [OF hoare_stop])
  qed
qed

section \<open>Control statements\<close>

text \<open>Sequences of steps that keep the open blocks, and of ones that run inside a new block.\<close>

lemma stk_emit2: "hoare cx ft A P (emit [g, h]) Q" if "hoare cx ft A P g R" "hoare cx ft A R h Q"
  by (rule hoare_emit_Cons [OF that(1) hoare_emit_Cons [OF that(2) hoare_emit_Nil]])

lemma emit_Cons_fun: "emit (g # gs) = (\<lambda>s. res_bind (g s) (emit gs))"
  by (rule ext) simp

lemma stk_single: "hoare cx ft A P (emit [g]) Q" if "hoare cx ft A P g Q"
  by (rule hoare_emit_Cons [OF that hoare_emit_Nil])

lemma stmt_if:
  assumes c: "ex_spec cx ft True d gc [] [VC_I32]" and a: "stmt_spec cx ft ga"
    and b: "\<And>g. gb = Some g \<Longrightarrow> stmt_spec cx ft g"
  shows "stmt_spec cx ft (emit [gc, if_blk 0x40, ga, (case gb of None \<Rightarrow> Val | Some g \<Rightarrow> emit [op OP_ELSE, g]), end_blk])"
proof (rule stmt_keepI)
  fix zs rs
  have "hoare cx ft True (at_stk (((None, i), K_IF) # zs) rs [])
      (emit [ga, (case gb of None \<Rightarrow> Val | Some g \<Rightarrow> emit [op OP_ELSE, g]), end_blk]) (at_stk zs rs [])" for i
  proof (cases gb)
    case None
    show ?thesis
      unfolding None option.case
      by (rule hoare_emit_Cons [OF stmt_inside [OF a] hoare_emit_Cons [OF hoare_Val stk_single]]) (rule hoare_end_blk)
  next
    case (Some g)
    show ?thesis
      unfolding Some option.case
      by (rule hoare_emit_Cons [OF stmt_inside [OF a]
            hoare_emit_Cons [OF stk_emit2 [OF hoare_else_blk stmt_inside [OF b [OF Some]]] stk_single]])
        (rule hoare_end_blk)
  qed
  then show "hoare cx ft True (at_stk zs rs [])
      (emit [gc, if_blk 0x40, ga, (case gb of None \<Rightarrow> Val | Some g \<Rightarrow> emit [op OP_ELSE, g]), end_blk]) (at_stk zs rs [])"
    by (rule hoare_emit_Cons [OF stk_ex [OF c] hoare_emit_Cons [OF stk_if_blk hoare_exP]])
qed

text \<open>The body of a loop in its block for \<^verbatim>\<open>continue\<close>: if the body has closed that block, the end closes the loop.\<close>

lemma stk_cont_body:
  assumes "stmt_spec cx ft ga"
  shows "hoare cx ft True (at_stk (((None, i), K_LOOP) # zs) rs []) (emit [block (Some cont) 0x40, ga, end_blk])
    (\<lambda>s c. at_stk (((None, i), K_LOOP) # zs) rs [] s c \<or> at_stk zs rs [] s c)"
proof -
  let ?z = "((None, i), K_LOOP) # zs"
  have "hoare cx ft True (at_stk (((Some cont, j), K_BLOCK) # ?z) rs []) (emit [ga, end_blk])
      (\<lambda>s c. at_stk ?z rs [] s c \<or> at_stk zs rs [] s c)" for j
  proof (rule stk_emit2)
    show "hoare cx ft True (at_stk (((Some cont, j), K_BLOCK) # ?z) rs []) ga
        (\<lambda>s c. at_stk (((Some cont, j), K_BLOCK) # ?z) rs [] s c \<or> at_stk ?z rs [] s c)"
      by (rule hoare_post [OF stmt_specD [OF assms]]) auto
    show "hoare cx ft True (\<lambda>s c. at_stk (((Some cont, j), K_BLOCK) # ?z) rs [] s c \<or> at_stk ?z rs [] s c) end_blk
        (\<lambda>s c. at_stk ?z rs [] s c \<or> at_stk zs rs [] s c)"
      by (rule hoare_disjP; rule hoare_post [OF hoare_end_blk]; blast)
  qed
  then show ?thesis by (rule hoare_emit_Cons [OF stk_block hoare_exP])
qed

lemma stk_ends: "hoare cx ft True (at_stk (z # y # zs) rs []) (emit [end_blk, end_blk]) (at_stk zs rs [])"
  by (rule stk_emit2 [OF hoare_end_blk hoare_end_blk])

text \<open>The part of both loops behind the body: \<open>g\<close> and the branch back, which needs the loop still open.\<close>

lemma stk_loop_tail:
  assumes g: "ex_spec cx ft True d g [] ins" and br: "o' = OP_BR \<and> ins = [] \<or> o' = OP_BR_IF \<and> ins = [VC_I32]"
    and i: "i \<notin> block_ids (z # zs)"
  shows "hoare cx ft True (\<lambda>s c. at_stk (((None, i), K_LOOP) # z # zs) rs [] s c \<or> at_stk (z # zs) rs [] s c)
    (emit [g, br_id o' i, end_blk, end_blk]) (at_stk zs rs [])"
proof (rule hoare_disjP)
  have e: "emit [g, br_id o' i, end_blk, end_blk] = emit [g, emit [br_id o' i, emit [end_blk, end_blk]]]"
    by (simp add: emit_Cons_fun res_bind_assoc del: emit.simps)
  show "hoare cx ft True (at_stk (((None, i), K_LOOP) # z # zs) rs []) (emit [g, br_id o' i, end_blk, end_blk]) (at_stk zs rs [])"
    unfolding e by (rule stk_emit2 [OF stk_ex [OF g] stk_emit2 [OF stk_br_id(1) [OF br] stk_ends]])
  show "hoare cx ft True (at_stk (z # zs) rs []) (emit [g, br_id o' i, end_blk, end_blk]) (at_stk zs rs [])"
    unfolding e by (rule stk_emit2 [OF stk_ex [OF g] stk_emit2 [OF stk_br_id(2) [OF br i] stk_ends]])
qed

lemma stmt_for:
  assumes init: "stmt_spec cx ft gi" and a: "stmt_spec cx ft ga" and n: "ex_spec cx ft True d gn [] []"
    and c: "\<And>g. gc = Some g \<Longrightarrow> ex_spec cx ft True d g [] [VC_I32]"
  shows "stmt_spec cx ft (emit [gi, block (Some brk) 0x40,
    loop (\<lambda>top. emit [(case gc of None \<Rightarrow> Val | Some g \<Rightarrow> emit [g, op OP_I32_EQZ, br_label OP_BR_IF brk]),
      block (Some cont) 0x40, ga, end_blk, gn, br_id OP_BR top, end_blk, end_blk])])"
proof -
  let ?c = "case gc of None \<Rightarrow> Val | Some g \<Rightarrow> emit [g, op OP_I32_EQZ, br_label OP_BR_IF brk]"
  have cond: "hoare cx ft True (at_stk zs rs []) ?c (at_stk zs rs [])" for zs rs
  proof (cases gc)
    case (Some g)
    show ?thesis
      unfolding Some option.case
      by (rule hoare_emit_Cons [OF stk_ex [OF c [OF Some]] stk_emit2 [OF stk_ex [OF ex_unops(1)] stk_br_label]]) simp
  qed (simp add: hoare_Val)
  have body: "hoare cx ft True (at_stk (((None, i), K_LOOP) # z # zs) rs [])
      (emit [?c, block (Some cont) 0x40, ga, end_blk, gn, br_id OP_BR i, end_blk, end_blk]) (at_stk zs rs [])"
    if "i \<notin> block_ids (z # zs)" for i z zs rs
  proof -
    have e: "emit [?c, block (Some cont) 0x40, ga, end_blk, gn, br_id OP_BR i, end_blk, end_blk]
        = emit [?c, emit [emit [block (Some cont) 0x40, ga, end_blk], emit [gn, br_id OP_BR i, end_blk, end_blk]]]"
      by (simp add: emit_Cons_fun res_bind_assoc del: emit.simps)
    show ?thesis
      unfolding e by (rule stk_emit2 [OF cond stk_emit2 [OF stk_cont_body [OF a] stk_loop_tail [OF n _ that]]]) simp
  qed
  have "stmt_spec cx ft (emit [block (Some brk) 0x40,
      loop (\<lambda>top. emit [?c, block (Some cont) 0x40, ga, end_blk, gn, br_id OP_BR top, end_blk, end_blk])])"
    by (rule stmt_keepI) (rule stk_emit2 [OF stk_block hoare_exP [OF stk_loop [OF body]]])
  then show ?thesis by (rule stmt_Cons [OF init])
qed

lemma stmt_do:
  assumes a: "stmt_spec cx ft ga" and c: "ex_spec cx ft True d gc [] [VC_I32]"
  shows "stmt_spec cx ft (emit [block (Some brk) 0x40,
    loop (\<lambda>top. emit [block (Some cont) 0x40, ga, end_blk, gc, br_id OP_BR_IF top, end_blk, end_blk])])"
proof -
  have body: "hoare cx ft True (at_stk (((None, i), K_LOOP) # z # zs) rs [])
      (emit [block (Some cont) 0x40, ga, end_blk, gc, br_id OP_BR_IF i, end_blk, end_blk]) (at_stk zs rs [])"
    if "i \<notin> block_ids (z # zs)" for i z zs rs
  proof -
    have e: "emit [block (Some cont) 0x40, ga, end_blk, gc, br_id OP_BR_IF i, end_blk, end_blk]
        = emit [emit [block (Some cont) 0x40, ga, end_blk], emit [gc, br_id OP_BR_IF i, end_blk, end_blk]]"
      by (simp add: emit_Cons_fun res_bind_assoc del: emit.simps)
    show ?thesis
      unfolding e by (rule stk_emit2 [OF stk_cont_body [OF a] stk_loop_tail [OF c _ that]]) simp
  qed
  show ?thesis
    by (rule stmt_keepI) (rule stk_emit2 [OF stk_block hoare_exP [OF stk_loop [OF body]]])
qed

text \<open>\<^verbatim>\<open>switch\<close>: one block per case, opened in reverse; the body closes them in order.\<close>

lemma stk_blocks:
  "hoare cx ft True (at_stk zs rs []) (emit (map (\<lambda>l. block (Some l) 0x40) ls))
    (\<lambda>s c. \<exists>ys. map (fst \<circ> fst) ys = map Some (rev ls) \<and> at_stk (ys @ zs) rs [] s c)"
proof (induction ls arbitrary: zs)
  case Nil
  show ?case by (simp, rule hoare_Val)
next
  case (Cons l ls)
  have "hoare cx ft True (at_stk (((Some l, i), K_BLOCK) # zs) rs []) (emit (map (\<lambda>l. block (Some l) 0x40) ls))
      (\<lambda>s c. \<exists>ys. map (fst \<circ> fst) ys = map Some (rev (l # ls)) \<and> at_stk (ys @ zs) rs [] s c)" for i
  proof (rule hoare_post [OF Cons.IH])
    fix s c
    assume "\<exists>ys. map (fst \<circ> fst) ys = map Some (rev ls) \<and> at_stk (ys @ ((Some l, i), K_BLOCK) # zs) rs [] s c"
    then obtain ys where "map (fst \<circ> fst) ys = map Some (rev ls)" "at_stk (ys @ ((Some l, i), K_BLOCK) # zs) rs [] s c"
      by blast
    then show "\<exists>ys. map (fst \<circ> fst) ys = map Some (rev (l # ls)) \<and> at_stk (ys @ zs) rs [] s c"
      by (intro exI [of _ "ys @ [((Some l, i), K_BLOCK)]"]) simp
  qed
  then show ?case
    unfolding list.map by (rule hoare_emit_Cons [OF stk_block hoare_exP])
qed

definition case_ok :: "vclass \<Rightarrow> string \<times> int \<times> int \<Rightarrow> bool" where
  "case_ok vc = (\<lambda>(l, lo, hi). vc = VC_I64 \<longrightarrow> int64 lo \<and> int64 (hi - lo))"

lemma stk_case_test:
  assumes "case_ok vc x" "vc = VC_I32 \<or> vc = VC_I64"
  shows "hoare cx ft True (at_stk zs rs []) (case_test cx vc x) (at_stk zs rs [])"
proof -
  obtain l lo hi where x: "x = (l, lo, hi)" by (cases x)
  let ?t = "if lo = hi then (if vc = VC_I64 then emit [i64c lo, op OP_I64_EQ] else emit [i32c lo, op OP_I32_EQ])
       else if vc = VC_I64 then emit [i64c lo, op OP_I64_SUB, i64c (hi - lo), op OP_I64_LE_U]
       else emit [i32c lo, op OP_I32_SUB, i32c (hi - lo), op OP_I32_LE_U]"
  have t: "ex_spec cx ft True 0 ?t [vc] [VC_I32]"
  proof (cases "vc = VC_I64")
    case True
    then have "int64 lo" "int64 (hi - lo)" using assms(1) by (simp_all add: case_ok_def x)
    then show ?thesis
      unfolding int64_def if_P [OF True] True
      by (intro ex_if) (rule ex_intros ex_Cons | simp)+
  next
    case False
    then have "vc = VC_I32" using assms(2) by simp
    then show ?thesis
      unfolding if_not_P [OF False] by (simp only:) (intro ex_if; (rule ex_intros ex_Cons)+)
  qed
  have g: "ex_spec cx ft True 0 (op_scratch cx OP_LOCAL_GET vc) [] [vc]"
    by (rule ex_scratch) (use assms(2) in auto)
  show ?thesis
    unfolding case_test_def x prod.case
    by (rule hoare_emit_Cons [OF stk_ex [OF g] stk_emit2 [OF stk_ex [OF t] stk_br_label]]) simp
qed

lemma stk_case_tests:
  assumes "list_all (case_ok vc) xs" "vc = VC_I32 \<or> vc = VC_I64"
  shows "hoare cx ft True (at_stk zs rs []) (emit (map (case_test cx vc) xs)) (at_stk zs rs [])"
  using assms(1)
proof (induction xs)
  case (Cons x xs)
  then show ?case
    unfolding list.map by (intro hoare_emit_Cons [OF stk_case_test [OF _ assms(2)]]) simp_all
qed (simp add: hoare_Val)

lemma closes_switch:
  assumes "closes (ys @ ((Some brk, i), K_BLOCK) # zs) (((Some brk, j), k) # zs')"
    and "map (fst \<circ> fst) ys = map Some ls" and "brk \<notin> set ls"
  shows "closes zs zs'"
  using assms
proof (induction ys arbitrary: ls)
  case Nil
  then show ?case by (auto simp: closes_def Cons_eq_append_conv)
next
  case (Cons y ys)
  from Cons.prems(2) obtain l ls' where l: "ls = l # ls'" "fst (fst y) = Some l" "map (fst \<circ> fst) ys = map Some ls'"
    by (cases ls) (auto simp: comp_def)
  then have "closes (ys @ ((Some brk, i), K_BLOCK) # zs) (((Some brk, j), k) # zs')"
    using Cons.prems(1,3) by (cases y) (auto simp: closes_def Cons_eq_append_conv)
  with Cons.IH [OF _ l(3)] Cons.prems(3) l(1) show ?case by simp
qed

lemma stk_close_brk:
  assumes "map (fst \<circ> fst) ys = map Some ls" "brk \<notin> set ls"
  shows "hoare cx ft True (\<lambda>s c. \<exists>zs'. closes (ys @ ((Some brk, i), K_BLOCK) # zs) zs' \<and> at_stk zs' rs [] s c)
    (close_label brk msg) (\<lambda>s c. \<exists>zs'. closes zs zs' \<and> at_stk zs' rs [] s c)"
proof (intro hoare_exP hoare_conjP)
  fix zs' assume cl: "closes (ys @ ((Some brk, i), K_BLOCK) # zs) zs'"
  show "hoare cx ft True (at_stk zs' rs []) (close_label brk msg) (\<lambda>s c. \<exists>zs'. closes zs zs' \<and> at_stk zs' rs [] s c)"
  proof (cases "\<exists>j k zs0. zs' = ((Some brk, j), k) # zs0")
    case True
    then obtain j k zs0 where z: "zs' = ((Some brk, j), k) # zs0" by blast
    have "hoare cx ft True (at_stk zs' rs []) (close_label brk msg) (at_stk zs0 rs [])"
      unfolding z by (rule hoare_cong [OF hoare_end_blk]) (simp add: close_label_def top_label_is_def at_stk_def)
    moreover have "closes zs zs0" using closes_switch [OF cl [unfolded z] assms] .
    ultimately show ?thesis by (blast intro: hoare_post)
  next
    case False
    have "close_label brk msg s = Stop msg" if "at_stk zs' rs [] s c" for s c
      using that False by (cases zs') (auto simp: close_label_def top_label_is_def at_stk_def)
    then show ?thesis by (rule hoare_cong [OF hoare_stop])
  qed
qed

lemma ex_few: "ex_spec cx ft True d (if c then error msg else Val) st st"
  by (auto simp: ex_spec_def hoare_def error_def intro: vr_nil)

lemma stmt_switch:
  assumes e: "ex_spec cx ft True d (gen_expr cx cond) [] [vclass (node_ty cond)]"
    and vc: "vclass (node_ty cond) = VC_I32 \<or> vclass (node_ty cond) = VC_I64"
    and body: "stmt_spec cx ft gbody"
    and cs: "list_all (case_ok (vclass (node_ty cond))) cases" and brk: "brk \<notin> set (collect_cases body)"
  shows "stmt_spec cx ft (gen_switch cx cond body gbody cases dflt brk)"
proof (rule stmt_specI)
  fix zs rs
  let ?vc = "vclass (node_ty cond)" and ?ls = "collect_cases body"
  let ?msg = "''unsupported switch shape (a case is nested inside another statement)''"
  have close: "(\<lambda>s. if top_label_is brk s then end_blk s else Stop ?msg) = close_label brk ?msg"
    by (simp add: close_label_def)
  have set: "ex_spec cx ft True 0 (op_scratch cx OP_LOCAL_SET ?vc) [?vc] []"
    by (rule ex_scratch) (use vc in auto)
  have tail: "hoare cx ft True (at_stk (ys @ ((Some brk, i), K_BLOCK) # zs) rs [])
      (emit [emit (map (case_test cx ?vc) cases), br_label OP_BR (case dflt of Some l \<Rightarrow> l | None \<Rightarrow> brk), gbody,
        close_label brk ?msg]) (\<lambda>s c. \<exists>zs'. closes zs zs' \<and> at_stk zs' rs [] s c)"
    if "map (fst \<circ> fst) ys = map Some (rev (rev ?ls))" for ys i
    by (rule hoare_emit_Cons [OF stk_case_tests [OF cs vc] hoare_emit_Cons [OF stk_br_label
          stk_emit2 [OF stmt_specD [OF body] stk_close_brk]]])
      (use that brk in simp_all)
  show "hoare cx ft True (at_stk zs rs []) (gen_switch cx cond body gbody cases dflt brk)
      (\<lambda>s c. \<exists>zs'. closes zs zs' \<and> at_stk zs' rs [] s c)"
    unfolding gen_switch_def Let_def close
    by (rule hoare_emit_Cons [OF stk_ex [OF e] hoare_emit_Cons [OF stk_ex [OF set]
          hoare_emit_Cons [OF stk_ex [OF ex_few] hoare_emit_Cons [OF stk_block hoare_exP]]]])
      (intro hoare_emit_Cons [OF stk_blocks] hoare_exP hoare_conjP tail)
qed

section \<open>Typed statements\<close>

definition value_ok :: "cctx \<Rightarrow> fenv \<Rightarrow> node \<Rightarrow> bool" where
  "value_ok cx ft n \<longleftrightarrow> typed cx ft n \<and> has_value n"

text \<open>
  A returned value goes into the function's own local, a returned structure to where its first parameter
  points. Without a return type there must be no value.
\<close>

definition return_ok :: "cctx \<Rightarrow> fenv \<Rightarrow> node option \<Rightarrow> bool" where
  "return_ok cx ft r \<longleftrightarrow> (case r of None \<Rightarrow> True | Some e \<Rightarrow>
     value_ok cx ft e \<and> (if is_struct (the (node_ty e)) then is_struct (cx_return_ty cx)
       else vclass (Some (cx_return_ty cx)) \<noteq> VC_NONE \<and> \<not> is_struct (cx_return_ty cx)))"

primrec typed_stmt :: "cctx \<Rightarrow> fenv \<Rightarrow> node \<Rightarrow> bool" where
  "typed_stmt cx ft (ND_BLOCK body) = list_all id (map (typed_stmt cx ft) body)"
| "typed_stmt cx ft (ND_EXPR_STMT a) = typed cx ft a"
| "typed_stmt cx ft (ND_IF c a b) =
     (value_ok cx ft c \<and> typed_stmt cx ft a \<and> (case map_option (typed_stmt cx ft) b of None \<Rightarrow> True | Some ok \<Rightarrow> ok))"
| "typed_stmt cx ft (ND_FOR i c n a brk cont) =
     ((case map_option (typed_stmt cx ft) i of None \<Rightarrow> True | Some ok \<Rightarrow> ok)
      \<and> (case c of None \<Rightarrow> True | Some c \<Rightarrow> value_ok cx ft c) \<and> (case n of None \<Rightarrow> True | Some n \<Rightarrow> typed cx ft n)
      \<and> typed_stmt cx ft a)"
| "typed_stmt cx ft (ND_DO a c brk cont) = (typed_stmt cx ft a \<and> value_ok cx ft c)"
| "typed_stmt cx ft (ND_SWITCH c a cs d brk) =
     (typed cx ft c \<and> (vclass (node_ty c) = VC_I32 \<or> vclass (node_ty c) = VC_I64) \<and> typed_stmt cx ft a
      \<and> list_all (case_ok (vclass (node_ty c))) cs \<and> brk \<notin> set (collect_cases a))"
| "typed_stmt cx ft (ND_CASE l a) = typed_stmt cx ft a"
| "typed_stmt cx ft (ND_GOTO l) = True"
| "typed_stmt cx ft (ND_LABEL l a) = typed_stmt cx ft a"
| "typed_stmt cx ft (ND_RETURN r) = return_ok cx ft r"
| "typed_stmt cx ft (ND_OTHER_STMT k) = True"
| "typed_stmt cx ft ND_NULL_EXPR = True"
| "typed_stmt cx ft (ND_NUM ty v f) = True"
| "typed_stmt cx ft (ND_BINARY k ty a b) = True"
| "typed_stmt cx ft (ND_NEG ty a) = True"
| "typed_stmt cx ft (ND_NOT ty a) = True"
| "typed_stmt cx ft (ND_BITNOT ty a) = True"
| "typed_stmt cx ft (ND_ADDR ty a) = True"
| "typed_stmt cx ft (ND_DEREF ty a) = True"
| "typed_stmt cx ft (ND_CAST ty a) = True"
| "typed_stmt cx ft (ND_LOGAND ty a b) = True"
| "typed_stmt cx ft (ND_LOGOR ty a b) = True"
| "typed_stmt cx ft (ND_COMMA ty a b) = True"
| "typed_stmt cx ft (ND_ASSIGN ty a b) = True"
| "typed_stmt cx ft (ND_COND ty c a b) = True"
| "typed_stmt cx ft (ND_MEMBER ty a m) = True"
| "typed_stmt cx ft (ND_VAR ty v) = True"
| "typed_stmt cx ft (ND_MEMZERO i) = True"
| "typed_stmt cx ft (ND_FUNCALL ty f g args r) = True"
| "typed_stmt cx ft (ND_STMT_EXPR ty body) = True"
| "typed_stmt cx ft (ND_LABEL_VAL ty) = True"
| "typed_stmt cx ft (ND_CAS ty a b c) = True"
| "typed_stmt cx ft (ND_EXCH ty a b) = True"
| "typed_stmt cx ft (ND_VLA_PTR ty v) = True"

text \<open>What the environment of one function adds: its parameters and its return value.\<close>

definition return_env :: "cctx \<Rightarrow> fenv \<Rightarrow> bool" where
  "return_env cx ft \<longleftrightarrow> (is_struct (cx_return_ty cx) \<longrightarrow> fe_params ft \<noteq> [] \<and> hd (fe_params ft) = VC_I32)"

lemma has_local_param: "i < length (fe_params ft) \<Longrightarrow> fe_params ft ! i = c \<Longrightarrow> has_local cx ft i c"
  by (auto simp: has_local_def env_ok_def)

lemma has_local_rv: "result_of (cx_return_ty cx) \<noteq> VC_NONE \<Longrightarrow> has_local cx ft (loc_rv cx) (result_of (cx_return_ty cx))"
  by (auto simp: has_local_def env_ok_def loc_rv_def)

lemma ex_typed:
  "typed cx ft n \<Longrightarrow> ex_spec cx ft True 0 (gen_expr cx n) st (of_class (vclass (node_ty n)) @ st)"
  using compilesD(1) [OF all_compile, of cx ft n "nest n" True st]
  by (auto simp: typed_def gen_expr_def ex_spec_def)

lemma ex_value:
  "value_ok cx ft n \<Longrightarrow> ex_spec cx ft True 0 (gen_expr cx n) st (vclass (node_ty n) # st)"
  using ex_typed [of cx ft n st] by (simp add: value_ok_def has_value_def)

lemma ex_gen_cond: "value_ok cx ft n \<Longrightarrow> ex_spec cx ft True 0 (gen_cond cx n) st (VC_I32 # st)"
  unfolding gen_cond_def by (rule ex_cond_of [OF ex_value]) (simp_all add: value_ok_def)

lemma ex_dropped: "typed cx ft n \<Longrightarrow> ex_spec cx ft True 0 (emit [gen_expr cx n, drop_value n]) st st"
  by (rule ex_Cons [OF ex_typed ex_Cons [OF ex_drop_value ex_Nil]])

lemma stmt_return:
  assumes ok: "return_ok cx ft r" and env: "return_env cx ft"
  shows "stmt_spec cx ft (gen_return cx r)"
proof (cases r)
  case None
  then show ?thesis
    unfolding gen_return_def by (simp add: emit_Cons_fun del: emit.simps) (rule stmt_br)
next
  case (Some e)
  then have v: "value_ok cx ft e" using ok by (simp add: return_ok_def)
  then obtain t where t: "node_ty e = Some t" "vclass (Some t) \<noteq> VC_NONE"
    using has_value_ty by (auto simp: value_ok_def)
  have "ex_spec cx ft True 0 (if is_struct t
       then emit [op_u OP_LOCAL_GET 0, gen_expr cx e, i32c (ty_size t), memory_copy]
       else emit [gen_expr_as cx e (vclass (Some (cx_return_ty cx))), op_u OP_LOCAL_SET (loc_rv cx)]) [] []"
  proof (cases "is_struct t")
    case True
    then have l: "has_local cx ft 0 VC_I32" and c: "vclass (node_ty e) = VC_I32"
      using ok env t Some has_local_param [of 0 ft VC_I32 cx]
      by (auto simp: return_ok_def return_env_def vclass_struct hd_conv_nth)
    show ?thesis
      unfolding if_P [OF True]
      by (rule ex_Cons [OF ex_locals(1) [OF l] ex_Cons [OF ex_value [OF v, unfolded c]
            ex_Cons [OF ex_i32c ex_Cons [OF ex_memory_copy ex_Nil]]]])
  next
    case False
    then have c: "vclass (Some (cx_return_ty cx)) \<noteq> VC_NONE"
      and l: "has_local cx ft (loc_rv cx) (vclass (Some (cx_return_ty cx)))"
      using ok t Some has_local_rv [of cx ft] False by (auto simp: return_ok_def result_of_def)
    show ?thesis
      unfolding if_not_P [OF False] gen_expr_as_def
      by (rule ex_Cons [OF ex_gen_as [OF ex_value [OF v] _ c] ex_Cons [OF ex_locals(2) [OF l] ex_Nil]])
        (use v in \<open>simp add: value_ok_def\<close>)
  qed
  then show ?thesis
    unfolding gen_return_def Some option.case on_ty_def t(1)
    by (rule stmt_Cons [OF stmt_ex]) (rule stmt_emit, simp add: stmt_br)
qed

theorem stmt_valid: "return_env cx ft \<Longrightarrow> typed_stmt cx ft n \<Longrightarrow> stmt_spec cx ft (gen_stmt cx n)"
proof (induction n rule: node.induct)
  case (ND_BLOCK body)
  then show ?case by (auto simp: list_all_iff intro!: stmt_emit)
next
  case (ND_EXPR_STMT a)
  then show ?case using stmt_ex [OF ex_dropped] by (simp del: emit.simps)
next
  case (ND_IF c a b)
  then show ?case
    using stmt_if [OF ex_gen_cond ND_IF.IH(2), of c "map_option (gen_stmt cx) b"]
    by (auto simp del: emit.simps split: option.splits)
next
  case (ND_FOR i c n a brk cont)
  have 1: "stmt_spec cx ft (opt (map_option (gen_stmt cx) i))"
    using ND_FOR by (cases i) (auto simp: opt_def stmt_Val)
  have 2: "ex_spec cx ft True 0 (case n of None \<Rightarrow> Val | Some n \<Rightarrow> emit [gen_expr cx n, drop_value n]) [] []"
    using ND_FOR ex_dropped by (auto simp: ex_Val simp del: emit.simps split: option.splits)
  have 3: "ex_spec cx ft True 0 g [] [VC_I32]" if "map_option (gen_cond cx) c = Some g" for g
    using ND_FOR that ex_gen_cond by auto
  have a: "stmt_spec cx ft (gen_stmt cx a)" using ND_FOR by simp
  show ?case
    using stmt_for [OF 1 a 2, of "map_option (gen_cond cx) c", where brk = brk and cont = cont] 3
    by (cases c) (simp_all del: emit.simps)
next
  case (ND_DO a c brk cont)
  then show ?case using stmt_do [OF ND_DO.IH(1) ex_gen_cond] by (simp del: emit.simps)
next
  case (ND_SWITCH c a cs d brk)
  then have "ex_spec cx ft True 0 (gen_expr cx c) [] [vclass (node_ty c)]"
    using ex_typed [of cx ft c "[]"] by auto
  with ND_SWITCH show ?case by (simp add: stmt_switch)
next
  case (ND_CASE l a)
  then show ?case by (simp del: emit.simps) (intro stmt_Cons stmt_close stmt_emit, simp)
next
  case (ND_LABEL l a)
  then show ?case by (simp del: emit.simps) (intro stmt_Cons stmt_close stmt_emit, simp)
qed (simp_all add: stmt_Stop stmt_br stmt_return)

section \<open>Whole functions\<close>

text \<open>The classes of a function's locals: parameters, scratch locals, return value.\<close>

definition param_classes :: "Obj \<Rightarrow> vclass list" where
  "param_classes fn = map (\<lambda>p. vclass (Some (l_ty (o_locals fn ! p)))) (o_params fn)
     @ (if is_variadic (o_fty fn) then [VC_I32] else [])"

definition local_classes :: "Obj \<Rightarrow> vclass list" where
  "local_classes fn = param_classes fn @ [VC_I32, VC_I32, VC_I32, VC_I64, VC_F32, VC_F64]
     @ of_class (result_class (o_fty fn))"

definition fn_env :: "Obj \<Rightarrow> (nat \<Rightarrow> (vclass list \<times> vclass list) option) \<Rightarrow> u8 list list \<Rightarrow> wenv" where
  "fn_env fn funcs tys = \<lparr>we_locals = (\<lambda>i. if i < length (local_classes fn) then Some (local_classes fn ! i) else None),
     we_funcs = funcs, we_types = tys\<rparr>"

definition fn_ok :: "cctx \<Rightarrow> fenv \<Rightarrow> Obj \<Rightarrow> bool" where
  "fn_ok cx ft fn \<longleftrightarrow>
     fe_params ft = param_classes fn \<and> length (param_classes fn) < 2 ^ 32
   \<and> list_all (\<lambda>p. is_struct (l_ty (o_locals fn ! p)) \<or> mem_ty (l_ty (o_locals fn ! p))) (o_params fn)
   \<and> (is_struct (return_ty (o_fty fn)) \<longrightarrow> fe_params ft \<noteq> [] \<and> hd (fe_params ft) = VC_I32)
   \<and> typed_stmt cx ft (o_body fn)"

definition funcs_ok :: "cctx \<Rightarrow> fenv \<Rightarrow> (nat \<Rightarrow> (vclass list \<times> vclass list) option) \<Rightarrow> bool" where
  "funcs_ok cx ft funcs \<longleftrightarrow> (\<forall>i sig. funcs i = Some sig \<longrightarrow> i < 2 ^ 64)
   \<and> (\<forall>name i. cx_func_index cx name = Some i \<longrightarrow>
        funcs i = Some (sig_params (fe_type ft i), sig_results (fe_type ft i)))"

lemma env_ok_fn:
  assumes "fn_ok cx ft fn" "funcs_ok cx ft funcs" "length tys < 2 ^ 64"
    and "cx = fn_ctx cx0 fn offs fsz"
  shows "env_ok cx ft (fn_env fn funcs tys)"
proof -
  let ?n = "length (o_params fn) + (if is_variadic (o_fty fn) then 1 else 0)"
  have fp: "cx_loc_fp cx = length (param_classes fn)" and ret: "cx_return_ty cx = return_ty (o_fty fn)"
    by (simp_all add: assms(4) fn_ctx_def param_classes_def)
  have len: "length (local_classes fn) \<le> length (param_classes fn) + 7"
    by (simp add: local_classes_def of_class_def)
  show ?thesis
    using assms(1-3) len
    by (auto simp: env_ok_def fn_ok_def funcs_ok_def fn_env_def fp ret local_classes_def nth_append nth_Cons'
        result_class_of of_class_def)
qed

lemma ex_spills:
  assumes "\<And>i p. (i, p) \<in> set ips \<Longrightarrow> has_local cx ft i (vclass (Some (l_ty (cx_local cx p))))
      \<and> (is_struct (l_ty (cx_local cx p)) \<or> mem_ty (l_ty (cx_local cx p)))"
  shows "ex_spec cx ft A d (emit (map (spill_param cx) ips)) st st"
  using assms
proof (induction ips)
  case (Cons x ips)
  obtain i p where x: "x = (i, p)" by (cases x)
  let ?t = "l_ty (cx_local cx p)"
  have l: "has_local cx ft i (vclass (Some ?t))" and t: "is_struct ?t \<or> mem_ty ?t" using Cons.prems x by auto
  have "ex_spec cx ft A d (spill_param cx (i, p)) st st"
  proof (cases "is_struct ?t")
    case True
    show ?thesis
      unfolding spill_param_def prod.case if_P [OF True]
      by (rule ex_Cons [OF ex_fp_plus ex_Cons [OF ex_locals(1) [OF l [unfolded vclass_struct [OF True]]]
            ex_Cons [OF ex_i32c ex_Cons [OF ex_memory_copy ex_Nil]]]])
  next
    case False
    with t have m: "mem_ty ?t" by simp
    show ?thesis
      unfolding spill_param_def prod.case if_not_P [OF False]
      by (rule ex_Cons [OF ex_fp_plus ex_Cons [OF ex_locals(1) [OF l] ex_Cons [OF ex_store [OF m] ex_Nil]]])
  qed
  then show ?case
    unfolding x list.map using Cons.IH Cons.prems by (intro ex_Cons) auto
qed (simp add: ex_Val)

lemma ex_prologue: "ex_spec cx ft A d (prologue cx) st st"
  unfolding prologue_def by (rule ex_if ex_Cons ex_intros)+

lemma hoare_epilogue:
  assumes "rc = VC_NONE \<or> has_local cx ft (loc_rv cx) rc"
  shows "hoare cx ft True (at_stk [] (of_class rc) []) (epilogue cx rc) (\<lambda>s c. c = [])"
proof -
  have body: "ex_spec cx ft True 0 (emit [op_u OP_LOCAL_GET (cx_loc_fp cx),
      if cx_frame_size cx \<noteq> 0 then emit [i32c (cx_frame_size cx), op OP_I32_ADD] else Val,
      op_u OP_GLOBAL_SET 0, if rc \<noteq> VC_NONE then op_u OP_LOCAL_GET (loc_rv cx) else Val]) [] (of_class rc)"
  proof (cases "rc = VC_NONE")
    case True
    then show ?thesis by (simp only: simp_thms if_False of_class_simps) (rule ex_if ex_Cons ex_intros)+
  next
    case False
    then have "has_local cx ft (loc_rv cx) rc" using assms by simp
    with False show ?thesis
      by (simp only: simp_thms if_True of_class_simps) (rule ex_if ex_Cons ex_intros | assumption)+
  qed
  have fin: "hoare cx ft True (at_stk [] (of_class rc) (of_class rc)) (op OP_END) (\<lambda>s c. c = [])"
    unfolding op_eq
    by (rule hoare_put [where bs = "[0x0B]" and T = "\<lambda>_. []"])
      (auto simp: at_stk_def frames_of_def intro!: vruns_single v_end_function)
  have e: "epilogue cx rc = emit [emit [op_u OP_LOCAL_GET (cx_loc_fp cx),
      if cx_frame_size cx \<noteq> 0 then emit [i32c (cx_frame_size cx), op OP_I32_ADD] else Val,
      op_u OP_GLOBAL_SET 0, if rc \<noteq> VC_NONE then op_u OP_LOCAL_GET (loc_rv cx) else Val], op OP_END]"
    unfolding epilogue_def by (simp only: emit_Cons_fun res_bind_assoc emit_Nil res_bind.simps)
  show ?thesis unfolding e by (rule stk_emit2 [OF stk_ex [OF body] fin])
qed

lemma hoare_balanced:
  "hoare cx ft True (\<lambda>s c. \<exists>zs'. closes zs zs' \<and> at_stk zs' rs [] s c)
    (emit [(\<lambda>s. if length (cg_ctl s) \<noteq> 1 then Stop msg else Val s), end_blk]) (at_stk [] rs [])"
proof (intro hoare_exP hoare_conjP)
  fix zs' :: "open_block list"
  show "hoare cx ft True (at_stk zs' rs []) (emit [(\<lambda>s. if length (cg_ctl s) \<noteq> 1 then Stop msg else Val s), end_blk])
      (at_stk [] rs [])"
  proof (cases "length zs' = 1")
    case True
    then obtain z where z: "zs' = [z]" by (cases zs') auto
    show ?thesis
      unfolding z by (rule hoare_cong [OF hoare_end_blk]) (simp add: at_stk_def)
  next
    case False
    then show ?thesis by (intro hoare_cong [OF hoare_stop]) (auto simp: at_stk_def)
  qed
qed

lemma hoare_function_code:
  assumes ok: "fn_ok cx ft fn" and cx: "cx = fn_ctx cx0 fn offs fsz"
  shows "hoare cx ft True (at_stk [] (sig_results (o_fty fn)) []) (function_code cx fn) (\<lambda>s c. c = [])"
proof -
  let ?rs = "sig_results (o_fty fn)" and ?ls = "top_labels (o_body fn)"
  have par: "fe_params ft = param_classes fn" and ret: "cx_return_ty cx = return_ty (o_fty fn)"
    and loc: "cx_local cx = (\<lambda>i. o_locals fn ! i)"
    using ok by (simp_all add: fn_ok_def cx fn_ctx_def)
  have env: "return_env cx ft" using ok by (auto simp: return_env_def ret fn_ok_def)
  have spills: "ex_spec cx ft True 0 (emit (map (spill_param cx) (enumerate 0 (o_params fn)))) [] []"
  proof (rule ex_spills)
    fix i p assume "(i, p) \<in> set (enumerate 0 (o_params fn))"
    then have ip: "i < length (o_params fn)" "o_params fn ! i = p" by (auto simp: in_set_enumerate_eq)
    then have "fe_params ft ! i = vclass (Some (l_ty (cx_local cx p)))" "i < length (fe_params ft)"
      by (auto simp: par param_classes_def loc nth_append)
    moreover have "is_struct (l_ty (cx_local cx p)) \<or> mem_ty (l_ty (cx_local cx p))"
      using ok ip by (auto simp: fn_ok_def loc list_all_length)
    ultimately show "has_local cx ft i (vclass (Some (l_ty (cx_local cx p))))
        \<and> (is_struct (l_ty (cx_local cx p)) \<or> mem_ty (l_ty (cx_local cx p)))"
      using has_local_param by blast
  qed
  have va: "ex_spec cx ft True 0 (if is_variadic (o_fty fn)
      then emit [fp_plus cx (cx_offset cx (va_area fn)), op_u OP_LOCAL_GET (length (o_params fn)), memarg OP_I32_STORE 2]
      else Val) [] []"
  proof (rule ex_if [OF _ ex_Val])
    assume "is_variadic (o_fty fn)"
    then have "has_local cx ft (length (o_params fn)) VC_I32"
      by (intro has_local_param) (simp_all add: par param_classes_def nth_append)
    then show "ex_spec cx ft True 0 (emit [fp_plus cx (cx_offset cx (va_area fn)),
        op_u OP_LOCAL_GET (length (o_params fn)), memarg OP_I32_STORE 2]) [] []"
      by (rule ex_Cons [OF ex_fp_plus ex_Cons [OF ex_locals(1) ex_Cons [OF ex_memargs(9) ex_Nil]]])
  qed
  have body: "stmt_spec cx ft (gen_stmt cx (o_body fn))"
    using ok by (intro stmt_valid [OF env]) (simp add: fn_ok_def)
  have epi: "hoare cx ft True (at_stk [] ?rs []) (epilogue cx (result_class (o_fty fn))) (\<lambda>s c. c = [])"
    unfolding sig_results_def
    by (rule hoare_epilogue) (use has_local_rv [of cx ft] in \<open>auto simp: result_class_of ret\<close>)
  have e: "function_code cx fn = emit [prologue cx, emit (map (spill_param cx) (enumerate 0 (o_params fn))),
       if is_variadic (o_fty fn)
       then emit [fp_plus cx (cx_offset cx (va_area fn)), op_u OP_LOCAL_GET (length (o_params fn)), memarg OP_I32_STORE 2]
       else Val,
       if length ?ls > 256 then error ''too many labels'' else Val,
       block (Some RET_LABEL) 0x40, emit (map (\<lambda>l. block (Some l) 0x40) (rev ?ls)),
       gen_stmt cx (o_body fn),
       emit [(\<lambda>s. if length (cg_ctl s) \<noteq> 1 then Stop ''internal error: unbalanced control stack'' else Val s), end_blk],
       epilogue cx (result_class (o_fty fn))]"
    unfolding function_code_def by (simp only: emit_Cons_fun res_bind_assoc emit_Nil res_bind.simps)
  have tail: "hoare cx ft True (at_stk (ys @ [((Some RET_LABEL, i), K_BLOCK)]) ?rs [])
      (emit [gen_stmt cx (o_body fn),
        emit [(\<lambda>s. if length (cg_ctl s) \<noteq> 1 then Stop ''internal error: unbalanced control stack'' else Val s), end_blk],
        epilogue cx (result_class (o_fty fn))]) (\<lambda>s c. c = [])" for ys i
    by (rule hoare_emit_Cons [OF stmt_specD [OF body] stk_emit2 [OF hoare_balanced epi]])
  show ?thesis
    unfolding e
    by (rule hoare_emit_Cons [OF stk_ex [OF ex_prologue] hoare_emit_Cons [OF stk_ex [OF spills]
          hoare_emit_Cons [OF stk_ex [OF va] hoare_emit_Cons [OF stk_ex [OF ex_few] hoare_emit_Cons [OF stk_block hoare_exP]]]]])
      (intro hoare_emit_Cons [OF stk_blocks] hoare_exP hoare_conjP tail)
qed

end
