(* ===== verification/Codegen_Correct.thy ===== *)
theory Codegen_Correct
  imports Codegen_Stmt
begin

text \<open>
  What the backend's code generator guarantees: typed expressions always compile, to code that leaves their
  value on the stack; a function it accepts has a body that validates against its declared signature.
  The examples at the end compile \<^verbatim>\<open>int f(int n) { int s = 0; for (; n; n = n - 1) s = s + n; return s; }\<close>.
\<close>

section \<open>Expressions\<close>

text \<open>
  C8. A typed expression whose conditionals nest within the generator's 512 control blocks always compiles:
  the generator returns, keeps the open blocks, and the bytes it appends take any operand stack to the same
  stack with the expression's value on top (nothing for a void one), in every environment that has the
  function's locals, the numbered functions and the types collected so far.
\<close>

theorem gen_expr_valid:
  assumes "typed cx ft n" and "length (cg_ctl s) + nest n \<le> 512"
  shows "\<exists>s' bs. gen_expr cx n s = Val s' \<and> buf_data (cg_code s') = buf_data (cg_code s) @ bs
    \<and> cg_ctl s' = cg_ctl s \<and> types_ext (cg_types s) (cg_types s')
    \<and> (\<forall>E k l r st fs. env_ok cx ft E \<longrightarrow> prefix (cg_types s') (we_types E) \<longrightarrow>
         vruns E bs (Frame k l r st # fs) (Frame k l r (of_class (vclass (node_ty n)) @ st) # fs))"
proof -
  have ex: "ex_spec cx ft False (nest n) (gen_expr cx n) st (of_class (vclass (node_ty n)) @ st)" for st
    unfolding gen_expr_def using compilesD(1) [OF all_compile] assms(1) by (simp add: typed_def)
  have h: "hoare cx ft False (at_frame (cg_ctl s) k l r st fs) (gen_expr cx n)
      (at_frame (cg_ctl s) k l r (of_class (vclass (node_ty n)) @ st) fs)" for k l r st fs
    by (rule ex_specD [OF ex]) (use assms(2) in simp)
  have at: "at_frame (cg_ctl s) k l r st fs s (Frame k l r st # fs)" for k l r st fs
    by (simp add: at_frame_def)
  obtain s' where s': "gen_expr cx n s = Val s'"
    using hoare_Stop [OF h at] hoare_Unsafe [OF h at] by (cases "gen_expr cx n s") auto
  note D = hoareD [OF h at s', unfolded at_frame_def]
  obtain bs where bs: "code_of s' = code_of s @ bs"
    and keep: "cg_ctl s' = cg_ctl s" "types_ext (cg_types s) (cg_types s')"
    by (rule D [of K_FUNC "[]" "[]" "[]" "[]"]) blast
  have "vruns E bs (Frame k l r st # fs) (Frame k l r (of_class (vclass (node_ty n)) @ st) # fs)"
    if "env_ok cx ft E" "prefix (cg_types s') (we_types E)" for E k l r st fs
    by (rule D [of k l r st fs]) (use that bs in auto)
  with s' bs keep show ?thesis by (auto simp: code_of_def)
qed

section \<open>Functions\<close>

lemma function_bytes:
  assumes "gen_function cx0 fn (s, out) = Val (s', out')"
    and "assign_lvar_offsets (o_locals fn) 0 = Val (offs, fsz)"
  shows "function_code (fn_ctx cx0 fn offs fsz) fn (s\<lparr>cg_code := (cg_code s)\<lparr>buf_data := []\<rparr>, cg_ctl := []\<rparr>) = Val s'"
    and "out' = buf_buf (buf_uleb out (of_nat (length (buf_data (buf_buf (function_locals (result_class (o_fty fn))) (cg_code s'))))))
      (buf_buf (function_locals (result_class (o_fty fn))) (cg_code s'))"
  using assms by (auto simp: gen_function_def Let_def res_simps)

lemma gen_function_valid_in:
  assumes "gen_function cx0 fn (s, out) = Val (s', out')"
    and "assign_lvar_offsets (o_locals fn) 0 = Val (offs, fsz)"
    and "fn_ok (fn_ctx cx0 fn offs fsz) ft fn" and "funcs_ok (fn_ctx cx0 fn offs fsz) ft funcs"
    and "prefix (cg_types s') tys" and "length tys < 2 ^ 64"
  shows "valid_body (fn_env fn funcs tys) (buf_data (cg_code s')) (sig_results (o_fty fn))"
proof -
  let ?cx = "fn_ctx cx0 fn offs fsz" and ?s = "s\<lparr>cg_code := (cg_code s)\<lparr>buf_data := []\<rparr>, cg_ctl := []\<rparr>"
  let ?rs = "sig_results (o_fty fn)"
  have h: "hoare ?cx ft True (at_stk [] ?rs []) (function_code ?cx fn) (\<lambda>s c. c = [])"
    by (rule hoare_function_code [OF assms(3) refl])
  have at: "at_stk [] ?rs [] ?s [Frame K_FUNC ?rs ?rs []]"
    by (simp add: at_stk_def frames_of_def block_ids_def)
  from hoareD [OF h at function_bytes(1) [OF assms(1,2)]]
  have "vruns E (code_of s') [Frame K_FUNC ?rs ?rs []] []"
    if "env_ok ?cx ft E" "prefix (cg_types s') (we_types E)" for E
    using that by (auto simp: code_of_def)
  moreover have "env_ok ?cx ft (fn_env fn funcs tys)"
    by (rule env_ok_fn [OF assms(3,4,6) refl])
  ultimately show ?thesis
    using assms(5) by (simp add: valid_body_def code_of_def fn_env_def)
qed

text \<open>
  C7. A function body that the generator accepts validates: run from an empty stack, with the parameters,
  the scratch locals and the return value as locals, the code appended for a function whose statements and
  parameters are typed ends exactly with its result (none for a structure or void), for any module whose
  types extend those collected and whose functions have the signatures the calls were typed with.
\<close>

theorem gen_function_valid:
  assumes "gen_function cx0 fn (s, out) = Val (s', out')"
    and "assign_lvar_offsets (o_locals fn) 0 = Val (offs, fsz)"
    and "fn_ok (fn_ctx cx0 fn offs fsz) ft fn" and "funcs_ok (fn_ctx cx0 fn offs fsz) ft funcs"
    and "prefix (cg_types s') tys" and "length tys < 2 ^ 64"
  shows "valid_body (fn_env fn funcs tys) (buf_data (cg_code s')) (sig_results (o_fty fn))"
  by (rule gen_function_valid_in [OF assms])

section \<open>Examples\<close>

definition ex_n :: node where "ex_n = ND_VAR (Some ty_int) (Local 0)"
definition ex_s :: node where "ex_s = ND_VAR (Some ty_int) (Local 1)"
definition ex_int :: "int \<Rightarrow> node" where "ex_int v = ND_NUM (Some ty_int) v (0, 0)"

definition ex_body :: node where
  "ex_body = ND_BLOCK
     [ND_EXPR_STMT (ND_ASSIGN (Some ty_int) ex_s (ex_int 0)),
      ND_FOR None (Some ex_n) (Some (ND_ASSIGN (Some ty_int) ex_n (ND_BINARY ND_SUB (Some ty_int) ex_n (ex_int 1))))
        (ND_EXPR_STMT (ND_ASSIGN (Some ty_int) ex_s (ND_BINARY ND_ADD (Some ty_int) ex_s ex_n)))
        ''brk'' ''cont'',
      ND_RETURN (Some ex_s)]"

definition ex_fun :: Obj where
  "ex_fun = \<lparr>o_name = str ''f'', o_ty = FuncType (Func ty_int [ty_int] False), o_align = 1, is_function = True,
     is_definition = True, is_tls = False, init_data = None, o_rel = [],
     o_fty = Func ty_int [ty_int] False, o_params = [0], o_body = ex_body,
     o_locals = [\<lparr>l_ty = ty_int, l_align = 4\<rparr>, \<lparr>l_ty = ty_int, l_align = 4\<rparr>], va_area = 0\<rparr>"

definition ex_cx :: cctx where
  "ex_cx = \<lparr>cx_obj = (\<lambda>_. ex_fun), cx_local = (\<lambda>_. \<lparr>l_ty = ty_int, l_align = 4\<rparr>), cx_offset = (\<lambda>_. 0),
     cx_func_index = Map.empty, cx_global_def = Map.empty, cx_heap_base = 65536, cx_return_ty = ty_int,
     cx_loc_fp = 1, cx_frame_size = 16\<rparr>"

definition ex_state :: cg where
  "ex_state = \<lparr>cg_code = empty_buf, cg_ctl = [], ctl_id_counter = 0, cg_types = []\<rparr>"

definition ex_fenv :: fenv where
  "ex_fenv = \<lparr>fe_type = (\<lambda>_. Func ty_int [ty_int] False), fe_params = [VC_I32]\<rparr>"

lemma ex_int_type [simp]:
  "is_struct ty_int = False" "vclass (Some ty_int) = VC_I32" "ty_kind ty_int = TY_INT" "ty_size ty_int = 4"
  "is_unsigned ty_int = False" "is_flonum ty_int = False" "is_integer ty_int = True"
  by code_simp+

lemmas ex_defs = ex_fun_def ex_body_def ex_n_def ex_s_def ex_int_def ex_cx_def ex_fenv_def ex_state_def

lemma ex_fn_ok: "fn_ok (fn_ctx ex_cx ex_fun [0, 4] 16) ex_fenv ex_fun"
  by (simp add: ex_defs fn_ok_def param_classes_def typed_def mem_ty_def load_ok_def value_ok_def var_ok_def
      ty_load_ok_def has_value_def int64_def is_bitfield_member_def binary_ok_def return_ok_def fn_ctx_def
      is_comparison_def)

lemma ex_funcs_ok: "funcs_ok (fn_ctx ex_cx ex_fun [0, 4] 16) ex_fenv Map.empty"
  by (simp add: funcs_ok_def fn_ctx_def ex_cx_def)

lemma ex_offsets: "assign_lvar_offsets (o_locals ex_fun) 0 = Val ([0, 4], 16)"
  by code_simp

lemmas emitter_defs = prologue_def spill_param_def epilogue_def fp_plus_def add_offset_def op_eq byte_def put_def
  op_u_def i32c_def store_def load_def memarg_def op_scratch_def block_def push_ctl_def end_blk_def pop_ctl_def
  loop_def br_label_def br_id_def convert_def drop_value_def

lemma ex_compiles:
  "\<exists>s' out'. gen_function ex_cx ex_fun (ex_state, empty_buf) = Val (s', out') \<and> cg_types s' = []"
  by (simp add: ex_defs emitter_defs gen_function_def function_code_def fn_ctx_def top_labels_def result_class_def
      gen_expr_def gen_cond_def cond_of_def opt_def gen_return_def gen_expr_as_def gen_as_def on_ty_def
      gen_assign_def gen_binary_def gen_num_def addr_var_def load_ty_def is_comparison_def
      enumerate_eq_zip RET_LABEL_def is_bitfield_member_def loc_rv_def Let_def align_int_def int_ok_def)

lemma gen_expr_valid_witness:
  "\<exists>s' bs. gen_expr (fn_ctx ex_cx ex_fun [0, 4] 16) (ND_COND (Some ty_int) ex_n ex_s (ex_int 1)) ex_state = Val s'
    \<and> buf_data (cg_code s') = bs
    \<and> vruns (fn_env ex_fun Map.empty []) bs [Frame K_FUNC [] [] []] [Frame K_FUNC [] [] [VC_I32]]"
proof -
  have t: "typed (fn_ctx ex_cx ex_fun [0, 4] 16) ex_fenv (ND_COND (Some ty_int) ex_n ex_s (ex_int 1))"
    by (simp add: ex_defs typed_def load_ok_def mem_ty_def var_ok_def ty_load_ok_def has_value_def int64_def fn_ctx_def Let_def)
  have n: "length (cg_ctl ex_state) + nest (ND_COND (Some ty_int) ex_n ex_s (ex_int 1)) \<le> 512"
    by (simp add: ex_defs)
  have env: "env_ok (fn_ctx ex_cx ex_fun [0, 4] 16) ex_fenv (fn_env ex_fun Map.empty [])"
    by (rule env_ok_fn [OF ex_fn_ok ex_funcs_ok _ refl]) simp
  have "\<exists>s'. gen_expr (fn_ctx ex_cx ex_fun [0, 4] 16) (ND_COND (Some ty_int) ex_n ex_s (ex_int 1)) ex_state = Val s'
      \<and> cg_types s' = []"
    by (simp add: ex_fun_def ex_n_def ex_s_def ex_int_def ex_cx_def ex_state_def emitter_defs gen_expr_def
        gen_cond_expr_def cond_of_def fn_ctx_def if_blk_def gen_as_def on_ty_def gen_num_def addr_var_def load_ty_def Let_def)
  with gen_expr_valid [OF t n] obtain s' bs where s': "cg_types s' = []"
    "gen_expr (fn_ctx ex_cx ex_fun [0, 4] 16) (ND_COND (Some ty_int) ex_n ex_s (ex_int 1)) ex_state = Val s'"
    "buf_data (cg_code s') = buf_data (cg_code ex_state) @ bs"
    "\<And>E k l r st fs. env_ok (fn_ctx ex_cx ex_fun [0, 4] 16) ex_fenv E \<Longrightarrow> prefix (cg_types s') (we_types E) \<Longrightarrow>
       vruns E bs (Frame k l r st # fs)
         (Frame k l r (of_class (vclass (node_ty (ND_COND (Some ty_int) ex_n ex_s (ex_int 1)))) @ st) # fs)"
    by auto
  from s'(4) [OF env, of K_FUNC "[]" "[]" "[]" "[]"] s'(1-3) show ?thesis
    by (simp add: ex_state_def empty_buf_def)
qed

lemma gen_function_valid_witness:
  "\<exists>s' out'. gen_function ex_cx ex_fun (ex_state, empty_buf) = Val (s', out')
    \<and> valid_body (fn_env ex_fun Map.empty []) (buf_data (cg_code s')) [VC_I32]"
proof -
  obtain s' out' where g: "gen_function ex_cx ex_fun (ex_state, empty_buf) = Val (s', out')" "cg_types s' = []"
    using ex_compiles by blast
  have "valid_body (fn_env ex_fun Map.empty []) (buf_data (cg_code s')) (sig_results (o_fty ex_fun))"
    by (rule gen_function_valid [OF g(1) ex_offsets ex_fn_ok ex_funcs_ok]) (simp_all add: g(2))
  moreover have "sig_results (o_fty ex_fun) = [VC_I32]"
    by (simp add: sig_results_def result_class_def ex_fun_def)
  ultimately show ?thesis using g(1) by auto
qed

end
