(* ===== verification/Compile_Read.thy ===== *)
theory Compile_Read
  imports Emit_Read Codegen_Correct
begin

text \<open>
  The compiler's output, read by the translator: the module that \<open>wasmModuleRead\<close> builds from the bytes
  \<open>codegen\<close> writes has the imports, functions, signatures, code and data of the program, and its function
  bodies validate in it. First the sections for parts that are already encoded, then the whole compiler.
\<close>

section \<open>The bytes of a module\<close>

definition raw_section :: "u8 \<Rightarrow> u8 list \<Rightarrow> u8 list" where
  "raw_section i c = i # uleb_bytes (unat (of_nat (length c) :: u64)) @ c"

lemma buf_section_raw:
  "buf_data (buf_section out i c) = buf_data out @ raw_section (word_of_int i) (buf_data c)"
  by (simp add: buf_section_def buf_buf_def buf_uleb_data raw_section_def)

lemma raw_section_bytes: "length c < 2 ^ 64 \<Longrightarrow> raw_section i c = section_bytes i c"
  by (simp add: raw_section_def section_bytes_def unat_of_nat)

lemma length_raw_section: "length c \<le> length (raw_section i c)"
  by (simp add: raw_section_def)

lemma buf_name_enc: "length s < 2 ^ 64 \<Longrightarrow> buf_data (buf_name b s) = buf_data b @ enc_name s"
  by (simp add: buf_name_def buf_uleb_data enc_name_def unat_of_nat)

lemma fold_uleb_data:
  "buf_data (fold (\<lambda>i s. buf_uleb s (of_nat i)) is b)
   = buf_data b @ concat (map (\<lambda>i. uleb_bytes (unat (of_nat i :: u64))) is)"
  by (induction "is" arbitrary: b) (simp_all add: buf_uleb_data)

text \<open>What the parts stand for.\<close>

record contents =
  ct_types :: "WasmFunctionType list"
  ct_imports :: "WasmFunctionImport list"
  ct_indices :: "u32 list"
  ct_bodies :: "(WasmLocalsDeclaration list \<times> u8 list) list"

definition encodes :: "parts \<Rightarrow> contents \<Rightarrow> bool" where
  "encodes p c \<longleftrightarrow>
     pt_types p = map enc_functype (ct_types c)
   \<and> pt_nimports p = length (ct_imports c) \<and> buf_data (pt_imports p) = concat (map enc_fimport (ct_imports c))
   \<and> pt_nfuncs p = length (ct_imports c) + length (ct_indices c)
   \<and> buf_data (pt_funcsec p) = concat (map (\<lambda>i. uleb_bytes (unat i)) (ct_indices c))
   \<and> length (ct_bodies c) = length (ct_indices c)
   \<and> buf_data (pt_codesec p) = uleb_bytes (length (ct_bodies c)) @ enc_bodies (ct_bodies c)"

definition module_exports :: "parts \<Rightarrow> WasmExport list" where
  "module_exports p = \<lparr>ex_name = str ''memory'', ex_kind = wasmExportKindMemory, ex_index = 0\<rparr>
     # (case pt_start p of None \<Rightarrow> []
        | Some i \<Rightarrow> [\<lparr>ex_name = str ''_start'', ex_kind = wasmExportKindFunction, ex_index = of_nat i\<rparr>])"

definition min_pages :: "parts \<Rightarrow> int" where
  "min_pages p = (pt_stack_top p + 65535) div 65536"

definition table_limits :: "parts \<Rightarrow> limits" where
  "table_limits p = \<lparr>lim_min = of_nat (pt_nfuncs p + 1), lim_max = of_nat (pt_nfuncs p + 1), lim_shared = False\<rparr>"

definition memory_limits :: "int \<Rightarrow> parts \<Rightarrow> limits" where
  "memory_limits mp p = \<lparr>lim_min = of_int (min_pages p), lim_max = of_int mp, lim_shared = False\<rparr>"

definition stack_global :: "parts \<Rightarrow> WasmGlobal" where
  "stack_global p = \<lparr>g_type = \<lparr>valueType = wasmValueTypeI32, gt_mutable = True\<rparr>, g_init = enc_const (pt_stack_top p)\<rparr>"

definition table_element :: "parts \<Rightarrow> WasmElementSegment" where
  "table_element p = \<lparr>es_tableIndex = 0, es_offset = enc_const 1, es_functionIndices = map of_nat [0..<pt_nfuncs p]\<rparr>"

definition image_data :: "parts \<Rightarrow> WasmDataSegment" where
  "image_data p = \<lparr>ds_memoryIndex = 0, ds_offset = enc_const data_base, ds_bytes = pt_image p, ds_passive = False\<rparr>"

definition plain_sections :: "int \<Rightarrow> parts \<Rightarrow> contents \<Rightarrow> (u8 \<times> u8 list) list" where
  "plain_sections mp p c =
     [(1, enc_vec enc_functype (ct_types c))]
     @ (if ct_imports c \<noteq> [] then [(2, enc_vec enc_fimport (ct_imports c))] else [])
     @ [(3, enc_vec (\<lambda>i. uleb_bytes (unat i)) (ct_indices c)),
        (4, 1 # 0x70 # enc_limits (table_limits p)),
        (5, 1 # enc_limits (memory_limits mp p)),
        (6, 1 # enc_global (stack_global p)),
        (7, enc_vec enc_export (module_exports p)),
        (9, 1 # enc_element (table_element p)),
        (10, uleb_bytes (length (ct_bodies c)) @ enc_bodies (ct_bodies c)),
        (11, 1 # enc_data (image_data p))]"

definition parts_ok :: "int \<Rightarrow> parts \<Rightarrow> bool" where
  "parts_ok mp p \<longleftrightarrow> 0 < mp \<and> mp < 2 ^ 32 \<and> 0 \<le> pt_stack_top p \<and> pt_stack_top p < 2 ^ 31
     \<and> (case pt_start p of None \<Rightarrow> True | Some i \<Rightarrow> i < pt_nfuncs p)"

lemma unat_of_nat_u64: "n < 2 ^ 64 \<Longrightarrow> unat (of_nat n :: u64) = n"
  by (simp add: unat_of_nat)

lemma unat_of_nat_u32: "n < 2 ^ 32 \<Longrightarrow> unat (of_nat n :: u32) = n"
  by (simp add: unat_of_nat)

lemma unat_of_int_u64: "0 \<le> i \<Longrightarrow> i < 2 ^ 64 \<Longrightarrow> unat (of_int i :: u64) = nat i"
  by (simp add: unat_eq_nat_uint uint_word_of_int)

lemma unat_of_int_u32: "0 \<le> i \<Longrightarrow> i < 2 ^ 32 \<Longrightarrow> unat (of_int i :: u32) = nat i"
  by (simp add: unat_eq_nat_uint uint_word_of_int)

lemma uleb_small: "uleb_bytes 0 = [0]" "uleb_bytes (Suc 0) = [1]" "uleb_bytes 2 = [2]"
    "uleb_bytes (Suc (Suc 0)) = [2]"
  by (simp_all add: uleb_bytes.simps)

lemma write_module_raw:
  assumes "write_module mp p = Val out"
  shows "buf_data out = wasmMagic
      @ raw_section 1 (uleb_bytes (unat (of_nat (length (pt_types p)) :: u64)) @ concat (pt_types p))
      @ (if pt_nimports p \<noteq> 0
         then raw_section 2 (uleb_bytes (unat (of_nat (pt_nimports p) :: u64)) @ buf_data (pt_imports p)) else [])
      @ raw_section 3 (uleb_bytes (unat (of_nat (pt_nfuncs p - pt_nimports p) :: u64)) @ buf_data (pt_funcsec p))
      @ raw_section 4 ([1, 0x70, 1] @ uleb_bytes (unat (of_nat (pt_nfuncs p + 1) :: u64))
          @ uleb_bytes (unat (of_nat (pt_nfuncs p + 1) :: u64)))
      @ raw_section 5 ([1, 1] @ uleb_bytes (unat (of_int (min_pages p) :: u64)) @ uleb_bytes (unat (of_int mp :: u64)))
      @ raw_section 6 ([1, 0x7F, 1] @ enc_const (pt_stack_top p))
      @ raw_section 7 (uleb_bytes (if pt_start p \<noteq> None then 2 else 1) @ enc_name (str ''memory'') @ [2, 0]
          @ (case pt_start p of None \<Rightarrow> []
             | Some i \<Rightarrow> enc_name (str ''_start'') @ 0 # uleb_bytes (unat (of_nat i :: u64))))
      @ raw_section 9 ([1, 0] @ enc_const 1 @ uleb_bytes (unat (of_nat (pt_nfuncs p) :: u64))
          @ concat (map (\<lambda>i. uleb_bytes (unat (of_nat i :: u64))) [0..<pt_nfuncs p]))
      @ raw_section 10 (buf_data (pt_codesec p))
      @ raw_section 11 ([1, 0] @ enc_const data_base @ uleb_bytes (unat (of_nat (length (pt_image p)) :: u64)) @ pt_image p)"
    and "min_pages p \<le> mp"
  using assms unfolding atomize_conj
  by (cases "pt_start p"; cases "pt_nimports p = 0")
    (auto simp: write_module_def Let_def min_pages_def [symmetric] buf_section_raw buf_buf_def buf_uleb_data
      buf_sleb_data buf_name_enc fold_uleb_data emit_data_def enc_const_def empty_buf_def wasmMagic_def
      uleb_small str_def split: if_splits)

lemma length_concat_ge: "(\<And>x. f x \<noteq> []) \<Longrightarrow> length xs \<le> length (concat (map f xs))"
proof (induction xs)
  case (Cons x xs)
  have "1 \<le> length (f x)" using Cons.prems [of x] by (cases "f x") auto
  with Cons show ?case by simp
qed simp

text \<open>Every count and size is bounded by the size of the file.\<close>

lemma encodes_bounds:
  assumes e: "encodes p c" and w: "write_module mp p = Val out" and L: "length (buf_data out) < 2 ^ 32"
  shows "length (ct_types c) < 2 ^ 32" "length (ct_imports c) < 2 ^ 32" "pt_nfuncs p < 2 ^ 32 - 1"
    "length (pt_image p) < 2 ^ 32" "length (buf_data (pt_codesec p)) < 2 ^ 32"
proof -
  have "length (ct_types c) \<le> length (concat (map enc_functype (ct_types c)))"
    "length (ct_imports c) \<le> length (concat (map enc_fimport (ct_imports c)))"
    by (rule length_concat_ge, simp add: enc_functype_def enc_fimport_def)+
  moreover have "length [0..<pt_nfuncs p] \<le> length (concat (map (\<lambda>i. uleb_bytes (unat (of_nat i :: u64))) [0..<pt_nfuncs p]))"
    by (rule length_concat_ge) (rule uleb_nonempty(2))
  moreover have "length (buf_data out) \<ge> length (concat (pt_types p)) + (if pt_nimports p \<noteq> 0 then length (buf_data (pt_imports p)) else 0)
      + length (concat (map (\<lambda>i. uleb_bytes (unat (of_nat i :: u64))) [0..<pt_nfuncs p]))
      + length (pt_image p) + length (buf_data (pt_codesec p)) + 8"
    unfolding write_module_raw(1) [OF w] by (simp add: raw_section_def wasmMagic_def)
  ultimately show "length (ct_types c) < 2 ^ 32" "length (ct_imports c) < 2 ^ 32" "pt_nfuncs p < 2 ^ 32 - 1"
      "length (pt_image p) < 2 ^ 32" "length (buf_data (pt_codesec p)) < 2 ^ 32"
    using e L by (auto simp: encodes_def split: if_splits)
qed

lemma write_module_sections:
  assumes e: "encodes p c" and w: "write_module mp p = Val out" and ok: "parts_ok mp p"
    and L: "length (buf_data out) < 2 ^ 32"
  shows "buf_data out = wasmMagic @ concat (map (\<lambda>(i, b). section_bytes i b) (plain_sections mp p c))"
    and "(i, b) \<in> set (plain_sections mp p c) \<Longrightarrow> length b < 2 ^ 32"
proof -
  note B = encodes_bounds [OF e w L]
  have mp: "0 \<le> min_pages p" "min_pages p < 2 ^ 32" "0 \<le> mp" "mp < 2 ^ 32"
    using ok write_module_raw(2) [OF w] by (auto simp: parts_ok_def min_pages_def)
  have n: "unat (of_nat n :: u64) = n" if "n < 2 ^ 32" for n using that by (simp add: unat_of_nat)
  have n32: "unat (of_nat n :: u32) = n" if "n < 2 ^ 32" for n using that by (simp add: unat_of_nat)
  have map_n: "map (\<lambda>i. uleb_bytes (unat (of_nat i :: u64))) [0..<pt_nfuncs p]
      = map (\<lambda>i. uleb_bytes (unat (of_nat i :: u32))) [0..<pt_nfuncs p]"
    using B(3) by (simp add: unat_of_nat)
  have start: "unat (of_nat i :: u64) = unat (of_nat i :: u32)" if "pt_start p = Some i" for i
    using ok B(3) that by (simp add: parts_ok_def unat_of_nat)
  have i64: "unat (of_int k :: u64) = unat (of_int k :: u32)" if "0 \<le> k" "k < 2 ^ 32" for k :: int
    using that by (simp add: unat_of_int_u64 unat_of_int_u32)
  have parts: "pt_types p = map enc_functype (ct_types c)" "pt_nimports p = length (ct_imports c)"
    "buf_data (pt_imports p) = concat (map enc_fimport (ct_imports c))"
    "pt_nfuncs p - pt_nimports p = length (ct_indices c)" "length (ct_indices c) < 2 ^ 32"
    "buf_data (pt_funcsec p) = concat (map (\<lambda>i. uleb_bytes (unat i)) (ct_indices c))"
    "buf_data (pt_codesec p) = uleb_bytes (length (ct_bodies c)) @ enc_bodies (ct_bodies c)"
    using e B(3) by (simp_all add: encodes_def)
  have "buf_data out = wasmMagic @ concat (map (\<lambda>(i, b). raw_section i b) (plain_sections mp p c))"
    unfolding write_module_raw(1) [OF w] plain_sections_def
    using parts B mp start
    by (cases "pt_start p")
      (auto simp: enc_vec_def n n32 map_n i64 table_limits_def memory_limits_def enc_limits_def
        enc_global_def stack_global_def module_exports_def enc_export_def enc_element_def table_element_def comp_def
        enc_data_def image_data_def uleb_small
        simp del: of_nat_add of_nat_Suc)
  moreover have len: "length b < 2 ^ 32" if ib: "(i, b) \<in> set (plain_sections mp p c)" for i b
  proof -
    have "length (raw_section i b) \<le> length (concat (map (\<lambda>(i, b). raw_section i b) (plain_sections mp p c)))"
      using ib by (auto simp: length_concat comp_def intro!: member_le_sum_list image_eqI [of _ _ "(i, b)"])
    with calculation L length_raw_section [of b i] show ?thesis by simp
  qed
  moreover have "map (\<lambda>(i, b). raw_section i b) (plain_sections mp p c) = map (\<lambda>(i, b). section_bytes i b) (plain_sections mp p c)"
    using len raw_section_bytes by (fastforce intro!: map_cong)
  ultimately show "buf_data out = wasmMagic @ concat (map (\<lambda>(i, b). section_bytes i b) (plain_sections mp p c))"
    by simp
  show "(i, b) \<in> set (plain_sections mp p c) \<Longrightarrow> length b < 2 ^ 32" by (rule len)
qed

section \<open>Reading them back\<close>

definition read_back :: "int \<Rightarrow> parts \<Rightarrow> contents \<Rightarrow> nat \<Rightarrow> WasmModule" where
  "read_back mp p c len = (emptyWasmModule len)
     \<lparr>functionTypes := ct_types c, functionImports := fold append_array (ct_imports c) empty_array,
      m_functions := placed (length (uleb_bytes (length (ct_bodies c))))
        (fold (name_export (length (ct_imports c))) (module_exports p) (map declared (ct_indices c))) (ct_bodies c),
      m_tables := [table_limits p], memories := [memory_limits mp p], globals := [stack_global p],
      exports := module_exports p, elementSegments := [table_element p], dataSegments := [image_data p]\<rparr>"

definition contents_ok :: "contents \<Rightarrow> bool" where
  "contents_ok c \<longleftrightarrow> list_all functype_ok (ct_types c)
     \<and> list_all (\<lambda>im. name_ok (fi_module im) \<and> name_ok (fi_name im)) (ct_imports c)
     \<and> list_all (\<lambda>i. unat i < length (ct_types c)) (ct_indices c)
     \<and> list_all (\<lambda>(ds, body). length ds < 2 ^ 32) (ct_bodies c)"

lemma length_fold_name_export [simp]: "length (fold (name_export n) es fs) = length fs"
  by (induction es arbitrary: fs) simp_all

lemma const_expr_enc: "- (2 ^ 31) \<le> x \<Longrightarrow> x < 2 ^ 31 \<Longrightarrow> const_expr (enc_const x)"
  by (auto simp: const_expr_def)

lemma name_ok_exports: "name_ok (str ''memory'')" "name_ok (str ''_start'')"
  by (simp_all add: name_ok_def str_def)

lemma write_module_read_back:
  assumes e: "encodes p c" and w: "write_module mp p = Val out" and ok: "parts_ok mp p" "contents_ok c"
    and L: "length (buf_data out) < 2 ^ 32"
  shows "wasmModuleRead plenty dbg (buf_data out) = Val (read_back mp p c (length (buf_data out)))"
proof -
  note B = encodes_bounds [OF e w L] and len = write_module_sections(2) [OF e w ok(1) L]
  have len': "length b < 2 ^ 32" if "b \<in> snd ` set (plain_sections mp p c)" for b
    using that len by auto
  let ?secs = "concat (map (\<lambda>(i, b). section_bytes i b) (plain_sections mp p c))"
  let ?m0 = "emptyWasmModule (length (buf_data out))"
  let ?m1 = "?m0\<lparr>functionTypes := ct_types c\<rparr>"
  let ?m2 = "?m1\<lparr>functionImports := fold append_array (ct_imports c) empty_array\<rparr>"
  let ?m3 = "?m2\<lparr>m_functions := map declared (ct_indices c)\<rparr>"
  let ?m4 = "?m3\<lparr>m_tables := [table_limits p]\<rparr>"
  let ?m5 = "?m4\<lparr>memories := [memory_limits mp p]\<rparr>"
  let ?m6 = "?m5\<lparr>globals := [stack_global p]\<rparr>"
  let ?m7 = "?m6\<lparr>exports := module_exports p, m_functions :=
    fold (name_export (length (ct_imports c))) (module_exports p) (map declared (ct_indices c))\<rparr>"
  let ?m9 = "?m7\<lparr>elementSegments := [table_element p]\<rparr>"
  let ?m10 = "?m9\<lparr>m_functions := placed (length (uleb_bytes (length (ct_bodies c))))
    (fold (name_export (length (ct_imports c))) (module_exports p) (map declared (ct_indices c))) (ct_bodies c)\<rparr>"
  let ?m11 = "?m10\<lparr>dataSegments := [image_data p]\<rparr>"
  have nf: "pt_nfuncs p = length (ct_imports c) + length (ct_indices c)" "length (ct_bodies c) = length (ct_indices c)"
    using e by (simp_all add: encodes_def)
  have l: "length (enc_vec enc_functype (ct_types c)) < 2 ^ 32"
    "ct_imports c \<noteq> [] \<Longrightarrow> length (enc_vec enc_fimport (ct_imports c)) < 2 ^ 32"
    "length (enc_vec (\<lambda>i. uleb_bytes (unat i)) (ct_indices c)) < 2 ^ 32"
    "length (1 # 0x70 # enc_limits (table_limits p)) < 2 ^ 32" "length (1 # enc_limits (memory_limits mp p)) < 2 ^ 32"
    "length (1 # enc_global (stack_global p)) < 2 ^ 32" "length (enc_vec enc_export (module_exports p)) < 2 ^ 32"
    "length (1 # enc_element (table_element p)) < 2 ^ 32"
    "length (uleb_bytes (length (ct_bodies c)) @ enc_bodies (ct_bodies c)) < 2 ^ 32"
    "length (1 # enc_data (image_data p)) < 2 ^ 32"
    by (rule len', simp add: plain_sections_def)+
  have s1: "reads dbg ?m0 (section_bytes 1 (enc_vec enc_functype (ct_types c))) ?m1"
    by (rule reads_types [OF _ B(1) l(1)]) (use ok in \<open>simp add: contents_ok_def\<close>)
  have s2: "reads dbg ?m1 (if ct_imports c \<noteq> [] then section_bytes 2 (enc_vec enc_fimport (ct_imports c)) else []) ?m2"
  proof (cases "ct_imports c = []")
    case True
    then show ?thesis using reads_refl [of dbg ?m1] by (simp add: emptyWasmModule_def)
  next
    case False
    have "reads dbg ?m1 (section_bytes 2 (enc_vec enc_fimport (ct_imports c)))
        (?m1\<lparr>functionImports := fold append_array (ct_imports c) (functionImports ?m1)\<rparr>)"
      by (rule reads_imports [OF _ B(2) l(2) [OF False]]) (use ok in \<open>simp add: contents_ok_def\<close>)
    with False show ?thesis by (simp add: emptyWasmModule_def)
  qed
  have s3: "reads dbg ?m2 (section_bytes 3 (enc_vec (\<lambda>i. uleb_bytes (unat i)) (ct_indices c))) ?m3"
    by (rule reads_functions [OF _ _ _ l(3)]) (use ok B nf in \<open>simp_all add: contents_ok_def\<close>)
  have s4: "reads dbg ?m3 (section_bytes 4 (1 # 0x70 # enc_limits (table_limits p))) ?m4"
    by (rule reads_table) (use B l(4) in \<open>auto simp: limits_ok_def table_limits_def unat_of_nat word_unat_eq_iff
        simp del: of_nat_add of_nat_Suc\<close>)
  have s5: "reads dbg ?m4 (section_bytes 5 (1 # enc_limits (memory_limits mp p))) ?m5"
    by (rule reads_memory) (use ok l(5) in \<open>auto simp: limits_ok_def memory_limits_def parts_ok_def
        word_unat_eq_iff unat_of_int_u32\<close>)
  have s6: "reads dbg ?m5 (section_bytes 6 (1 # enc_global (stack_global p))) ?m6"
    by (rule reads_globals) (use ok l(6) const_expr_enc [of "pt_stack_top p"] in
        \<open>simp_all add: stack_global_def parts_ok_def\<close>)
  have s7: "reads dbg ?m6 (section_bytes 7 (enc_vec enc_export (module_exports p))) ?m7"
  proof -
    have imp: "items (fold append_array (ct_imports c) empty_array) = ct_imports c"
      by (simp add: items_append_arrays empty_array_def)
    have "list_all (export_ok ?m6) (module_exports p)"
      using ok B(3) name_ok_exports
      by (cases "pt_start p")
        (auto simp: module_exports_def export_ok_def imp parts_ok_def nf unat_of_nat simp del: of_nat_add)
    from reads_exports [OF this _ _ l(7)] show ?thesis
      using B(3) nf by (cases "pt_start p") (simp_all add: imp module_exports_def)
  qed
  have s9: "reads dbg ?m7 (section_bytes 9 (1 # enc_element (table_element p))) ?m9"
    by (rule reads_elements) (use B l(8) const_expr_enc [of 1] in \<open>simp_all add: element_ok_def table_element_def\<close>)
  have s10: "reads dbg ?m9 (section_bytes 10 (uleb_bytes (length (ct_bodies c)) @ enc_bodies (ct_bodies c))) ?m10"
  proof -
    have "body_ok b" if "b \<in> set (ct_bodies c)" for b
    proof -
      obtain ds body where b: "b = (ds, body)" by (cases b)
      have "length (enc_body ds body) \<le> length (enc_bodies (ct_bodies c))"
        using that b by (auto simp: length_concat comp_def intro!: member_le_sum_list image_eqI [of _ _ b])
      moreover have "length (enc_vec enc_locals_decl ds @ body) \<le> length (enc_body ds body)" by (simp add: enc_body_def)
      ultimately show ?thesis
        using ok that b l(9) by (auto simp: body_ok_def contents_ok_def list_all_iff)
    qed
    then have "list_all body_ok (ct_bodies c)" by (simp add: list_all_iff)
    from reads_code [OF this _ _ l(9), of ?m9] show ?thesis using nf B(3) by simp
  qed
  have s11: "reads dbg ?m10 (section_bytes 11 (1 # enc_data (image_data p))) ?m11"
    by (rule reads_data) (use B l(10) const_expr_enc [of data_base] in
        \<open>simp_all add: data_ok_def image_data_def data_base_def\<close>)
  have all: "reads dbg ?m0 ?secs ?m11"
    using reads_append [OF s1 reads_append [OF s2 reads_append [OF s3 reads_append [OF s4 reads_append [OF s5
      reads_append [OF s6 reads_append [OF s7 reads_append [OF s9 reads_append [OF s10 s11]]]]]]]]]
    by (cases "ct_imports c = []") (simp_all add: plain_sections_def)
  have "length ?secs \<le> m_length ?m0"
    by (simp add: emptyWasmModule_def write_module_sections(1) [OF e w ok(1) L])
  from reads_end [OF all this, of 1] obtain k' where
    "section_loop dbg ?m0 (input ?secs 1) = Val (?m11, input [] k')" by blast
  moreover have "?m11 = read_back mp p c (length (buf_data out))"
    by (simp add: read_back_def)
  ultimately show ?thesis
    by (simp add: wasmModuleRead_def write_module_sections(1) [OF e w ok(1) L] wasmModuleReadMagic_def
        rd_bind_def rd_option_def bufferReadEqual_def rd_calloc_def plenty_def wasmMagic_def)
qed

end
