(* ===== verification/Compile_Module.thy ===== *)
theory Compile_Module
  imports Compile_Read
begin

text \<open>
  From the objects of a program to the module the translator reads: what the numbering of the functions,
  the layout and the generation of the bodies leave in the sections, and the theorem that a typed program
  that compiles is read back with its imports, signatures and function bodies, every body valid in the
  module read, as the translator's own lookups see it.
\<close>

section \<open>Signatures\<close>

fun value_type :: "vclass \<Rightarrow> WasmValueType" where
  "value_type VC_I32 = wasmValueTypeI32"
| "value_type VC_I64 = wasmValueTypeI64"
| "value_type VC_F32 = wasmValueTypeF32"
| "value_type VC_F64 = wasmValueTypeF64"
| "value_type VC_NONE = wasmValueTypeI32"

fun class_of :: "WasmValueType \<Rightarrow> vclass" where
  "class_of wasmValueTypeI32 = VC_I32"
| "class_of wasmValueTypeI64 = VC_I64"
| "class_of wasmValueTypeF32 = VC_F32"
| "class_of wasmValueTypeF64 = VC_F64"

lemma class_of_value_type [simp]: "c \<noteq> VC_NONE \<Longrightarrow> class_of (value_type c) = c"
  by (cases c) simp_all

lemma valtype_byte_value_type: "c \<noteq> VC_NONE \<Longrightarrow> valtype_byte (value_type c) = word_of_int (valtype c)"
  by (cases c) simp_all

definition sig_type :: "functype \<Rightarrow> WasmFunctionType" where
  "sig_type fty = \<lparr>parameterTypes = map value_type (sig_params fty), resultTypes = map value_type (sig_results fty)\<rparr>"

lemma sig_params_values: "sig_ok fty \<Longrightarrow> c \<in> set (sig_params fty) \<Longrightarrow> c \<noteq> VC_NONE"
  by (auto simp: sig_ok_def sig_params_def list_all_iff split: if_splits)

lemma sig_params_length: "sig_ok fty \<Longrightarrow> length (sig_params fty) < 2 ^ 32"
  by (auto simp: sig_ok_def sig_params_def)

lemma sig_results_cases: "sig_results fty = [] \<or> (\<exists>c. sig_results fty = [c] \<and> c \<noteq> VC_NONE)"
  by (cases "result_class fty") (simp_all add: sig_results_def)

lemma enc_types_values:
  "list_all (\<lambda>c. c \<noteq> VC_NONE) cs \<Longrightarrow>
   enc_types (map value_type cs) = uleb_bytes (length cs) @ map (\<lambda>c. word_of_int (valtype c)) cs"
  unfolding enc_vec_def by (induction cs) (auto simp: valtype_byte_value_type enc_vec_def)

lemma enc_functype_sig:
  assumes "sig_ok fty"
  shows "enc_functype (sig_type fty) = sig_bytes (sig_params fty) (sig_results fty)"
proof -
  have "enc_types (map value_type (sig_params fty))
      = uleb_bytes (length (sig_params fty)) @ map (\<lambda>c. word_of_int (valtype c)) (sig_params fty)"
    by (rule enc_types_values) (use sig_params_values [OF assms] in \<open>simp add: list_all_iff\<close>)
  moreover have "enc_types (map value_type (sig_results fty))
      = of_nat (length (sig_results fty)) # map (\<lambda>c. word_of_int (valtype c)) (sig_results fty)"
    using sig_results_cases [of fty] by (auto simp: enc_vec_def uleb_small valtype_byte_value_type)
  ultimately show ?thesis by (simp add: enc_functype_def sig_type_def sig_bytes_def)
qed

lemma functype_ok_sig: "sig_ok fty \<Longrightarrow> functype_ok (sig_type fty)"
  using sig_params_length sig_results_cases [of fty] by (auto simp: functype_ok_def sig_type_def)

lemma enc_functype_inj:
  assumes "functype_ok a" "functype_ok b" "enc_functype a = enc_functype b"
  shows "a = b"
proof -
  obtain j where "wasmReadFunctionType plenty (input (enc_functype a @ []) 0) = Val (a, input [] j)"
    using ftc.dec_enc [OF assms(1)] by blast
  moreover obtain k where "wasmReadFunctionType plenty (input (enc_functype b @ []) 0) = Val (b, input [] k)"
    using ftc.dec_enc [OF assms(2)] by blast
  ultimately show ?thesis using assms(3) by simp
qed

text \<open>The type table as function types. The writer takes those with at most one result.\<close>

definition single_result :: "WasmFunctionType \<Rightarrow> bool" where
  "single_result t \<longleftrightarrow> length (resultTypes t) \<le> 1"

lemma single_result_sig: "single_result (sig_type fty)"
  using sig_results_cases [of fty] by (auto simp: single_result_def sig_type_def)

lemma sigs_ok_types:
  assumes "sigs_ok ts"
  obtains cts where "ts = map enc_functype cts" "list_all functype_ok cts" "list_all single_result cts"
proof -
  have "\<exists>cts. ts = map enc_functype cts \<and> list_all functype_ok cts \<and> list_all single_result cts"
    using assms
  proof (induction ts)
    case (Cons e ts)
    then obtain fty cts where "sig_ok fty" "e = sig_bytes (sig_params fty) (sig_results fty)"
      "ts = map enc_functype cts" "list_all functype_ok cts" "list_all single_result cts" by (auto simp: sigs_ok_def)
    then show ?case
      using enc_functype_sig functype_ok_sig single_result_sig by (intro exI [of _ "sig_type fty # cts"]) simp
  qed simp
  then show thesis using that by blast
qed

section \<open>Numbering\<close>

definition is_import :: "u8 list set \<Rightarrow> Obj \<Rightarrow> bool" where
  "is_import refs fn \<longleftrightarrow> is_function fn \<and> \<not> is_definition fn \<and> o_name fn \<in> refs
     \<and> take 10 (o_name fn) \<noteq> str ''__builtin_''"

definition imported :: "Obj list \<Rightarrow> Obj list" where
  "imported prog = filter (is_import (referenced prog)) prog"

definition defined :: "Obj list \<Rightarrow> Obj list" where
  "defined prog = filter (\<lambda>fn. is_function fn \<and> is_definition fn) prog"

text \<open>\<open>T\<close> is the final type table; an index into it stands for a signature.\<close>

definition type_at :: "u8 list list \<Rightarrow> nat \<Rightarrow> functype \<Rightarrow> bool" where
  "type_at T i fty \<longleftrightarrow> i < length T \<and> T ! i = sig_bytes (sig_params fty) (sig_results fty)"

definition import_of :: "u8 list list \<Rightarrow> Obj \<Rightarrow> WasmFunctionImport \<Rightarrow> bool" where
  "import_of T fn im \<longleftrightarrow> fi_module im = str ''env'' \<and> fi_name im = drop 6 (o_name fn)
     \<and> type_at T (unat (fi_functionTypeIndex im)) (o_fty fn)"

definition numbered :: "numbering \<Rightarrow> bool" where
  "numbered nb \<longleftrightarrow> (\<forall>name i. nb_index nb name = Some i \<longrightarrow>
     i < length (nb_funcs nb) \<and> o_name (nb_funcs nb ! i) = name)"

lemma numbered_number: "numbered nb \<Longrightarrow> numbered (number fn nb)"
  by (auto simp: numbered_def number_def nth_append less_Suc_eq)

lemma sig_index_at:
  assumes "sig_index fty ts = (i, ts')" "sig_ok fty" "prefix ts' T"
  shows "type_at T i fty" "types_ext ts ts'"
proof -
  have e: "buf_data (sig_entry fty) = sig_bytes (sig_params fty) (sig_results fty)"
    by (rule sig_entry_data) (use assms(2) in \<open>simp add: sig_ok_def\<close>)
  show "type_at T i fty"
    using sig_index_types [OF assms(1)] assms(3) by (auto simp: type_at_def e prefix_def nth_append)
  show "types_ext ts ts'" by (rule sig_index_ext [OF assms(2,1)])
qed

lemma number_mono:
  assumes ok: "is_function fn \<longrightarrow> sig_ok (o_fty fn)" and num: "numbered nb"
    and r: "number_import refs fn nb = Val nb' \<or> number_def fn nb = Val nb'"
  shows "types_ext (nb_types nb) (nb_types nb') \<and> numbered nb'"
proof -
  obtain i ts where sig: "sig_index (o_fty fn) (nb_types nb) = (i, ts)" by fastforce
  have "numbered (number fn (nb\<lparr>nb_imports := b, nb_types := ts\<rparr>))"
    "numbered (number fn (nb\<lparr>nb_funcsec := b, nb_types := ts\<rparr>))" for b
    by (rule numbered_number, use num in \<open>simp add: numbered_def\<close>)+
  then show ?thesis
    using r num ok sig_index_ext [OF _ sig]
    by (auto simp: number_import_def number_def_def sig number_def Let_def split: if_splits)
qed

lemma number_fold_mono:
  assumes "\<forall>fn \<in> set fns. is_function fn \<longrightarrow> sig_ok (o_fty fn)" and "numbered nb"
    and "res_fold (number_import refs) fns nb = Val nb' \<or> res_fold number_def fns nb = Val nb'"
  shows "types_ext (nb_types nb) (nb_types nb') \<and> numbered nb'"
  using assms
proof (induction fns arbitrary: nb)
  case (Cons fn fns)
  from Cons.prems(3) obtain nb1 where nb1: "number_import refs fn nb = Val nb1 \<or> number_def fn nb = Val nb1"
    "res_fold (number_import refs) fns nb1 = Val nb' \<or> res_fold number_def fns nb1 = Val nb'"
    by (auto simp: res_bind_eq_Val)
  with Cons.prems number_mono [of fn nb refs nb1] have "types_ext (nb_types nb) (nb_types nb1)" "numbered nb1" by auto
  with Cons.IH [of nb1] Cons.prems(1) nb1(2) types_ext_trans show ?case by auto
qed simp

lemma number_import_step:
  assumes "number_import refs fn nb = Val nb'" and ok: "is_function fn \<longrightarrow> sig_ok (o_fty fn) \<and> name_ok (o_name fn)"
    and T: "prefix (nb_types nb') T" "length T < 2 ^ 32" and num: "numbered nb"
  shows "\<exists>ims. nb_funcs nb' = nb_funcs nb @ filter (is_import refs) [fn]
    \<and> list_all2 (import_of T) (filter (is_import refs) [fn]) ims
    \<and> buf_data (nb_imports nb') = buf_data (nb_imports nb) @ concat (map enc_fimport ims)
    \<and> nb_funcsec nb' = nb_funcsec nb \<and> types_ext (nb_types nb) (nb_types nb') \<and> numbered nb'"
proof (cases "is_import refs fn")
  case False
  then have "nb' = nb"
    using assms(1) by (auto simp: number_import_def is_import_def split: if_splits prod.splits)
  with False num show ?thesis by simp
next
  case True
  then have ok: "sig_ok (o_fty fn)" "name_ok (o_name fn)" using ok by (simp_all add: is_import_def)
  obtain i ts where sig: "sig_index (o_fty fn) (nb_types nb) = (i, ts)" by fastforce
  have nb': "nb' = number fn (nb\<lparr>nb_imports := buf_uleb (buf_u8 (buf_name (buf_name (nb_imports nb) (str ''env''))
      (drop 6 (o_name fn))) 0) (of_nat i), nb_types := ts\<rparr>)"
    using assms(1) True by (auto simp: number_import_def is_import_def sig split: if_splits)
  note at = sig_index_at [OF sig ok(1), of T]
  have t: "type_at T i (o_fty fn)" "types_ext (nb_types nb) ts" using at T(1) by (simp_all add: nb' number_def)
  then have i: "i < 2 ^ 32" using T(2) by (simp add: type_at_def)
  let ?im = "\<lparr>fi_module = str ''env'', fi_name = drop 6 (o_name fn), fi_functionTypeIndex = of_nat i\<rparr>"
  have "buf_data (nb_imports nb') = buf_data (nb_imports nb) @ enc_fimport ?im"
    using i ok(2) by (auto simp: nb' number_def buf_uleb_data buf_name_enc enc_fimport_def name_ok_def str_def unat_of_nat)
  moreover have "import_of T fn ?im" using t i by (simp add: import_of_def unat_of_nat)
  moreover have "numbered nb'"
    unfolding nb' by (rule numbered_number) (use num in \<open>simp add: numbered_def\<close>)
  ultimately show ?thesis
    using True t(2) by (intro exI [of _ "[?im]"]) (simp add: nb' number_def)
qed

lemma number_def_step:
  assumes "number_def fn nb = Val nb'" and ok: "is_function fn \<longrightarrow> sig_ok (o_fty fn)"
    and T: "prefix (nb_types nb') T" "length T < 2 ^ 32" and num: "numbered nb"
  shows "\<exists>is. nb_funcs nb' = nb_funcs nb @ defined [fn]
    \<and> list_all2 (\<lambda>fn i. type_at T (unat i) (o_fty fn)) (defined [fn]) is
    \<and> buf_data (nb_funcsec nb') = buf_data (nb_funcsec nb) @ concat (map (\<lambda>i. uleb_bytes (unat (i :: u32))) is)
    \<and> nb_imports nb' = nb_imports nb \<and> types_ext (nb_types nb) (nb_types nb') \<and> numbered nb'"
proof (cases "is_function fn \<and> is_definition fn")
  case False
  then have "nb' = nb"
    using assms(1) by (auto simp: number_def_def split: if_splits prod.splits)
  with False num show ?thesis by (auto simp: defined_def)
next
  case True
  then have ok: "sig_ok (o_fty fn)" using ok by simp
  obtain i ts where sig: "sig_index (o_fty fn) (nb_types nb) = (i, ts)" by fastforce
  have nb': "nb' = number fn (nb\<lparr>nb_funcsec := buf_uleb (nb_funcsec nb) (of_nat i), nb_types := ts\<rparr>)"
    using assms(1) True by (auto simp: number_def_def sig)
  note at = sig_index_at [OF sig ok, of T]
  have t: "type_at T i (o_fty fn)" "types_ext (nb_types nb) ts" using at T(1) by (simp_all add: nb' number_def)
  then have i: "i < 2 ^ 32" using T(2) by (simp add: type_at_def)
  have "numbered nb'"
    unfolding nb' by (rule numbered_number) (use num in \<open>simp add: numbered_def\<close>)
  then show ?thesis
    using True t i
    by (intro exI [of _ "[of_nat i]"]) (simp add: nb' number_def defined_def buf_uleb_data unat_of_nat)
qed

text \<open>The two passes.\<close>

lemma number_imports:
  assumes "res_fold (number_import refs) fns nb = Val nb'"
    and "\<forall>fn \<in> set fns. is_function fn \<longrightarrow> sig_ok (o_fty fn) \<and> name_ok (o_name fn)"
    and "prefix (nb_types nb') T" "length T < 2 ^ 32" and "numbered nb"
  shows "types_ext (nb_types nb) (nb_types nb') \<and> numbered nb' \<and> nb_funcsec nb' = nb_funcsec nb
    \<and> nb_funcs nb' = nb_funcs nb @ filter (is_import refs) fns
    \<and> (\<exists>ims. list_all2 (import_of T) (filter (is_import refs) fns) ims
        \<and> buf_data (nb_imports nb') = buf_data (nb_imports nb) @ concat (map enc_fimport ims))"
  using assms
proof (induction fns arbitrary: nb)
  case (Cons fn fns)
  from Cons.prems(1) obtain nb1 where nb1: "number_import refs fn nb = Val nb1"
    "res_fold (number_import refs) fns nb1 = Val nb'" by (auto simp: res_bind_eq_Val)
  have ok: "is_function fn \<longrightarrow> sig_ok (o_fty fn) \<and> name_ok (o_name fn)" using Cons.prems(2) by simp
  have m1: "types_ext (nb_types nb) (nb_types nb1)" "numbered nb1"
    using number_mono [of fn nb refs nb1] ok nb1(1) Cons.prems(5) by auto
  have m2: "types_ext (nb_types nb1) (nb_types nb')"
    using number_fold_mono [of fns nb1 refs nb'] Cons.prems(2) m1(2) nb1(2) by auto
  obtain ims1 where 1: "nb_funcs nb1 = nb_funcs nb @ filter (is_import refs) [fn]"
    "list_all2 (import_of T) (filter (is_import refs) [fn]) ims1"
    "buf_data (nb_imports nb1) = buf_data (nb_imports nb) @ concat (map enc_fimport ims1)" "nb_funcsec nb1 = nb_funcsec nb"
    using number_import_step [OF nb1(1) ok types_ext_prefix [OF m2 Cons.prems(3)] Cons.prems(4,5)] by blast
  obtain ims2 where 2: "numbered nb'" "nb_funcsec nb' = nb_funcsec nb1"
    "nb_funcs nb' = nb_funcs nb1 @ filter (is_import refs) fns" "list_all2 (import_of T) (filter (is_import refs) fns) ims2"
    "buf_data (nb_imports nb') = buf_data (nb_imports nb1) @ concat (map enc_fimport ims2)"
    using Cons.IH [OF nb1(2) _ Cons.prems(3,4) m1(2)] Cons.prems(2) by auto
  show ?case
    using types_ext_trans [OF m1(1) m2] 1 2 list_all2_appendI [OF 1(2) 2(4)]
    by (intro conjI exI [of _ "ims1 @ ims2"]) auto
qed simp

lemma number_defs:
  assumes "res_fold number_def fns nb = Val nb'"
    and "\<forall>fn \<in> set fns. is_function fn \<longrightarrow> sig_ok (o_fty fn)"
    and "prefix (nb_types nb') T" "length T < 2 ^ 32" and "numbered nb"
  shows "nb_imports nb' = nb_imports nb \<and> nb_funcs nb' = nb_funcs nb @ defined fns
    \<and> (\<exists>is. list_all2 (\<lambda>fn i. type_at T (unat i) (o_fty fn)) (defined fns) is
        \<and> buf_data (nb_funcsec nb') = buf_data (nb_funcsec nb) @ concat (map (\<lambda>i. uleb_bytes (unat (i :: u32))) is))"
  using assms
proof (induction fns arbitrary: nb)
  case (Cons fn fns)
  from Cons.prems(1) obtain nb1 where nb1: "number_def fn nb = Val nb1" "res_fold number_def fns nb1 = Val nb'"
    by (auto simp: res_bind_eq_Val)
  have ok: "is_function fn \<longrightarrow> sig_ok (o_fty fn)" using Cons.prems(2) by simp
  have m1: "types_ext (nb_types nb) (nb_types nb1)" "numbered nb1"
    using number_mono [of fn nb _ nb1] ok nb1(1) Cons.prems(5) by auto
  have m2: "types_ext (nb_types nb1) (nb_types nb')"
    using number_fold_mono [of fns nb1 _ nb'] Cons.prems(2) m1(2) nb1(2) by auto
  obtain is1 where 1: "nb_funcs nb1 = nb_funcs nb @ defined [fn]"
    "list_all2 (\<lambda>fn i. type_at T (unat i) (o_fty fn)) (defined [fn]) is1"
    "buf_data (nb_funcsec nb1) = buf_data (nb_funcsec nb) @ concat (map (\<lambda>i. uleb_bytes (unat (i :: u32))) is1)"
    "nb_imports nb1 = nb_imports nb"
    using number_def_step [OF nb1(1) ok types_ext_prefix [OF m2 Cons.prems(3)] Cons.prems(4,5)] by blast
  obtain is2 where 2: "nb_imports nb' = nb_imports nb1" "nb_funcs nb' = nb_funcs nb1 @ defined fns"
    "list_all2 (\<lambda>fn i. type_at T (unat i) (o_fty fn)) (defined fns) is2"
    "buf_data (nb_funcsec nb') = buf_data (nb_funcsec nb1) @ concat (map (\<lambda>i. uleb_bytes (unat (i :: u32))) is2)"
    using Cons.IH [OF nb1(2) _ Cons.prems(3,4) m1(2)] Cons.prems(2) by auto
  have d: "defined (fn # fns) = defined [fn] @ defined fns" by (simp add: defined_def)
  show ?case
    unfolding d using 1 2 list_all2_appendI [OF 1(2) 2(3)]
    by (intro conjI exI [of _ "is1 @ is2"]) auto
qed (simp add: defined_def)

lemma number_step_funcs:
  "number_import refs fn nb = Val nb' \<Longrightarrow> nb_funcs nb' = nb_funcs nb @ filter (is_import refs) [fn]"
  "number_def fn nb = Val nb' \<Longrightarrow> nb_funcs nb' = nb_funcs nb @ defined [fn]"
  by (auto simp: number_import_def number_def_def number_def is_import_def defined_def split: if_splits prod.splits)

lemma number_funcs:
  "res_fold (number_import refs) fns nb = Val nb' \<Longrightarrow> nb_funcs nb' = nb_funcs nb @ filter (is_import refs) fns"
  "res_fold number_def fns nb = Val nb' \<Longrightarrow> nb_funcs nb' = nb_funcs nb @ defined fns"
proof (induction fns arbitrary: nb)
  case (Cons fn fns)
  {
    case 1
    then obtain nb1 where "number_import refs fn nb = Val nb1" "res_fold (number_import refs) fns nb1 = Val nb'"
      by (auto simp: res_bind_eq_Val)
    with Cons.IH(1) [of nb1] number_step_funcs(1) [of refs fn nb nb1] show ?case by simp
  next
    case 2
    then obtain nb1 where "number_def fn nb = Val nb1" "res_fold number_def fns nb1 = Val nb'"
      by (auto simp: res_bind_eq_Val)
    with Cons.IH(2) [of nb1] number_step_funcs(2) [of fn nb nb1] show ?case by (simp add: defined_def)
  }
qed (simp_all add: defined_def)

section \<open>Function bodies\<close>

definition scratch_decls :: "vclass \<Rightarrow> WasmLocalsDeclaration list" where
  "scratch_decls rc =
     [\<lparr>ld_type = wasmValueTypeI32, ld_count = 3\<rparr>, \<lparr>ld_type = wasmValueTypeI64, ld_count = 1\<rparr>,
      \<lparr>ld_type = wasmValueTypeF32, ld_count = 1\<rparr>, \<lparr>ld_type = wasmValueTypeF64, ld_count = 1\<rparr>]
     @ (if rc = VC_NONE then [] else [\<lparr>ld_type = value_type rc, ld_count = 1\<rparr>])"

lemma uleb_below_128: "n < 128 \<Longrightarrow> uleb_bytes n = [of_nat n]"
  by (simp add: uleb_bytes.simps)

lemma function_locals_enc: "buf_data (function_locals rc) = enc_vec enc_locals_decl (scratch_decls rc)"
  by (cases rc)
    (simp_all add: function_locals_def scratch_decls_def enc_vec_def enc_locals_decl_def buf_uleb_data
      empty_buf_def uleb_below_128)

definition module_fenv :: "numbering \<Rightarrow> Obj \<Rightarrow> fenv" where
  "module_fenv nb fn = \<lparr>fe_type = (\<lambda>i. o_fty (nb_funcs nb ! i)), fe_params = param_classes fn\<rparr>"

text \<open>The parser's work on one function: its body and parameters are typed, the parameters are those of its type.\<close>

definition function_typed :: "cctx \<Rightarrow> numbering \<Rightarrow> Obj \<Rightarrow> bool" where
  "function_typed cx nb fn \<longleftrightarrow> sig_ok (o_fty fn) \<and> param_classes fn = sig_params (o_fty fn)
     \<and> (case assign_lvar_offsets (o_locals fn) 0 of
          Val (offs, fsz) \<Rightarrow> fn_ok (fn_ctx cx fn offs fsz) (module_fenv nb fn) fn | _ \<Rightarrow> True)"

text \<open>A body as it stands in the code section, made by some run of \<open>gen_function\<close> with no more types than \<open>T\<close>.\<close>

definition compiled :: "cctx \<Rightarrow> u8 list list \<Rightarrow> Obj \<Rightarrow> WasmLocalsDeclaration list \<times> u8 list \<Rightarrow> bool" where
  "compiled cx T fn b \<longleftrightarrow> fst b = scratch_decls (result_class (o_fty fn))
     \<and> (\<exists>s out s' out'. gen_function cx fn (s, out) = Val (s', out') \<and> snd b = buf_data (cg_code s')
          \<and> prefix (cg_types s') T)"

lemma gen_function_step:
  assumes g: "gen_function cx fn (s, out) = Val (s', out')" and t: "function_typed cx nb fn"
    and len: "length (buf_data out') < 2 ^ 32" and T: "prefix (cg_types s') T"
  shows "types_ext (cg_types s) (cg_types s')
    \<and> (\<exists>ds body. compiled cx T fn (ds, body) \<and> buf_data out' = buf_data out @ enc_body ds body)"
proof -
  obtain offs fsz where off: "assign_lvar_offsets (o_locals fn) 0 = Val (offs, fsz)"
    using g by (auto simp: gen_function_def res_bind_eq_Val)
  let ?cx = "fn_ctx cx fn offs fsz" and ?s = "s\<lparr>cg_code := (cg_code s)\<lparr>buf_data := []\<rparr>, cg_ctl := []\<rparr>"
  have ok: "fn_ok ?cx (module_fenv nb fn) fn" using t off by (simp add: function_typed_def)
  have at: "at_stk [] (sig_results (o_fty fn)) [] ?s [Frame K_FUNC (sig_results (o_fty fn)) (sig_results (o_fty fn)) []]"
    by (simp add: at_stk_def frames_of_def block_ids_def)
  have "types_ext (cg_types ?s) (cg_types s')"
    by (rule hoareD [OF hoare_function_code [OF ok refl] at function_bytes(1) [OF g off]])
  moreover have "\<exists>ds body. compiled cx T fn (ds, body) \<and> buf_data out' = buf_data out @ enc_body ds body"
  proof (intro exI conjI)
    let ?ds = "scratch_decls (result_class (o_fty fn))" and ?b = "buf_data (cg_code s')"
    show "compiled cx T fn (?ds, ?b)"
      using g T by (auto simp: compiled_def)
    have "buf_data out' = buf_data out @ uleb_bytes (unat (of_nat (length (enc_vec enc_locals_decl ?ds @ ?b)) :: u64))
        @ enc_vec enc_locals_decl ?ds @ ?b"
      unfolding function_bytes(2) [OF g off] by (simp add: buf_uleb_data buf_buf_def function_locals_enc)
    moreover from this have "length (enc_vec enc_locals_decl ?ds @ ?b) < 2 ^ 32" using len by simp
    ultimately show "buf_data out' = buf_data out @ enc_body ?ds ?b"
      by (simp add: enc_body_def unat_of_nat del: of_nat_add)
  qed
  ultimately show ?thesis by simp
qed

lemma gen_function_mono:
  assumes "gen_function cx fn (s, out) = Val (s', out')"
  shows "length (buf_data out) \<le> length (buf_data out')"
  using assms by (auto simp: gen_function_def Let_def res_bind_eq_Val buf_buf_def buf_uleb_data)

lemma gen_functions_mono:
  assumes "res_fold (gen_function cx) fns (s, out) = Val (s', out')"
  shows "length (buf_data out) \<le> length (buf_data out')"
  using assms
proof (induction fns arbitrary: s out)
  case (Cons fn fns)
  then obtain s1 out1 where "gen_function cx fn (s, out) = Val (s1, out1)"
    "res_fold (gen_function cx) fns (s1, out1) = Val (s', out')" by (auto simp: res_bind_eq_Val)
  with gen_function_mono [of cx fn s out s1 out1] Cons.IH [of s1 out1] show ?case by simp
qed simp

lemma gen_functions:
  assumes "res_fold (gen_function cx) fns (s, out) = Val (s', out')"
    and "\<forall>fn \<in> set fns. function_typed cx nb fn" and "length (buf_data out') < 2 ^ 32" and "prefix (cg_types s') T"
  shows "types_ext (cg_types s) (cg_types s')
    \<and> (\<exists>bodies. list_all2 (compiled cx T) fns bodies \<and> buf_data out' = buf_data out @ enc_bodies bodies)"
  using assms
proof (induction fns arbitrary: s out)
  case (Cons fn fns)
  from Cons.prems(1) obtain s1 out1 where 1: "gen_function cx fn (s, out) = Val (s1, out1)"
    "res_fold (gen_function cx) fns (s1, out1) = Val (s', out')" by (auto simp: res_bind_eq_Val)
  obtain bodies where 2: "types_ext (cg_types s1) (cg_types s')" "list_all2 (compiled cx T) fns bodies"
    "buf_data out' = buf_data out1 @ enc_bodies bodies"
    using Cons.IH [OF 1(2)] Cons.prems(2-4) by auto
  have len: "length (buf_data out1) < 2 ^ 32" using gen_functions_mono [OF 1(2)] Cons.prems(3) by simp
  from gen_function_step [OF 1(1) _ len types_ext_prefix [OF 2(1) Cons.prems(4)]] Cons.prems(2)
  obtain ds body where "types_ext (cg_types s) (cg_types s1)" "compiled cx T fn (ds, body)"
    "buf_data out1 = buf_data out @ enc_body ds body" by fastforce
  with 2(2,3) types_ext_trans [OF _ 2(1)] show ?case
    by (intro conjI exI [of _ "(ds, body) # bodies"]) simp_all
qed simp

section \<open>Layout\<close>

lemma align_to_nonneg: "0 \<le> n \<Longrightarrow> 1 \<le> a \<Longrightarrow> 0 \<le> align_to n a"
  by (auto simp: signed_divide_int_def sgn_if pos_imp_zdiv_nonneg_iff)

lemma layout_fold_nonneg:
  assumes "res_fold (layout_global ini) vars (addr, defs) = Val (addr', defs')" "0 \<le> addr"
    and "\<forall>v \<in> set vars. 0 \<le> ty_size (o_ty v)"
  shows "0 \<le> addr'"
  using assms
proof (induction vars arbitrary: addr defs)
  case (Cons v vars)
  from Cons.prems(1) obtain a1 d1 where 1: "layout_global ini v (addr, defs) = Val (a1, d1)"
    "res_fold (layout_global ini) vars (a1, d1) = Val (addr', defs')" by (auto simp: res_bind_eq_Val)
  have "0 \<le> a1"
    using 1(1) Cons.prems(2,3) align_to_nonneg [of addr "if o_align v < 1 then 1 else o_align v"]
    by (auto simp: layout_global_def res_bind_eq_Val align_int_def Let_def simp del: align_to.simps split: if_splits)
  with Cons.IH [OF 1(2)] Cons.prems(3) show ?case by simp
qed simp

lemma layout_stack_top:
  assumes "layout_globals ss mp prog = Val lay" "0 \<le> ss" "\<forall>v \<in> set prog. 0 \<le> ty_size (o_ty v)"
  shows "0 \<le> lay_stack_top lay \<and> lay_stack_top lay < 2 ^ 31"
proof -
  obtain e d a d' b z where 1: "res_fold (layout_global True) prog (data_base, Map.empty) = Val (e, d)"
    "res_fold (layout_global False) prog (e, d) = Val (a, d')" "align_int a 16 = Val b" "align_int ss 16 = Val z"
    and top: "lay_stack_top lay = b + z" "b + z \<le> 0x7FFFFFFF"
    using assms(1)
    by (auto simp: layout_globals_def res_bind_eq_Val Let_def split: if_splits prod.splits)
  have "0 \<le> e" using layout_fold_nonneg [OF 1(1) _ assms(3)] by (simp add: data_base_def)
  then have "0 \<le> a" using layout_fold_nonneg [OF 1(2) _ assms(3)] by simp
  then have "0 \<le> b" "0 \<le> z"
    using 1(3,4) assms(2) align_to_nonneg [of a 16] align_to_nonneg [of ss 16]
    by (auto simp: align_int_def simp del: align_to.simps split: if_splits)
  with top show ?thesis by simp
qed

section \<open>The module read\<close>

text \<open>The validation environment of a function, as the translator's lookups give it.\<close>

definition module_funcs :: "WasmModule \<Rightarrow> nat \<Rightarrow> (vclass list \<times> vclass list) option" where
  "module_funcs m i = (if i < 2 ^ 32 then
     (case wasmModuleGetFunctionType m (of_nat i) of
        Val ft \<Rightarrow> Some (map class_of (parameterTypes ft), map class_of (resultTypes ft)) | _ \<Rightarrow> None) else None)"

definition module_env :: "WasmModule \<Rightarrow> WasmFunction \<Rightarrow> wenv" where
  "module_env m f = \<lparr>we_locals = (\<lambda>i. if i < 2 ^ 32 then
        (case wasmModuleFunctionGetLocalType m f (of_nat i) of Val t \<Rightarrow> Some (class_of t) | _ \<Rightarrow> None) else None),
     we_funcs = module_funcs m, we_types = map enc_functype (functionTypes m)\<rparr>"

definition has_type :: "WasmModule \<Rightarrow> u32 \<Rightarrow> functype \<Rightarrow> bool" where
  "has_type m i fty \<longleftrightarrow> unat i < length (functionTypes m) \<and> functionTypes m ! unat i = sig_type fty"

lemma class_of_map: "\<forall>c \<in> set cs. c \<noteq> VC_NONE \<Longrightarrow> map class_of (map value_type cs) = cs"
  by (induction cs) auto

lemma sig_type_classes:
  assumes "sig_ok fty"
  shows "map class_of (parameterTypes (sig_type fty)) = sig_params fty"
    "map class_of (resultTypes (sig_type fty)) = sig_results fty"
  using class_of_map [of "sig_params fty"] class_of_map [of "sig_results fty"] sig_params_values [OF assms]
    sig_results_cases [of fty]
  by (auto simp: sig_type_def)

lemma module_funcs_imports:
  assumes "i < length (items (functionImports m))" "length (items (functionImports m)) < 2 ^ 32"
    and "has_type m (fi_functionTypeIndex (items (functionImports m) ! i)) fty" "sig_ok fty"
  shows "module_funcs m i = Some (sig_params fty, sig_results fty)"
proof -
  have "(of_nat i :: u32) < of_nat (length (items (functionImports m)))" "unat (of_nat i :: u32) = i"
    using assms(1,2) by (simp_all add: word_less_nat_alt unat_of_nat)
  then have "wasmModuleGetFunctionType m (of_nat i) = Val (sig_type fty)"
    using assms(1,3) by (simp add: wasmModuleGetFunctionType_def Let_def at_def has_type_def)
  then show ?thesis using sig_type_classes [OF assms(4)] assms(1,2) by (simp add: module_funcs_def)
qed

lemma module_funcs_defined:
  assumes "i < length (m_functions m)" "length (items (functionImports m)) + length (m_functions m) < 2 ^ 32"
    and "has_type m (functionTypeIndex (m_functions m ! i)) fty" "sig_ok fty"
  shows "module_funcs m (length (items (functionImports m)) + i) = Some (sig_params fty, sig_results fty)"
proof -
  let ?n = "length (items (functionImports m))"
  have "\<not> (of_nat (?n + i) :: u32) < of_nat ?n" "(of_nat (?n + i) :: u32) - of_nat ?n = of_nat i"
    using assms(1,2) by (simp_all add: word_less_nat_alt unat_of_nat del: of_nat_add) simp
  moreover have "(of_nat i :: u32) < of_nat (length (m_functions m))" "unat (of_nat i :: u32) = i"
    using assms(1,2) by (simp_all add: word_less_nat_alt unat_of_nat)
  ultimately have "wasmModuleGetFunctionType m (of_nat (?n + i)) = Val (sig_type fty)"
    using assms(1,3) by (simp add: wasmModuleGetFunctionType_def Let_def at_def has_type_def del: of_nat_add)
  then show ?thesis using sig_type_classes [OF assms(4)] assms(1,2) by (simp add: module_funcs_def del: of_nat_add)
qed

lemma expand_scratch:
  "map class_of (expand_locals (scratch_decls rc)) = [VC_I32, VC_I32, VC_I32, VC_I64, VC_F32, VC_F64] @ of_class rc"
proof -
  have "replicate 3 x = [x, x, x]" for x :: WasmValueType by (simp add: numeral_3_eq_3)
  then show ?thesis by (cases rc) (simp_all add: expand_locals_def scratch_decls_def)
qed

lemma module_env_fn_env:
  assumes t: "has_type m (functionTypeIndex f) (o_fty fn)" and ok: "sig_ok (o_fty fn)"
    and par: "param_classes fn = sig_params (o_fty fn)"
    and loc: "localsDeclarations f = scratch_decls (result_class (o_fty fn))"
  shows "module_env m f = fn_env fn (module_funcs m) (map enc_functype (functionTypes m))"
proof -
  let ?ps = "sig_params (o_fty fn)" and ?e = "expand_locals (scratch_decls (result_class (o_fty fn)))"
  have len: "length ?ps \<le> 2 ^ 31 + 1" using ok by (auto simp: sig_ok_def sig_params_def)
  have el: "length ?e \<le> 7" using arg_cong [OF expand_scratch, of length "result_class (o_fty fn)"]
    by (simp add: of_class_def)
  have lc: "local_classes fn = ?ps @ map class_of ?e"
    by (simp add: local_classes_def par expand_scratch)
  have "(if i < 2 ^ 32 then (case wasmModuleFunctionGetLocalType m f (of_nat i) of Val t \<Rightarrow> Some (class_of t) | _ \<Rightarrow> None) else None)
      = (if i < length (local_classes fn) then Some (local_classes fn ! i) else None)" for i
  proof (cases "i < 2 ^ 32")
    case True
    then have ui: "unat (of_nat i :: u32) = i" and un: "unat (of_nat (length ?ps) :: u32) = length ?ps"
      using len by (simp_all add: unat_of_nat)
    have pt: "parameterTypes (functionTypes m ! unat (functionTypeIndex f)) = map value_type ?ps"
      using t by (simp add: has_type_def sig_type_def)
    show ?thesis
    proof (cases "i < length ?ps")
      case lt: True
      have c: "class_of (value_type (?ps ! i)) = ?ps ! i"
        using sig_params_values [OF ok nth_mem [OF lt]] by simp
      have "(of_nat i :: u32) < of_nat (length ?ps)" using lt by (simp add: word_less_nat_alt ui un)
      with True lt t c show ?thesis
        by (simp add: wasmModuleFunctionGetLocalType_def at_def has_type_def sig_type_def ui lc nth_append)
    next
      case ge: False
      then have w: "\<not> (of_nat i :: u32) < of_nat (length ?ps)" "unat (of_nat i - of_nat (length ?ps) :: u32) = i - length ?ps"
        by (simp_all add: word_less_nat_alt ui un unat_sub word_le_nat_alt)
      have "locals_scan 0 (scratch_decls (result_class (o_fty fn))) (of_nat i - of_nat (length ?ps))
          = (if i - length ?ps < length ?e then Some (?e ! (i - length ?ps)) else None)"
        using locals_scan_eq [of 0 "scratch_decls (result_class (o_fty fn))" "of_nat i - of_nat (length ?ps)"] el w by simp
      with True ge t w show ?thesis
        by (auto simp: wasmModuleFunctionGetLocalType_def at_def has_type_def sig_type_def loc
            wasmLocalsDeclarationsGetType_def lc nth_append)
    qed
  next
    case False
    then show ?thesis using len el by (simp add: lc)
  qed
  then show ?thesis by (auto simp: module_env_def fn_env_def)
qed

section \<open>A program\<close>

lemma functionTypeIndex_exports:
  "map functionTypeIndex (fold (name_export n) es fs) = map functionTypeIndex fs"
proof (induction es arbitrary: fs)
  case (Cons e es)
  have "(map functionTypeIndex fs)[k := functionTypeIndex (fs ! k)] = map functionTypeIndex fs" for k
    by (simp flip: map_update)
  then have "map functionTypeIndex (name_export n e fs) = map functionTypeIndex fs"
    by (simp add: name_export_def map_update)
  with Cons show ?case by simp
qed simp

lemma placed_map:
  assumes "length fs = length bodies"
  shows "map functionTypeIndex (placed pos fs bodies) = map functionTypeIndex fs"
    "map localsDeclarations (placed pos fs bodies) = map fst bodies"
    "map code (placed pos fs bodies) = map snd bodies"
  unfolding atomize_conj using assms
proof (induction fs arbitrary: bodies pos)
  case (Cons f fs)
  then obtain ds body bodies' where b: "bodies = (ds, body) # bodies'" by (cases bodies) auto
  with Cons show ?case by simp
qed simp

lemma type_at_has_type:
  assumes "type_at (map enc_functype cts) (unat i) fty" "sig_ok fty" "list_all functype_ok cts"
    and "functionTypes m = cts"
  shows "has_type m i fty"
proof -
  have i: "unat i < length cts" using assms(1) by (simp add: type_at_def)
  moreover from this have "enc_functype (cts ! unat i) = enc_functype (sig_type fty)"
    using assms(1,2) by (simp add: type_at_def enc_functype_sig)
  moreover have "functype_ok (cts ! unat i)" using i assms(3) by (simp add: list_all_length)
  ultimately have "cts ! unat i = sig_type fty" using enc_functype_inj functype_ok_sig [OF assms(2)] by blast
  with i assms(4) show ?thesis by (simp add: has_type_def)
qed

text \<open>A module that holds the functions of a numbering, in their order, gives each index its signature.\<close>

lemma module_funcs_numbered:
  assumes num: "numbered nb" "nb_funcs nb = imps @ defs"
    and imp: "list_all2 (\<lambda>fn im. has_type m (fi_functionTypeIndex im) (o_fty fn)) imps (items (functionImports m))"
    and df: "list_all2 (\<lambda>fn f. has_type m (functionTypeIndex f) (o_fty fn)) defs (m_functions m)"
    and ok: "\<forall>fn \<in> set (imps @ defs). sig_ok (o_fty fn)" and n: "length (imps @ defs) < 2 ^ 32"
    and cx: "cx_func_index cx = nb_index nb" and ft: "fe_type ft = (\<lambda>i. o_fty (nb_funcs nb ! i))"
  shows "funcs_ok cx ft (module_funcs m)"
proof -
  have li: "length (items (functionImports m)) = length imps" and ld: "length (m_functions m) = length defs"
    using imp df by (simp_all add: list_all2_lengthD)
  have "module_funcs m i = Some (sig_params (o_fty (nb_funcs nb ! i)), sig_results (o_fty (nb_funcs nb ! i)))"
    if i: "i < length (imps @ defs)" for i
  proof (cases "i < length imps")
    case True
    then show ?thesis
      using module_funcs_imports [of i m "o_fty (imps ! i)"] imp ok n li
      by (simp add: num(2) nth_append list_all2_conv_all_nth)
  next
    case False
    define j where "j = i - length imps"
    then have "i = length imps + j" "j < length defs" using i False by simp_all
    then show ?thesis
      using module_funcs_defined [of j m "o_fty (defs ! j)"] df ok n li ld
      by (simp add: num(2) nth_append list_all2_conv_all_nth)
  qed
  then show ?thesis
    using num by (auto simp: funcs_ok_def cx ft numbered_def module_funcs_def split: if_splits)
qed

text \<open>What a successful run of \<open>codegen\<close> hands to \<open>write_module\<close>.\<close>

definition holds_program :: "cctx \<Rightarrow> Obj list \<Rightarrow> contents \<Rightarrow> bool" where
  "holds_program cx prog c \<longleftrightarrow> (let T = map enc_functype (ct_types c) in
     list_all2 (import_of T) (imported prog) (ct_imports c)
   \<and> list_all2 (\<lambda>fn i. type_at T (unat i) (o_fty fn)) (defined prog) (ct_indices c)
   \<and> list_all2 (compiled cx T) (defined prog) (ct_bodies c)
   \<and> length T < 2 ^ 32 \<and> length (imported prog @ defined prog) < 2 ^ 32)"

lemma contents_ok_program:
  assumes "holds_program cx prog c" "list_all functype_ok (ct_types c)"
    and "\<forall>fn \<in> set prog. is_function fn \<longrightarrow> sig_ok (o_fty fn) \<and> name_ok (o_name fn)"
  shows "contents_ok c"
proof -
  have "name_ok (drop 6 (o_name fn))" if "fn \<in> set (imported prog)" for fn
    using assms(3) that by (auto simp: imported_def is_import_def name_ok_def dest: in_set_dropD)
  moreover have "name_ok (str ''env'')" by (simp add: name_ok_def str_def)
  moreover have "length ds < 2 ^ 32" if "ct_bodies c ! k = (ds, b)" "k < length (ct_bodies c)" for k ds b
    using that assms(1) by (auto simp: holds_program_def Let_def list_all2_conv_all_nth compiled_def scratch_decls_def)
  ultimately show ?thesis
    using assms(1,2)
    by (auto simp: contents_ok_def list_all_length list_all2_conv_all_nth holds_program_def Let_def import_of_def type_at_def)
qed

text \<open>The numbering: both passes, with the types of any later table.\<close>

lemma number_functions_parts:
  assumes nb: "number_functions prog = Val (nimports, nb)"
    and sigs: "\<forall>fn \<in> set prog. is_function fn \<longrightarrow> sig_ok (o_fty fn) \<and> name_ok (o_name fn)"
  shows "nb_funcs nb = imported prog @ defined prog" "nimports = length (imported prog)" "numbered nb"
    "sigs_ok (nb_types nb)"
    "prefix (nb_types nb) T \<Longrightarrow> length T < 2 ^ 32 \<Longrightarrow> \<exists>ims idx. list_all2 (import_of T) (imported prog) ims
       \<and> list_all2 (\<lambda>fn i. type_at T (unat i) (o_fty fn)) (defined prog) idx
       \<and> buf_data (nb_imports nb) = concat (map enc_fimport ims)
       \<and> buf_data (nb_funcsec nb) = concat (map (\<lambda>i. uleb_bytes (unat (i :: u32))) idx)"
proof -
  let ?nb0 = "\<lparr>nb_imports = empty_buf, nb_funcsec = empty_buf, nb_types = [], nb_index = Map.empty, nb_funcs = []\<rparr>"
  obtain nb1 where n1: "res_fold (number_import (referenced prog)) prog ?nb0 = Val nb1"
    and n2: "res_fold number_def prog nb1 = Val nb" and n: "nimports = length (nb_funcs nb1)"
    using nb by (auto simp: number_functions_def res_bind_eq_Val)
  have num0: "numbered ?nb0" by (simp add: numbered_def)
  have x1: "types_ext [] (nb_types nb1)" "numbered nb1"
    using number_fold_mono [of prog ?nb0 _ nb1] n1 num0 sigs by auto
  have x2: "types_ext (nb_types nb1) (nb_types nb)" "numbered nb"
    using number_fold_mono [of prog nb1 _ nb] n2 x1 sigs by auto
  show "nb_funcs nb = imported prog @ defined prog" "nimports = length (imported prog)" "numbered nb"
      "sigs_ok (nb_types nb)"
    using number_funcs(1) [OF n1] number_funcs(2) [OF n2] n x1 x2 by (simp_all add: imported_def types_ext_def sigs_ok_def)
  assume T: "prefix (nb_types nb) T" "length T < 2 ^ 32"
  obtain ims where ims: "list_all2 (import_of T) (imported prog) ims"
    "buf_data (nb_imports nb1) = concat (map enc_fimport ims)" "nb_funcsec nb1 = empty_buf"
    using number_imports [OF n1 sigs types_ext_prefix [OF x2(1) T(1)] T(2) num0] by (auto simp: empty_buf_def imported_def)
  obtain idx :: "u32 list" where "list_all2 (\<lambda>fn i. type_at T (unat i) (o_fty fn)) (defined prog) idx"
    "buf_data (nb_funcsec nb) = concat (map (\<lambda>i. uleb_bytes (unat i)) idx)" "nb_imports nb = nb_imports nb1"
    using number_defs [OF n2 _ T x1(2)] sigs unfolding ims(3) by (fastforce simp: empty_buf_def)
  with ims show "\<exists>ims idx. list_all2 (import_of T) (imported prog) ims
       \<and> list_all2 (\<lambda>fn i. type_at T (unat i) (o_fty fn)) (defined prog) idx
       \<and> buf_data (nb_imports nb) = concat (map enc_fimport ims)
       \<and> buf_data (nb_funcsec nb) = concat (map (\<lambda>i. uleb_bytes (unat (i :: u32))) idx)" by auto
qed

lemma codegen_parts:
  assumes cg: "codegen ss mp prog = Val out" and L: "length (buf_data out) < 2 ^ 32"
    and opt: "0 \<le> ss" "0 < mp" "mp < 2 ^ 32" and sz: "\<forall>v \<in> set prog. 0 \<le> ty_size (o_ty v)"
    and sigs: "\<forall>fn \<in> set prog. is_function fn \<longrightarrow> sig_ok (o_fty fn) \<and> name_ok (o_name fn)"
    and nb: "number_functions prog = Val (nimports, nb)" and lay: "layout_globals ss mp prog = Val lay"
    and typed: "\<forall>fn \<in> set (defined prog). function_typed (module_ctx prog nb lay) nb fn"
  obtains p c where "write_module mp p = Val out" "encodes p c" "parts_ok mp p" "contents_ok c"
    "holds_program (module_ctx prog nb lay) prog c" "list_all single_result (ct_types c)"
proof -
  let ?cx = "module_ctx prog nb lay"
  obtain s cs img where g: "res_fold (gen_function ?cx) (drop nimports (nb_funcs nb))
      (\<lparr>cg_code = empty_buf, cg_ctl = [], ctl_id_counter = 0, cg_types = nb_types nb\<rparr>,
       buf_uleb empty_buf (of_nat (length (nb_funcs nb) - nimports))) = Val (s, cs)"
    and w: "write_module mp \<lparr>pt_types = cg_types s, pt_nimports = nimports, pt_imports = nb_imports nb,
      pt_nfuncs = length (nb_funcs nb), pt_funcsec = nb_funcsec nb, pt_codesec = cs, pt_stack_top = lay_stack_top lay,
      pt_start = nb_index nb (str ''_start''), pt_image = img\<rparr> = Val out" (is "write_module mp ?p = _")
    using cg by (auto simp: codegen_def nb lay Let_def res_bind_eq_Val)
  have raw: "length (buf_data cs) < 2 ^ 32" "length (concat (cg_types s)) < 2 ^ 32" "length (nb_funcs nb) < 2 ^ 32"
    using L length_concat_ge [of "\<lambda>i. uleb_bytes (unat (of_nat i :: u64))" "[0..<length (nb_funcs nb)]", OF uleb_nonempty(2)]
    unfolding write_module_raw(1) [OF w] by (simp_all add: raw_section_def)
  note N = number_functions_parts [OF nb sigs]
  have bodies: "drop nimports (nb_funcs nb) = defined prog"
    and nd: "length (nb_funcs nb) - nimports = length (defined prog)" by (simp_all add: N(1,2))
  obtain bs where x: "types_ext (nb_types nb) (cg_types s)" and bs: "list_all2 (compiled ?cx (cg_types s)) (defined prog) bs"
    and cs: "buf_data cs = uleb_bytes (length bs) @ enc_bodies bs"
    using gen_functions [OF g [unfolded bodies] typed raw(1) prefix_order.refl] raw(3) nd
    by (fastforce simp: buf_uleb_data empty_buf_def unat_of_nat dest: list_all2_lengthD)
  obtain cts where cts: "cg_types s = map enc_functype cts" "list_all functype_ok cts" "list_all single_result cts"
    using sigs_ok_types [of "cg_types s"] N(4) x by (auto simp: types_ext_def)
  have lT: "length (cg_types s) < 2 ^ 32"
    using raw(2) length_concat_ge [of enc_functype cts] by (simp add: cts(1) enc_functype_def)
  obtain ims idx where I: "list_all2 (import_of (cg_types s)) (imported prog) ims"
    "list_all2 (\<lambda>fn i. type_at (cg_types s) (unat i) (o_fty fn)) (defined prog) idx"
    "buf_data (nb_imports nb) = concat (map enc_fimport ims)"
    "buf_data (nb_funcsec nb) = concat (map (\<lambda>i. uleb_bytes (unat (i :: u32))) idx)"
    using N(5) [OF _ lT] x by (auto simp: types_ext_def)
  let ?c = "\<lparr>ct_types = cts, ct_imports = ims, ct_indices = idx, ct_bodies = bs\<rparr>"
  have len: "length ims = length (imported prog)" "length idx = length (defined prog)" "length bs = length (defined prog)"
    using I(1,2) bs by (simp_all add: list_all2_conv_all_nth)
  have "encodes ?p ?c" by (simp add: encodes_def cts(1) N(1,2) len I(3,4) cs)
  moreover have "parts_ok mp ?p"
    using opt layout_stack_top [OF lay opt(1) sz] N(3) by (auto simp: parts_ok_def numbered_def split: option.split)
  moreover have h: "holds_program ?cx prog ?c"
    using I(1,2) bs lT raw(3) by (simp add: holds_program_def N(1) cts(1))
  moreover have "contents_ok ?c" by (rule contents_ok_program [OF h _ sigs]) (simp add: cts(2))
  ultimately show thesis using w that cts(3) by fastforce
qed

text \<open>A module that holds the program, and its bodies.\<close>

lemma program_bodies_valid:
  assumes h: "holds_program cx prog c" and ok: "contents_ok c"
    and num: "numbered nb" "nb_funcs nb = imported prog @ defined prog"
    and sigs: "\<forall>fn \<in> set prog. is_function fn \<longrightarrow> sig_ok (o_fty fn) \<and> name_ok (o_name fn)"
    and cx: "cx_func_index cx = nb_index nb" and typed: "\<forall>fn \<in> set (defined prog). function_typed cx nb fn"
    and m: "functionTypes m = ct_types c" "items (functionImports m) = ct_imports c"
      "map functionTypeIndex (m_functions m) = ct_indices c"
      "map localsDeclarations (m_functions m) = map fst (ct_bodies c)" "map code (m_functions m) = map snd (ct_bodies c)"
  shows "list_all2 (\<lambda>fn im. fi_module im = str ''env'' \<and> fi_name im = drop 6 (o_name fn)
         \<and> has_type m (fi_functionTypeIndex im) (o_fty fn)) (imported prog) (items (functionImports m))"
    (is "list_all2 ?I _ _")
    and "list_all2 (\<lambda>fn f. has_type m (functionTypeIndex f) (o_fty fn)
         \<and> valid_body (module_env m f) (code f) (sig_results (o_fty fn))) (defined prog) (m_functions m)"
proof -
  let ?T = "map enc_functype (ct_types c)"
  note H = h [unfolded holds_program_def Let_def]
  have sok: "sig_ok (o_fty fn)" if "fn \<in> set (imported prog) \<union> set (defined prog)" for fn
    using that sigs by (auto simp: imported_def defined_def is_import_def)
  have hasT: "has_type m i (o_fty fn)" if "type_at ?T (unat i) (o_fty fn)" "sig_ok (o_fty fn)" for i and fn :: Obj
    by (rule type_at_has_type [OF that _ m(1)]) (use ok in \<open>simp add: contents_ok_def\<close>)
  have len: "length (ct_indices c) = length (defined prog)" "length (ct_bodies c) = length (defined prog)"
    using H by (simp_all add: list_all2_conv_all_nth)
  have lf: "length (m_functions m) = length (defined prog)" using arg_cong [OF m(3), of length] len(1) by simp
  have ix: "functionTypeIndex (m_functions m ! k) = ct_indices c ! k"
    "localsDeclarations (m_functions m ! k) = fst (ct_bodies c ! k)"
    "code (m_functions m ! k) = snd (ct_bodies c ! k)" if "k < length (defined prog)" for k
    using that m(3-5) len lf by (metis nth_map)+
  show 1: "list_all2 ?I (imported prog) (items (functionImports m))"
    using H hasT sok unfolding m(2) by (auto simp: list_all2_conv_all_nth import_of_def)
  have 2: "list_all2 (\<lambda>fn f. has_type m (functionTypeIndex f) (o_fty fn)) (defined prog) (m_functions m)"
    using H hasT sok ix(1) lf by (auto simp: list_all2_conv_all_nth)
  have "valid_body (module_env m (m_functions m ! k)) (code (m_functions m ! k)) (sig_results (o_fty (defined prog ! k)))"
    if k: "k < length (defined prog)" for k
  proof -
    let ?f = "m_functions m ! k" and ?fn = "defined prog ! k"
    have ft: "function_typed cx nb ?fn" using typed k by simp
    obtain s1 out1 s2 out2 where c: "localsDeclarations ?f = scratch_decls (result_class (o_fty ?fn))"
      "gen_function cx ?fn (s1, out1) = Val (s2, out2)" "code ?f = buf_data (cg_code s2)" "prefix (cg_types s2) ?T"
      using H k ix by (auto simp: list_all2_conv_all_nth compiled_def)
    obtain offs fsz where off: "assign_lvar_offsets (o_locals ?fn) 0 = Val (offs, fsz)"
      using c(2) by (auto simp: gen_function_def res_bind_eq_Val)
    have fok: "fn_ok (fn_ctx cx ?fn offs fsz) (module_fenv nb ?fn) ?fn" using ft off by (simp add: function_typed_def)
    have fs: "funcs_ok (fn_ctx cx ?fn offs fsz) (module_fenv nb ?fn) (module_funcs m)"
      by (rule module_funcs_numbered [OF num list_all2_mono [OF 1] 2])
        (use sok H cx in \<open>auto simp: fn_ctx_def module_fenv_def\<close>)
    have "valid_body (fn_env ?fn (module_funcs m) ?T) (buf_data (cg_code s2)) (sig_results (o_fty ?fn))"
      by (rule gen_function_valid_in [OF c(2) off fok fs c(4)]) (use H in simp)
    moreover have "module_env m ?f = fn_env ?fn (module_funcs m) (map enc_functype (functionTypes m))"
      by (rule module_env_fn_env)
        (use 2 k c(1) ft in \<open>auto simp: list_all2_conv_all_nth function_typed_def\<close>)
    ultimately show ?thesis by (simp add: c(3) m(1))
  qed
  with 2 show "list_all2 (\<lambda>fn f. has_type m (functionTypeIndex f) (o_fty fn)
      \<and> valid_body (module_env m f) (code f) (sig_results (o_fty fn))) (defined prog) (m_functions m)"
    by (auto simp: list_all2_conv_all_nth)
qed

lemma read_back_fields:
  assumes "length (ct_bodies c) = length (ct_indices c)"
  shows "functionTypes (read_back mp p c n) = ct_types c" "items (functionImports (read_back mp p c n)) = ct_imports c"
    "map functionTypeIndex (m_functions (read_back mp p c n)) = ct_indices c"
    "map localsDeclarations (m_functions (read_back mp p c n)) = map fst (ct_bodies c)"
    "map code (m_functions (read_back mp p c n)) = map snd (ct_bodies c)"
  using assms
  by (simp_all add: read_back_def items_append_arrays empty_array_def placed_map functionTypeIndex_exports comp_def
      declared_def)

text \<open>The bytes of a compiled program, read back.\<close>

lemma compile_reads:
  assumes cg: "codegen ss mp prog = Val out" and L: "length (buf_data out) < 2 ^ 32"
    and opt: "0 \<le> ss" "0 < mp" "mp < 2 ^ 32" and sz: "\<forall>v \<in> set prog. 0 \<le> ty_size (o_ty v)"
    and sigs: "\<forall>fn \<in> set prog. is_function fn \<longrightarrow> sig_ok (o_fty fn) \<and> name_ok (o_name fn)"
    and nb: "number_functions prog = Val (nimports, nb)" and lay: "layout_globals ss mp prog = Val lay"
    and typed: "\<forall>fn \<in> set (defined prog). function_typed (module_ctx prog nb lay) nb fn"
  obtains p c where "encodes p c" "write_module mp p = Val out" "list_all functype_ok (ct_types c)" "list_all single_result (ct_types c)"
    "wasmModuleRead plenty dbg (buf_data out) = Val (read_back mp p c (length (buf_data out)))"
    "list_all2 (\<lambda>fn im. fi_module im = str ''env'' \<and> fi_name im = drop 6 (o_name fn)
         \<and> has_type (read_back mp p c (length (buf_data out))) (fi_functionTypeIndex im) (o_fty fn))
       (imported prog) (items (functionImports (read_back mp p c (length (buf_data out)))))"
    "list_all2 (\<lambda>fn f. has_type (read_back mp p c (length (buf_data out))) (functionTypeIndex f) (o_fty fn)
         \<and> valid_body (module_env (read_back mp p c (length (buf_data out))) f) (code f) (sig_results (o_fty fn)))
       (defined prog) (m_functions (read_back mp p c (length (buf_data out))))"
proof -
  obtain p c where w: "write_module mp p = Val out" "encodes p c" "parts_ok mp p" "contents_ok c"
    and h: "holds_program (module_ctx prog nb lay) prog c" and one: "list_all single_result (ct_types c)"
    by (rule codegen_parts [OF cg L opt sz sigs nb lay typed])
  note N = number_functions_parts [OF nb sigs]
  have "length (ct_bodies c) = length (ct_indices c)" using w(2) by (simp add: encodes_def)
  note V = program_bodies_valid [OF h w(4) N(3,1) sigs _ typed read_back_fields [OF this], simplified module_ctx_def, simplified]
  show thesis
    by (rule that [OF w(2,1) _ one write_module_read_back [OF w(2,1,3,4) L] V])
      (use w(4) in \<open>simp add: contents_ok_def\<close>)
qed

text \<open>
  C2. What the compiler emits, the translator reads: when \<^verbatim>\<open>codegen\<close> accepts a program whose functions the
  parser has typed, the bytes it writes are read by \<^verbatim>\<open>wasmModuleRead\<close> without an error, and the module read
  imports exactly the undefined functions the program references, under their names less \<^verbatim>\<open>__env_\<close>, holds
  exactly the program's function definitions, in order, each with its signature, and every body validates
  against that signature in the environment of locals, functions and types the translator looks up.
\<close>

theorem compile_valid:
  assumes cg: "codegen ss mp prog = Val out" and L: "length (buf_data out) < 2 ^ 32"
    and opt: "0 \<le> ss" "0 < mp" "mp < 2 ^ 32" and sz: "\<forall>v \<in> set prog. 0 \<le> ty_size (o_ty v)"
    and sigs: "\<forall>fn \<in> set prog. is_function fn \<longrightarrow> sig_ok (o_fty fn) \<and> name_ok (o_name fn)"
    and nb: "number_functions prog = Val (nimports, nb)" and lay: "layout_globals ss mp prog = Val lay"
    and typed: "\<forall>fn \<in> set (defined prog). function_typed (module_ctx prog nb lay) nb fn"
  shows "\<exists>m. wasmModuleRead plenty dbg (buf_data out) = Val m
    \<and> list_all2 (\<lambda>fn im. fi_module im = str ''env'' \<and> fi_name im = drop 6 (o_name fn)
         \<and> has_type m (fi_functionTypeIndex im) (o_fty fn)) (imported prog) (items (functionImports m))
    \<and> list_all2 (\<lambda>fn f. has_type m (functionTypeIndex f) (o_fty fn)
         \<and> valid_body (module_env m f) (code f) (sig_results (o_fty fn))) (defined prog) (m_functions m)"
  by (rule compile_reads [OF assms, of dbg]) blast

section \<open>Example\<close>

text \<open>A program with one import, \<^verbatim>\<open>extern void __env_put(int); void _start(void) { __env_put(7); }\<close>.\<close>

definition ex_put :: Obj where
  "ex_put = \<lparr>o_name = str ''__env_put'', o_ty = FuncType (Func ty_void [ty_int] False), o_align = 1, is_function = True,
     is_definition = False, is_tls = False, init_data = None, o_rel = [],
     o_fty = Func ty_void [ty_int] False, o_params = [], o_body = ND_NULL_EXPR, o_locals = [], va_area = 0\<rparr>"

definition ex_start :: Obj where
  "ex_start = \<lparr>o_name = str ''_start'', o_ty = FuncType (Func ty_void [] False), o_align = 1, is_function = True,
     is_definition = True, is_tls = False, init_data = None, o_rel = [],
     o_fty = Func ty_void [] False, o_params = [],
     o_body = ND_BLOCK [ND_EXPR_STMT (ND_FUNCALL (Some ty_void) (Func ty_void [ty_int] False)
       (ND_VAR (Some (FuncType (Func ty_void [ty_int] False))) (Global 0)) [ex_int 7] None)],
     o_locals = [], va_area = 0\<rparr>"

definition ex_prog :: "Obj list" where "ex_prog = [ex_put, ex_start]"

lemma ex_prog_functions: "imported ex_prog = [ex_put]" "defined ex_prog = [ex_start]"
  by (simp_all add: ex_prog_def imported_def defined_def is_import_def referenced_def ex_put_def ex_start_def
      function_names_def str_def ex_int_def)

text \<open>The steps of compiling it.\<close>

lemma ex_prog_numbers: "case number_functions ex_prog of Val (n, nb) \<Rightarrow> n = 1 \<and> nb_types nb = [[0x60, 1, 0x7F, 0], [0x60, 0, 0]]
     \<and> buf_data (nb_imports nb) = [3, 0x65, 0x6E, 0x76, 3, 0x70, 0x75, 0x74, 0, 0] \<and> buf_data (nb_funcsec nb) = [1]
     \<and> nb_index nb (str ''_start'') = Some 1 \<and> nb_index nb (str ''__env_put'') = Some 0 | _ \<Rightarrow> False"
  by code_simp

lemma ex_prog_layout: "case layout_globals 65536 3 ex_prog of
    Val lay \<Rightarrow> lay_stack_top lay = 66560 \<and> lay_data_end lay = data_base | _ \<Rightarrow> False"
  by code_simp



lemma length_uleb: "n < 128 \<Longrightarrow> length (uleb_bytes n) = 1"
  by (simp add: uleb_below_128)

lemma ty_void_class: "vclass (Some ty_void) = VC_NONE" "is_struct ty_void = False"
  by code_simp+

lemma sleb_7: "sleb_bytes 7 = [7]" "sleb_bytes 1 = [1]" "sleb_bytes 66560 = [0x80, 0x88, 4]"
   "sleb_bytes data_base = [0x80, 8]"
  by code_simp+

lemma ex_prog_body:
  assumes "nb_index nb (str ''__env_put'') = Some 0"
  shows "\<exists>s out. gen_function (module_ctx ex_prog nb lay) ex_start
          (\<lparr>cg_code = empty_buf, cg_ctl = [], ctl_id_counter = 0, cg_types = nb_types nb\<rparr>, buf_uleb empty_buf 1) = Val (s, out)
      \<and> cg_types s = nb_types nb \<and> length (buf_data out) < 1000"
  using assms ty_void_class sleb_7
  by (simp add: ex_start_def ex_prog_def ex_put_def ex_int_def emitter_defs gen_function_def function_code_def fn_ctx_def module_ctx_def top_labels_def
      result_class_def gen_expr_def RET_LABEL_def Let_def align_int_def int_ok_def gen_funcall_def callee_of_def str_def gen_call_def gen_num_def
    gen_as_def on_ty_def func_idx_def empty_buf_def buf_buf_def function_locals_def buf_uleb_data uleb_small length_uleb buf_sleb_data)

lemma ex_start_typed:
  assumes "nb_index nb (str ''__env_put'') = Some 0" "nb_funcs nb = [ex_put, ex_start]"
  shows "function_typed (module_ctx ex_prog nb lay) nb ex_start"
proof -
  have "assign_lvar_offsets (o_locals ex_start) 0 = Val ([], 0)" by code_simp
  moreover have "vclass (Some ty_void) = VC_NONE" "is_struct ty_void = False" by code_simp+
  ultimately show ?thesis
    using assms
    by (simp add: function_typed_def ex_start_def ex_put_def ex_prog_def ex_int_def sig_ok_def param_classes_def
        sig_params_def fn_ok_def typed_def module_fenv_def fn_ctx_def module_ctx_def funcall_ok_def callee_of_def
        call_ok_def args_ok_def has_value_def int64_def str_def sig_results_def result_class_def)
qed


lemma length_uleb_le: "n < 2 ^ (7 * k) \<Longrightarrow> 1 \<le> k \<Longrightarrow> length (uleb_bytes n) \<le> k"
proof (induction k arbitrary: n)
  case (Suc k)
  show ?case
  proof (cases "n < 128")
    case False
    then have "n div 128 < 2 ^ (7 * k)" "1 \<le> k"
      using Suc.prems by (cases k; simp add: power_add less_mult_imp_div_less mult.commute)+
    with Suc.IH [of "n div 128"] False show ?thesis by (subst uleb_bytes.simps) simp
  qed (simp add: length_uleb)
qed simp

lemma length_uleb_64: "length (uleb_bytes (unat (w :: u64))) \<le> 10"
proof -
  have "unat w < 2 ^ 64" using unsigned_less [where ?'a = nat, of w] by simp
  then show ?thesis by (intro length_uleb_le) simp_all
qed

lemma ex_prog_sigs: "\<forall>fn \<in> set ex_prog. is_function fn \<longrightarrow> sig_ok (o_fty fn) \<and> name_ok (o_name fn)"
  by (simp add: ex_prog_def ex_put_def ex_start_def sig_ok_def name_ok_def str_def)

lemma ex_prog_compiles:
  assumes nb: "number_functions ex_prog = Val (n, nb)" and lay: "layout_globals 65536 3 ex_prog = Val lay"
  shows "\<exists>out. codegen 65536 3 ex_prog = Val out \<and> length (buf_data out) < 2 ^ 32"
proof -
  note F = number_functions_parts(1,2) [OF nb ex_prog_sigs, unfolded ex_prog_functions, simplified]
  obtain s cs where gen: "gen_function (module_ctx ex_prog nb lay) ex_start
      (\<lparr>cg_code = empty_buf, cg_ctl = [], ctl_id_counter = 0, cg_types = nb_types nb\<rparr>, buf_uleb empty_buf 1) = Val (s, cs)"
    "cg_types s = [[0x60, 1, 0x7F, 0], [0x60, 0, 0]]" "length (buf_data cs) < 1000"
    using ex_prog_body [of nb lay] ex_prog_numbers nb by auto
  have img: "data_image cx ps ex_prog [] = Val []" for cx ps by (simp add: ex_prog_def ex_put_def ex_start_def)
  have lay': "lay_stack_top lay = 66560" "lay_data_end lay = data_base" using ex_prog_layout lay by simp_all
  have nb': "buf_data (nb_imports nb) = [3, 0x65, 0x6E, 0x76, 3, 0x70, 0x75, 0x74, 0, 0]" "buf_data (nb_funcsec nb) = [1]"
    "nb_index nb (str ''_start'') = Some 1" using ex_prog_numbers nb by simp_all
  let ?p = "\<lparr>pt_types = cg_types s, pt_nimports = 1, pt_imports = nb_imports nb, pt_nfuncs = 2, pt_funcsec = nb_funcsec nb,
     pt_codesec = cs, pt_stack_top = lay_stack_top lay, pt_start = nb_index nb (str ''_start''), pt_image = []\<rparr>"
  obtain out where out: "write_module 3 ?p = Val out" unfolding write_module_def Let_def by (simp add: int_ok_def lay')
  have d: "drop 1 [ex_put, ex_start] = [ex_start]" by simp
  have "codegen 65536 3 ex_prog = Val out"
    by (simp add: codegen_def nb lay F d gen img lay' out [unfolded lay' gen(2)] flip: One_nat_def)
  moreover have "length (buf_data out) < 2 ^ 32"
  proof -
    have "length (enc_name (str ''memory'')) = 7" "length (enc_name (str ''_start'')) = 7" by code_simp+
    moreover have "length (uleb_bytes (unat (of_nat (length (buf_data cs)) :: u64))) \<le> 10" by (rule length_uleb_64)
    ultimately show ?thesis
      unfolding write_module_raw(1) [OF out]
      using gen(3) by (simp add: raw_section_def gen(2) nb' lay' min_pages_def length_uleb uleb_small sleb_7
          wasmMagic_def enc_const_def upt_rec)
  qed
  ultimately show ?thesis by blast
qed

lemma compile_valid_witness:
  "\<exists>out m. codegen 65536 3 ex_prog = Val out \<and> wasmModuleRead plenty False (buf_data out) = Val m
    \<and> fi_name (items (functionImports m) ! 0) = str ''put''
    \<and> valid_body (module_env m (m_functions m ! 0)) (code (m_functions m ! 0)) []"
proof -
  obtain n nb where nb: "number_functions ex_prog = Val (n, nb)" "nb_index nb (str ''__env_put'') = Some 0"
    using ex_prog_numbers by (auto split: res.splits)
  obtain lay where lay: "layout_globals 65536 3 ex_prog = Val lay"
    using ex_prog_layout by (auto split: res.splits)
  obtain out where out: "codegen 65536 3 ex_prog = Val out" "length (buf_data out) < 2 ^ 32"
    using ex_prog_compiles [OF nb(1) lay] by blast
  have funcs: "nb_funcs nb = [ex_put, ex_start]"
    using number_functions_parts(1) [OF nb(1) ex_prog_sigs] by (simp add: ex_prog_functions)
  have sizes: "\<forall>v \<in> set ex_prog. 0 \<le> ty_size (o_ty v)" by code_simp
  have typed: "\<forall>fn \<in> set (defined ex_prog). function_typed (module_ctx ex_prog nb lay) nb fn"
    using ex_start_typed [OF nb(2) funcs] by (simp add: ex_prog_functions)
  have rs: "sig_results (o_fty ex_start) = []" by code_simp
  from compile_valid [OF out(1,2) _ _ _ sizes ex_prog_sigs nb(1) lay typed, of False] out rs show ?thesis
    by (auto simp: ex_prog_functions list_all2_Cons1 ex_put_def str_def)
qed

end
