(* ===== verification/C_Runs.thy ===== *)
theory C_Runs
  imports C_Function Compile_Module
begin

text \<open>
  Reasoning about the writer's actions when memory never runs out. \<open>seen w\<close> is what the translation depends
  on: the code still to read, the types of the operand stack, the height and the type of every label, and
  whether the code is unreachable. \<open>runs s a s'\<close>: from every writer seen as \<open>s\<close> the action succeeds, and
  leaves one seen as \<open>s'\<close>. Text, indentation, declarations and debug lines are free to change.
\<close>

named_theorems runs_intros "actions that succeed"

section \<open>What the translation depends on\<close>

definition stack_types :: "'a WasmTypeStack \<Rightarrow> 'a list" where
  "stack_types ts = take (ts_length ts) (ts_slots ts)"

definition stack_ok :: "'a WasmTypeStack \<Rightarrow> bool" where
  "stack_ok ts \<longleftrightarrow> ts_length ts \<le> length (ts_slots ts)"

record seen =
  sn_code :: buffer
  sn_types :: "WasmValueType list"
  sn_labels :: "(nat \<times> WasmValueType option) list"
  sn_ignore :: bool

definition label_view :: "WasmLabel \<Rightarrow> nat \<times> WasmValueType option" where
  "label_view l = (lb_typeStackLength l, lb_type l)"

definition seen :: "WasmCFunctionWriter \<Rightarrow> seen" where
  "seen w = \<lparr>sn_code = rd_buffer (cw_code w), sn_types = stack_types (cw_typeStack w),
     sn_labels = map label_view (items (ls_labels (cw_labelStack w))), sn_ignore = cw_ignore w\<rparr>"

definition writer_ok :: "WasmCFunctionWriter \<Rightarrow> bool" where
  "writer_ok w \<longleftrightarrow> stack_ok (cw_typeStack w) \<and> stack_ok (cw_stackDeclarations w)"

definition is_seen :: "WasmCFunctionWriter \<Rightarrow> seen \<Rightarrow> bool" where
  "is_seen w s \<longleftrightarrow> writer_ok w \<and> seen w = s"

definition runs :: "seen \<Rightarrow> act \<Rightarrow> seen \<Rightarrow> bool" where
  "runs s a s' \<longleftrightarrow> (\<forall>w. is_seen w s \<longrightarrow> (\<exists>w'. a w = Val w' \<and> is_seen w' s'))"

lemma runsD: "runs s a s' \<Longrightarrow> is_seen w s \<Longrightarrow> \<exists>w'. a w = Val w' \<and> is_seen w' s'"
  by (simp add: runs_def)

lemma length_stack_types: "stack_ok ts \<Longrightarrow> length (stack_types ts) = ts_length ts"
  by (simp add: stack_types_def stack_ok_def)

lemma is_seen_length: "is_seen w s \<Longrightarrow> ts_length (cw_typeStack w) = length (sn_types s)"
  by (auto simp: is_seen_def writer_ok_def seen_def length_stack_types)

lemma is_seen_nth:
  assumes "is_seen w s" "i < length (sn_types s)"
  shows "i < length (ts_slots (cw_typeStack w))" "ts_slots (cw_typeStack w) ! i = sn_types s ! i"
  using assms by (auto simp: is_seen_def writer_ok_def seen_def stack_types_def stack_ok_def)

section \<open>Sequencing\<close>

lemma runs_Val [runs_intros]: "runs s Val s"
  by (simp add: runs_def)

lemma runs_Nil [runs_intros]: "runs s (steps []) s"
  by (simp add: runs_def)

lemma runs_Cons: "runs s a s1 \<Longrightarrow> runs s1 (steps as) s2 \<Longrightarrow> runs s (steps (a # as)) s2"
  unfolding runs_def steps.simps(2) by (metis res_bind.simps(1))

declare steps.simps [simp del]

lemma runs_if [runs_intros]:
  "(b \<Longrightarrow> runs s f s') \<Longrightarrow> (\<not> b \<Longrightarrow> runs s g s') \<Longrightarrow> runs s (if b then f else g) s'"
  by simp

lemma runs_if_written: "\<not> sn_ignore s \<Longrightarrow> runs s a s' \<Longrightarrow> runs s (if_written a) s'"
  by (auto simp: runs_def if_written_def is_seen_def seen_def)

lemma runs_if_written_ignored: "sn_ignore s \<Longrightarrow> runs s (if_written a) s"
  by (auto simp: runs_def if_written_def is_seen_def seen_def)

lemma runs_aborting: "r = Val x \<Longrightarrow> runs s (k x) s' \<Longrightarrow> runs s (aborting r k) s'"
  by (simp add: runs_def aborting_def)

lemma runs_must_res: "r = Val x \<Longrightarrow> runs s (k x) s' \<Longrightarrow> runs s (must_res r k) s'"
  by (simp add: runs_def must_res_def)

text \<open>A sequence of actions that change nothing seen.\<close>

lemma runs_steps_same: "(\<And>a. a \<in> set as \<Longrightarrow> runs s a s) \<Longrightarrow> runs s (steps as) s"
proof (induction as)
  case Nil
  show ?case by (rule runs_Nil)
next
  case (Cons a as)
  then show ?case by (intro runs_Cons [of s a s]) auto
qed

section \<open>Reading\<close>

definition reads_as :: "(unit, 'a) rd \<Rightarrow> u8 list \<Rightarrow> 'a \<Rightarrow> bool" where
  "reads_as m bs x \<longleftrightarrow> (\<forall>rest k. \<exists>k'. m (input (bs @ rest) k) = Val (x, input rest k'))"

lemma reads_as_u32: "n < 2 ^ 32 \<Longrightarrow> reads_as (rd_u32 ()) (uleb_bytes n) (of_nat n)"
  using rd_u32_uleb [of "()" "of_nat n :: u32"] by (auto simp: reads_as_def unat_of_nat_u32)

lemma reads_as_zero: "reads_as (rd_u32 ()) [0] 0"
  using reads_as_u32 [of 0] by (simp add: uleb_zero)

lemma reads_as_bind: "reads_as m a x \<Longrightarrow> reads_as (f x) b y \<Longrightarrow> reads_as (rd_bind m f) (a @ b) y"
  unfolding reads_as_def rd_bind_def append_assoc
  by (metis (no_types, lifting) res_bind.simps(1) case_prod_conv)

lemma reads_as_return: "reads_as (rd_return x) [] x"
  by (simp add: reads_as_def rd_return_def)

lemma reads_as_map: "reads_as m a x \<Longrightarrow> f x = rd_return y \<Longrightarrow> reads_as (rd_bind m f) a y"
  using reads_as_bind [of m a x f "[]" y] reads_as_return [of y] by simp

lemma runs_must:
  assumes m: "reads_as m bs x" and k: "runs (s\<lparr>sn_code := rest\<rparr>) (k x) s'" and c: "sn_code s = bs @ rest"
  shows "runs s (must m k) s'"
  unfolding runs_def
proof (intro allI impI)
  fix w assume w: "is_seen w s"
  have buf: "rd_buffer (cw_code w) = bs @ rest" using w c by (auto simp: is_seen_def seen_def)
  have eq: "cw_code w = input (bs @ rest) (rd_allocs (cw_code w))"
    using buf by (cases "cw_code w") simp
  obtain k' where r: "m (cw_code w) = Val (x, input rest k')"
    using m unfolding reads_as_def eq [symmetric] by (metis eq)
  have "is_seen (w\<lparr>cw_code := input rest k'\<rparr>) (s\<lparr>sn_code := rest\<rparr>)"
    using w by (auto simp: is_seen_def seen_def writer_ok_def)
  from runsD [OF k this] show "\<exists>w'. must m k w = Val w' \<and> is_seen w' s'"
    by (simp add: must_def r)
qed

section \<open>Text\<close>

text \<open>Builder operations always succeed: they make room first.\<close>

definition builds :: "(StringBuilder \<Rightarrow> (unit, StringBuilder) rd) \<Rightarrow> bool" where
  "builds f \<longleftrightarrow> (\<forall>b r. \<exists>b' k. f b r = Val (b', r\<lparr>rd_allocs := k\<rparr>))"

lemma runs_on_builder: "builds f \<Longrightarrow> runs s (on_builder f) s"
  unfolding runs_def on_builder_def must_def
proof (intro allI impI)
  fix w assume f: "builds f" and w: "is_seen w s"
  obtain b k where e: "f (cw_builder w) (cw_code w) = Val (b, (cw_code w)\<lparr>rd_allocs := k\<rparr>)"
    using f unfolding builds_def by blast
  show "\<exists>w'. (case f (cw_builder w) (cw_code w) of
        Val (x, r) \<Rightarrow> Val (w\<lparr>cw_code := r\<rparr>\<lparr>cw_builder := x\<rparr>) | Stop _ \<Rightarrow> Stop Failed | Unsafe \<Rightarrow> Unsafe) = Val w'
      \<and> is_seen w' s"
    using w by (auto simp: e is_seen_def seen_def writer_ok_def)
qed

lemma same_allocs: "\<exists>k. r = r\<lparr>rd_allocs := k\<rparr>" for r :: rd_state
  by (rule exI [of _ "rd_allocs r"]) simp

lemma builds_appendSized: "builds (stringBuilderAppendSized plenty t)"
  by (auto simp: builds_def stringBuilderAppendSized_def stringBuilderEnsureCapacity_def append_text_def Let_def
      rd_bind_def rd_return_def rd_calloc_def plenty_def same_allocs)

lemma builds_append: "builds (stringBuilderAppend plenty t)"
  by (simp add: stringBuilderAppend_def builds_appendSized)

lemma builds_appendChar: "builds (stringBuilderAppendChar plenty c)"
proof -
  have "stringBuilderAppendChar plenty c = stringBuilderAppendSized plenty [c]"
    by (simp add: fun_eq_iff stringBuilderAppendSized_def stringBuilderAppendChar_def)
  then show ?thesis by (simp add: builds_appendSized)
qed

lemma builds_printed: "length t < room \<Longrightarrow> builds (append_printed plenty room t)"
  by (simp add: builds_def append_printed_def) (metis builds_appendSized builds_def)

text \<open>Every number fits the buffer it is printed into.\<close>

lemma length_decimal: "n < 10 ^ k \<Longrightarrow> 0 < k \<Longrightarrow> length (decimal n) \<le> k"
proof (induction k arbitrary: n)
  case (Suc k)
  show ?case
  proof (cases "n < 10")
    case True
    then show ?thesis by (simp add: decimal.simps)
  next
    case False
    then have "0 < k" using Suc.prems by (cases k) auto
    moreover have "n div 10 < 10 ^ k" using Suc.prems by (simp add: less_mult_imp_div_less)
    ultimately show ?thesis using Suc.IH [of "n div 10"] False by (simp add: decimal.simps [of n])
  qed
qed simp

lemma length_hex [simp]: "length (hex k n) = k"
  by (induction k arbitrary: n) auto

lemma length_decimal_int: "\<bar>i\<bar> < 10 ^ k \<Longrightarrow> 0 < k \<Longrightarrow> length (decimal_int i) \<le> Suc k"
  using length_decimal [of "nat \<bar>i\<bar>" k]
  by (auto simp: decimal_int_def abs_if nat_less_iff of_nat_power [symmetric] simp del: of_nat_power)

lemma builds_U32: "builds (stringBuilderAppendU32 plenty v)"
  unfolding stringBuilderAppendU32_def
  by (rule builds_printed) (use length_decimal [of "unat v" 10] unat_u32_less [of v] in simp)

lemma builds_U64: "builds (stringBuilderAppendU64 plenty v)"
  unfolding stringBuilderAppendU64_def
  by (rule builds_printed) (use length_decimal [of "unat v" 20] unat_u64_less [of v] in simp)

lemma builds_I32: "builds (stringBuilderAppendI32 plenty v)"
proof -
  have "\<bar>sint v\<bar> < 10 ^ 10" using sint_greater_eq [of v] sint_less [of v] by simp
  then show ?thesis unfolding stringBuilderAppendI32_def
    by (intro builds_printed) (use length_decimal_int [of "sint v" 10] in simp)
qed

lemma builds_I64: "builds (stringBuilderAppendI64 plenty v)"
proof -
  have "\<bar>sint v\<bar> < 10 ^ 19" using sint_greater_eq [of v] sint_less [of v] by simp
  then show ?thesis unfolding stringBuilderAppendI64_def
    by (intro builds_printed) (use length_decimal_int [of "sint v" 19] in simp)
qed

lemma builds_hex: "builds (stringBuilderAppendU32Hex plenty v)" "builds (stringBuilderAppendU64Hex plenty v')"
  unfolding stringBuilderAppendU32Hex_def stringBuilderAppendU64Hex_def by (intro builds_printed, simp)+

text \<open>Except a character from 0x80 on.\<close>

lemma builds_charHex: "unat c < 128 \<Longrightarrow> builds (stringBuilderAppendCharHex plenty c)"
  unfolding stringBuilderAppendCharHex_def by (rule builds_printed) (simp add: char_hex_def)

lemma runs_wasmCWrite [runs_intros]: "ce_al env = plenty \<Longrightarrow> runs s (wasmCWrite env t) s"
  by (simp add: wasmCWrite_def runs_on_builder builds_append)

lemma runs_wasmCWriteChar [runs_intros]: "ce_al env = plenty \<Longrightarrow> runs s (wasmCWriteChar env c) s"
  by (simp add: wasmCWriteChar_def runs_on_builder builds_appendChar)

lemma runs_write_u32 [runs_intros]: "ce_al env = plenty \<Longrightarrow> runs s (write_u32 env v) s"
  by (simp add: write_u32_def runs_on_builder builds_U32)

lemma runs_same_Cons [runs_intros]: "runs s a s \<Longrightarrow> runs s (steps as) s' \<Longrightarrow> runs s (steps (a # as)) s'"
  by (rule runs_Cons)

lemma runs_pretty_or [runs_intros]: "ce_al env = plenty \<Longrightarrow> runs s (pretty_or env t u) s"
  by (simp add: pretty_or_def runs_wasmCWrite)

lemma runs_indent [runs_intros]:
  assumes "ce_al env = plenty" shows "runs s (wasmCWriteIndent env) s"
proof -
  have "runs s (steps (replicate n (wasmCWrite env ''  ''))) s" for n
    by (rule runs_steps_same) (use assms runs_wasmCWrite in \<open>auto\<close>)
  then show ?thesis by (auto simp: wasmCWriteIndent_def runs_def simp del: replicate_Suc)
qed

lemma runs_separators [runs_intros]:
  assumes "ce_al env = plenty"
  shows "runs s (wasmCWriteAssign env) s" "runs s (wasmCWriteComma env) s" "runs s (wasmCWritePlus env) s"
  unfolding wasmCWriteAssign_def wasmCWriteComma_def wasmCWritePlus_def
  by (intro runs_intros assms)+

section \<open>Names\<close>

definition ascii :: "u8 list \<Rightarrow> bool" where
  "ascii name \<longleftrightarrow> (\<forall>c \<in> set name. unat c < 128)"

text \<open>Modules whose imported names are ASCII.\<close>

definition ascii_imports :: "WasmModule \<Rightarrow> bool" where
  "ascii_imports m \<longleftrightarrow>
     (\<forall>x \<in> set (items (functionImports m)). ascii (fi_module x) \<and> ascii (fi_name x))
     \<and> (\<forall>x \<in> set (items (globalImports m)). ascii (gi_module x) \<and> ascii (gi_name x))
     \<and> (\<forall>x \<in> set (items (memoryImports m)). ascii (li_module x) \<and> ascii (li_name x))
     \<and> (\<forall>x \<in> set (items (tableImports m)). ascii (li_module x) \<and> ascii (li_name x))"

definition env_ok :: "cenv \<Rightarrow> bool" where
  "env_ok env \<longleftrightarrow> ce_al env = plenty \<and> ascii_imports (ce_module env)"

lemma env_ok_plenty [simp]: "env_ok env \<Longrightarrow> ce_al env = plenty"
  by (simp add: env_ok_def)

lemma runs_escaped [runs_intros]:
  "ce_al env = plenty \<Longrightarrow> ascii name \<Longrightarrow> runs s (wasmCWriteStringEscaped env name) s"
  unfolding wasmCWriteStringEscaped_def
proof -
  have "runs s (write_escaped_from env prev name) s" if "ce_al env = plenty" "ascii name" for prev
    using that
    by (induction name arbitrary: prev)
      (auto simp: ascii_def intro!: runs_intros runs_on_builder builds_charHex)
  then show "ce_al env = plenty \<Longrightarrow> ascii name \<Longrightarrow> runs s (write_escaped_from env False name) s" by blast
qed

lemma runs_import_name [runs_intros]:
  "ce_al env = plenty \<Longrightarrow> ascii m \<Longrightarrow> ascii n \<Longrightarrow> runs s (write_import_name env m n) s"
  unfolding write_import_name_def by (intro runs_intros)

lemma ascii_nth:
  assumes "env_ok env"
  shows "unat i < length (items (functionImports (ce_module env))) \<Longrightarrow> ascii (fi_module (items (functionImports (ce_module env)) ! unat i))"
    "unat i < length (items (functionImports (ce_module env))) \<Longrightarrow> ascii (fi_name (items (functionImports (ce_module env)) ! unat i))"
    "unat i < length (items (globalImports (ce_module env))) \<Longrightarrow> ascii (gi_module (items (globalImports (ce_module env)) ! unat i))"
    "unat i < length (items (globalImports (ce_module env))) \<Longrightarrow> ascii (gi_name (items (globalImports (ce_module env)) ! unat i))"
    "unat i < length (items (memoryImports (ce_module env))) \<Longrightarrow> ascii (li_module (items (memoryImports (ce_module env)) ! unat i))"
    "unat i < length (items (memoryImports (ce_module env))) \<Longrightarrow> ascii (li_name (items (memoryImports (ce_module env)) ! unat i))"
    "unat i < length (items (tableImports (ce_module env))) \<Longrightarrow> ascii (li_module (items (tableImports (ce_module env)) ! unat i))"
    "unat i < length (items (tableImports (ce_module env))) \<Longrightarrow> ascii (li_name (items (tableImports (ce_module env)) ! unat i))"
  using assms by (simp_all add: env_ok_def ascii_imports_def)

lemma runs_uses [runs_intros]:
  assumes "env_ok env"
  shows "runs s (wasmCWriteStringGlobalUse env i ref) s" "runs s (wasmCWriteStringMemoryUse env i ref) s"
    "runs s (wasmCWriteStringTableUse env i ref) s" "runs s (wasmCWriteStringFunctionUse env i ref pre) s"
  unfolding wasmCWriteStringGlobalUse_def wasmCWriteStringMemoryUse_def
    wasmCWriteStringTableUse_def wasmCWriteStringFunctionUse_def Let_def
  by (assumption | rule runs_intros ascii_nth env_ok_plenty assms)+

lemma runs_names [runs_intros]:
  assumes "ce_al env = plenty"
  shows "runs s (wasmCWriteStringStackName env i t) s" "runs s (wasmCWriteStringLocalName env i) s"
    "runs s (wasmCWriteStringLabelName env i) s" "runs s (wasmCWriteStringDataSegmentName env i) s"
    "runs s (wasmCWriteLabel env i) s"
  unfolding wasmCWriteStringStackName_def wasmCWriteStringLocalName_def wasmCWriteStringLabelName_def
    wasmCWriteStringDataSegmentName_def wasmCWriteLabel_def
  by (intro runs_intros assms)+

section \<open>The stacks\<close>

text \<open>The stack never gets close to the limits of a 32-bit index.\<close>

abbreviation low :: "'a list \<Rightarrow> bool" where "low tys \<equiv> length tys < 2 ^ 32"

definition under :: "WasmValueType list \<Rightarrow> nat \<Rightarrow> u32" where
  "under tys k = of_nat (length tys - 1 - k)"

lemma unat_under: "low tys \<Longrightarrow> unat (under tys k) = length tys - 1 - k"
  by (simp add: under_def unat_of_nat_u32)

lemma runs_top:
  assumes "k < length (sn_types s)" "low (sn_types s)" "runs s (f (under (sn_types s) k)) s'"
  shows "runs s (top k f) s'"
  unfolding runs_def
proof (intro allI impI)
  fix w assume w: "is_seen w s"
  then show "\<exists>w'. top k f w = Val w' \<and> is_seen w' s'"
    using assms runsD [OF assms(3) w]
    by (simp add: top_def wasmTypeStackGetTopIndex_def is_seen_length [OF w] under_def)
qed

lemma runs_slot_type:
  assumes "unat i < length (sn_types s)" "runs s (f (sn_types s ! unat i)) s'"
  shows "runs s (slot_type i f) s'"
  unfolding runs_def slot_type_def using assms runsD [OF assms(2)] is_seen_nth by fastforce

lemma runs_write_slot: "ce_al env = plenty \<Longrightarrow> unat i < length (sn_types s) \<Longrightarrow> runs s (write_slot env i) s"
  unfolding write_slot_def by (intro runs_slot_type runs_intros)

lemma runs_write_under [runs_intros]:
  "ce_al env = plenty \<Longrightarrow> low (sn_types s) \<Longrightarrow> tys = sn_types s \<Longrightarrow> k < length tys \<Longrightarrow> runs s (write_slot env (under tys k)) s"
  by (rule runs_write_slot) (simp_all add: unat_under)

lemma runs_push:
  assumes "ce_al env = plenty"
  shows "runs s (push_type env t) (s\<lparr>sn_types := sn_types s @ [t]\<rparr>)"
  using assms same_allocs
  by (auto simp: runs_def push_type_def must_def wasmTypeStackAppend_def wasmTypeStackEnsureCapacity_def
      arrayEnsureCapacity_def rd_bind_def rd_return_def rd_calloc_def plenty_def Let_def put_slot_def
      is_seen_def seen_def writer_ok_def stack_ok_def stack_types_def take_Suc_conv_app_nth nth_append)

lemma runs_drop:
  assumes "n \<le> length (sn_types s)"
  shows "runs s (drop_types n) (s\<lparr>sn_types := take (length (sn_types s) - n) (sn_types s)\<rparr>)"
  using assms
  by (auto simp: runs_def drop_types_def wasmTypeStackDrop_def Let_def is_seen_def seen_def writer_ok_def
      stack_ok_def stack_types_def)

lemma runs_declare_slot:
  assumes "ce_al env = plenty" "unat i < 2 ^ 32 - 1"
  shows "runs s (declare_slot env i t) s"
proof -
  have "unat (i + 1) = unat i + 1" using assms(2) by (simp add: unat_word_ariths)
  then show ?thesis using assms(1) same_allocs
    by (auto simp: runs_def declare_slot_def must_def wasmTypeStackSet_def wasmTypeStackEnsureCapacity_def
      arrayEnsureCapacity_def rd_bind_def rd_return_def rd_calloc_def plenty_def Let_def
      is_seen_def seen_def writer_ok_def stack_ok_def)
qed

lemma runs_declare_under [runs_intros]:
  "ce_al env = plenty \<Longrightarrow> low (sn_types s) \<Longrightarrow> tys = sn_types s \<Longrightarrow> k < length tys
    \<Longrightarrow> runs s (declare_slot env (under tys k) t) s"
  by (rule runs_declare_slot) (auto simp: unat_under)

text \<open>The steps of a writer, the ones that move the stack first.\<close>

lemma runs_eq: "runs s a s1 \<Longrightarrow> s1 = s' \<Longrightarrow> runs s a s'"
  by simp

lemma runs_drop_Cons:
  "runs (s\<lparr>sn_types := take (length (sn_types s) - n) (sn_types s)\<rparr>) (steps as) s' \<Longrightarrow> n \<le> length (sn_types s)
    \<Longrightarrow> runs s (steps (drop_types n # as)) s'"
  using runs_Cons [OF runs_drop] by blast

lemma runs_push_Cons:
  "runs (s\<lparr>sn_types := sn_types s @ [t]\<rparr>) (steps as) s' \<Longrightarrow> ce_al env = plenty
    \<Longrightarrow> runs s (steps (push_type env t # as)) s'"
  using runs_Cons [OF runs_push] by blast

lemmas runs_moves = runs_drop_Cons runs_push_Cons

end
