(* ===== verification/C_Typed.thy ===== *)
theory C_Typed
  imports C_Runs
begin

text \<open>
  Every instruction writer succeeds on the operands its instruction takes and leaves the types its
  instruction leaves, and in unreachable code only reads its operands.
\<close>

section \<open>Operators\<close>

lemma signed_entries [runs_intros]:
  assumes "ce_al env = plenty" "t = wasmValueTypeI32 \<or> t = wasmValueTypeI64"
  shows "runs s (write_entry env (signedTypeNames t)) s" "runs s (write_entry env (shiftMaskStrings t)) s"
  using assms(2) by (auto simp: write_entry_def intro!: runs_wasmCWrite assms(1))

lemma runs_operators:
  assumes "env_ok env" "low (sn_types s)"
  shows
    "sn_types s = tys @ [a] \<Longrightarrow> runs s (wasmCWriteUnaryExpr env t f) (s\<lparr>sn_types := tys @ [t]\<rparr>)"
    "sn_types s = tys @ [a, b] \<Longrightarrow> runs s (wasmCWriteInfixBinaryExpr env t f al) (s\<lparr>sn_types := tys @ [t]\<rparr>)"
    "sn_types s = tys @ [a, b] \<Longrightarrow> runs s (wasmCWritePrefixBinaryExpr env t f) (s\<lparr>sn_types := tys @ [t]\<rparr>)"
    "sn_types s = tys @ [a, b] \<Longrightarrow> wasmOpcodeResultType oc = Some t \<Longrightarrow> wasmOpcodeParameter1Type oc = Some u
      \<Longrightarrow> u = wasmValueTypeI32 \<or> u = wasmValueTypeI64
      \<Longrightarrow> runs s (wasmCWriteSignedInfixBinaryExpr env oc f) (s\<lparr>sn_types := tys @ [t]\<rparr>)"
    "sn_types s = tys @ [a, b] \<Longrightarrow> wasmOpcodeResultType oc = Some t \<Longrightarrow> t = wasmValueTypeI32 \<or> t = wasmValueTypeI64
      \<Longrightarrow> runs s (wasmCWriteSignedShiftRightExpr env oc) (s\<lparr>sn_types := tys @ [a]\<rparr>)"
    "sn_types s = tys @ [a, b] \<Longrightarrow> wasmOpcodeResultType oc = Some t \<Longrightarrow> t = wasmValueTypeI32 \<or> t = wasmValueTypeI64
      \<Longrightarrow> runs s (wasmCWriteUnsignedShiftRightExpr env oc) (s\<lparr>sn_types := tys @ [a]\<rparr>)"
    "sn_types s = tys @ [a, b] \<Longrightarrow> wasmOpcodeResultType oc = Some t \<Longrightarrow> t = wasmValueTypeI32 \<or> t = wasmValueTypeI64
      \<Longrightarrow> runs s (wasmCWriteShiftLeftExpr env oc) (s\<lparr>sn_types := tys @ [a]\<rparr>)"
    "sn_types s = tys @ [a, b, c] \<Longrightarrow> runs s (wasmCWriteSelectExpr env) (s\<lparr>sn_types := tys @ [b]\<rparr>)"
  unfolding wasmCWriteUnaryExpr_def wasmCWriteInfixBinaryExpr_def wasmCWritePrefixBinaryExpr_def
    wasmCWriteSignedInfixBinaryExpr_def wasmCWriteSignedShiftRightExpr_def wasmCWriteUnsignedShiftRightExpr_def
    wasmCWriteShiftLeftExpr_def wasmCWriteSelectExpr_def declare_as_is_def write_shift_count_def
    result_type_def parameter1_type_def
  by (rule runs_eq, (rule runs_top runs_aborting runs_slot_type runs_moves runs_intros env_ok_plenty assms(1) |
    use assms in \<open>simp add: unat_under nth_append; fail\<close>)+)+

lemma plain_op_range: "plain_op c = Some x \<Longrightarrow> 0x45 \<le> c \<and> c \<le> 0xC4"
  by (rule ccontr, cases "c < 0x45") (simp_all add: plain_op_def)

text \<open>Every entry of the tables of operators, against the types of the instruction it is for.\<close>

definition entry_ok :: "(cenv \<Rightarrow> nat \<Rightarrow> act) \<Rightarrow> nat \<Rightarrow> bool" where
  "entry_ok f n \<longleftrightarrow> (\<forall>env s tys ins outs. env_ok env \<longrightarrow> low (sn_types s) \<longrightarrow> plain_op (int n) = Some (ins, outs) \<longrightarrow>
    sn_types s = tys @ rev (map value_type ins) \<longrightarrow> runs s (f env n) (s\<lparr>sn_types := tys @ map value_type outs\<rparr>))"

definition table_ok :: "(nat list \<times> (cenv \<Rightarrow> nat \<Rightarrow> act)) list \<Rightarrow> bool" where
  "table_ok tab \<longleftrightarrow> list_all (\<lambda>(ns, f). list_all (entry_ok f) ns) tab"

lemma table_ok_Cons: "list_all (entry_ok f) ns \<Longrightarrow> table_ok tab \<Longrightarrow> table_ok ((ns, f) # tab)"
  by (simp add: table_ok_def)

lemma table_ok_Nil: "table_ok []"
  by (simp add: table_ok_def)

lemma table_ok_append: "table_ok (a @ b) \<longleftrightarrow> table_ok a \<and> table_ok b"
  by (simp add: table_ok_def)

lemmas entry_simps = entry_ok_def plain_op_def wasmOpcodeResultType_def wasmOpcodeParameter1Type_def

lemma tables_ok:
  "table_ok comparison_writers" "table_ok arithmetic_writers" "table_ok function_writers" "table_ok conversion_writers"
  unfolding comparison_writers_def arithmetic_writers_def function_writers_def conversion_writers_def
  by (intro table_ok_Cons table_ok_Nil; auto simp: entry_simps intro!: runs_operators)+

lemma table_ok_switch: "table_ok tab \<Longrightarrow> switch tab n = Some f \<Longrightarrow> entry_ok f n"
  by (induction tab) (auto simp: table_ok_def list_all_iff split: if_splits)

lemma switch_None: "switch tab n = None \<longleftrightarrow> n \<notin> set (concat (map fst tab))"
proof (induction tab)
  case (Cons e tab)
  then show ?case by (cases e) (simp del: set_concat)
qed simp

lemma operators_listed: "0x45 \<le> n \<Longrightarrow> n \<le> 0xC4 \<Longrightarrow> operators n \<noteq> None"
proof -
  have "list_all (\<lambda>n. n \<in> set (concat (map fst
     (comparison_writers @ arithmetic_writers @ function_writers @ conversion_writers)))) [0x45..<0xC5]"
    by (simp add: comparison_writers_def arithmetic_writers_def function_writers_def conversion_writers_def)
  then show "0x45 \<le> n \<Longrightarrow> n \<le> 0xC4 \<Longrightarrow> operators n \<noteq> None"
    by (simp add: operators_def switch_None list_all_iff del: upt_rec_numeral map_append concat_append set_append set_concat)
qed

lemma runs_plain:
  assumes "env_ok env" "low (sn_types s)" "plain_op (int n) = Some (ins, outs)"
    "sn_types s = tys @ rev (map value_type ins)"
  shows "runs s (write_operator env n) (s\<lparr>sn_types := tys @ map value_type outs\<rparr>)"
proof -
  have r: "0x45 \<le> n" "n \<le> 0xC4" using plain_op_range [OF assms(3)] by auto
  then obtain f where f: "operators n = Some f" using operators_listed by blast
  then have "entry_ok f n"
    unfolding operators_def by (rule table_ok_switch [rotated]) (simp add: table_ok_append tables_ok)
  moreover have "write_operator env n = f env n" using f r by (simp add: write_operator_def)
  ultimately show ?thesis using assms by (simp add: entry_ok_def)
qed

section \<open>Operands and variables\<close>

text \<open>In unreachable code a writer that guards its text only reads.\<close>

lemma runs_read_as:
  assumes "reads_as m bs x" "sn_code s = bs @ rest" "k x = if_written a"
    and "\<not> sn_ignore s \<Longrightarrow> runs (s\<lparr>sn_code := rest\<rparr>) a (s\<lparr>sn_code := rest, sn_types := tys\<rparr>)"
    and "sn_ignore s \<Longrightarrow> tys = sn_types s"
  shows "runs s (must m k) (s\<lparr>sn_code := rest, sn_types := tys\<rparr>)"
proof (rule runs_must [OF assms(1) _ assms(2)], cases "sn_ignore s")
  case True
  then have "s\<lparr>sn_code := rest, sn_types := tys\<rparr> = s\<lparr>sn_code := rest\<rparr>" using assms(5) by (cases s) simp
  then show "runs (s\<lparr>sn_code := rest\<rparr>) (k x) (s\<lparr>sn_code := rest, sn_types := tys\<rparr>)"
    using runs_if_written_ignored [of "s\<lparr>sn_code := rest\<rparr>"] True assms(3) by simp
next
  case False
  then show "runs (s\<lparr>sn_code := rest\<rparr>) (k x) (s\<lparr>sn_code := rest, sn_types := tys\<rparr>)"
    unfolding assms(3) using assms(4) by (intro runs_if_written) auto
qed

lemmas runs_read_written = runs_read_as [OF _ _ refl]

text \<open>What an instruction does to the types: nothing while the code is unreachable.\<close>

definition becomes :: "seen \<Rightarrow> WasmValueType list \<Rightarrow> WasmValueType list \<Rightarrow> bool" where
  "becomes s tys tys' \<longleftrightarrow> (if sn_ignore s then tys' = sn_types s else sn_types s = tys \<and> length tys < 2 ^ 32 - 1)"

lemma drops_unless_tee:
  "(if wasmOpcodeLocalSet = wasmOpcodeLocalSet then drop_types 1 else Val) = drop_types 1"
  "(if wasmOpcodeLocalTee = wasmOpcodeLocalSet then drop_types 1 else Val) = Val"
  by simp_all

lemma runs_variables:
  assumes "env_ok env" "i < 2 ^ 32" "sn_code s = uleb_bytes i @ rest"
  shows
    "wasmModuleFunctionGetLocalType (ce_module env) (ce_function env) (of_nat i) = Val t \<Longrightarrow> becomes s tys tys'
      \<Longrightarrow> tys' = tys @ [t] \<or> sn_ignore s \<Longrightarrow> runs s (wasmCWriteLocalGetExpr env) (s\<lparr>sn_code := rest, sn_types := tys'\<rparr>)"
    "wasmModuleFunctionGetLocalType (ce_module env) (ce_function env) (of_nat i) = Val t \<Longrightarrow> becomes s (tys @ [t]) tys'
      \<Longrightarrow> tys' = tys \<or> sn_ignore s
      \<Longrightarrow> runs s (wasmCWriteLocalAssignmentExpr env wasmOpcodeLocalSet) (s\<lparr>sn_code := rest, sn_types := tys'\<rparr>)"
    "wasmModuleFunctionGetLocalType (ce_module env) (ce_function env) (of_nat i) = Val t \<Longrightarrow> becomes s (tys @ [t]) tys'
      \<Longrightarrow> tys' = tys @ [t] \<or> sn_ignore s
      \<Longrightarrow> runs s (wasmCWriteLocalAssignmentExpr env wasmOpcodeLocalTee) (s\<lparr>sn_code := rest, sn_types := tys'\<rparr>)"
    "wasmModuleGetGlobalType (ce_module env) (of_nat i) = Val t \<Longrightarrow> becomes s tys tys'
      \<Longrightarrow> tys' = tys @ [t] \<or> sn_ignore s \<Longrightarrow> runs s (wasmCWriteGlobalGetExpr env) (s\<lparr>sn_code := rest, sn_types := tys'\<rparr>)"
    "wasmModuleGetGlobalType (ce_module env) (of_nat i) = Val t \<Longrightarrow> becomes s (tys @ [t]) tys'
      \<Longrightarrow> tys' = tys \<or> sn_ignore s \<Longrightarrow> runs s (wasmCWriteGlobalSetExpr env) (s\<lparr>sn_code := rest, sn_types := tys'\<rparr>)"
  unfolding wasmCWriteLocalGetExpr_def wasmCWriteLocalAssignmentExpr_def wasmCWriteGlobalGetExpr_def
    wasmCWriteGlobalSetExpr_def wasmLocalInstructionRead_def wasmGlobalInstructionRead_def drops_unless_tee
  by (rule runs_read_written [OF reads_as_u32 [OF assms(2)] assms(3)],
      rule runs_eq, (rule runs_must_res runs_top runs_moves runs_intros env_ok_plenty assms(1) | assumption |
      (simp add: becomes_def split: if_splits; fail))+)+

lemma reads_as_const:
  "- (2 ^ 31) \<le> v \<Longrightarrow> v < 2 ^ 31 \<Longrightarrow> reads_as (wasmConstInstructionRead wasmOpcodeI32Const) (sleb_bytes v) (Value32 (word_of_int v))"
  "- (2 ^ 63) \<le> u \<Longrightarrow> u < 2 ^ 63 \<Longrightarrow> reads_as (wasmConstInstructionRead wasmOpcodeI64Const) (sleb_bytes u) (Value64 (word_of_int u))"
  "length bs = 4 \<Longrightarrow> \<exists>x. reads_as (wasmConstInstructionRead wasmOpcodeF32Const) bs (Value32 x)"
  "length cs = 8 \<Longrightarrow> \<exists>x. reads_as (wasmConstInstructionRead wasmOpcodeF64Const) cs (Value64 x)"
  using leb128ReadI32_sleb leb128ReadI64_sleb
  by (auto simp: reads_as_def wasmConstInstructionRead_def rd_run bufferReadF32_def bufferReadF64_def
      split: prod.splits)

lemma runs_literal [runs_intros]:
  assumes "ce_al env = plenty"
  shows "runs s (wasmCWriteLiteral env wasmValueTypeI32 (Value32 x)) s"
    "runs s (wasmCWriteLiteral env wasmValueTypeI64 (Value64 y)) s"
    "runs s (wasmCWriteLiteral env wasmValueTypeF32 (Value32 x)) s"
    "runs s (wasmCWriteLiteral env wasmValueTypeF64 (Value64 y)) s"
  unfolding wasmCWriteLiteral_def append_i32_def append_i64_def f32_bits_def f64_bits_def prod.case
    WasmValueType.case WasmValue.case assms
  by (rule runs_intros runs_on_builder builds_I32 builds_I64 builds_hex assms)+

lemma runs_const:
  assumes "env_ok env" "reads_as (wasmConstInstructionRead oc) bs v" "sn_code s = bs @ rest"
    and "becomes s tys tys'" "tys' = tys @ [t] \<or> sn_ignore s" "wasmOpcodeResultType oc = Some t"
    and "\<And>s. runs s (wasmCWriteLiteral env t v) s"
  shows "runs s (wasmCWriteConstExpr env oc) (s\<lparr>sn_code := rest, sn_types := tys'\<rparr>)"
  unfolding wasmCWriteConstExpr_def
  by (rule runs_read_written [OF assms(2,3)], rule runs_eq,
      (rule runs_aborting runs_top runs_moves runs_intros env_ok_plenty assms(1,7) |
       (use assms in \<open>simp add: result_type_def becomes_def split: if_splits\<close>; fail))+)

section \<open>Memory\<close>

lemma runs_offset [runs_intros]: "ce_al env = plenty \<Longrightarrow> runs s (write_offset env v) s"
  unfolding write_offset_def by (intro runs_intros)

lemma reads_as_pair:
  "reads_as m a x \<Longrightarrow> reads_as n b y \<Longrightarrow> reads_as (rd_bind m (\<lambda>x. rd_bind n (\<lambda>y. rd_return (x, y)))) (a @ b) (x, y)"
  by (rule reads_as_bind, assumption) (rule reads_as_map [OF _ refl])

lemma reads_as_memarg:
  "a < 2 ^ 32 \<Longrightarrow> b < 2 ^ 32 \<Longrightarrow>
    reads_as wasmMemoryArgumentInstructionRead (uleb_bytes a @ uleb_bytes b) (of_nat a, of_nat b)"
  unfolding wasmMemoryArgumentInstructionRead_def
  by (intro reads_as_pair reads_as_u32)

lemma runs_load:
  assumes "env_ok env" "a < 2 ^ 32" "b < 2 ^ 32" "sn_code s = (uleb_bytes a @ uleb_bytes b) @ rest"
    and "becomes s (tys @ [x]) tys'" "tys' = tys @ [t] \<or> sn_ignore s" "load_functions oc = Some (t, f)"
  shows "runs s (wasmCWriteLoadExpr env oc) (s\<lparr>sn_code := rest, sn_types := tys'\<rparr>)"
  unfolding wasmCWriteLoadExpr_def
  by (rule runs_read_as [OF reads_as_memarg [OF assms(2,3)] assms(4)], simp add: assms(7),
      unfold wasmCWriteLoad_def, rule runs_eq,
      (rule runs_top runs_moves runs_intros env_ok_plenty assms(1) |
       (use assms in \<open>simp add: becomes_def split: if_splits\<close>; fail))+)

lemma runs_store:
  assumes "env_ok env" "a < 2 ^ 32" "b < 2 ^ 32" "sn_code s = (uleb_bytes a @ uleb_bytes b) @ rest"
    and "becomes s (tys @ [x, y]) tys'" "tys' = tys \<or> sn_ignore s" "store_functions oc = Some f"
  shows "runs s (wasmCWriteStoreExpr env oc) (s\<lparr>sn_code := rest, sn_types := tys'\<rparr>)"
  unfolding wasmCWriteStoreExpr_def
  by (rule runs_read_as [OF reads_as_memarg [OF assms(2,3)] assms(4)], simp add: assms(7),
      unfold wasmCWriteStore_def, rule runs_eq,
      (rule runs_top runs_moves runs_intros env_ok_plenty assms(1) |
       (use assms in \<open>simp add: becomes_def split: if_splits\<close>; fail))+)

lemma zero_index: "(if (0 :: u32) \<noteq> 0 then a else b) = b" by simp

lemma runs_memory:
  assumes "env_ok env" "sn_code s = [0] @ rest"
  shows "becomes s tys tys' \<Longrightarrow> tys' = tys @ [wasmValueTypeI32] \<or> sn_ignore s
      \<Longrightarrow> runs s (wasmCWriteMemorySizeExpr env) (s\<lparr>sn_code := rest, sn_types := tys'\<rparr>)"
    "becomes s (tys @ [x]) tys' \<Longrightarrow> tys' = tys @ [x] \<or> sn_ignore s
      \<Longrightarrow> runs s (wasmCWriteMemoryGrowExpr env) (s\<lparr>sn_code := rest, sn_types := tys'\<rparr>)"
    "becomes s (tys @ [x, y, z]) tys' \<Longrightarrow> tys' = tys \<or> sn_ignore s
      \<Longrightarrow> runs s (wasmCWriteMemoryFillExpr env) (s\<lparr>sn_code := rest, sn_types := tys'\<rparr>)"
  unfolding wasmCWriteMemorySizeExpr_def wasmCWriteMemoryGrowExpr_def wasmCWriteMemoryFillExpr_def
    wasmMemoryInstructionRead_def
  by (rule runs_read_as [OF reads_as_zero assms(2)], rule zero_index, rule runs_eq,
      (rule runs_top runs_moves runs_intros env_ok_plenty assms(1) |
       (simp add: becomes_def split: if_splits; fail))+)+

lemma reads_as_copy: "reads_as wasmMemoryCopyInstructionRead ([0] @ [0]) (0, 0)"
  unfolding wasmMemoryCopyInstructionRead_def
  by (intro reads_as_pair reads_as_zero)

lemma runs_memory_copy:
  assumes "env_ok env" "sn_code s = ([0] @ [0]) @ rest" "becomes s (tys @ [x, y, z]) tys'" "tys' = tys \<or> sn_ignore s"
  shows "runs s (wasmCWriteMemoryCopyExpr env) (s\<lparr>sn_code := rest, sn_types := tys'\<rparr>)"
  unfolding wasmCWriteMemoryCopyExpr_def
  by (rule runs_read_as [OF reads_as_copy assms(2)], simp, rule runs_eq,
      (rule runs_top runs_moves runs_intros env_ok_plenty assms(1) |
       (use assms in \<open>simp add: becomes_def split: if_splits\<close>; fail))+)

section \<open>Calls\<close>

lemma runs_arguments:
  assumes "ce_al env = plenty" "low (sn_types s)" "length ts + skip \<le> length (sn_types s)"
  shows "runs s (write_arguments env skip ts) s"
  using assms(3)
proof (induction ts)
  case (Cons t ts)
  then show ?case unfolding write_arguments.simps
    by (intro runs_same_Cons runs_top runs_intros assms(1,2)) auto
qed (simp add: runs_Val)

lemma runs_push_types:
  assumes "ce_al env = plenty"
  shows "runs s (push_types env ts) (s\<lparr>sn_types := sn_types s @ ts\<rparr>)"
proof (induction ts arbitrary: s)
  case Nil
  then show ?case using runs_Val [of s] by simp
next
  case (Cons t ts)
  from runs_push_Cons [OF runs_Cons [OF Cons.IH runs_Nil] assms, of s t] show ?case by simp
qed

lemma runs_result_slot:
  assumes "ce_al env = plenty" "length (sn_types s) < 2 ^ 32 - 1"
    and "length (parameterTypes ft) + skip \<le> length (sn_types s)"
  shows "runs s (write_result_slot env skip ft) s"
proof (cases "resultTypes ft")
  case Nil
  then show ?thesis by (simp add: write_result_slot_def runs_Val)
next
  case (Cons t ts)
  let ?n = "of_nat (length (sn_types s) - skip) :: u32" and ?p = "of_nat (length (parameterTypes ft)) :: u32"
  have p: "unat ?p = length (parameterTypes ft)" by (rule unat_of_nat_u32) (use assms(2,3) in simp)
  have n: "unat ?n = length (sn_types s) - skip" by (rule unat_of_nat_u32) (use assms(2) in simp)
  have "?p \<le> ?n" using assms(3) unfolding word_le_nat_alt p n by simp
  then have "unat (?n - ?p) = unat ?n - unat ?p" by (rule unat_sub)
  then have "unat (?n - ?p) < 2 ^ 32 - 1" using assms(2) unfolding p n by linarith
  then have "runs s (steps [declare_slot env (?n - ?p) t, wasmCWriteStringStackName env (?n - ?p) t, wasmCWriteAssign env]) s"
    by (intro runs_intros runs_declare_slot assms(1))
  then show ?thesis using assms(2,3)
    by (auto simp: write_result_slot_def Cons runs_def assertSizeU32_def Let_def is_seen_length)
qed

lemma runs_parameters [runs_intros]: "ce_al env = plenty \<Longrightarrow> runs s (wasmCWriteParameters env ft) s"
  unfolding wasmCWriteParameters_def
  by (intro runs_intros runs_steps_same) (auto intro!: runs_intros)

lemma runs_push_types_Cons:
  "ce_al env = plenty \<Longrightarrow> runs (s\<lparr>sn_types := sn_types s @ ts\<rparr>) (steps as) s' \<Longrightarrow> runs s (steps (push_types env ts # as)) s'"
  using runs_Cons [OF runs_push_types] by blast

lemma runs_call:
  assumes "env_ok env" "i < 2 ^ 32" "sn_code s = uleb_bytes i @ rest"
    and "wasmModuleGetFunctionType (ce_module env) (of_nat i) = Val ft"
    and "becomes s (tys @ parameterTypes ft) tys'" "tys' = tys @ resultTypes ft \<or> sn_ignore s"
  shows "runs s (wasmCWriteCallExpr env) (s\<lparr>sn_code := rest, sn_types := tys'\<rparr>)"
  unfolding wasmCWriteCallExpr_def wasmCallInstructionRead_def
  by (rule runs_read_written [OF reads_as_u32 [OF assms(2)] assms(3)], rule runs_eq,
      (rule runs_must_res [OF assms(4)] runs_push_types_Cons runs_moves runs_arguments runs_result_slot runs_intros env_ok_plenty assms(1) |
       (use assms(5,6) in \<open>simp add: becomes_def split: if_splits\<close>; fail))+)

lemma reads_as_indirect:
  "i < 2 ^ 32 \<Longrightarrow> reads_as wasmCallIndirectInstructionRead (uleb_bytes i @ [0]) (of_nat i, 0)"
  unfolding wasmCallIndirectInstructionRead_def by (intro reads_as_pair reads_as_u32 reads_as_zero)

lemma canonical_index: "at (functionTypes m) (unat i) = Val ft \<Longrightarrow> \<exists>j. wasmCanonicalFunctionTypeIndex m i = Val j"
  by (simp add: wasmCanonicalFunctionTypeIndex_def)

lemma runs_canonical:
  assumes "ce_al env = plenty" "at (functionTypes (ce_module env)) (unat i) = Val ft"
  shows "runs s (must_res (wasmCanonicalFunctionTypeIndex (ce_module env) i) (write_u32 env)) s"
  using canonical_index [OF assms(2)] runs_write_u32 [OF assms(1)] by (auto intro: runs_must_res)

lemma return_type_one: "length (resultTypes ft) \<le> 1 \<Longrightarrow> \<exists>t. wasmCGetReturnType ft = Val t"
  by (auto simp: wasmCGetReturnType_def split: list.splits)

lemma runs_return_type:
  "ce_al env = plenty \<Longrightarrow> length (resultTypes ft) \<le> 1 \<Longrightarrow> runs s (aborting (wasmCGetReturnType ft) (wasmCWrite env)) s"
  using return_type_one [of ft] by (auto intro!: runs_aborting runs_wasmCWrite)

lemma runs_call_indirect:
  assumes "env_ok env" "i < 2 ^ 32" "sn_code s = (uleb_bytes i @ [0]) @ rest"
    and "at (functionTypes (ce_module env)) i = Val ft" "length (resultTypes ft) \<le> 1"
    and "becomes s (tys @ parameterTypes ft @ [x]) tys'" "tys' = tys @ resultTypes ft \<or> sn_ignore s"
  shows "runs s (wasmCWriteCallIndirectExpr env) (s\<lparr>sn_code := rest, sn_types := tys'\<rparr>)"
proof -
  have ft: "at (functionTypes (ce_module env)) (unat (of_nat i :: u32)) = Val ft"
    using assms(2,4) by (simp add: unat_of_nat_u32)
  show ?thesis unfolding wasmCWriteCallIndirectExpr_def
  by (rule runs_read_as [OF reads_as_indirect [OF assms(2)] assms(3)], unfold prod.case, rule refl, rule runs_eq,
      (rule runs_must_res [OF ft] runs_canonical [OF _ ft] runs_return_type [OF _ assms(5)] runs_push_types_Cons
        runs_top runs_moves runs_arguments runs_result_slot runs_intros env_ok_plenty assms(1) |
       (use assms(6,7) in \<open>simp add: becomes_def split: if_splits\<close>; fail))+)
qed

section \<open>Branches\<close>

lemma runs_indents [runs_intros]: "runs s indent_more s" "runs s indent_less s"
  by (auto simp: runs_def indent_more_def indent_less_def is_seen_def seen_def writer_ok_def)

lemma runs_to_label:
  assumes "ce_al env = plenty" "low (sn_types s)" "t = None \<or> h < length (sn_types s)" "h < 2 ^ 32"
  shows "runs s (steps
       [wasmCWriteIndent env,
        (case t of
           None \<Rightarrow> Val
         | Some t \<Rightarrow> top 0 (\<lambda>i0. aborting (assertSizeU32 h) (\<lambda>i.
             if i \<noteq> i0
             then steps [declare_slot env i t, wasmCWriteStringStackName env i t, wasmCWriteAssign env, write_slot env i0,
                    if ce_pretty env then wasmCWrite env ''; '' else wasmCWriteChar env CHR '';'']
             else Val))),
        wasmCWrite env ''goto '', wasmCWriteStringLabelName env i, wasmCWrite env ('';'' @ nl)]) s"
proof (cases t)
  case None
  then show ?thesis by (simp, intro runs_intros assms(1))
next
  case (Some u)
  then have h: "h < length (sn_types s)" using assms(3) by simp
  then have u: "unat (of_nat h :: u32) < 2 ^ 32 - 1" using assms(2) by (subst unat_of_nat_u32) auto
  have a: "assertSizeU32 h = Val (of_nat h)" using assms(4) by (simp add: assertSizeU32_def)
  show ?thesis unfolding Some option.case
    by (rule runs_top runs_aborting [OF a] runs_declare_slot [OF assms(1) u] runs_intros assms(1,2) refl | (use h in linarith))+
qed

lemma runs_goto_label:
  assumes "ce_al env = plenty" "low (sn_types s)" "length (sn_labels s) < 2 ^ 32" "unat k < length (sn_labels s)"
    and "sn_labels s ! (length (sn_labels s) - 1 - unat k) = (h, t)" "t = None \<or> h < length (sn_types s)" "h < 2 ^ 32"
  shows "runs s (goto_label env k) s"
  unfolding runs_def
proof (intro allI impI)
  fix w assume w: "is_seen w s"
  let ?ls = "items (ls_labels (cw_labelStack w))"
  obtain n where nd: "length (sn_labels s) - 1 - unat k = n" by blast
  have ls: "sn_labels s = map label_view ?ls" using w by (auto simp: is_seen_def seen_def)
  have lt: "n < length ?ls" "n < 2 ^ 32" using assms(3,4) nd by (auto simp: ls)
  have "wasmLabelStackGetTopIndex (cw_labelStack w) k = Val (of_nat n)"
    using assms(3,4) nd unfolding wasmLabelStackGetTopIndex_def ls Let_def length_map by (subst if_P) auto
  then have e: "goto_label env k w = wasmCWriteGoto env (of_nat n) w" by (simp add: goto_label_def)
  have "label_view (?ls ! n) = (h, t)" using lt(1) assms(5) unfolding nd by (simp add: ls)
  then have l: "lb_typeStackLength (?ls ! n) = h" "lb_type (?ls ! n) = t" by (simp_all add: label_view_def)
  from runsD [OF runs_to_label [OF assms(1,2,6,7), of "lb_index (?ls ! n)"] w]
  show "\<exists>w'. goto_label env k w = Val w' \<and> is_seen w' s"
    using lt(1) unfolding e wasmCWriteGoto_def Let_def unat_of_nat_u32 [OF lt(2)] l by simp
qed

text \<open>What a branch needs of its label: it is open, and its value is there.\<close>

definition branchable :: "seen \<Rightarrow> nat \<Rightarrow> bool" where
  "branchable s d \<longleftrightarrow> low (sn_types s) \<and> length (sn_labels s) < 2 ^ 32 \<and> d < length (sn_labels s)
     \<and> (case sn_labels s ! (length (sn_labels s) - 1 - d) of (h, t) \<Rightarrow>
          h < 2 ^ 32 \<and> (t = None \<or> h < length (sn_types s)))"

lemma runs_goto:
  assumes "ce_al env = plenty" "branchable s d" shows "runs s (goto_label env (of_nat d)) s"
proof -
  have d: "unat (of_nat d :: u32) = d" by (rule unat_of_nat_u32) (use assms(2) in \<open>auto simp: branchable_def\<close>)
  show ?thesis
    using assms(2) by (auto simp: branchable_def d split: prod.splits intro!: runs_goto_label assms(1))
qed

lemma runs_branch:
  assumes "env_ok env" "d < 2 ^ 32" "sn_code s = uleb_bytes d @ rest" "\<not> sn_ignore s \<Longrightarrow> branchable s d"
  shows "runs s (wasmCWriteBranchExpr env) (s\<lparr>sn_code := rest\<rparr>)"
proof -
  have "runs s (wasmCWriteBranchExpr env) (s\<lparr>sn_code := rest, sn_types := sn_types s\<rparr>)"
    unfolding wasmCWriteBranchExpr_def wasmBranchInstructionRead_def
  proof (rule runs_read_written [OF reads_as_u32 [OF assms(2)] assms(3)])
    assume "\<not> sn_ignore s"
    then have "branchable (s\<lparr>sn_code := rest\<rparr>) d" using assms(4) by (simp add: branchable_def)
    then have "runs (s\<lparr>sn_code := rest\<rparr>) (goto_label env (of_nat d)) (s\<lparr>sn_code := rest\<rparr>)"
      using assms(1) by (intro runs_goto) simp_all
    then show "runs (s\<lparr>sn_code := rest\<rparr>) (goto_label env (of_nat d)) (s\<lparr>sn_code := rest, sn_types := sn_types s\<rparr>)"
      by simp
  qed simp
  then show ?thesis by simp
qed

lemma runs_branch_if:
  assumes "env_ok env" "d < 2 ^ 32" "sn_code s = uleb_bytes d @ rest"
    and "becomes s (tys @ [x]) tys'" "tys' = tys \<or> sn_ignore s"
    and "\<not> sn_ignore s \<Longrightarrow> branchable (s\<lparr>sn_code := rest, sn_types := tys'\<rparr>) d"
  shows "runs s (wasmCWriteBranchIfExpr env) (s\<lparr>sn_code := rest, sn_types := tys'\<rparr>)"
  unfolding wasmCWriteBranchIfExpr_def wasmBranchInstructionRead_def
  by (rule runs_read_written [OF reads_as_u32 [OF assms(2)] assms(3)], rule runs_eq,
      (rule runs_top runs_moves runs_goto runs_intros env_ok_plenty assms(1) |
       (use assms in \<open>simp add: becomes_def split: if_splits\<close>; fail))+)

end
