(* ===== verification/C_Translate.thy ===== *)
theory C_Translate
  imports C_Typed
begin

text \<open>
  Typed code is translated: the writer's type and label stacks follow the configuration of validation, so that
  every body that validates is written to its last \<^verbatim>\<open>end\<close>, without a failed assertion, an access past an
  array or an error, and \<open>wasmCWriteFunctionBody\<close> returns its text.
\<close>

section \<open>Configurations and stacks\<close>

fun live :: "frame list \<Rightarrow> WasmValueType list" where
  "live [] = []"
| "live (f # fs) = live fs @ rev (map value_type (fr_stk f))"

definition label_type :: "frame \<Rightarrow> WasmValueType option" where
  "label_type f = (case fr_label f of [] \<Rightarrow> None | c # _ \<Rightarrow> Some (value_type c))"

fun open_labels :: "frame list \<Rightarrow> (nat \<times> WasmValueType option) list" where
  "open_labels [] = []"
| "open_labels (f # fs) = open_labels fs @ [(length (live fs), label_type f)]"

lemma length_open_labels [simp]: "length (open_labels fs) = length fs"
  by (induction fs) auto

lemma length_live_drop: "length (live (drop d fs)) \<le> length (live fs)"
proof (induction fs arbitrary: d)
  case (Cons f fs)
  from Cons [of "d - 1"] show ?case by (cases d) auto
qed simp

lemma open_labels_nth:
  "d < length fs \<Longrightarrow> open_labels fs ! (length fs - 1 - d) = (length (live (drop (Suc d) fs)), label_type (fs ! d))"
proof (induction fs arbitrary: d)
  case (Cons f fs)
  then show ?case by (cases d) (auto simp: nth_append)
qed simp

definition at_config :: "u8 list \<Rightarrow> frame list \<Rightarrow> seen" where
  "at_config bs fs = \<lparr>sn_code = bs, sn_types = live fs, sn_labels = open_labels fs, sn_ignore = False\<rparr>"

text \<open>Configurations small enough for what is left of the code.\<close>

definition fits :: "frame list \<Rightarrow> nat \<Rightarrow> bool" where
  "fits fs n \<longleftrightarrow> length (live fs) + n < 2 ^ 32 \<and> length fs + n \<le> 2 ^ 32"

section \<open>The module's environment\<close>

text \<open>What the writer needs of a module, beyond what the reader checks.\<close>

definition writable :: "WasmModule \<Rightarrow> bool" where
  "writable m \<longleftrightarrow> ascii_imports m \<and> length (functionTypes m) < 2 ^ 32
     \<and> list_all (\<lambda>t. length (parameterTypes t) < 2 ^ 32 \<and> length (resultTypes t) \<le> 1) (functionTypes m)
     \<and> wasmModuleGetGlobalType m 0 = Val wasmValueTypeI32"

lemma value_type_class_of [simp]: "value_type (class_of t) = t"
  by (cases t) simp_all

lemma map_value_type_class_of [simp]: "map value_type (map class_of ts) = ts"
  by (induction ts) simp_all

lemma module_local:
  "we_locals (module_env m f) i = Some c \<Longrightarrow>
     i < 2 ^ 32 \<and> wasmModuleFunctionGetLocalType m f (of_nat i) = Val (value_type c)"
  by (auto simp: module_env_def split: if_splits res.splits)

lemma module_function:
  assumes "we_funcs (module_env m f) i = Some (ps, rs)"
  obtains ft where "i < 2 ^ 32" "wasmModuleGetFunctionType m (of_nat i) = Val ft"
    "map value_type ps = parameterTypes ft" "map value_type rs = resultTypes ft"
proof -
  obtain ft where "i < 2 ^ 32" "wasmModuleGetFunctionType m (of_nat i) = Val ft"
    "ps = map class_of (parameterTypes ft)" "rs = map class_of (resultTypes ft)"
    using assms by (auto simp: module_env_def module_funcs_def split: if_splits res.splits)
  then show thesis by (intro that) (simp_all only: map_value_type_class_of)
qed

lemma at_set: "at xs i = Val x \<Longrightarrow> x \<in> set xs"
  by (auto simp: at_def split: if_splits)

lemma function_type_in: "wasmModuleGetFunctionType m i = Val ft \<Longrightarrow> ft \<in> set (functionTypes m)"
  by (auto simp: wasmModuleGetFunctionType_def Let_def res_bind_eq_Val dest: at_set split: if_splits)

lemma uleb_head: "unat (hd (uleb_bytes n @ zs)) = (if n < 128 then n else n mod 128 + 128)"
proof -
  have "unat (of_nat k :: u8) = k" if "k < 256" for k
    using that by (simp add: unsigned_of_nat take_bit_nat_eq_self)
  from this [of n] this [of "n mod 128 + 128"] show ?thesis
    by (simp add: uleb_bytes.simps [of n] del: of_nat_add)
qed

lemma uleb_append_inj: "uleb_bytes a @ xs = uleb_bytes b @ ys \<Longrightarrow> a = b \<and> xs = ys"
proof (induction a arbitrary: b rule: less_induct)
  case (less a)
  have h: "(if a < 128 then a else a mod 128 + 128) = (if b < 128 then b else b mod 128 + 128)"
    using arg_cong [OF less.prems, of "\<lambda>l. unat (hd l)"] unfolding uleb_head .
  show ?case
  proof (cases "a < 128")
    case True
    then have "b = a" using h by (cases "b < 128") auto
    then show ?thesis using less.prems by simp
  next
    case False
    then have b: "\<not> b < 128" using h by (cases "b < 128") auto
    then have m: "a mod 128 = b mod 128" using h False by simp
    then have "uleb_bytes (a div 128) @ xs = uleb_bytes (b div 128) @ ys"
      using less.prems False b
      by (simp only: uleb_bytes.simps [of a] uleb_bytes.simps [of b] if_False append_Cons list.inject)
    then have "a div 128 = b div 128 \<and> xs = ys" by (rule less.IH [rotated]) (use False in simp)
    then show ?thesis using m by (metis div_mult_mod_eq)
  qed
qed

lemma valtype_byte_inj: "valtype_byte t = word_of_int (valtype c) \<Longrightarrow> value_type c = t"
  by (cases t; cases c) simp_all

lemma map_valtype_inj:
  "map valtype_byte ts = map (\<lambda>c. word_of_int (valtype c)) cs \<Longrightarrow> map value_type cs = ts"
  by (induction ts arbitrary: cs) (auto simp: Cons_eq_map_conv valtype_byte_inj)

lemma enc_types_flat: "enc_types ts = uleb_bytes (length ts) @ map valtype_byte ts"
  by (simp add: enc_vec_def)

lemma sig_bytes_type:
  assumes "enc_functype t = sig_bytes ps rs" "length (resultTypes t) \<le> 1"
  shows "map value_type ps = parameterTypes t \<and> map value_type rs = resultTypes t"
proof -
  have e: "uleb_bytes (length (parameterTypes t)) @ map valtype_byte (parameterTypes t) @ enc_types (resultTypes t)
      = uleb_bytes (length ps) @ map (\<lambda>c. word_of_int (valtype c)) ps
        @ of_nat (length rs) # map (\<lambda>c. word_of_int (valtype c)) rs"
    using assms(1) by (simp add: enc_functype_def sig_bytes_def enc_types_flat)
  from uleb_append_inj [OF e] have "map valtype_byte (parameterTypes t) = map (\<lambda>c. word_of_int (valtype c)) ps"
    and r: "enc_types (resultTypes t) = of_nat (length rs) # map (\<lambda>c. word_of_int (valtype c)) rs"
    by auto
  moreover have "map valtype_byte (resultTypes t) = map (\<lambda>c. word_of_int (valtype c)) rs"
    using r assms(2) by (simp add: enc_types_flat uleb_bytes.simps)
  ultimately show ?thesis by (simp add: map_valtype_inj)
qed

lemma module_type:
  assumes "i < length (we_types (module_env m f))" "we_types (module_env m f) ! i = sig_bytes ps rs" "writable m"
  obtains ft where "i < 2 ^ 32" "at (functionTypes m) i = Val ft" "length (resultTypes ft) \<le> 1"
    "map value_type ps = parameterTypes ft" "map value_type rs = resultTypes ft"
proof -
  let ?t = "functionTypes m ! i"
  have "i < length (functionTypes m)" using assms(1) by (simp add: module_env_def)
  moreover from this have "length (resultTypes ?t) \<le> 1" using assms(3) by (simp add: writable_def list_all_length)
  ultimately show thesis
    using assms sig_bytes_type [of ?t ps rs]
    by (intro that [of ?t]) (simp_all add: at_def module_env_def writable_def)
qed

section \<open>Instructions\<close>

text \<open>
  \<open>writes env oc bs tys tys'\<close>: opcode \<open>oc\<close> with the operands \<open>bs\<close> takes the types \<open>tys\<close> to \<open>tys'\<close>, or just reads
  its operands.
\<close>

definition writes :: "cenv \<Rightarrow> nat \<Rightarrow> u8 list \<Rightarrow> WasmValueType list \<Rightarrow> WasmValueType list \<Rightarrow> bool" where
  "writes env oc bs tys tys' \<longleftrightarrow> (\<forall>s rest after. sn_code s = bs @ rest \<longrightarrow> becomes s tys after \<longrightarrow>
     after = tys' \<or> sn_ignore s \<longrightarrow> runs s (write_instruction env oc) (s\<lparr>sn_code := rest, sn_types := after\<rparr>))"

lemma writesI:
  assumes "write_instruction env oc = a"
    and "\<And>s rest after. sn_code s = bs @ rest \<Longrightarrow> becomes s tys after \<Longrightarrow> after = tys' \<or> sn_ignore s
      \<Longrightarrow> runs s a (s\<lparr>sn_code := rest, sn_types := after\<rparr>)"
  shows "writes env oc bs tys tys'"
  using assms by (simp add: writes_def)

lemma writes_written:
  assumes "write_instruction env oc = if_written a"
    and "\<And>s. sn_types s = tys \<Longrightarrow> low tys \<Longrightarrow> runs s a (s\<lparr>sn_types := tys'\<rparr>)"
  shows "writes env oc [] tys tys'"
proof (rule writesI [OF assms(1)])
  fix s rest after
  assume s: "sn_code s = [] @ rest" "becomes s tys after" "after = tys' \<or> sn_ignore s"
  then have c: "s\<lparr>sn_code := rest, sn_types := after\<rparr> = s\<lparr>sn_types := after\<rparr>" by (cases s) simp
  show "runs s (if_written a) (s\<lparr>sn_code := rest, sn_types := after\<rparr>)"
  proof (cases "sn_ignore s")
    case True
    then have "s\<lparr>sn_types := after\<rparr> = s" using s(2) by (cases s) (simp add: becomes_def)
    then show ?thesis unfolding c using runs_if_written_ignored [OF True, of a] by simp
  next
    case False
    then show ?thesis unfolding c using s
      by (intro runs_if_written) (auto simp: becomes_def intro!: assms(2))
  qed
qed

lemma writes_plain:
  assumes "env_ok env" "plain_op c = Some (ins, outs)"
  shows "writes env (nat c) [] (tys @ rev (map value_type ins)) (tys @ map value_type outs)"
proof (rule writes_written)
  have r: "0x45 \<le> c" "c \<le> 0xC4" using plain_op_range [OF assms(2)] by simp_all
  then have "0x45 \<le> nat c" "nat c \<le> 0xC4" by linarith+
  then show "write_instruction env (nat c) = if_written (write_operator env (nat c))"
    by (simp add: write_instruction_def)
  fix s :: seen assume "sn_types s = tys @ rev (map value_type ins)" "low (tys @ rev (map value_type ins))"
  then show "runs s (write_operator env (nat c)) (s\<lparr>sn_types := tys @ map value_type outs\<rparr>)"
    using r assms by (intro runs_plain [OF assms(1)]) simp_all
qed

lemma writes_drop: "writes env wasmOpcodeDrop [] (tys @ [t]) tys"
proof (rule writes_written)
  fix s :: seen assume "sn_types s = tys @ [t]"
  then show "runs s (drop_types 1) (s\<lparr>sn_types := tys\<rparr>)" using runs_drop [of 1 s] by simp
qed (simp add: write_instruction_def if_written_def write_operator_def)

lemma writes_const:
  assumes "env_ok env"
  shows "- (2 ^ 31) \<le> v \<Longrightarrow> v < 2 ^ 31 \<Longrightarrow> writes env wasmOpcodeI32Const (sleb_bytes v) tys (tys @ [wasmValueTypeI32])"
    "- (2 ^ 63) \<le> u \<Longrightarrow> u < 2 ^ 63 \<Longrightarrow> writes env wasmOpcodeI64Const (sleb_bytes u) tys (tys @ [wasmValueTypeI64])"
    "length bs = 4 \<Longrightarrow> writes env wasmOpcodeF32Const bs tys (tys @ [wasmValueTypeF32])"
    "length cs = 8 \<Longrightarrow> writes env wasmOpcodeF64Const cs tys (tys @ [wasmValueTypeF64])"
proof -
  have w: "write_instruction env oc = wasmCWriteConstExpr env oc" if "oc \<in> {0x41, 0x42, 0x43, 0x44}" for oc
    using that by (auto simp: write_instruction_def)
  have t: "wasmOpcodeResultType 0x41 = Some wasmValueTypeI32" "wasmOpcodeResultType 0x42 = Some wasmValueTypeI64"
    "wasmOpcodeResultType 0x43 = Some wasmValueTypeF32" "wasmOpcodeResultType 0x44 = Some wasmValueTypeF64"
    by (simp_all add: wasmOpcodeResultType_def)
  note c = runs_const [OF assms] and l = runs_literal [OF env_ok_plenty [OF assms]]
  show "- (2 ^ 31) \<le> v \<Longrightarrow> v < 2 ^ 31 \<Longrightarrow> writes env wasmOpcodeI32Const (sleb_bytes v) tys (tys @ [wasmValueTypeI32])"
    by (rule writesI [OF w], simp) (rule c [OF reads_as_const(1) _ _ _ t(1) l(1)])
  show "- (2 ^ 63) \<le> u \<Longrightarrow> u < 2 ^ 63 \<Longrightarrow> writes env wasmOpcodeI64Const (sleb_bytes u) tys (tys @ [wasmValueTypeI64])"
    by (rule writesI [OF w], simp) (rule c [OF reads_as_const(2) _ _ _ t(2) l(2)])
  show "length bs = 4 \<Longrightarrow> writes env wasmOpcodeF32Const bs tys (tys @ [wasmValueTypeF32])"
    by (rule exE [OF reads_as_const(3)], assumption) (rule writesI [OF w], simp, rule c [OF _ _ _ _ t(3) l(3)])
  show "length cs = 8 \<Longrightarrow> writes env wasmOpcodeF64Const cs tys (tys @ [wasmValueTypeF64])"
    by (rule exE [OF reads_as_const(4)], assumption) (rule writesI [OF w], simp, rule c [OF _ _ _ _ t(4) l(4)])
qed

text \<open>Opcodes with operands.\<close>

lemma write_instruction_cases:
  "write_instruction env 0x20 = wasmCWriteLocalGetExpr env"
  "write_instruction env 0x21 = wasmCWriteLocalAssignmentExpr env 0x21"
  "write_instruction env 0x22 = wasmCWriteLocalAssignmentExpr env 0x22"
  "write_instruction env 0x23 = wasmCWriteGlobalGetExpr env"
  "write_instruction env 0x24 = wasmCWriteGlobalSetExpr env"
  "write_instruction env 0x10 = wasmCWriteCallExpr env"
  "write_instruction env 0x11 = wasmCWriteCallIndirectExpr env"
  "write_instruction env 0x0D = wasmCWriteBranchIfExpr env"
  "write_instruction env 0x0C = steps [wasmCWriteBranchExpr env, set_ignore True]"
  "write_instruction env 0x3F = wasmCWriteMemorySizeExpr env"
  "write_instruction env 0x40 = wasmCWriteMemoryGrowExpr env"
  "write_instruction env 0xFC = write_misc env"
  by (simp_all add: write_instruction_def)

lemma writes_variables:
  assumes "env_ok env" "i < 2 ^ 32"
  shows
    "wasmModuleFunctionGetLocalType (ce_module env) (ce_function env) (of_nat i) = Val t
      \<Longrightarrow> writes env 0x20 (uleb_bytes i) tys (tys @ [t])"
    "wasmModuleFunctionGetLocalType (ce_module env) (ce_function env) (of_nat i) = Val t
      \<Longrightarrow> writes env 0x21 (uleb_bytes i) (tys @ [t]) tys"
    "wasmModuleFunctionGetLocalType (ce_module env) (ce_function env) (of_nat i) = Val t
      \<Longrightarrow> writes env 0x22 (uleb_bytes i) (tys @ [t]) (tys @ [t])"
    "wasmModuleGetGlobalType (ce_module env) (of_nat i) = Val t \<Longrightarrow> writes env 0x23 (uleb_bytes i) tys (tys @ [t])"
    "wasmModuleGetGlobalType (ce_module env) (of_nat i) = Val t \<Longrightarrow> writes env 0x24 (uleb_bytes i) (tys @ [t]) tys"
  by (rule writesI, rule write_instruction_cases, rule runs_variables [OF assms]; assumption)+

lemma load_functions_op:
  "load_op c = Some (t, a) \<Longrightarrow> \<exists>f. load_functions (nat c) = Some (value_type t, f) \<and> 0x28 \<le> c \<and> c \<le> 0x35 \<and> a \<le> 3"
  by (auto simp: load_op_def load_functions_def split: if_splits)

lemma store_functions_op:
  "store_op c = Some (t, a) \<Longrightarrow> \<exists>f. store_functions (nat c) = Some f \<and> 0x36 \<le> c \<and> c \<le> 0x3E \<and> a \<le> 3"
  by (auto simp: store_op_def store_functions_def split: if_splits)

lemma writes_load:
  assumes "env_ok env" "load_op c = Some (t, a)" "b \<le> a"
  shows "writes env (nat c) (uleb_bytes b @ uleb_bytes 0) (tys @ [x]) (tys @ [value_type t])"
proof -
  obtain f where f: "load_functions (nat c) = Some (value_type t, f)" "0x28 \<le> c" "c \<le> 0x35" "a \<le> 3"
    using load_functions_op [OF assms(2)] by blast
  then have "0x28 \<le> nat c" "nat c \<le> 0x35" by linarith+
  then have w: "write_instruction env (nat c) = wasmCWriteLoadExpr env (nat c)" by (simp add: write_instruction_def)
  show ?thesis
    by (rule writesI [OF w], rule runs_load [OF assms(1) _ _ _ _ _ f(1), where a = b and b = 0])
      (use assms(3) f(4) in simp_all)
qed

lemma writes_store:
  assumes "env_ok env" "store_op c = Some (t, a)" "b \<le> a"
  shows "writes env (nat c) (uleb_bytes b @ uleb_bytes 0) (tys @ [x, y]) tys"
proof -
  obtain f where f: "store_functions (nat c) = Some f" "0x36 \<le> c" "c \<le> 0x3E" "a \<le> 3"
    using store_functions_op [OF assms(2)] by blast
  then have "0x36 \<le> nat c" "nat c \<le> 0x3E" by linarith+
  then have w: "write_instruction env (nat c) = wasmCWriteStoreExpr env (nat c)" by (simp add: write_instruction_def)
  show ?thesis
    by (rule writesI [OF w], rule runs_store [OF assms(1) _ _ _ _ _ f(1), where a = b and b = 0])
      (use assms(3) f(4) in simp_all)
qed

lemma writes_memory:
  assumes "env_ok env"
  shows "writes env 0x3F [0] tys (tys @ [wasmValueTypeI32])" "writes env 0x40 [0] (tys @ [x]) (tys @ [x])"
  by (rule writesI, rule write_instruction_cases, rule runs_memory [OF assms]; assumption)+

text \<open>The second opcode of the bulk operations is read first.\<close>

lemma writes_misc:
  assumes "oc < 2 ^ 32"
    and "\<And>s rest after. sn_code s = bs @ rest \<Longrightarrow> becomes s tys after \<Longrightarrow> after = tys' \<or> sn_ignore s
      \<Longrightarrow> runs s (misc_instruction env oc) (s\<lparr>sn_code := rest, sn_types := after\<rparr>)"
  shows "writes env 0xFC (uleb_bytes oc @ bs) tys tys'"
proof (rule writesI [OF write_instruction_cases(12)])
  fix s :: seen and rest after
  assume s: "sn_code s = (uleb_bytes oc @ bs) @ rest" "becomes s tys after" "after = tys' \<or> sn_ignore s"
  have "runs (s\<lparr>sn_code := bs @ rest\<rparr>) (misc_instruction env oc) (s\<lparr>sn_code := bs @ rest, sn_code := rest, sn_types := after\<rparr>)"
    by (rule assms(2)) (use s in \<open>auto simp: becomes_def split: if_splits\<close>)
  then show "runs s (write_misc env) (s\<lparr>sn_code := rest, sn_types := after\<rparr>)"
    unfolding write_misc_def
    by (intro runs_must [OF reads_as_u32 [OF assms(1)], where rest = "bs @ rest"])
      (use s in \<open>simp_all add: unat_of_nat_u32 [OF assms(1)]\<close>)
qed

lemma misc_instructions:
  "misc_instruction env 10 = wasmCWriteMemoryCopyExpr env" "misc_instruction env 11 = wasmCWriteMemoryFillExpr env"
  by (simp_all add: misc_instruction_def)

lemma writes_bulk:
  assumes "env_ok env"
  shows "writes env 0xFC (uleb_bytes 10 @ [0, 0]) (tys @ [x, y, z]) tys"
    "writes env 0xFC (uleb_bytes 11 @ [0]) (tys @ [x, y, z]) tys"
proof -
  show "writes env 0xFC (uleb_bytes 10 @ [0, 0]) (tys @ [x, y, z]) tys"
    by (rule writes_misc, simp, unfold misc_instructions, rule runs_memory_copy [OF assms]) simp_all
  show "writes env 0xFC (uleb_bytes 11 @ [0]) (tys @ [x, y, z]) tys"
    by (rule writes_misc, simp, unfold misc_instructions, rule runs_memory(3) [OF assms]) simp_all
qed

lemma writes_call:
  assumes "env_ok env" "i < 2 ^ 32" "wasmModuleGetFunctionType (ce_module env) (of_nat i) = Val ft"
  shows "writes env 0x10 (uleb_bytes i) (tys @ parameterTypes ft) (tys @ resultTypes ft)"
  by (rule writesI, rule write_instruction_cases, rule runs_call [OF assms(1,2) _ assms(3)]; assumption)

lemma writes_call_indirect:
  assumes "env_ok env" "i < 2 ^ 32" "at (functionTypes (ce_module env)) i = Val ft" "length (resultTypes ft) \<le> 1"
  shows "writes env 0x11 (uleb_bytes i @ [0]) (tys @ parameterTypes ft @ [x]) (tys @ resultTypes ft)"
  by (rule writesI, rule write_instruction_cases, rule runs_call_indirect [OF assms(1,2) _ assms(3,4)]; assumption)

section \<open>Validated instructions\<close>

definition env_for :: "cenv \<Rightarrow> bool" where
  "env_for env \<longleftrightarrow> ce_al env = plenty \<and> writable (ce_module env)"

lemma env_for_ok [simp]: "env_for env \<Longrightarrow> env_ok env"
  by (simp add: env_for_def env_ok_def writable_def)

abbreviation wenv_of :: "cenv \<Rightarrow> wenv" where
  "wenv_of env \<equiv> module_env (ce_module env) (ce_function env)"

text \<open>Instructions that open, part or close a block, and branches, are handled apart.\<close>

definition straight :: "u8 \<Rightarrow> bool" where
  "straight b \<longleftrightarrow> b \<notin> {0x02, 0x03, 0x04, 0x05, 0x0B, 0x0C, 0x0D}"

lemma unat_byte: "0 \<le> c \<Longrightarrow> c < 256 \<Longrightarrow> unat (word_of_int c :: u8) = nat c"
  by (simp add: unsigned_of_int take_bit_int_eq_self)

lemma plain_byte: "plain_op c = Some x \<Longrightarrow> unat (word_of_int c :: u8) = nat c"
  using plain_op_range [of c x] by (intro unat_byte) auto

definition one_result :: "(vclass list \<times> vclass list) option \<Rightarrow> bool" where
  "one_result x \<longleftrightarrow> (\<forall>ins outs. x = Some (ins, outs) \<longrightarrow> (\<exists>c. outs = [c]))"

lemma plain_result: "plain_op c = Some (ins, outs) \<Longrightarrow> \<exists>o1. outs = [o1]"
proof -
  have i: "one_result x \<Longrightarrow> one_result y \<Longrightarrow> one_result (if b then x else y)" for b x y by simp
  have "one_result (plain_op c)" unfolding plain_op_def by (rule i | simp add: one_result_def)+
  then show "plain_op c = Some (ins, outs) \<Longrightarrow> \<exists>o1. outs = [o1]" by (simp add: one_result_def)
qed

lemma load_byte: "load_op c = Some x \<Longrightarrow> unat (word_of_int c :: u8) = nat c"
  using load_functions_op [of c "fst x" "snd x"] by (intro unat_byte) auto

lemma store_byte: "store_op c = Some x \<Longrightarrow> unat (word_of_int c :: u8) = nat c"
  using store_functions_op [of c "fst x" "snd x"] by (intro unat_byte) auto

lemma env_for_writable: "env_for env \<Longrightarrow> writable (ce_module env)"
  by (simp add: env_for_def)

lemma straight_writes:
  assumes "vinstr (wenv_of env) i (Frame k l r st # fs) cfg" "env_for env" "straight (hd i)"
  obtains b bs st' where "i = b # bs" "cfg = Frame k l r st' # fs"
    "writes env (unat b) bs (live (Frame k l r st # fs)) (live (Frame k l r st' # fs))"
  using assms(1)
proof (cases rule: vinstr.cases)
  note ok = env_for_ok [OF assms(2)]
  let ?base = "\<lambda>s. live fs @ rev (map value_type s)"
  {
    case (v_plain c ins outs s)
    obtain o1 where o: "outs = [o1]" using plain_result v_plain by blast
    with v_plain show ?thesis
      using writes_plain [OF ok, of c ins outs "?base s"] plain_byte [of c]
      by (intro that [of "word_of_int c" "[]" "outs @ s"]) simp_all
  next
    case (v_drop c s)
    then show ?thesis using writes_drop [of env "?base s"] by (intro that [of "0x1A" "[]" s]) simp_all
  next
    case (v_i32 v)
    then show ?thesis using writes_const(1) [OF ok, of v "?base st"] by (intro that [of "0x41" "sleb_bytes v" "VC_I32 # st"]) simp_all
  next
    case (v_i64 v)
    then show ?thesis using writes_const(2) [OF ok, of v "?base st"] by (intro that [of "0x42" "sleb_bytes v" "VC_I64 # st"]) simp_all
  next
    case (v_f32 bs)
    then show ?thesis using writes_const(3) [OF ok, of bs "?base st"] by (intro that [of "0x43" bs "VC_F32 # st"]) simp_all
  next
    case (v_f64 bs)
    then show ?thesis using writes_const(4) [OF ok, of bs "?base st"] by (intro that [of "0x44" bs "VC_F64 # st"]) simp_all
  next
    case (v_local_get j c)
    then show ?thesis
      using writes_variables(1) [OF ok, of j _ "?base st"] module_local [of _ _ j c]
      by (intro that [of "0x20" "uleb_bytes j" "c # st"]) simp_all
  next
    case (v_local_set j c s)
    then show ?thesis
      using writes_variables(2) [OF ok, of j _ "?base s"] module_local [of _ _ j c]
      by (intro that [of "0x21" "uleb_bytes j" s]) simp_all
  next
    case (v_local_tee j c s)
    then show ?thesis
      using writes_variables(3) [OF ok, of j _ "?base s"] module_local [of _ _ j c]
      by (intro that [of "0x22" "uleb_bytes j" st]) simp_all
  next
    case v_global_get
    then show ?thesis
      using writes_variables(4) [OF ok, of 0 _ "?base st"] env_for_writable [OF assms(2)]
      by (intro that [of "0x23" "uleb_bytes 0" "VC_I32 # st"]) (simp_all add: writable_def)
  next
    case (v_global_set s)
    then show ?thesis
      using writes_variables(5) [OF ok, of 0 _ "?base s"] env_for_writable [OF assms(2)]
      by (intro that [of "0x24" "uleb_bytes 0" s]) (simp_all add: writable_def)
  next
    case (v_load c t a b s)
    then show ?thesis
      using writes_load [OF ok, of c t a b "?base s"] load_byte [of c]
      by (intro that [of "word_of_int c" "uleb_bytes b @ uleb_bytes 0" "t # s"]) simp_all
  next
    case (v_store c t a b s)
    then show ?thesis
      using writes_store [OF ok, of c t a b "?base s"] store_byte [of c]
      by (intro that [of "word_of_int c" "uleb_bytes b @ uleb_bytes 0" s]) simp_all
  next
    case v_memory_size
    then show ?thesis
      using writes_memory(1) [OF ok, of "?base st"] by (intro that [of "0x3F" "[0]" "VC_I32 # st"]) simp_all
  next
    case (v_memory_grow s)
    then show ?thesis
      using writes_memory(2) [OF ok, of "?base s"] by (intro that [of "0x40" "[0]" st]) simp_all
  next
    case (v_memory_copy s)
    then show ?thesis
      using writes_bulk(1) [OF ok, of "?base s"] by (intro that [of "0xFC" "uleb_bytes 10 @ [0, 0]" s]) simp_all
  next
    case (v_memory_fill s)
    then show ?thesis
      using writes_bulk(2) [OF ok, of "?base s"] by (intro that [of "0xFC" "uleb_bytes 11 @ [0]" s]) simp_all
  next
    case (v_call j ps rs s)
    obtain ft where ft: "j < 2 ^ 32" "wasmModuleGetFunctionType (ce_module env) (of_nat j) = Val ft"
      "map value_type ps = parameterTypes ft" "map value_type rs = resultTypes ft"
      using module_function [of _ _ j ps rs] v_call by metis
    have "length (resultTypes ft) \<le> 1"
      using function_type_in [OF ft(2)] env_for_writable [OF assms(2)] by (auto simp: writable_def list_all_iff)
    then have r: "rev (map value_type rs) = resultTypes ft" unfolding ft(4) by (cases "resultTypes ft") auto
    from v_call show ?thesis
      using writes_call [OF ok ft(1,2), of "?base s"] r ft(3)
      by (intro that [of "0x10" "uleb_bytes j" "rs @ s"]) (simp_all add: rev_map)
  next
    case (v_call_indirect j ps rs s)
    obtain ft where ft: "j < 2 ^ 32" "at (functionTypes (ce_module env)) j = Val ft" "length (resultTypes ft) \<le> 1"
      "map value_type ps = parameterTypes ft" "map value_type rs = resultTypes ft"
      using module_type [of j _ _ ps rs] v_call_indirect env_for_writable [OF assms(2)] by metis
    have r: "rev (map value_type rs) = resultTypes ft" using ft(3) unfolding ft(5) by (cases "resultTypes ft") auto
    from v_call_indirect show ?thesis
      using writes_call_indirect [OF ok ft(1,2,3), of "?base s"] r ft(4)
      by (intro that [of "0x11" "uleb_bytes j @ [0]" "rs @ s"]) (simp_all add: rev_map)
  }
qed (use assms(3) in \<open>simp_all add: straight_def\<close>)

section \<open>Room\<close>

lemma uleb_length_pos: "0 < length (uleb_bytes n)"
  by simp

lemma vinstr_fits:
  assumes "vinstr (wenv_of env) i c c'" "env_for env" "fits c (length i + n)"
  shows "fits c' n"
  using assms(1)
proof (cases rule: vinstr.cases)
  case (v_plain c ins outs)
  then show ?thesis using plain_result [of c ins outs] assms(3) by (auto simp: fits_def)
next
  case (v_call j ps rs)
  obtain ft :: WasmFunctionType where "wasmModuleGetFunctionType (ce_module env) (of_nat j) = Val ft" "map value_type rs = resultTypes ft"
    using module_function [of _ _ j ps rs] v_call by metis
  then have "length rs \<le> 1"
    using function_type_in env_for_writable [OF assms(2)] unfolding writable_def list_all_iff by (metis length_map)
  then show ?thesis using v_call assms(3) by (auto simp: fits_def)
next
  case (v_call_indirect j ps rs)
  obtain ft :: WasmFunctionType where "length (resultTypes ft) \<le> 1" "map value_type rs = resultTypes ft"
    using module_type [of j _ _ ps rs] v_call_indirect env_for_writable [OF assms(2)] by metis
  then have "length rs \<le> 1" by (metis length_map)
  then show ?thesis using v_call_indirect assms(3) by (auto simp: fits_def)
qed (use assms(3) in \<open>auto simp: fits_def\<close>)

section \<open>Blocks\<close>

definition value_types :: "WasmValueType option \<Rightarrow> WasmValueType list" where
  "value_types t = (case t of None \<Rightarrow> [] | Some t \<Rightarrow> [t])"

definition block_type :: "vclass list \<Rightarrow> WasmValueType option" where
  "block_type rs = (case rs of [] \<Rightarrow> None | c # _ \<Rightarrow> Some (value_type c))"

lemma value_types_block: "block_results rs \<Longrightarrow> value_types (block_type rs) = rev (map value_type rs)"
  by (cases rs) (auto simp: block_results_def value_types_def block_type_def)

lemma one_byte_types:
  "sleb_bytes (-64) = [0x40]" "sleb_bytes (-1) = [0x7F]" "sleb_bytes (-2) = [0x7E]" "sleb_bytes (-3) = [0x7D]"
  "sleb_bytes (-4) = [0x7C]"
  by (subst sleb_bytes.simps, simp)+

lemma leb128ReadI32_byte:
  "leb128ReadI32 (0x40 # rest) = (word_of_int (-64), 1, rest)" "leb128ReadI32 (0x7F # rest) = (word_of_int (-1), 1, rest)"
  "leb128ReadI32 (0x7E # rest) = (word_of_int (-2), 1, rest)" "leb128ReadI32 (0x7D # rest) = (word_of_int (-3), 1, rest)"
  "leb128ReadI32 (0x7C # rest) = (word_of_int (-4), 1, rest)"
  using leb128ReadI32_sleb [of "-64" rest] leb128ReadI32_sleb [of "-1" rest] leb128ReadI32_sleb [of "-2" rest]
    leb128ReadI32_sleb [of "-3" rest] leb128ReadI32_sleb [of "-4" rest]
  unfolding one_byte_types by simp_all

lemma reads_as_block_type: "block_results rs \<Longrightarrow> reads_as wasmReadBlockType [blocktype rs] (block_type rs)"
proof -
  assume rs: "block_results rs"
  then consider "rs = []" | c where "rs = [c]" "c \<noteq> VC_NONE"
    by (cases rs) (auto simp: block_results_def)
  then show ?thesis
  proof cases
    case 1
    then show ?thesis
      by (simp add: reads_as_def wasmReadBlockType_def blocktype_def block_type_def rd_bind_def rd_leb_def
          rd_return_def leb128ReadI32_byte)
  next
    case 2
    then show ?thesis
      by (cases c) (simp_all add: reads_as_def wasmReadBlockType_def wasmDecodeValueType_def blocktype_def
          block_type_def rd_bind_def rd_leb_def rd_return_def leb128ReadI32_byte)
  qed
qed

lemma runs_set_ignore: "runs s (set_ignore b) (s\<lparr>sn_ignore := b\<rparr>)"
  by (auto simp: runs_def set_ignore_def is_seen_def seen_def writer_ok_def)

lemma runs_set_length: "n \<le> length (sn_types s) \<Longrightarrow> runs s (set_length n) (s\<lparr>sn_types := take n (sn_types s)\<rparr>)"
  by (auto simp: runs_def set_length_def is_seen_def seen_def writer_ok_def stack_ok_def stack_types_def min_def split: if_splits)

lemma runs_pop_label: "runs s pop_label (s\<lparr>sn_labels := butlast (sn_labels s)\<rparr>)"
  by (auto simp: runs_def pop_label_def wasmLabelStackPop_def is_seen_def seen_def writer_ok_def map_butlast)

lemma runs_push_block_type:
  "ce_al env = plenty \<Longrightarrow> runs s (push_block_type env bt) (s\<lparr>sn_types := sn_types s @ value_types bt\<rparr>)"
  using runs_Val [of s] runs_push [of env s] by (auto simp: push_block_type_def value_types_def split: option.splits)

lemma runs_then_eq: "runs s a s1 \<Longrightarrow> runs s1 b s2 \<Longrightarrow> s2 = s' \<Longrightarrow> runs s (steps [a, b]) s'"
  by (blast intro: runs_Cons runs_Nil)

lemma runs_block_end:
  assumes "ce_al env = plenty" "base \<le> length (sn_types s)"
  shows "runs s (block_end env bt base)
    (s\<lparr>sn_types := take base (sn_types s) @ value_types bt, sn_labels := butlast (sn_labels s)\<rparr>)"
  unfolding block_end_def
  by (rule runs_eq, rule runs_Cons [OF runs_set_length [OF assms(2)]], rule runs_Cons [OF runs_pop_label],
      rule runs_Cons [OF runs_push_block_type [OF assms(1)]], rule runs_Nil) simp

lemma runs_debug_line: "ce_al env = plenty \<Longrightarrow> runs s (write_debug_line env) s"
  unfolding runs_def
proof (intro allI impI)
  fix w assume al: "ce_al env = plenty" and w: "is_seen w s"
  have l: "runs s (wasmCWriteDebugLine env l) s" for l
    unfolding wasmCWriteDebugLine_def by (rule runs_intros runs_on_builder builds_U64 al | simp add: al builds_U64)+
  have w': "is_seen (w\<lparr>cw_debugLines := ls\<rparr>) s" for ls
    using w by (auto simp: is_seen_def seen_def writer_ok_def)
  show "\<exists>w'. write_debug_line env w = Val w' \<and> is_seen w' s"
    using w w' runsD [OF l w'] by (auto simp: write_debug_line_def Let_def split: prod.splits option.splits)
qed

text \<open>The start of a block: the label is pushed at the height of the stack.\<close>

definition starts :: "seen \<Rightarrow> (WasmCFunctionWriter \<Rightarrow> (werr, (WasmLabel \<times> nat) \<times> WasmCFunctionWriter) res) \<Rightarrow> seen \<Rightarrow> nat \<Rightarrow> bool" where
  "starts s a s' base \<longleftrightarrow> (\<forall>w. is_seen w s \<longrightarrow> (\<exists>l w'. a w = Val ((l, base), w') \<and> is_seen w' s'))"

lemma startsD: "starts s a s' base \<Longrightarrow> is_seen w s \<Longrightarrow> \<exists>l w'. a w = Val ((l, base), w') \<and> is_seen w' s'"
  by (simp add: starts_def)

lemma starts_push_label:
  assumes "ce_al env = plenty"
  shows "starts s (push_label env t) (s\<lparr>sn_labels := sn_labels s @ [(length (sn_types s), t)]\<rparr>) (length (sn_types s))"
  unfolding starts_def
proof (intro allI impI)
  fix w assume w: "is_seen w s"
  let ?l = "\<lparr>lb_index = ls_next (cw_labelStack w), lb_typeStackLength = length (sn_types s), lb_type = t\<rparr>"
  have e: "cw_code w = input (rd_buffer (cw_code w)) (rd_allocs (cw_code w))" by (cases "cw_code w") simp
  obtain k where "arrayAppend plenty () 24 (ls_labels (cw_labelStack w)) ?l (input (rd_buffer (cw_code w)) (rd_allocs (cw_code w)))
      = Val (append_array ?l (ls_labels (cw_labelStack w)), input (rd_buffer (cw_code w)) k)"
    by (rule exE [OF arrayAppend_plenty_eq])
  then have "arrayAppend plenty () 24 (ls_labels (cw_labelStack w)) ?l (cw_code w)
      = Val (append_array ?l (ls_labels (cw_labelStack w)), input (rd_buffer (cw_code w)) k)"
    by (simp only: e [symmetric])
  then show "\<exists>l w'. push_label env t w = Val ((l, length (sn_types s)), w')
      \<and> is_seen w' (s\<lparr>sn_labels := sn_labels s @ [(length (sn_types s), t)]\<rparr>)"
    using w assms
    by (auto simp: push_label_def Let_def must_def wasmLabelStackPush_def rd_bind_def rd_return_def is_seen_length
        is_seen_def seen_def writer_ok_def append_array_def label_view_def)
qed

lemma starts_then: "starts s a s1 n \<Longrightarrow> runs s1 b s2 \<Longrightarrow> starts s (\<lambda>w. res_bind (a w) (\<lambda>(x, w). res_bind (b w) (\<lambda>w. Val (x, w)))) s2 n"
  unfolding starts_def by (fastforce dest: runsD)

lemma starts_after: "runs s b s1 \<Longrightarrow> starts s1 a s2 n \<Longrightarrow> starts s (\<lambda>w. res_bind (b w) a) s2 n"
  unfolding starts_def by (fastforce dest: runsD)

end
