(* ===== verification/C_Body.thy ===== *)
theory C_Body
  imports C_Translate
begin

text \<open>
  Blocks, the loop over the code, and function bodies: the translation of typed code runs to its end.
\<close>

section \<open>Inversion of validated code\<close>

lemma vinstr_head: "vinstr E i c c' \<Longrightarrow> i \<noteq> []"
  by (cases rule: vinstr.cases) auto

lemma code_head:
  assumes "vruns E bs (f # fs) []"
  obtains b ops rest c where "bs = b # ops @ rest" "vinstr E (b # ops) (f # fs) c" "vruns E rest c []"
  using assms
proof (cases rule: vruns.cases)
  case (vr_step i c1 bs1)
  then obtain b ops where "i = b # ops" using vinstr_head by (cases i) auto
  with vr_step that show ?thesis by auto
qed

lemma op_heads:
  "plain_op c = Some x \<Longrightarrow> straight (word_of_int c)" "load_op c = Some y \<Longrightarrow> straight (word_of_int c)"
  "store_op c = Some y \<Longrightarrow> straight (word_of_int c)"
proof -
  have s: "straight (word_of_int c)" if "0x28 \<le> c" "c < 256"
  proof -
    have "unat (word_of_int c :: u8) = nat c" using that by (intro unat_byte) auto
    then have "0x28 \<le> unat (word_of_int c :: u8)" using that by simp
    then show ?thesis unfolding straight_def by auto
  qed
  show "plain_op c = Some x \<Longrightarrow> straight (word_of_int c)" using plain_op_range [of c x] by (intro s) auto
  show "load_op c = Some y \<Longrightarrow> straight (word_of_int c)"
    using load_functions_op [of c "fst y" "snd y"] by (intro s) auto
  show "store_op c = Some y \<Longrightarrow> straight (word_of_int c)"
    using store_functions_op [of c "fst y" "snd y"] by (intro s) auto
qed

lemma control_instr:
  assumes "vinstr E (b # ops) (Frame k l r st # fs) c" "\<not> straight b"
  shows "(b = 0x0B \<and> ops = [] \<and> st = r \<and> (k = K_FUNC \<and> fs = [] \<and> c = [] \<or> k \<noteq> K_FUNC \<and> (k = K_IF \<longrightarrow> r = []) \<and>
            (\<exists>k' l' r' s fs'. fs = Frame k' l' r' s # fs' \<and> c = Frame k' l' r' (r @ s) # fs')))
    \<or> (b = 0x05 \<and> ops = [] \<and> st = r \<and> k = K_IF \<and> c = Frame K_ELSE l r [] # fs)
    \<or> (b = 0x02 \<and> (\<exists>rs. ops = [blocktype rs] \<and> block_results rs \<and> c = Frame K_BLOCK rs rs [] # Frame k l r st # fs))
    \<or> (b = 0x03 \<and> (\<exists>rs. ops = [blocktype rs] \<and> block_results rs \<and> c = Frame K_LOOP [] rs [] # Frame k l r st # fs))
    \<or> (b = 0x04 \<and> (\<exists>rs s. st = VC_I32 # s \<and> ops = [blocktype rs] \<and> block_results rs \<and> c = Frame K_IF rs rs [] # Frame k l r s # fs))
    \<or> (b = 0x0C \<and> (\<exists>d t s. ops = uleb_bytes d \<and> st = t @ s \<and> d < length (Frame k l r st # fs) \<and> fr_label ((Frame k l r st # fs) ! d) = t
         \<and> c = Frame k l r st # fs))
    \<or> (b = 0x0D \<and> (\<exists>d t s. ops = uleb_bytes d \<and> st = VC_I32 # t @ s \<and> d < length (Frame k l r (t @ s) # fs)
         \<and> fr_label ((Frame k l r (t @ s) # fs) ! d) = t \<and> c = Frame k l r (t @ s) # fs))"
  using assms(1)
  by (cases rule: vinstr.cases) (use assms(2) op_heads in \<open>auto simp: straight_def\<close>)

lemma vruns_end:
  assumes "vruns E (0x0B # bs) (Frame k l r r # Frame k' l' r' s # fs) []"
  shows "vruns E bs (Frame k' l' r' (r @ s) # fs) [] \<and> (k = K_IF \<longrightarrow> r = [])"
  using assms
proof (cases rule: code_head)
  case (1 b ops rest c)
  with control_instr [OF 1(2)] show ?thesis by (auto simp: straight_def)
qed

lemma vruns_else:
  assumes "vruns E (0x05 # bs) (Frame k l r st # fs) []"
  shows "k = K_IF \<and> vruns E bs (Frame K_ELSE l r [] # fs) []"
  using assms
proof (cases rule: code_head)
  case (1 b ops rest c)
  with control_instr [OF 1(2)] show ?thesis by (auto simp: straight_def)
qed

section \<open>What is left when a block's code has been written\<close>

text \<open>A writer in front of typed code, and what it is when the code of the innermost block has been written.\<close>

definition ready :: "cenv \<Rightarrow> frame \<Rightarrow> frame list \<Rightarrow> seen \<Rightarrow> bool" where
  "ready env f fs s \<longleftrightarrow> vruns (wenv_of env) (sn_code s) (f # fs) []
     \<and> fits (f # fs) (length (sn_code s)) \<and> (sn_ignore s \<or> s = at_config (sn_code s) (f # fs))"

definition left_block :: "frame \<Rightarrow> frame list \<Rightarrow> seen \<Rightarrow> seen \<Rightarrow> bool" where
  "left_block f fs s s' \<longleftrightarrow>
     (if sn_ignore s then s' = s\<lparr>sn_code := sn_code s'\<rparr>
      else sn_labels s' = sn_labels s \<and> take (length (live fs)) (sn_types s') = live fs
        \<and> length (live fs) \<le> length (sn_types s')
        \<and> (\<not> sn_ignore s' \<longrightarrow> sn_types s' = live fs @ rev (map value_type (fr_res f))))"

definition finished :: "cenv \<Rightarrow> frame \<Rightarrow> frame list \<Rightarrow> seen \<Rightarrow> nat \<Rightarrow> seen \<Rightarrow> bool" where
  "finished env f fs s oc s' \<longleftrightarrow> (oc = wasmOpcodeElse \<or> oc = wasmOpcodeEnd) \<and> length (sn_code s') < length (sn_code s)
     \<and> vruns (wenv_of env) (of_nat oc # sn_code s') (Frame (fr_kind f) (fr_label f) (fr_res f) (fr_res f) # fs) []
     \<and> left_block f fs s s'"

definition translates :: "cenv \<Rightarrow> code_writer \<Rightarrow> nat \<Rightarrow> bool" where
  "translates env rec n \<longleftrightarrow> (\<forall>oc w s f fs. length (sn_code s) \<le> n \<longrightarrow> ready env f fs s \<longrightarrow> is_seen w s \<longrightarrow>
     (\<exists>oc' w' s'. rec oc w = Val (oc', w') \<and> is_seen w' s' \<and> finished env f fs s oc' s'))"

lemma translatesE:
  assumes "translates env rec n" "length (sn_code s) \<le> n" "ready env f fs s" "is_seen w s"
  obtains oc' w' s' where "rec oc w = Val (oc', w')" "is_seen w' s'" "finished env f fs s oc' s'"
  using assms unfolding translates_def by blast

text \<open>A step inside the block: the same block, perhaps unreachable from now on.\<close>

lemma finished_step:
  assumes "finished env (Frame k l r st1) fs s1 oc s'" "length (sn_code s1) < length (sn_code s)"
    and "if sn_ignore s then s1 = s\<lparr>sn_code := sn_code s1\<rparr>
      else sn_labels s1 = sn_labels s \<and> sn_types s1 = live (Frame k l r st1 # fs)"
  shows "finished env (Frame k l r st) fs s oc s'"
proof -
  have "left_block (Frame k l r st1) fs s1 s'" using assms(1) by (simp add: finished_def)
  then have "left_block (Frame k l r st) fs s s'"
  proof (cases "sn_ignore s")
    case True
    then have e: "s1 = s\<lparr>sn_code := sn_code s1\<rparr>" using assms(3) by simp
    then have "sn_ignore s1" using True by (metis seen.select_convs(4) seen.surjective seen.update_convs(1))
    with \<open>left_block (Frame k l r st1) fs s1 s'\<close> have "s' = s1\<lparr>sn_code := sn_code s'\<rparr>" by (simp add: left_block_def)
    also have "\<dots> = s\<lparr>sn_code := sn_code s'\<rparr>" by (subst e) simp
    finally show ?thesis using True by (simp add: left_block_def)
  next
    case False
    with assms(3) have s1: "sn_labels s1 = sn_labels s" "sn_types s1 = live (Frame k l r st1 # fs)" by simp_all
    show ?thesis
    proof (cases "sn_ignore s1")
      case True
      with \<open>left_block (Frame k l r st1) fs s1 s'\<close> have "s' = s1\<lparr>sn_code := sn_code s'\<rparr>" by (simp add: left_block_def)
      then have "sn_labels s' = sn_labels s1" "sn_types s' = sn_types s1" "sn_ignore s'"
        using True by (metis seen.select_convs seen.surjective seen.update_convs(1))+
      then show ?thesis using False s1 by (simp add: left_block_def)
    next
      case c: False
      with \<open>left_block (Frame k l r st1) fs s1 s'\<close> False s1 show ?thesis by (simp add: left_block_def)
    qed
  qed
  with assms(1,2) show ?thesis by (simp add: finished_def)
qed

section \<open>Blocks and loops\<close>

lemma must_reads:
  assumes "reads_as m bs x" "is_seen w s" "sn_code s = bs @ rest"
  obtains w1 where "\<And>k. must m k w = k x w1" "is_seen w1 (s\<lparr>sn_code := rest\<rparr>)"
proof -
  have b: "rd_buffer (cw_code w) = bs @ rest" using assms(2,3) by (auto simp: is_seen_def seen_def)
  have e: "cw_code w = input (bs @ rest) (rd_allocs (cw_code w))" using b by (cases "cw_code w") simp
  obtain k' where r: "m (input (bs @ rest) (rd_allocs (cw_code w))) = Val (x, input rest k')"
    using assms(1) unfolding reads_as_def by blast
  have "must m k w = k x (w\<lparr>cw_code := input rest k'\<rparr>)" for k
    unfolding must_def by (subst e, subst r) simp
  moreover have "is_seen (w\<lparr>cw_code := input rest k'\<rparr>) (s\<lparr>sn_code := rest\<rparr>)"
    using assms(2) by (auto simp: is_seen_def seen_def writer_ok_def)
  ultimately show thesis by (rule that)
qed

text \<open>The writer after a block: in front of the code that follows it.\<close>

definition continues :: "cenv \<Rightarrow> frame \<Rightarrow> frame list \<Rightarrow> seen \<Rightarrow> seen \<Rightarrow> bool" where
  "continues env f fs s s' \<longleftrightarrow> vruns (wenv_of env) (sn_code s') (f # fs) [] \<and> length (sn_code s') < length (sn_code s)
     \<and> (if sn_ignore s then s' = s\<lparr>sn_code := sn_code s'\<rparr> else s' = at_config (sn_code s') (f # fs))"

lemma inner_block:
  assumes "translates env rec n" "is_seen w s" "ready env (Frame K lb rs []) (g # fs) s" "length (sn_code s) \<le> n"
  obtains oc' w' s' where "rec oc w = Val (oc', w')" "is_seen w' s'" "left_block (Frame K lb rs []) (g # fs) s s'"
    "length (sn_code s') < length (sn_code s)"
    "oc' = wasmOpcodeElse \<and> K = K_IF \<and> vruns (wenv_of env) (sn_code s') (Frame K_ELSE lb rs [] # g # fs) []
     \<or> oc' = wasmOpcodeEnd \<and> (K = K_IF \<longrightarrow> rs = [])
       \<and> vruns (wenv_of env) (sn_code s') (Frame (fr_kind g) (fr_label g) (fr_res g) (rs @ fr_stk g) # fs) []"
proof -
  obtain oc' w' s' where r: "rec oc w = Val (oc', w')" "is_seen w' s'" and d: "finished env (Frame K lb rs []) (g # fs) s oc' s'"
    by (rule translatesE [OF assms(1,4,3,2)])
  have v: "vruns (wenv_of env) (of_nat oc' # sn_code s') (Frame K lb rs rs # g # fs) []" and o: "oc' = 5 \<or> oc' = 11"
    using d by (simp_all add: finished_def)
  obtain k l r st where g: "g = Frame k l r st" by (cases g)
  have "oc' = wasmOpcodeElse \<and> K = K_IF \<and> vruns (wenv_of env) (sn_code s') (Frame K_ELSE lb rs [] # g # fs) []
     \<or> oc' = wasmOpcodeEnd \<and> (K = K_IF \<longrightarrow> rs = [])
       \<and> vruns (wenv_of env) (sn_code s') (Frame (fr_kind g) (fr_label g) (fr_res g) (rs @ fr_stk g) # fs) []"
    using o
  proof
    assume "oc' = 5"
    then show ?thesis using vruns_else [of "wenv_of env" "sn_code s'" K lb rs rs "g # fs"] v by simp
  next
    assume "oc' = 11"
    then show ?thesis using vruns_end [of "wenv_of env" "sn_code s'" K lb rs k l r st fs] v g by simp
  qed
  with r d show thesis by (intro that) (auto simp: finished_def)
qed

lemma closed_state:
  assumes "left_block (Frame K lb rs []) (Frame k l r st # fs) s1 s2" "\<not> sn_ignore s1" "block_results rs"
    and "sn_labels s1 = open_labels (Frame k l r st # fs) @ [x]"
  shows "s2\<lparr>sn_ignore := False, sn_types := take (length (live (Frame k l r st # fs))) (sn_types s2) @ value_types (block_type rs),
      sn_labels := butlast (sn_labels s2)\<rparr> = at_config (sn_code s2) (Frame k l r (rs @ st) # fs)"
  using assms by (cases s2) (simp add: left_block_def at_config_def value_types_block butlast_append label_type_def)

lemma runs_block_end_Cons:
  assumes "ce_al env = plenty" "base \<le> length (sn_types s)"
  shows "runs s (steps [block_end env bt base])
    (s\<lparr>sn_types := take base (sn_types s) @ value_types bt, sn_labels := butlast (sn_labels s)\<rparr>)"
  by (rule runs_Cons [OF runs_block_end [OF assms] runs_Nil])

lemma runs_close:
  assumes "env_for env" "left_block (Frame K lb rs []) (Frame k l r st # fs) s1 s2" "\<not> sn_ignore s1" "block_results rs"
    and "sn_labels s1 = open_labels (Frame k l r st # fs) @ [x]"
    and "\<And>a s. a \<in> set as \<Longrightarrow> runs s a s"
  shows "runs s2 (steps (set_ignore False # as @ [block_end env (block_type rs) (length (live (Frame k l r st # fs)))]))
    (at_config (sn_code s2) (Frame k l r (rs @ st) # fs))"
proof -
  let ?base = "length (live (Frame k l r st # fs))"
  have ends: "runs s (steps (as @ [block_end env (block_type rs) ?base]))
      (s\<lparr>sn_types := take ?base (sn_types s) @ value_types (block_type rs), sn_labels := butlast (sn_labels s)\<rparr>)"
    if "?base \<le> length (sn_types s)" for s
    using assms(6)
  proof (induction as)
    case Nil
    then show ?case using runs_block_end_Cons [of env ?base s] that assms(1) by simp
  next
    case (Cons a as)
    then show ?case by (auto intro: runs_same_Cons)
  qed
  have "runs (s2\<lparr>sn_ignore := False\<rparr>) (steps (as @ [block_end env (block_type rs) ?base]))
      (s2\<lparr>sn_ignore := False, sn_types := take ?base (sn_types s2) @ value_types (block_type rs),
        sn_labels := butlast (sn_labels s2)\<rparr>)"
    by (rule runs_eq [OF ends]) (use assms(2,3) in \<open>simp_all add: left_block_def\<close>)
  then show ?thesis
    unfolding closed_state [OF assms(2-5)] append_Cons by (rule runs_Cons [OF runs_set_ignore])
qed

definition labelled :: "seen \<Rightarrow> WasmValueType option \<Rightarrow> seen" where
  "labelled s t = s\<lparr>sn_labels := sn_labels s @ [(length (sn_types s), t)]\<rparr>"

lemma starts_block:
  assumes "ce_al env = plenty"
  shows "starts s (block_start env t) (labelled s t) (length (sn_types s))"
proof -
  have "runs (labelled s t) (if ce_pretty env then steps [wasmCWriteIndent env, wasmCWrite env (''{'' @ nl), indent_more] else Val)
      (labelled s t)"
    by (intro runs_intros assms)
  moreover have "block_start env t = (\<lambda>w. res_bind (push_label env t w) (\<lambda>(x, w). res_bind
      ((if ce_pretty env then steps [wasmCWriteIndent env, wasmCWrite env (''{'' @ nl), indent_more] else Val) w) (\<lambda>w. Val (x, w))))"
    by (simp add: block_start_def fun_eq_iff)
  ultimately show ?thesis
    using starts_then [OF starts_push_label [OF assms, of s t, folded labelled_def]] by simp
qed

lemma starts_loop:
  assumes "ce_al env = plenty"
  shows "starts s (loop_start env) (labelled s None) (length (sn_types s))"
  unfolding starts_def
proof (intro allI impI)
  fix w assume "is_seen w s"
  from startsD [OF starts_push_label [OF assms] this, folded labelled_def]
  obtain l w1 where 1: "push_label env None w = Val ((l, length (sn_types s)), w1)" "is_seen w1 (labelled s None)"
    by blast
  have "runs (labelled s None) (steps [wasmCWriteLabel env (lb_index l), wasmCWrite env (''W2C2_LOOP_START'' @ nl),
       wasmCWriteIndent env, wasmCWrite env (''{'' @ nl), indent_more]) (labelled s None)"
    by (intro runs_intros assms)
  from runsD [OF this 1(2)] 1(1) show "\<exists>l w'. loop_start env w = Val ((l, length (sn_types s)), w') \<and> is_seen w' (labelled s None)"
    by (auto simp: loop_start_def)
qed

text \<open>The code of a block whose label has been pushed, in front of typed code.\<close>

lemma ready_inner:
  assumes "vruns (wenv_of env) rest (Frame K lb rs [] # g # fs) []" "sn_code s = rest"
    and "s = at_config rest (g # fs)" "fits (g # fs) (length rest + 1)" "label_type (Frame K lb rs []) = t"
  shows "ready env (Frame K lb rs []) (g # fs) (labelled s t)"
  using assms by (auto simp: ready_def labelled_def at_config_def fits_def label_type_def)

text \<open>Blocks and loops have one shape, with their own start and their own closing text.\<close>

definition one_block :: "cenv \<Rightarrow> (WasmValueType option \<Rightarrow> WasmCFunctionWriter \<Rightarrow> (werr, (WasmLabel \<times> nat) \<times> WasmCFunctionWriter) res)
    \<Rightarrow> (WasmLabel \<Rightarrow> act list) \<Rightarrow> code_writer \<Rightarrow> code_writer" where
  "one_block env start close rec opcode = must wasmReadBlockType (\<lambda>bt w.
     let ignore = cw_ignore w in
     res_bind (opened ignore (start bt) w) (\<lambda>((label, base), w).
     res_bind (rec opcode w) (\<lambda>(opcode, w).
     res_bind (unless ignore (steps (set_ignore False # close label @ [block_end env bt base])) w) (\<lambda>w. Val (opcode, w)))))"

lemma one_blocks:
  "wasmCWriteBlockExpr env = one_block env (block_start env) (\<lambda>label.
     [if ce_pretty env then steps [indent_less, wasmCWriteIndent env, wasmCWrite env (''}'' @ nl)] else Val,
      wasmCWriteLabel env (lb_index label)])"
  "wasmCWriteLoopExpr env = one_block env (\<lambda>_. loop_start env) (\<lambda>label.
     [indent_less, wasmCWriteIndent env, wasmCWrite env (''}'' @ nl)])"
  by (simp_all add: fun_eq_iff wasmCWriteBlockExpr_def wasmCWriteLoopExpr_def one_block_def)

lemma seen_ignore: "is_seen w s \<Longrightarrow> cw_ignore w = sn_ignore s"
  by (auto simp: is_seen_def seen_def)

lemma at_config_code: "s = at_config b fs \<Longrightarrow> s\<lparr>sn_code := rest\<rparr> = at_config rest fs"
  by (cases s) (simp add: at_config_def)

lemma one_block_writes:
  assumes "env_for env" "translates env rec n" "is_seen w s" "sn_code s = [blocktype rs] @ rest" "length rest \<le> n"
    and "block_results rs" "vruns (wenv_of env) rest (Frame K lb rs [] # Frame k l r st # fs) []" "K \<noteq> K_IF"
    and "sn_ignore s \<or> s = at_config (sn_code s) (Frame k l r st # fs)" "fits (Frame k l r st # fs) (length rest + 1)"
    and start: "\<And>s. starts s (start (block_type rs)) (labelled s t) (length (sn_types s))" "label_type (Frame K lb rs []) = t"
    and same: "\<And>label a s. a \<in> set (close label) \<Longrightarrow> runs s a s"
  shows "\<exists>w' s'. one_block env start close rec oc w = Val (wasmOpcodeEnd, w') \<and> is_seen w' s'
    \<and> continues env (Frame k l r (rs @ st)) fs s s'"
proof -
  let ?s = "s\<lparr>sn_code := rest\<rparr>" and ?g = "Frame k l r st"
  obtain w1 where m: "\<And>k :: _ \<Rightarrow> _ \<Rightarrow> (werr, nat \<times> WasmCFunctionWriter) res. must wasmReadBlockType k w = k (block_type rs) w1" and w1: "is_seen w1 ?s"
    by (rule must_reads [OF reads_as_block_type [OF assms(6)] assms(3,4)]) blast
  have i: "cw_ignore w1 = sn_ignore s" using seen_ignore [OF w1] by simp
  show ?thesis
  proof (cases "sn_ignore s")
    case True
    then have rd: "ready env (Frame K lb rs []) (?g # fs) ?s" using assms(7,10) by (auto simp: ready_def fits_def)
    obtain w2 s2 where
      2: "rec oc w1 = Val (wasmOpcodeEnd, w2)" "is_seen w2 s2" "left_block (Frame K lb rs []) (?g # fs) ?s s2"
        "length (sn_code s2) < length rest" "vruns (wenv_of env) (sn_code s2) (Frame k l r (rs @ st) # fs) []"
      by (rule inner_block [OF assms(2) w1 rd, of oc]) (use assms(5,8) in auto)
    have "one_block env start close rec oc w = Val (wasmOpcodeEnd, w2)"
      using True i by (simp add: one_block_def m opened_def unless_def 2(1))
    moreover have "s2 = s\<lparr>sn_code := sn_code s2\<rparr>" using 2(3) True by (simp add: left_block_def)
    ultimately show ?thesis using 2 True assms(4)
      by (intro exI [of _ w2] exI [of _ s2]) (simp add: continues_def)
  next
    case False
    then have c: "?s = at_config rest (?g # fs)" "fits (?g # fs) (length rest + 1)"
      using assms(9,10) at_config_code [of s "sn_code s"] by simp_all
    let ?s1 = "labelled ?s t" and ?base = "length (live (?g # fs))"
    obtain lab w2 where 1: "start (block_type rs) w1 = Val ((lab, length (sn_types ?s)), w2)" "is_seen w2 ?s1"
      using startsD [OF start(1) w1] by blast
    have rd: "ready env (Frame K lb rs []) (?g # fs) ?s1"
      by (rule ready_inner [OF assms(7) _ c start(2)]) simp
    have cd: "sn_code ?s1 = rest" by (simp add: labelled_def)
    obtain w3 s2 where
      2: "rec oc w2 = Val (wasmOpcodeEnd, w3)" "is_seen w3 s2" "left_block (Frame K lb rs []) (?g # fs) ?s1 s2"
        "length (sn_code s2) < length rest" "vruns (wenv_of env) (sn_code s2) (Frame k l r (rs @ st) # fs) []"
      by (rule inner_block [OF assms(2) 1(2) rd, of oc]) (use assms(5,8) cd in auto)
    have b: "length (sn_types ?s) = ?base" using c(1) by (simp add: at_config_def)
    have e: "\<not> sn_ignore ?s1" using False by (simp add: labelled_def)
    have lbs: "sn_labels ?s1 = open_labels (?g # fs) @ [(?base, t)]"
      using c(1) by (simp add: labelled_def at_config_def)
    obtain w4 where
      4: "steps (set_ignore False # close lab @ [block_end env (block_type rs) ?base]) w3 = Val w4"
        "is_seen w4 (at_config (sn_code s2) (Frame k l r (rs @ st) # fs))"
      using runsD [OF runs_close [OF assms(1) 2(3) e assms(6) lbs same [of _ lab]] 2(2)] by blast
    have "one_block env start close rec oc w = Val (wasmOpcodeEnd, w4)"
      using False i 4(1) by (simp add: one_block_def m opened_def unless_def 1(1) 2(1) b [simplified])
    then show ?thesis using 4(2) 2(4,5) False assms(4)
      by (intro exI [of _ w4] exI [of _ "at_config (sn_code s2) (Frame k l r (rs @ st) # fs)"])
        (simp add: continues_def at_config_def)
  qed
qed

section \<open>Conditionals\<close>

lemma if_writes_ignored:
  assumes "translates env rec n" "is_seen w s" "sn_code s = [blocktype rs] @ rest" "length rest \<le> n"
    and "block_results rs" "vruns (wenv_of env) rest (Frame K_IF rs rs [] # Frame k l r st # fs) []" "sn_ignore s"
    and "fits (Frame k l r (VC_I32 # st) # fs) (length rest + 1)"
  shows "\<exists>w' s'. wasmCWriteIfExpr env rec oc w = Val (wasmOpcodeEnd, w') \<and> is_seen w' s'
    \<and> continues env (Frame k l r (rs @ st)) fs s s'"
proof -
  let ?s = "s\<lparr>sn_code := rest\<rparr>" and ?g = "Frame k l r st"
  obtain w1 where m: "\<And>k :: _ \<Rightarrow> _ \<Rightarrow> (werr, nat \<times> WasmCFunctionWriter) res. must wasmReadBlockType k w = k (block_type rs) w1"
    and w1: "is_seen w1 ?s"
    by (rule must_reads [OF reads_as_block_type [OF assms(5)] assms(2,3)]) blast
  have i: "cw_ignore w1" using seen_ignore [OF w1] assms(7) by simp
  have rd: "ready env (Frame K_IF rs rs []) (?g # fs) ?s" using assms(6,7,8) by (auto simp: ready_def fits_def)
  obtain oc2 w2 s2 where
    2: "rec oc w1 = Val (oc2, w2)" "is_seen w2 s2" "left_block (Frame K_IF rs rs []) (?g # fs) ?s s2" "length (sn_code s2) < length rest"
      "oc2 = wasmOpcodeElse \<and> vruns (wenv_of env) (sn_code s2) (Frame K_ELSE rs rs [] # ?g # fs) []
       \<or> oc2 = wasmOpcodeEnd \<and> vruns (wenv_of env) (sn_code s2) (Frame k l r (rs @ st) # fs) []"
    by (rule inner_block [OF assms(1) w1 rd, of oc]) (use assms(4) in auto)
  have s2: "s2 = s\<lparr>sn_code := sn_code s2\<rparr>" "sn_ignore s2" using 2(3) assms(7)
    by (simp_all add: left_block_def) (metis seen.select_convs(4) seen.surjective seen.update_convs(1))
  note run = wasmCWriteIfExpr_def m opened_def unless_def i 2(1)
  from 2(5) show ?thesis
  proof
    assume e: "oc2 = wasmOpcodeEnd \<and> vruns (wenv_of env) (sn_code s2) (Frame k l r (rs @ st) # fs) []"
    then have "wasmCWriteIfExpr env rec oc w = Val (wasmOpcodeEnd, w2)" by (simp add: run)
    then show ?thesis using e s2(1) 2(2,4) assms(3,7)
      by (intro exI [of _ w2] exI [of _ s2]) (simp add: continues_def)
  next
    assume e: "oc2 = wasmOpcodeElse \<and> vruns (wenv_of env) (sn_code s2) (Frame K_ELSE rs rs [] # ?g # fs) []"
    then have rd: "ready env (Frame K_ELSE rs rs []) (?g # fs) s2" using s2(2) 2(4) assms(8) by (auto simp: ready_def fits_def)
    obtain w3 s3 where
      3: "rec oc2 w2 = Val (wasmOpcodeEnd, w3)" "is_seen w3 s3" "left_block (Frame K_ELSE rs rs []) (?g # fs) s2 s3"
        "length (sn_code s3) < length (sn_code s2)" "vruns (wenv_of env) (sn_code s3) (Frame k l r (rs @ st) # fs) []"
      by (rule inner_block [OF assms(1) 2(2) rd, of oc2]) (use 2(4) assms(4) in auto)
    have s3: "s3 = s\<lparr>sn_code := sn_code s3\<rparr>" using 3(3) s2 by (simp add: left_block_def) (metis seen.surjective seen.update_convs(1))
    have "wasmCWriteIfExpr env rec oc w = Val (wasmOpcodeEnd, w3)" using e 3(1) by (simp add: run)
    then show ?thesis using s3 3 2(4) assms(3,7)
      by (intro exI [of _ w3] exI [of _ s3]) (simp add: continues_def)
  qed
qed

lemma starts_if:
  assumes "ce_al env = plenty" "sn_types s = tys @ [x]" "low (sn_types s)"
  shows "starts s (if_start env t) (labelled (s\<lparr>sn_types := tys\<rparr>) t) (length tys)"
  unfolding starts_def
proof (intro allI impI)
  fix w assume w: "is_seen w s"
  have "runs s (steps [wasmCWriteIndent env, pretty_or env ''if ('' ''if('', top 0 (write_slot env),
        pretty_or env ('') {'' @ nl) (''){'' @ nl), drop_types 1]) (s\<lparr>sn_types := tys\<rparr>)"
    by (rule runs_eq, (rule runs_top runs_moves runs_intros assms(1) | (use assms in \<open>simp; fail\<close>))+)
  from runsD [OF this w] obtain w1 where 1: "steps [wasmCWriteIndent env, pretty_or env ''if ('' ''if('', top 0 (write_slot env),
        pretty_or env ('') {'' @ nl) (''){'' @ nl), drop_types 1] w = Val w1" "is_seen w1 (s\<lparr>sn_types := tys\<rparr>)" by blast
  obtain l w2 where 2: "push_label env t w1 = Val ((l, length tys), w2)" "is_seen w2 (labelled (s\<lparr>sn_types := tys\<rparr>) t)"
    using startsD [OF starts_push_label [OF assms(1), where t = t] 1(2), folded labelled_def] by auto
  obtain w3 where "indent_more w2 = Val w3" "is_seen w3 (labelled (s\<lparr>sn_types := tys\<rparr>) t)"
    using runsD [OF runs_indents(1) 2(2)] by blast
  then show "\<exists>l w'. if_start env t w = Val ((l, length tys), w') \<and> is_seen w' (labelled (s\<lparr>sn_types := tys\<rparr>) t)"
    using 1(1) 2(1) by (simp add: if_start_def)
qed

lemma runs_close_branch:
  assumes "ce_al env = plenty" shows "runs s (close_branch env) (s\<lparr>sn_ignore := False\<rparr>)"
  unfolding close_branch_def by (rule runs_Cons [OF runs_set_ignore]) (intro runs_intros assms)

text \<open>The end of a conditional, when the last branch has been closed.\<close>

lemma runs_end_if:
  assumes "env_for env" "left_block (Frame K lb rs []) (Frame k l r st # fs) s1 s2" "\<not> sn_ignore s1" "block_results rs"
    and "sn_labels s1 = open_labels (Frame k l r st # fs) @ [x]"
  shows "runs (s2\<lparr>sn_ignore := False\<rparr>) (steps [wasmCWrite env nl, wasmCWriteLabel env i,
      block_end env (block_type rs) (length (live (Frame k l r st # fs)))])
    (at_config (sn_code s2) (Frame k l r (rs @ st) # fs))"
proof -
  have al: "ce_al env = plenty" using assms(1) by (simp add: env_for_def)
  have b: "length (live (Frame k l r st # fs)) \<le> length (sn_types (s2\<lparr>sn_ignore := False\<rparr>))"
    using assms(2,3) by (simp add: left_block_def)
  show ?thesis
    unfolding closed_state [OF assms(2-5), symmetric]
    by (rule runs_eq, rule runs_same_Cons [OF runs_wasmCWrite [OF al] runs_same_Cons [OF runs_names(5) [OF al] runs_block_end_Cons [OF al b]]]) simp
qed

lemma if_writes_live:
  assumes "env_for env" "translates env rec n" "is_seen w s" "sn_code s = [blocktype rs] @ rest" "length rest \<le> n"
    and "block_results rs" "vruns (wenv_of env) rest (Frame K_IF rs rs [] # Frame k l r st # fs) []"
    and "s = at_config (sn_code s) (Frame k l r (VC_I32 # st) # fs)" "fits (Frame k l r (VC_I32 # st) # fs) (length rest + 1)"
  shows "\<exists>w' s'. wasmCWriteIfExpr env rec oc w = Val (wasmOpcodeEnd, w') \<and> is_seen w' s'
    \<and> continues env (Frame k l r (rs @ st)) fs s s'"
proof -
  let ?s = "s\<lparr>sn_code := rest\<rparr>" and ?g = "Frame k l r st" and ?t = "block_type rs"
  let ?base = "length (live (?g # fs))" and ?s1 = "at_config rest (Frame K_IF rs rs [] # ?g # fs)"
  have al: "ce_al env = plenty" using assms(1) by (simp add: env_for_def)
  have ig: "\<not> sn_ignore s" using assms(8) by (metis at_config_def seen.select_convs(4))
  obtain w1 where m: "\<And>k :: _ \<Rightarrow> _ \<Rightarrow> (werr, nat \<times> WasmCFunctionWriter) res. must wasmReadBlockType k w = k (block_type rs) w1"
    and w1: "is_seen w1 ?s"
    by (rule must_reads [OF reads_as_block_type [OF assms(6)] assms(3,4)]) blast
  have i: "\<not> cw_ignore w1" using seen_ignore [OF w1] ig by simp
  have c: "?s = at_config rest (Frame k l r (VC_I32 # st) # fs)" using at_config_code [OF assms(8)] .
  have ty: "sn_types ?s = live (?g # fs) @ [wasmValueTypeI32]" "low (sn_types ?s)"
    using c assms(9) by (auto simp: at_config_def fits_def)
  have s1: "labelled (?s\<lparr>sn_types := live (?g # fs)\<rparr>) ?t = ?s1"
    using c by (simp add: labelled_def at_config_def label_type_def block_type_def)
  obtain lab w2 where 1: "if_start env ?t w1 = Val ((lab, ?base), w2)" "is_seen w2 ?s1"
    using startsD [OF starts_if [OF al ty, where t = ?t] w1] unfolding s1 by blast
  have rd1: "ready env (Frame K_IF rs rs []) (?g # fs) ?s1"
    using assms(7,9) by (auto simp: ready_def at_config_def fits_def)
  have e1: "\<not> sn_ignore ?s1" "sn_labels ?s1 = open_labels (?g # fs) @ [(?base, ?t)]" "sn_code ?s1 = rest"
    by (simp_all add: at_config_def label_type_def block_type_def)
  obtain oc2 w3 s2 where
    2: "rec oc w2 = Val (oc2, w3)" "is_seen w3 s2" "left_block (Frame K_IF rs rs []) (?g # fs) ?s1 s2" "length (sn_code s2) < length rest"
      "oc2 = wasmOpcodeElse \<and> vruns (wenv_of env) (sn_code s2) (Frame K_ELSE rs rs [] # ?g # fs) []
       \<or> oc2 = wasmOpcodeEnd \<and> vruns (wenv_of env) (sn_code s2) (Frame k l r (rs @ st) # fs) []"
    by (rule inner_block [OF assms(2) 1(2) rd1, of oc]) (use assms(5) e1(3) in auto)
  obtain w4 where 4: "close_branch env w3 = Val w4" "is_seen w4 (s2\<lparr>sn_ignore := False\<rparr>)"
    using runsD [OF runs_close_branch [OF al] 2(2)] by blast
  note run = wasmCWriteIfExpr_def m opened_def unless_def i 1(1) 2(1) 4(1) Let_def
  have fin: ?thesis if "wasmCWriteIfExpr env rec oc w = Val (wasmOpcodeEnd, w')" "is_seen w' (at_config bs (Frame k l r (rs @ st) # fs))"
      "length bs < length rest" "vruns (wenv_of env) bs (Frame k l r (rs @ st) # fs) []" for w' bs
    using that ig assms(4)
    by (intro exI [of _ w'] exI [of _ "at_config bs (Frame k l r (rs @ st) # fs)"]) (simp add: continues_def at_config_def)
  from 2(5) show ?thesis
  proof
    assume e: "oc2 = wasmOpcodeEnd \<and> vruns (wenv_of env) (sn_code s2) (Frame k l r (rs @ st) # fs) []"
    obtain w5 where "steps [wasmCWrite env nl, wasmCWriteLabel env (lb_index lab), block_end env ?t ?base] w4 = Val w5"
      "is_seen w5 (at_config (sn_code s2) (Frame k l r (rs @ st) # fs))"
      using runsD [OF runs_end_if [OF assms(1) 2(3) e1(1) assms(6) e1(2)] 4(2)] by blast
    then show ?thesis using e 2(4) by (intro fin [of w5 "sn_code s2"]) (simp_all add: run del: live.simps)
  next
    assume e: "oc2 = wasmOpcodeElse \<and> vruns (wenv_of env) (sn_code s2) (Frame K_ELSE rs rs [] # ?g # fs) []"
    let ?s3 = "at_config (sn_code s2) (Frame K_ELSE rs rs [] # ?g # fs)"
    have lb: "sn_labels s2 = open_labels (?g # fs) @ [(?base, ?t)]" "take ?base (sn_types s2) = live (?g # fs)"
      "?base \<le> length (sn_types (s2\<lparr>sn_ignore := False\<rparr>))"
      using 2(3) e1(1,2) by (simp_all add: left_block_def del: live.simps open_labels.simps)
    have s3: "s2\<lparr>sn_ignore := False, sn_types := take ?base (sn_types s2)\<rparr> = ?s3"
      using lb(1,2) by (cases s2) (simp add: at_config_def label_type_def block_type_def)
    have "runs (s2\<lparr>sn_ignore := False\<rparr>) (steps [set_length ?base, pretty_or env ('' else {'' @ nl) (''else{'' @ nl), indent_more]) ?s3"
      unfolding s3 [symmetric]
      by (rule runs_eq, rule runs_Cons [OF runs_set_length [OF lb(3)]], (rule runs_intros al)+) simp
    from runsD [OF this 4(2)] obtain w5 where
      5: "steps [set_length ?base, pretty_or env ('' else {'' @ nl) (''else{'' @ nl), indent_more] w4 = Val w5" "is_seen w5 ?s3"
      by blast
    have rd: "ready env (Frame K_ELSE rs rs []) (?g # fs) ?s3"
      using e assms(9) 2(4) by (auto simp: ready_def at_config_def fits_def)
    have e3: "\<not> sn_ignore ?s3" "sn_labels ?s3 = open_labels (?g # fs) @ [(?base, ?t)]" "sn_code ?s3 = sn_code s2"
      by (simp_all add: at_config_def label_type_def block_type_def)
    obtain w6 s4 where
      6: "rec oc2 w5 = Val (wasmOpcodeEnd, w6)" "is_seen w6 s4" "left_block (Frame K_ELSE rs rs []) (?g # fs) ?s3 s4"
        "length (sn_code s4) < length (sn_code s2)" "vruns (wenv_of env) (sn_code s4) (Frame k l r (rs @ st) # fs) []"
      by (rule inner_block [OF assms(2) 5(2) rd, of oc2]) (use 2(4) assms(5) e3(3) in auto)
    obtain w7 where 7: "close_branch env w6 = Val w7" "is_seen w7 (s4\<lparr>sn_ignore := False\<rparr>)"
      using runsD [OF runs_close_branch [OF al] 6(2)] by blast
    obtain w8 where "steps [wasmCWrite env nl, wasmCWriteLabel env (lb_index lab), block_end env ?t ?base] w7 = Val w8"
      "is_seen w8 (at_config (sn_code s4) (Frame k l r (rs @ st) # fs))"
      using runsD [OF runs_end_if [OF assms(1) 6(3) e3(1) assms(6) e3(2)] 7(2)] by blast
    then show ?thesis using e 2(4) 5(1) 6(1,4,5) 7(1) by (intro fin [of w8 "sn_code s4"]) (simp_all add: run del: live.simps)
  qed
qed

section \<open>The loop over the code\<close>

text \<open>One instruction or block further, in the same block.\<close>

definition goes :: "cenv \<Rightarrow> frame \<Rightarrow> frame list \<Rightarrow> seen \<Rightarrow> seen \<Rightarrow> bool" where
  "goes env f fs s s' \<longleftrightarrow> ready env f fs s' \<and> length (sn_code s') < length (sn_code s)
     \<and> (if sn_ignore s then s' = s\<lparr>sn_code := sn_code s'\<rparr> else sn_labels s' = sn_labels s \<and> sn_types s' = live (f # fs))"

lemma at_config_sels [simp]:
  "sn_code (at_config bs fs) = bs" "sn_types (at_config bs fs) = live fs" "sn_labels (at_config bs fs) = open_labels fs"
  "\<not> sn_ignore (at_config bs fs)"
  by (simp_all add: at_config_def)

lemma go_on:
  assumes "translates env rec n" "goes env (Frame k l r st1) fs s s1" "is_seen w s1" "length (sn_code s) \<le> Suc n"
  shows "\<exists>oc' w' s'. rec oc w = Val (oc', w') \<and> is_seen w' s' \<and> finished env (Frame k l r st) fs s oc' s'"
proof -
  have "ready env (Frame k l r st1) fs s1" "length (sn_code s1) \<le> n" using assms(2,4) by (auto simp: goes_def)
  then obtain oc' w' s' where "rec oc w = Val (oc', w')" "is_seen w' s'" "finished env (Frame k l r st1) fs s1 oc' s'"
    using assms(1,3) unfolding translates_def by blast
  moreover from this(3) have "finished env (Frame k l r st) fs s oc' s'"
    by (rule finished_step) (use assms(2) in \<open>simp_all add: goes_def\<close>)
  ultimately show ?thesis by blast
qed

lemma goes_continues:
  assumes "continues env (Frame k l r st1) fs (s\<lparr>sn_code := bs\<rparr>) s1" "ready env (Frame k l r st) fs s"
    and "Suc (length bs) = length (sn_code s)" "length st1 \<le> Suc (length st)"
  shows "goes env (Frame k l r st1) fs s s1"
proof -
  have f: "fits (Frame k l r st1 # fs) (length (sn_code s1))"
    using assms by (auto simp: ready_def continues_def fits_def)
  show ?thesis
  proof (cases "sn_ignore s")
    case True
    have e: "s1 = s\<lparr>sn_code := sn_code s1\<rparr>" using assms(1) True by (simp add: continues_def)
    then have "sn_ignore s1" using True by (metis seen.select_convs(4) seen.surjective seen.update_convs(1))
    with e True f assms(1,3) show ?thesis by (simp add: goes_def ready_def continues_def)
  next
    case False
    then have "s = at_config (sn_code s) (Frame k l r st # fs)" using assms(2) by (simp add: ready_def)
    then have "sn_labels s = open_labels (Frame k l r st # fs)" by (metis at_config_sels(3))
    moreover have e: "s1 = at_config (sn_code s1) (Frame k l r st1 # fs)" using assms(1) False by (simp add: continues_def)
    moreover from this have "sn_types s1 = live (Frame k l r st1 # fs)" "sn_labels s1 = open_labels (Frame k l r st1 # fs)"
      by (metis at_config_sels(2,3))+
    ultimately show ?thesis
      using False f assms(1,3) by (simp add: goes_def ready_def continues_def label_type_def)
  qed
qed

text \<open>An instruction that stays in its block.\<close>

lemma goes_instruction:
  assumes "writes env oc bs (live (Frame k l r st # fs)) (live (Frame k l r st1 # fs))"
    and "ready env (Frame k l r st) fs s" "sn_code s = b # bs @ rest" "is_seen w (s\<lparr>sn_code := bs @ rest\<rparr>)"
    and "vruns (wenv_of env) rest (Frame k l r st1 # fs) []" "fits (Frame k l r st # fs) (length (sn_code s)) \<Longrightarrow> fits (Frame k l r st1 # fs) (length rest)"
  shows "\<exists>w1 s1. write_instruction env oc w = Val w1 \<and> is_seen w1 s1 \<and> goes env (Frame k l r st1) fs s s1"
proof -
  let ?after = "if sn_ignore s then sn_types s else live (Frame k l r st1 # fs)"
  let ?s1 = "s\<lparr>sn_code := rest, sn_types := ?after\<rparr>"
  have live: "sn_types s = live (Frame k l r st # fs)" "sn_labels s = open_labels (Frame k l r st # fs)"
      "fits (Frame k l r st # fs) (length (sn_code s))" if "\<not> sn_ignore s"
    using assms(2) that by (auto simp: ready_def) (metis at_config_def seen.select_convs(2,3) live.simps(2) open_labels.simps(2) frame.sel(4))+
  have "becomes (s\<lparr>sn_code := bs @ rest\<rparr>) (live (Frame k l r st # fs)) ?after"
    using live assms(3) by (auto simp: becomes_def fits_def)
  then have "runs (s\<lparr>sn_code := bs @ rest\<rparr>) (write_instruction env oc) ?s1"
    using assms(1) [unfolded writes_def, rule_format, of "s\<lparr>sn_code := bs @ rest\<rparr>" rest ?after] by simp
  moreover have "goes env (Frame k l r st1) fs s ?s1"
  proof (cases "sn_ignore s")
    case True
    then show ?thesis using assms(2,3,5,6) by (simp add: goes_def ready_def)
  next
    case False
    then have "?s1 = at_config rest (Frame k l r st1 # fs)"
      using live(2) by (cases s) (simp add: at_config_def label_type_def)
    then show ?thesis using False live(2,3) assms(3,5,6) by (simp add: goes_def ready_def label_type_def)
  qed
  ultimately show ?thesis using runsD [OF _ assms(4)] by blast
qed

lemma config_branchable:
  assumes "d < length (Frame k l r (t @ st) # fs)" "fr_label ((Frame k l r (t @ st) # fs) ! d) = t"
    and "fits (Frame k l r (t @ st) # fs) (Suc n)"
    and "sn_types s = live (Frame k l r (t @ st) # fs)" "sn_labels s = open_labels (Frame k l r (t @ st) # fs)"
  shows "branchable s d"
proof -
  let ?F = "Frame k l r (t @ st) # fs"
  have n: "open_labels ?F ! (length (open_labels ?F) - 1 - d) = (length (live (drop d fs)), label_type (?F ! d))"
    using open_labels_nth [OF assms(1)] by (simp del: live.simps open_labels.simps)
  have h: "length (live (drop d fs)) \<le> length (live fs)" by (rule length_live_drop)
  have "label_type (?F ! d) = None \<or> length (live (drop d fs)) < length (live ?F)"
    using h assms(2) by (cases t) (auto simp: label_type_def)
  then show ?thesis
    using assms(1,3) h n unfolding branchable_def assms(4,5) by (auto simp: fits_def simp del: open_labels.simps)
qed

lemma goes_branch:
  assumes "env_for env" "ready env (Frame k l r (t @ st)) fs s" "sn_code s = b # uleb_bytes d @ rest"
    and "is_seen w (s\<lparr>sn_code := uleb_bytes d @ rest\<rparr>)" "vruns (wenv_of env) rest (Frame k l r (t @ st) # fs) []"
    and "d < length (Frame k l r (t @ st) # fs)" "fr_label ((Frame k l r (t @ st) # fs) ! d) = t" "d < 2 ^ 32"
  shows "\<exists>w1 s1. write_instruction env wasmOpcodeBr w = Val w1 \<and> is_seen w1 s1 \<and> goes env (Frame k l r (t @ st)) fs s s1"
proof -
  let ?f = "Frame k l r (t @ st)" and ?s = "s\<lparr>sn_code := uleb_bytes d @ rest\<rparr>"
  have al: "env_ok env" using assms(1) by simp
  have br: "branchable ?s d" if "\<not> sn_ignore s"
  proof -
    have "s = at_config (sn_code s) (?f # fs)" "fits (?f # fs) (length (sn_code s))"
      using assms(2) that by (simp_all add: ready_def)
    moreover from this(1) have "sn_types s = live (?f # fs)" "sn_labels s = open_labels (?f # fs)"
      by (metis at_config_sels(2,3))+
    ultimately show ?thesis using assms(3) by (intro config_branchable [OF assms(6,7)]) simp_all
  qed
  have "runs ?s (wasmCWriteBranchExpr env) (?s\<lparr>sn_code := rest\<rparr>)"
    by (rule runs_branch [OF al assms(8)]) (use br in simp_all)
  then have "runs ?s (steps [wasmCWriteBranchExpr env, set_ignore True]) (s\<lparr>sn_code := rest, sn_ignore := True\<rparr>)"
    by (rule runs_then_eq [OF _ runs_set_ignore]) simp
  moreover have "goes env ?f fs s (s\<lparr>sn_code := rest, sn_ignore := True\<rparr>)"
    using assms(2,3,5) by (auto simp: goes_def ready_def fits_def)
  ultimately show ?thesis using runsD [OF _ assms(4)] unfolding write_instruction_cases by blast
qed

lemma goes_branch_if:
  assumes "env_for env" "ready env (Frame k l r (VC_I32 # t @ st)) fs s" "sn_code s = b # uleb_bytes d @ rest"
    and "is_seen w (s\<lparr>sn_code := uleb_bytes d @ rest\<rparr>)" "vruns (wenv_of env) rest (Frame k l r (t @ st) # fs) []"
    and "d < length (Frame k l r (t @ st) # fs)" "fr_label ((Frame k l r (t @ st) # fs) ! d) = t" "d < 2 ^ 32"
  shows "\<exists>w1 s1. write_instruction env wasmOpcodeBrIf w = Val w1 \<and> is_seen w1 s1 \<and> goes env (Frame k l r (t @ st)) fs s s1"
proof -
  let ?f = "Frame k l r (t @ st)" and ?s = "s\<lparr>sn_code := uleb_bytes d @ rest\<rparr>" and ?g = "Frame k l r (VC_I32 # t @ st)"
  let ?after = "if sn_ignore s then sn_types s else live (?f # fs)"
  have al: "env_ok env" using assms(1) by simp
  have c: "sn_types s = live (?f # fs) @ [wasmValueTypeI32]" "sn_labels s = open_labels (?f # fs)" "s = at_config (sn_code s) (?g # fs)"
      "fits (?f # fs) (length rest)" "fits (?f # fs) (Suc (length rest))" "length (live (?f # fs) @ [wasmValueTypeI32]) < 2 ^ 32 - 1"
    if "\<not> sn_ignore s"
  proof -
    show e: "s = at_config (sn_code s) (?g # fs)" using assms(2) that by (simp add: ready_def)
    have "sn_types s = live (?g # fs)" by (subst e) (rule at_config_sels)
    then show "sn_types s = live (?f # fs) @ [wasmValueTypeI32]" by simp
    have "sn_labels s = open_labels (?g # fs)" by (subst e) (rule at_config_sels)
    then show "sn_labels s = open_labels (?f # fs)" by (simp add: label_type_def)
    have "fits (?g # fs) (length (sn_code s))" using assms(2) that by (simp add: ready_def)
    then show "fits (?f # fs) (length rest)" "fits (?f # fs) (Suc (length rest))" "length (live (?f # fs) @ [wasmValueTypeI32]) < 2 ^ 32 - 1"
      using assms(3) by (auto simp: fits_def)
  qed
  have br: "branchable (?s\<lparr>sn_code := rest, sn_types := ?after\<rparr>) d" if "\<not> sn_ignore ?s"
    using that c(2,5) by (intro config_branchable [OF assms(6,7)]) simp_all
  have bc: "becomes ?s (live (?f # fs) @ [wasmValueTypeI32]) ?after" using c(1,6) by (simp add: becomes_def)
  have "runs ?s (wasmCWriteBranchIfExpr env) (?s\<lparr>sn_code := rest, sn_types := ?after\<rparr>)"
    by (rule runs_branch_if [OF al assms(8) _ bc _ br]) simp_all
  moreover have "goes env ?f fs s (s\<lparr>sn_code := rest, sn_types := ?after\<rparr>)"
  proof (cases "sn_ignore s")
    case True
    then show ?thesis using assms(2,3,5) by (auto simp: goes_def ready_def fits_def)
  next
    case False
    then have "s\<lparr>sn_code := rest, sn_types := live (?f # fs)\<rparr> = at_config rest (?f # fs)"
      using c(2) by (cases s) (simp add: at_config_def)
    then show ?thesis using False c(2,4) assms(3,5) by (simp add: goes_def ready_def)
  qed
  ultimately show ?thesis using runsD [OF _ assms(4)] unfolding write_instruction_cases by fastforce
qed

text \<open>One turn of the loop, from the opcode on.\<close>

lemma opcode_read:
  assumes "is_seen w s" "sn_code s = b # bs"
  obtains r where "wasmOpcodeRead (cw_code w) = Val (unat b, r)" "is_seen (w\<lparr>cw_code := r\<rparr>) (s\<lparr>sn_code := bs\<rparr>)"
proof -
  have "rd_buffer (cw_code w) = b # bs" using assms by (auto simp: is_seen_def seen_def)
  then have "wasmOpcodeRead (cw_code w) = Val (unat b, (cw_code w)\<lparr>rd_buffer := bs\<rparr>)"
    by (simp add: wasmOpcodeRead_def rd_bind_def rd_byte_def rd_option_def rd_return_def bufferReadByte_def)
  moreover have "is_seen (w\<lparr>cw_code := (cw_code w)\<lparr>rd_buffer := bs\<rparr>\<rparr>) (s\<lparr>sn_code := bs\<rparr>)"
    using assms(1) by (auto simp: is_seen_def seen_def writer_ok_def)
  ultimately show thesis by (rule that)
qed

definition after_opcode :: "cenv \<Rightarrow> code_writer \<Rightarrow> nat \<Rightarrow> WasmCFunctionWriter \<Rightarrow> (werr, nat \<times> WasmCFunctionWriter) res" where
  "after_opcode env rec opc w =
     (let block = (\<lambda>write. res_bind (write env rec opc w) (\<lambda>(opc, w).
               if opc = wasmOpcodeElse then Val (opc, w) else rec opc w))
      in if opc = wasmOpcodeElse \<or> opc = wasmOpcodeEnd then Val (opc, w)
            else if opc = wasmOpcodeIf then block wasmCWriteIfExpr
            else if opc = wasmOpcodeBlock then block wasmCWriteBlockExpr
            else if opc = wasmOpcodeLoop then block wasmCWriteLoopExpr
            else res_bind (write_instruction env opc w) (rec opc))"

lemma function_code_turn:
  assumes "ce_al env = plenty" "is_seen w s" "sn_code s = b # bs"
  obtains w1 where "wasmCWriteFunctionCode env (Suc fuel) oc w = after_opcode env (wasmCWriteFunctionCode env fuel) (unat b) w1"
    "is_seen w1 (s\<lparr>sn_code := bs\<rparr>)"
proof -
  obtain w0 where 0: "write_debug_line env w = Val w0" "is_seen w0 s"
    using runsD [OF runs_debug_line [OF assms(1)] assms(2)] by blast
  obtain r where r: "wasmOpcodeRead (cw_code w0) = Val (unat b, r)" "is_seen (w0\<lparr>cw_code := r\<rparr>) (s\<lparr>sn_code := bs\<rparr>)"
    by (rule opcode_read [OF 0(2) assms(3)])
  show thesis by (rule that [OF _ r(2)]) (simp add: 0(1) r(1) after_opcode_def Let_def)
qed

lemma after_straight:
  "unat b \<notin> {0x02, 0x03, 0x04, 0x05, 0x0B} \<Longrightarrow>
   after_opcode env rec (unat b) w = res_bind (write_instruction env (unat b) w) (rec (unat b))"
  by (simp add: after_opcode_def)

lemma straight_unat: "straight b \<Longrightarrow> unat b \<notin> {0x02, 0x03, 0x04, 0x05, 0x0B}"
  by (auto simp: straight_def word_unat_eq_iff)

lemma finished_here:
  assumes "sn_code s = b # rest" "unat b = 5 \<or> unat b = 11" "ready env (Frame k l r r) fs s"
  shows "finished env (Frame k l r st) fs s (unat b) (s\<lparr>sn_code := rest\<rparr>)"
proof -
  have "sn_types s = live (Frame k l r r # fs)" if "\<not> sn_ignore s"
    using assms(3) that unfolding ready_def by (metis at_config_sels(2))
  then show ?thesis using assms by (auto simp: finished_def left_block_def ready_def)
qed

lemma block_writes:
  assumes "env_for env" "translates env rec n" "is_seen w s" "sn_code s = [blocktype rs] @ rest" "length rest \<le> n"
    and "block_results rs" "vruns (wenv_of env) rest (Frame K_BLOCK rs rs [] # Frame k l r st # fs) []"
    and "sn_ignore s \<or> s = at_config (sn_code s) (Frame k l r st # fs)" "fits (Frame k l r st # fs) (length rest + 1)"
  shows "\<exists>w' s'. wasmCWriteBlockExpr env rec oc w = Val (wasmOpcodeEnd, w') \<and> is_seen w' s'
    \<and> continues env (Frame k l r (rs @ st)) fs s s'"
  using assms(1) unfolding one_blocks
  by (intro one_block_writes [OF assms(1-7) _ assms(8,9) starts_block])
    (auto simp: env_for_def label_type_def block_type_def intro!: runs_intros)

lemma loop_writes:
  assumes "env_for env" "translates env rec n" "is_seen w s" "sn_code s = [blocktype rs] @ rest" "length rest \<le> n"
    and "block_results rs" "vruns (wenv_of env) rest (Frame K_LOOP [] rs [] # Frame k l r st # fs) []"
    and "sn_ignore s \<or> s = at_config (sn_code s) (Frame k l r st # fs)" "fits (Frame k l r st # fs) (length rest + 1)"
  shows "\<exists>w' s'. wasmCWriteLoopExpr env rec oc w = Val (wasmOpcodeEnd, w') \<and> is_seen w' s'
    \<and> continues env (Frame k l r (rs @ st)) fs s s'"
  using assms(1) unfolding one_blocks
  by (intro one_block_writes [OF assms(1-7) _ assms(8,9) starts_loop])
    (auto simp: env_for_def label_type_def intro!: runs_intros)

lemma if_writes:
  assumes "env_for env" "translates env rec n" "is_seen w s" "sn_code s = [blocktype rs] @ rest" "length rest \<le> n"
    and "block_results rs" "vruns (wenv_of env) rest (Frame K_IF rs rs [] # Frame k l r st # fs) []"
    and "sn_ignore s \<or> s = at_config (sn_code s) (Frame k l r (VC_I32 # st) # fs)" "fits (Frame k l r (VC_I32 # st) # fs) (length rest + 1)"
  shows "\<exists>w' s'. wasmCWriteIfExpr env rec oc w = Val (wasmOpcodeEnd, w') \<and> is_seen w' s'
    \<and> continues env (Frame k l r (rs @ st)) fs s s'"
  using assms(8) if_writes_ignored [OF assms(2-7) _ assms(9)] if_writes_live [OF assms(1-7) _ assms(9)] by blast

lemma turn_translates:
  assumes env: "env_for env" and rec: "translates env rec n" and s: "sn_code s = b # ops @ rest" "length (sn_code s) \<le> Suc n"
    and rd: "ready env (Frame k l r st) fs s" and w: "is_seen w (s\<lparr>sn_code := ops @ rest\<rparr>)"
    and v: "vinstr (wenv_of env) (b # ops) (Frame k l r st # fs) c" "vruns (wenv_of env) rest c []"
  shows "\<exists>oc' w' s'. after_opcode env rec (unat b) w = Val (oc', w') \<and> is_seen w' s' \<and> finished env (Frame k l r st) fs s oc' s'"
proof (cases "straight b")
  case True
  then obtain st1 where st1: "c = Frame k l r st1 # fs"
    "writes env (unat b) ops (live (Frame k l r st # fs)) (live (Frame k l r st1 # fs))"
    using straight_writes [OF v(1) env] by (metis list.inject list.sel(1))
  have f: "fits (Frame k l r st1 # fs) (length rest)"
    using vinstr_fits [OF v(1) env, of "length rest"] rd s(1) st1(1) by (simp add: ready_def)
  obtain w1 s1 where 1: "write_instruction env (unat b) w = Val w1" "is_seen w1 s1" "goes env (Frame k l r st1) fs s s1"
    using goes_instruction [OF st1(2) rd s(1) w v(2) [unfolded st1(1)] f] by blast
  show ?thesis using go_on [OF rec 1(3,2) s(2)] 1(1) by (simp add: after_straight [OF straight_unat [OF True]])
next
  case False
  let ?g = "Frame k l r st" and ?s = "s\<lparr>sn_code := ops @ rest\<rparr>"
  have cfg: "sn_ignore ?s \<or> ?s = at_config (sn_code ?s) (?g # fs)"
    using rd s(1) at_config_code [of s "sn_code s" "?g # fs" "ops @ rest"] by (auto simp: ready_def)
  have fits: "fits (?g # fs) (length rest + 1)" and depth: "length (?g # fs) \<le> 2 ^ 32"
    using rd s(1) v(1) by (auto simp: ready_def fits_def)
  have here: ?thesis if "b = 0x0B \<or> b = 0x05" "ops = []" "st = r"
    using that finished_here [of s b rest env k l r fs st] s(1) rd w by (auto simp: after_opcode_def)
  from control_instr [OF v(1) False] show ?thesis
  proof (elim disjE conjE exE)
    assume "b = 0x0B" "ops = []" "st = r"
    then show ?thesis using here by blast
  next
    assume "b = 0x0B" "ops = []" "st = r"
    then show ?thesis using here by blast
  next
    assume "b = 0x05" "ops = []" "st = r"
    then show ?thesis using here by blast
  next
    fix rs assume b: "b = 0x02" and o: "ops = [blocktype rs]" "block_results rs" "c = Frame K_BLOCK rs rs [] # ?g # fs"
    have n: "length rest \<le> n" "sn_code ?s = [blocktype rs] @ rest" using s o(1) by simp_all
    obtain w1 s1 where 1: "wasmCWriteBlockExpr env rec 2 w = Val (wasmOpcodeEnd, w1)" "is_seen w1 s1"
      "continues env (Frame k l r (rs @ st)) fs ?s s1"
      using block_writes [OF env rec w n(2,1) o(2) v(2) [unfolded o(3)] cfg fits, where oc = 2] by blast
    have "goes env (Frame k l r (rs @ st)) fs s s1"
      by (rule goes_continues [OF 1(3) rd]) (use s(1) o(1,2) in \<open>simp_all add: block_results_def\<close>)
    from go_on [OF rec this 1(2) s(2)] show ?thesis using b 1(1) by (simp add: after_opcode_def)
  next
    fix rs assume b: "b = 0x03" and o: "ops = [blocktype rs]" "block_results rs" "c = Frame K_LOOP [] rs [] # ?g # fs"
    have n: "length rest \<le> n" "sn_code ?s = [blocktype rs] @ rest" using s o(1) by simp_all
    obtain w1 s1 where 1: "wasmCWriteLoopExpr env rec 3 w = Val (wasmOpcodeEnd, w1)" "is_seen w1 s1"
      "continues env (Frame k l r (rs @ st)) fs ?s s1"
      using loop_writes [OF env rec w n(2,1) o(2) v(2) [unfolded o(3)] cfg fits, where oc = 3] by blast
    have "goes env (Frame k l r (rs @ st)) fs s s1"
      by (rule goes_continues [OF 1(3) rd]) (use s(1) o(1,2) in \<open>simp_all add: block_results_def\<close>)
    from go_on [OF rec this 1(2) s(2)] show ?thesis using b 1(1) by (simp add: after_opcode_def)
  next
    fix rs st1 assume b: "b = 0x04" and st: "st = VC_I32 # st1"
      and o: "ops = [blocktype rs]" "block_results rs" "c = Frame K_IF rs rs [] # Frame k l r st1 # fs"
    have n: "length rest \<le> n" "sn_code ?s = [blocktype rs] @ rest" using s o(1) by simp_all
    obtain w1 s1 where 1: "wasmCWriteIfExpr env rec 4 w = Val (wasmOpcodeEnd, w1)" "is_seen w1 s1"
      "continues env (Frame k l r (rs @ st1)) fs ?s s1"
      using if_writes [OF env rec w n(2,1) o(2) v(2) [unfolded o(3)] cfg [unfolded st] fits [unfolded st], where oc = 4] by blast
    have "goes env (Frame k l r (rs @ st1)) fs s s1"
      by (rule goes_continues [OF 1(3) rd]) (use s(1) o(1,2) st in \<open>simp_all add: block_results_def\<close>)
    from go_on [OF rec this 1(2) s(2)] show ?thesis using b 1(1) by (simp add: after_opcode_def)
  next
    fix d t st1 assume b: "b = 0x0C" and o: "ops = uleb_bytes d" "st = t @ st1" "d < length (?g # fs)" "fr_label ((?g # fs) ! d) = t" "c = ?g # fs"
    have "d < 2 ^ 32" using o(3) depth by simp
    from goes_branch [OF env rd [unfolded o(2)] s(1) [unfolded o(1)] w [unfolded o(1)] v(2) [unfolded o(5,2)] o(3,4) [unfolded o(2)] this]
    obtain w1 s1 where "write_instruction env wasmOpcodeBr w = Val w1" "is_seen w1 s1" "goes env (Frame k l r (t @ st1)) fs s s1" by blast
    then show ?thesis using go_on [OF rec _ _ s(2)] b by (simp add: after_opcode_def)
  next
    fix d t st1 assume b: "b = 0x0D" and o: "ops = uleb_bytes d" "st = VC_I32 # t @ st1" "d < length (Frame k l r (t @ st1) # fs)"
      "fr_label ((Frame k l r (t @ st1) # fs) ! d) = t" "c = Frame k l r (t @ st1) # fs"
    have "d < 2 ^ 32" using o(3) depth by simp
    from goes_branch_if [OF env rd [unfolded o(2)] s(1) [unfolded o(1)] w [unfolded o(1)] v(2) [unfolded o(5)] o(3,4) this]
    obtain w1 s1 where "write_instruction env wasmOpcodeBrIf w = Val w1" "is_seen w1 s1" "goes env (Frame k l r (t @ st1)) fs s s1" by blast
    then show ?thesis using go_on [OF rec _ _ s(2)] b by (simp add: after_opcode_def)
  qed
qed

text \<open>With more fuel than bytes the code of a block is written to its end.\<close>

lemma code_translates: "env_for env \<Longrightarrow> n < fuel \<Longrightarrow> translates env (wasmCWriteFunctionCode env fuel) n"
proof (induction fuel arbitrary: n)
  case (Suc fuel)
  show ?case unfolding translates_def
  proof (intro allI impI)
    fix oc w s f fs
    assume n: "length (sn_code s) \<le> n" and rd: "ready env f fs s" and w: "is_seen w s"
    obtain k l r st where f: "f = Frame k l r st" by (cases f)
    have al: "ce_al env = plenty" using Suc.prems(1) by (simp add: env_for_def)
    obtain b ops rest c where c: "sn_code s = b # ops @ rest" "vinstr (wenv_of env) (b # ops) (Frame k l r st # fs) c"
        "vruns (wenv_of env) rest c []"
      using rd unfolding ready_def f by (blast elim: code_head)
    obtain m where m: "n = Suc m" using n c(1) by (cases n) auto
    obtain w1 where w1: "wasmCWriteFunctionCode env (Suc fuel) oc w = after_opcode env (wasmCWriteFunctionCode env fuel) (unat b) w1"
        "is_seen w1 (s\<lparr>sn_code := ops @ rest\<rparr>)"
      by (rule function_code_turn [OF al w c(1)])
    have "translates env (wasmCWriteFunctionCode env fuel) m" using Suc m by simp
    from turn_translates [OF Suc.prems(1) this c(1) n [unfolded m] rd [unfolded f] w1(2) c(2,3)]
    show "\<exists>oc' w' s'. wasmCWriteFunctionCode env (Suc fuel) oc w = Val (oc', w') \<and> is_seen w' s' \<and> finished env f fs s oc' s'"
      unfolding w1(1) f .
  qed
qed simp

section \<open>Function bodies\<close>

definition stacks_ok :: "body_state \<Rightarrow> bool" where
  "stacks_ok bs \<longleftrightarrow> stack_ok (bs_typeStack bs) \<and> stack_ok (bs_stackDeclarations bs)"

definition cleared :: "body_state \<Rightarrow> bool" where
  "cleared bs \<longleftrightarrow> ts_length (bs_typeStack bs) = 0 \<and> items (ls_labels (bs_labelStack bs)) = []"

definition body_valid :: "WasmModule \<Rightarrow> WasmFunction \<Rightarrow> bool" where
  "body_valid m f \<longleftrightarrow> (\<exists>ft. at (functionTypes m) (unat (functionTypeIndex f)) = Val ft \<and> length (code f) < 2 ^ 32
     \<and> valid_body (module_env m f) (code f) (map class_of (resultTypes ft)))"

lemma runs_clear_types:
  "runs s (\<lambda>w. Val (w\<lparr>cw_typeStack := wasmTypeStackClear wasmValueTypeI32 (cw_typeStack w)\<rparr>)) (s\<lparr>sn_types := []\<rparr>)"
  by (auto simp: runs_def wasmTypeStackClear_def is_seen_def seen_def writer_ok_def stack_ok_def stack_types_def)

lemma runs_clear_Cons:
  "runs (s\<lparr>sn_types := []\<rparr>) (steps as) s' \<Longrightarrow>
   runs s (steps ((\<lambda>w. Val (w\<lparr>cw_typeStack := wasmTypeStackClear wasmValueTypeI32 (cw_typeStack w)\<rparr>)) # as)) s'"
  by (rule runs_Cons [OF runs_clear_types])

lemma return_written:
  assumes "ce_al env = plenty" "is_seen w s"
  shows "\<exists>w'. wasmCWriteFunctionReturn env ft w = Val w' \<and> writer_ok w'"
proof (cases "resultTypes ft")
  case Nil
  then show ?thesis using assms(2) by (simp add: wasmCWriteFunctionReturn_def is_seen_def)
next
  case (Cons t ts)
  have r: "runs s (steps
         [(\<lambda>w. Val (w\<lparr>cw_typeStack := wasmTypeStackClear wasmValueTypeI32 (cw_typeStack w)\<rparr>)), push_type env t,
          top 0 (\<lambda>i. steps [declare_slot env i t, wasmCWriteIndent env, wasmCWrite env ''return '',
            wasmCWriteStringStackName env i t, wasmCWrite env ('';'' @ nl)])]) (s\<lparr>sn_types := [t]\<rparr>)"
    by (rule runs_eq, (rule runs_clear_Cons runs_top runs_moves runs_intros assms(1) | (simp; fail))+)
  show ?thesis
    using assms(2) runsD [OF r assms(2)] by (auto simp: wasmCWriteFunctionReturn_def Cons is_seen_def)
qed

text \<open>The body's own label and frame.\<close>

lemma body_start:
  assumes "stacks_ok bs" "cleared bs" "length rs \<le> 1" "code (ce_function env) = cd"
  shows "is_seen ((body_writer env bs)\<lparr>cw_builder := b, cw_code := input cd k,
      cw_labelStack := (bs_labelStack bs)\<lparr>ls_labels := append_array \<lparr>lb_index = i, lb_typeStackLength = 0,
        lb_type = (case map value_type rs of [] \<Rightarrow> None | t # _ \<Rightarrow> Some t)\<rparr> (ls_labels (bs_labelStack bs)), ls_next := j\<rparr>\<rparr>)
    (at_config cd [Frame K_FUNC rs rs []])"
  using assms
  by (cases rs) (auto simp: is_seen_def seen_def writer_ok_def body_writer_def at_config_def stacks_ok_def cleared_def
      stack_types_def append_array_def label_view_def label_type_def)

lemma body_code_start:
  assumes "ce_al env = plenty"
  obtains b k i j where "body_code env ft (body_writer env bs) =
     res_bind (wasmCWriteFunctionCode env (length (code (ce_function env)) + 1) wasmOpcodeUnreachable
       ((body_writer env bs)\<lparr>cw_builder := b, cw_code := input (code (ce_function env)) k,
          cw_labelStack := (bs_labelStack bs)\<lparr>ls_labels := append_array \<lparr>lb_index = i, lb_typeStackLength = 0,
            lb_type = (case resultTypes ft of [] \<Rightarrow> None | t # _ \<Rightarrow> Some t)\<rparr> (ls_labels (bs_labelStack bs)), ls_next := j\<rparr>\<rparr>))
       (\<lambda>(opcode, w). steps [wasmCWriteLabel env i, wasmCWriteFunctionReturn env ft] w)"
proof -
  let ?r = "\<lparr>rd_buffer = code (ce_function env), rd_allocs = bs_allocs bs + 1\<rparr>" and ?i = "ls_next (bs_labelStack bs)"
  let ?l = "\<lparr>lb_index = ?i, lb_typeStackLength = 0, lb_type = (case resultTypes ft of [] \<Rightarrow> None | t # _ \<Rightarrow> Some t)\<rparr>"
  obtain k where "arrayAppend plenty () 24 (ls_labels (bs_labelStack bs)) ?l ?r
      = Val (append_array ?l (ls_labels (bs_labelStack bs)), input (code (ce_function env)) k)"
    by (rule exE [OF arrayAppend_plenty_eq])
  then show thesis
    by (intro that [where b = "\<lparr>sb_string = [], sb_capacity = 8\<rparr>" and k = k and i = ?i and j = "?i + 1"])
      (simp add: body_code_def body_writer_def must_def stringBuilderInitialize_def emptyStringBuilder_def rd_run
        rd_guard_def rd_calloc_def plenty_def wasmLabelStackPush_def Let_def assms del: wasmCWriteFunctionCode.simps)
qed

lemma function_body_written:
  assumes "env_for env" "body_valid (ce_module env) (ce_function env)" "stacks_ok bs" "cleared bs"
  shows "\<exists>text bs'. wasmCWriteFunctionBody env bs = Val (text, bs') \<and> stacks_ok bs'"
proof -
  let ?m = "ce_module env" and ?f = "ce_function env"
  obtain ft where ft: "at (functionTypes ?m) (unat (functionTypeIndex ?f)) = Val ft" "length (code ?f) < 2 ^ 32"
    and v: "vruns (wenv_of env) (code ?f) [Frame K_FUNC (map class_of (resultTypes ft)) (map class_of (resultTypes ft)) []] []"
    using assms(2) unfolding body_valid_def valid_body_def by blast
  let ?rs = "map class_of (resultTypes ft)"
  have al: "ce_al env = plenty" using assms(1) by (simp add: env_for_def)
  have one: "length (resultTypes ft) \<le> 1"
    using at_set [OF ft(1)] env_for_writable [OF assms(1)] by (auto simp: writable_def list_all_iff)
  obtain b k i j where e: "body_code env ft (body_writer env bs) =
     res_bind (wasmCWriteFunctionCode env (length (code ?f) + 1) wasmOpcodeUnreachable
       ((body_writer env bs)\<lparr>cw_builder := b, cw_code := input (code ?f) k,
          cw_labelStack := (bs_labelStack bs)\<lparr>ls_labels := append_array \<lparr>lb_index = i, lb_typeStackLength = 0,
            lb_type = (case resultTypes ft of [] \<Rightarrow> None | t # _ \<Rightarrow> Some t)\<rparr> (ls_labels (bs_labelStack bs)), ls_next := j\<rparr>\<rparr>))
       (\<lambda>(opcode, w). steps [wasmCWriteLabel env i, wasmCWriteFunctionReturn env ft] w)"
    by (rule body_code_start [OF al])
  let ?s = "at_config (code ?f) [Frame K_FUNC ?rs ?rs []]"
  note w0 = body_start [OF assms(3,4) _ refl, where rs = ?rs and env = env and b = b and k = k and i = i and j = j, unfolded map_value_type_class_of]
  have rd: "ready env (Frame K_FUNC ?rs ?rs []) [] ?s"
    using v ft(2) by (simp add: ready_def fits_def)
  have tr: "translates env (wasmCWriteFunctionCode env (length (code ?f) + 1)) (length (code ?f))"
    by (rule code_translates [OF assms(1)]) simp
  obtain oc w1 s1 where 1: "wasmCWriteFunctionCode env (length (code ?f) + 1) wasmOpcodeUnreachable
       ((body_writer env bs)\<lparr>cw_builder := b, cw_code := input (code ?f) k,
          cw_labelStack := (bs_labelStack bs)\<lparr>ls_labels := append_array \<lparr>lb_index = i, lb_typeStackLength = 0,
            lb_type = (case resultTypes ft of [] \<Rightarrow> None | t # _ \<Rightarrow> Some t)\<rparr> (ls_labels (bs_labelStack bs)), ls_next := j\<rparr>\<rparr>)
       = Val (oc, w1)" "is_seen w1 s1"
    by (rule translatesE [OF tr _ rd w0]) (use one in simp_all)
  obtain w2 where 2: "wasmCWriteLabel env i w1 = Val w2" "is_seen w2 s1"
    using runsD [OF runs_names(5) [OF al] 1(2)] by blast
  obtain w3 where 3: "wasmCWriteFunctionReturn env ft w2 = Val w3" "writer_ok w3"
    using return_written [OF al 2(2)] by blast
  have "body_code env ft (body_writer env bs) = Val w3"
    unfolding e 1(1) by (simp add: steps.simps 2(1) 3(1))
  then show ?thesis
    using ft(1) one 3(2) by (simp add: wasmCWriteFunctionBody_def stacks_ok_def writer_ok_def)
qed

end
