(* ===== verification/C_Program.thy ===== *)
theory C_Program
  imports C_Body
begin

text \<open>
  A module's functions, one after the other, and the composition of the two programs of the repository: what
  the compiler writes is read by the translator, and every function of it is written as C.
\<close>

section \<open>All functions of a module\<close>

lemma env_for_function [simp]: "env_for (env\<lparr>ce_function := f\<rparr>) = env_for env"
  by (simp add: env_for_def)

lemma signature_written:
  assumes "writable m" "body_valid m f"
  shows "\<exists>s. wasmCWriteFileFunctionSignature m moduleName f i names pretty pre = Val s"
proof -
  obtain ft where ft: "at (functionTypes m) (unat (functionTypeIndex f)) = Val ft" using assms(2) by (auto simp: body_valid_def)
  have "length (resultTypes ft) \<le> 1" using at_set [OF ft] assms(1) by (auto simp: writable_def list_all_iff)
  then show ?thesis
    by (auto simp: wasmCWriteFileFunctionSignature_def ft wasmCGetReturnType_def split: list.split)
qed

lemma implementations_induct:
  assumes "env_for env" "list_all (body_valid (ce_module env)) (m_functions (ce_module env))"
    and "length (items (functionImports (ce_module env))) < 2 ^ 32"
    and "\<forall>i \<in> set ids. unat i < length (m_functions (ce_module env))" "stacks_ok bs"
  shows "\<exists>text bs'. write_implementations env ids bs = Val (text, bs')"
  using assms(4,5)
proof (induction ids arbitrary: bs)
  case (Cons i ids)
  let ?m = "ce_module env" and ?f = "m_functions (ce_module env) ! unat i"
  have at: "at (m_functions ?m) (unat i) = Val ?f" using Cons.prems(1) by (simp add: at_def)
  have v: "body_valid ?m ?f" using Cons.prems(1) assms(2) by (simp add: list_all_length)
  let ?bs = "bs\<lparr>bs_typeStack := wasmTypeStackClear wasmValueTypeI32 (bs_typeStack bs),
    bs_stackDeclarations := wasmTypeStackClear 0 (bs_stackDeclarations bs),
    bs_labelStack := wasmLabelStackClear (bs_labelStack bs)\<rparr>"
  obtain s where s: "wasmCWriteFileFunctionSignature ?m (ce_moduleName env) ?f
      (of_nat (length (items (functionImports ?m))) + i) True (ce_pretty env) (ce_multipleModules env) = Val s"
    using signature_written [OF env_for_writable [OF assms(1)] v] by blast
  obtain l ls where l: "(if ce_debug env then wasmCGetDebugLine (bs_debugLines ?bs) (code_start ?f)
      else (None, bs_debugLines ?bs)) = (l, ls)" by (rule prod.exhaust)
  have "stacks_ok (?bs\<lparr>bs_debugLines := ls\<rparr>)" "cleared (?bs\<lparr>bs_debugLines := ls\<rparr>)"
    using Cons.prems(2) by (simp_all add: stacks_ok_def cleared_def wasmTypeStackClear_def wasmLabelStackClear_def stack_ok_def)
  from function_body_written [OF _ _ this, of "env\<lparr>ce_function := ?f\<rparr>"] assms(1) v
  obtain body bs1 where b: "wasmCWriteFunctionBody (env\<lparr>ce_function := ?f\<rparr>) (?bs\<lparr>bs_debugLines := ls\<rparr>) = Val (body, bs1)"
    "stacks_ok bs1" by auto
  obtain rest bs2 where r: "write_implementations env ids bs1 = Val (rest, bs2)"
    using Cons.IH [OF _ b(2)] Cons.prems(1) by auto
  show ?case
    unfolding write_implementations.simps at res.case Let_def l prod.case
    using assms(3) by (simp add: assertSizeU32_def s b(1) [simplified] r)
qed simp

lemma all_written:
  assumes "env_for env" "list_all (body_valid (ce_module env)) (m_functions (ce_module env))"
    and "length (items (functionImports (ce_module env))) < 2 ^ 32"
    and "\<forall>i \<in> set ids. unat i < length (m_functions (ce_module env))"
  shows "\<exists>text. wasmCWriteFunctionImplementations env allocs lines ids = Val text"
proof -
  have "stacks_ok \<lparr>bs_allocs = allocs, bs_typeStack = wasmEmptyTypeStack, bs_stackDeclarations = wasmEmptyTypeStack,
        bs_labelStack = wasmEmptyLabelStack, bs_debugLines = lines\<rparr>"
    by (simp add: stacks_ok_def wasmEmptyTypeStack_def stack_ok_def)
  from implementations_induct [OF assms this] show ?thesis
    by (fastforce simp: wasmCWriteFunctionImplementations_def)
qed

text \<open>
  C3. The writer never fails on a module of the form the compiler emits: every function valid by the rules \<^const>\<open>vinstr\<close>,
  which are those of WebAssembly for the instructions the back end uses (loads and stores at offset 0, global 0, none
  of \<^verbatim>\<open>br_table\<close>, \<^verbatim>\<open>return\<close>, \<^verbatim>\<open>select\<close>, \<^verbatim>\<open>unreachable\<close>, atomics and table instructions), ASCII import names, at most one
  result for a function type and a global 0 of type \<^verbatim>\<open>i32\<close>. When memory lasts, writing all or any of its functions as
  C ends - one turn per byte of code is enough fuel - and no access to the operand stack, the label stack, the type
  tables or the writer's buffers falls outside its array.
\<close>

theorem implementations_written:
  assumes "ce_al env = plenty" "writable (ce_module env)"
    and "list_all (body_valid (ce_module env)) (m_functions (ce_module env))"
    and "length (items (functionImports (ce_module env))) < 2 ^ 32"
    and "\<forall>i \<in> set ids. unat i < length (m_functions (ce_module env))"
  shows "\<exists>text. wasmCWriteFunctionImplementations env allocs lines ids = Val text"
  by (rule all_written) (use assms in \<open>simp_all add: env_for_def\<close>)

text \<open>A module of one function, which returns its argument.\<close>

definition ex_identity :: WasmFunction where
  "ex_identity = wasmEmptyFunction\<lparr>code := [0x20, 0, 0x0B]\<rparr>"

definition ex_module :: WasmModule where
  "ex_module = (emptyWasmModule 100)
     \<lparr>functionTypes := [\<lparr>parameterTypes = [wasmValueTypeI64], resultTypes = [wasmValueTypeI64]\<rparr>],
      m_functions := [ex_identity], globals := [\<lparr>g_type = \<lparr>valueType = wasmValueTypeI32, gt_mutable = True\<rparr>, g_init = []\<rparr>]\<rparr>"

lemma ex_identity_valid: "body_valid ex_module ex_identity"
proof -
  let ?E = "module_env ex_module ex_identity"
  have l: "we_locals ?E 0 = Some VC_I64"
    by (simp add: module_env_def wasmModuleFunctionGetLocalType_def ex_module_def ex_identity_def wasmEmptyFunction_def at_def)
  have "vruns ?E ((0x20 # uleb_bytes 0) @ [0x0B]) [Frame K_FUNC [VC_I64] [VC_I64] []] []"
    by (rule vr_step [OF v_local_get [OF l] vruns_single [OF v_end_function]])
  then show ?thesis
    unfolding body_valid_def valid_body_def
    by (intro exI [of _ "\<lparr>parameterTypes = [wasmValueTypeI64], resultTypes = [wasmValueTypeI64]\<rparr>"])
      (simp add: ex_module_def ex_identity_def wasmEmptyFunction_def at_def uleb_small)
qed

lemma implementations_written_witness:
  "\<exists>text. wasmCWriteFunctionImplementations \<lparr>ce_al = plenty, ce_module = ex_module, ce_moduleName = str ''guest'',
     ce_function = ex_identity, ce_pretty = True, ce_debug = False, ce_multipleModules = False\<rparr> 0 [] [0] = Val text"
  by (rule implementations_written)
    (use ex_identity_valid in \<open>simp_all add: writable_def ascii_imports_def ex_module_def emptyWasmModule_def empty_array_def
      wasmModuleGetGlobalType_def at_def\<close>)

section \<open>From C source to C\<close>

lemma read_back_writable:
  assumes e: "encodes p c" and w: "write_module mp p = Val out" and L: "length (buf_data out) < 2 ^ 32"
    and ok: "list_all functype_ok (ct_types c)" "list_all single_result (ct_types c)"
    and names: "\<forall>im \<in> set (ct_imports c). ascii (fi_module im) \<and> ascii (fi_name im)"
  shows "writable (read_back mp p c n)"
  using encodes_bounds(1) [OF e w L] ok names
  by (auto simp: writable_def ascii_imports_def read_back_def emptyWasmModule_def empty_array_def items_append_arrays
      list_all_iff functype_ok_def single_result_def wasmModuleGetGlobalType_def stack_global_def at_def)

lemma read_back_body_valid:
  assumes e: "encodes p c" and w: "write_module mp p = Val out" and L: "length (buf_data out) < 2 ^ 32"
    and f: "f \<in> set (m_functions (read_back mp p c n))" "has_type (read_back mp p c n) (functionTypeIndex f) fty"
      "valid_body (module_env (read_back mp p c n) f) (code f) (sig_results fty)"
  shows "body_valid (read_back mp p c n) f"
proof -
  have "map class_of (resultTypes (sig_type fty)) = sig_results fty"
    using sig_results_cases [of fty] by (auto simp: sig_type_def)
  moreover have "length (code f) < 2 ^ 32"
  proof -
    have "code f \<in> set (map code (m_functions (read_back mp p c n)))" using f(1) by simp
    also have "map code (m_functions (read_back mp p c n)) = map snd (ct_bodies c)"
      by (rule read_back_fields(5)) (use e in \<open>simp add: encodes_def\<close>)
    finally obtain ds where "(ds, code f) \<in> set (ct_bodies c)" by auto
    then have "length (enc_body ds (code f)) \<le> length (enc_bodies (ct_bodies c))"
      by (auto simp: length_concat comp_def intro!: member_le_sum_list image_eqI [of _ _ "(ds, code f)"])
    then show ?thesis using encodes_bounds(5) [OF e w L] e by (simp add: encodes_def enc_body_def)
  qed
  moreover have "at (functionTypes (read_back mp p c n)) (unat (functionTypeIndex f)) = Val (sig_type fty)"
    using f(2) by (simp add: has_type_def at_def)
  ultimately show ?thesis using f(3) unfolding body_valid_def by auto
qed

text \<open>
  C4. The two programs composed: whatever \<^verbatim>\<open>codegen\<close> emits for a program the parser has typed, whose undefined
  functions have ASCII names, the translator reads and turns back into C - it reads the module without an
  error, with one function for every definition of the program, and writes any of them without failing,
  running out of turns or leaving an array.
\<close>

theorem compile_translates:
  assumes cg: "codegen ss mp prog = Val out" and L: "length (buf_data out) < 2 ^ 32"
    and opt: "0 \<le> ss" "0 < mp" "mp < 2 ^ 32" and sz: "\<forall>v \<in> set prog. 0 \<le> ty_size (o_ty v)"
    and sigs: "\<forall>fn \<in> set prog. is_function fn \<longrightarrow> sig_ok (o_fty fn) \<and> name_ok (o_name fn)"
    and nb: "number_functions prog = Val (nimports, nb)" and lay: "layout_globals ss mp prog = Val lay"
    and typed: "\<forall>fn \<in> set (defined prog). function_typed (module_ctx prog nb lay) nb fn"
    and names: "\<forall>fn \<in> set (imported prog). ascii (drop 6 (o_name fn))"
    and env: "ce_al env = plenty" "\<forall>i \<in> set ids. unat i < length (defined prog)"
  shows "\<exists>m text. wasmModuleRead plenty dbg (buf_data out) = Val m \<and> length (m_functions m) = length (defined prog)
    \<and> wasmCWriteFunctionImplementations (env\<lparr>ce_module := m\<rparr>) allocs lines ids = Val text"
proof -
  obtain p c m where e: "encodes p c" "write_module mp p = Val out" "list_all functype_ok (ct_types c)" "list_all single_result (ct_types c)"
    and mm: "m = read_back mp p c (length (buf_data out))"
    and m: "wasmModuleRead plenty dbg (buf_data out) = Val m"
    and im: "list_all2 (\<lambda>fn im. fi_module im = str ''env'' \<and> fi_name im = drop 6 (o_name fn)
         \<and> has_type m (fi_functionTypeIndex im) (o_fty fn)) (imported prog) (items (functionImports m))"
    and fs: "list_all2 (\<lambda>fn f. has_type m (functionTypeIndex f) (o_fty fn)
         \<and> valid_body (module_env m f) (code f) (sig_results (o_fty fn))) (defined prog) (m_functions m)"
    by (rule compile_reads [OF cg L opt sz sigs nb lay typed]) blast
  have ims: "items (functionImports m) = ct_imports c"
    unfolding mm by (rule read_back_fields(2)) (use e(1) in \<open>simp add: encodes_def\<close>)
  have "ascii (str ''env'')" by (simp add: ascii_def str_def)
  moreover have "\<forall>k < length (imported prog). ascii (drop 6 (o_name (imported prog ! k)))" using names by simp
  ultimately have w: "writable m"
    unfolding mm using im unfolding ims
    by (intro read_back_writable [OF e(1,2) L e(3,4)]) (auto simp: list_all2_conv_all_nth in_set_conv_nth)
  have v: "list_all (body_valid m) (m_functions m)"
    using fs read_back_body_valid [OF e(1,2) L] unfolding mm by (fastforce simp: list_all2_conv_all_nth list_all_length)
  have n: "length (m_functions m) = length (defined prog)" using fs by (simp add: list_all2_lengthD)
  from w v n env encodes_bounds(2) [OF e(1,2) L]
  have "\<exists>text. wasmCWriteFunctionImplementations (env\<lparr>ce_module := m\<rparr>) allocs lines ids = Val text"
    by (intro all_written) (simp_all add: ims env_for_def)
  then show ?thesis using m n by blast
qed

lemma compile_translates_witness:
  "\<exists>out m text. codegen 65536 3 ex_prog = Val out \<and> wasmModuleRead plenty False (buf_data out) = Val m
    \<and> wasmCWriteFunctionImplementations \<lparr>ce_al = plenty, ce_module = m, ce_moduleName = str ''guest'',
     ce_function = wasmEmptyFunction, ce_pretty = True, ce_debug = False, ce_multipleModules = False\<rparr> 0 [] [0] = Val text"
proof -
  obtain n nb where nb: "number_functions ex_prog = Val (n, nb)" "nb_index nb (str ''__env_put'') = Some 0"
    using ex_prog_numbers by (auto split: res.splits)
  obtain lay where lay: "layout_globals 65536 3 ex_prog = Val lay"
    using ex_prog_layout by (auto split: res.splits)
  obtain out where out: "codegen 65536 3 ex_prog = Val out" "length (buf_data out) < 2 ^ 32"
    using ex_prog_compiles [OF nb(1) lay] by blast
  have funcs: "nb_funcs nb = [ex_put, ex_start]"
    using number_functions_parts(1) [OF nb(1) ex_prog_sigs] by (simp add: ex_prog_functions)
  have sizes: "\<forall>v \<in> set ex_prog. 0 \<le> ty_size (o_ty v)" by code_simp
  have typed: "\<forall>fn \<in> set (defined ex_prog). function_typed (module_ctx ex_prog nb lay) nb fn"
    using ex_start_typed [OF nb(2) funcs] by (simp add: ex_prog_functions)
  have names: "\<forall>fn \<in> set (imported ex_prog). ascii (drop 6 (o_name fn))"
    by (simp add: ex_prog_functions ex_put_def ascii_def str_def)
  let ?env = "\<lparr>ce_al = plenty, ce_module = emptyWasmModule 0, ce_moduleName = str ''guest'',
     ce_function = wasmEmptyFunction, ce_pretty = True, ce_debug = False, ce_multipleModules = False\<rparr>"
  have "\<forall>i \<in> set [0 :: u32]. unat i < length (defined ex_prog)" by (simp add: ex_prog_functions)
  from compile_translates [OF out(1,2) _ _ _ sizes ex_prog_sigs nb(1) lay typed names _ this, of ?env False 0 "[]"] out
  show ?thesis by auto
qed

end
