(* ===== verification/Cc_Hashmap.thy ===== *)
theory Cc_Hashmap
  imports Prelude
begin

text \<open>
  The compiler's hash table, \<^verbatim>\<open>src/cc/hashmap.c\<close>: open addressing with linear probing, deleted entries
  marked, and a rehash when seven tenths of the slots are used. \<open>hm_map\<close> reads a table as a finite map,
  whatever the order of its slots; the section on refinement shows what the operations do to that map, and
  the last one an insertion that loses track of a deleted name. \<^verbatim>\<open>int\<close> overflow of the load computation is
  \<open>Unsafe\<close>; allocation is taken to succeed, as the compiler does.
\<close>

section \<open>Tables\<close>

datatype hkey = NULL_KEY | TOMBSTONE | KEY "u8 list"

record 'v HashEntry =
  he_key :: hkey
  he_val :: "'v option"

record 'v HashMap =
  hm_buckets :: "'v HashEntry list"
  hm_used :: nat

datatype hm_error = HM_Unreachable | HM_Assertion | HM_Depth

definition empty_entry :: "'v HashEntry" where
  "empty_entry = \<lparr>he_key = NULL_KEY, he_val = None\<rparr>"

definition empty_hashmap :: "'v HashMap" where
  "empty_hashmap = \<lparr>hm_buckets = [], hm_used = 0\<rparr>"

definition fnv_hash :: "u8 list \<Rightarrow> u64" where
  "fnv_hash s = fold (\<lambda>c hash. (hash * 0x100000001b3) XOR ucast c) s 0xcbf29ce484222325"

text \<open>The slots a search visits: \<^verbatim>\<open>(hash + i) % map->capacity\<close>, in 64-bit arithmetic.\<close>

definition probes :: "nat \<Rightarrow> u8 list \<Rightarrow> nat list" where
  "probes capacity key = map (\<lambda>i. unat ((fnv_hash key + of_nat i) mod of_nat capacity)) [0..<capacity]"

definition entry_live :: "'v HashEntry \<Rightarrow> bool" where
  "entry_live ent \<longleftrightarrow> he_key ent \<noteq> NULL_KEY \<and> he_key ent \<noteq> TOMBSTONE"

definition match :: "'v HashEntry \<Rightarrow> u8 list \<Rightarrow> bool" where
  "match ent key \<longleftrightarrow> he_key ent = KEY key"

fun get_loop :: "'v HashEntry list \<Rightarrow> u8 list \<Rightarrow> nat list \<Rightarrow> (hm_error, nat option) res" where
  "get_loop bs key [] = Stop HM_Unreachable"
| "get_loop bs key (s # ss) =
     (if match (bs ! s) key then Val (Some s)
      else if he_key (bs ! s) = NULL_KEY then Val None else get_loop bs key ss)"

definition get_entry :: "'v HashMap \<Rightarrow> u8 list \<Rightarrow> (hm_error, nat option) res" where
  "get_entry m key =
     (if hm_buckets m = [] then Val None
      else get_loop (hm_buckets m) key (probes (length (hm_buckets m)) key))"

definition hashmap_get2 :: "'v HashMap \<Rightarrow> u8 list \<Rightarrow> (hm_error, 'v option) res" where
  "hashmap_get2 m key = res_bind (get_entry m key) (\<lambda>ent.
     Val (case ent of None \<Rightarrow> None | Some s \<Rightarrow> he_val (hm_buckets m ! s)))"

definition hashmap_delete2 :: "'v HashMap \<Rightarrow> u8 list \<Rightarrow> (hm_error, 'v HashMap) res" where
  "hashmap_delete2 m key = res_bind (get_entry m key) (\<lambda>ent.
     Val (case ent of None \<Rightarrow> m
       | Some s \<Rightarrow> m\<lparr>hm_buckets := (hm_buckets m)[s := (hm_buckets m ! s)\<lparr>he_key := TOMBSTONE\<rparr>]\<rparr>))"

text \<open>Insertion takes the first slot that matches, is marked deleted or is free.\<close>

definition set_key :: "nat \<Rightarrow> u8 list \<Rightarrow> 'v HashMap \<Rightarrow> 'v HashMap" where
  "set_key s key m = m\<lparr>hm_buckets := (hm_buckets m)[s := (hm_buckets m ! s)\<lparr>he_key := KEY key\<rparr>]\<rparr>"

fun insert_loop :: "'v HashMap \<Rightarrow> u8 list \<Rightarrow> nat list \<Rightarrow> (hm_error, 'v HashMap \<times> nat) res" where
  "insert_loop m key [] = Stop HM_Unreachable"
| "insert_loop m key (s # ss) =
     (if match (hm_buckets m ! s) key then Val (m, s)
      else if he_key (hm_buckets m ! s) = TOMBSTONE then Val (set_key s key m, s)
      else if he_key (hm_buckets m ! s) = NULL_KEY then Val ((set_key s key m)\<lparr>hm_used := hm_used m + 1\<rparr>, s)
      else insert_loop m key ss)"

text \<open>\<^verbatim>\<open>(n * 100) / capacity\<close> on \<^verbatim>\<open>int\<close>s.\<close>

definition load_percent :: "nat \<Rightarrow> nat \<Rightarrow> (hm_error, nat) res" where
  "load_percent n capacity = (if n * 100 < 2 ^ 31 \<and> capacity > 0 then Val (n * 100 div capacity) else Unsafe)"

function rehash_capacity :: "nat \<Rightarrow> nat \<Rightarrow> (hm_error, nat) res" where
  "rehash_capacity nkeys cap =
     (case load_percent nkeys cap of
        Val p \<Rightarrow> if p \<ge> 50 then (if cap * 2 < 2 ^ 31 then rehash_capacity nkeys (cap * 2) else Unsafe) else Val cap
      | Stop e \<Rightarrow> Stop e | Unsafe \<Rightarrow> Unsafe)"
  by auto
termination
  by (relation "measure (\<lambda>(nkeys, cap). 2 ^ 31 - cap)")
    (auto simp: load_percent_def split: if_splits)

declare rehash_capacity.simps [simp del]

definition rehash ::
    "('v HashMap \<Rightarrow> u8 list \<Rightarrow> 'v option \<Rightarrow> (hm_error, 'v HashMap) res) \<Rightarrow> 'v HashMap \<Rightarrow> (hm_error, 'v HashMap) res" where
  "rehash put m =
     (let nkeys = length (filter entry_live (hm_buckets m)) in
      res_bind (rehash_capacity nkeys (length (hm_buckets m))) (\<lambda>cap.
      res_bind (res_fold (\<lambda>ent m2. case he_key ent of KEY key \<Rightarrow> put m2 key (he_val ent) | _ \<Rightarrow> Val m2)
        (hm_buckets m) \<lparr>hm_buckets = replicate cap empty_entry, hm_used = 0\<rparr>) (\<lambda>m2.
      if hm_used m2 = nkeys then Val m2 else Stop HM_Assertion)))"

definition get_or_insert_entry ::
    "('v HashMap \<Rightarrow> (hm_error, 'v HashMap) res) \<Rightarrow> 'v HashMap \<Rightarrow> u8 list \<Rightarrow> (hm_error, 'v HashMap \<times> nat) res" where
  "get_or_insert_entry again m key =
     res_bind (if hm_buckets m = [] then Val (m\<lparr>hm_buckets := replicate 16 empty_entry\<rparr>)
        else res_bind (load_percent (hm_used m) (length (hm_buckets m))) (\<lambda>p. if p \<ge> 70 then again m else Val m)) (\<lambda>m.
     insert_loop m key (probes (length (hm_buckets m)) key))"

text \<open>Rehashing inserts into the new table; the depth of that recursion is bounded by the first argument.\<close>

primrec put_depth :: "nat \<Rightarrow> 'v HashMap \<Rightarrow> u8 list \<Rightarrow> 'v option \<Rightarrow> (hm_error, 'v HashMap) res" where
  "put_depth 0 = (\<lambda>m key val. Stop HM_Depth)"
| "put_depth (Suc d) = (\<lambda>m key val.
     res_bind (get_or_insert_entry (rehash (put_depth d)) m key) (\<lambda>(m, s).
     Val (m\<lparr>hm_buckets := (hm_buckets m)[s := (hm_buckets m ! s)\<lparr>he_val := val\<rparr>]\<rparr>)))"

definition hashmap_put2 :: "'v HashMap \<Rightarrow> u8 list \<Rightarrow> 'v option \<Rightarrow> (hm_error, 'v HashMap) res" where
  "hashmap_put2 = put_depth 2"

section \<open>Tables as maps\<close>

definition hm_entries :: "'v HashEntry list \<Rightarrow> (u8 list \<times> 'v option) list" where
  "hm_entries bs = concat (map (\<lambda>e. case he_key e of KEY k \<Rightarrow> [(k, he_val e)] | _ \<Rightarrow> []) bs)"

definition hm_map :: "'v HashMap \<Rightarrow> u8 list \<rightharpoonup> 'v option" where
  "hm_map m = map_of (hm_entries (hm_buckets m))"

definition reached :: "'v HashEntry list \<Rightarrow> nat list \<Rightarrow> nat \<Rightarrow> bool" where
  "reached bs ss s \<longleftrightarrow> (\<exists>pre post. ss = pre @ s # post \<and> (\<forall>t \<in> set pre. he_key (bs ! t) \<noteq> NULL_KEY))"

definition slots_ok :: "'v HashEntry list \<Rightarrow> bool" where
  "slots_ok bs \<longleftrightarrow> (\<forall>s < length bs. \<forall>k. he_key (bs ! s) = KEY k \<longrightarrow> reached bs (probes (length bs) k) s
     \<and> (\<forall>t < length bs. he_key (bs ! t) = KEY k \<longrightarrow> t = s))"

definition non_null :: "'v HashEntry list \<Rightarrow> nat" where
  "non_null bs = length (filter (\<lambda>e. he_key e \<noteq> NULL_KEY) bs)"

text \<open>The invariant: a power of two of slots, not all used, every key once and on its search path.\<close>

definition hm_ok :: "'v HashMap \<Rightarrow> bool" where
  "hm_ok m \<longleftrightarrow> (hm_buckets m = [] \<and> hm_used m = 0)
     \<or> (\<exists>k. length (hm_buckets m) = 2 ^ k \<and> 4 \<le> k \<and> k \<le> 30) \<and> hm_used m = non_null (hm_buckets m)
       \<and> hm_used m < length (hm_buckets m) \<and> slots_ok (hm_buckets m)"

definition no_tombstones :: "'v HashMap \<Rightarrow> bool" where
  "no_tombstones m \<longleftrightarrow> (\<forall>e \<in> set (hm_buckets m). he_key e \<noteq> TOMBSTONE)"

section \<open>Searching\<close>

lemma probes_dvd:
  assumes "k \<le> 30"
  shows "probes (2 ^ k) key = map (\<lambda>i. (unat (fnv_hash key) + i) mod 2 ^ k) [0..<2 ^ k]"
proof -
  have "unat ((fnv_hash key + of_nat i) mod of_nat (2 ^ k)) = (unat (fnv_hash key) + i) mod 2 ^ k" for i
  proof -
    have "(2 :: nat) ^ k < 2 ^ 64" by (rule power_strict_increasing) (use assms in simp_all)
    then have "unat (of_nat (2 ^ k) :: u64) = 2 ^ k" by (subst unat_of_nat) simp
    moreover have "unat (fnv_hash key + of_nat i) = (unat (fnv_hash key) + i) mod 2 ^ 64"
      by (simp add: unat_word_ariths unat_of_nat mod_simps)
    moreover have "(2 :: nat) ^ k dvd 2 ^ 64" by (rule le_imp_power_dvd) (use assms in simp)
    ultimately show ?thesis by (simp add: unat_mod_distrib mod_mod_cancel)
  qed
  then show ?thesis by (simp add: probes_def)
qed

lemma set_probes:
  assumes "k \<le> 30"
  shows "set (probes (2 ^ k) key) = {0..<2 ^ k}"
proof -
  let ?h = "unat (fnv_hash key)" and ?n = "(2 :: nat) ^ k"
  have "\<exists>i < ?n. t = (?h + i) mod ?n" if "t < ?n" for t
  proof (intro exI conjI)
    let ?i = "(t + (?n - ?h mod ?n)) mod ?n"
    show "?i < ?n" by simp
    have "(?h + ?i) mod ?n = (?h mod ?n + (t + (?n - ?h mod ?n))) mod ?n" by (simp add: mod_simps)
    also have "?h mod ?n + (t + (?n - ?h mod ?n)) = t + ?n"
    proof -
      have "?h mod ?n < ?n" by simp
      then show ?thesis by linarith
    qed
    finally show "t = (?h + ?i) mod ?n" using that by simp
  qed
  then show ?thesis unfolding probes_dvd [OF assms] by (fastforce simp: image_iff)
qed

lemma probes_complete:
  assumes "hm_ok m" "hm_buckets m \<noteq> []"
  shows "set (probes (length (hm_buckets m)) key) = {0..<length (hm_buckets m)}"
  using assms set_probes by (auto simp: hm_ok_def)

lemma non_null_free:
  assumes "non_null bs < length bs"
  shows "\<exists>s < length bs. he_key (bs ! s) = NULL_KEY"
proof (rule ccontr)
  assume "\<not> ?thesis"
  then have "filter (\<lambda>e. he_key e \<noteq> NULL_KEY) bs = bs" by (auto simp: filter_id_conv in_set_conv_nth)
  with assms show False by (simp add: non_null_def)
qed

lemma free_slot:
  assumes "hm_ok m" "hm_buckets m \<noteq> []"
  shows "\<exists>s \<in> set (probes (length (hm_buckets m)) key). he_key (hm_buckets m ! s) = NULL_KEY"
  using assms non_null_free [of "hm_buckets m"] by (auto simp: probes_complete hm_ok_def)

text \<open>Reading a table as a map.\<close>

lemma hm_entries_set: "(k, v) \<in> set (hm_entries bs) \<longleftrightarrow> (\<exists>s < length bs. he_key (bs ! s) = KEY k \<and> he_val (bs ! s) = v)"
proof -
  have "(k, v) \<in> set (hm_entries bs) \<longleftrightarrow> (\<exists>e \<in> set bs. he_key e = KEY k \<and> he_val e = v)"
    by (auto simp: hm_entries_def split: hkey.splits) metis
  then show ?thesis by (metis in_set_conv_nth)
qed

lemma hm_entries_Nil [simp]: "hm_entries [] = []"
  by (simp add: hm_entries_def)

lemma hm_entries_Cons [simp]: "hm_entries (e # es) = (case he_key e of KEY k \<Rightarrow> [(k, he_val e)] | _ \<Rightarrow> []) @ hm_entries es"
  by (simp add: hm_entries_def)

lemma hm_map_Some:
  assumes "slots_ok (hm_buckets m)" "s < length (hm_buckets m)" "he_key (hm_buckets m ! s) = KEY k"
  shows "hm_map m k = Some (he_val (hm_buckets m ! s))"
proof -
  let ?bs = "hm_buckets m"
  have "(k, he_val (?bs ! s)) \<in> set (hm_entries ?bs)" using assms(2,3) by (auto simp: hm_entries_set)
  then obtain v where v: "map_of (hm_entries ?bs) k = Some v" by (metis map_of_eq_None_iff not_Some_eq fst_conv image_eqI)
  then obtain t where "t < length ?bs" "he_key (?bs ! t) = KEY k" "he_val (?bs ! t) = v"
    using map_of_SomeD [OF v] by (auto simp: hm_entries_set)
  then show ?thesis using assms v unfolding slots_ok_def hm_map_def by blast
qed

lemma hm_map_None: "hm_map m k = None \<longleftrightarrow> (\<forall>s < length (hm_buckets m). he_key (hm_buckets m ! s) \<noteq> KEY k)"
proof -
  have "hm_map m k = None \<longleftrightarrow> (\<forall>v. (k, v) \<notin> set (hm_entries (hm_buckets m)))"
    by (force simp: hm_map_def map_of_eq_None_iff)
  then show ?thesis by (auto simp: hm_entries_set)
qed

lemma hm_map_eq_Some:
  assumes "slots_ok (hm_buckets m)"
  shows "hm_map m k = Some v \<longleftrightarrow> (\<exists>s < length (hm_buckets m). he_key (hm_buckets m ! s) = KEY k \<and> he_val (hm_buckets m ! s) = v)"
proof
  assume v: "hm_map m k = Some v"
  then obtain s where s: "s < length (hm_buckets m)" "he_key (hm_buckets m ! s) = KEY k" by (metis hm_map_None option.distinct(1))
  then show "\<exists>s < length (hm_buckets m). he_key (hm_buckets m ! s) = KEY k \<and> he_val (hm_buckets m ! s) = v"
    using hm_map_Some [OF assms s] v by auto
qed (use hm_map_Some [OF assms] in auto)

lemma hm_map_eqI:
  assumes "slots_ok (hm_buckets m)" "\<And>k v. f k = Some v \<longleftrightarrow>
    (\<exists>s < length (hm_buckets m). he_key (hm_buckets m ! s) = KEY k \<and> he_val (hm_buckets m ! s) = v)"
  shows "hm_map m = f"
  by (rule ext) (metis hm_map_eq_Some [OF assms(1)] assms(2) not_Some_eq)

text \<open>The loops.\<close>

lemma get_loop_free: "\<exists>s \<in> set ss. he_key (bs ! s) = NULL_KEY \<Longrightarrow> \<forall>s \<in> set ss. he_key (bs ! s) \<noteq> KEY k \<Longrightarrow>
   get_loop bs k ss = Val None"
  by (induction ss) (auto simp: match_def)

lemma get_loop_reached:
  assumes "\<forall>t \<in> set pre. he_key (bs ! t) \<noteq> NULL_KEY" "he_key (bs ! s) = KEY k"
  shows "\<exists>t \<in> set (pre @ [s]). he_key (bs ! t) = KEY k \<and> get_loop bs k (pre @ s # post) = Val (Some t)"
  using assms by (induction pre) (auto simp: match_def)

lemma get_entry_cases:
  assumes "hm_ok m"
  obtains "hm_map m k = None" "get_entry m k = Val None"
  | s where "s < length (hm_buckets m)" "he_key (hm_buckets m ! s) = KEY k" "get_entry m k = Val (Some s)"
      "hm_map m k = Some (he_val (hm_buckets m ! s))"
proof (cases "hm_map m k")
  case None
  have "get_entry m k = Val None"
  proof (cases "hm_buckets m = []")
    case False
    from None have "\<forall>s \<in> set (probes (length (hm_buckets m)) k). he_key (hm_buckets m ! s) \<noteq> KEY k"
      using probes_complete [OF assms False] by (auto simp: hm_map_None)
    from get_loop_free [OF free_slot [OF assms False] this] False show ?thesis by (simp add: get_entry_def)
  qed (simp add: get_entry_def)
  with None show thesis using that(1) by blast
next
  case (Some v)
  then obtain s where s: "s < length (hm_buckets m)" "he_key (hm_buckets m ! s) = KEY k" by (metis hm_map_None option.distinct(1))
  then have ne: "hm_buckets m \<noteq> []" by auto
  with assms have ok: "slots_ok (hm_buckets m)" by (auto simp: hm_ok_def)
  then have "reached (hm_buckets m) (probes (length (hm_buckets m)) k) s"
    using s unfolding slots_ok_def by blast
  then obtain pre post where p: "probes (length (hm_buckets m)) k = pre @ s # post"
    "\<forall>t \<in> set pre. he_key (hm_buckets m ! t) \<noteq> NULL_KEY" unfolding reached_def by blast
  obtain t where t: "t \<in> set (pre @ [s])" "he_key (hm_buckets m ! t) = KEY k" "get_entry m k = Val (Some t)"
    using get_loop_reached [OF p(2) s(2)] ne by (auto simp: get_entry_def p(1))
  have "t \<in> set (probes (length (hm_buckets m)) k)" using t(1) by (auto simp: p(1))
  then have "t < length (hm_buckets m)" using probes_complete [OF assms ne] by simp
  then show thesis using that(2) [OF _ t(2,3)] hm_map_Some [OF ok _ t(2)] by blast
qed

section \<open>Inserting\<close>

lemma insert_loop_new:
  assumes "\<forall>s \<in> set ss. he_key (hm_buckets m ! s) \<noteq> KEY k" "\<exists>s \<in> set ss. he_key (hm_buckets m ! s) = NULL_KEY"
  shows "\<exists>s \<in> set ss. reached (hm_buckets m) ss s \<and> he_key (hm_buckets m ! s) \<in> {NULL_KEY, TOMBSTONE}
    \<and> insert_loop m k ss = Val ((set_key s k m)\<lparr>hm_used := hm_used m
        + (if he_key (hm_buckets m ! s) = NULL_KEY then 1 else 0)\<rparr>, s)"
  using assms
proof (induction ss)
  case (Cons a ss)
  let ?bs = "hm_buckets m"
  show ?case
  proof (cases "he_key (?bs ! a) \<in> {NULL_KEY, TOMBSTONE}")
    case True
    then have "reached ?bs (a # ss) a" "insert_loop m k (a # ss) = Val ((set_key a k m)\<lparr>hm_used := hm_used m
        + (if he_key (?bs ! a) = NULL_KEY then 1 else 0)\<rparr>, a)"
      by (auto simp: reached_def match_def set_key_def intro: exI [of _ "[]"])
    with True show ?thesis by auto
  next
    case False
    then obtain s where s: "s \<in> set ss" "reached ?bs ss s" "he_key (?bs ! s) \<in> {NULL_KEY, TOMBSTONE}"
      "insert_loop m k ss = Val ((set_key s k m)\<lparr>hm_used := hm_used m
        + (if he_key (?bs ! s) = NULL_KEY then 1 else 0)\<rparr>, s)" using Cons by auto
    from s(2) obtain pre post where "ss = pre @ s # post" "\<forall>t \<in> set pre. he_key (?bs ! t) \<noteq> NULL_KEY"
      unfolding reached_def by blast
    then have "a # ss = (a # pre) @ s # post" "\<forall>t \<in> set (a # pre). he_key (?bs ! t) \<noteq> NULL_KEY" using False by simp_all
    then have "reached ?bs (a # ss) s" unfolding reached_def by blast
    moreover have "insert_loop m k (a # ss) = insert_loop m k ss" using False Cons.prems(1) by (simp add: match_def)
    ultimately show ?thesis using s by auto
  qed
qed simp

lemma insert_loop_present:
  assumes "\<forall>t \<in> set pre. he_key (hm_buckets m ! t) \<noteq> NULL_KEY \<and> he_key (hm_buckets m ! t) \<noteq> TOMBSTONE"
    "he_key (hm_buckets m ! s) = KEY k"
  shows "\<exists>t \<in> set (pre @ [s]). he_key (hm_buckets m ! t) = KEY k \<and> insert_loop m k (pre @ s # post) = Val (m, t)"
  using assms by (induction pre) (auto simp: match_def)

text \<open>Writing a key into a slot on its search path.\<close>

lemma reached_mono:
  "reached bs ss s \<Longrightarrow> \<forall>t \<in> set ss. he_key (bs ! t) \<noteq> NULL_KEY \<longrightarrow> he_key (bs' ! t) \<noteq> NULL_KEY \<Longrightarrow> reached bs' ss s"
  unfolding reached_def by fastforce

lemma slots_okD:
  "slots_ok bs \<Longrightarrow> s < length bs \<Longrightarrow> he_key (bs ! s) = KEY k \<Longrightarrow> reached bs (probes (length bs) k) s"
  "slots_ok bs \<Longrightarrow> s < length bs \<Longrightarrow> he_key (bs ! s) = KEY k \<Longrightarrow> t < length bs \<Longrightarrow> he_key (bs ! t) = KEY k \<Longrightarrow> t = s"
  unfolding slots_ok_def by blast+

lemma slots_ok_write:
  assumes ok: "slots_ok bs" and s: "s < length bs" "reached bs (probes (length bs) k) s"
    and new: "\<forall>t < length bs. he_key (bs ! t) = KEY k \<longrightarrow> t = s" and e: "he_key e = KEY k"
  shows "slots_ok (bs[s := e])"
proof -
  have r: "reached (bs[s := e]) ss t" if "reached bs ss t" for ss t
    by (rule reached_mono [OF that]) (use e s(1) in \<open>auto simp: nth_list_update\<close>)
  have key: "t = s \<and> k' = k \<or> t \<noteq> s \<and> k' \<noteq> k \<and> he_key (bs ! t) = KEY k'"
    if "t < length bs" "he_key (bs[s := e] ! t) = KEY k'" for t k'
    using that new e by (cases "t = s") auto
  show ?thesis
    unfolding slots_ok_def length_list_update
  proof (intro allI impI conjI)
    fix t k' assume t: "t < length bs" "he_key (bs[s := e] ! t) = KEY k'"
    show "reached (bs[s := e]) (probes (length bs) k') t"
      using key [OF t] r s(2) slots_okD(1) [OF ok t(1)] by blast
    fix u assume u: "u < length bs" "he_key (bs[s := e] ! u) = KEY k'"
    show "u = t" using key [OF t] key [OF u] slots_okD(2) [OF ok t(1) _ u(1)] by blast
  qed
qed

lemma slots_ok_delete:
  assumes ok: "slots_ok bs" and s: "s < length bs"
  shows "slots_ok (bs[s := (bs ! s)\<lparr>he_key := TOMBSTONE\<rparr>])"
proof -
  let ?e = "(bs ! s)\<lparr>he_key := TOMBSTONE\<rparr>"
  have r: "reached (bs[s := ?e]) ss t" if "reached bs ss t" for ss t
    by (rule reached_mono [OF that]) (use s in \<open>auto simp: nth_list_update\<close>)
  show ?thesis
    unfolding slots_ok_def
  proof (intro allI impI conjI)
    fix t k' assume t: "t < length (bs[s := ?e])" "he_key (bs[s := ?e] ! t) = KEY k'"
    then have "t \<noteq> s" using s by auto
    with t show "reached (bs[s := ?e]) (probes (length (bs[s := ?e])) k') t"
      using ok r unfolding slots_ok_def by auto
    fix u assume u: "u < length (bs[s := ?e])" "he_key (bs[s := ?e] ! u) = KEY k'"
    then have "u \<noteq> s" using s by auto
    with t u \<open>t \<noteq> s\<close> show "u = t" using ok unfolding slots_ok_def by auto
  qed
qed

lemma non_null_append [simp]: "non_null (xs @ ys) = non_null xs + non_null ys"
  by (simp add: non_null_def)

lemma non_null_Cons [simp]: "non_null (e # es) = (if he_key e \<noteq> NULL_KEY then 1 else 0) + non_null es"
  by (simp add: non_null_def)

lemma non_null_update:
  assumes "s < length bs"
  shows "non_null (bs[s := e]) = non_null bs + (if he_key e \<noteq> NULL_KEY then 1 else 0) - (if he_key (bs ! s) \<noteq> NULL_KEY then 1 else 0)"
proof -
  have "bs = take s bs @ bs ! s # drop (Suc s) bs" using assms by (rule id_take_nth_drop)
  then have "non_null bs = non_null (take s bs) + (if he_key (bs ! s) \<noteq> NULL_KEY then 1 else 0) + non_null (drop (Suc s) bs)"
    by (metis (no_types) non_null_Cons non_null_append add.assoc)
  moreover have "non_null (bs[s := e]) = non_null (take s bs) + (if he_key e \<noteq> NULL_KEY then 1 else 0) + non_null (drop (Suc s) bs)"
    using assms by (simp add: upd_conv_take_nth_drop)
  ultimately show ?thesis by simp
qed

definition put_at :: "nat \<Rightarrow> u8 list \<Rightarrow> 'v option \<Rightarrow> 'v HashMap \<Rightarrow> 'v HashMap" where
  "put_at s k v m = \<lparr>hm_buckets = (hm_buckets m)[s := \<lparr>he_key = KEY k, he_val = v\<rparr>],
     hm_used = hm_used m + (if he_key (hm_buckets m ! s) = NULL_KEY then 1 else 0)\<rparr>"

definition clean :: "'v HashMap \<Rightarrow> u8 list \<Rightarrow> bool" where
  "clean m k \<longleftrightarrow> hm_map m k = None \<or> no_tombstones m"

lemma entry_eq:
  "(e :: 'v HashEntry)\<lparr>he_key := KEY k, he_val := v\<rparr> = \<lparr>he_key = KEY k, he_val = v\<rparr>"
  "he_key e = KEY k \<Longrightarrow> e\<lparr>he_val := v\<rparr> = \<lparr>he_key = KEY k, he_val = v\<rparr>"
  by (cases e; simp)+

lemma hashmap_eq:
  "(m :: 'v HashMap)\<lparr>hm_buckets := bs, hm_used := n\<rparr> = \<lparr>hm_buckets = bs, hm_used = n\<rparr>"
  "m\<lparr>hm_used := n, hm_buckets := bs\<rparr> = \<lparr>hm_buckets = bs, hm_used = n\<rparr>"
  "m\<lparr>hm_buckets := bs\<rparr> = \<lparr>hm_buckets = bs, hm_used = hm_used m\<rparr>"
  by (cases m; simp)+

lemma hm_okE:
  assumes "hm_ok m" "hm_buckets m \<noteq> []"
  obtains j where "length (hm_buckets m) = 2 ^ j" "4 \<le> j" "j \<le> 30" "hm_used m = non_null (hm_buckets m)"
    "hm_used m < length (hm_buckets m)" "slots_ok (hm_buckets m)"
  using assms unfolding hm_ok_def by blast

lemma hm_okI:
  "length bs = 2 ^ j \<Longrightarrow> 4 \<le> j \<Longrightarrow> j \<le> 30 \<Longrightarrow> n = non_null bs \<Longrightarrow> n < length bs \<Longrightarrow> slots_ok bs \<Longrightarrow>
   hm_ok \<lparr>hm_buckets = bs, hm_used = n\<rparr>"
  unfolding hm_ok_def by auto

text \<open>Where an insertion writes: on the search path, over the key itself when it is in the table.\<close>

definition put_slot :: "'v HashMap \<Rightarrow> u8 list \<Rightarrow> nat \<Rightarrow> bool" where
  "put_slot m k s \<longleftrightarrow> s < length (hm_buckets m) \<and> reached (hm_buckets m) (probes (length (hm_buckets m)) k) s
     \<and> (if hm_map m k = None then he_key (hm_buckets m ! s) \<in> {NULL_KEY, TOMBSTONE} else he_key (hm_buckets m ! s) = KEY k)"

lemma insert_loop_slot:
  assumes "hm_ok m" "hm_buckets m \<noteq> []" "clean m k"
  obtains s m1 where "put_slot m k s" "insert_loop m k (probes (length (hm_buckets m)) k) = Val (m1, s)"
    "m1\<lparr>hm_buckets := (hm_buckets m1)[s := (hm_buckets m1 ! s)\<lparr>he_val := v\<rparr>]\<rparr> = put_at s k v m"
proof (cases "hm_map m k = None")
  case True
  then have "\<forall>s \<in> set (probes (length (hm_buckets m)) k). he_key (hm_buckets m ! s) \<noteq> KEY k"
    using probes_complete [OF assms(1,2)] by (auto simp: hm_map_None)
  from insert_loop_new [OF this free_slot [OF assms(1,2)]] obtain s where
    s: "s \<in> set (probes (length (hm_buckets m)) k)" "reached (hm_buckets m) (probes (length (hm_buckets m)) k) s"
      "he_key (hm_buckets m ! s) \<in> {NULL_KEY, TOMBSTONE}"
      "insert_loop m k (probes (length (hm_buckets m)) k) = Val ((set_key s k m)\<lparr>hm_used := hm_used m
        + (if he_key (hm_buckets m ! s) = NULL_KEY then 1 else 0)\<rparr>, s)" by blast
  then have "s < length (hm_buckets m)" using probes_complete [OF assms(1,2)] by simp
  then show thesis
    using True s(2,3) by (intro that [OF _ s(4)]) (auto simp: put_slot_def put_at_def set_key_def entry_eq hashmap_eq)
next
  case False
  then obtain s where s: "s < length (hm_buckets m)" "he_key (hm_buckets m ! s) = KEY k" by (metis hm_map_None)
  have ok: "slots_ok (hm_buckets m)" using assms(1,2) by (auto simp: hm_ok_def)
  obtain pre post where p: "probes (length (hm_buckets m)) k = pre @ s # post"
    "\<forall>t \<in> set pre. he_key (hm_buckets m ! t) \<noteq> NULL_KEY"
    using slots_okD(1) [OF ok s] unfolding reached_def by blast
  have pre: "t < length (hm_buckets m)" if "t \<in> set pre" for t
    using that probes_complete [OF assms(1,2), of k] by (auto simp: p(1))
  have "\<forall>t \<in> set pre. he_key (hm_buckets m ! t) \<noteq> NULL_KEY \<and> he_key (hm_buckets m ! t) \<noteq> TOMBSTONE"
    using False assms(3) p(2) pre by (auto simp: clean_def no_tombstones_def)
  from insert_loop_present [where m = m and k = k, OF this s(2), of post] obtain t where
    t: "t \<in> set (pre @ [s])" "he_key (hm_buckets m ! t) = KEY k"
      "insert_loop m k (probes (length (hm_buckets m)) k) = Val (m, t)" unfolding p(1) by blast
  then have lt: "t < length (hm_buckets m)" using s(1) pre by auto
  with t(2) False slots_okD(1) [OF ok lt t(2)] show thesis
    by (intro that [OF _ t(3)]) (simp_all add: put_slot_def put_at_def entry_eq hashmap_eq)
qed

lemma put_at_ok:
  assumes ok: "hm_ok m" "hm_buckets m \<noteq> []" and room: "Suc (hm_used m) < length (hm_buckets m)" and s: "put_slot m k s"
  shows "hm_ok (put_at s k v m)" "hm_map (put_at s k v m) = (hm_map m)(k \<mapsto> v)"
    "length (hm_buckets (put_at s k v m)) = length (hm_buckets m)"
    "no_tombstones m \<Longrightarrow> no_tombstones (put_at s k v m)
      \<and> hm_used (put_at s k v m) = hm_used m + (if hm_map m k = None then 1 else 0)"
proof -
  let ?bs = "hm_buckets m" and ?e = "\<lparr>he_key = KEY k, he_val = v\<rparr>"
  have sl: "s < length ?bs" "reached ?bs (probes (length ?bs) k) s" using s by (simp_all add: put_slot_def)
  obtain j where j: "length ?bs = 2 ^ j" "4 \<le> j" "j \<le> 30" "hm_used m = non_null ?bs" and so: "slots_ok ?bs"
    by (rule hm_okE [OF ok])
  have new: "\<forall>t < length ?bs. he_key (?bs ! t) = KEY k \<longrightarrow> t = s"
  proof (cases "hm_map m k = None")
    case False
    then show ?thesis using s slots_okD(2) [OF so sl(1)] unfolding put_slot_def by auto
  qed (simp add: hm_map_None)
  have so': "slots_ok (?bs[s := ?e])" by (rule slots_ok_write [OF so sl new]) simp
  have "non_null (?bs[s := ?e]) = hm_used m + (if he_key (?bs ! s) = NULL_KEY then 1 else 0)"
    unfolding non_null_update [OF sl(1)] j(4) by (simp add: non_null_update [OF sl(1)])
  then show "hm_ok (put_at s k v m)"
    unfolding put_at_def by (intro hm_okI [OF _ j(2,3) _ _ so']) (use j(1) room in simp_all)
  show "hm_map (put_at s k v m) = (hm_map m)(k \<mapsto> v)"
  proof (rule hm_map_eqI)
    show "slots_ok (hm_buckets (put_at s k v m))" using so' by (simp add: put_at_def)
    fix k' v'
    show "((hm_map m)(k \<mapsto> v)) k' = Some v' \<longleftrightarrow>
      (\<exists>t < length (hm_buckets (put_at s k v m)). he_key (hm_buckets (put_at s k v m) ! t) = KEY k'
        \<and> he_val (hm_buckets (put_at s k v m) ! t) = v')"
    proof (cases "k' = k")
      case True
      have "he_key (?bs[s := ?e] ! t) = KEY k \<longleftrightarrow> t = s" if "t < length ?bs" for t
        using that new sl(1) by (cases "t = s") auto
      with True sl(1) show ?thesis by (auto simp: put_at_def)
    next
      case False
      have "he_key (?bs[s := ?e] ! t) = KEY k' \<longleftrightarrow> he_key (?bs ! t) = KEY k' \<and> t \<noteq> s" if "t < length ?bs" for t
        using that False sl(1) by (cases "t = s") auto
      moreover have "he_key (?bs ! s) \<noteq> KEY k'"
        using s False by (auto simp: put_slot_def split: if_splits)
      ultimately show ?thesis using False sl(1) by (auto simp: put_at_def hm_map_eq_Some [OF so] nth_list_update) metis
    qed
  qed
  show "length (hm_buckets (put_at s k v m)) = length ?bs" by (simp add: put_at_def)
  assume nt: "no_tombstones m"
  then have "he_key (?bs ! s) \<noteq> TOMBSTONE" using sl(1) by (simp add: no_tombstones_def)
  moreover have "no_tombstones (put_at s k v m)"
    using nt set_update_subset_insert [of ?bs s ?e] by (auto simp: no_tombstones_def put_at_def)
  ultimately show "no_tombstones (put_at s k v m) \<and> hm_used (put_at s k v m) = hm_used m + (if hm_map m k = None then 1 else 0)"
    using s by (cases "hm_map m k = None") (simp_all add: put_slot_def put_at_def)
qed

section \<open>Rehashing\<close>

lemma load_percent_eq:
  "n \<le> 2 ^ 23 \<Longrightarrow> 0 < cap \<Longrightarrow> load_percent n cap = Val (n * 100 div cap)"
  by (simp add: load_percent_def)

text \<open>At most one doubling makes room.\<close>

lemma rehash_capacity_room:
  assumes "nkeys < cap" "cap = 2 ^ j" "4 \<le> j" "j \<le> 23"
  obtains i where "rehash_capacity nkeys cap = Val (2 ^ i)" "j \<le> i" "i \<le> Suc j" "nkeys * 2 \<le> 2 ^ i"
proof -
  have cap: "0 < cap" "cap \<le> 2 ^ 23" using assms(2,4) power_increasing [of j 23 "2 :: nat"] by simp_all
  then have n: "nkeys \<le> 2 ^ 23" using assms(1) by simp
  show thesis
  proof (cases "nkeys * 100 div cap \<ge> 50")
    case True
    have "nkeys * 100 div (cap * 2) < 50" using assms(1) cap by (simp add: less_mult_imp_div_less)
    then have "rehash_capacity nkeys (cap * 2) = Val (cap * 2)"
      using cap n by (subst rehash_capacity.simps) (simp add: load_percent_eq)
    then have "rehash_capacity nkeys cap = Val (cap * 2)"
      using True cap n by (subst rehash_capacity.simps) (simp add: load_percent_eq)
    then show ?thesis using that [of "Suc j"] assms by (simp add: mult.commute)
  next
    case False
    then have "rehash_capacity nkeys cap = Val cap"
      using cap n by (subst rehash_capacity.simps) (simp add: load_percent_eq)
    moreover have "nkeys * 2 \<le> cap"
      using False cap by (simp add: not_le div_less_iff_less_mult)
    ultimately show ?thesis using that [of j] assms by simp
  qed
qed

text \<open>An insertion that does not rehash.\<close>

lemma put_depth_room:
  assumes ok: "hm_ok m" "hm_buckets m \<noteq> []" and u: "hm_used m * 100 div length (hm_buckets m) < 70"
    and len: "length (hm_buckets m) \<le> 2 ^ 24" "hm_used m \<le> 2 ^ 23" and c: "clean m k"
  obtains s where "put_slot m k s" "put_depth (Suc d) m k v = Val (put_at s k v m)" "Suc (hm_used m) < length (hm_buckets m)"
proof -
  obtain j where j: "length (hm_buckets m) = 2 ^ j" "4 \<le> j" by (rule hm_okE [OF ok])
  have "(2 :: nat) ^ 4 \<le> 2 ^ j" using j(2) by (intro power_increasing) simp_all
  then have 16: "16 \<le> length (hm_buckets m)" by (simp add: j(1))
  then have room: "Suc (hm_used m) < length (hm_buckets m)"
    using u div_less_iff_less_mult [of "length (hm_buckets m)" "hm_used m * 100" 70] by linarith
  obtain s m1 where s: "put_slot m k s" "insert_loop m k (probes (length (hm_buckets m)) k) = Val (m1, s)"
    "m1\<lparr>hm_buckets := (hm_buckets m1)[s := (hm_buckets m1 ! s)\<lparr>he_val := v\<rparr>]\<rparr> = put_at s k v m"
    by (rule insert_loop_slot [OF ok c])
  have "load_percent (hm_used m) (length (hm_buckets m)) = Val (hm_used m * 100 div length (hm_buckets m))"
    by (rule load_percent_eq [OF len(2)]) (use 16 in linarith)
  then have "put_depth (Suc d) m k v = Val (put_at s k v m)"
    using ok(2) u s(2) by (simp add: get_or_insert_entry_def s(3))
  then show thesis using that s(1) room by blast
qed

lemma hm_ok_fresh:
  "4 \<le> i \<Longrightarrow> i \<le> 30 \<Longrightarrow> hm_ok \<lparr>hm_buckets = replicate (2 ^ i) empty_entry, hm_used = 0\<rparr>"
  by (rule hm_okI) (simp_all add: slots_ok_def empty_entry_def non_null_def)

lemma hm_map_fresh [simp]: "hm_map \<lparr>hm_buckets = replicate n empty_entry, hm_used = u\<rparr> = Map.empty"
  by (rule ext) (simp add: hm_map_None empty_entry_def)

text \<open>The loop of \<^verbatim>\<open>rehash\<close> over what is left of the old table.\<close>

lemma rehash_loop:
  assumes "hm_ok m2" "no_tombstones m2" "length (hm_buckets m2) = 2 ^ i" "4 \<le> i" "i \<le> 24"
    and "(hm_used m2 + length (filter entry_live es)) * 2 \<le> 2 ^ i"
    and "distinct (map fst (hm_entries es))" "\<forall>k \<in> fst ` set (hm_entries es). hm_map m2 k = None"
  shows "\<exists>m3. res_fold (\<lambda>ent m2. case he_key ent of KEY key \<Rightarrow> put_depth (Suc d) m2 key (he_val ent) | _ \<Rightarrow> Val m2) es m2 = Val m3
    \<and> hm_ok m3 \<and> no_tombstones m3 \<and> length (hm_buckets m3) = 2 ^ i
    \<and> hm_used m3 = hm_used m2 + length (filter entry_live es) \<and> hm_map m3 = hm_map m2 ++ map_of (hm_entries es)"
  using assms
proof (induction es arbitrary: m2)
  case Nil
  then show ?case by simp
next
  case (Cons e es)
  show ?case
  proof (cases "he_key e")
    case (KEY k)
    have l: "entry_live e" by (simp add: entry_live_def KEY)
    have new: "hm_map m2 k = None" using Cons.prems(8) by (simp add: KEY)
    have ne: "hm_buckets m2 \<noteq> []" using Cons.prems(3) by auto
    have i24: "(2 :: nat) ^ i \<le> 2 ^ 24" by (rule power_increasing) (use Cons.prems(5) in simp_all)
    have "hm_used m2 * 100 div length (hm_buckets m2) < 70"
      using Cons.prems(3,6) l by (simp add: div_less_iff_less_mult)
    moreover have "hm_used m2 \<le> 2 ^ 23" using Cons.prems(6) i24 by simp
    ultimately obtain s where s: "put_slot m2 k s" "put_depth (Suc d) m2 k (he_val e) = Val (put_at s k (he_val e) m2)"
      "Suc (hm_used m2) < length (hm_buckets m2)"
      using put_depth_room [OF Cons.prems(1) ne _ _ _ ] i24 Cons.prems(3) new by (metis clean_def)
    note P = put_at_ok [OF Cons.prems(1) ne s(3,1), of "he_val e"]
    have d: "k \<notin> fst ` set (hm_entries es)" "distinct (map fst (hm_entries es))"
      using Cons.prems(7) by (simp_all add: KEY)
    have "\<exists>m3. res_fold (\<lambda>ent m2. case he_key ent of KEY key \<Rightarrow> put_depth (Suc d) m2 key (he_val ent) | _ \<Rightarrow> Val m2)
        es (put_at s k (he_val e) m2) = Val m3
      \<and> hm_ok m3 \<and> no_tombstones m3 \<and> length (hm_buckets m3) = 2 ^ i
      \<and> hm_used m3 = hm_used (put_at s k (he_val e) m2) + length (filter entry_live es)
      \<and> hm_map m3 = hm_map (put_at s k (he_val e) m2) ++ map_of (hm_entries es)"
      by (rule Cons.IH) (use P Cons.prems(2-6,8) l new d in \<open>auto simp: KEY\<close>)
    then obtain m3 where m3: "res_fold (\<lambda>ent m2. case he_key ent of KEY key \<Rightarrow> put_depth (Suc d) m2 key (he_val ent) | _ \<Rightarrow> Val m2)
        es (put_at s k (he_val e) m2) = Val m3" "hm_ok m3" "no_tombstones m3" "length (hm_buckets m3) = 2 ^ i"
      "hm_used m3 = hm_used (put_at s k (he_val e) m2) + length (filter entry_live es)"
      "hm_map m3 = hm_map (put_at s k (he_val e) m2) ++ map_of (hm_entries es)" by blast
    have "hm_map m3 = (hm_map m2 ++ map_of (hm_entries es))(k \<mapsto> he_val e)"
      unfolding m3(6) P(2) by (rule map_add_upd_left) (use d(1) in \<open>simp add: dom_map_of_conv_image_fst\<close>)
    also have "\<dots> = hm_map m2 ++ (map_of (hm_entries es))(k \<mapsto> he_val e)" by (rule map_add_upd [symmetric])
    also have "(map_of (hm_entries es))(k \<mapsto> he_val e) = map_of (hm_entries (e # es))" by (simp add: KEY)
    finally have "hm_map m3 = hm_map m2 ++ map_of (hm_entries (e # es))" .
    moreover have "hm_used m3 = hm_used m2 + length (filter entry_live (e # es))"
      using m3(5) P(4) [OF Cons.prems(2)] l new by simp
    moreover have "res_fold (\<lambda>ent m2. case he_key ent of KEY key \<Rightarrow> put_depth (Suc d) m2 key (he_val ent) | _ \<Rightarrow> Val m2)
        (e # es) m2 = Val m3" using m3(1) s(2) by (simp add: KEY del: put_depth.simps)
    ultimately show ?thesis using m3(2-4) by blast
  qed (use Cons in \<open>auto simp: entry_live_def\<close>)
qed

lemma distinct_entries:
  assumes "\<forall>s < length bs. \<forall>t < length bs. \<forall>k. he_key (bs ! s) = KEY k \<longrightarrow> he_key (bs ! t) = KEY k \<longrightarrow> s = t"
  shows "distinct (map fst (hm_entries bs))"
  using assms
proof (induction bs)
  case (Cons e bs)
  have IH: "distinct (map fst (hm_entries bs))" using Cons.prems by (intro Cons.IH) fastforce
  have "k \<notin> fst ` set (hm_entries bs)" if "he_key e = KEY k" for k
  proof
    assume "k \<in> fst ` set (hm_entries bs)"
    then obtain t where "t < length bs" "he_key (bs ! t) = KEY k" by (auto simp: hm_entries_set)
    then show False using Cons.prems [rule_format, of 0 "Suc t" k] that by simp
  qed
  with IH show ?case by (cases "he_key e") auto
qed simp

lemma length_live: "length (filter entry_live bs) \<le> non_null bs"
  by (induction bs) (auto simp: entry_live_def non_null_def)

lemma rehash_ok:
  assumes ok: "hm_ok m" "hm_buckets m \<noteq> []" and len: "length (hm_buckets m) \<le> 2 ^ 23"
  obtains m' where "rehash (put_depth (Suc d)) m = Val m'" "hm_ok m'" "hm_map m' = hm_map m" "no_tombstones m'"
    "hm_buckets m' \<noteq> []" "length (hm_buckets m') \<le> 2 * length (hm_buckets m)" "hm_used m' * 2 \<le> length (hm_buckets m')"
    "hm_used m' = length (filter entry_live (hm_buckets m))"
proof -
  let ?n = "length (filter entry_live (hm_buckets m))"
  obtain j where j: "length (hm_buckets m) = 2 ^ j" "4 \<le> j" "j \<le> 30" "hm_used m = non_null (hm_buckets m)"
    "hm_used m < length (hm_buckets m)" and so: "slots_ok (hm_buckets m)" by (rule hm_okE [OF ok])
  have "j \<le> 23" using len j(1) by (metis power_le_imp_le_exp one_less_numeral_iff semiring_norm(76))
  note j23 = this
  moreover have "?n < length (hm_buckets m)" using length_live [of "hm_buckets m"] j(4,5) by simp
  ultimately obtain i where i: "rehash_capacity ?n (length (hm_buckets m)) = Val (2 ^ i)" "j \<le> i" "i \<le> Suc j" "?n * 2 \<le> 2 ^ i"
    using rehash_capacity_room j(1,2) by metis
  let ?m2 = "\<lparr>hm_buckets = replicate (2 ^ i) empty_entry, hm_used = 0\<rparr> :: 'a HashMap"
  have "distinct (map fst (hm_entries (hm_buckets m)))"
    using so by (intro distinct_entries) (auto simp: slots_ok_def)
  moreover have "no_tombstones ?m2" by (simp add: no_tombstones_def empty_entry_def)
  moreover have "hm_ok ?m2" by (rule hm_ok_fresh) (use i(2,3) j(2) j23 in simp_all)
  ultimately obtain m3 where m3:
    "res_fold (\<lambda>ent m2. case he_key ent of KEY key \<Rightarrow> put_depth (Suc d) m2 key (he_val ent) | _ \<Rightarrow> Val m2) (hm_buckets m) ?m2 = Val m3"
    "hm_ok m3" "no_tombstones m3" "length (hm_buckets m3) = 2 ^ i" "hm_used m3 = ?n" "hm_map m3 = hm_map m"
    using rehash_loop [of ?m2 i "hm_buckets m" d] i(2-4) j(2) j23 by (auto simp: hm_map_def [of m])
  have "(2 :: nat) ^ i \<le> 2 ^ Suc j" using i(3) by (intro power_increasing) simp_all
  then have "length (hm_buckets m3) \<le> 2 * length (hm_buckets m)" unfolding m3(4) j(1) by simp
  moreover have "rehash (put_depth (Suc d)) m = Val m3"
    unfolding rehash_def Let_def i(1) using m3(1,5) by simp
  moreover have "hm_buckets m3 \<noteq> []" using m3(4) by auto
  ultimately show thesis using that m3 i(4) by metis
qed

section \<open>Refinement\<close>

text \<open>Tables of at least 16 slots grow only when they are seven tenths full.\<close>

definition compact :: "'v HashMap \<Rightarrow> bool" where
  "compact m \<longleftrightarrow> no_tombstones m \<and> length (hm_buckets m) \<le> max 16 (3 * hm_used m)"

lemma live_non_null: "no_tombstones m \<Longrightarrow> length (filter entry_live (hm_buckets m)) = non_null (hm_buckets m)"
  by (auto simp: no_tombstones_def non_null_def entry_live_def intro!: arg_cong [where f = length] filter_cong)

text \<open>The table an insertion works on.\<close>

lemma ready_table:
  assumes ok: "hm_ok m" and len: "length (hm_buckets m) \<le> 2 ^ 23"
  obtains m1 where
    "(if hm_buckets m = [] then Val (m\<lparr>hm_buckets := replicate 16 empty_entry\<rparr>)
      else res_bind (load_percent (hm_used m) (length (hm_buckets m))) (\<lambda>p. if p \<ge> 70 then rehash (put_depth (Suc d)) m else Val m)) = Val m1"
    "hm_ok m1" "hm_buckets m1 \<noteq> []" "hm_used m1 * 100 div length (hm_buckets m1) < 70" "hm_map m1 = hm_map m"
    "m1 = m \<or> no_tombstones m1" "length (hm_buckets m1) \<le> 2 ^ 24" "hm_used m1 \<le> 2 ^ 23" "compact m \<longrightarrow> compact m1"
proof (cases "hm_buckets m = []")
  case True
  let ?m1 = "m\<lparr>hm_buckets := replicate 16 empty_entry\<rparr>"
  have u: "hm_used m = 0" using ok True by (auto simp: hm_ok_def non_null_def)
  then have "hm_ok ?m1" using hm_ok_fresh [of 4] by (simp add: hashmap_eq)
  moreover have "hm_map ?m1 = hm_map m" using True by (simp add: hashmap_eq) (simp add: hm_map_def)
  ultimately show thesis
    using True u by (intro that [of ?m1]) (simp_all add: no_tombstones_def empty_entry_def compact_def)
next
  case False
  obtain j where j: "length (hm_buckets m) = 2 ^ j" "hm_used m = non_null (hm_buckets m)"
    "hm_used m < length (hm_buckets m)" by (rule hm_okE [OF ok False])
  have used: "hm_used m \<le> 2 ^ 23" using j(3) len by simp
  have pos: "0 < length (hm_buckets m)" using False by simp
  show thesis
  proof (cases "hm_used m * 100 div length (hm_buckets m) < 70")
    case True
    show thesis
      by (rule that [of m]) (use True False ok len used in \<open>simp_all add: load_percent_eq\<close>)
  next
    case full: False
    obtain m' where m': "rehash (put_depth (Suc d)) m = Val m'" "hm_ok m'" "hm_map m' = hm_map m" "no_tombstones m'"
      "hm_buckets m' \<noteq> []" "length (hm_buckets m') \<le> 2 * length (hm_buckets m)" "hm_used m' * 2 \<le> length (hm_buckets m')"
      "hm_used m' = length (filter entry_live (hm_buckets m))"
      by (rule rehash_ok [OF ok False len])
    have "70 * length (hm_buckets m) \<le> hm_used m * 100"
      using full pos by (simp add: not_less less_eq_div_iff_mult_less_eq)
    then have "compact m'" if "compact m"
      using that m'(4,6,8) j(2) by (auto simp: compact_def live_non_null)
    moreover have "0 < length (hm_buckets m')" using m'(5) by simp
    then have "hm_used m' * 100 div length (hm_buckets m') < 70"
      using m'(7) div_less_iff_less_mult [of "length (hm_buckets m')" "hm_used m' * 100" 70] by linarith
    moreover have "hm_used m' \<le> 2 ^ 23" using m'(8) length_live [of "hm_buckets m"] j(2) used by simp
    ultimately show thesis
      by (intro that [of m']) (use False full used pos m' len in \<open>simp_all add: load_percent_eq\<close>)
  qed
qed

lemma put_refines:
  assumes ok: "hm_ok m" and len: "length (hm_buckets m) \<le> 2 ^ 23" and c: "clean m k"
  obtains m' where "hashmap_put2 m k v = Val m'" "hm_ok m'" "hm_map m' = (hm_map m)(k \<mapsto> v)"
    "no_tombstones m \<Longrightarrow> no_tombstones m'" "compact m \<Longrightarrow> compact m'"
proof -
  obtain m1 where m1: "(if hm_buckets m = [] then Val (m\<lparr>hm_buckets := replicate 16 empty_entry\<rparr>)
      else res_bind (load_percent (hm_used m) (length (hm_buckets m))) (\<lambda>p. if p \<ge> 70 then rehash (put_depth (Suc 0)) m else Val m)) = Val m1"
    "hm_ok m1" "hm_buckets m1 \<noteq> []" "hm_used m1 * 100 div length (hm_buckets m1) < 70" "hm_map m1 = hm_map m"
    "m1 = m \<or> no_tombstones m1" "length (hm_buckets m1) \<le> 2 ^ 24" "hm_used m1 \<le> 2 ^ 23" "compact m \<longrightarrow> compact m1"
    by (rule ready_table [OF ok len, where d = 0])
  have c1: "clean m1 k" using c m1(5,6) by (auto simp: clean_def)
  obtain s m2 where s: "put_slot m1 k s" "insert_loop m1 k (probes (length (hm_buckets m1)) k) = Val (m2, s)"
    "m2\<lparr>hm_buckets := (hm_buckets m2)[s := (hm_buckets m2 ! s)\<lparr>he_val := v\<rparr>]\<rparr> = put_at s k v m1"
    by (rule insert_loop_slot [OF m1(2,3) c1])
  have room: "Suc (hm_used m1) < length (hm_buckets m1)"
    by (rule put_depth_room [OF m1(2-4,7,8) c1]) assumption
  note P = put_at_ok [OF m1(2,3) room s(1), of v]
  have two: "(2 :: nat) = Suc (Suc 0)" by simp
  have "hashmap_put2 m k v = Val (put_at s k v m1)"
    unfolding hashmap_put2_def two put_depth.simps(2) [of "Suc 0"] get_or_insert_entry_def m1(1)
    using s(2,3) by simp
  moreover have "compact (put_at s k v m1)" if "compact m"
    using P(3,4) m1(9) that by (auto simp: compact_def)
  ultimately show thesis using that P m1(5,6) by metis
qed

lemma get_refines: "hm_ok m \<Longrightarrow> hashmap_get2 m k = Val (case hm_map m k of None \<Rightarrow> None | Some v \<Rightarrow> v)"
  by (erule get_entry_cases [of m k]) (simp_all add: hashmap_get2_def)

lemma delete_refines:
  assumes ok: "hm_ok m"
  obtains m' where "hashmap_delete2 m k = Val m'" "hm_ok m'" "hm_map m' = (hm_map m)(k := None)"
    "length (hm_buckets m') = length (hm_buckets m)"
proof (cases rule: get_entry_cases [OF ok, of k])
  case 1
  have "hm_map m = (hm_map m)(k := None)" using 1(1) by (simp add: fun_upd_idem)
  then show ?thesis using 1 ok by (intro that [of m]) (simp_all add: hashmap_delete2_def)
next
  case (2 s)
  let ?bs = "hm_buckets m" and ?m = "m\<lparr>hm_buckets := (hm_buckets m)[s := (hm_buckets m ! s)\<lparr>he_key := TOMBSTONE\<rparr>]\<rparr>"
  have ne: "?bs \<noteq> []" using 2(1) by auto
  obtain j where j: "length ?bs = 2 ^ j" "4 \<le> j" "j \<le> 30" "hm_used m = non_null ?bs" "hm_used m < length ?bs" and so: "slots_ok ?bs"
    by (rule hm_okE [OF ok ne])
  have so': "slots_ok (hm_buckets ?m)" using slots_ok_delete [OF so 2(1)] by simp
  have "hm_used m = non_null (hm_buckets ?m)" using 2(1,2) j(4) by (simp add: non_null_update)
  moreover have "length (hm_buckets ?m) = 2 ^ j" "hm_used m < length (hm_buckets ?m)" using j(1,5) by simp_all
  ultimately have "hm_ok \<lparr>hm_buckets = hm_buckets ?m, hm_used = hm_used m\<rparr>"
    using so' j(2,3) by (intro hm_okI)
  then have "hm_ok ?m" by (simp add: hashmap_eq)
  moreover have "hm_map ?m = (hm_map m)(k := None)"
  proof (rule hm_map_eqI [OF so'])
    fix k' v
    have key: "he_key (hm_buckets ?m ! t) = KEY k' \<longleftrightarrow> he_key (?bs ! t) = KEY k' \<and> k' \<noteq> k" if "t < length ?bs" for t
    proof (cases "t = s")
      case False
      then have "he_key (?bs ! t) \<noteq> KEY k" using slots_okD(2) [OF so 2(1,2) that] by blast
      with False show ?thesis by auto
    qed (use 2(1,2) in auto)
    have val: "he_val (hm_buckets ?m ! t) = he_val (?bs ! t)" for t
      using 2(1) by (simp add: nth_list_update)
    have len: "length (hm_buckets ?m) = length ?bs" by simp
    show "((hm_map m)(k := None)) k' = Some v \<longleftrightarrow>
        (\<exists>t < length (hm_buckets ?m). he_key (hm_buckets ?m ! t) = KEY k' \<and> he_val (hm_buckets ?m ! t) = v)"
      unfolding val len using key hm_map_eq_Some [OF so, of k' v] by auto
  qed
  ultimately show ?thesis using 2(3) by (intro that [of ?m]) (simp_all add: hashmap_delete2_def)
qed

section \<open>Tables that are only filled\<close>

text \<open>
  What the compiler relies on of a name table that no name is deleted from: \<open>good n t\<close> holds of a table after
  \<open>n\<close> insertions, and below \<open>limit\<close> an insertion succeeds and updates the map \<open>lookup\<close> reads.
\<close>

locale name_table =
  fixes good :: "nat \<Rightarrow> 't \<Rightarrow> bool" and limit :: nat and fresh :: 't
    and lookup :: "'t \<Rightarrow> 'k \<rightharpoonup> 'v" and insert :: "'t \<Rightarrow> 'k \<Rightarrow> 'v \<Rightarrow> ('e, 't) res"
  assumes good_fresh: "good 0 fresh"
    and lookup_fresh: "lookup fresh = Map.empty"
    and insert_good: "good n t \<Longrightarrow> n < limit \<Longrightarrow> \<exists>t'. insert t k v = Val t' \<and> good (Suc n) t' \<and> lookup t' = (lookup t)(k \<mapsto> v)"
begin

lemma fill_from:
  "good n t \<Longrightarrow> n + length kvs \<le> limit \<Longrightarrow>
   \<exists>t'. res_fold (\<lambda>(k, v) t. insert t k v) kvs t = Val t' \<and> good (n + length kvs) t' \<and> lookup t' = lookup t ++ map_of (rev kvs)"
proof (induction kvs arbitrary: n t)
  case (Cons kv kvs)
  obtain k v where kv: "kv = (k, v)" by (cases kv)
  obtain t1 where t1: "insert t k v = Val t1" "good (Suc n) t1" "lookup t1 = (lookup t)(k \<mapsto> v)"
    using insert_good [OF Cons.prems(1)] Cons.prems(2) by auto
  obtain t2 where t2: "res_fold (\<lambda>(k, v) t. insert t k v) kvs t1 = Val t2" "good (Suc n + length kvs) t2"
    "lookup t2 = lookup t1 ++ map_of (rev kvs)" using Cons.IH [OF t1(2)] Cons.prems(2) by auto
  have "lookup t ++ map_of (rev (kv # kvs)) = (lookup t)(k \<mapsto> v) ++ map_of (rev kvs)"
    by (simp add: kv map_add_def fun_eq_iff split: option.split)
  then show ?case using t1(1) t2 by (auto simp: kv t1(3))
qed auto

lemma fill:
  "length kvs \<le> limit \<Longrightarrow>
   \<exists>t. res_fold (\<lambda>(k, v) t. insert t k v) kvs fresh = Val t \<and> good (length kvs) t \<and> lookup t = map_of (rev kvs)"
  using fill_from [OF good_fresh, of kvs] by (simp add: lookup_fresh)

end

text \<open>The hash table is one, for two million names.\<close>

definition table_good :: "nat \<Rightarrow> 'v HashMap \<Rightarrow> bool" where
  "table_good n m \<longleftrightarrow> hm_ok m \<and> compact m \<and> hm_used m \<le> n"

lemma length_entries: "length (hm_entries bs) = length (filter entry_live bs)"
  by (induction bs) (auto simp: entry_live_def split: hkey.split)

lemma used_card:
  assumes "hm_ok m" "no_tombstones m"
  shows "hm_used m = card (dom (hm_map m))"
proof (cases "hm_buckets m = []")
  case True
  then show ?thesis using assms(1) by (auto simp: hm_ok_def non_null_def hm_map_def)
next
  case False
  obtain j where j: "length (hm_buckets m) = 2 ^ j" "hm_used m = non_null (hm_buckets m)" "slots_ok (hm_buckets m)"
    by (rule hm_okE [OF assms(1) False])
  have d: "distinct (map fst (hm_entries (hm_buckets m)))"
    using j(3) by (intro distinct_entries) (auto simp: slots_ok_def)
  have "card (dom (hm_map m)) = card (set (map fst (hm_entries (hm_buckets m))))"
    by (simp add: hm_map_def dom_map_of_conv_image_fst)
  also have "\<dots> = length (hm_entries (hm_buckets m))" using distinct_card [OF d] by simp
  finally show ?thesis using live_non_null [OF assms(2)] j(2) by (simp add: length_entries)
qed

lemma table_put:
  assumes "table_good n m" "n < 2 ^ 21"
  shows "\<exists>m'. hashmap_put2 m k v = Val m' \<and> table_good (Suc n) m' \<and> hm_map m' = (hm_map m)(k \<mapsto> v)"
proof -
  have ok: "hm_ok m" and c: "compact m" "hm_used m \<le> n" using assms(1) by (simp_all add: table_good_def)
  have nt: "no_tombstones m" using c(1) by (simp add: compact_def)
  have "max 16 (3 * hm_used m) \<le> 2 ^ 23" using c(2) assms(2) by simp
  then have "length (hm_buckets m) \<le> 2 ^ 23" using c(1) unfolding compact_def by linarith
  then obtain m' where m': "hashmap_put2 m k v = Val m'" "hm_ok m'" "hm_map m' = (hm_map m)(k \<mapsto> v)" "compact m'"
    using put_refines [OF ok, of k v] nt c(1) by (metis clean_def)
  have "hm_used m' = card (insert k (dom (hm_map m)))"
    using used_card [OF m'(2)] m'(3,4) by (simp add: compact_def)
  also have "\<dots> \<le> Suc (hm_used m)" using used_card [OF ok nt] by (simp add: card_insert_le_m1 card_insert_if)
  finally show ?thesis using m' c(2) by (auto simp: table_good_def)
qed

interpretation tab: name_table table_good "2 ^ 21" empty_hashmap hm_map hashmap_put2
proof unfold_locales
  show "table_good 0 (empty_hashmap :: 'a HashMap)"
    by (simp add: table_good_def empty_hashmap_def hm_ok_def compact_def no_tombstones_def)
  show "hm_map (empty_hashmap :: 'a HashMap) = Map.empty" by (simp add: hm_map_def empty_hashmap_def)
qed (rule table_put)

section \<open>Properties\<close>

text \<open>
  C18. A name table refines a finite map: filled with at most two million names, starting empty, no insertion
  fails - no full table, no failed assertion, no \<^verbatim>\<open>int\<close> overflow, rehashing at most one level deep - and every
  lookup returns what was last stored under the name, and nothing under any other, whichever names collide.
\<close>

theorem hashmap_fill:
  assumes "length kvs \<le> 2 ^ 21"
  shows "\<exists>m. res_fold (\<lambda>(key, val) m. hashmap_put2 m key val) kvs empty_hashmap = Val m
    \<and> (\<forall>key. hashmap_get2 m key = Val (case map_of (rev kvs) key of None \<Rightarrow> None | Some val \<Rightarrow> val))"
proof -
  obtain m where m: "res_fold (\<lambda>(key, val) m. hashmap_put2 m key val) kvs empty_hashmap = Val m"
    "table_good (length kvs) m" "hm_map m = map_of (rev kvs)"
    using tab.fill [OF assms] by blast
  then show ?thesis using get_refines [of m] by (simp add: table_good_def)
qed

text \<open>
  C19. With deletions, on every table that satisfies the invariant: a lookup returns what is stored, whatever has
  been deleted before, and a deletion removes exactly its name; an insertion into a table of at most \<open>2 ^ 23\<close> slots
  updates exactly its name, provided the name is not in the table or nothing has been deleted since the last
  rehash. None of them fails, and they keep the invariant.
\<close>

theorem hashmap_steps:
  assumes "hm_ok m"
  shows "hashmap_get2 m key = Val (case hm_map m key of None \<Rightarrow> None | Some val \<Rightarrow> val)
    \<and> (\<exists>m'. hashmap_delete2 m key = Val m' \<and> hm_ok m' \<and> hm_map m' = (hm_map m)(key := None))
    \<and> (length (hm_buckets m) \<le> 2 ^ 23 \<and> (hm_map m key = None \<or> no_tombstones m) \<longrightarrow>
       (\<exists>m'. hashmap_put2 m key val = Val m' \<and> hm_ok m' \<and> hm_map m' = (hm_map m)(key \<mapsto> val)))"
proof (intro conjI impI)
  show "\<exists>m'. hashmap_delete2 m key = Val m' \<and> hm_ok m' \<and> hm_map m' = (hm_map m)(key := None)"
    by (rule delete_refines [OF assms]) blast
  assume c: "length (hm_buckets m) \<le> 2 ^ 23 \<and> (hm_map m key = None \<or> no_tombstones m)"
  show "\<exists>m'. hashmap_put2 m key val = Val m' \<and> hm_ok m' \<and> hm_map m' = (hm_map m)(key \<mapsto> val)"
    by (rule put_refines [OF assms, of key val]) (use c in \<open>auto simp: clean_def\<close>)
qed (rule get_refines [OF assms])

lemma hashmap_fill_witness:
  "\<exists>m. res_fold (\<lambda>(key, val) m. hashmap_put2 m key val) [([0x41], Some True), ([0x51], None), ([0x41], Some False)] empty_hashmap = Val m
    \<and> hashmap_get2 m [0x41] = Val (Some False) \<and> hashmap_get2 m [0x61] = Val None"
proof -
  let ?kvs = "[([0x41], Some True), ([0x51], None), ([0x41], Some False)] :: (u8 list \<times> bool option) list"
  from hashmap_fill [of ?kvs] obtain m where
    m: "res_fold (\<lambda>(key, val) m. hashmap_put2 m key val) ?kvs empty_hashmap = Val m"
      "\<forall>key. hashmap_get2 m key = Val (case map_of (rev ?kvs) key of None \<Rightarrow> None | Some val \<Rightarrow> val)" by auto
  show ?thesis by (intro exI [of _ m] conjI m(1)) (simp_all add: m(2))
qed

lemma put_eq:
  "hashmap_put2 m k v =
     (let m1 = (if hm_buckets m = [] then m\<lparr>hm_buckets := replicate 16 empty_entry\<rparr> else m) in
      res_bind (insert_loop m1 k (probes (length (hm_buckets m1)) k)) (\<lambda>(m, s).
      Val (m\<lparr>hm_buckets := (hm_buckets m)[s := (hm_buckets m ! s)\<lparr>he_val := v\<rparr>]\<rparr>)))"
  if "hm_buckets m = [] \<or> hm_used m * 100 div length (hm_buckets m) < 70 \<and> hm_used m \<le> 2 ^ 23"
proof -
  have "hashmap_put2 m k v = put_depth (Suc (Suc 0)) m k v"
    by (simp only: hashmap_put2_def numeral_2_eq_2)
  then show ?thesis
    using that unfolding put_depth.simps(2) [of "Suc 0"] get_or_insert_entry_def
    by (cases "hm_buckets m = []") (simp_all add: load_percent_eq)
qed

text \<open>The first two slots of a search in a new table.\<close>

lemma probes_16:
  obtains ps where "probes 16 k = unat (fnv_hash k) mod 16 # (unat (fnv_hash k) + 1) mod 16 # ps"
proof -
  have u: "[0..<16] = (0 :: nat) # 1 # [2..<16]" by (simp add: upt_rec)
  have "probes 16 k = map (\<lambda>i. (unat (fnv_hash k) + i) mod 16) [0..<16]" using probes_dvd [of 4 k] by simp
  then show thesis unfolding u by (intro that) simp
qed

text \<open>
  Two names with the same first slot in a new table, as a definition of the first, one of the second, and an end to
  the first leave them: the second name stands behind a deleted slot.
\<close>

lemma two_colliding_at:
  assumes st: "s < 16" "t < 16" "s \<noteq> t" and p: "probes 16 a = s # t # ps" "probes 16 q = s # t # ps'" and "a \<noteq> q"
  shows "res_bind (hashmap_put2 empty_hashmap a u) (\<lambda>m. res_bind (hashmap_put2 m q v) (\<lambda>m. hashmap_delete2 m a))
     = Val \<lparr>hm_buckets = (replicate 16 empty_entry)[s := \<lparr>he_key = TOMBSTONE, he_val = u\<rparr>, t := \<lparr>he_key = KEY q, he_val = v\<rparr>], hm_used = 2\<rparr>"
proof -
  let ?b = "(replicate 16 empty_entry)[s := \<lparr>he_key = KEY a, he_val = u\<rparr>]"
  let ?m1 = "\<lparr>hm_buckets = ?b, hm_used = 1\<rparr>"
  let ?m2 = "\<lparr>hm_buckets = ?b[t := \<lparr>he_key = KEY q, he_val = v\<rparr>], hm_used = 2\<rparr>"
  have "hashmap_put2 empty_hashmap a u = Val ?m1"
    using st by (simp add: put_eq empty_hashmap_def p match_def set_key_def empty_entry_def)
  moreover have "hashmap_put2 ?m1 q v = Val ?m2"
    using st \<open>a \<noteq> q\<close> by (simp add: put_eq p match_def set_key_def empty_entry_def)
  moreover have "hashmap_delete2 ?m2 a
      = Val \<lparr>hm_buckets = (replicate 16 empty_entry)[s := \<lparr>he_key = TOMBSTONE, he_val = u\<rparr>, t := \<lparr>he_key = KEY q, he_val = v\<rparr>], hm_used = 2\<rparr>"
    using st by (simp add: hashmap_delete2_def get_entry_def p match_def list_update_swap [of t s])
  ultimately show ?thesis by simp
qed

lemma two_colliding:
  assumes "unat (fnv_hash a) mod 16 = unat (fnv_hash q) mod 16" "a \<noteq> q"
  obtains ps ps' s t where "s < 16" "t < 16" "s \<noteq> t" "probes 16 a = s # t # ps" "probes 16 q = s # t # ps'"
    "res_bind (hashmap_put2 empty_hashmap a u) (\<lambda>m. res_bind (hashmap_put2 m q v) (\<lambda>m. hashmap_delete2 m a))
     = Val \<lparr>hm_buckets = (replicate 16 empty_entry)[s := \<lparr>he_key = TOMBSTONE, he_val = u\<rparr>, t := \<lparr>he_key = KEY q, he_val = v\<rparr>], hm_used = 2\<rparr>"
proof -
  let ?s = "unat (fnv_hash a) mod 16" and ?t = "(unat (fnv_hash a) + 1) mod 16"
  obtain ps where a: "probes 16 a = ?s # ?t # ps" by (rule probes_16)
  obtain ps' where q: "probes 16 q = unat (fnv_hash q) mod 16 # (unat (fnv_hash q) + 1) mod 16 # ps'" by (rule probes_16)
  have "(unat (fnv_hash q) + 1) mod 16 = ?t" using mod_add_cong [OF assms(1) refl, of 1] by (rule sym)
  then have q: "probes 16 q = ?s # ?t # ps'" using q assms(1) by simp
  have ne: "n mod 16 \<noteq> (n + 1) mod 16" for n :: nat by (simp add: mod_Suc)
  have st: "?s < 16" "?t < 16" "?s \<noteq> ?t" by (simp, simp, rule ne)
  show thesis by (rule that [OF st a q two_colliding_at [OF st a q assms(2)]])
qed

text \<open>
  C20. The side condition of an insertion is needed: it reuses the first deleted slot without looking further, so a
  name that is in the table behind it is stored twice, and deleting it uncovers the old value. For any two names
  that collide in a new table: after \<^verbatim>\<open>#define a u\<close>, \<^verbatim>\<open>#define q v\<close>, \<^verbatim>\<open>#undef a\<close>, \<^verbatim>\<open>#define q w\<close>, \<^verbatim>\<open>#undef q\<close> a lookup
  of \<^verbatim>\<open>q\<close> gives \<^verbatim>\<open>v\<close>, although \<^verbatim>\<open>q\<close> has been deleted.
\<close>

theorem hashmap_deleted_name_found:
  assumes "unat (fnv_hash a) mod 16 = unat (fnv_hash q) mod 16" "a \<noteq> q"
  shows "res_bind (hashmap_put2 empty_hashmap a u) (\<lambda>m.
   res_bind (hashmap_put2 m q v) (\<lambda>m.
   res_bind (hashmap_delete2 m a) (\<lambda>m.
   res_bind (hashmap_put2 m q w) (\<lambda>m.
   res_bind (hashmap_delete2 m q) (\<lambda>m. hashmap_get2 m q))))) = Val v"
proof -
  obtain ps ps' s t where st: "s < 16" "t < 16" "s \<noteq> t" "probes 16 q = s # t # ps'" and
    m: "res_bind (hashmap_put2 empty_hashmap a u) (\<lambda>m. res_bind (hashmap_put2 m q v) (\<lambda>m. hashmap_delete2 m a))
     = Val \<lparr>hm_buckets = (replicate 16 empty_entry)[s := \<lparr>he_key = TOMBSTONE, he_val = u\<rparr>, t := \<lparr>he_key = KEY q, he_val = v\<rparr>], hm_used = 2\<rparr>"
    by (rule two_colliding [OF assms])
  let ?m = "\<lparr>hm_buckets = (replicate 16 empty_entry)[s := \<lparr>he_key = TOMBSTONE, he_val = u\<rparr>, t := \<lparr>he_key = KEY q, he_val = v\<rparr>], hm_used = 2\<rparr>"
  have "res_bind (hashmap_put2 empty_hashmap a u) (\<lambda>m. res_bind (hashmap_put2 m q v) (\<lambda>m. res_bind (hashmap_delete2 m a) f)) = f ?m" for f
  proof -
    have "res_bind (hashmap_put2 empty_hashmap a u) (\<lambda>m. res_bind (hashmap_put2 m q v) (\<lambda>m. res_bind (hashmap_delete2 m a) f))
      = res_bind (res_bind (hashmap_put2 empty_hashmap a u) (\<lambda>m. res_bind (hashmap_put2 m q v) (\<lambda>m. hashmap_delete2 m a))) f"
      by (simp only: res_bind_assoc)
    then show ?thesis by (simp only: m res_bind.simps)
  qed
  note chain = this
  have "?thesis \<longleftrightarrow> res_bind (hashmap_put2 ?m q w) (\<lambda>m. res_bind (hashmap_delete2 m q) (\<lambda>m. hashmap_get2 m q)) = Val v"
    by (simp only: chain)
  moreover have "res_bind (hashmap_put2 ?m q w) (\<lambda>m. res_bind (hashmap_delete2 m q) (\<lambda>m. hashmap_get2 m q)) = Val v"
    using st by (simp add: put_eq hashmap_delete2_def hashmap_get2_def get_entry_def match_def set_key_def nth_list_update)
  ultimately show ?thesis by blast
qed

lemma fnv_hash_colliding: "fnv_hash [0x41] = 0xaf63bd4c8601b79e" "fnv_hash [0x51] = 0xaf63bd4c8601b78e"
  by (simp_all add: fnv_hash_def)

lemma hashmap_deleted_name_found_witness:
  "res_bind (hashmap_put2 empty_hashmap [0x41] (Some 0)) (\<lambda>m.
   res_bind (hashmap_put2 m [0x51] (Some (1 :: nat))) (\<lambda>m.
   res_bind (hashmap_delete2 m [0x41]) (\<lambda>m.
   res_bind (hashmap_put2 m [0x51] (Some 2)) (\<lambda>m.
   res_bind (hashmap_delete2 m [0x51]) (\<lambda>m. hashmap_get2 m [0x51]))))) = Val (Some 1)"
  by (rule hashmap_deleted_name_found) (simp_all add: fnv_hash_colliding)

text \<open>A table with a deleted slot in front of a name, as \<^verbatim>\<open>#define A\<close>, \<^verbatim>\<open>#define Q\<close>, \<^verbatim>\<open>#undef A\<close> leave it.\<close>

lemma table_with_deleted_slot:
  obtains m where "res_bind (hashmap_put2 empty_hashmap [0x41] u) (\<lambda>m. res_bind (hashmap_put2 m [0x51] v) (\<lambda>m. hashmap_delete2 m [0x41])) = Val m"
    "hm_ok m" "length (hm_buckets m) = 16" "hm_map m = [[0x51] \<mapsto> v]" "\<not> no_tombstones m"
proof -
  have "unat (fnv_hash [0x41]) mod 16 = unat (fnv_hash [0x51]) mod 16" "[0x41] \<noteq> [0x51 :: u8]"
    by (simp_all add: fnv_hash_colliding)
  then obtain ps ps' s t where st: "s < 16" "t < 16" "s \<noteq> t" and
    m: "res_bind (hashmap_put2 empty_hashmap [0x41] u) (\<lambda>m. res_bind (hashmap_put2 m [0x51] v) (\<lambda>m. hashmap_delete2 m [0x41]))
     = Val \<lparr>hm_buckets = (replicate 16 empty_entry)[s := \<lparr>he_key = TOMBSTONE, he_val = u\<rparr>, t := \<lparr>he_key = KEY [0x51], he_val = v\<rparr>], hm_used = 2\<rparr>"
    (is "_ = Val ?m") by (rule two_colliding)
  obtain m1 where m1: "hashmap_put2 empty_hashmap [0x41] u = Val m1" "table_good (Suc 0) m1" "hm_map m1 = [[0x41] \<mapsto> u]"
    using tab.insert_good [OF tab.good_fresh, of "[0x41]" u] by (auto simp: tab.lookup_fresh)
  obtain m2 where m2: "hashmap_put2 m1 [0x51] v = Val m2" "hm_ok m2" "hm_map m2 = (hm_map m1)([0x51] \<mapsto> v)"
    using tab.insert_good [OF m1(2), of "[0x51]" v] by (auto simp: table_good_def)
  obtain m3 where m3: "hashmap_delete2 m2 [0x41] = Val m3" "hm_ok m3" "hm_map m3 = (hm_map m2)([0x41] := None)"
    by (rule delete_refines [OF m2(2)])
  have eq: "m3 = ?m" using m m1(1) m2(1) m3(1) by simp
  have "?m = m3" "hm_buckets ?m ! s = \<lparr>he_key = TOMBSTONE, he_val = u\<rparr>" "s < length (hm_buckets ?m)" using eq st by simp_all
  then have "\<not> no_tombstones m3" unfolding no_tombstones_def by (metis HashEntry.select_convs(1) nth_mem)
  moreover have "length (hm_buckets m3) = 16" using eq by simp
  moreover have "hm_map m3 = [[0x51] \<mapsto> v]" by (simp add: m3(3) m2(3) m1(3) fun_eq_iff)
  ultimately show thesis using m m3(2) eq by (intro that [of m3]) simp_all
qed

lemma hashmap_steps_witness:
  "\<exists>m. res_bind (hashmap_put2 empty_hashmap [0x41] (Some 0)) (\<lambda>m. res_bind (hashmap_put2 m [0x51] (Some (1 :: nat))) (\<lambda>m. hashmap_delete2 m [0x41])) = Val m
    \<and> \<not> no_tombstones m \<and> hashmap_get2 m [0x51] = Val (Some 1) \<and> hashmap_get2 m [0x41] = Val None
    \<and> (\<exists>m'. hashmap_delete2 m [0x51] = Val m' \<and> hm_map m' = Map.empty)
    \<and> (\<exists>m'. hashmap_put2 m [0x41] (Some 2) = Val m' \<and> hm_map m' = [[0x51] \<mapsto> Some 1, [0x41] \<mapsto> Some 2])"
proof -
  obtain m where m: "res_bind (hashmap_put2 empty_hashmap [0x41] (Some 0)) (\<lambda>m. res_bind (hashmap_put2 m [0x51] (Some (1 :: nat))) (\<lambda>m. hashmap_delete2 m [0x41])) = Val m"
    "hm_ok m" "length (hm_buckets m) = 16" "hm_map m = [[0x51] \<mapsto> Some 1]" "\<not> no_tombstones m"
    by (rule table_with_deleted_slot)
  have get: "hashmap_get2 m [0x51] = Val (Some 1)" "hashmap_get2 m [0x41] = Val None"
    using hashmap_steps [OF m(2), of "[0x51]"] hashmap_steps [OF m(2), of "[0x41]"] by (simp_all add: m(4))
  have del: "\<exists>m'. hashmap_delete2 m [0x51] = Val m' \<and> hm_map m' = Map.empty"
    using hashmap_steps [OF m(2), of "[0x51]"] by (auto simp: m(4))
  have put: "\<exists>m'. hashmap_put2 m [0x41] (Some 2) = Val m' \<and> hm_map m' = [[0x51] \<mapsto> Some 1, [0x41] \<mapsto> Some 2]"
    using hashmap_steps [OF m(2), of "[0x41]" "Some 2"] by (auto simp: m(3,4))
  show ?thesis using m(1,5) get del put by blast
qed

end
