(* ===== verification/Cc_Tables.thy ===== *)
theory Cc_Tables
  imports Cc_Hashmap Compile_Module
begin

text \<open>
  The back end's name tables. The model of \<^verbatim>\<open>codegen\<close> in \<open>Emit_Module\<close> keeps the names that are referenced as a
  set and the index of every function as a map. The code keeps both as a \<^verbatim>\<open>HashMap\<close> of pointers: \<^verbatim>\<open>referenced\<close> with
  the value \<^verbatim>\<open>(void *)1\<close>, \<^verbatim>\<open>func_index\<close> with \<^verbatim>\<open>(void *)(long)(nfuncs + 1)\<close>, so that the first function is not \<^verbatim>\<open>NULL\<close>,
  and \<^verbatim>\<open>func_idx\<close> subtracts the one again. Here is \<^verbatim>\<open>codegen\<close> with those tables, every insertion and lookup where the
  code has it, and the proof that it is the \<^verbatim>\<open>codegen\<close> of \<open>Emit_Module\<close>.
\<close>

section \<open>The tables\<close>

text \<open>An integer as a pointer: zero is \<^verbatim>\<open>NULL\<close>.\<close>

definition void_ptr :: "nat \<Rightarrow> nat option" where
  "void_ptr p = (if p = 0 then None else Some p)"

text \<open>A failed assertion of the table ends the compiler.\<close>

fun table_res :: "(hm_error, 'a) res \<Rightarrow> (string, 'a) res" where
  "table_res (Val x) = Val x"
| "table_res (Stop e) = Stop ''internal error''"
| "table_res Unsafe = Unsafe"

text \<open>\<^verbatim>\<open>mark_refs\<close> of every defined function, then the labels of every relocation.\<close>

definition referenced_names :: "Obj list \<Rightarrow> u8 list list" where
  "referenced_names prog =
     concat (map (\<lambda>fn. if is_function fn \<and> is_definition fn then mark_refs (function_names prog) (o_body fn)
                       else []) prog)
     @ concat (map (\<lambda>v. if \<not> is_function v \<and> is_definition v then map rel_label (o_rel v) else []) prog)"

definition referenced_table :: "Obj list \<Rightarrow> (string, nat HashMap) res" where
  "referenced_table prog =
     res_fold (\<lambda>name m. table_res (hashmap_put2 m name (void_ptr 1))) (referenced_names prog) empty_hashmap"

record table_numbering =
  tn_imports :: Buf
  tn_funcsec :: Buf
  tn_types :: "u8 list list"
  tn_index :: "nat HashMap"
  tn_funcs :: "Obj list"

definition table_number :: "Obj \<Rightarrow> table_numbering \<Rightarrow> (string, table_numbering) res" where
  "table_number fn tn =
     res_bind (table_res (hashmap_put2 (tn_index tn) (o_name fn) (void_ptr (length (tn_funcs tn) + 1)))) (\<lambda>m.
     Val (tn\<lparr>tn_index := m, tn_funcs := tn_funcs tn @ [fn]\<rparr>))"

definition table_number_import :: "nat HashMap \<Rightarrow> Obj \<Rightarrow> table_numbering \<Rightarrow> (string, table_numbering) res" where
  "table_number_import refs fn tn =
     (if \<not> is_function fn then Val tn
      else res_bind (if is_definition fn then Val None else table_res (hashmap_get2 refs (o_name fn))) (\<lambda>r.
      if r = None then Val tn
      else if take 10 (o_name fn) = str ''__builtin_'' then Val tn
      else if take 6 (o_name fn) \<noteq> str ''__env_'' then Stop ''undefined function (env imports must be named __env_*)''
      else let (i, types) = sig_index (o_fty fn) (tn_types tn);
               b = buf_u8 (buf_name (buf_name (tn_imports tn) (str ''env'')) (drop 6 (o_name fn))) 0
           in table_number fn (tn\<lparr>tn_imports := buf_uleb b (of_nat i), tn_types := types\<rparr>)))"

definition table_number_def :: "Obj \<Rightarrow> table_numbering \<Rightarrow> (string, table_numbering) res" where
  "table_number_def fn tn =
     (if \<not> is_function fn then Val tn
      else if \<not> is_definition fn then Val tn
      else let (i, types) = sig_index (o_fty fn) (tn_types tn)
           in table_number fn (tn\<lparr>tn_funcsec := buf_uleb (tn_funcsec tn) (of_nat i), tn_types := types\<rparr>))"

definition table_number_functions :: "Obj list \<Rightarrow> (string, nat \<times> table_numbering) res" where
  "table_number_functions prog =
     res_bind (referenced_table prog) (\<lambda>refs.
     res_bind (res_fold (table_number_import refs) prog
        \<lparr>tn_imports = empty_buf, tn_funcsec = empty_buf, tn_types = [], tn_index = empty_hashmap, tn_funcs = []\<rparr>) (\<lambda>tn0.
     res_bind (res_fold table_number_def prog tn0) (\<lambda>tn. Val (length (tn_funcs tn0), tn))))"

text \<open>\<^verbatim>\<open>func_idx\<close> reads a \<^verbatim>\<open>NULL\<close> as a function that is neither defined nor imported.\<close>

definition table_func_idx :: "table_numbering \<Rightarrow> u8 list \<Rightarrow> nat option" where
  "table_func_idx tn name = (case hashmap_get2 (tn_index tn) name of Val (Some p) \<Rightarrow> Some (p - 1) | _ \<Rightarrow> None)"

definition read_numbering :: "table_numbering \<Rightarrow> numbering" where
  "read_numbering tn = \<lparr>nb_imports = tn_imports tn, nb_funcsec = tn_funcsec tn, nb_types = tn_types tn,
     nb_index = table_func_idx tn, nb_funcs = tn_funcs tn\<rparr>"

text \<open>\<^verbatim>\<open>codegen\<close> over the tables.\<close>

definition table_codegen :: "int \<Rightarrow> int \<Rightarrow> Obj list \<Rightarrow> (string, Buf) res" where
  "table_codegen opt_stack_size opt_max_pages prog =
     res_bind (table_number_functions prog) (\<lambda>(nimports, tn).
     res_bind (layout_globals opt_stack_size opt_max_pages prog) (\<lambda>lay.
     let nfuncs = length (tn_funcs tn);
         cx = module_ctx prog (read_numbering tn) lay;
         s0 = \<lparr>cg_code = empty_buf, cg_ctl = [], ctl_id_counter = 0, cg_types = tn_types tn\<rparr>
     in res_bind (res_fold (gen_function cx) (drop nimports (tn_funcs tn))
          (s0, buf_uleb empty_buf (of_nat (nfuncs - nimports)))) (\<lambda>(s, codesec).
        res_bind (data_image cx prog prog (replicate (nat (lay_data_end lay - data_base)) 0)) (\<lambda>img.
        write_module opt_max_pages
          \<lparr>pt_types = cg_types s, pt_nimports = nimports, pt_imports = tn_imports tn, pt_nfuncs = nfuncs,
           pt_funcsec = tn_funcsec tn, pt_codesec = codesec, pt_stack_top = lay_stack_top lay,
           pt_start = table_func_idx tn (str ''_start''), pt_image = img\<rparr>))))"

section \<open>Refinement\<close>

lemma table_res_eq_Val [simp]: "table_res r = Val x \<longleftrightarrow> r = Val x"
  by (cases r) auto

lemma referenced_set: "referenced prog = set (referenced_names prog)"
  by (simp add: referenced_def referenced_names_def)

text \<open>A lookup in a table that is only filled.\<close>

lemma table_get:
  assumes "table_good n m"
  shows "hashmap_get2 m name = Val (case hm_map m name of None \<Rightarrow> None | Some v \<Rightarrow> v)"
  using assms by (intro get_refines) (simp add: table_good_def)

lemma referenced_fill:
  "table_good n m \<Longrightarrow> n + length names \<le> 2 ^ 21 \<Longrightarrow>
   \<exists>m'. res_fold (\<lambda>name m. table_res (hashmap_put2 m name (void_ptr 1))) names m = Val m'
     \<and> table_good (n + length names) m' \<and> hm_map m' = (\<lambda>name. if name \<in> set names then Some (Some 1) else hm_map m name)"
proof (induction names arbitrary: n m)
  case (Cons name names)
  obtain m1 where m1: "hashmap_put2 m name (void_ptr 1) = Val m1" "table_good (Suc n) m1" "hm_map m1 = (hm_map m)(name \<mapsto> void_ptr 1)"
    using tab.insert_good [OF Cons.prems(1), of name "void_ptr 1"] Cons.prems(2) by auto
  obtain m2 where m2: "res_fold (\<lambda>name m. table_res (hashmap_put2 m name (void_ptr 1))) names m1 = Val m2"
    "table_good (Suc n + length names) m2" "hm_map m2 = (\<lambda>name. if name \<in> set names then Some (Some 1) else hm_map m1 name)"
    using Cons.IH [OF m1(2)] Cons.prems(2) by auto
  show ?case
    by (intro exI [of _ m2]) (use m1(1) m2(1,2) in \<open>simp add: m2(3) m1(3) void_ptr_def fun_eq_iff\<close>)
qed auto

lemma referenced_table_ok:
  assumes "length (referenced_names prog) \<le> 2 ^ 21"
  obtains m where "referenced_table prog = Val m"
    "\<And>name. hashmap_get2 m name = Val (if name \<in> referenced prog then Some 1 else None)"
proof -
  obtain m where m: "referenced_table prog = Val m" "table_good (length (referenced_names prog)) m"
    "hm_map m = (\<lambda>name. if name \<in> set (referenced_names prog) then Some (Some 1) else None)"
    using referenced_fill [OF tab.good_fresh, of "referenced_names prog"] assms
    unfolding tab.lookup_fresh referenced_table_def by auto
  show thesis by (rule that [OF m(1)]) (simp add: table_get [OF m(2)] m(3) referenced_set)
qed

text \<open>The relation between the two numberings after at most \<open>n\<close> functions.\<close>

definition numbering_rel :: "nat \<Rightarrow> table_numbering \<Rightarrow> numbering \<Rightarrow> bool" where
  "numbering_rel n tn nb \<longleftrightarrow> tn_imports tn = nb_imports nb \<and> tn_funcsec tn = nb_funcsec nb \<and> tn_types tn = nb_types nb
     \<and> tn_funcs tn = nb_funcs nb \<and> table_good n (tn_index tn)
     \<and> (\<forall>name. hm_map (tn_index tn) name = map_option (\<lambda>i. Some (i + 1)) (nb_index nb name))"

lemma numbering_rel_update:
  "numbering_rel n tn nb \<Longrightarrow> numbering_rel n (tn\<lparr>tn_imports := b, tn_types := ts\<rparr>) (nb\<lparr>nb_imports := b, nb_types := ts\<rparr>)"
  "numbering_rel n tn nb \<Longrightarrow> numbering_rel n (tn\<lparr>tn_funcsec := b, tn_types := ts\<rparr>) (nb\<lparr>nb_funcsec := b, nb_types := ts\<rparr>)"
  by (simp_all add: numbering_rel_def)

lemma numbering_rel_Suc: "numbering_rel n tn nb \<Longrightarrow> numbering_rel (Suc n) tn nb"
  by (auto simp: numbering_rel_def table_good_def)

lemma table_number_rel:
  assumes "numbering_rel n tn nb" "n < 2 ^ 21"
  shows "\<exists>tn'. table_number fn tn = Val tn' \<and> numbering_rel (Suc n) tn' (number fn nb)"
proof -
  have g: "table_good n (tn_index tn)" using assms(1) by (simp add: numbering_rel_def)
  obtain m where "hashmap_put2 (tn_index tn) (o_name fn) (void_ptr (length (tn_funcs tn) + 1)) = Val m" "table_good (Suc n) m"
    "hm_map m = (hm_map (tn_index tn))(o_name fn \<mapsto> void_ptr (length (tn_funcs tn) + 1))"
    using tab.insert_good [OF g assms(2)] by blast
  then show ?thesis using assms(1) by (auto simp: table_number_def numbering_rel_def number_def void_ptr_def)
qed

text \<open>Two outcomes agree: the same end, or related values.\<close>

fun res_rel :: "('a \<Rightarrow> 'b \<Rightarrow> bool) \<Rightarrow> ('e, 'a) res \<Rightarrow> ('e, 'b) res \<Rightarrow> bool" where
  "res_rel P (Val x) (Val y) \<longleftrightarrow> P x y"
| "res_rel P (Stop e) (Stop e') \<longleftrightarrow> e = e'"
| "res_rel P Unsafe Unsafe \<longleftrightarrow> True"
| "res_rel P _ _ \<longleftrightarrow> False"

lemma table_number_import_rel:
  assumes "numbering_rel n tn nb" "n < 2 ^ 21" "\<And>name. hashmap_get2 m name = Val (if name \<in> refs then Some 1 else None)"
  shows "res_rel (numbering_rel (Suc n)) (table_number_import m fn tn) (number_import refs fn nb)"
proof (cases "is_function fn \<and> \<not> is_definition fn \<and> o_name fn \<in> refs \<and> take 10 (o_name fn) \<noteq> str ''__builtin_''
    \<and> take 6 (o_name fn) = str ''__env_''")
  case True
  obtain i ts where sig: "sig_index (o_fty fn) (nb_types nb) = (i, ts)" by fastforce
  have eq: "tn_types tn = nb_types nb" "tn_imports tn = nb_imports nb" using assms(1) by (simp_all add: numbering_rel_def)
  let ?b = "buf_uleb (buf_u8 (buf_name (buf_name (nb_imports nb) (str ''env'')) (drop 6 (o_name fn))) 0) (of_nat i)"
  obtain tn' where "table_number fn (tn\<lparr>tn_imports := ?b, tn_types := ts\<rparr>) = Val tn'"
    "numbering_rel (Suc n) tn' (number fn (nb\<lparr>nb_imports := ?b, nb_types := ts\<rparr>))"
    using table_number_rel [OF numbering_rel_update(1) [OF assms(1)] assms(2)] by blast
  then show ?thesis using True by (simp add: table_number_import_def number_import_def assms(3) sig eq Let_def)
qed (use numbering_rel_Suc [OF assms(1)] in \<open>auto simp: table_number_import_def number_import_def assms(3)\<close>)

lemma table_number_def_rel:
  assumes "numbering_rel n tn nb" "n < 2 ^ 21"
  shows "res_rel (numbering_rel (Suc n)) (table_number_def fn tn) (number_def fn nb)"
proof (cases "is_function fn \<and> is_definition fn")
  case True
  obtain i ts where sig: "sig_index (o_fty fn) (nb_types nb) = (i, ts)" by fastforce
  have eq: "tn_types tn = nb_types nb" "tn_funcsec tn = nb_funcsec nb" using assms(1) by (simp_all add: numbering_rel_def)
  let ?b = "buf_uleb (nb_funcsec nb) (of_nat i)"
  obtain tn' where "table_number fn (tn\<lparr>tn_funcsec := ?b, tn_types := ts\<rparr>) = Val tn'"
    "numbering_rel (Suc n) tn' (number fn (nb\<lparr>nb_funcsec := ?b, nb_types := ts\<rparr>))"
    using table_number_rel [OF numbering_rel_update(2) [OF assms(1)] assms(2)] by blast
  then show ?thesis using True by (simp add: table_number_def_def number_def_def sig eq)
qed (use numbering_rel_Suc [OF assms(1)] in \<open>auto simp: table_number_def_def number_def_def\<close>)

lemma res_fold_rel:
  assumes "\<And>n tn nb fn. R n tn nb \<Longrightarrow> n < N \<Longrightarrow> res_rel (R (Suc n)) (f fn tn) (g fn nb)"
    and "R n tn nb" "n + length fns \<le> N"
  shows "res_rel (R (n + length fns)) (res_fold f fns tn) (res_fold g fns nb)"
  using assms(2,3)
proof (induction fns arbitrary: n tn nb)
  case (Cons fn fns)
  have r: "res_rel (R (Suc n)) (f fn tn) (g fn nb)" using assms(1) [OF Cons.prems(1)] Cons.prems(2) by simp
  show ?case
    by (cases "f fn tn"; cases "g fn nb") (use r Cons.IH [of "Suc n"] Cons.prems(2) in auto)
qed simp

lemma table_number_functions_rel:
  assumes "length prog \<le> 2 ^ 20" "length (referenced_names prog) \<le> 2 ^ 21"
  shows "res_rel (\<lambda>(k, tn) (k', nb). k = k' \<and> numbering_rel (length prog + length prog) tn nb)
    (table_number_functions prog) (number_functions prog)"
proof -
  obtain m where m: "referenced_table prog = Val m"
    "\<And>name. hashmap_get2 m name = Val (if name \<in> referenced prog then Some 1 else None)"
    using referenced_table_ok [OF assms(2)] by blast
  let ?t0 = "\<lparr>tn_imports = empty_buf, tn_funcsec = empty_buf, tn_types = [], tn_index = empty_hashmap, tn_funcs = []\<rparr>"
  let ?n0 = "\<lparr>nb_imports = empty_buf, nb_funcsec = empty_buf, nb_types = [], nb_index = Map.empty, nb_funcs = []\<rparr>"
  have "numbering_rel 0 ?t0 ?n0" using tab.good_fresh by (simp add: numbering_rel_def tab.lookup_fresh)
  then have 1: "res_rel (numbering_rel (0 + length prog)) (res_fold (table_number_import m) prog ?t0)
      (res_fold (number_import (referenced prog)) prog ?n0)"
    by (rule res_fold_rel [where N = "2 ^ 21", rotated])
      (use assms(1) table_number_import_rel [OF _ _ m(2)] in \<open>simp_all\<close>)
  show ?thesis
  proof (cases "res_fold (number_import (referenced prog)) prog ?n0")
    case (Val nb0)
    then obtain tn0 where tn0: "res_fold (table_number_import m) prog ?t0 = Val tn0" "numbering_rel (length prog) tn0 nb0"
      using 1 by (cases "res_fold (table_number_import m) prog ?t0") auto
    have 2: "res_rel (numbering_rel (length prog + length prog)) (res_fold table_number_def prog tn0) (res_fold number_def prog nb0)"
      by (rule res_fold_rel [where R = numbering_rel and N = "2 ^ 21", OF _ tn0(2)]) (use assms(1) table_number_def_rel in \<open>simp_all\<close>)
    have "length (tn_funcs tn0) = length (nb_funcs nb0)" using tn0(2) by (simp add: numbering_rel_def)
    then show ?thesis
      using 2 tn0(1) Val m(1)
      by (cases "res_fold table_number_def prog tn0"; cases "res_fold number_def prog nb0")
        (simp_all add: table_number_functions_def number_functions_def)
  qed (use 1 m(1) in \<open>cases "res_fold (table_number_import m) prog ?t0";
      simp add: table_number_functions_def number_functions_def\<close>)+
qed

lemma table_func_idx_eq:
  assumes "numbering_rel n tn nb"
  shows "table_func_idx tn = nb_index nb" "\<exists>v. hashmap_get2 (tn_index tn) name = Val v"
proof -
  have g: "table_good n (tn_index tn)" using assms by (simp add: numbering_rel_def)
  show "\<exists>v. hashmap_get2 (tn_index tn) name = Val v" by (simp add: table_get [OF g])
  show "table_func_idx tn = nb_index nb"
  proof
    show "table_func_idx tn name = nb_index nb name" for name
      using assms by (cases "nb_index nb name") (simp_all add: table_func_idx_def table_get [OF g] numbering_rel_def)
  qed
qed

lemma read_numbering_eq: "numbering_rel n tn nb \<Longrightarrow> read_numbering tn = nb"
  by (simp add: read_numbering_def table_func_idx_eq) (simp add: numbering_rel_def)

section \<open>Property\<close>

text \<open>
  C21. The compiler's back end with its hash tables is the back end with a set and a map. For every program of at
  most \<open>2 ^ 20\<close> objects with at most \<open>2 ^ 21\<close> references to functions: filling \<^verbatim>\<open>referenced\<close> and \<^verbatim>\<open>func_index\<close> never
  fails and no lookup does; the numbering read from the tables is the one of the model, or both end with the same
  error; and \<^verbatim>\<open>codegen\<close> over the tables gives, byte for byte, the module or the error it gives over the maps.
\<close>

theorem codegen_tables:
  assumes "length prog \<le> 2 ^ 20" "length (referenced_names prog) \<le> 2 ^ 21"
  shows "res_bind (table_number_functions prog) (\<lambda>(nimports, tn). Val (nimports, read_numbering tn)) = number_functions prog
    \<and> (\<forall>nimports tn name. table_number_functions prog = Val (nimports, tn) \<longrightarrow> (\<exists>v. hashmap_get2 (tn_index tn) name = Val v))
    \<and> table_codegen opt_stack_size opt_max_pages prog = codegen opt_stack_size opt_max_pages prog"
proof -
  note r = table_number_functions_rel [OF assms]
  show ?thesis
  proof (cases "number_functions prog")
    case (Val x)
    then obtain k nb where nb: "number_functions prog = Val (k, nb)" by (cases x) auto
    with r obtain tn where tn: "table_number_functions prog = Val (k, tn)" "numbering_rel (length prog + length prog) tn nb"
      by (cases "table_number_functions prog") auto
    have eq: "tn_imports tn = nb_imports nb" "tn_funcsec tn = nb_funcsec nb" "tn_types tn = nb_types nb" "tn_funcs tn = nb_funcs nb"
      using tn(2) by (simp_all add: numbering_rel_def)
    have "table_codegen opt_stack_size opt_max_pages prog = codegen opt_stack_size opt_max_pages prog"
      by (simp only: table_codegen_def codegen_def tn(1) nb res_bind.simps prod.case eq read_numbering_eq [OF tn(2)]
        table_func_idx_eq(1) [OF tn(2)])
    then show ?thesis using nb tn(1) table_func_idx_eq(2) [OF tn(2)] by (simp add: read_numbering_eq [OF tn(2)])
  qed (use r in \<open>cases "table_number_functions prog"; simp add: table_codegen_def codegen_def\<close>)+
qed

lemma codegen_tables_witness:
  "\<exists>nb. res_bind (table_number_functions ex_prog) (\<lambda>(nimports, tn). Val (nimports, read_numbering tn)) = Val (1, nb)
    \<and> nb_index nb (str ''__env_put'') = Some 0 \<and> nb_index nb (str ''_start'') = Some 1
    \<and> table_codegen 65536 3 ex_prog = codegen 65536 3 ex_prog"
proof -
  obtain n nb where nb: "number_functions ex_prog = Val (n, nb)" "n = 1" "nb_index nb (str ''_start'') = Some 1"
    "nb_index nb (str ''__env_put'') = Some 0"
    using ex_prog_numbers by (auto split: res.splits)
  have "length ex_prog \<le> 2 ^ 20" "length (referenced_names ex_prog) \<le> 2 ^ 21"
    by (simp_all add: ex_prog_def referenced_names_def ex_put_def ex_start_def function_names_def ex_int_def str_def)
  from codegen_tables [OF this] show ?thesis using nb by auto
qed

end
