(* ===== verification/Cc_Unicode.thy ===== *)
theory Cc_Unicode
  imports Prelude
begin

text \<open>
  \<^verbatim>\<open>src/cc/unicode.c\<close>: UTF-8 in both directions, the characters of identifiers, the width of a text. A text is
  the buffer it lies in, with its terminator, and a position; reading outside the buffer is \<open>Unsafe\<close>. \<open>Error_at\<close>
  is \<^verbatim>\<open>error_at\<close>, which ends the compiler. The range tables are written without the final -1.
\<close>

section \<open>The code\<close>

type_synonym chars = "u8 list"

datatype cc_stop = Error_at nat string

definition char_at :: "chars \<Rightarrow> nat \<Rightarrow> (cc_stop, u8) res" where
  "char_at b p = (if p < length b then Val (b ! p) else Unsafe)"

definition encode_utf8 :: "u32 \<Rightarrow> u8 list" where
  "encode_utf8 c =
     (if c \<le> 0x7F then [ucast c]
      else if c \<le> 0x7FF then [ucast (0xC0 OR drop_bit 6 c), ucast (0x80 OR (c AND 0x3F))]
      else if c \<le> 0xFFFF
      then [ucast (0xE0 OR drop_bit 12 c), ucast (0x80 OR (drop_bit 6 c AND 0x3F)), ucast (0x80 OR (c AND 0x3F))]
      else [ucast (0xF0 OR drop_bit 18 c), ucast (0x80 OR (drop_bit 12 c AND 0x3F)),
            ucast (0x80 OR (drop_bit 6 c AND 0x3F)), ucast (0x80 OR (c AND 0x3F))])"

definition continuation :: "chars \<Rightarrow> nat \<Rightarrow> nat \<Rightarrow> u32 \<Rightarrow> (cc_stop, u32) res" where
  "continuation b start i c = res_bind (char_at b (start + i)) (\<lambda>x.
     if drop_bit 6 x \<noteq> 2 then Stop (Error_at start ''invalid UTF-8 sequence'')
     else Val (push_bit 6 c OR ucast (x AND 0x3F)))"

definition decode_utf8 :: "chars \<Rightarrow> nat \<Rightarrow> (cc_stop, u32 \<times> nat) res" where
  "decode_utf8 b p = res_bind (char_at b p) (\<lambda>x.
     if x < 128 then Val (ucast x, p + 1)
     else let rest = (\<lambda>len c. res_bind (res_fold (continuation b p) [1..<len] c) (\<lambda>c. Val (c, p + len)))
       in if x \<ge> 0xF0 then rest 4 (ucast (x AND 7))
       else if x \<ge> 0xE0 then rest 3 (ucast (x AND 15))
       else if x \<ge> 0xC0 then rest 2 (ucast (x AND 31))
       else Stop (Error_at p ''invalid UTF-8 sequence''))"

type_synonym ranges = "(u32 \<times> u32) list"

definition in_range :: "ranges \<Rightarrow> u32 \<Rightarrow> bool" where
  "in_range t c = list_ex (\<lambda>(lo, hi). lo \<le> c \<and> c \<le> hi) t"

definition ident1_ranges :: ranges where
  "ident1_ranges = [
   (0x5F, 0x5F), (0x61, 0x7A), (0x41, 0x5A), (0x24, 0x24), (0xA8, 0xA8), (0xAA, 0xAA), (0xAD, 0xAD),
   (0xAF, 0xAF), (0xB2, 0xB5), (0xB7, 0xBA), (0xBC, 0xBE), (0xC0, 0xD6), (0xD8, 0xF6), (0xF8, 0xFF),
   (0x100, 0x2FF), (0x370, 0x167F), (0x1681, 0x180D), (0x180F, 0x1DBF), (0x1E00, 0x1FFF), (0x200B, 0x200D),
   (0x202A, 0x202E), (0x203F, 0x2040), (0x2054, 0x2054), (0x2060, 0x206F), (0x2070, 0x20CF), (0x2100, 0x218F),
   (0x2460, 0x24FF), (0x2776, 0x2793), (0x2C00, 0x2DFF), (0x2E80, 0x2FFF), (0x3004, 0x3007), (0x3021, 0x302F),
   (0x3031, 0x303F), (0x3040, 0xD7FF), (0xF900, 0xFD3D), (0xFD40, 0xFDCF), (0xFDF0, 0xFE1F), (0xFE30, 0xFE44),
   (0xFE47, 0xFFFD), (0x10000, 0x1FFFD), (0x20000, 0x2FFFD), (0x30000, 0x3FFFD), (0x40000, 0x4FFFD),
   (0x50000, 0x5FFFD), (0x60000, 0x6FFFD), (0x70000, 0x7FFFD), (0x80000, 0x8FFFD), (0x90000, 0x9FFFD),
   (0xA0000, 0xAFFFD), (0xB0000, 0xBFFFD), (0xC0000, 0xCFFFD), (0xD0000, 0xDFFFD), (0xE0000, 0xEFFFD)]"

definition ident2_ranges :: ranges where
  "ident2_ranges = [
   (0x30, 0x39), (0x24, 0x24), (0x300, 0x36F), (0x1DC0, 0x1DFF), (0x20D0, 0x20FF), (0xFE20, 0xFE2F)]"

definition width0_ranges :: ranges where
  "width0_ranges = [
   (0x0, 0x1F), (0x7F, 0xA0), (0x300, 0x36F), (0x483, 0x486), (0x488, 0x489), (0x591, 0x5BD), (0x5BF, 0x5BF),
   (0x5C1, 0x5C2), (0x5C4, 0x5C5), (0x5C7, 0x5C7), (0x600, 0x603), (0x610, 0x615), (0x64B, 0x65E),
   (0x670, 0x670), (0x6D6, 0x6E4), (0x6E7, 0x6E8), (0x6EA, 0x6ED), (0x70F, 0x70F), (0x711, 0x711),
   (0x730, 0x74A), (0x7A6, 0x7B0), (0x7EB, 0x7F3), (0x901, 0x902), (0x93C, 0x93C), (0x941, 0x948),
   (0x94D, 0x94D), (0x951, 0x954), (0x962, 0x963), (0x981, 0x981), (0x9BC, 0x9BC), (0x9C1, 0x9C4),
   (0x9CD, 0x9CD), (0x9E2, 0x9E3), (0xA01, 0xA02), (0xA3C, 0xA3C), (0xA41, 0xA42), (0xA47, 0xA48),
   (0xA4B, 0xA4D), (0xA70, 0xA71), (0xA81, 0xA82), (0xABC, 0xABC), (0xAC1, 0xAC5), (0xAC7, 0xAC8),
   (0xACD, 0xACD), (0xAE2, 0xAE3), (0xB01, 0xB01), (0xB3C, 0xB3C), (0xB3F, 0xB3F), (0xB41, 0xB43),
   (0xB4D, 0xB4D), (0xB56, 0xB56), (0xB82, 0xB82), (0xBC0, 0xBC0), (0xBCD, 0xBCD), (0xC3E, 0xC40),
   (0xC46, 0xC48), (0xC4A, 0xC4D), (0xC55, 0xC56), (0xCBC, 0xCBC), (0xCBF, 0xCBF), (0xCC6, 0xCC6),
   (0xCCC, 0xCCD), (0xCE2, 0xCE3), (0xD41, 0xD43), (0xD4D, 0xD4D), (0xDCA, 0xDCA), (0xDD2, 0xDD4),
   (0xDD6, 0xDD6), (0xE31, 0xE31), (0xE34, 0xE3A), (0xE47, 0xE4E), (0xEB1, 0xEB1), (0xEB4, 0xEB9),
   (0xEBB, 0xEBC), (0xEC8, 0xECD), (0xF18, 0xF19), (0xF35, 0xF35), (0xF37, 0xF37), (0xF39, 0xF39),
   (0xF71, 0xF7E), (0xF80, 0xF84), (0xF86, 0xF87), (0xF90, 0xF97), (0xF99, 0xFBC), (0xFC6, 0xFC6),
   (0x102D, 0x1030), (0x1032, 0x1032), (0x1036, 0x1037), (0x1039, 0x1039), (0x1058, 0x1059), (0x1160, 0x11FF),
   (0x135F, 0x135F), (0x1712, 0x1714), (0x1732, 0x1734), (0x1752, 0x1753), (0x1772, 0x1773), (0x17B4, 0x17B5),
   (0x17B7, 0x17BD), (0x17C6, 0x17C6), (0x17C9, 0x17D3), (0x17DD, 0x17DD), (0x180B, 0x180D), (0x18A9, 0x18A9),
   (0x1920, 0x1922), (0x1927, 0x1928), (0x1932, 0x1932), (0x1939, 0x193B), (0x1A17, 0x1A18), (0x1B00, 0x1B03),
   (0x1B34, 0x1B34), (0x1B36, 0x1B3A), (0x1B3C, 0x1B3C), (0x1B42, 0x1B42), (0x1B6B, 0x1B73), (0x1DC0, 0x1DCA),
   (0x1DFE, 0x1DFF), (0x200B, 0x200F), (0x202A, 0x202E), (0x2060, 0x2063), (0x206A, 0x206F), (0x20D0, 0x20EF),
   (0x302A, 0x302F), (0x3099, 0x309A), (0xA806, 0xA806), (0xA80B, 0xA80B), (0xA825, 0xA826), (0xFB1E, 0xFB1E),
   (0xFE00, 0xFE0F), (0xFE20, 0xFE23), (0xFEFF, 0xFEFF), (0xFFF9, 0xFFFB), (0x10A01, 0x10A03),
   (0x10A05, 0x10A06), (0x10A0C, 0x10A0F), (0x10A38, 0x10A3A), (0x10A3F, 0x10A3F), (0x1D167, 0x1D169),
   (0x1D173, 0x1D182), (0x1D185, 0x1D18B), (0x1D1AA, 0x1D1AD), (0x1D242, 0x1D244), (0xE0001, 0xE0001),
   (0xE0020, 0xE007F), (0xE0100, 0xE01EF)]"

definition width2_ranges :: ranges where
  "width2_ranges = [
   (0x1100, 0x115F), (0x2329, 0x2329), (0x232A, 0x232A), (0x2E80, 0x303E), (0x3040, 0xA4CF), (0xAC00, 0xD7A3),
   (0xF900, 0xFAFF), (0xFE10, 0xFE19), (0xFE30, 0xFE6F), (0xFF00, 0xFF60), (0xFFE0, 0xFFE6),
   (0x1F000, 0x1F644), (0x20000, 0x2FFFD), (0x30000, 0x3FFFD)]"

definition is_ident1 :: "u32 \<Rightarrow> bool" where
  "is_ident1 c = in_range ident1_ranges c"

definition is_ident2 :: "u32 \<Rightarrow> bool" where
  "is_ident2 c \<longleftrightarrow> is_ident1 c \<or> in_range ident2_ranges c"

definition char_width :: "u32 \<Rightarrow> nat" where
  "char_width c = (if in_range width0_ranges c then 0 else if in_range width2_ranges c then 2 else 1)"

text \<open>The loop of \<^verbatim>\<open>display_width\<close>; it ends because a decoded character has at least one byte.\<close>

lemma decode_utf8_next: "decode_utf8 b p = Val (c, q) \<Longrightarrow> p < q"
  by (auto simp: decode_utf8_def Let_def res_bind_eq_Val split: if_splits)

function width_loop :: "chars \<Rightarrow> nat \<Rightarrow> nat \<Rightarrow> nat \<Rightarrow> (cc_stop, nat) res" where
  "width_loop b p lim w =
     (if p < lim
      then (case decode_utf8 b p of
          Val (c, q) \<Rightarrow> width_loop b q lim (w + char_width c)
        | Stop e \<Rightarrow> Stop e
        | Unsafe \<Rightarrow> Unsafe)
      else Val w)"
  by pat_completeness auto
termination by (relation "measure (\<lambda>(b, p, lim, w). lim - p)") (auto dest: decode_utf8_next)

declare width_loop.simps [simp del]

definition display_width :: "chars \<Rightarrow> nat \<Rightarrow> nat \<Rightarrow> (cc_stop, nat) res" where
  "display_width b p len = width_loop b p (p + len) 0"

section \<open>Round trip\<close>

lemma bit_high: "bit (c :: u32) n \<Longrightarrow> unat c < 2 ^ k \<Longrightarrow> n < k"
  by (metis bit_take_bit_iff linorder_not_less take_bit_nat_eq_self unsigned_take_bit_eq word_unat_eq_iff)

lemma masks:
  "(0x3F :: u32) = mask 6" "(0x3F :: u8) = mask 6" "(31 :: u8) = mask 5" "(15 :: u8) = mask 4" "(7 :: u8) = mask 3"
  "(0xC0 :: u32) = push_bit 6 (mask 2)" "(0xE0 :: u32) = push_bit 5 (mask 3)" "(0xF0 :: u32) = push_bit 4 (mask 4)"
  by (simp_all add: mask_eq_exp_minus_1)

lemma lead:
  fixes c :: u32
  shows "unat c < 2 ^ 11 \<Longrightarrow> ucast ((ucast (0xC0 OR drop_bit 6 c) :: u8) AND 31) = (drop_bit 6 c :: u32)"
    "unat c < 2 ^ 16 \<Longrightarrow> ucast ((ucast (0xE0 OR drop_bit 12 c) :: u8) AND 15) = (drop_bit 12 c :: u32)"
    "unat c < 2 ^ 21 \<Longrightarrow> ucast ((ucast (0xF0 OR drop_bit 18 c) :: u8) AND 7) = (drop_bit 18 c :: u32)"
proof -
  show "unat c < 2 ^ 11 \<Longrightarrow> ucast ((ucast (0xC0 OR drop_bit 6 c) :: u8) AND 31) = (drop_bit 6 c :: u32)"
    using bit_high [of c _ 11] unfolding masks by (intro bit_word_eqI) (fastforce simp: bit_simps)
  show "unat c < 2 ^ 16 \<Longrightarrow> ucast ((ucast (0xE0 OR drop_bit 12 c) :: u8) AND 15) = (drop_bit 12 c :: u32)"
    using bit_high [of c _ 16] unfolding masks by (intro bit_word_eqI) (fastforce simp: bit_simps)
  show "unat c < 2 ^ 21 \<Longrightarrow> ucast ((ucast (0xF0 OR drop_bit 18 c) :: u8) AND 7) = (drop_bit 18 c :: u32)"
    using bit_high [of c _ 21] unfolding masks by (intro bit_word_eqI) (fastforce simp: bit_simps)
qed

lemma trail:
  fixes c :: u32
  shows "drop_bit 6 (ucast (0x80 OR (c AND 0x3F)) :: u8) = 2" "ucast ((ucast (0x80 OR (c AND 0x3F)) :: u8) AND 0x3F) = c AND 0x3F"
proof -
  have b: "bit (0x80 :: u32) n \<longleftrightarrow> n = 7" for n
    using bit_exp_iff [where 'a = "32 word", of 7 n] by auto
  have b8: "bit (0x80 :: u8) n \<longleftrightarrow> n = 7" for n
    using bit_exp_iff [where 'a = "8 word", of 7 n] by auto
  have bn: "bit (0x80 :: nat) n \<longleftrightarrow> n = 7" for n
    using bit_exp_iff [where 'a = nat, of 7 n] by auto
  have bi: "bit (0x80 :: int) n \<longleftrightarrow> n = 7" for n
    using bit_exp_iff [where 'a = int, of 7 n] by auto
  have t: "bit (2 :: u8) n \<longleftrightarrow> n = 1" for n
    using bit_exp_iff [where 'a = "8 word", of 1 n] by auto
  have "ucast (0x80 :: u32) = (0x80 :: u8)" by simp
  show "drop_bit 6 (ucast (0x80 OR (c AND 0x3F)) :: u8) = 2"
    unfolding masks by (rule bit_word_eqI) (auto simp: bit_simps b b8 bn bi t)
  show "ucast ((ucast (0x80 OR (c AND 0x3F)) :: u8) AND 0x3F) = c AND 0x3F"
    unfolding masks by (rule bit_word_eqI) (auto simp: bit_simps b b8 bn bi)
qed

lemma split_6: "push_bit 6 (drop_bit (6 + k) c) OR (drop_bit k c AND 0x3F) = drop_bit k (c :: u32)"
  unfolding masks by (rule bit_word_eqI) (auto simp: bit_simps)

lemma unat_lead:
  fixes c :: u32
  shows "unat c < 2 ^ 11 \<Longrightarrow> unat (ucast (0xC0 OR drop_bit 6 c) :: u8) = 0xC0 + unat c div 2 ^ 6"
    "unat c < 2 ^ 16 \<Longrightarrow> unat (ucast (0xE0 OR drop_bit 12 c) :: u8) = 0xE0 + unat c div 2 ^ 12"
    "unat c < 2 ^ 21 \<Longrightarrow> unat (ucast (0xF0 OR drop_bit 18 c) :: u8) = 0xF0 + unat c div 2 ^ 18"
proof -
  have lead: "unat (ucast (m OR drop_bit k c) :: u8) = unat m + unat c div 2 ^ k"
    if "m AND drop_bit k c = 0" "unat m + unat c div 2 ^ k < 256" for m and k
  proof -
    have "unat (drop_bit k c) = unat c div 2 ^ k" unfolding unat_drop_bit_eq by (simp add: drop_bit_eq_div)
    then have "unat (m OR drop_bit k c) = unat m + unat c div 2 ^ k"
      using that by (simp add: disjunctive_add_eq_or [symmetric] unat_word_ariths)
    then show ?thesis using that(2) by (simp add: unsigned_ucast_eq take_bit_nat_eq_self)
  qed
  show "unat c < 2 ^ 11 \<Longrightarrow> unat (ucast (0xC0 OR drop_bit 6 c) :: u8) = 0xC0 + unat c div 2 ^ 6"
    using bit_high [of c _ 11] unfolding masks
    by (subst lead) (fastforce intro: bit_word_eqI simp: bit_simps, simp_all add: mask_eq_exp_minus_1 less_mult_imp_div_less)
  show "unat c < 2 ^ 16 \<Longrightarrow> unat (ucast (0xE0 OR drop_bit 12 c) :: u8) = 0xE0 + unat c div 2 ^ 12"
    using bit_high [of c _ 16] unfolding masks
    by (subst lead) (fastforce intro: bit_word_eqI simp: bit_simps, simp_all add: mask_eq_exp_minus_1 less_mult_imp_div_less)
  show "unat c < 2 ^ 21 \<Longrightarrow> unat (ucast (0xF0 OR drop_bit 18 c) :: u8) = 0xF0 + unat c div 2 ^ 18"
    using bit_high [of c _ 21] unfolding masks
    by (subst lead) (fastforce intro: bit_word_eqI simp: bit_simps, simp_all add: mask_eq_exp_minus_1 less_mult_imp_div_less)
qed

lemma continuation_app:
  "i < length bs \<Longrightarrow> drop_bit 6 (bs ! i) = 2 \<Longrightarrow>
   continuation (xs @ bs) (length xs) i c = Val (push_bit 6 c OR ucast ((bs ! i) AND 0x3F))"
  by (simp add: continuation_def char_at_def nth_append)

lemma upt_1: "[1..<2] = [1 :: nat]" "[1..<3] = [1, 2 :: nat]" "[1..<4] = [1, 2, 3 :: nat]"
    "[Suc 0..<2] = [1 :: nat]" "[Suc 0..<3] = [1, 2 :: nat]" "[Suc 0..<4] = [1, 2, 3 :: nat]"
  by (simp_all add: upt_rec)

lemma decode_forms:
  fixes x y z w :: u8
  shows "x < 0x80 \<Longrightarrow> decode_utf8 (xs @ x # ys) (length xs) = Val (ucast x, length xs + 1)"
    "0xC0 \<le> unat x \<Longrightarrow> unat x < 0xE0 \<Longrightarrow> drop_bit 6 y = 2 \<Longrightarrow>
      decode_utf8 (xs @ x # y # ys) (length xs) = Val (push_bit 6 (ucast (x AND 31)) OR ucast (y AND 0x3F), length xs + 2)"
    "0xE0 \<le> unat x \<Longrightarrow> unat x < 0xF0 \<Longrightarrow> drop_bit 6 y = 2 \<Longrightarrow> drop_bit 6 z = 2 \<Longrightarrow>
      decode_utf8 (xs @ x # y # z # ys) (length xs) =
        Val (push_bit 6 (push_bit 6 (ucast (x AND 15)) OR ucast (y AND 0x3F)) OR ucast (z AND 0x3F), length xs + 3)"
    "0xF0 \<le> unat x \<Longrightarrow> drop_bit 6 y = 2 \<Longrightarrow> drop_bit 6 z = 2 \<Longrightarrow> drop_bit 6 w = 2 \<Longrightarrow>
      decode_utf8 (xs @ x # y # z # w # ys) (length xs) =
        Val (push_bit 6 (push_bit 6 (push_bit 6 (ucast (x AND 7)) OR ucast (y AND 0x3F)) OR ucast (z AND 0x3F)) OR ucast (w AND 0x3F),
          length xs + 4)"
  by (auto simp: decode_utf8_def char_at_def continuation_app upt_1 word_le_nat_alt word_less_nat_alt Let_def)

lemma decode_encode:
  assumes "unat c < 2 ^ 21"
  shows "decode_utf8 (xs @ encode_utf8 c @ ys) (length xs) = Val (c, length xs + length (encode_utf8 c))"
proof -
  have s: "push_bit 6 (drop_bit 6 c) OR (c AND 0x3F) = c" "push_bit 6 (drop_bit 12 c) OR (drop_bit 6 c AND 0x3F) = drop_bit 6 c"
    "push_bit 6 (drop_bit 18 c) OR (drop_bit 12 c AND 0x3F) = drop_bit 12 c"
    using split_6 [of 0 c] split_6 [of 6 c] split_6 [of 12 c] by simp_all
  consider "unat c < 2 ^ 7" | "2 ^ 7 \<le> unat c" "unat c < 2 ^ 11" | "2 ^ 11 \<le> unat c" "unat c < 2 ^ 16" | "2 ^ 16 \<le> unat c" by linarith
  then show ?thesis
  proof cases
    case 1
    then have "(ucast c :: u8) < 128" "ucast (ucast c :: u8) = c"
      by (simp_all add: word_less_nat_alt word_unat_eq_iff unsigned_ucast_eq unsigned_take_bit_eq take_bit_nat_eq_self)
    then show ?thesis using 1 by (simp add: encode_utf8_def decode_forms word_le_nat_alt)
  next
    case 2
    then have "unat c div 2 ^ 6 < 2 ^ 5" by (simp add: less_mult_imp_div_less)
    with 2 have "0xC0 \<le> unat (ucast (0xC0 OR drop_bit 6 c) :: u8)" "unat (ucast (0xC0 OR drop_bit 6 c) :: u8) < 0xE0"
      by (simp_all only: unat_lead) simp_all
    from decode_forms(2) [OF this trail(1), of xs c ys] 2 show ?thesis
      by (simp only: lead trail s) (simp add: encode_utf8_def word_le_nat_alt)
  next
    case 3
    then have "unat c div 2 ^ 12 < 2 ^ 4" by (simp add: less_mult_imp_div_less)
    with 3 have "0xE0 \<le> unat (ucast (0xE0 OR drop_bit 12 c) :: u8)" "unat (ucast (0xE0 OR drop_bit 12 c) :: u8) < 0xF0"
      by (simp_all only: unat_lead) simp_all
    from decode_forms(3) [OF this trail(1) trail(1), of xs "drop_bit 6 c" c ys] 3 show ?thesis
      by (simp only: lead trail s) (simp add: encode_utf8_def word_le_nat_alt)
  next
    case 4
    have "0xF0 \<le> unat (ucast (0xF0 OR drop_bit 18 c) :: u8)"
      using assms by (simp only: unat_lead)
    from decode_forms(4) [OF this trail(1) trail(1) trail(1), of xs "drop_bit 12 c" "drop_bit 6 c" c ys] 4 assms show ?thesis
      by (simp only: lead trail s) (simp add: encode_utf8_def word_le_nat_alt)
  qed
qed

section \<open>Staying inside\<close>

text \<open>Decoding at or before a NUL stays at or before it, and passes it only when it is the character decoded.\<close>

lemma drop_bit_6_ge: "drop_bit 6 (x :: u8) = 2 \<Longrightarrow> 0x80 \<le> unat x"
proof -
  assume "drop_bit 6 x = 2"
  then have "unat x div 64 = 2" using unat_drop_bit_eq [of 6 x] by (simp add: drop_bit_eq_div)
  then show ?thesis by linarith
qed

lemma continuation_inside:
  assumes "start + i \<le> N" "N < length b" "b ! N = 0"
  shows "continuation b start i c = Stop (Error_at start ''invalid UTF-8 sequence'')
    \<or> (\<exists>d. continuation b start i c = Val d) \<and> start + i < N \<and> 0x80 \<le> unat (b ! (start + i))"
proof (cases "drop_bit 6 (b ! (start + i)) = 2")
  case True
  then have "start + i \<noteq> N" using assms(3) by auto
  then show ?thesis using True assms drop_bit_6_ge by (simp add: continuation_def char_at_def)
qed (use assms in \<open>simp add: continuation_def char_at_def\<close>)

lemma continuations_inside:
  "start + i \<le> N \<Longrightarrow> N < length b \<Longrightarrow> b ! N = 0 \<Longrightarrow>
   res_fold (continuation b start) [i..<i + k] c = Stop (Error_at start ''invalid UTF-8 sequence'')
   \<or> (\<exists>d. res_fold (continuation b start) [i..<i + k] c = Val d) \<and> start + i + k \<le> N
      \<and> (\<forall>j. start + i \<le> j \<and> j < start + i + k \<longrightarrow> 0x80 \<le> unat (b ! j))"
proof (induction k arbitrary: i c)
  case (Suc k)
  have u: "[i..<i + Suc k] = i # [Suc i..<Suc i + k]" by (simp add: upt_conv_Cons del: upt_Suc)
  show ?case
  proof (cases "continuation b start i c")
    case (Val d)
    with continuation_inside [OF Suc.prems, of c] have 1: "start + i < N" "0x80 \<le> unat (b ! (start + i))" by auto
    have "start + Suc i \<le> N" using 1(1) by simp
    from Suc.IH [OF this Suc.prems(2,3), of d] show ?thesis
    proof (elim disjE conjE)
      assume a: "\<forall>j. start + Suc i \<le> j \<and> j < start + Suc i + k \<longrightarrow> 0x80 \<le> unat (b ! j)"
      have "0x80 \<le> unat (b ! j)" if "start + i \<le> j" "j < start + i + Suc k" for j
        using a 1(2) that by (cases "j = start + i") auto
      moreover assume "\<exists>e. res_fold (continuation b start) [Suc i..<Suc i + k] d = Val e" "start + Suc i + k \<le> N"
      ultimately show ?thesis unfolding u using Val by simp
    qed (unfold u, use Val in simp)
  qed (use continuation_inside [OF Suc.prems, of c] in \<open>unfold u, auto\<close>)
qed simp

lemma decode_inside:
  assumes "p \<le> N" "N < length b" "b ! N = 0"
  shows "(\<exists>e. decode_utf8 b p = Stop e)
    \<or> (\<exists>c q. decode_utf8 b p = Val (c, q) \<and> p < q \<and> (q \<le> N \<or> p = N \<and> c = 0 \<and> q = N + 1)
        \<and> (q = p + 1 \<and> c = ucast (b ! p) \<and> b ! p < 0x80
           \<or> p + 1 < q \<and> 0x80 \<le> unat (b ! p) \<and> (\<forall>j. p \<le> j \<and> j < q \<longrightarrow> 0x80 \<le> unat (b ! j))))"
proof (cases "b ! p < 128")
  case True
  then have "decode_utf8 b p = Val (ucast (b ! p), p + 1)" using assms by (simp add: decode_utf8_def char_at_def)
  moreover have "p + 1 \<le> N \<or> p = N" using assms(1) by auto
  ultimately show ?thesis using True assms(3) by auto
next
  case False
  then have h: "0x80 \<le> unat (b ! p)" by (simp add: word_less_nat_alt)
  then have "p \<noteq> N" using assms(3) by auto
  then have n: "p + 1 \<le> N" using assms(1) by simp
  have c: "char_at b p = Val (b ! p)" using assms by (simp add: char_at_def)
  define good where "good r \<longleftrightarrow> (\<exists>e. r = Stop e)
    \<or> (\<exists>d q. r = Val (d, q) \<and> p + 1 < q \<and> q \<le> N \<and> (\<forall>j. p \<le> j \<and> j < q \<longrightarrow> 0x80 \<le> unat (b ! j)))"
    for r :: "(cc_stop, u32 \<times> nat) res"
  have rest: "good (res_bind (res_fold (continuation b p) [1..<m] d) (\<lambda>d. Val (d, p + m)))" if "2 \<le> m" for m d
  proof -
    have m: "2 \<le> m" by fact
    then have "1 \<le> m" by simp
    then obtain k where k: "m = 1 + k" by (metis le_Suc_ex)
    have "p = j \<or> p + 1 \<le> j" if "p \<le> j" for j using that by auto
    then have "0x80 \<le> unat (b ! j)" if "\<forall>j. p + 1 \<le> j \<and> j < p + 1 + k \<longrightarrow> 0x80 \<le> unat (b ! j)" "p \<le> j" "j < p + m" for j
      using that h k by (metis add.assoc)
    moreover have "1 \<le> k" using m k by simp
    ultimately show ?thesis using continuations_inside [OF n assms(2,3), of k d] k by (auto simp: good_def)
  qed
  have "good (decode_utf8 b p)"
    using False rest [of 2] rest [of 3] rest [of 4] unfolding decode_utf8_def Let_def c res_bind.simps by (simp add: good_def)
  then show ?thesis using h by (auto simp: good_def)
qed

section \<open>Properties\<close>

text \<open>
  C31. UTF-8 round trip: what \<^verbatim>\<open>encode_utf8\<close> writes for a character below \<^verbatim>\<open>0x200000\<close>, \<^verbatim>\<open>decode_utf8\<close> reads back,
  in any text and with the position after it; and on any text that has a NUL at or after the position decoding
  does not read outside the text, and does not pass the NUL unless it stands on it.
\<close>

theorem utf8_correct:
  "(unat c < 2 ^ 21 \<longrightarrow> decode_utf8 (xs @ encode_utf8 c @ ys) (length xs) = Val (c, length xs + length (encode_utf8 c)))
    \<and> (p \<le> N \<and> N < length b \<and> b ! N = 0 \<longrightarrow> decode_utf8 b p \<noteq> Unsafe
        \<and> (\<forall>d q. decode_utf8 b p = Val (d, q) \<longrightarrow> p < q \<and> (q \<le> N \<or> p = N \<and> q = N + 1)))"
  using decode_encode [of c xs ys] decode_inside [of p N b] by auto

lemma utf8_correct_witness:
  "decode_utf8 ([0x61] @ encode_utf8 0x20AC @ [0]) 1 = Val (0x20AC, 1 + length (encode_utf8 0x20AC))
    \<and> decode_utf8 [0xE2, 0x82, 0] 0 \<noteq> Unsafe"
  using utf8_correct [of "0x20AC" "[0x61]" "[0]" 0 2 "[0xE2, 0x82, 0]"] by simp

end
