(* ===== verification/Cc_Lexer.thy ===== *)
theory Cc_Lexer
  imports Cc_Unicode Cc_Types
begin

text \<open>
  The lexer of the compiler, \<^verbatim>\<open>src/cc/tokenize.c\<close>. A file is its buffer, a pointer into it a position; every
  character is read through \<^const>\<open>char_at\<close>, so that a read past the buffer is \<open>Unsafe\<close>, as is a store past a
  literal's buffer. \<^verbatim>\<open>error_at\<close> and \<^verbatim>\<open>error_tok\<close> end the compiler with a position and a message. The two flags
  \<^verbatim>\<open>at_bol\<close> and \<^verbatim>\<open>has_space\<close>, static in the code, are passed along. A string literal's contents are the elements
  of its array. A number is left as a pp-number: its conversion (\<^verbatim>\<open>convert_pp_tokens\<close>) is not modelled.
\<close>

section \<open>Tokens\<close>

datatype token_kind = TK_IDENT | TK_PUNCT | TK_KEYWORD | TK_STR | TK_NUM | TK_PP_NUM | TK_EOF

record token =
  tk_kind :: token_kind
  tk_loc :: nat
  tk_len :: nat
  tk_val :: u64
  tk_fval :: u64
  tk_ty :: "ctype option"
  tk_str :: "u32 list"
  tk_line :: nat
  tk_bol :: bool
  tk_space :: bool

type_synonym 'a lex = "(cc_stop, 'a) res"

definition new_token :: "token_kind \<Rightarrow> nat \<Rightarrow> nat \<Rightarrow> bool \<times> bool \<Rightarrow> token" where
  "new_token kind start fin flags =
     \<lparr>tk_kind = kind, tk_loc = start, tk_len = fin - start, tk_val = 0, tk_fval = 0, tk_ty = None, tk_str = [],
      tk_line = 0, tk_bol = fst flags, tk_space = snd flags\<rparr>"

section \<open>Characters\<close>

abbreviation ch :: "char \<Rightarrow> u8" where
  "ch c \<equiv> of_nat (of_char c)"

definition isdigit :: "u8 \<Rightarrow> bool" where
  "isdigit c \<longleftrightarrow> 0x30 \<le> c \<and> c \<le> 0x39"

definition isalpha :: "u8 \<Rightarrow> bool" where
  "isalpha c \<longleftrightarrow> 0x41 \<le> c \<and> c \<le> 0x5A \<or> 0x61 \<le> c \<and> c \<le> 0x7A"

definition isalnum :: "u8 \<Rightarrow> bool" where
  "isalnum c \<longleftrightarrow> isalpha c \<or> isdigit c"

definition isxdigit :: "u8 \<Rightarrow> bool" where
  "isxdigit c \<longleftrightarrow> isdigit c \<or> 0x41 \<le> c \<and> c \<le> 0x46 \<or> 0x61 \<le> c \<and> c \<le> 0x66"

definition isspace :: "u8 \<Rightarrow> bool" where
  "isspace c \<longleftrightarrow> c = 0x20 \<or> 9 \<le> c \<and> c \<le> 13"

definition ispunct :: "u8 \<Rightarrow> bool" where
  "ispunct c \<longleftrightarrow> 0x21 \<le> c \<and> c \<le> 0x7E \<and> \<not> isalnum c"

definition tolower :: "u8 \<Rightarrow> u8" where
  "tolower c = (if 0x41 \<le> c \<and> c \<le> 0x5A then c + 0x20 else c)"

definition from_hex :: "u8 \<Rightarrow> u32" where
  "from_hex c =
     (if 0x30 \<le> c \<and> c \<le> 0x39 then ucast (c - 0x30)
      else if 0x61 \<le> c \<and> c \<le> 0x66 then ucast (c - 0x61 + 10)
      else ucast (c - 0x41 + 10))"

text \<open>\<^verbatim>\<open>strncmp(p, q, strlen(q)) == 0\<close> and \<^verbatim>\<open>strncasecmp\<close>: the comparison stops at the first difference.\<close>

fun startswith :: "chars \<Rightarrow> nat \<Rightarrow> u8 list \<Rightarrow> bool lex" where
  "startswith b p [] = Val True"
| "startswith b p (x # xs) = res_bind (char_at b p) (\<lambda>c. if c = x then startswith b (p + 1) xs else Val False)"

fun starts_case :: "chars \<Rightarrow> nat \<Rightarrow> u8 list \<Rightarrow> bool lex" where
  "starts_case b p [] = Val True"
| "starts_case b p (x # xs) =
     res_bind (char_at b p) (\<lambda>c. if tolower c = x then starts_case b (p + 1) xs else Val False)"

text \<open>A test with an effect, and a search for the first position that satisfies a condition.\<close>

definition res_if :: "('e, bool) res \<Rightarrow> ('e, 'a) res \<Rightarrow> ('e, 'a) res \<Rightarrow> ('e, 'a) res" where
  "res_if c x y = res_bind c (\<lambda>t. if t then x else y)"

lemma char_at_Val: "char_at b p = Val c \<longleftrightarrow> p < length b \<and> c = b ! p"
  by (auto simp: char_at_def)

function find_char :: "(u8 \<Rightarrow> bool) \<Rightarrow> chars \<Rightarrow> nat \<Rightarrow> nat lex" where
  "find_char P b p = (case char_at b p of Val c \<Rightarrow> if P c then Val p else find_char P b (p + 1) | Stop e \<Rightarrow> Stop e | Unsafe \<Rightarrow> Unsafe)"
  by pat_completeness auto
termination by (relation "measure (\<lambda>(P, b, p). length b - p)") (auto simp: char_at_Val)

declare find_char.simps [simp del]

text \<open>\<^verbatim>\<open>strstr\<close>, \<^verbatim>\<open>strchr\<close>, \<^verbatim>\<open>strpbrk\<close>: the search ends at the terminator.\<close>

function strstr :: "chars \<Rightarrow> nat \<Rightarrow> u8 list \<Rightarrow> nat option lex" where
  "strstr b p q = (case startswith b p q of
       Val True \<Rightarrow> Val (Some p)
     | Val False \<Rightarrow> (case char_at b p of Val c \<Rightarrow> if c = 0 then Val None else strstr b (p + 1) q | Stop e \<Rightarrow> Stop e | Unsafe \<Rightarrow> Unsafe)
     | Stop e \<Rightarrow> Stop e | Unsafe \<Rightarrow> Unsafe)"
  by pat_completeness auto
termination by (relation "measure (\<lambda>(b, p, q). length b - p)") (auto simp: char_at_Val)

declare strstr.simps [simp del]

definition strpbrk :: "chars \<Rightarrow> nat \<Rightarrow> u8 list \<Rightarrow> nat option lex" where
  "strpbrk b p cs = res_bind (find_char (\<lambda>c. c = 0 \<or> c \<in> set cs) b p) (\<lambda>q.
     res_bind (char_at b q) (\<lambda>c. Val (if c = 0 then None else Some q)))"

section \<open>Identifiers and punctuators\<close>

lemma decode_utf8_step: "decode_utf8 b p = Val (c, q) \<Longrightarrow> p < q \<and> p < length b"
  by (rule conjI, erule decode_utf8_next) (auto simp: decode_utf8_def res_bind_eq_Val char_at_Val)

function ident_loop :: "chars \<Rightarrow> nat \<Rightarrow> nat lex" where
  "ident_loop b p = (case decode_utf8 b p of
       Val (c, q) \<Rightarrow> if is_ident2 c then ident_loop b q else Val p
     | Stop e \<Rightarrow> Stop e | Unsafe \<Rightarrow> Unsafe)"
  by pat_completeness auto
termination by (relation "measure (\<lambda>(b, p). length b - p)") (auto dest!: decode_utf8_step)

declare ident_loop.simps [simp del]

definition read_ident :: "chars \<Rightarrow> nat \<Rightarrow> nat lex" where
  "read_ident b start = res_bind (decode_utf8 b start) (\<lambda>(c, p).
     if is_ident1 c then res_bind (ident_loop b p) (\<lambda>q. Val (q - start)) else Val 0)"

definition puncts :: "u8 list list" where
  "puncts = map str [''<<='', ''>>='', ''...'', ''=='', ''!='', ''<='', ''>='', ''->'', ''+='',
     ''-='', ''*='', ''/='', ''++'', ''--'', ''%='', ''&='', ''|='', ''^='', ''&&'',
     ''||'', ''<<'', ''>>'', ''##'']"

fun first_punct :: "chars \<Rightarrow> nat \<Rightarrow> u8 list list \<Rightarrow> nat lex" where
  "first_punct b p [] = res_bind (char_at b p) (\<lambda>c. Val (if ispunct c then 1 else 0))"
| "first_punct b p (k # ks) = res_if (startswith b p k) (Val (length k)) (first_punct b p ks)"

definition read_punct :: "chars \<Rightarrow> nat \<Rightarrow> nat lex" where
  "read_punct b p = first_punct b p puncts"

section \<open>String and character literals\<close>

function hex_loop :: "chars \<Rightarrow> nat \<Rightarrow> u32 \<Rightarrow> (u32 \<times> nat) lex" where
  "hex_loop b p c = (case char_at b p of
       Val x \<Rightarrow> if isxdigit x then hex_loop b (p + 1) (push_bit 4 c + from_hex x) else Val (c, p)
     | Stop e \<Rightarrow> Stop e | Unsafe \<Rightarrow> Unsafe)"
  by pat_completeness auto
termination by (relation "measure (\<lambda>(b, p, c). length b - p)") (auto simp: char_at_Val)

declare hex_loop.simps [simp del]

definition isoctal :: "u8 \<Rightarrow> bool" where
  "isoctal x \<longleftrightarrow> 0x30 \<le> x \<and> x \<le> 0x37"

text \<open>\<^verbatim>\<open>int\<close> is kept in 32 bits: a hexadecimal escape shifts its upper digits out. A plain character is signed.\<close>

definition simple_escape :: "u8 \<Rightarrow> u32" where
  "simple_escape x =
     (if x = ch CHR ''a'' then 7 else if x = ch CHR ''b'' then 8 else if x = ch CHR ''t'' then 9
      else if x = ch CHR ''n'' then 10 else if x = ch CHR ''v'' then 11 else if x = ch CHR ''f'' then 12
      else if x = ch CHR ''r'' then 13 else if x = ch CHR ''e'' then 27 else scast x)"

definition read_escaped_char :: "chars \<Rightarrow> nat \<Rightarrow> (u32 \<times> nat) lex" where
  "read_escaped_char b p = res_bind (char_at b p) (\<lambda>x.
     if isoctal x
     then let c = ucast (x - 0x30) in res_bind (char_at b (p + 1)) (\<lambda>y.
          if isoctal y
          then let c = push_bit 3 c + ucast (y - 0x30) in res_bind (char_at b (p + 2)) (\<lambda>z.
               if isoctal z then Val (push_bit 3 c + ucast (z - 0x30), p + 3) else Val (c, p + 2))
          else Val (c, p + 1))
     else if x = ch CHR ''x''
     then res_bind (char_at b (p + 1)) (\<lambda>y.
          if \<not> isxdigit y then Stop (Error_at (p + 1) ''invalid hex escape sequence'') else hex_loop b (p + 1) 0)
     else Val (simple_escape x, p + 1))"

function string_end_loop :: "chars \<Rightarrow> nat \<Rightarrow> nat \<Rightarrow> nat lex" where
  "string_end_loop b start p = (case char_at b p of
       Val c \<Rightarrow>
         if c = 0x22 then Val p
         else if c = 10 \<or> c = 0 then Stop (Error_at start ''unclosed string literal'')
         else if c = 0x5C then string_end_loop b start (p + 2)
         else string_end_loop b start (p + 1)
     | Stop e \<Rightarrow> Stop e | Unsafe \<Rightarrow> Unsafe)"
  by pat_completeness auto
termination by (relation "measure (\<lambda>(b, start, p). length b - p)") (auto simp: char_at_Val)

declare string_end_loop.simps [simp del]

definition string_literal_end :: "chars \<Rightarrow> nat \<Rightarrow> nat lex" where
  "string_literal_end b p = string_end_loop b p p"

text \<open>What one step of each of the three literal readers stores, and where it goes on.\<close>

datatype coding = Narrow | Utf16 | Utf32

definition read_unit :: "coding \<Rightarrow> chars \<Rightarrow> nat \<Rightarrow> (u32 list \<times> nat) lex" where
  "read_unit k b p = res_bind (char_at b p) (\<lambda>x.
     if x = 0x5C
     then res_bind (read_escaped_char b (p + 1)) (\<lambda>(c, q).
       Val ([case k of Narrow \<Rightarrow> take_bit 8 c | Utf16 \<Rightarrow> take_bit 16 c | Utf32 \<Rightarrow> c], q))
     else case k of
         Narrow \<Rightarrow> Val ([ucast x], p + 1)
       | Utf16 \<Rightarrow> res_bind (decode_utf8 b p) (\<lambda>(c, q).
           if c < 0x10000 then Val ([c], q)
           else let c = c - 0x10000
             in Val ([0xD800 + (drop_bit 10 c AND 0x3FF), 0xDC00 + (c AND 0x3FF)], q))
       | Utf32 \<Rightarrow> res_bind (decode_utf8 b p) (\<lambda>(c, q). Val ([c], q)))"

lemma hex_loop_next: "hex_loop b p c = Val (d, q) \<Longrightarrow> p \<le> q"
  by (induction b p c rule: hex_loop.induct) (subst (asm) (2) hex_loop.simps, auto split: res.splits if_splits)

lemma read_escaped_next: "read_escaped_char b p = Val (c, q) \<Longrightarrow> p < q"
  by (auto simp: read_escaped_char_def res_bind_eq_Val Let_def split: if_splits dest!: hex_loop_next)

lemma read_unit_next: "read_unit k b p = Val (us, q) \<Longrightarrow> p < q"
  by (auto simp: read_unit_def res_bind_eq_Val Let_def split: if_splits coding.splits
      dest: read_escaped_next decode_utf8_next)

function literal_loop :: "coding \<Rightarrow> chars \<Rightarrow> nat \<Rightarrow> nat \<Rightarrow> nat \<Rightarrow> u32 list \<Rightarrow> u32 list lex" where
  "literal_loop k b p fin cap buf =
     (if p < fin
      then (case read_unit k b p of
          Val (us, q) \<Rightarrow> if length (buf @ us) \<le> cap then literal_loop k b q fin cap (buf @ us) else Unsafe
        | Stop e \<Rightarrow> Stop e | Unsafe \<Rightarrow> Unsafe)
      else Val buf)"
  by pat_completeness auto
termination by (relation "measure (\<lambda>(k, b, p, fin, cap, buf). fin - p)") (auto dest: read_unit_next)

declare literal_loop.simps [simp del]

text \<open>
  The readers of literals: the buffer has as many elements as \<open>calloc\<close> is asked for, and its last one read is
  the terminator.
\<close>

definition read_literal :: "coding \<Rightarrow> ctype \<Rightarrow> chars \<Rightarrow> nat \<Rightarrow> nat \<Rightarrow> nat \<Rightarrow> bool \<times> bool \<Rightarrow> token lex" where
  "read_literal k ty b start quote base flags =
     res_bind (string_literal_end b (quote + 1)) (\<lambda>fin.
     res_bind (literal_loop k b (quote + 1) fin (fin - base) []) (\<lambda>buf.
     if length buf < fin - base
     then Val ((new_token TK_STR start (fin + 1) flags)\<lparr>tk_ty := Some (array_of ty (int (length buf) + 1)), tk_str := buf @ [0]\<rparr>)
     else Unsafe))"

definition read_string_literal :: "chars \<Rightarrow> nat \<Rightarrow> nat \<Rightarrow> bool \<times> bool \<Rightarrow> token lex" where
  "read_string_literal b start quote = read_literal Narrow ty_char b start quote quote"

definition read_utf16_string_literal :: "chars \<Rightarrow> nat \<Rightarrow> nat \<Rightarrow> bool \<times> bool \<Rightarrow> token lex" where
  "read_utf16_string_literal b start quote = read_literal Utf16 ty_ushort b start quote start"

definition read_utf32_string_literal :: "chars \<Rightarrow> nat \<Rightarrow> nat \<Rightarrow> ctype \<Rightarrow> bool \<times> bool \<Rightarrow> token lex" where
  "read_utf32_string_literal b start quote ty = read_literal Utf32 ty b start quote quote"

definition read_char_literal :: "chars \<Rightarrow> nat \<Rightarrow> nat \<Rightarrow> ctype \<Rightarrow> bool \<times> bool \<Rightarrow> token lex" where
  "read_char_literal b start quote ty flags = res_bind (char_at b (quote + 1)) (\<lambda>x.
     if x = 0 then Stop (Error_at start ''unclosed char literal'')
     else res_bind (if x = 0x5C then read_escaped_char b (quote + 2) else decode_utf8 b (quote + 1)) (\<lambda>(c, p).
     res_bind (strpbrk b p [0x27]) (\<lambda>r. case r of
         None \<Rightarrow> Stop (Error_at p ''unclosed char literal'')
       | Some fin \<Rightarrow> Val ((new_token TK_NUM start (fin + 1) flags)\<lparr>tk_val := scast c, tk_ty := Some ty\<rparr>))))"

section \<open>Numbers before conversion\<close>

function pp_loop :: "chars \<Rightarrow> nat \<Rightarrow> nat lex" where
  "pp_loop b p = (case char_at b p of
       Val x \<Rightarrow>
         (case (if x \<noteq> 0 then char_at b (p + 1) else Val 0) of
            Val y \<Rightarrow>
              if x \<noteq> 0 \<and> y \<noteq> 0 \<and> x \<in> set (str ''eEpP'') \<and> y \<in> set (str ''+-'') then pp_loop b (p + 2)
              else if isalnum x \<or> x = ch CHR ''.'' then pp_loop b (p + 1)
              else Val p
          | Stop e \<Rightarrow> Stop e | Unsafe \<Rightarrow> Unsafe)
     | Stop e \<Rightarrow> Stop e | Unsafe \<Rightarrow> Unsafe)"
  by pat_completeness auto
termination by (relation "measure (\<lambda>(b, p). length b - p)") (auto simp: char_at_Val)

declare pp_loop.simps [simp del]

section \<open>The lexer\<close>

text \<open>
  One round of the loop of \<^verbatim>\<open>tokenize\<close> at a character that is not NUL: nothing or a token, the next position
  (always \<^verbatim>\<open>p += cur->len\<close> after a token) and the flags.
\<close>

type_synonym round = "token option \<times> nat \<times> bool \<times> bool"

definition blank :: "nat \<Rightarrow> bool \<times> bool \<Rightarrow> round lex" where
  "blank p flags = Val (None, p, flags)"

definition emit :: "nat \<Rightarrow> token \<Rightarrow> round lex" where
  "emit p t = Val (Some t, p + tk_len t, False, False)"

definition lex_char :: "chars \<Rightarrow> nat \<Rightarrow> nat \<Rightarrow> ctype \<Rightarrow> (u64 \<Rightarrow> u64) \<Rightarrow> bool \<times> bool \<Rightarrow> round lex" where
  "lex_char b p quote ty f flags = res_bind (read_char_literal b p quote ty flags) (\<lambda>t. emit p (t\<lparr>tk_val := f (tk_val t)\<rparr>))"

definition lex_word :: "chars \<Rightarrow> nat \<Rightarrow> bool \<times> bool \<Rightarrow> round lex" where
  "lex_word b p flags = res_bind (read_ident b p) (\<lambda>n.
     if n \<noteq> 0 then emit p (new_token TK_IDENT p (p + n) flags)
     else res_bind (read_punct b p) (\<lambda>n.
       if n \<noteq> 0 then emit p (new_token TK_PUNCT p (p + n) flags)
       else Stop (Error_at p ''invalid token'')))"

definition lex_literal :: "chars \<Rightarrow> nat \<Rightarrow> u8 \<Rightarrow> bool \<times> bool \<Rightarrow> round lex" where
  "lex_literal b p x flags =
     (if x = 0x22 then res_bind (read_string_literal b p p flags) (emit p)
      else res_if (startswith b p (str [CHR ''u'', CHR ''8'', CHR 0x22]))
        (res_bind (read_string_literal b p (p + 2) flags) (emit p))
      (res_if (startswith b p (str [CHR ''u'', CHR 0x22]))
        (res_bind (read_utf16_string_literal b p (p + 1) flags) (emit p))
      (res_if (startswith b p (str [CHR ''L'', CHR 0x22]))
        (res_bind (read_utf32_string_literal b p (p + 1) ty_int flags) (emit p))
      (res_if (startswith b p (str [CHR ''U'', CHR 0x22]))
        (res_bind (read_utf32_string_literal b p (p + 1) ty_uint flags) (emit p))
      (if x = 0x27 then lex_char b p p ty_int (\<lambda>v. scast (ucast v :: u8)) flags
      else res_if (startswith b p (str [CHR ''u'', CHR 0x27])) (lex_char b p (p + 1) ty_ushort (\<lambda>v. v AND 0xFFFF) flags)
      (res_if (startswith b p (str [CHR ''L'', CHR 0x27])) (lex_char b p (p + 1) ty_int id flags)
      (res_if (startswith b p (str [CHR ''U'', CHR 0x27])) (lex_char b p (p + 1) ty_uint id flags)
      (lex_word b p flags))))))))"

definition lex_round :: "chars \<Rightarrow> nat \<Rightarrow> u8 \<Rightarrow> bool \<times> bool \<Rightarrow> round lex" where
  "lex_round b p x flags =
     res_if (startswith b p (str ''//''))
       (res_bind (find_char (\<lambda>c. c = 10) b (p + 2)) (\<lambda>q. blank q (fst flags, True)))
     (res_if (startswith b p (str ''/*''))
       (res_bind (strstr b (p + 2) (str ''*/'')) (\<lambda>r. case r of
            None \<Rightarrow> Stop (Error_at p ''unclosed block comment'')
          | Some q \<Rightarrow> blank (q + 2) (fst flags, True)))
     (if x = 10 then blank (p + 1) (True, False)
      else if isspace x then blank (p + 1) (fst flags, True)
      else res_if (if isdigit x then Val True
                   else if x = ch CHR ''.'' then res_bind (char_at b (p + 1)) (\<lambda>y. Val (isdigit y)) else Val False)
        (res_bind (pp_loop b (p + 1)) (\<lambda>q. emit p (new_token TK_PP_NUM p q flags)))
      (lex_literal b p x flags)))"

lemma find_char_ge: "find_char P b p = Val q \<Longrightarrow> p \<le> q"
proof (induction "length b - p" arbitrary: p rule: less_induct)
  case less
  have IH: "p' \<le> q" if "find_char P b p' = Val q" "p < p'" "p < length b" for p'
    using that by (intro less.hyps) auto
  show ?case using less.prems unfolding find_char.simps [of P b p]
    by (auto simp: char_at_Val split: res.splits if_splits dest!: IH)
qed

lemma strstr_ge: "strstr b p x = Val (Some q) \<Longrightarrow> p \<le> q"
proof (induction "length b - p" arbitrary: p rule: less_induct)
  case less
  have IH: "p' \<le> q" if "strstr b p' x = Val (Some q)" "p < p'" "p < length b" for p'
    using that by (intro less.hyps) auto
  show ?case using less.prems unfolding strstr.simps [of b p x]
    by (auto simp: char_at_Val split: res.splits if_splits bool.splits dest!: IH)
qed

lemma pp_loop_ge: "pp_loop b p = Val q \<Longrightarrow> p \<le> q"
proof (induction "length b - p" arbitrary: p rule: less_induct)
  case less
  have IH: "p' \<le> q" if "pp_loop b p' = Val q" "p < p'" "p < length b" for p'
    using that by (intro less.hyps) auto
  show ?case using less.prems unfolding pp_loop.simps [of b p]
    by (auto simp: char_at_Val split: res.splits if_splits dest!: IH)
qed

lemma string_end_ge: "string_end_loop b start p = Val q \<Longrightarrow> p \<le> q"
proof (induction "length b - p" arbitrary: p rule: less_induct)
  case less
  have IH: "p' \<le> q" if "string_end_loop b start p' = Val q" "p < p'" "p < length b" for p'
    using that by (intro less.hyps) auto
  show ?case using less.prems unfolding string_end_loop.simps [of b start p]
    by (auto simp: char_at_Val split: res.splits if_splits dest!: IH)
qed

lemma ident_loop_ge: "ident_loop b p = Val q \<Longrightarrow> p \<le> q"
proof (induction "length b - p" arbitrary: p rule: less_induct)
  case less
  have IH: "p' \<le> q" if "ident_loop b p' = Val q" "p < p'" "p < length b" for p'
    using that by (intro less.hyps) auto
  show ?case using less.prems unfolding ident_loop.simps [of b p]
    by (auto split: res.splits prod.splits if_splits dest!: IH decode_utf8_step)
qed

lemmas lexer_ge = find_char_ge strstr_ge pp_loop_ge string_end_ge ident_loop_ge

lemma new_token_len [simp]: "tk_len (new_token k p q flags) = q - p"
  by (simp add: new_token_def)

lemma res_if_Val: "res_if c x y = Val r \<longleftrightarrow> (\<exists>t. c = Val t \<and> (if t then x = Val r else y = Val r))"
  by (auto simp: res_if_def res_bind_eq_Val)

lemma emit_eq: "emit p t = Val (x, q, f) \<longleftrightarrow> x = Some t \<and> q = p + tk_len t \<and> f = (False, False)"
  by (auto simp: emit_def)

lemma read_literal_len: "read_literal k ty b start quote base flags = Val t \<Longrightarrow> start \<le> quote \<Longrightarrow> 0 < tk_len t"
  by (auto simp: read_literal_def res_bind_eq_Val string_literal_end_def split: if_splits dest!: lexer_ge)

lemma read_char_len:
  assumes "read_char_literal b start quote ty flags = Val t" "start \<le> quote"
  shows "0 < tk_len t"
proof -
  obtain x c p fin where "char_at b (quote + 1) = Val x" and *: "(if x = 0x5C then read_escaped_char b (quote + 2) else decode_utf8 b (quote + 1)) = Val (c, p)"
    "strpbrk b p [0x27] = Val (Some fin)" "t = (new_token TK_NUM start (fin + 1) flags)\<lparr>tk_val := scast c, tk_ty := Some ty\<rparr>"
    using assms(1) by (auto simp: read_char_literal_def res_bind_eq_Val split: if_splits option.splits)
  have "quote < p" using *(1) read_escaped_next [of b "quote + 2" c p] decode_utf8_next [of b "quote + 1" c p]
    by (auto split: if_splits)
  moreover have "p \<le> fin" using *(2) by (auto simp: strpbrk_def res_bind_eq_Val split: if_splits dest: find_char_ge)
  ultimately show ?thesis using *(3) assms(2) by simp
qed

lemma lex_word_next: "lex_word b p flags = Val (t, q, f) \<Longrightarrow> p < q"
  by (auto simp: lex_word_def res_bind_eq_Val emit_eq split: if_splits)

lemma res_if_cases: "res_if c x y = Val r \<Longrightarrow> (x = Val r \<Longrightarrow> P) \<Longrightarrow> (y = Val r \<Longrightarrow> P) \<Longrightarrow> P"
  by (auto simp: res_if_Val split: if_splits)

lemma if_Val_cases: "(if c then x else y) = Val r \<Longrightarrow> (x = Val r \<Longrightarrow> P) \<Longrightarrow> (y = Val r \<Longrightarrow> P) \<Longrightarrow> P"
  by (auto split: if_splits)

lemma emit_literal_next:
  "res_bind (read_literal k ty b p quote base flags) (emit p) = Val (t, q, f) \<Longrightarrow> p \<le> quote \<Longrightarrow> p < q"
  by (auto simp: res_bind_eq_Val emit_eq dest!: read_literal_len)

lemma lex_char_next: "lex_char b p quote ty g flags = Val (t, q, f) \<Longrightarrow> p \<le> quote \<Longrightarrow> p < q"
  by (auto simp: lex_char_def res_bind_eq_Val emit_eq dest!: read_char_len)

lemma lex_literal_next: "lex_literal b p x flags = Val (t, q, f) \<Longrightarrow> p < q"
  unfolding lex_literal_def read_string_literal_def read_utf16_string_literal_def read_utf32_string_literal_def
  by (elim res_if_cases emit_literal_next lex_char_next lex_word_next if_Val_cases; simp)

lemma lex_round_next: "lex_round b p x flags = Val (t, q, f) \<Longrightarrow> p < q"
  unfolding lex_round_def
  by (elim res_if_cases if_Val_cases lex_literal_next)
    (auto simp: res_bind_eq_Val emit_eq blank_def split: option.splits dest!: lexer_ge)

function lex_loop :: "chars \<Rightarrow> nat \<Rightarrow> bool \<times> bool \<Rightarrow> (token list \<times> nat \<times> bool \<times> bool) lex" where
  "lex_loop b p flags = (case char_at b p of
       Val x \<Rightarrow>
         if x = 0 then Val ([], p, flags)
         else (case lex_round b p x flags of
             Val (t, q, flags) \<Rightarrow> (case lex_loop b q flags of
                 Val (ts, r) \<Rightarrow> Val ((case t of None \<Rightarrow> ts | Some t \<Rightarrow> t # ts), r)
               | Stop e \<Rightarrow> Stop e | Unsafe \<Rightarrow> Unsafe)
           | Stop e \<Rightarrow> Stop e | Unsafe \<Rightarrow> Unsafe)
     | Stop e \<Rightarrow> Stop e | Unsafe \<Rightarrow> Unsafe)"
  by pat_completeness auto
termination
  by (relation "measure (\<lambda>(b, p, flags). length b - p)") (auto simp: char_at_Val dest!: lex_round_next)

declare lex_loop.simps [simp del]

text \<open>\<^verbatim>\<open>add_line_numbers\<close>: the walk over the text; a token list that ran out would be a null pointer.\<close>

function line_loop :: "chars \<Rightarrow> nat \<Rightarrow> nat \<Rightarrow> token list \<Rightarrow> token list lex" where
  "line_loop b p n ts = (case ts of
       [] \<Rightarrow> Unsafe
     | t # ts' \<Rightarrow> (case char_at b p of
         Val x \<Rightarrow>
           let here = (p = tk_loc t); rest = (if here then ts' else ts); n' = (if x = 10 then n + 1 else n)
           in if x = 0 then Val (if here then t\<lparr>tk_line := n\<rparr> # ts' else ts)
              else (case line_loop b (p + 1) n' rest of
                  Val us \<Rightarrow> Val (if here then t\<lparr>tk_line := n\<rparr> # us else us)
                | Stop e \<Rightarrow> Stop e | Unsafe \<Rightarrow> Unsafe)
       | Stop e \<Rightarrow> Stop e | Unsafe \<Rightarrow> Unsafe))"
  by pat_completeness auto
termination by (relation "measure (\<lambda>(b, p, n, ts). length b - p)") (auto simp: char_at_Val)

declare line_loop.simps [simp del]

definition add_line_numbers :: "chars \<Rightarrow> token list \<Rightarrow> token list lex" where
  "add_line_numbers b ts = line_loop b 0 1 ts"

definition tokenize :: "chars \<Rightarrow> token list lex" where
  "tokenize b = res_bind (lex_loop b 0 (True, False)) (\<lambda>(ts, p, flags).
     add_line_numbers b (ts @ [new_token TK_EOF p p flags]))"

section \<open>Files\<close>

definition put :: "chars \<Rightarrow> nat \<Rightarrow> u8 \<Rightarrow> chars lex" where
  "put b j x = (if j < length b then Val (b[j := x]) else Unsafe)"

fun put_all :: "chars \<Rightarrow> nat \<Rightarrow> u8 list \<Rightarrow> chars lex" where
  "put_all b j [] = Val b"
| "put_all b j (x # xs) = res_bind (put b j x) (\<lambda>b. put_all b (j + 1) xs)"

lemma put_Val: "put b j x = Val b' \<longleftrightarrow> j < length b \<and> b' = b[j := x]"
  by (auto simp: put_def)

lemma put_all_length: "put_all b j xs = Val b' \<Longrightarrow> length b' = length b"
  by (induction b j xs rule: put_all.induct) (auto simp: res_bind_eq_Val put_Val)

text \<open>
  What \<^verbatim>\<open>read_file\<close> returns for a file: its bytes, a newline if the last one is not one, and a terminator; one
  more NUL follows in the buffer of \<^verbatim>\<open>open_memstream\<close>.
\<close>

definition read_file :: "u8 list \<Rightarrow> chars" where
  "read_file bytes = bytes @ (if bytes = [] \<or> hd (rev bytes) \<noteq> 10 then [10] else []) @ [0, 0]"

function newline_loop :: "chars \<Rightarrow> nat \<Rightarrow> nat \<Rightarrow> chars lex" where
  "newline_loop b i j = (case char_at b i of
       Val x \<Rightarrow>
         if x = 0 then put b j 0
         else if x = 13
         then (case char_at b (i + 1) of
             Val y \<Rightarrow> (case put b j 10 of
                 Val b' \<Rightarrow> newline_loop b' (if y = 10 then i + 2 else i + 1) (j + 1) | Stop e \<Rightarrow> Stop e | Unsafe \<Rightarrow> Unsafe)
           | Stop e \<Rightarrow> Stop e | Unsafe \<Rightarrow> Unsafe)
         else (case put b j x of Val b' \<Rightarrow> newline_loop b' (i + 1) (j + 1) | Stop e \<Rightarrow> Stop e | Unsafe \<Rightarrow> Unsafe)
     | Stop e \<Rightarrow> Stop e | Unsafe \<Rightarrow> Unsafe)"
  by pat_completeness auto
termination by (relation "measure (\<lambda>(b, i, j). length b - i)") (auto simp: char_at_Val put_Val)

function splice_loop :: "chars \<Rightarrow> nat \<Rightarrow> nat \<Rightarrow> nat \<Rightarrow> chars lex" where
  "splice_loop b i j n = (case char_at b i of
       Val x \<Rightarrow>
         if x = 0 then res_bind (put_all b j (replicate n 10)) (\<lambda>b. put b (j + n) 0)
         else (case (if x = 0x5C then char_at b (i + 1) else Val 0) of
             Val y \<Rightarrow>
               if y = 10 then splice_loop b (i + 2) j (n + 1)
               else if x = 10
               then (case put_all b j (replicate (n + 1) 10) of
                   Val b' \<Rightarrow> splice_loop b' (i + 1) (j + n + 1) 0 | Stop e \<Rightarrow> Stop e | Unsafe \<Rightarrow> Unsafe)
               else (case put b j x of Val b' \<Rightarrow> splice_loop b' (i + 1) (j + 1) n | Stop e \<Rightarrow> Stop e | Unsafe \<Rightarrow> Unsafe)
           | Stop e \<Rightarrow> Stop e | Unsafe \<Rightarrow> Unsafe)
     | Stop e \<Rightarrow> Stop e | Unsafe \<Rightarrow> Unsafe)"
  by pat_completeness auto
termination
  by (relation "measure (\<lambda>(b, i, j, n). length b - i)") (auto simp: char_at_Val put_Val res_bind_eq_Val dest!: put_all_length)

fun read_universal_char :: "chars \<Rightarrow> nat \<Rightarrow> nat \<Rightarrow> u32 \<Rightarrow> u32 lex" where
  "read_universal_char b p 0 c = Val c"
| "read_universal_char b p (Suc n) c = res_bind (char_at b p) (\<lambda>x.
     if isxdigit x then read_universal_char b (p + 1) n (push_bit 4 c OR from_hex x) else Val 0)"

text \<open>One round: how far to read on, and what to write.\<close>

definition universal_round :: "chars \<Rightarrow> nat \<Rightarrow> u8 \<Rightarrow> (nat \<times> u8 list) lex" where
  "universal_round b p x =
     (let escaped = (\<lambda>n. res_bind (read_universal_char b (p + 2) n 0) (\<lambda>c.
            Val (if c \<noteq> 0 then (p + 2 + n, encode_utf8 c) else (p + 1, [x]))))
      in res_if (startswith b p (str [CHR 0x5C, CHR ''u''])) (escaped 4)
         (res_if (startswith b p (str [CHR 0x5C, CHR ''U''])) (escaped 8)
         (if x = 0x5C then res_bind (char_at b (p + 1)) (\<lambda>y. Val (p + 2, [x, y]))
          else Val (p + 1, [x]))))"

lemma universal_round_next: "universal_round b p x = Val (q, xs) \<Longrightarrow> p < q"
  by (auto simp: universal_round_def Let_def res_if_Val res_bind_eq_Val split: if_splits)

function universal_loop :: "chars \<Rightarrow> nat \<Rightarrow> nat \<Rightarrow> chars lex" where
  "universal_loop b p q = (case char_at b p of
       Val x \<Rightarrow>
         if x = 0 then put b q 0
         else (case universal_round b p x of
             Val (p', xs) \<Rightarrow> (case put_all b q xs of
                 Val b' \<Rightarrow> universal_loop b' p' (q + length xs) | Stop e \<Rightarrow> Stop e | Unsafe \<Rightarrow> Unsafe)
           | Stop e \<Rightarrow> Stop e | Unsafe \<Rightarrow> Unsafe)
     | Stop e \<Rightarrow> Stop e | Unsafe \<Rightarrow> Unsafe)"
  by pat_completeness auto
termination
  by (relation "measure (\<lambda>(b, p, q). length b - p)")
    (auto simp: char_at_Val dest!: universal_round_next put_all_length)

declare newline_loop.simps [simp del] splice_loop.simps [simp del] universal_loop.simps [simp del]

definition canonicalize_newline :: "chars \<Rightarrow> chars lex" where
  "canonicalize_newline b = newline_loop b 0 0"

definition remove_backslash_newline :: "chars \<Rightarrow> chars lex" where
  "remove_backslash_newline b = splice_loop b 0 0 0"

definition convert_universal_chars :: "chars \<Rightarrow> chars lex" where
  "convert_universal_chars b = universal_loop b 0 0"

definition file_text :: "u8 list \<Rightarrow> chars lex" where
  "file_text bytes =
     (let b = read_file bytes; b = (if take 3 b = [0xEF, 0xBB, 0xBF] then drop 3 b else b)
      in res_bind (canonicalize_newline b) (\<lambda>b. res_bind (remove_backslash_newline b) convert_universal_chars))"

definition tokenize_file :: "u8 list \<Rightarrow> token list lex" where
  "tokenize_file bytes = res_bind (file_text bytes) tokenize"

end
