(* ===== verification/Cc_Lexer_Safe.thy ===== *)
theory Cc_Lexer_Safe
  imports Cc_Lexer
begin

text \<open>
  The lexer stays inside its buffers. \<open>lines b N\<close> says that the buffer ends, at \<open>N\<close>, with a newline and a
  terminator, NULs inside included; the invariant of every function is that a position is at most \<open>N\<close>. The
  readers of literals follow the search for the closing quote, which bounds what they store.
\<close>

section \<open>Reading up to the terminator\<close>

abbreviation ok :: "('a \<Rightarrow> bool) \<Rightarrow> 'a lex \<Rightarrow> bool" where
  "ok P r \<equiv> res_ok P (\<lambda>_. True) r"

definition lines :: "chars \<Rightarrow> nat \<Rightarrow> bool" where
  "lines b N \<longleftrightarrow> N < length b \<and> b ! N = 0 \<and> 0 < N \<and> b ! (N - 1) = 10"

lemma char_ok: "lines b N \<Longrightarrow> p \<le> N \<Longrightarrow> char_at b p = Val (b ! p)"
  by (simp add: lines_def char_at_def)

lemma not_end: "lines b N \<Longrightarrow> p \<le> N \<Longrightarrow> b ! p \<noteq> 0 \<Longrightarrow> p < N"
  by (auto simp: lines_def le_less)

lemma not_newline: "lines b N \<Longrightarrow> p \<le> N \<Longrightarrow> b ! p \<noteq> 0 \<Longrightarrow> b ! p \<noteq> 10 \<Longrightarrow> p + 1 < N"
  using not_end [of b N p] by (cases "p + 1 = N") (auto simp: lines_def)

lemma ok_if: "ok P c \<Longrightarrow> (\<And>t. P t \<Longrightarrow> if t then ok Q x else ok Q y) \<Longrightarrow> ok Q (res_if c x y)"
  unfolding res_if_def by (erule res_ok_bind) (auto split: if_splits)

lemma decode_ok:
  assumes "lines b N" "p \<le> N"
  shows "ok (\<lambda>(c, q). p < q \<and> (q \<le> N \<or> p = N \<and> c = 0 \<and> q = N + 1)
      \<and> (q = p + 1 \<and> c = ucast (b ! p) \<and> b ! p < 0x80
         \<or> p + 1 < q \<and> 0x80 \<le> unat (b ! p) \<and> (\<forall>j. p \<le> j \<and> j < q \<longrightarrow> 0x80 \<le> unat (b ! j)))) (decode_utf8 b p)"
proof -
  have "N < length b" "b ! N = 0" using assms(1) by (simp_all add: lines_def)
  from decode_inside [OF assms(2) this] show ?thesis by auto
qed

definition matches :: "chars \<Rightarrow> nat \<Rightarrow> u8 list \<Rightarrow> bool" where
  "matches b p xs \<longleftrightarrow> (\<forall>i < length xs. b ! (p + i) = xs ! i)"

lemma matches_simps: "matches b p []" "matches b p (x # xs) \<longleftrightarrow> b ! p = x \<and> matches b (p + 1) xs"
  by (auto simp: matches_def less_Suc_eq_0_disj)

lemma startswith_ok:
  "lines b N \<Longrightarrow> p \<le> N \<Longrightarrow> 0 \<notin> set xs \<Longrightarrow>
   ok (\<lambda>t. (t \<longleftrightarrow> matches b p xs) \<and> (t \<longrightarrow> p + length xs \<le> N)) (startswith b p xs)"
proof (induction xs arbitrary: p)
  case (Cons x xs)
  show ?case
  proof (cases "b ! p = x")
    case True
    then have "p + 1 \<le> N" using Cons.prems not_end [of b N p] by auto
    from Cons.IH [OF Cons.prems(1) this] Cons.prems(3)
    have "ok (\<lambda>t. (t \<longleftrightarrow> matches b (p + 1) xs) \<and> (t \<longrightarrow> p + 1 + length xs \<le> N)) (startswith b (p + 1) xs)" by simp
    then have "ok (\<lambda>t. (t \<longleftrightarrow> matches b p (x # xs)) \<and> (t \<longrightarrow> p + length (x # xs) \<le> N)) (startswith b (p + 1) xs)"
      by (rule res_ok_mono) (use True in \<open>auto simp: matches_simps\<close>)
    then show ?thesis using True Cons.prems by (simp add: char_ok)
  qed (use Cons.prems in \<open>simp add: char_ok matches_simps\<close>)
qed (simp add: matches_simps)

lemma find_char_ok:
  assumes "lines b N" "fin \<le> N" "P (b ! fin)"
  shows "p \<le> fin \<Longrightarrow> ok (\<lambda>q. p \<le> q \<and> q \<le> fin \<and> P (b ! q) \<and> (\<forall>j. p \<le> j \<and> j < q \<longrightarrow> \<not> P (b ! j))) (find_char P b p)"
proof (induction "fin - p" arbitrary: p rule: less_induct)
  case less
  have c: "char_at b p = Val (b ! p)" using char_ok [OF assms(1)] assms(2) less.prems by simp
  show ?case
  proof (cases "P (b ! p)")
    case False
    then have "p < fin" using less.prems assms(3) by (cases "p = fin") auto
    then have "ok (\<lambda>q. p + 1 \<le> q \<and> q \<le> fin \<and> P (b ! q) \<and> (\<forall>j. p + 1 \<le> j \<and> j < q \<longrightarrow> \<not> P (b ! j))) (find_char P b (p + 1))"
      by (intro less.hyps) simp_all
    moreover have "p = j \<or> p + 1 \<le> j" if "p \<le> j" for j using that by auto
    ultimately show ?thesis
      unfolding find_char.simps [of P b p] using c False by (auto elim!: res_ok_mono)
  qed (unfold find_char.simps [of P b p], use c less.prems in auto)
qed

lemma strpbrk_ok:
  assumes "lines b N" "p \<le> N"
  shows "ok (\<lambda>r. \<forall>q. r = Some q \<longrightarrow> p \<le> q \<and> q < N) (strpbrk b p cs)"
proof -
  have "ok (\<lambda>q. p \<le> q \<and> q \<le> N) (find_char (\<lambda>c. c = 0 \<or> c \<in> set cs) b p)"
    by (rule res_ok_mono [OF find_char_ok [OF assms(1) order.refl]]) (use assms in \<open>auto simp: lines_def\<close>)
  then show ?thesis
    unfolding strpbrk_def by (rule res_ok_bind) (use assms not_end in \<open>auto simp: char_ok\<close>)
qed

definition first_match :: "chars \<Rightarrow> nat \<Rightarrow> u8 list \<Rightarrow> nat \<Rightarrow> bool" where
  "first_match b p x q \<longleftrightarrow> p \<le> q \<and> matches b q x \<and> (\<forall>j. p \<le> j \<and> j < q \<longrightarrow> \<not> matches b j x)"

lemma strstr_ok:
  assumes "lines b N" "0 \<notin> set x"
  shows "p \<le> N \<Longrightarrow> ok (\<lambda>r. \<forall>q. r = Some q \<longrightarrow> q + length x \<le> N \<and> first_match b p x q) (strstr b p x)"
proof (induction "N - p" arbitrary: p rule: less_induct)
  case less
  note s = startswith_ok [OF assms(1) less.prems assms(2)]
  have c: "char_at b p = Val (b ! p)" using char_ok [OF assms(1)] less.prems by simp
  have j: "p = j \<or> p + 1 \<le> j" if "p \<le> j" for j using that by auto
  have IH: "ok (\<lambda>r. \<forall>q. r = Some q \<longrightarrow> q + length x \<le> N \<and> first_match b p x q) (strstr b (p + 1) x)"
    if "b ! p \<noteq> 0" "\<not> matches b p x"
    using not_end [OF assms(1) less.prems that(1)] j that(2)
    by (intro res_ok_mono [OF less.hyps]) (auto simp: first_match_def)
  show ?case
    unfolding strstr.simps [of b p x] using s IH by (auto simp: c first_match_def split: res.splits bool.splits)
qed

section \<open>Words\<close>

lemma is_ident2_0: "\<not> is_ident2 0"
  by (simp add: is_ident2_def is_ident1_def in_range_def ident1_ranges_def ident2_ranges_def)

lemma ident_loop_ok:
  assumes "lines b N"
  shows "p \<le> N \<Longrightarrow> ok (\<lambda>q. p \<le> q \<and> q \<le> N) (ident_loop b p)"
proof (induction "N - p" arbitrary: p rule: less_induct)
  case less
  note d = decode_ok [OF assms less.prems]
  show ?case
  proof (cases "decode_utf8 b p")
    case (Val x)
    obtain c q where x: "x = (c, q)" by (cases x)
    show ?thesis
    proof (cases "is_ident2 c")
      case True
      then have "p < q" "q \<le> N" using d Val x is_ident2_0 by auto
      then have "ok (\<lambda>r. p \<le> r \<and> r \<le> N) (ident_loop b q)" by (intro res_ok_mono [OF less.hyps]) auto
      then show ?thesis unfolding ident_loop.simps [of b p] using Val x True by simp
    qed (unfold ident_loop.simps [of b p], use Val x less.prems in simp)
  qed (unfold ident_loop.simps [of b p], use d in auto)
qed

lemma read_ident_ok:
  assumes "lines b N" "p < N"
  shows "ok (\<lambda>n. p + n \<le> N) (read_ident b p)"
  unfolding read_ident_def
proof (rule res_ok_bind [OF decode_ok [OF assms(1) less_imp_le [OF assms(2)]]], clarsimp split del: if_split, goal_cases)
  case (1 c q)
  then have q: "q \<le> N" "p < q" using assms(2) by auto
  have "ok (\<lambda>n. p + n \<le> N) (res_bind (ident_loop b q) (\<lambda>q. Val (q - p)))"
    by (rule res_ok_bind [OF ident_loop_ok [OF assms(1) q(1)]]) (use q in simp)
  then show ?case using assms(2) by simp
qed

lemma first_punct_ok:
  assumes "lines b N" "p < N"
  shows "\<forall>k \<in> set ks. 0 \<notin> set k \<Longrightarrow> ok (\<lambda>n. p + n \<le> N) (first_punct b p ks)"
proof (induction ks)
  case (Cons k ks)
  have "0 \<notin> set k" using Cons.prems by simp
  from startswith_ok [OF assms(1) less_imp_le [OF assms(2)] this] show ?case
    unfolding first_punct.simps by (rule ok_if) (use Cons in simp)
qed (use assms char_ok [OF assms(1), of p] in simp)

lemma read_punct_ok: "lines b N \<Longrightarrow> p < N \<Longrightarrow> ok (\<lambda>n. p + n \<le> N) (read_punct b p)"
  unfolding read_punct_def by (rule first_punct_ok) (simp_all add: puncts_def str_def)

section \<open>Literals\<close>

text \<open>Characters that the search for the closing quote passes one by one.\<close>

definition plain :: "u8 \<Rightarrow> bool" where
  "plain x \<longleftrightarrow> x \<noteq> 0x22 \<and> x \<noteq> 0x5C \<and> x \<noteq> 10 \<and> x \<noteq> 0"

lemma plain_xdigit: "isxdigit x \<Longrightarrow> plain x"
  by (auto simp: plain_def isxdigit_def isdigit_def)

lemma plain_octal: "isoctal x \<Longrightarrow> plain x"
  by (auto simp: plain_def isoctal_def)

lemma plain_high: "0x80 \<le> unat x \<Longrightarrow> plain x"
  by (auto simp: plain_def)

lemma plain_not_0: "plain x \<Longrightarrow> x \<noteq> 0"
  by (simp add: plain_def)

definition all_plain :: "chars \<Rightarrow> nat \<Rightarrow> nat \<Rightarrow> bool" where
  "all_plain b p q \<longleftrightarrow> (\<forall>j. p \<le> j \<and> j < q \<longrightarrow> plain (b ! j))"

lemma all_plain_simps: "all_plain b p p" "p < q \<Longrightarrow> all_plain b p q \<longleftrightarrow> plain (b ! p) \<and> all_plain b (p + 1) q"
  by (auto simp: all_plain_def) (metis Suc_leI le_neq_implies_less)

lemma hex_loop_ok:
  assumes "lines b N"
  shows "p \<le> N \<Longrightarrow> ok (\<lambda>(d, q). p \<le> q \<and> q \<le> N \<and> all_plain b p q) (hex_loop b p c)"
proof (induction "N - p" arbitrary: p c rule: less_induct)
  case less
  have c: "char_at b p = Val (b ! p)" by (rule char_ok [OF assms less.prems])
  show ?case
  proof (cases "isxdigit (b ! p)")
    case True
    note pl = plain_xdigit [OF True]
    then have p: "p < N" using not_end [OF assms less.prems] by (simp add: plain_def)
    have "ok (\<lambda>(d, q). p + 1 \<le> q \<and> q \<le> N \<and> all_plain b (p + 1) q) (hex_loop b (p + 1) (push_bit 4 c + from_hex (b ! p)))"
      by (rule less.hyps) (use p in simp_all)
    then have "ok (\<lambda>(d, q). p \<le> q \<and> q \<le> N \<and> all_plain b p q) (hex_loop b (p + 1) (push_bit 4 c + from_hex (b ! p)))"
      by (rule res_ok_mono) (use pl in \<open>auto simp: all_plain_simps\<close>)
    then show ?thesis unfolding hex_loop.simps [of b p] using c True by simp
  qed (unfold hex_loop.simps [of b p], use c less.prems in \<open>simp add: all_plain_simps\<close>)
qed

lemma read_escaped_ok:
  assumes "lines b N" "p < N"
  shows "ok (\<lambda>(c, q). p < q \<and> q \<le> N \<and> all_plain b (p + 1) q) (read_escaped_char b p)"
proof -
  have c': "char_at b (p + i) = Val (b ! (p + i))" if "p + i \<le> N" for i by (rule char_ok [OF assms(1) that])
  have oct: "p + i + 1 \<le> N" if "isoctal (b ! (p + i))" "p + i \<le> N" for i
    using not_end [OF assms(1) that(2)] plain_octal [OF that(1)] by (simp add: plain_def)
  have hex: "ok (\<lambda>(d, q). p + 1 \<le> q \<and> q \<le> N \<and> all_plain b (p + 1) q) (hex_loop b (p + 1) 0)"
    by (rule hex_loop_ok [OF assms(1)]) (use assms(2) in simp)
  have c: "char_at b p = Val (b ! p)" "char_at b (p + 1) = Val (b ! (p + 1))"
    using c' [of 0] c' [of 1] assms(2) by simp_all
  show ?thesis
  proof (cases "isoctal (b ! p)")
    case True
    note oct0 = this
    show ?thesis
    proof (cases "isoctal (b ! (p + 1))")
      case True
      then have p2: "p + 2 \<le> N" and pl1: "plain (b ! (p + 1))" using oct [of 1] assms(2) plain_octal by simp_all
      have c2: "char_at b (p + 2) = Val (b ! (p + 2))" using c' [of 2] p2 by simp
      show ?thesis
      proof (cases "isoctal (b ! (p + 2))")
        case o2: True
        then have "p + 3 \<le> N" "plain (b ! (p + 2))" using oct [of 2] p2 plain_octal by simp_all
        moreover have "j = p + 1 \<or> j = p + 2" if "p + 1 \<le> j" "j < p + 3" for j using that by auto
        ultimately show ?thesis
          using c c2 p2 oct0 True o2 pl1 by (auto simp: read_escaped_char_def Let_def all_plain_def)
      next
        case False
        moreover have "all_plain b (p + 1) (p + 2)" using pl1 by (simp add: all_plain_simps)
        ultimately show ?thesis
          using c c2 p2 oct0 True by (simp add: read_escaped_char_def Let_def)
      qed
    qed (use c oct0 assms(2) in \<open>simp add: read_escaped_char_def Let_def all_plain_simps\<close>)
  next
    case False
    have "ok (\<lambda>(d, q). p < q \<and> q \<le> N \<and> all_plain b (p + 1) q) (hex_loop b (p + 1) 0)"
      by (rule res_ok_mono [OF hex]) auto
    then show ?thesis using c False assms(2) by (auto simp: read_escaped_char_def Let_def all_plain_simps)
  qed
qed

lemma string_end_ok:
  assumes "lines b N"
  shows "p \<le> N \<Longrightarrow> ok (\<lambda>q. p \<le> q \<and> q < N) (string_end_loop b start p)"
proof (induction "N - p" arbitrary: p rule: less_induct)
  case less
  have c: "char_at b p = Val (b ! p)" by (rule char_ok [OF assms less.prems])
  have IH: "ok (\<lambda>q. p \<le> q \<and> q < N) (string_end_loop b start p')" if "p < p'" "p' \<le> N" for p'
    using that by (intro res_ok_mono [OF less.hyps]) auto
  have n: "p + 1 < N" if "b ! p \<noteq> 0" "b ! p \<noteq> 10" by (rule not_newline [OF assms less.prems that])
  show ?case
    unfolding string_end_loop.simps [of b start p] using n by (auto simp: c intro!: IH)
qed

lemma string_end_stop: "b ! p = 0x22 \<Longrightarrow> string_end_loop b start p = Val q \<Longrightarrow> q = p"
  by (subst (asm) string_end_loop.simps) (auto split: res.splits simp: char_at_Val)

lemma string_end_step:
  "string_end_loop b start p = Val fin \<Longrightarrow> b ! p = 0x5C \<Longrightarrow> string_end_loop b start (p + 2) = Val fin"
  "string_end_loop b start p = Val fin \<Longrightarrow> plain (b ! p) \<Longrightarrow> string_end_loop b start (p + 1) = Val fin"
  unfolding plain_def by (subst (asm) string_end_loop.simps, auto split: res.splits simp: char_at_Val)+

lemma string_end_plain:
  "string_end_loop b start p = Val fin \<Longrightarrow> p \<le> q \<Longrightarrow> all_plain b p q \<Longrightarrow> string_end_loop b start q = Val fin"
proof (induction "q - p" arbitrary: p)
  case (Suc n)
  then have "plain (b ! p)" "all_plain b (p + 1) q" using all_plain_simps(2) [of p q b] by auto
  with Suc string_end_step(2) [OF Suc.prems(1)] show ?case by (intro Suc.hyps(1) [of "p + 1"]) auto
qed simp

text \<open>The elements a character that is not escaped gives.\<close>

definition code_units :: "coding \<Rightarrow> u32 \<Rightarrow> u32 list" where
  "code_units k c = (if k = Utf16 \<and> \<not> c < 0x10000
     then [0xD800 + (drop_bit 10 (c - 0x10000) AND 0x3FF), 0xDC00 + ((c - 0x10000) AND 0x3FF)] else [c])"

lemma read_unit_plain:
  assumes "char_at b p = Val x" "x \<noteq> 0x5C"
  shows "read_unit k b p = (if k = Narrow then Val ([ucast x], p + 1)
    else res_bind (decode_utf8 b p) (\<lambda>(c, q). Val (code_units k c, q)))"
proof -
  have "res_bind (decode_utf8 b p) f = res_bind (decode_utf8 b p) g" if "\<And>c q. f (c, q) = g (c, q)" for f g :: "_ \<Rightarrow> (u32 list \<times> nat) lex"
    using that by (metis surj_pair)
  then show ?thesis using assms by (auto simp: read_unit_def code_units_def Let_def split: coding.splits)
qed

text \<open>One unit of a literal: no more elements than bytes, and still on the way to the same quote.\<close>

lemma read_unit_ok:
  assumes "lines b N" "p < fin" "string_end_loop b start p = Val fin" "fin < N"
  shows "ok (\<lambda>(us, q). q \<le> fin \<and> p < q \<and> length us \<le> q - p \<and> string_end_loop b start q = Val fin) (read_unit k b p)"
proof -
  have x: "char_at b p = Val (b ! p)" using assms by (intro char_ok) auto
  have q: "b ! p \<noteq> 0x22" using string_end_stop [of b p start fin] assms by auto
  have n0: "b ! p \<noteq> 0" "b ! p \<noteq> 10"
    using assms(3) by (subst (asm) string_end_loop.simps; auto simp: x q)+
  have go: "q \<le> fin \<and> string_end_loop b start q = Val fin" if "string_end_loop b start p' = Val fin" "p' \<le> q" "all_plain b p' q" for p' q
    using string_end_plain [OF that] string_end_ge by auto
  show ?thesis
  proof (cases "b ! p = 0x5C")
    case True
    have "p + 1 < N" by (rule not_newline [OF assms(1)]) (use assms True in auto)
    note e = read_escaped_ok [OF assms(1) this]
    have "ok (\<lambda>(us, q). q \<le> fin \<and> p < q \<and> length us \<le> q - p \<and> string_end_loop b start q = Val fin)
        (res_bind (read_escaped_char b (p + 1)) (\<lambda>(c, q). Val ([f c], q)))" for f :: "u32 \<Rightarrow> u32"
      by (rule res_ok_bind [OF e]) (use go [OF string_end_step(1) [OF assms(3) True]] in \<open>auto simp: numeral_2_eq_2\<close>)
    then show ?thesis using True by (simp add: read_unit_def x)
  next
    case False
    then have pl: "plain (b ! p)" using q n0 by (simp add: plain_def)
    then have 1: "p + 1 \<le> fin" "string_end_loop b start (p + 1) = Val fin"
      using go [OF assms(3), of "p + 1"] by (auto simp: all_plain_simps)
    have p: "p \<le> N" "p < N" using assms by simp_all
    have "ok (\<lambda>(us, q). q \<le> fin \<and> p < q \<and> length us \<le> q - p \<and> string_end_loop b start q = Val fin)
        (res_bind (decode_utf8 b p) (\<lambda>(c, q). Val (code_units k c, q)))"
    proof (rule res_ok_bind [OF decode_ok [OF assms(1) p(1)]], clarify)
      fix c :: u32 and q assume d: "p < q" "q \<le> N \<or> p = N \<and> c = 0 \<and> q = N + 1"
        "q = p + 1 \<and> c = ucast (b ! p) \<and> b ! p < 0x80
         \<or> p + 1 < q \<and> 0x80 \<le> unat (b ! p) \<and> (\<forall>j. p \<le> j \<and> j < q \<longrightarrow> 0x80 \<le> unat (b ! j))"
      have "all_plain b p q" using d(3)
        by (elim disjE) (simp add: all_plain_simps pl, simp add: all_plain_def plain_high)
      then have "q \<le> fin \<and> string_end_loop b start q = Val fin" using go [OF assms(3)] d(1) by simp
      moreover have "length (code_units k c) \<le> q - p"
      proof (cases "p + 1 < q")
        case False
        then have "c = ucast (b ! p)" using d(3) by simp
        then have "c < 0x10000" using unat_u8_less [of "b ! p"]
          by (simp add: word_less_nat_alt unsigned_ucast_eq take_bit_nat_eq_self)
        then show ?thesis using d(1) by (simp add: code_units_def)
      qed (auto simp: code_units_def)
      ultimately show "ok (\<lambda>(us, q). q \<le> fin \<and> p < q \<and> length us \<le> q - p \<and> string_end_loop b start q = Val fin) (Val (code_units k c, q))"
        using d(1) by simp
    qed
    then show ?thesis using 1 by (simp add: read_unit_plain [OF x False])
  qed
qed

lemma literal_loop_ok:
  assumes "lines b N" "fin < N"
  shows "p \<le> fin \<Longrightarrow> string_end_loop b start p = Val fin \<Longrightarrow> length buf + q0 \<le> p \<Longrightarrow> fin \<le> q0 + cap \<Longrightarrow>
    ok (\<lambda>buf. length buf + q0 \<le> fin) (literal_loop k b p fin cap buf)"
proof (induction "fin - p" arbitrary: p buf rule: less_induct)
  case less
  show ?case
  proof (cases "p < fin")
    case True
    note u = read_unit_ok [OF assms(1) True less.prems(2) assms(2), of k]
    show ?thesis
    proof (cases "read_unit k b p")
      case (Val x)
      obtain us q where x: "x = (us, q)" by (cases x)
      then have 1: "q \<le> fin" "p < q" "length us \<le> q - p" "string_end_loop b start q = Val fin" using u Val by simp_all
      then have "length (buf @ us) + q0 \<le> q" "length (buf @ us) \<le> cap" using less.prems(3,4) by simp_all
      moreover have "ok (\<lambda>buf. length buf + q0 \<le> fin) (literal_loop k b q fin cap (buf @ us))"
        using 1 True by (intro less.hyps less.prems(4) calculation(1)) simp_all
      ultimately show ?thesis unfolding literal_loop.simps [of k b p] using Val x True by simp
    qed (unfold literal_loop.simps [of k b p], use u True in auto)
  qed (unfold literal_loop.simps [of k b p], use less.prems in simp)
qed

lemma tk_new [simp]: "tk_loc (new_token k p q flags) = p" "tk_kind (new_token k p q flags) = k"
  by (simp_all add: new_token_def)

definition token_at :: "nat \<Rightarrow> nat \<Rightarrow> token \<Rightarrow> bool" where
  "token_at N p t \<longleftrightarrow> tk_loc t = p \<and> 0 < tk_len t \<and> p + tk_len t \<le> N"

lemma read_literal_ok:
  assumes "lines b N" "start \<le> base" "base \<le> quote" "quote < N"
  shows "ok (token_at N start) (read_literal k ty b start quote base flags)"
proof -
  have "quote + 1 \<le> N" using assms(4) by simp
  show ?thesis
  proof (cases "string_literal_end b (quote + 1)")
    case (Val fin)
    with string_end_ok [OF assms(1) \<open>quote + 1 \<le> N\<close>, of "quote + 1"]
    have fin: "quote + 1 \<le> fin" "fin < N" by (simp_all add: string_literal_end_def)
    have "ok (\<lambda>buf. length buf + (quote + 1) \<le> fin) (literal_loop k b (quote + 1) fin (fin - base) [])"
      by (rule literal_loop_ok [OF assms(1) fin(2,1) Val [unfolded string_literal_end_def]]) (use fin assms in simp_all)
    then have "ok (token_at N start) (res_bind (literal_loop k b (quote + 1) fin (fin - base) []) (\<lambda>buf.
       if length buf < fin - base
       then Val ((new_token TK_STR start (fin + 1) flags)\<lparr>tk_ty := Some (array_of ty (int (length buf) + 1)), tk_str := buf @ [0]\<rparr>)
       else Unsafe))"
      by (rule res_ok_bind) (use fin assms in \<open>auto simp: token_at_def\<close>)
    then show ?thesis using Val by (simp add: read_literal_def)
  qed (use string_end_ok [OF assms(1) \<open>quote + 1 \<le> N\<close>, of "quote + 1"] in \<open>simp_all add: read_literal_def string_literal_end_def\<close>)
qed

lemma read_char_ok:
  assumes "lines b N" "start \<le> quote" "quote < N"
  shows "ok (token_at N start) (read_char_literal b start quote ty flags)"
proof -
  have q: "quote + 1 \<le> N" using assms(3) by simp
  note c = char_ok [OF assms(1) q]
  show ?thesis
  proof (cases "b ! (quote + 1) = 0")
    case False
    have "ok (\<lambda>(d, p). quote < p \<and> p \<le> N)
        (if b ! (quote + 1) = 0x5C then read_escaped_char b (quote + 2) else decode_utf8 b (quote + 1))"
    proof (cases "b ! (quote + 1) = 0x5C")
      case True
      then have "quote + 2 < N" using not_newline [OF assms(1) q] by simp
      from read_escaped_ok [OF assms(1) this] True show ?thesis by (auto elim!: res_ok_mono)
    next
      case f: False
      from decode_ok [OF assms(1) q] not_end [OF assms(1) q False] f show ?thesis by (auto elim!: res_ok_mono)
    qed
    then have "ok (token_at N start)
        (res_bind (if b ! (quote + 1) = 0x5C then read_escaped_char b (quote + 2) else decode_utf8 b (quote + 1)) (\<lambda>(c, p).
         res_bind (strpbrk b p [0x27]) (\<lambda>r. case r of
             None \<Rightarrow> Stop (Error_at p ''unclosed char literal'')
           | Some fin \<Rightarrow> Val ((new_token TK_NUM start (fin + 1) flags)\<lparr>tk_val := scast c, tk_ty := Some ty\<rparr>))))"
    proof (rule res_ok_bind, clarify)
      fix d p assume p: "quote < p" "p \<le> N"
      show "ok (token_at N start) (res_bind (strpbrk b p [0x27]) (\<lambda>r. case r of
             None \<Rightarrow> Stop (Error_at p ''unclosed char literal'')
           | Some fin \<Rightarrow> Val ((new_token TK_NUM start (fin + 1) flags)\<lparr>tk_val := scast d, tk_ty := Some ty\<rparr>)))"
        by (rule res_ok_bind [OF strpbrk_ok [OF assms(1) p(2)]]) (use p assms(2) in \<open>auto simp: token_at_def split: option.splits\<close>)
    qed
    then show ?thesis by (simp only: read_char_literal_def c res_bind.simps False if_False)
  qed (simp add: read_char_literal_def c [simplified])
qed

section \<open>Rounds\<close>

lemma pp_loop_ok:
  assumes "lines b N"
  shows "p \<le> N \<Longrightarrow> ok (\<lambda>q. p \<le> q \<and> q \<le> N) (pp_loop b p)"
proof (induction "N - p" arbitrary: p rule: less_induct)
  case less
  have c: "char_at b p = Val (b ! p)" by (rule char_ok [OF assms less.prems])
  have IH: "ok (\<lambda>q. p \<le> q \<and> q \<le> N) (pp_loop b p')" if "p < p'" "p' \<le> N" for p'
    using that by (intro res_ok_mono [OF less.hyps]) auto
  show ?case
  proof (cases "b ! p = 0")
    case False
    then have p: "p + 1 \<le> N" using not_end [OF assms less.prems] by simp
    note c1 = char_ok [OF assms p]
    have "p + 2 \<le> N" if "b ! (p + 1) \<noteq> 0" using not_end [OF assms p that] by simp
    then show ?thesis
      unfolding pp_loop.simps [of b p] using False p less.prems by (auto simp: c c1 [simplified] intro!: IH)
  qed (unfold pp_loop.simps [of b p], use c less.prems in \<open>simp add: isalnum_def isalpha_def isdigit_def\<close>)
qed

text \<open>White space and comments.\<close>

definition blank_piece :: "chars \<Rightarrow> nat \<Rightarrow> nat \<Rightarrow> bool" where
  "blank_piece b p q \<longleftrightarrow> q = p + 1 \<and> isspace (b ! p)
     \<or> matches b p (str ''//'') \<and> p + 2 \<le> q \<and> b ! q = 10 \<and> (\<forall>j. p + 2 \<le> j \<and> j < q \<longrightarrow> b ! j \<noteq> 10)
     \<or> matches b p (str ''/*'') \<and> (\<exists>c. first_match b (p + 2) (str ''*/'') c \<and> q = c + 2)"

definition round_ok :: "chars \<Rightarrow> nat \<Rightarrow> nat \<Rightarrow> round \<Rightarrow> bool" where
  "round_ok b N p r = (case r of (t, q, flags) \<Rightarrow> p < q \<and> q \<le> N
     \<and> (case t of None \<Rightarrow> blank_piece b p q | Some t \<Rightarrow> token_at N p t \<and> q = p + tk_len t))"

lemma emit_ok: "token_at N p t \<Longrightarrow> ok (round_ok b N p) (emit p t)"
  by (simp add: emit_def round_ok_def token_at_def)

lemma blank_ok: "p < q \<Longrightarrow> q \<le> N \<Longrightarrow> blank_piece b p q \<Longrightarrow> ok (round_ok b N p) (blank q flags)"
  by (simp add: blank_def round_ok_def)

lemma new_token_at: "0 < n \<Longrightarrow> p + n \<le> N \<Longrightarrow> token_at N p (new_token k p (p + n) flags)"
  by (simp add: token_at_def)

lemma lex_word_ok:
  assumes "lines b N" "p < N"
  shows "ok (round_ok b N p) (lex_word b p flags)"
  unfolding lex_word_def
proof (rule res_ok_bind [OF read_ident_ok [OF assms]])
  fix n assume n: "p + n \<le> N"
  have "ok (round_ok b N p) (res_bind (read_punct b p) (\<lambda>n.
       if n \<noteq> 0 then emit p (new_token TK_PUNCT p (p + n) flags) else Stop (Error_at p ''invalid token'')))"
    by (rule res_ok_bind [OF read_punct_ok [OF assms]]) (auto intro!: emit_ok new_token_at)
  then show "ok (round_ok b N p) (if n \<noteq> 0 then emit p (new_token TK_IDENT p (p + n) flags)
     else res_bind (read_punct b p) (\<lambda>n.
       if n \<noteq> 0 then emit p (new_token TK_PUNCT p (p + n) flags) else Stop (Error_at p ''invalid token'')))"
    using n by (auto intro!: emit_ok new_token_at)
qed

lemma lex_char_ok:
  assumes "lines b N" "p \<le> quote" "quote < N"
  shows "ok (round_ok b N p) (lex_char b p quote ty f flags)"
  unfolding lex_char_def
  by (rule res_ok_bind [OF read_char_ok [OF assms]]) (rule emit_ok, simp add: token_at_def)

lemma emit_literal_ok:
  assumes "lines b N" "p \<le> base" "base \<le> quote" "quote < N"
  shows "ok (round_ok b N p) (res_bind (read_literal k ty b p quote base flags) (emit p))"
  by (rule res_ok_bind [OF read_literal_ok [OF assms] emit_ok])

text \<open>A round with a test for a prefix: inside, the prefix is there.\<close>

lemma prefix_ok:
  assumes "lines b N" "p \<le> N" "0 \<notin> set xs" "p + length xs \<le> N \<Longrightarrow> matches b p xs \<Longrightarrow> ok P x" "ok P y"
  shows "ok P (res_if (startswith b p xs) x y)"
  by (rule ok_if [OF startswith_ok [OF assms(1-3)]]) (use assms(4,5) in auto)

lemma lex_literal_ok:
  assumes "lines b N" "p < N"
  shows "ok (round_ok b N p) (lex_literal b p (b ! p) flags)"
  unfolding lex_literal_def read_string_literal_def read_utf16_string_literal_def read_utf32_string_literal_def
  by (intro res_ok_if prefix_ok [OF assms(1) less_imp_le [OF assms(2)]] lex_char_ok emit_literal_ok lex_word_ok assms)
    (use assms(2) in \<open>simp_all add: str_def\<close>)

lemma lex_round_ok:
  assumes "lines b N" "p < N" "b ! p \<noteq> 0"
  shows "ok (round_ok b N p) (lex_round b p (b ! p) flags)"
proof -
  have p: "p \<le> N" "p + 1 \<le> N" using assms(2) by simp_all
  have last: "N - 1 \<le> N" "b ! (N - 1) = 10" using assms(1) by (simp_all add: lines_def)
  have line: "ok (round_ok b N p) (res_bind (find_char (\<lambda>c. c = 10) b (p + 2)) (\<lambda>q. blank q (fst flags, True)))"
    if pre: "matches b p (str ''//'')"
  proof -
    have "b ! (p + 1) = 0x2F" using pre by (simp add: str_def matches_simps)
    then have "p + 2 \<le> N - 1" using not_newline [OF assms(1) p(2)] by simp
    from find_char_ok [OF assms(1) last(1), of "\<lambda>c. c = 10", OF last(2) this] show ?thesis
      by (rule res_ok_bind) (use last(1) pre in \<open>auto intro!: blank_ok simp: blank_piece_def\<close>)
  qed
  have block: "ok (round_ok b N p) (res_bind (strstr b (p + 2) (str ''*/'')) (\<lambda>r. case r of
            None \<Rightarrow> Stop (Error_at p ''unclosed block comment'')
          | Some q \<Rightarrow> blank (q + 2) (fst flags, True)))"
    if pre: "p + length (str ''/*'') \<le> N" "matches b p (str ''/*'')"
  proof (rule res_ok_bind [OF strstr_ok [OF assms(1)]])
    show "0 \<notin> set (str ''*/'')" "p + 2 \<le> N" using pre(1) by (simp_all add: str_def)
    fix r assume r: "\<forall>q. r = Some q \<longrightarrow> q + length (str ''*/'') \<le> N \<and> first_match b (p + 2) (str ''*/'') q"
    show "ok (round_ok b N p) (case r of None \<Rightarrow> Stop (Error_at p ''unclosed block comment'')
          | Some q \<Rightarrow> blank (q + 2) (fst flags, True))"
    proof (cases r)
      case (Some q)
      then have "q + 2 \<le> N" "first_match b (p + 2) (str ''*/'') q" using r by (simp_all add: str_def)
      moreover from this(2) have "p < q + 2" by (simp add: first_match_def)
      ultimately show ?thesis using pre(2) Some by (auto intro!: blank_ok simp: blank_piece_def)
    qed simp
  qed
  have "ok (round_ok b N p) (res_bind (pp_loop b (p + 1)) (\<lambda>q. emit p (new_token TK_PP_NUM p q flags)))"
    by (rule res_ok_bind [OF pp_loop_ok [OF assms(1) p(2)]]) (auto intro!: emit_ok simp: token_at_def)
  then have number: "ok (round_ok b N p) (res_if (if isdigit (b ! p) then Val True
        else if b ! p = ch CHR ''.'' then res_bind (char_at b (p + 1)) (\<lambda>y. Val (isdigit y)) else Val False)
      (res_bind (pp_loop b (p + 1)) (\<lambda>q. emit p (new_token TK_PP_NUM p q flags))) (lex_literal b p (b ! p) flags))"
    by (intro ok_if [of "\<lambda>_. True"]) (use lex_literal_ok [OF assms(1,2)] char_ok [OF assms(1) p(2)] in auto)
  show ?thesis
    unfolding lex_round_def
    by (intro res_ok_if prefix_ok [OF assms(1) p(1)] number line block)
      (use p in \<open>auto simp: str_def isspace_def intro!: blank_ok simp: blank_piece_def\<close>)
qed

section \<open>The whole text\<close>

inductive blanks :: "chars \<Rightarrow> nat \<Rightarrow> nat \<Rightarrow> bool" for b where
  nothing: "blanks b p p"
| piece: "blank_piece b p q \<Longrightarrow> blanks b q r \<Longrightarrow> blanks b p r"

text \<open>Tokens, as places and lengths, one after the other with only blanks between them.\<close>

fun tiles :: "chars \<Rightarrow> nat \<Rightarrow> (nat \<times> nat) list \<Rightarrow> nat \<Rightarrow> bool" where
  "tiles b p [] r \<longleftrightarrow> blanks b p r"
| "tiles b p ((loc, len) # ts) r \<longleftrightarrow> blanks b p loc \<and> p \<le> loc \<and> 0 < len \<and> tiles b (loc + len) ts r"

definition spans :: "token list \<Rightarrow> (nat \<times> nat) list" where
  "spans ts = map (\<lambda>t. (tk_loc t, tk_len t)) ts"

lemma tiles_blank: "blank_piece b p q \<Longrightarrow> p \<le> q \<Longrightarrow> tiles b q ts r \<Longrightarrow> tiles b p ts r"
  by (cases ts) (auto intro: blanks.piece)

lemma lex_loop_ok:
  assumes "lines b N"
  shows "p \<le> N \<Longrightarrow> ok (\<lambda>(ts, r, flags). p \<le> r \<and> r \<le> N \<and> b ! r = 0 \<and> tiles b p (spans ts) r) (lex_loop b p flags)"
proof (induction "N - p" arbitrary: p flags rule: less_induct)
  case less
  have c: "char_at b p = Val (b ! p)" by (rule char_ok [OF assms less.prems])
  show ?case
  proof (cases "b ! p = 0")
    case True
    then show ?thesis unfolding lex_loop.simps [of b p] using c less.prems by (simp add: spans_def blanks.nothing)
  next
    case False
    then have p: "p < N" by (rule not_end [OF assms less.prems])
    note R = lex_round_ok [OF assms p False, of flags]
    show ?thesis
    proof (cases "lex_round b p (b ! p) flags")
      case (Val x)
      obtain t q f where x: "x = (t, q, f)" by (cases x) auto
      have q: "p < q" "q \<le> N" and t: "case t of None \<Rightarrow> blank_piece b p q | Some t \<Rightarrow> token_at N p t \<and> q = p + tk_len t"
        using R Val x by (simp_all add: round_ok_def)
      have IH: "ok (\<lambda>(ts, r, flags). q \<le> r \<and> r \<le> N \<and> b ! r = 0 \<and> tiles b q (spans ts) r) (lex_loop b q f)"
        by (rule less.hyps) (use q p in simp_all)
      then show ?thesis
        unfolding lex_loop.simps [of b p] using c False Val x q t
        by (cases "lex_loop b q f")
          (auto split: option.splits simp: spans_def token_at_def tiles_blank blanks.nothing)
    qed (unfold lex_loop.simps [of b p], use c False R in auto)
  qed
qed

definition newlines :: "chars \<Rightarrow> nat \<Rightarrow> nat \<Rightarrow> nat" where
  "newlines b p q = length (filter (\<lambda>j. b ! j = 10) [p..<q])"

lemma newlines_simps: "newlines b p p = 0" "p < q \<Longrightarrow> newlines b p q = (if b ! p = 10 then 1 else 0) + newlines b (p + 1) q"
  by (simp_all add: newlines_def upt_conv_Cons)

text \<open>What numbering does to a token: nothing but its line, which is right when no NUL comes before it.\<close>

definition numbered :: "chars \<Rightarrow> nat \<Rightarrow> nat \<Rightarrow> token \<Rightarrow> token \<Rightarrow> bool" where
  "numbered b p n t u \<longleftrightarrow> u = t\<lparr>tk_line := tk_line u\<rparr>
     \<and> ((\<forall>j. p \<le> j \<and> j < tk_loc t \<longrightarrow> b ! j \<noteq> 0) \<longrightarrow> tk_line u = n + newlines b p (tk_loc t))"

lemma numbered_refl: "b ! p = 0 \<Longrightarrow> p < tk_loc t \<Longrightarrow> numbered b p n t t"
  by (auto simp: numbered_def)

lemma numbered_here: "numbered b (tk_loc t) n t (t\<lparr>tk_line := n\<rparr>)"
  by (simp add: numbered_def newlines_simps)

lemma numbered_step:
  "numbered b (p + 1) (if b ! p = 10 then n + 1 else n) t u \<Longrightarrow> p < tk_loc t \<Longrightarrow> numbered b p n t u"
  unfolding numbered_def by (auto simp: newlines_simps)

lemma line_loop_ok:
  assumes "lines b N"
  shows "p \<le> N \<Longrightarrow> ts \<noteq> [] \<Longrightarrow> b ! tk_loc (last ts) = 0 \<Longrightarrow> sorted_wrt (<) (map tk_loc ts) \<Longrightarrow> p \<le> tk_loc (hd ts) \<Longrightarrow>
    ok (list_all2 (numbered b p n) ts) (line_loop b p n ts)"
proof (induction "N - p" arbitrary: p n ts rule: less_induct)
  case less
  obtain t ts' where ts: "ts = t # ts'" using less.prems(2) by (cases ts) auto
  have c: "char_at b p = Val (b ! p)" by (rule char_ok [OF assms less.prems(1)])
  let ?rest = "if p = tk_loc t then ts' else ts"
  have later: "p < tk_loc u" if "u \<in> set ?rest" for u
    using that less.prems(4,5) by (auto simp: ts split: if_splits)
  show ?case
  proof (cases "b ! p = 0")
    case True
    have "list_all2 (numbered b p n) ?rest ?rest"
      using numbered_refl [OF True] later by (simp add: list.rel_refl_strong)
    moreover have "line_loop b p n ts = Val (if p = tk_loc t then t\<lparr>tk_line := n\<rparr> # ts' else ts)"
      by (subst line_loop.simps) (simp add: ts c True Let_def)
    ultimately show ?thesis using numbered_here [of b t n] by (simp add: ts split: if_splits)
  next
    case False
    then have p: "p + 1 \<le> N" using not_end [OF assms less.prems(1)] by simp
    have ne: "?rest \<noteq> []" using False less.prems(3) by (auto simp: ts)
    then have "last ?rest = last ts" by (auto simp: ts)
    moreover have "sorted_wrt (<) (map tk_loc ?rest)" using less.prems(4) by (simp add: ts)
    moreover have "p + 1 \<le> tk_loc (hd ?rest)" using later [of "hd ?rest"] ne by simp
    ultimately have "ok (list_all2 (numbered b (p + 1) (if b ! p = 10 then n + 1 else n)) ?rest)
        (line_loop b (p + 1) (if b ! p = 10 then n + 1 else n) ?rest)"
      using p ne less.prems(3) by (intro less.hyps) simp_all
    then have "ok (list_all2 (numbered b p n) ?rest) (line_loop b (p + 1) (if b ! p = 10 then n + 1 else n) ?rest)"
    proof (rule res_ok_mono)
      fix us assume "list_all2 (numbered b (p + 1) (if b ! p = 10 then n + 1 else n)) ?rest us"
      then show "list_all2 (numbered b p n) ?rest us"
        by (rule list.rel_mono_strong) (erule numbered_step, erule later)
    qed
    moreover have "line_loop b p n ts = res_bind (line_loop b (p + 1) (if b ! p = 10 then n + 1 else n) ?rest)
        (\<lambda>us. Val (if p = tk_loc t then t\<lparr>tk_line := n\<rparr> # us else us))"
      by (subst line_loop.simps) (simp add: ts c False Let_def split: res.split)
    moreover have "list_all2 (numbered b p n) ts (if p = tk_loc t then t\<lparr>tk_line := n\<rparr> # us else us)"
      if "list_all2 (numbered b p n) ?rest us" for us
      using that numbered_here [of b t n] by (simp add: ts split: if_splits)
    ultimately show ?thesis by (simp only: res_ok.simps res_ok_bind)
  qed
qed

text \<open>\<^verbatim>\<open>tokenize\<close> as a whole.\<close>

lemma tiles_sorted: "tiles b p ts r \<Longrightarrow> sorted_wrt (<) (map fst ts) \<and> (\<forall>t \<in> set ts. p \<le> fst t \<and> fst t < r) \<and> p \<le> r"
proof (induction b p ts r rule: tiles.induct)
  case (1 b p r)
  then have "p \<le> r" by simp (induction rule: blanks.induct, auto simp: blank_piece_def first_match_def)
  then show ?case by simp
qed fastforce

definition tokenized :: "chars \<Rightarrow> nat \<Rightarrow> token list \<Rightarrow> bool" where
  "tokenized b N ts \<longleftrightarrow> (\<exists>us eof. ts = us @ [eof] \<and> tk_kind eof = TK_EOF \<and> tk_len eof = 0
     \<and> tk_loc eof \<le> N \<and> b ! tk_loc eof = 0 \<and> tiles b 0 (spans us) (tk_loc eof)
     \<and> (\<forall>t \<in> set ts. (\<forall>j < tk_loc t. b ! j \<noteq> 0) \<longrightarrow> tk_line t = 1 + newlines b 0 (tk_loc t)))"

lemma tokenize_ok:
  assumes "lines b N"
  shows "ok (tokenized b N) (tokenize b)"
  unfolding tokenize_def
proof (rule res_ok_bind [OF lex_loop_ok [OF assms le0]], clarify)
  fix ts r f1 f2 assume r: "r \<le> N" "b ! r = 0" and t: "tiles b 0 (spans ts) r"
  let ?eof = "new_token TK_EOF r r (f1, f2)"
  have m: "map tk_loc ts = map fst (spans ts)" by (simp add: spans_def)
  have "sorted_wrt (<) (map tk_loc (ts @ [?eof]))"
    using tiles_sorted [OF t] by (auto simp: m sorted_wrt_append)
  then have "ok (list_all2 (numbered b 0 1) (ts @ [?eof])) (line_loop b 0 1 (ts @ [?eof]))"
    by (intro line_loop_ok [OF assms]) (use r in simp_all)
  then show "ok (tokenized b N) (add_line_numbers b (ts @ [?eof]))"
    unfolding add_line_numbers_def
  proof (rule res_ok_mono)
    fix us assume us: "list_all2 (numbered b 0 1) (ts @ [?eof]) us"
    then obtain vs w where vw: "us = vs @ [w]" "list_all2 (numbered b 0 1) ts vs" "numbered b 0 1 ?eof w"
      by (auto simp: list_all2_append1 list_all2_Cons1)
    have same: "tk_loc u = tk_loc t \<and> tk_len u = tk_len t \<and> tk_kind u = tk_kind t" if "numbered b 0 n t u" for t u n
      using that by (metis numbered_def token.ext_inject token.surjective token.update_convs(8) token.select_convs)
    have "spans vs = spans ts" using vw(2) by (induction rule: list_all2_induct) (auto simp: spans_def dest!: same)
    moreover have "\<forall>u \<in> set us. (\<forall>j < tk_loc u. b ! j \<noteq> 0) \<longrightarrow> tk_line u = 1 + newlines b 0 (tk_loc u)"
    proof
      fix u assume "u \<in> set us"
      with us obtain t where t: "numbered b 0 1 t u" by (auto simp: list_all2_conv_all_nth in_set_conv_nth)
      then show "(\<forall>j < tk_loc u. b ! j \<noteq> 0) \<longrightarrow> tk_line u = 1 + newlines b 0 (tk_loc u)"
        unfolding same [OF t, THEN conjunct1] by (simp add: numbered_def)
    qed
    ultimately show "tokenized b N us"
      using vw(1) same [OF vw(3)] r t by (auto simp: tokenized_def)
  qed simp
qed

end
