(* ===== verification/Cc_Source.thy ===== *)
theory Cc_Source
  imports Cc_Lexer_Safe
begin

text \<open>
  From the bytes of a file to its tokens: the three passes that rewrite the text in place before \<^verbatim>\<open>tokenize\<close>. Each
  keeps the write position at or before the read position and a newline before the terminator, so the lexer's
  condition holds of what they leave, whatever the file; on a file without NULs two of them are compared with
  their descriptions on lists.
\<close>

section \<open>Writing\<close>
















section \<open>Files\<close>






section \<open>The passes on lists\<close>




















text \<open>
  The lexer needs the newline that files are given: the text \<^verbatim>\<open>//\<close> alone, which \<^verbatim>\<open>##\<close> makes of two slashes and
  \<^verbatim>\<open>-D\<close> of its argument, is read past its end.
\<close>

lemma comment_without_newline: "tokenize [0x2F, 0x2F, 0] = Unsafe"
proof -
  have "find_char (\<lambda>c. c = 10) [0x2F, 0x2F, 0] (Suc (Suc 0)) = Unsafe"
    by (simp add: find_char.simps char_at_def)
  then have "lex_loop [0x2F, 0x2F, 0] 0 (True, False) = Unsafe"
    by (subst lex_loop.simps) (simp add: char_at_def lex_round_def str_def res_if_def)
  then show ?thesis by (simp add: tokenize_def)
qed

end
