(* ===== verification/Guest_Libc.thy ===== *)
theory Guest_Libc
  imports Host
begin

text \<open>
  The guest's C library \<^verbatim>\<open>src/libc/libc.c\<close> inside the runtime it runs on: every pointer is a 32-bit address,
  every access goes through the runtime's checked loads and stores, \<^verbatim>\<open>memory.size\<close> and \<^verbatim>\<open>memory.grow\<close> are the
  runtime's. \<^verbatim>\<open>size_t\<close> is 32 bits wide and its arithmetic wraps. The static \<^verbatim>\<open>heap_top\<close> is a field beside the
  memory; the address of the linker's \<^verbatim>\<open>__heap_base\<close> is a parameter.
\<close>

section \<open>Bytes and strings\<close>

text \<open>Loops over \<open>n\<close> bytes, upwards and downwards.\<close>

fun copy_up :: "runtime \<Rightarrow> u32 \<Rightarrow> u32 \<Rightarrow> nat \<Rightarrow> (trap, runtime) res" where
  "copy_up rt dd ss 0 = Val rt"
| "copy_up rt dd ss (Suc n) =
     res_bind (i32_load8_u rt ss) (\<lambda>b. res_bind (i32_store8 rt dd b) (\<lambda>rt. copy_up rt (dd + 1) (ss + 1) n))"

fun copy_down :: "runtime \<Rightarrow> u32 \<Rightarrow> u32 \<Rightarrow> nat \<Rightarrow> (trap, runtime) res" where
  "copy_down rt dd ss 0 = Val rt"
| "copy_down rt dd ss (Suc n) =
     res_bind (i32_load8_u rt (ss - 1)) (\<lambda>b. res_bind (i32_store8 rt (dd - 1) b) (\<lambda>rt. copy_down rt (dd - 1) (ss - 1) n))"

fun fill_up :: "runtime \<Rightarrow> u32 \<Rightarrow> u32 \<Rightarrow> nat \<Rightarrow> (trap, runtime) res" where
  "fill_up rt dd c 0 = Val rt"
| "fill_up rt dd c (Suc n) = res_bind (i32_store8 rt dd c) (\<lambda>rt. fill_up rt (dd + 1) c n)"

definition libc_memcpy :: "runtime \<Rightarrow> u32 \<Rightarrow> u32 \<Rightarrow> u32 \<Rightarrow> (trap, runtime) res" where
  "libc_memcpy rt d s n = copy_up rt d s (unat n)"

definition libc_memmove :: "runtime \<Rightarrow> u32 \<Rightarrow> u32 \<Rightarrow> u32 \<Rightarrow> (trap, runtime) res" where
  "libc_memmove rt d s n = (if d < s then copy_up rt d s (unat n) else copy_down rt (d + n) (s + n) (unat n))"

definition libc_memset :: "runtime \<Rightarrow> u32 \<Rightarrow> u32 \<Rightarrow> u32 \<Rightarrow> (trap, runtime) res" where
  "libc_memset rt d c n = fill_up rt d c (unat n)"

fun memcmp_loop :: "runtime \<Rightarrow> u32 \<Rightarrow> u32 \<Rightarrow> nat \<Rightarrow> (trap, int) res" where
  "memcmp_loop rt x y 0 = Val 0"
| "memcmp_loop rt x y (Suc n) =
     res_bind (i32_load8_u rt x) (\<lambda>a. res_bind (i32_load8_u rt y) (\<lambda>b.
     if a \<noteq> b then Val (int (unat a) - int (unat b)) else memcmp_loop rt (x + 1) (y + 1) n))"

definition memcmp :: "runtime \<Rightarrow> u32 \<Rightarrow> u32 \<Rightarrow> u32 \<Rightarrow> (trap, int) res" where
  "memcmp rt a b n = memcmp_loop rt a b (unat n)"

section \<open>The heap\<close>

record libc =
  lc_rt :: runtime
  heap_top :: u32

definition round_up_16 :: "u32 \<Rightarrow> u32" where
  "round_up_16 n = (n + 15) AND NOT 15"

text \<open>Memory up to \<open>top\<close>: what there is, or what is there after growing by the missing pages.\<close>

definition heap_reserve :: "runtime \<Rightarrow> u32 \<Rightarrow> runtime option" where
  "heap_reserve rt new_top =
     (let lim = push_bit 16 (mem_pages (memory0 rt)) in
      if new_top > lim
      then let need = drop_bit 16 (new_top - lim + 65535); (rt', r) = wasmMemoryGrow rt need
           in if r = - 1 then None else Some rt'
      else Some rt)"

definition libc_malloc :: "u32 \<Rightarrow> libc \<Rightarrow> u32 \<Rightarrow> (trap, libc \<times> u32) res" where
  "libc_malloc heap_base g n =
     (let g = (if heap_top g = 0 then g\<lparr>heap_top := round_up_16 heap_base\<rparr> else g);
          n = round_up_16 n; cur = heap_top g; new_top = cur + 16 + n
      in if new_top < cur then Val (g, 0)
         else case heap_reserve (lc_rt g) new_top of
           None \<Rightarrow> Val (g, 0)
         | Some rt \<Rightarrow> res_bind (i32_store rt cur n) (\<lambda>rt. Val (g\<lparr>lc_rt := rt, heap_top := new_top\<rparr>, cur + 16)))"

definition libc_calloc :: "u32 \<Rightarrow> libc \<Rightarrow> u32 \<Rightarrow> u32 \<Rightarrow> (trap, libc \<times> u32) res" where
  "libc_calloc heap_base g n m =
     (if m \<noteq> 0 \<and> n > (- 1) div m then Val (g, 0)
      else res_bind (libc_malloc heap_base g (n * m)) (\<lambda>(g, p).
        if p = 0 then Val (g, 0)
        else res_bind (libc_memset (lc_rt g) p 0 (n * m)) (\<lambda>rt. Val (g\<lparr>lc_rt := rt\<rparr>, p))))"

definition libc_realloc :: "u32 \<Rightarrow> libc \<Rightarrow> u32 \<Rightarrow> u32 \<Rightarrow> (trap, libc \<times> u32) res" where
  "libc_realloc heap_base g p n =
     (if p = 0 then libc_malloc heap_base g n
      else res_bind (i32_load (lc_rt g) (p - 16)) (\<lambda>old.
        if n \<le> old then Val (g, p)
        else res_bind (libc_malloc heap_base g n) (\<lambda>(g, q).
          if q = 0 then Val (g, 0)
          else res_bind (libc_memcpy (lc_rt g) q p old) (\<lambda>rt. Val (g\<lparr>lc_rt := rt\<rparr>, q)))))"

definition libc_free :: "libc \<Rightarrow> u32 \<Rightarrow> libc" where
  "libc_free g p = g"

section \<open>Arithmetic\<close>

lemma unat_round_up_16:
  "unat (round_up_16 n) = (if unat n \<le> 2 ^ 32 - 16 then (unat n + 15) div 16 * 16 else 0)"
proof -
  let ?x = "n + 15"
  have m: "(15 :: u32) = mask 4" by (simp add: mask_eq_exp_minus_1)
  have "x AND NOT 15 = push_bit 4 (drop_bit 4 x)" for x :: u32
    unfolding m by (intro bit_word_eqI) (auto simp: bit_simps)
  then have "round_up_16 n = push_bit 4 (drop_bit 4 ?x)" by (simp add: round_up_16_def)
  then have "unat (round_up_16 n) = unat ?x div 16 * 16 mod 2 ^ 32"
    by (simp add: push_bit_eq_mult unat_word_ariths unat_drop_bit_eq drop_bit_eq_div)
  moreover have "unat ?x div 16 * 16 < 4294967296"
    using unat_u32_less [of ?x] div_times_less_eq_dividend [of "unat ?x" 16] by linarith
  moreover have "unat ?x = (if unat n \<le> 2 ^ 32 - 16 then unat n + 15 else unat n + 15 - 2 ^ 32)"
    using unat_u32_less [of n] by (auto simp: unat_word_ariths mod_if)
  ultimately show ?thesis using unat_u32_less [of n] by auto
qed

lemma round_up_16_dvd: "16 dvd unat (round_up_16 n)"
  by (simp add: unat_round_up_16)

text \<open>The pages that are missing, as the code computes them.\<close>

lemma unat_need:
  fixes new_top pages :: u32
  assumes "unat pages < 65536" "0 < unat pages" "unat pages * 65536 < unat new_top"
  shows "unat (drop_bit 16 (new_top - push_bit 16 pages + 65535)) = (unat new_top - unat pages * 65536 + 65535) div 65536"
proof -
  have e: "unat (push_bit 16 pages) = unat pages * 65536"
    using assms(1) by (simp add: push_bit_eq_mult unat_word_ariths)
  then have "unat (new_top - push_bit 16 pages) = unat new_top - unat pages * 65536"
    using assms(3) by (subst unat_sub) (simp_all add: word_le_nat_alt)
  moreover have "unat new_top - unat pages * 65536 + 65535 < 2 ^ 32"
    using assms(2,3) unat_u32_less [of new_top] by simp
  ultimately have "unat (new_top - push_bit 16 pages + 65535) = unat new_top - unat pages * 65536 + 65535"
    by (simp add: unat_word_ariths)
  then show ?thesis unfolding unat_drop_bit_eq by (simp add: drop_bit_eq_div)
qed

section \<open>Allocation\<close>

text \<open>The heap between its base and the top: whole, 16-byte aligned blocks inside the memory.\<close>

definition heap_ok :: "u32 \<Rightarrow> libc \<Rightarrow> bool" where
  "heap_ok heap_base g \<longleftrightarrow> mem_inv (lc_rt g) \<and> 0 < unat heap_base \<and> unat heap_base + 15 \<le> mem_bytes (lc_rt g)
     \<and> (heap_top g = 0 \<or> 16 dvd unat (heap_top g) \<and> unat heap_base \<le> unat (heap_top g)
        \<and> unat (heap_top g) \<le> mem_bytes (lc_rt g))"

definition heap_start :: "u32 \<Rightarrow> libc \<Rightarrow> nat" where
  "heap_start heap_base g = (if heap_top g = 0 then unat (round_up_16 heap_base) else unat (heap_top g))"

definition max_bytes :: "libc \<Rightarrow> nat" where
  "max_bytes g = unat (mem_max (memory0 (lc_rt g))) * 65536"

definition rounded :: "u32 \<Rightarrow> nat" where
  "rounded n = unat (round_up_16 n)"

lemma mem_bytes_bounds:
  assumes "mem_inv rt" "0 < mem_bytes rt"
  shows "mem_bytes rt = unat (mem_pages (memory0 rt)) * 65536" "0 < unat (mem_pages (memory0 rt))"
    "unat (mem_pages (memory0 rt)) \<le> unat (mem_max (memory0 rt))" "unat (mem_max (memory0 rt)) < 65536"
    "mem_bytes rt < 2 ^ 32"
proof -
  have ok: "mem_ok rt" using assms(1) by (simp add: mem_inv_def)
  show b: "mem_bytes rt = unat (mem_pages (memory0 rt)) * 65536" by (rule mem_bytes_pages [OF ok])
  show "0 < unat (mem_pages (memory0 rt))" using assms(2) b by simp
  then have d: "mem_data (memory0 rt)" using ok by (auto simp: mem_ok_def Let_def split: if_splits)
  show "unat (mem_pages (memory0 rt)) \<le> unat (mem_max (memory0 rt))"
    using ok d by (simp add: mem_ok_def Let_def word_le_nat_alt)
  have "mem_max (memory0 rt) < 65536" using ok d by (auto simp: mem_ok_def Let_def)
  then show "unat (mem_max (memory0 rt)) < 65536" by (simp add: word_less_nat_alt)
  show "mem_bytes rt < 2 ^ 32" using unat_u32_less [of "mem_size (memory0 rt)"] by (simp add: mem_bytes_def)
qed

text \<open>What an allocation does, in numbers.\<close>

definition fits :: "u32 \<Rightarrow> libc \<Rightarrow> u32 \<Rightarrow> bool" where
  "fits heap_base g n \<longleftrightarrow> heap_start heap_base g + 16 + rounded n \<le> max_bytes g"

lemma heap_start_bounds:
  assumes "heap_ok heap_base g"
  shows "16 dvd heap_start heap_base g" "0 < heap_start heap_base g" "unat heap_base \<le> heap_start heap_base g"
    "heap_start heap_base g \<le> mem_bytes (lc_rt g)"
proof -
  let ?b = "unat heap_base"
  have b: "0 < ?b" "?b + 15 \<le> mem_bytes (lc_rt g)" "mem_inv (lc_rt g)" using assms by (simp_all add: heap_ok_def)
  have m: "mem_bytes (lc_rt g) < 2 ^ 32" "65536 dvd mem_bytes (lc_rt g)"
    using mem_bytes_bounds [OF b(3)] b(1,2) by simp_all
  have "?b \<le> 2 ^ 32 - 16" using b(2) m(1) by simp
  then have r: "unat (round_up_16 heap_base) = (?b + 15) div 16 * 16" by (simp add: unat_round_up_16)
  have "(?b + 15) div 16 * 16 \<le> ?b + 15" "?b \<le> (?b + 15) div 16 * 16"
    by (simp_all add: div_times_less_eq_dividend minus_mod_eq_div_mult [symmetric])
  then show "16 dvd heap_start heap_base g" "0 < heap_start heap_base g" "?b \<le> heap_start heap_base g"
    "heap_start heap_base g \<le> mem_bytes (lc_rt g)"
    using assms b r unfolding heap_start_def by (auto simp: heap_ok_def split: if_splits)
qed

lemma heap_start_word:
  assumes "heap_ok heap_base g"
  shows "heap_top (if heap_top g = 0 then g\<lparr>heap_top := round_up_16 heap_base\<rparr> else g) = of_nat (heap_start heap_base g)"
    "(if heap_top g = 0 then g\<lparr>heap_top := round_up_16 heap_base\<rparr> else g) = g\<lparr>heap_top := of_nat (heap_start heap_base g)\<rparr>"
    "unat (of_nat (heap_start heap_base g) :: u32) = heap_start heap_base g"
  by (simp_all add: heap_start_def)

lemma pages_needed: "P * 65536 < (S :: nat) \<Longrightarrow> P + (S - P * 65536 + 65535) div 65536 \<le> M \<longleftrightarrow> S \<le> M * 65536"
  by (auto simp: algebra_simps less_eq_div_iff_mult_less_eq)

lemma malloc_cases:
  assumes ok: "heap_ok heap_base g" and n: "unat n \<le> 2 ^ 32 - 32"
  obtains (served) rt' where "fits heap_base g n" "mem_inv rt'" "arena rt' = arena (lc_rt g)"
      "mem_bytes (lc_rt g) \<le> mem_bytes rt'" "mem_max (memory0 rt') = mem_max (memory0 (lc_rt g))"
      "heap_start heap_base g + 16 + rounded n \<le> mem_bytes rt'"
      "libc_malloc heap_base g n = Val (\<lparr>lc_rt = rt'\<lparr>arena := write_range (arena rt') (heap_start heap_base g)
           (le_bytes 4 (rounded n))\<rparr>, heap_top = of_nat (heap_start heap_base g + 16 + rounded n)\<rparr>,
         of_nat (heap_start heap_base g + 16))"
  | (refused) "\<not> fits heap_base g n"
      "libc_malloc heap_base g n = Val (g\<lparr>heap_top := of_nat (heap_start heap_base g)\<rparr>, 0)"
proof -
  let ?s = "heap_start heap_base g" and ?rt = "lc_rt g" and ?r = "rounded n"
  let ?cur = "of_nat ?s :: u32" and ?P = "unat (mem_pages (memory0 (lc_rt g)))" and ?M = "unat (mem_max (memory0 (lc_rt g)))"
  let ?top = "?cur + 16 + round_up_16 n" and ?S = "?s + 16 + ?r"
  have inv: "mem_inv ?rt" "0 < mem_bytes ?rt" using ok by (simp_all add: heap_ok_def)
  note B = mem_bytes_bounds [OF inv] and H = heap_start_bounds [OF ok]
  have cur: "unat ?cur = ?s" by (rule heap_start_word(3) [OF ok])
  have r: "?r + 16 < 2 ^ 32" using n by (auto simp: rounded_def unat_round_up_16)
  have top: "unat ?top = ?S mod 2 ^ 32" by (simp add: unat_word_ariths cur rounded_def mod_simps)
  have M: "max_bytes g < 2 ^ 32" using B(4) by (simp add: max_bytes_def)
  let ?lim = "push_bit 16 (mem_pages (memory0 ?rt))"
  have e_lim: "unat ?lim = mem_bytes ?rt"
    using B(1,3,4) by (simp add: push_bit_eq_mult unat_word_ariths)
  show thesis
  proof (cases "?S < 2 ^ 32")
    case False
    have "?S mod 2 ^ 32 = ?S - 2 ^ 32"
      using False r H(4) B(5) by (simp add: le_mod_geq)
    then have "unat ?top < unat ?cur" using False r by (simp add: top cur)
    then have "?top < ?cur" by (simp add: word_less_nat_alt)
    then have "libc_malloc heap_base g n = Val (g\<lparr>heap_top := ?cur\<rparr>, 0)"
      unfolding libc_malloc_def Let_def heap_start_word(2) [OF ok] by simp
    moreover have "\<not> fits heap_base g n" using False M by (simp add: fits_def)
    ultimately show thesis by (rule refused [rotated])
  next
    case True
    then have t: "unat ?top = ?S" by (simp add: top)
    then have nl: "\<not> ?top < ?cur" by (simp add: word_less_nat_alt cur)
    have top': "?top = of_nat ?S" by (simp add: rounded_def)
    have serve: thesis if rt': "mem_inv rt'" "arena rt' = arena ?rt" "mem_bytes ?rt \<le> mem_bytes rt'"
        "mem_max (memory0 rt') = mem_max (memory0 ?rt)" "?S \<le> mem_bytes rt'"
      and e: "heap_reserve ?rt ?top = Some rt'" for rt'
    proof -
      have "mem_ok rt'" using rt'(1) by (simp add: mem_inv_def)
      then have st: "i32_store rt' ?cur (round_up_16 n) = Val (rt'\<lparr>arena := write_range (arena rt') ?s (le_bytes 4 ?r)\<rparr>)"
        using rt'(5) by (simp add: i32_store_def mem_store_eq cur rounded_def)
      have rec: "g\<lparr>lc_rt := r', heap_top := t'\<rparr> = \<lparr>lc_rt = r', heap_top = t'\<rparr>" for r' t' by (cases g) simp
      have m: "libc_malloc heap_base g n = Val (g\<lparr>lc_rt := rt'\<lparr>arena := write_range (arena rt') ?s (le_bytes 4 ?r)\<rparr>,
          heap_top := of_nat ?S\<rparr>, of_nat (?s + 16))"
        unfolding libc_malloc_def Let_def heap_start_word(2) [OF ok]
        using e nl st top' by simp
      have f: "fits heap_base g n"
        using rt'(1,4,5) mem_bytes_bounds(1,3) [of rt'] inv(2) rt'(3) by (simp add: fits_def max_bytes_def)
      show thesis by (rule served [OF f rt' m [unfolded rec]])
    qed
    show thesis
    proof (cases "?top > ?lim")
      case False
      then have "?S \<le> mem_bytes ?rt" using t e_lim by (simp add: word_less_nat_alt)
      with False inv(1) show thesis by (intro serve [of ?rt]) (simp_all add: heap_reserve_def)
    next
      case grow: True
      then have gt: "?P * 65536 < ?S" using t e_lim B(1) by (simp add: word_less_nat_alt)
      let ?d = "drop_bit 16 (?top - ?lim + 65535)"
      have d: "unat ?d = (?S - ?P * 65536 + 65535) div 65536"
        using unat_need [of "mem_pages (memory0 ?rt)" ?top] B(2-4) gt t by simp
      obtain rt' r where g: "wasmMemoryGrow ?rt ?d = (rt', r)" by (cases "wasmMemoryGrow ?rt ?d")
      show thesis
      using inv(1) g
      proof (cases rule: wasmMemoryGrow_cases)
        case grown
        have "?S \<le> mem_bytes rt'"
          unfolding grown(3) B(1) d
          using pages_needed [OF gt, of "?P + (?S - ?P * 65536 + 65535) div 65536"] by (simp only: add_mult_distrib le_refl)
        moreover have "r \<noteq> - 1" using grown(2) B(3,4) by (auto simp: unsigned_minus_1_eq_mask mask_eq_exp_minus_1)
        ultimately show thesis using grown grow g by (intro serve [of rt']) (simp_all add: heap_reserve_def Let_def)
      next
        case refused
        have "\<not> fits heap_base g n"
          using refused(1) [unfolded d] pages_needed [OF gt, of ?M] by (simp only: fits_def max_bytes_def linorder_not_le [symmetric] not_False_eq_True)
        moreover have "libc_malloc heap_base g n = Val (g\<lparr>heap_top := ?cur\<rparr>, 0)"
          unfolding libc_malloc_def Let_def heap_start_word(2) [OF ok]
          using grow g refused(2) nl by (simp add: heap_reserve_def Let_def)
        ultimately show thesis by (rule that(2))
      qed
    qed
  qed
qed

lemma rounded_bounds:
  "unat n \<le> 2 ^ 32 - 16 \<Longrightarrow> unat n \<le> rounded n" "16 dvd rounded n"
  by (simp_all add: rounded_def unat_round_up_16 minus_mod_eq_div_mult [symmetric])

lemma heap_ok_served:
  assumes "heap_ok heap_base g" "mem_inv rt'" "mem_bytes (lc_rt g) \<le> mem_bytes rt'"
    and "heap_start heap_base g + 16 + rounded n \<le> mem_bytes rt'"
  defines "g' \<equiv> \<lparr>lc_rt = rt'\<lparr>arena := write_range (arena rt') (heap_start heap_base g) (le_bytes 4 (rounded n))\<rparr>,
      heap_top = of_nat (heap_start heap_base g + 16 + rounded n)\<rparr>"
  shows "heap_ok heap_base g'" "heap_start heap_base g' = heap_start heap_base g + 16 + rounded n"
    "mem_bytes (lc_rt g') = mem_bytes rt'"
proof -
  let ?s = "heap_start heap_base g" and ?S = "heap_start heap_base g + 16 + rounded n"
  note H = heap_start_bounds [OF assms(1)]
  have b: "0 < unat heap_base" "unat heap_base + 15 \<le> mem_bytes (lc_rt g)" using assms(1) by (simp_all add: heap_ok_def)
  then have "mem_bytes rt' < 2 ^ 32" using mem_bytes_bounds(5) [OF assms(2)] assms(3) by simp
  then have u: "unat (of_nat ?S :: u32) = ?S"
    using assms(4) by (intro trans [OF unat_of_nat]) simp
  have t: "heap_top g' = of_nat ?S" by (simp only: g'_def libc.simps)
  then have nz: "heap_top g' \<noteq> 0" using u by (metis H(2) add_gr_0 less_irrefl unsigned_0)
  then show st: "heap_start heap_base g' = ?S" unfolding heap_start_def [of heap_base g'] t u by (simp only: if_False)
  show m: "mem_bytes (lc_rt g') = mem_bytes rt'" by (simp add: g'_def mem_bytes_def)
  have "mem_inv (lc_rt g')"
    using mem_inv_write [OF assms(2), of ?s "le_bytes 4 (rounded n)"] assms(4) by (simp add: g'_def)
  moreover have "16 dvd ?S" using H(1) rounded_bounds(2) by simp
  ultimately show "heap_ok heap_base g'"
    using b assms(3,4) H(3) m u by (simp add: heap_ok_def g'_def del: of_nat_add)
qed

text \<open>
  C22. The allocator: a request of at most \<^verbatim>\<open>0xFFFFFFE0\<close> bytes is served exactly when its block, header and padding
  included, fits below the memory's maximum. Then the memory has grown by just the missing pages, the block is
  16-byte aligned, lies inside the memory and between the old top of the heap and the new one, its header holds
  its size, and no other byte has changed; otherwise the result is \<^verbatim>\<open>NULL\<close> and the memory is as before.
\<close>

theorem malloc_correct:
  assumes ok: "heap_ok heap_base g" and n: "unat n \<le> 2 ^ 32 - 32"
  shows "if fits heap_base g n
    then \<exists>g' p. libc_malloc heap_base g n = Val (g', p) \<and> heap_ok heap_base g' \<and> unat p = heap_start heap_base g + 16
      \<and> 16 dvd unat p \<and> unat p + unat n \<le> heap_start heap_base g' \<and> heap_start heap_base g' \<le> mem_bytes (lc_rt g')
      \<and> i32_load (lc_rt g') (p - 16) = Val (round_up_16 n)
      \<and> (\<forall>i. i < heap_start heap_base g \<or> heap_start heap_base g + 4 \<le> i \<longrightarrow> arena (lc_rt g') i = arena (lc_rt g) i)
    else libc_malloc heap_base g n = Val (g\<lparr>heap_top := of_nat (heap_start heap_base g)\<rparr>, 0)"
  using ok n
proof (cases rule: malloc_cases)
  case (served rt')
  let ?s = "heap_start heap_base g" and ?p = "of_nat (heap_start heap_base g + 16) :: u32"
  note G = heap_ok_served [OF ok served(2,4,6)]
  have b: "mem_bytes rt' < 2 ^ 32" using mem_bytes_bounds(5) [OF served(2)] served(6) by simp
  then have p: "unat ?p = ?s + 16" using served(6) by (intro trans [OF unat_of_nat]) simp
  have p16: "unat (?p - 16) = ?s" by (simp add: heap_start_word(3) [OF ok])
  have "mem_ok (rt'\<lparr>arena := write_range (arena rt') ?s (le_bytes 4 (rounded n))\<rparr>)"
    using G(1) by (simp add: heap_ok_def mem_inv_def)
  then have "i32_load (rt'\<lparr>arena := write_range (arena rt') ?s (le_bytes 4 (rounded n))\<rparr>) (?p - 16) = Val (round_up_16 n)"
    unfolding i32_load_def using served(6) by (subst mem_load_eq) (simp_all add: heap_start_word(3) [OF ok] mem_bytes_def read_write_same rounded_def)
  moreover have "unat n \<le> rounded n" using rounded_bounds(1) n by simp
  moreover have "16 dvd ?s + 16" using heap_start_bounds(1) [OF ok] by simp
  ultimately show ?thesis
    using served(1,3,6,7) G p
    by (auto simp: mem_bytes_def write_range_outside simp del: of_nat_add)
qed simp

section \<open>Blocks\<close>

text \<open>A run of requests, with the pointers they got.\<close>

fun malloc_all :: "u32 \<Rightarrow> libc \<Rightarrow> u32 list \<Rightarrow> (trap, libc \<times> (u32 \<times> u32) list) res" where
  "malloc_all heap_base g [] = Val (g, [])"
| "malloc_all heap_base g (n # ns) =
     res_bind (libc_malloc heap_base g n) (\<lambda>(g, p). res_bind (malloc_all heap_base g ns) (\<lambda>(g, ps). Val (g, (p, n) # ps)))"

definition block_above :: "nat \<Rightarrow> u32 \<times> u32 \<Rightarrow> bool" where
  "block_above a b \<longleftrightarrow> fst b = 0 \<or> a + 16 \<le> unat (fst b) \<and> 16 dvd unat (fst b)"

definition apart :: "u32 \<times> u32 \<Rightarrow> u32 \<times> u32 \<Rightarrow> bool" where
  "apart b c \<longleftrightarrow> fst b = 0 \<or> fst c = 0 \<or> unat (fst b) + unat (snd b) + 16 \<le> unat (fst c)"

lemma malloc_step:
  assumes "heap_ok heap_base g" "unat n \<le> 2 ^ 32 - 32"
  obtains g' p where "libc_malloc heap_base g n = Val (g', p)" "heap_ok heap_base g'"
    "block_above (heap_start heap_base g) (p, n)" "p \<noteq> 0 \<longrightarrow> unat p + unat n \<le> heap_start heap_base g'"
    "heap_start heap_base g \<le> heap_start heap_base g'"
  using assms
proof (cases rule: malloc_cases)
  case (served rt')
  let ?s = "heap_start heap_base g" and ?p = "of_nat (heap_start heap_base g + 16) :: u32"
  note G = heap_ok_served [OF assms(1) served(2,4,6)]
  have b: "mem_bytes rt' < 2 ^ 32" using mem_bytes_bounds(5) [OF served(2)] served(6) by simp
  then have p: "unat ?p = ?s + 16" using served(6) by (intro trans [OF unat_of_nat]) simp
  have "unat n \<le> rounded n" using rounded_bounds(1) assms(2) by simp
  then show ?thesis
    using G p heap_start_bounds(1) [OF assms(1)]
    by (intro that [OF served(7)]) (simp_all add: block_above_def del: of_nat_add)
next
  case refused
  let ?g = "g\<lparr>heap_top := of_nat (heap_start heap_base g)\<rparr>"
  have s: "heap_start heap_base ?g = heap_start heap_base g"
    using heap_start_bounds(2) [OF assms(1)] heap_start_word(3) [OF assms(1)] by (auto simp: heap_start_def [of _ ?g])
  have "heap_ok heap_base ?g"
    using assms(1) heap_start_bounds [OF assms(1)] heap_start_word(3) [OF assms(1)] by (simp add: heap_ok_def)
  then show ?thesis by (intro that [OF refused(2)]) (simp_all add: block_above_def s)
qed

lemma malloc_all_blocks:
  assumes "heap_ok heap_base g" "\<forall>n \<in> set ns. unat n \<le> 2 ^ 32 - 32"
  shows "\<exists>g' ps. malloc_all heap_base g ns = Val (g', ps) \<and> heap_ok heap_base g' \<and> map snd ps = ns
    \<and> list_all (block_above (heap_start heap_base g)) ps \<and> sorted_wrt apart ps
    \<and> list_all (\<lambda>(p, n). p \<noteq> 0 \<longrightarrow> unat p + unat n \<le> heap_start heap_base g') ps
    \<and> heap_start heap_base g \<le> heap_start heap_base g'"
  using assms
proof (induction ns arbitrary: g)
  case (Cons n ns)
  have n: "unat n \<le> 2 ^ 32 - 32" using Cons.prems(2) by (meson list.set_intros(1))
  obtain g1 p where 1: "libc_malloc heap_base g n = Val (g1, p)" "heap_ok heap_base g1"
    "block_above (heap_start heap_base g) (p, n)" "p \<noteq> 0 \<longrightarrow> unat p + unat n \<le> heap_start heap_base g1"
    "heap_start heap_base g \<le> heap_start heap_base g1"
    by (rule malloc_step [OF Cons.prems(1) n])
  have "\<forall>n \<in> set ns. unat n \<le> 2 ^ 32 - 32" using Cons.prems(2) by (meson list.set_intros(2))
  from Cons.IH [OF 1(2) this] obtain g' ps where 2: "malloc_all heap_base g1 ns = Val (g', ps)" "heap_ok heap_base g'" "map snd ps = ns"
    "list_all (block_above (heap_start heap_base g1)) ps" "sorted_wrt apart ps"
    "list_all (\<lambda>(p, n). p \<noteq> 0 \<longrightarrow> unat p + unat n \<le> heap_start heap_base g') ps"
    "heap_start heap_base g1 \<le> heap_start heap_base g'" by blast
  have "list_all (block_above (heap_start heap_base g)) ps"
    using 2(4) 1(5) by (auto simp: list_all_iff block_above_def)
  moreover have "\<forall>b \<in> set ps. apart (p, n) b"
    using 2(4) 1(4) by (fastforce simp: list_all_iff block_above_def apart_def)
  ultimately show ?case using 1 2 by (auto simp del: of_nat_add)
qed auto

text \<open>
  C23. Blocks never overlap: in any run of requests of at most \<^verbatim>\<open>0xFFFFFFE0\<close> bytes each, no request traps, the
  blocks handed out lie above the heap's old top and inside the memory, each is 16-byte aligned, and every later
  block starts at least one header past the end of every earlier one.
\<close>

theorem malloc_blocks_apart:
  assumes "heap_ok heap_base g" "\<forall>n \<in> set ns. unat n \<le> 2 ^ 32 - 32"
  shows "\<exists>g' ps. malloc_all heap_base g ns = Val (g', ps) \<and> heap_ok heap_base g' \<and> map snd ps = ns
    \<and> list_all (block_above (heap_start heap_base g)) ps \<and> sorted_wrt apart ps
    \<and> list_all (\<lambda>(p, n). p \<noteq> 0 \<longrightarrow> unat p + unat n \<le> mem_bytes (lc_rt g')) ps"
proof -
  obtain g' ps where 1: "malloc_all heap_base g ns = Val (g', ps)" "heap_ok heap_base g'" "map snd ps = ns"
    "list_all (block_above (heap_start heap_base g)) ps" "sorted_wrt apart ps"
    "list_all (\<lambda>(p, n). p \<noteq> 0 \<longrightarrow> unat p + unat n \<le> heap_start heap_base g') ps"
    using malloc_all_blocks [OF assms] by blast
  have "list_all (\<lambda>(p, n). p \<noteq> 0 \<longrightarrow> unat p + unat n \<le> mem_bytes (lc_rt g')) ps"
    using 1(6) heap_start_bounds(4) [OF 1(2)] by (fastforce simp: list_all_iff)
  with 1 show ?thesis by blast
qed

text \<open>A request between \<^verbatim>\<open>0xFFFFFFE1\<close> and \<^verbatim>\<open>0xFFFFFFF0\<close>: the new top is the old one, and only the header is written.\<close>

lemma malloc_huge:
  assumes ok: "heap_ok heap_base g" and n: "2 ^ 32 - 32 < unat n" "unat n \<le> 2 ^ 32 - 16"
  defines "s \<equiv> heap_start heap_base g"
  defines "g1 \<equiv> \<lparr>lc_rt = lc_rt g\<lparr>arena := write_range (arena (lc_rt g)) s (le_bytes 4 (2 ^ 32 - 16))\<rparr>, heap_top = of_nat s\<rparr>"
  shows "libc_malloc heap_base g n =
      (if s + 16 \<le> mem_bytes (lc_rt g) then Val (g1, of_nat (s + 16)) else Stop trapOutOfBoundsMemory)"
    "s + 16 \<le> mem_bytes (lc_rt g) \<Longrightarrow> heap_ok heap_base g1 \<and> heap_start heap_base g1 = s
      \<and> mem_bytes (lc_rt g1) = mem_bytes (lc_rt g) \<and> max_bytes g1 = max_bytes g"
proof -
  have r: "unat (round_up_16 n) = 2 ^ 32 - 16"
    using n unat_u32_less [of n] by (simp add: unat_round_up_16)
  then have w: "round_up_16 n = - 16" by (intro word_unat_eq_iff [THEN iffD2]) (simp add: unsigned_minus_1_eq_mask)
  let ?rt = "lc_rt g" and ?cur = "of_nat s :: u32"
  have inv: "mem_inv ?rt" "0 < mem_bytes ?rt" using ok by (simp_all add: heap_ok_def)
  note H = heap_start_bounds [OF ok, folded s_def] and cur = heap_start_word(3) [OF ok, folded s_def]
  note B = mem_bytes_bounds [OF inv]
  have e_lim: "unat (push_bit 16 (mem_pages (memory0 ?rt))) = mem_bytes ?rt"
    using B by (simp add: push_bit_eq_mult unat_word_ariths)
  have res: "heap_reserve ?rt ?cur = Some ?rt"
    using H(4) by (simp add: heap_reserve_def word_less_nat_alt e_lim cur)
  have "16 dvd mem_bytes ?rt" using B(1) by simp
  then have room: "s + 4 \<le> mem_bytes ?rt \<longleftrightarrow> s + 16 \<le> mem_bytes ?rt" using H(1) by (elim dvdE) presburger
  have "mem_ok ?rt" using inv by (simp add: mem_inv_def)
  then have st: "i32_store ?rt ?cur (round_up_16 n) = (if s + 16 \<le> mem_bytes ?rt
      then Val (?rt\<lparr>arena := write_range (arena ?rt) s (le_bytes 4 (2 ^ 32 - 16))\<rparr>) else Stop trapOutOfBoundsMemory)"
    unfolding i32_store_def by (subst mem_store_eq) (simp_all add: cur r room)
  have "g\<lparr>lc_rt := r', heap_top := t'\<rparr> = \<lparr>lc_rt = r', heap_top = t'\<rparr>" for r' t' by (cases g) simp
  then show "libc_malloc heap_base g n =
      (if s + 16 \<le> mem_bytes ?rt then Val (g1, of_nat (s + 16)) else Stop trapOutOfBoundsMemory)"
    unfolding libc_malloc_def Let_def heap_start_word(2) [OF ok, folded s_def] g1_def
    using res st by (simp add: w)
  assume room: "s + 16 \<le> mem_bytes ?rt"
  have "?cur \<noteq> 0" using H(2) cur by (metis less_irrefl unsigned_0)
  then have start: "heap_start heap_base g1 = s"
    unfolding heap_start_def [of heap_base g1] by (simp add: cur g1_def)
  have b: "mem_bytes (lc_rt g1) = mem_bytes ?rt" "max_bytes g1 = max_bytes g" by (simp_all add: mem_bytes_def max_bytes_def g1_def)
  have "mem_inv (lc_rt g1)" using mem_inv_write [OF inv(1), of s "le_bytes 4 (2 ^ 32 - 16)"] room by (simp add: g1_def)
  moreover have "heap_top g1 = ?cur" by (simp add: g1_def)
  ultimately show "heap_ok heap_base g1 \<and> heap_start heap_base g1 = s \<and> mem_bytes (lc_rt g1) = mem_bytes ?rt \<and> max_bytes g1 = max_bytes g"
    using ok H b cur start by (simp add: heap_ok_def)
qed

text \<open>
  C24. The bound is needed: a request between \<^verbatim>\<open>0xFFFFFFE1\<close> and \<^verbatim>\<open>0xFFFFFFF0\<close> wraps the new top around to the old
  one, which the test for wrap-around lets through. When the memory has room for a header above the heap's top the
  request is served with a block of which nothing exists, and a following request that fits gets the same pointer.
\<close>

theorem malloc_huge_served:
  assumes ok: "heap_ok heap_base g" and n: "2 ^ 32 - 32 < unat n" "unat n \<le> 2 ^ 32 - 16"
    and k: "unat k \<le> 2 ^ 32 - 32" "fits heap_base g k"
    and room: "heap_start heap_base g + 16 \<le> mem_bytes (lc_rt g)"
  shows "\<exists>g1 g2. libc_malloc heap_base g n = Val (g1, of_nat (heap_start heap_base g + 16))
    \<and> libc_malloc heap_base g1 k = Val (g2, of_nat (heap_start heap_base g + 16))"
proof -
  note h = malloc_huge [OF ok n]
  from h(1) room obtain g1 where g1: "libc_malloc heap_base g n = Val (g1, of_nat (heap_start heap_base g + 16))"
    "heap_ok heap_base g1" "heap_start heap_base g1 = heap_start heap_base g" "max_bytes g1 = max_bytes g"
    using h(2) [OF room] by (simp only: if_True)
  have "fits heap_base g1 k" using k(2) by (simp only: fits_def g1(3,4))
  with malloc_cases [OF g1(2) k(1)] obtain g2 where "libc_malloc heap_base g1 k = Val (g2, of_nat (heap_start heap_base g + 16))"
    by (metis g1(3))
  with g1(1) show ?thesis by blast
qed

definition ex_heap :: libc where
  "ex_heap = \<lparr>lc_rt = one_page, heap_top = 0\<rparr>"

lemma ex_heap_ok: "heap_ok 1000 ex_heap"
  by (simp add: heap_ok_def ex_heap_def one_page_inv) (simp add: one_page_def mem_bytes_def)

lemma ex_heap_start: "heap_start 1000 ex_heap = 1008"
  by (simp add: heap_start_def ex_heap_def unat_round_up_16)

lemma ex_heap_fits: "fits 1000 ex_heap n \<longleftrightarrow> rounded n \<le> 130048"
  by (simp add: fits_def ex_heap_start max_bytes_def) (auto simp: ex_heap_def one_page_def)

lemma malloc_correct_witness:
  "\<exists>g p. libc_malloc 1000 ex_heap 100000 = Val (g, p) \<and> unat p = 1024
    \<and> libc_malloc 1000 ex_heap 200000 = Val (ex_heap\<lparr>heap_top := 1008\<rparr>, 0)"
  using malloc_correct [OF ex_heap_ok, of 100000] malloc_correct [OF ex_heap_ok, of 200000]
  by (auto simp: ex_heap_fits ex_heap_start rounded_def unat_round_up_16)

lemma malloc_blocks_apart_witness:
  "\<exists>g ps. malloc_all 1000 ex_heap [100, 0, 70000] = Val (g, ps) \<and> sorted_wrt apart ps"
  using malloc_blocks_apart [OF ex_heap_ok, of "[100, 0, 70000]"] by auto

lemma malloc_huge_served_witness:
  "\<exists>g1 g2 p. libc_malloc 1000 ex_heap 0xFFFFFFF0 = Val (g1, p) \<and> libc_malloc 1000 g1 8 = Val (g2, p) \<and> p \<noteq> 0"
proof -
  have "heap_start 1000 ex_heap + 16 \<le> mem_bytes (lc_rt ex_heap)"
    unfolding ex_heap_start by (simp add: ex_heap_def one_page_def mem_bytes_def)
  moreover have "fits 1000 ex_heap 8" by (simp add: ex_heap_fits rounded_def unat_round_up_16)
  ultimately show ?thesis
    using malloc_huge_served [OF ex_heap_ok, of "0xFFFFFFF0" 8] by (force simp: ex_heap_start)
qed

end
