(* ===== verification/Guest_Strings.thy ===== *)
theory Guest_Strings
  imports Guest_Libc
begin

text \<open>
  The memory and string functions of \<^verbatim>\<open>src/libc/libc.c\<close>, and the allocation functions built on them. \<open>cstring\<close>
  says that memory holds a NUL-terminated string; a search for a terminator that is not there traps at the end
  of the memory, which bounds every loop.
\<close>

section \<open>Single bytes\<close>

lemma le_word_single: "(le_word [b] :: u8) = b"
  by (simp add: le_word_def)

lemma load8_eq:
  "mem_inv rt \<Longrightarrow> unat p < mem_bytes rt \<Longrightarrow> i32_load8_u rt p = Val (ucast (arena rt (unat p)))"
  by (simp add: i32_load8_u_def mem_load_eq mem_inv_def read_range_def le_word_single)

lemma load8_less: "i32_load8_u rt p = Val b \<Longrightarrow> unat p < mem_bytes rt"
  by (auto simp: i32_load8_u_def mem_load_def res_bind_eq_Val wasm_check_eq split: if_splits)

lemma store8_eq:
  assumes "mem_inv rt" "unat p < mem_bytes rt"
  shows "i32_store8 rt p v = Val (rt\<lparr>arena := (arena rt)(unat p := ucast v)\<rparr>)"
proof -
  have "word_of_nat (unat b mod 256) = b" for b :: u8 by (simp add: unat_u8_less)
  with assms show ?thesis by (simp add: i32_store8_def mem_store_eq mem_inv_def write_range_single)
qed

lemma mem_bytes_arena_update [simp]: "mem_bytes (rt\<lparr>arena := a\<rparr>) = mem_bytes rt"
  by (simp add: mem_bytes_def)

lemma store8_bytes: "i32_store8 rt p v = Val rt' \<Longrightarrow> mem_bytes rt' = mem_bytes rt"
  by (auto simp: i32_store8_def mem_store_def arena_write_def res_bind_eq_Val split: if_splits)

lemma mem_inv_byte [intro]: "mem_inv rt \<Longrightarrow> i < mem_bytes rt \<Longrightarrow> mem_inv (rt\<lparr>arena := (arena rt)(i := b)\<rparr>)"
  using mem_inv_write [of rt i "[b]"] by (simp add: write_range_single)

lemma mem_bytes_less: "mem_bytes rt < 2 ^ 32"
  using unat_u32_less [of "mem_size (memory0 rt)"] by (simp add: mem_bytes_def)

lemma unat_next: "unat (p :: u32) < mem_bytes rt \<Longrightarrow> unat (p + 1) = Suc (unat p)"
  using mem_bytes_less [of rt] by (simp add: unat_word_ariths)

lemma ucast_back [simp]: "ucast (ucast (b :: u8) :: u32) = b"
  by (intro bit_word_eqI) (auto simp: bit_simps)

lemma ucast_u8_eq [simp]: "(ucast (b :: u8) :: u32) = ucast c \<longleftrightarrow> b = c"
  by (metis ucast_back)

lemma ucast_u8_0 [simp]: "(ucast (b :: u8) :: u32) = 0 \<longleftrightarrow> b = 0"
  using ucast_u8_eq [of b 0] by simp

lemma unat_ucast_u8 [simp]: "unat (ucast (b :: u8) :: u32) = unat b"
  using unat_u8_less [of b] by (simp add: unsigned_ucast_eq take_bit_nat_eq_self)

lemma arena_update: "arena (rt\<lparr>arena := a\<rparr>) = a" "rt\<lparr>arena := a, arena := b\<rparr> = rt\<lparr>arena := b\<rparr>"
  by simp_all

section \<open>Copying and filling\<close>

lemma copy_up_loop:
  assumes "mem_inv rt" "unat d + n \<le> mem_bytes rt" "unat s + n \<le> mem_bytes rt"
  shows "copy_up rt d s n = Val (rt\<lparr>arena := memcpy_loop (arena rt) (unat d) (unat s) n\<rparr>)"
  using assms
proof (induction n arbitrary: rt d s)
  case (Suc n)
  let ?rt = "rt\<lparr>arena := (arena rt)(unat d := arena rt (unat s))\<rparr>"
  have u: "unat (d + 1) = unat d + 1" "unat (s + 1) = unat s + 1"
    using Suc.prems by (simp_all add: unat_next [of _ rt])
  have "copy_up rt d s (Suc n) = copy_up ?rt (d + 1) (s + 1) n" using Suc.prems by (simp add: load8_eq store8_eq)
  also have "\<dots> = Val (?rt\<lparr>arena := memcpy_loop (arena ?rt) (unat (d + 1)) (unat (s + 1)) n\<rparr>)"
    by (rule Suc.IH) (use Suc.prems u in auto)
  finally show ?case unfolding arena_update memcpy_loop.simps u .
qed simp

lemma copy_down_loop:
  assumes "mem_inv rt" "unat d \<le> mem_bytes rt" "unat s \<le> mem_bytes rt" "n \<le> unat d" "n \<le> unat s"
  shows "copy_down rt d s n = Val (rt\<lparr>arena := memmove_down (arena rt) (unat d) (unat s) n\<rparr>)"
  using assms
proof (induction n arbitrary: rt d s)
  case (Suc n)
  have u: "unat (d - 1) = unat d - 1" "unat (s - 1) = unat s - 1"
  proof -
    have "d \<noteq> 0" "s \<noteq> 0" using Suc.prems(4,5) by auto
    then show "unat (d - 1) = unat d - 1" "unat (s - 1) = unat s - 1" by (simp_all add: unat_minus_one)
  qed
  let ?rt = "rt\<lparr>arena := (arena rt)(unat d - 1 := arena rt (unat s - 1))\<rparr>"
  have "copy_down rt d s (Suc n) = copy_down ?rt (d - 1) (s - 1) n"
    using Suc.prems by (simp add: load8_eq store8_eq u)
  also have "\<dots> = Val (?rt\<lparr>arena := memmove_down (arena ?rt) (unat (d - 1)) (unat (s - 1)) n\<rparr>)"
    by (rule Suc.IH) (use Suc.prems u in auto)
  finally show ?case unfolding arena_update memmove_down.simps u .
qed simp

lemma fill_up_loop:
  assumes "mem_inv rt" "unat d + n \<le> mem_bytes rt"
  shows "fill_up rt d c n = Val (rt\<lparr>arena := memset_loop (arena rt) (unat d) (ucast c) n\<rparr>)"
  using assms
proof (induction n arbitrary: rt d)
  case (Suc n)
  let ?rt = "rt\<lparr>arena := (arena rt)(unat d := ucast c)\<rparr>"
  have u: "unat (d + 1) = unat d + 1" using Suc.prems by (simp add: unat_next [of _ rt])
  have "fill_up rt d c (Suc n) = fill_up ?rt (d + 1) c n" using Suc.prems by (simp add: store8_eq)
  also have "\<dots> = Val (?rt\<lparr>arena := memset_loop (arena ?rt) (unat (d + 1)) (ucast c) n\<rparr>)"
    by (rule Suc.IH) (use Suc.prems u in auto)
  finally show ?case unfolding arena_update memset_loop.simps u .
qed simp

lemma libc_memcpy_eq:
  assumes "mem_inv rt" "unat d + unat n \<le> mem_bytes rt" "unat s + unat n \<le> mem_bytes rt"
    "unat d \<le> unat s \<or> unat s + unat n \<le> unat d"
  shows "libc_memcpy rt d s n = Val (rt\<lparr>arena := write_range (arena rt) (unat d) (read_range (arena rt) (unat s) (unat n))\<rparr>)"
  by (simp add: libc_memcpy_def copy_up_loop [OF assms(1-3)] memcpy_loop_eq [OF assms(4)])

lemma libc_memset_eq:
  assumes "mem_inv rt" "unat d + unat n \<le> mem_bytes rt"
  shows "libc_memset rt d c n = Val (rt\<lparr>arena := write_range (arena rt) (unat d) (replicate (unat n) (ucast c))\<rparr>)"
  using memset_eq [of "arena rt" "unat d" c "unat n"]
  by (simp add: libc_memset_def fill_up_loop [OF assms] memset_def)

lemma libc_memmove_eq:
  assumes "mem_inv rt" "unat d + unat n \<le> mem_bytes rt" "unat s + unat n \<le> mem_bytes rt"
  shows "libc_memmove rt d s n = Val (rt\<lparr>arena := write_range (arena rt) (unat d) (read_range (arena rt) (unat s) (unat n))\<rparr>)"
proof (cases "d < s")
  case True
  then show ?thesis
    using copy_up_loop [OF assms] memcpy_loop_eq [of "unat d" "unat s" "unat n"]
    by (simp add: libc_memmove_def word_less_nat_alt)
next
  case False
  have "unat (d + n) = unat d + unat n" "unat (s + n) = unat s + unat n"
    using assms(2,3) mem_bytes_less [of rt] by (simp_all add: unat_word_ariths)
  then show ?thesis
    using False assms copy_down_loop [of rt "d + n" "s + n" "unat n"] memmove_down_eq [of "unat s" "unat d"]
    by (simp add: libc_memmove_def word_less_nat_alt)
qed

section \<open>Strings\<close>

definition cstring :: "runtime \<Rightarrow> u32 \<Rightarrow> u8 list \<Rightarrow> bool" where
  "cstring rt p s \<longleftrightarrow> unat p + length s < mem_bytes rt \<and> 0 \<notin> set s
     \<and> read_range (arena rt) (unat p) (Suc (length s)) = s @ [0]"

text \<open>The loops stop at a NUL or trap at the end of the memory.\<close>

function strlen_loop :: "runtime \<Rightarrow> u32 \<Rightarrow> (trap, u32) res" where
  "strlen_loop rt p = (case i32_load8_u rt p of
     Val b \<Rightarrow> if b = 0 then Val p else strlen_loop rt (p + 1)
   | Stop e \<Rightarrow> Stop e | Unsafe \<Rightarrow> Unsafe)"
  by auto
termination
  by (relation "measure (\<lambda>(rt, p). mem_bytes rt - unat p)") (auto dest!: load8_less simp: unat_next [of _ "_ :: runtime"])

definition strlen :: "runtime \<Rightarrow> u32 \<Rightarrow> (trap, u32) res" where
  "strlen rt s = res_bind (strlen_loop rt s) (\<lambda>p. Val (p - s))"

function strcmp :: "runtime \<Rightarrow> u32 \<Rightarrow> u32 \<Rightarrow> (trap, int) res" where
  "strcmp rt a b = (case i32_load8_u rt a of
     Val x \<Rightarrow> (case i32_load8_u rt b of
        Val y \<Rightarrow> if x \<noteq> 0 \<and> x = y then strcmp rt (a + 1) (b + 1) else Val (int (unat x) - int (unat y))
      | Stop e \<Rightarrow> Stop e | Unsafe \<Rightarrow> Unsafe)
   | Stop e \<Rightarrow> Stop e | Unsafe \<Rightarrow> Unsafe)"
  by auto
termination
  by (relation "measure (\<lambda>(rt, a, b). mem_bytes rt - unat a)") (auto dest!: load8_less simp: unat_next [of _ "_ :: runtime"])

function strcpy_loop :: "runtime \<Rightarrow> u32 \<Rightarrow> u32 \<Rightarrow> (trap, runtime) res" where
  "strcpy_loop rt d s = (case i32_load8_u rt s of
     Val b \<Rightarrow> (case i32_store8 rt d b of
        Val rt' \<Rightarrow> if b = 0 then Val rt' else strcpy_loop rt' (d + 1) (s + 1)
      | Stop e \<Rightarrow> Stop e | Unsafe \<Rightarrow> Unsafe)
   | Stop e \<Rightarrow> Stop e | Unsafe \<Rightarrow> Unsafe)"
  by auto
termination
  by (relation "measure (\<lambda>(rt, d, s). mem_bytes rt - unat s)")
    (auto dest!: load8_less store8_bytes simp: unat_next [of _ "_ :: runtime"])

declare strlen_loop.simps [simp del] strcmp.simps [simp del] strcpy_loop.simps [simp del]

lemma read_range_Suc: "read_range m a (Suc n) = m a # read_range m (Suc a) n"
proof -
  have "[a..<a + Suc n] = a # [Suc a..<Suc a + n]" by (simp only: upt_conv_Cons add_Suc_right add_Suc less_Suc_eq_le le_add1)
  then show ?thesis by (simp only: read_range_def list.map)
qed

lemma cstring_Nil: "cstring rt p [] \<longleftrightarrow> unat p < mem_bytes rt \<and> arena rt (unat p) = 0"
  by (simp add: cstring_def read_range_def)

lemma cstring_Cons:
  "cstring rt p (b # s) \<longleftrightarrow> unat p < mem_bytes rt \<and> b \<noteq> 0 \<and> arena rt (unat p) = b \<and> cstring rt (p + 1) s"
proof (cases "unat p < mem_bytes rt")
  case True
  then show ?thesis by (auto simp: cstring_def unat_next [OF True] read_range_Suc)
qed (simp add: cstring_def)

lemma strlen_loop_eq: "mem_inv rt \<Longrightarrow> cstring rt p s \<Longrightarrow> strlen_loop rt p = Val (p + of_nat (length s))"
proof (induction s arbitrary: p)
  case Nil
  then show ?case by (subst strlen_loop.simps) (simp add: cstring_Nil load8_eq)
next
  case (Cons b s)
  then show ?case by (subst strlen_loop.simps) (simp add: cstring_Cons load8_eq)
qed

lemma u8_pos: "0 < uint (b :: u8) \<longleftrightarrow> b \<noteq> 0" "uint b = 0 \<longleftrightarrow> b = 0"
  by (auto simp: uint_0_iff order_less_le)

lemma strcmp_Nil_left:
  "mem_inv rt \<Longrightarrow> cstring rt a [] \<Longrightarrow> cstring rt b t \<Longrightarrow> strcmp rt a b = Val (- int (unat (arena rt (unat b))))"
  by (cases t; subst strcmp.simps) (simp_all add: cstring_Nil cstring_Cons load8_eq)

lemma strcmp_differ:
  "mem_inv rt \<Longrightarrow> cstring rt a (x # s) \<Longrightarrow> cstring rt b t \<Longrightarrow> arena rt (unat b) \<noteq> x \<Longrightarrow>
   strcmp rt a b = Val (int (unat x) - int (unat (arena rt (unat b))))"
  by (cases t; subst strcmp.simps) (auto simp: cstring_Nil cstring_Cons load8_eq)

lemma strcmp_same:
  "mem_inv rt \<Longrightarrow> cstring rt a (x # s) \<Longrightarrow> cstring rt b (x # t) \<Longrightarrow> strcmp rt a b = strcmp rt (a + 1) (b + 1)"
  by (subst strcmp.simps) (auto simp: cstring_Cons load8_eq)

lemma cstring_head: "cstring rt p t \<Longrightarrow> arena rt (unat p) = (case t of [] \<Rightarrow> 0 | y # _ \<Rightarrow> y)"
  by (cases t) (simp_all add: cstring_Nil cstring_Cons)

lemma strcmp_eq:
  "mem_inv rt \<Longrightarrow> cstring rt a s \<Longrightarrow> cstring rt b t \<Longrightarrow>
   \<exists>r. strcmp rt a b = Val r \<and> (r = 0 \<longleftrightarrow> s = t) \<and> (r < 0 \<longleftrightarrow> ord_class.lexordp s t)"
proof (induction s arbitrary: a b t)
  case Nil
  then show ?case
    using strcmp_Nil_left [OF Nil] cstring_head [OF Nil(3)]
    by (cases t) (auto simp: cstring_Cons u8_pos)
next
  case (Cons x s)
  have x: "x \<noteq> 0" "cstring rt (a + 1) s" using Cons.prems(2) by (simp_all add: cstring_Cons)
  show ?case
  proof (cases "arena rt (unat b) = x")
    case True
    with x(1) cstring_head [OF Cons.prems(3)] obtain t' where t: "t = x # t'" by (cases t) auto
    then have "cstring rt (b + 1) t'" using Cons.prems(3) by (simp add: cstring_Cons)
    from Cons.IH [OF Cons.prems(1) x(2) this] strcmp_same [OF Cons.prems(1,2) Cons.prems(3) [unfolded t]] show ?thesis
      by (simp add: t)
  next
    case False
    then show ?thesis
      using strcmp_differ [OF Cons.prems(1-3) False] cstring_head [OF Cons.prems(3)] x(1) False [unfolded word_uint_eq_iff]
      by (cases t) (auto simp: word_less_def u8_pos)
  qed
qed

text \<open>Copying a string away from itself.\<close>

lemma strcpy_loop_eq:
  assumes "mem_inv rt" "cstring rt s xs" "unat d + length xs < mem_bytes rt"
    and "unat d + length xs < unat s \<or> unat s + length xs < unat d"
  shows "strcpy_loop rt d s = Val (rt\<lparr>arena := write_range (arena rt) (unat d) (xs @ [0])\<rparr>)"
  using assms
proof (induction xs arbitrary: rt d s)
  case Nil
  then show ?case by (subst strcpy_loop.simps) (simp add: cstring_Nil load8_eq store8_eq write_range_single)
next
  case (Cons x xs)
  let ?rt = "rt\<lparr>arena := (arena rt)(unat d := x)\<rparr>"
  have d: "unat d < mem_bytes rt" "unat (d + 1) = Suc (unat d)" using Cons.prems(3) unat_next [of d rt] by simp_all
  have s: "unat s < mem_bytes rt" "x \<noteq> 0" "arena rt (unat s) = x" "cstring rt (s + 1) xs" "unat (s + 1) = Suc (unat s)"
    using Cons.prems(2) unat_next [of s rt] by (simp_all add: cstring_Cons)
  have "strcpy_loop rt d s = strcpy_loop ?rt (d + 1) (s + 1)"
    using Cons.prems(1) d(1) s by (subst strcpy_loop.simps) (simp add: load8_eq store8_eq)
  also have "\<dots> = Val (?rt\<lparr>arena := write_range (arena ?rt) (unat (d + 1)) (xs @ [0])\<rparr>)"
  proof (rule Cons.IH)
    show "mem_inv ?rt" using Cons.prems(1) d(1) by auto
    have "read_range ((arena rt)(unat d := x)) (unat (s + 1)) (Suc (length xs)) = read_range (arena rt) (unat (s + 1)) (Suc (length xs))"
      unfolding read_range_eq_iff using Cons.prems(4) s(5) by auto
    then show "cstring ?rt (s + 1) xs" using s(4) by (simp add: cstring_def)
  qed (use Cons.prems d(2) s(5) in auto)
  also have "write_range (arena ?rt) (unat (d + 1)) (xs @ [0]) = write_range (arena rt) (unat d) (x # xs @ [0])"
    by (auto simp: fun_eq_iff write_range_def d(2) nth_Cons' Suc_diff_le)
  finally show ?case by (simp add: arena_update)
qed

section \<open>Properties\<close>

text \<open>
  C25. On NUL-terminated strings that lie in memory none of the string functions traps: \<^verbatim>\<open>strlen\<close> returns the length,
  the sign of \<^verbatim>\<open>strcmp\<close> is the order of the strings as lists of unsigned bytes, and \<^verbatim>\<open>strcpy\<close> to memory that does
  not overlap leaves a copy there and every other byte unchanged.
\<close>

theorem string_functions_correct:
  assumes "mem_inv rt" "cstring rt a s" "cstring rt b t" "unat d + length s < mem_bytes rt"
    and "unat d + length s < unat a \<or> unat a + length s < unat d"
  shows "strlen rt a = Val (of_nat (length s))
    \<and> (\<exists>r. strcmp rt a b = Val r \<and> (r = 0 \<longleftrightarrow> s = t) \<and> (r < 0 \<longleftrightarrow> ord_class.lexordp s t))
    \<and> (\<exists>rt'. strcpy_loop rt d a = Val rt' \<and> cstring rt' d s
        \<and> (\<forall>i. i < unat d \<or> unat d + length s < i \<longrightarrow> arena rt' i = arena rt i))"
proof (intro conjI)
  show "strlen rt a = Val (of_nat (length s))"
    using strlen_loop_eq [OF assms(1,2)] by (simp add: strlen_def)
  show "\<exists>r. strcmp rt a b = Val r \<and> (r = 0 \<longleftrightarrow> s = t) \<and> (r < 0 \<longleftrightarrow> ord_class.lexordp s t)"
    by (rule strcmp_eq [OF assms(1-3)])
  let ?rt = "rt\<lparr>arena := write_range (arena rt) (unat d) (s @ [0])\<rparr>"
  have "cstring ?rt d s" using assms(2,4) by (simp add: cstring_def read_write_same)
  then show "\<exists>rt'. strcpy_loop rt d a = Val rt' \<and> cstring rt' d s
        \<and> (\<forall>i. i < unat d \<or> unat d + length s < i \<longrightarrow> arena rt' i = arena rt i)"
    using strcpy_loop_eq [OF assms(1,2,4,5)] by (auto simp: write_range_def)
qed

text \<open>A block returned by the allocator starts with its size.\<close>

definition header_ok :: "libc \<Rightarrow> u32 \<Rightarrow> u32 \<Rightarrow> bool" where
  "header_ok g p old \<longleftrightarrow> p \<noteq> 0 \<and> i32_load (lc_rt g) (p - 16) = Val old"

lemma calloc_overflow:
  "2 ^ 32 \<le> unat n * unat m \<Longrightarrow> libc_calloc heap_base g n m = Val (g, 0)"
proof -
  assume o: "2 ^ 32 \<le> unat n * unat m"
  then have m: "m \<noteq> 0" by (auto intro: ccontr)
  have "unat ((- 1) div m) = (2 ^ 32 - 1) div unat m" by (simp add: unat_div unsigned_minus_1_eq_mask mask_eq_exp_minus_1)
  also have "\<dots> < unat n" using o m by (simp add: div_less_iff_less_mult unat_gt_0)
  finally show ?thesis using m by (simp add: libc_calloc_def word_less_nat_alt)
qed

lemma calloc_product:
  fixes n m :: u32
  assumes "unat n * unat m < 2 ^ 32"
  shows "unat (n * m) = unat n * unat m" "\<not> (m \<noteq> 0 \<and> n > (- 1) div m)"
proof -
  show "unat (n * m) = unat n * unat m" using assms by (simp add: unat_word_ariths)
  have "unat n \<le> (2 ^ 32 - 1) div unat m" if "m \<noteq> 0"
    using assms that by (simp add: less_eq_div_iff_mult_less_eq unat_gt_0)
  moreover have "unat ((- 1) div m) = (2 ^ 32 - 1) div unat m" by (simp add: unat_div unsigned_minus_1_eq_mask mask_eq_exp_minus_1)
  ultimately show "\<not> (m \<noteq> 0 \<and> n > (- 1) div m)" by (auto simp: word_less_nat_alt)
qed

text \<open>What a served request leaves, for its callers.\<close>

lemma malloc_served:
  assumes ok: "heap_ok heap_base g" and n: "unat n \<le> 2 ^ 32 - 32" and f: "fits heap_base g n"
  obtains g' p where "libc_malloc heap_base g n = Val (g', p)" "heap_ok heap_base g'" "unat p = heap_start heap_base g + 16"
    "unat p + unat n \<le> mem_bytes (lc_rt g')" "p \<noteq> 0"
    "\<forall>i. i < heap_start heap_base g \<or> heap_start heap_base g + 4 \<le> i \<longrightarrow> arena (lc_rt g') i = arena (lc_rt g) i"
  using ok n
proof (cases rule: malloc_cases)
  case (served rt')
  let ?s = "heap_start heap_base g" and ?p = "of_nat (heap_start heap_base g + 16) :: u32"
  note G = heap_ok_served [OF ok served(2,4,6)]
  have b: "mem_bytes rt' < 2 ^ 32" by (rule mem_bytes_less)
  then have p: "unat ?p = ?s + 16" using served(6) by (intro trans [OF unat_of_nat]) simp
  have "unat n \<le> rounded n" using rounded_bounds(1) n by simp
  then have "unat ?p + unat n \<le> mem_bytes rt'" using served(6) p by linarith
  moreover have "?p \<noteq> 0" using p by (metis add_gr_0 less_irrefl unsigned_0 zero_less_numeral)
  ultimately show ?thesis
    using served(3) by (intro that [OF served(7) G(1) p]) (simp_all add: G(3) write_range_outside del: of_nat_add)
qed (use f in simp)

text \<open>Writing bytes of the memory keeps the heap as it is.\<close>

lemma heap_ok_write:
  assumes "heap_ok heap_base g" "a + length bs \<le> mem_bytes (lc_rt g)"
  shows "heap_ok heap_base (g\<lparr>lc_rt := lc_rt g\<lparr>arena := write_range (arena (lc_rt g)) a bs\<rparr>\<rparr>)"
  using assms by (auto simp: heap_ok_def)

lemma calloc_served:
  assumes ok: "heap_ok heap_base g" and nm: "unat n * unat m \<le> 2 ^ 32 - 32" and f: "fits heap_base g (n * m)"
  obtains g' p where "libc_calloc heap_base g n m = Val (g', p)" "heap_ok heap_base g'" "unat p = heap_start heap_base g + 16"
    "unat p + unat n * unat m \<le> mem_bytes (lc_rt g')"
    "\<forall>i. unat p \<le> i \<and> i < unat p + unat n * unat m \<longrightarrow> arena (lc_rt g') i = 0"
    "\<forall>i. (i < heap_start heap_base g \<or> heap_start heap_base g + 4 \<le> i) \<and> (i < unat p \<or> unat p + unat n * unat m \<le> i)
       \<longrightarrow> arena (lc_rt g') i = arena (lc_rt g) i"
proof -
  have p: "unat (n * m) = unat n * unat m" "\<not> (m \<noteq> 0 \<and> n > (- 1) div m)"
    using calloc_product [of n m] nm by simp_all
  obtain g' p where m: "libc_malloc heap_base g (n * m) = Val (g', p)" "heap_ok heap_base g'" "unat p = heap_start heap_base g + 16"
    "unat p + unat (n * m) \<le> mem_bytes (lc_rt g')" "p \<noteq> 0"
    "\<forall>i. i < heap_start heap_base g \<or> heap_start heap_base g + 4 \<le> i \<longrightarrow> arena (lc_rt g') i = arena (lc_rt g) i"
    by (rule malloc_served [OF ok _ f]) (use nm p(1) in simp)
  have "mem_inv (lc_rt g')" using m(2) by (simp add: heap_ok_def)
  note s = libc_memset_eq [OF this m(4), of 0]
  let ?g = "g'\<lparr>lc_rt := lc_rt g'\<lparr>arena := write_range (arena (lc_rt g')) (unat p) (replicate (unat (n * m)) (ucast (0 :: u32)))\<rparr>\<rparr>"
  have c: "libc_calloc heap_base g n m = Val (?g, p)" using p(2) m(1,5) s by (simp add: libc_calloc_def)
  have ok': "heap_ok heap_base ?g" by (rule heap_ok_write [OF m(2)]) (use m(4) in simp)
  show thesis
    by (rule that [OF c ok' m(3)]) (use m(4,6) p(1) in \<open>auto simp: write_range_def\<close>)
qed

text \<open>Filling past the end of the memory traps.\<close>

lemma fill_up_traps:
  "mem_inv rt \<Longrightarrow> unat d \<le> mem_bytes rt \<Longrightarrow> mem_bytes rt < unat d + n \<Longrightarrow> fill_up rt d c n = Stop trapOutOfBoundsMemory"
proof (induction n arbitrary: rt d)
  case (Suc n)
  show ?case
  proof (cases "unat d = mem_bytes rt")
    case True
    then show ?thesis using Suc.prems(1) by (simp add: i32_store8_def mem_store_eq mem_inv_def)
  next
    case False
    then have d: "unat d < mem_bytes rt" using Suc.prems(2) by simp
    let ?rt = "rt\<lparr>arena := (arena rt)(unat d := ucast c)\<rparr>"
    have "fill_up ?rt (d + 1) c n = Stop trapOutOfBoundsMemory"
      by (rule Suc.IH) (use Suc.prems d unat_next [OF d] in auto)
    then show ?thesis using Suc.prems(1) d by (simp add: store8_eq)
  qed
qed simp

lemma malloc_refused:
  assumes "heap_ok heap_base g" "unat n \<le> 2 ^ 32 - 32" "\<not> fits heap_base g n"
  shows "libc_malloc heap_base g n = Val (g\<lparr>heap_top := of_nat (heap_start heap_base g)\<rparr>, 0)"
  using assms(1,2) by (cases rule: malloc_cases) (use assms(3) in simp_all)

text \<open>The products that the check lets through and the allocator's rounding wraps.\<close>

lemma calloc_from:
  assumes "unat n * unat m < 2 ^ 32" "libc_malloc heap_base g (n * m) = Val (g', p)" "p \<noteq> 0"
    and "heap_ok heap_base g'" "unat p \<le> mem_bytes (lc_rt g')" "mem_bytes (lc_rt g') < unat p + unat n * unat m"
  shows "libc_calloc heap_base g n m = Stop trapOutOfBoundsMemory"
proof -
  have "libc_memset (lc_rt g') p 0 (n * m) = Stop trapOutOfBoundsMemory"
    using assms(4-6) calloc_product(1) [OF assms(1)] by (simp add: libc_memset_def heap_ok_def fill_up_traps)
  then show ?thesis using assms(2,3) calloc_product(2) [OF assms(1)] by (simp add: libc_calloc_def)
qed

lemma heap_p:
  assumes "heap_ok heap_base g" "heap_start heap_base g + 16 \<le> B" "B < 2 ^ 32"
  shows "unat (of_nat (heap_start heap_base g + 16) :: u32) = heap_start heap_base g + 16"
    "(of_nat (heap_start heap_base g + 16) :: u32) \<noteq> 0"
proof -
  show u: "unat (of_nat (heap_start heap_base g + 16) :: u32) = heap_start heap_base g + 16"
    using assms(2,3) by (intro trans [OF unat_of_nat]) simp
  then show "(of_nat (heap_start heap_base g + 16) :: u32) \<noteq> 0" by (metis add_gr_0 less_irrefl unsigned_0 zero_less_numeral)
qed

lemma calloc_wrap_16:
  assumes ok: "heap_ok heap_base g" and nm: "2 ^ 32 - 32 < unat n * unat m" "unat n * unat m \<le> 2 ^ 32 - 16"
  shows "libc_calloc heap_base g n m = Stop trapOutOfBoundsMemory"
proof -
  have lt: "unat n * unat m < 2 ^ 32" using nm(2) by simp
  note p = calloc_product [OF lt]
  have h: "2 ^ 32 - 32 < unat (n * m)" "unat (n * m) \<le> 2 ^ 32 - 16" using nm p(1) by simp_all
  show ?thesis
  proof (cases "heap_start heap_base g + 16 \<le> mem_bytes (lc_rt g)")
    case False
    then have "libc_malloc heap_base g (n * m) = Stop trapOutOfBoundsMemory" using malloc_huge(1) [OF ok h] by simp
    then show ?thesis using p(2) by (simp add: libc_calloc_def)
  next
    case True
    note P = heap_p [OF ok True mem_bytes_less]
    have 64: "65536 dvd mem_bytes (lc_rt g)" "mem_bytes (lc_rt g) < 2 ^ 32"
      using ok mem_bytes_bounds(1,5) [of "lc_rt g"] by (auto simp: heap_ok_def)
    then have "mem_bytes (lc_rt g) \<le> 2 ^ 32 - 65536" by (elim dvdE) simp
    then show ?thesis
      using malloc_huge(2) [OF ok h True] True nm(1) P(1)
      by (intro calloc_from [OF lt malloc_huge(1) [OF ok h, unfolded if_P [OF True]] P(2)]) (simp_all del: of_nat_add)
  qed
qed

lemma calloc_wrap_0:
  assumes ok: "heap_ok heap_base g" and nm: "2 ^ 32 - 16 < unat n * unat m" "unat n * unat m < 2 ^ 32"
  shows "libc_calloc heap_base g n m =
    (if fits heap_base g (n * m) then Stop trapOutOfBoundsMemory else Val (g\<lparr>heap_top := of_nat (heap_start heap_base g)\<rparr>, 0))"
proof -
  note p = calloc_product [OF nm(2)]
  have r: "round_up_16 (n * m) = 0" "round_up_16 0 = 0"
    using nm unat_round_up_16 [of "n * m"] by (auto simp: p(1) round_up_16_def unat_eq_zero [symmetric])
  then have eq: "libc_malloc heap_base g (n * m) = libc_malloc heap_base g 0" "fits heap_base g (n * m) = fits heap_base g 0"
    by (simp_all add: libc_malloc_def fits_def rounded_def)
  show ?thesis
  proof (cases "fits heap_base g 0")
    case True
    obtain g' q where m: "libc_malloc heap_base g 0 = Val (g', q)" "heap_ok heap_base g'" "unat q = heap_start heap_base g + 16"
      "unat q + unat 0 \<le> mem_bytes (lc_rt g')" "q \<noteq> 0"
      by (rule malloc_served [OF ok _ True]) simp_all
    have "mem_bytes (lc_rt g') \<le> 2 ^ 32 - 65536"
    proof -
      have "65536 dvd mem_bytes (lc_rt g')" "mem_bytes (lc_rt g') < 2 ^ 32"
        using m(2) mem_bytes_bounds(1,5) [of "lc_rt g'"] by (auto simp: heap_ok_def)
      then show ?thesis by (elim dvdE) simp
    qed
    then have "libc_calloc heap_base g n m = Stop trapOutOfBoundsMemory"
      using m nm by (intro calloc_from [of n m heap_base g g' q]) (simp_all add: eq)
    with True show ?thesis by (simp add: eq)
  next
    case False
    with malloc_refused [OF ok, of 0] p(2) show ?thesis by (auto simp: libc_calloc_def eq)
  qed
qed

text \<open>
  C26. \<^verbatim>\<open>calloc\<close>, for all arguments. A product that does not fit in 32 bits is refused and nothing changes. A product
  of at most \<^verbatim>\<open>0xFFFFFFE0\<close> whose block fits gives a block inside the memory all of whose bytes are zero, and no byte
  outside it and its header has changed; one that does not fit gives \<^verbatim>\<open>NULL\<close>, and of the state only the heap's start
  may have been set. The products above wrap in the allocator's rounding: they give \<^verbatim>\<open>NULL\<close> when not even an empty
  block fits (above \<^verbatim>\<open>0xFFFFFFF0\<close>), and otherwise the zeroing runs past the end of the memory and traps.
\<close>

theorem calloc_correct:
  assumes "heap_ok heap_base g"
  shows "if 2 ^ 32 \<le> unat n * unat m then libc_calloc heap_base g n m = Val (g, 0)
    else if unat n * unat m \<le> 2 ^ 32 - 32 \<and> fits heap_base g (n * m)
    then \<exists>g' p. libc_calloc heap_base g n m = Val (g', p) \<and> heap_ok heap_base g' \<and> unat p = heap_start heap_base g + 16
      \<and> unat p + unat n * unat m \<le> mem_bytes (lc_rt g')
      \<and> (\<forall>i. unat p \<le> i \<and> i < unat p + unat n * unat m \<longrightarrow> arena (lc_rt g') i = 0)
      \<and> (\<forall>i. (i < heap_start heap_base g \<or> heap_start heap_base g + 4 \<le> i) \<and> (i < unat p \<or> unat p + unat n * unat m \<le> i)
          \<longrightarrow> arena (lc_rt g') i = arena (lc_rt g) i)
    else if \<not> fits heap_base g (n * m) \<and> (unat n * unat m \<le> 2 ^ 32 - 32 \<or> 2 ^ 32 - 16 < unat n * unat m)
    then libc_calloc heap_base g n m = Val (g\<lparr>heap_top := of_nat (heap_start heap_base g)\<rparr>, 0)
    else libc_calloc heap_base g n m = Stop trapOutOfBoundsMemory"
proof -
  have low: "libc_calloc heap_base g n m = Val (g\<lparr>heap_top := of_nat (heap_start heap_base g)\<rparr>, 0)"
    if "unat n * unat m \<le> 2 ^ 32 - 32" "\<not> fits heap_base g (n * m)"
    using malloc_refused [OF assms _ that(2)] that(1) calloc_product [of n m] by (auto simp: libc_calloc_def)
  consider "2 ^ 32 \<le> unat n * unat m" | "unat n * unat m \<le> 2 ^ 32 - 32" "fits heap_base g (n * m)"
    | "unat n * unat m \<le> 2 ^ 32 - 32" "\<not> fits heap_base g (n * m)"
    | "2 ^ 32 - 32 < unat n * unat m" "unat n * unat m \<le> 2 ^ 32 - 16" | "2 ^ 32 - 16 < unat n * unat m" "unat n * unat m < 2 ^ 32"
    by linarith
  then show ?thesis
  proof cases
    case 1
    then show ?thesis by (simp only: if_True calloc_overflow)
  next
    case 2
    have "\<not> 2 ^ 32 \<le> unat n * unat m" using 2(1) by simp
    moreover from calloc_served [OF assms 2] have "\<exists>g' p. libc_calloc heap_base g n m = Val (g', p) \<and> heap_ok heap_base g'
      \<and> unat p = heap_start heap_base g + 16 \<and> unat p + unat n * unat m \<le> mem_bytes (lc_rt g')
      \<and> (\<forall>i. unat p \<le> i \<and> i < unat p + unat n * unat m \<longrightarrow> arena (lc_rt g') i = 0)
      \<and> (\<forall>i. (i < heap_start heap_base g \<or> heap_start heap_base g + 4 \<le> i) \<and> (i < unat p \<or> unat p + unat n * unat m \<le> i)
          \<longrightarrow> arena (lc_rt g') i = arena (lc_rt g) i)" by metis
    ultimately show ?thesis using 2 by (simp only: if_False if_True simp_thms)
  next
    case 3
    with low show ?thesis by simp
  next
    case 4
    with calloc_wrap_16 [OF assms 4] show ?thesis by simp
  next
    case 5
    with calloc_wrap_0 [OF assms 5] show ?thesis by simp
  qed
qed

lemma realloc_served:
  assumes ok: "heap_ok heap_base g" and h: "header_ok g p old" and b: "unat p + unat old \<le> heap_start heap_base g"
    and n: "old < n" "unat n \<le> 2 ^ 32 - 32" and f: "fits heap_base g n"
  obtains g' q where "libc_realloc heap_base g p n = Val (g', q)" "heap_ok heap_base g'" "unat q = heap_start heap_base g + 16"
    "unat q + unat n \<le> mem_bytes (lc_rt g')"
    "read_range (arena (lc_rt g')) (unat q) (unat old) = read_range (arena (lc_rt g)) (unat p) (unat old)"
    "\<forall>i. (i < heap_start heap_base g \<or> heap_start heap_base g + 4 \<le> i) \<and> (i < unat q \<or> unat q + unat old \<le> i)
       \<longrightarrow> arena (lc_rt g') i = arena (lc_rt g) i"
proof -
  obtain g' q where m: "libc_malloc heap_base g n = Val (g', q)" "heap_ok heap_base g'" "unat q = heap_start heap_base g + 16"
    "unat q + unat n \<le> mem_bytes (lc_rt g')" "q \<noteq> 0"
    "\<forall>i. i < heap_start heap_base g \<or> heap_start heap_base g + 4 \<le> i \<longrightarrow> arena (lc_rt g') i = arena (lc_rt g) i"
    by (rule malloc_served [OF ok n(2) f])
  have inv: "mem_inv (lc_rt g')" using m(2) by (simp add: heap_ok_def)
  have o: "unat old < unat n" using n(1) by (simp add: word_less_nat_alt)
  have src: "read_range (arena (lc_rt g')) (unat p) (unat old) = read_range (arena (lc_rt g)) (unat p) (unat old)"
    unfolding read_range_eq_iff using m(6) b by auto
  note c = libc_memcpy_eq [OF inv, of q old p]
  let ?g = "g'\<lparr>lc_rt := lc_rt g'\<lparr>arena := write_range (arena (lc_rt g')) (unat q) (read_range (arena (lc_rt g)) (unat p) (unat old))\<rparr>\<rparr>"
  have r: "libc_realloc heap_base g p n = Val (?g, q)"
    using h n(1) [folded not_le] m c b o by (simp add: libc_realloc_def header_ok_def src)
  have ok': "heap_ok heap_base ?g" by (rule heap_ok_write [OF m(2)]) (use m(4) o in simp)
  show thesis
    by (rule that [OF r ok' m(3)]) (use m(4,6) in \<open>auto simp: read_write_same write_range_outside\<close>)
qed

text \<open>
  C27. \<^verbatim>\<open>realloc\<close> to at most \<^verbatim>\<open>0xFFFFFFE0\<close> bytes, of a block below the heap's top whose header holds its size: a size
  that the block has room for gives the block back and changes nothing; a larger one that fits gives a new block inside
  the memory that starts with the old block's bytes, and no byte outside its header and those bytes has changed; one
  that does not fit gives \<^verbatim>\<open>NULL\<close>, and of the state only the heap's start may have been set.
\<close>

theorem realloc_correct:
  assumes "heap_ok heap_base g" "header_ok g p old" "unat p + unat old \<le> heap_start heap_base g" "unat n \<le> 2 ^ 32 - 32"
  shows "if n \<le> old then libc_realloc heap_base g p n = Val (g, p)
    else if fits heap_base g n
    then \<exists>g' q. libc_realloc heap_base g p n = Val (g', q) \<and> heap_ok heap_base g' \<and> unat q = heap_start heap_base g + 16
      \<and> unat q + unat n \<le> mem_bytes (lc_rt g')
      \<and> read_range (arena (lc_rt g')) (unat q) (unat old) = read_range (arena (lc_rt g)) (unat p) (unat old)
      \<and> (\<forall>i. (i < heap_start heap_base g \<or> heap_start heap_base g + 4 \<le> i) \<and> (i < unat q \<or> unat q + unat old \<le> i)
          \<longrightarrow> arena (lc_rt g') i = arena (lc_rt g) i)
    else libc_realloc heap_base g p n = Val (g\<lparr>heap_top := of_nat (heap_start heap_base g)\<rparr>, 0)"
proof (cases "n \<le> old")
  case True
  then show ?thesis using assms(2) by (simp add: libc_realloc_def header_ok_def)
next
  case False
  then have lt: "old < n" by simp
  show ?thesis
  proof (cases "fits heap_base g n")
    case True
    from realloc_served [OF assms(1-3) lt assms(4) True] False True show ?thesis by (metis (no_types, lifting))
  next
    case no: False
    then show ?thesis
      using False malloc_refused [OF assms(1,4) no] assms(2) by (simp add: libc_realloc_def header_ok_def)
  qed
qed

section \<open>Examples\<close>

definition ex_strings :: runtime where
  "ex_strings = one_page\<lparr>arena := write_range (\<lambda>_. 0) 100 [0x61, 0x62, 0, 0x61, 0x63, 0]\<rparr>"

lemma ex_strings_inv: "mem_inv ex_strings"
  by (simp add: ex_strings_def one_page_def mem_inv_def mem_ok_def mem_zero_def WASM_PAGE_SIZE_def arena_bytes_def write_range_def)

lemma ex_strings_hold: "cstring ex_strings 100 [0x61, 0x62]" "cstring ex_strings 103 [0x61, 0x63]"
  by (simp_all add: cstring_def ex_strings_def one_page_def mem_bytes_def read_range_def write_range_def)

lemma string_functions_correct_witness:
  "strlen ex_strings 100 = Val 2 \<and> (\<exists>r. strcmp ex_strings 100 103 = Val r \<and> r < 0)
    \<and> (\<exists>rt. strcpy_loop ex_strings 200 100 = Val rt \<and> cstring rt 200 [0x61, 0x62])"
  using string_functions_correct [OF ex_strings_inv ex_strings_hold, of 200]
  by (auto simp: ex_strings_def one_page_def mem_bytes_def)

lemma calloc_correct_witness:
  "libc_calloc 1000 ex_heap 0x10000 0x10000 = Val (ex_heap, 0)
    \<and> (\<exists>g p. libc_calloc 1000 ex_heap 10 20 = Val (g, p) \<and> arena (lc_rt g) (unat p + 199) = 0)"
  using calloc_correct [OF ex_heap_ok, of "0x10000" "0x10000"] calloc_correct [OF ex_heap_ok, of 10 20]
  by (auto simp: ex_heap_fits ex_heap_start rounded_def unat_round_up_16)

text \<open>A heap with one block, of 112 bytes at 1024.\<close>

definition ex_block :: libc where
  "ex_block = \<lparr>lc_rt = one_page\<lparr>arena := write_range (arena one_page) 1008 (le_bytes 4 112)\<rparr>, heap_top = 1136\<rparr>"

lemma ex_block_ok: "heap_ok 1000 ex_block" "heap_start 1000 ex_block = 1136" "header_ok ex_block 1024 112"
    "fits 1000 ex_block n \<longleftrightarrow> rounded n \<le> 129920"
proof -
  have inv: "mem_inv (one_page\<lparr>arena := write_range (arena one_page) 1008 (le_bytes 4 112)\<rparr>)"
    by (rule mem_inv_write [OF one_page_inv]) (simp add: one_page_def mem_bytes_def)
  have b: "mem_bytes one_page = 65536" by (simp add: one_page_def mem_bytes_def)
  show "heap_ok 1000 ex_block" using inv by (simp add: heap_ok_def ex_block_def b)
  show s: "heap_start 1000 ex_block = 1136" by (simp add: heap_start_def ex_block_def)
  show "fits 1000 ex_block n \<longleftrightarrow> rounded n \<le> 129920"
    unfolding fits_def s by (simp add: max_bytes_def ex_block_def) (auto simp: one_page_def)
  have "mem_ok (one_page\<lparr>arena := write_range (arena one_page) 1008 (le_bytes 4 112)\<rparr>)" using inv by (simp add: mem_inv_def)
  then show "header_ok ex_block 1024 112"
    using le_word_le_bytes [of 4 "112 :: u32"]
    unfolding header_ok_def i32_load_def by (subst mem_load_eq) (simp_all add: ex_block_def b read_write_same)
qed

lemma realloc_correct_witness:
  "libc_realloc 1000 ex_block 1024 100 = Val (ex_block, 1024)
    \<and> (\<exists>g q. libc_realloc 1000 ex_block 1024 200 = Val (g, q) \<and> unat q = 1152)"
  using realloc_correct [OF ex_block_ok(1,3), of 100] realloc_correct [OF ex_block_ok(1,3), of 200]
  by (auto simp: ex_block_ok(2,4) rounded_def unat_round_up_16)

end
