(* ===== verification/Guest_Sort.thy ===== *)
theory Guest_Sort
  imports Guest_Strings "HOL-Library.Multiset"
begin

text \<open>
  \<^verbatim>\<open>qsort\<close> of \<^verbatim>\<open>src/libc/stdio.c\<close>: an insertion sort in linear memory, element by element with \<^verbatim>\<open>memcpy\<close>, through
  a local buffer of 64 bytes. The comparison is a parameter: a function of the bytes of two elements, of which
  only the sign is used; the buffer is a list outside linear memory, and what \<^verbatim>\<open>abort\<close> writes to standard error before
  it exits is left out. \<open>lshift\<close> and \<open>place\<close> say what the loops do to the list of elements.
\<close>

section \<open>The code\<close>

text \<open>How a library call can end: by a trap of the runtime, or by \<^verbatim>\<open>_exit\<close>.\<close>

datatype libc_end = Trapped trap | Exited int

fun trapping :: "(trap, 'a) res \<Rightarrow> (libc_end, 'a) res" where
  "trapping (Val x) = Val x"
| "trapping (Stop t) = Stop (Trapped t)"
| "trapping Unsafe = Unsafe"

text \<open>\<^verbatim>\<open>memcpy\<close> out of memory into the local buffer, and back.\<close>

fun load_bytes :: "runtime \<Rightarrow> u32 \<Rightarrow> nat \<Rightarrow> (trap, u8 list) res" where
  "load_bytes rt p 0 = Val []"
| "load_bytes rt p (Suc n) =
     res_bind (i32_load8_u rt p) (\<lambda>b. res_bind (load_bytes rt (p + 1) n) (\<lambda>bs. Val (ucast b # bs)))"

fun store_bytes :: "runtime \<Rightarrow> u32 \<Rightarrow> u8 list \<Rightarrow> (trap, runtime) res" where
  "store_bytes rt p [] = Val rt"
| "store_bytes rt p (b # bs) = res_bind (i32_store8 rt p (ucast b)) (\<lambda>rt. store_bytes rt (p + 1) bs)"

type_synonym comparison = "u8 list \<Rightarrow> u8 list \<Rightarrow> int"

definition elt :: "u32 \<Rightarrow> u32 \<Rightarrow> nat \<Rightarrow> u32" where
  "elt b sz k = b + of_nat k * sz"

text \<open>The inner loop, from \<open>j\<close> downwards; it returns where the element goes.\<close>

fun shift_up :: "comparison \<Rightarrow> u32 \<Rightarrow> u32 \<Rightarrow> u8 list \<Rightarrow> runtime \<Rightarrow> nat \<Rightarrow> (trap, runtime \<times> nat) res" where
  "shift_up cmp b sz tmp rt 0 = Val (rt, 0)"
| "shift_up cmp b sz tmp rt (Suc j) =
     res_bind (load_bytes rt (elt b sz j) (unat sz)) (\<lambda>e.
     if cmp e tmp > 0
     then res_bind (libc_memcpy rt (elt b sz (Suc j)) (elt b sz j) sz) (\<lambda>rt. shift_up cmp b sz tmp rt j)
     else Val (rt, Suc j))"

definition insert_element :: "comparison \<Rightarrow> u32 \<Rightarrow> u32 \<Rightarrow> nat \<Rightarrow> runtime \<Rightarrow> (trap, runtime) res" where
  "insert_element cmp b sz i rt =
     res_bind (load_bytes rt (elt b sz i) (unat sz)) (\<lambda>tmp.
     res_bind (shift_up cmp b sz tmp rt i) (\<lambda>(rt, j).
     store_bytes rt (elt b sz j) tmp))"

definition qsort :: "runtime \<Rightarrow> u32 \<Rightarrow> u32 \<Rightarrow> u32 \<Rightarrow> comparison \<Rightarrow> (libc_end, runtime) res" where
  "qsort rt base n sz cmp =
     (if sz > 64 then Stop (Exited 134)
      else trapping (res_fold (insert_element cmp base sz) [1..<unat n] rt))"

section \<open>Elements\<close>

definition elements :: "runtime \<Rightarrow> u32 \<Rightarrow> u32 \<Rightarrow> nat \<Rightarrow> u8 list list" where
  "elements rt b sz n = map (\<lambda>k. read_range (arena rt) (unat b + k * unat sz) (unat sz)) [0..<n]"

definition array_ok :: "runtime \<Rightarrow> u32 \<Rightarrow> u32 \<Rightarrow> nat \<Rightarrow> bool" where
  "array_ok rt b sz n \<longleftrightarrow> mem_inv rt \<and> unat b + n * unat sz \<le> mem_bytes rt"

lemma length_elements [simp]: "length (elements rt b sz n) = n"
  by (simp add: elements_def)

lemma elements_nth: "k < n \<Longrightarrow> elements rt b sz n ! k = read_range (arena rt) (unat b + k * unat sz) (unat sz)"
  by (simp add: elements_def)

lemma load_bytes_eq:
  "mem_inv rt \<Longrightarrow> unat p + n \<le> mem_bytes rt \<Longrightarrow> load_bytes rt p n = Val (read_range (arena rt) (unat p) n)"
proof (induction n arbitrary: p)
  case (Suc n)
  then have p: "unat p < mem_bytes rt" "unat (p + 1) = Suc (unat p)" using unat_next [of p rt] by simp_all
  have "load_bytes rt (p + 1) n = Val (read_range (arena rt) (unat (p + 1)) n)"
    by (rule Suc.IH) (use Suc.prems p(2) in simp_all)
  then show ?case using Suc.prems(1) p by (simp add: load8_eq read_range_Suc)
qed (simp add: read_range_def)

lemma store_bytes_eq:
  "mem_inv rt \<Longrightarrow> unat p + length bs \<le> mem_bytes rt \<Longrightarrow>
   store_bytes rt p bs = Val (rt\<lparr>arena := write_range (arena rt) (unat p) bs\<rparr>)"
proof (induction bs arbitrary: rt p)
  case (Cons b bs)
  let ?rt = "rt\<lparr>arena := (arena rt)(unat p := b)\<rparr>"
  have p: "unat p < mem_bytes rt" "unat (p + 1) = Suc (unat p)" using Cons.prems(2) unat_next [of p rt] by simp_all
  have "store_bytes rt p (b # bs) = store_bytes ?rt (p + 1) bs" using Cons.prems(1) p(1) by (simp add: store8_eq)
  also have "\<dots> = Val (?rt\<lparr>arena := write_range (arena ?rt) (unat (p + 1)) bs\<rparr>)"
    by (rule Cons.IH) (use Cons.prems p in auto)
  also have "write_range (arena ?rt) (unat (p + 1)) bs = write_range (arena rt) (unat p) (b # bs)"
    by (auto simp: fun_eq_iff write_range_def p(2) nth_Cons' Suc_diff_le)
  finally show ?case by (simp add: arena_update)
qed simp

lemma unat_elt:
  assumes "array_ok rt b sz n" "k < n"
  shows "unat (elt b sz k) = unat b + k * unat sz" "unat b + k * unat sz + unat sz \<le> mem_bytes rt"
proof -
  have "Suc k * unat sz \<le> n * unat sz" using assms(2) by (intro mult_le_mono1) simp
  then show le: "unat b + k * unat sz + unat sz \<le> mem_bytes rt" using assms(1) by (simp add: array_ok_def)
  then have "unat b + k * unat sz < 2 ^ 32 \<or> unat sz = 0" using mem_bytes_less [of rt] by linarith
  then show "unat (elt b sz k) = unat b + k * unat sz"
    using unat_u32_less [of b] by (auto simp: elt_def unat_word_ariths unat_of_nat mod_simps unat_eq_zero)
qed

text \<open>Overwriting one element.\<close>

lemma elements_write:
  assumes "k < n" "length bs = unat sz"
  shows "elements (rt\<lparr>arena := write_range (arena rt) (unat b + k * unat sz) bs\<rparr>) b sz n = (elements rt b sz n)[k := bs]"
proof (rule nth_equalityI)
  fix j assume j: "j < length (elements (rt\<lparr>arena := write_range (arena rt) (unat b + k * unat sz) bs\<rparr>) b sz n)"
  have "j * unat sz + unat sz \<le> k * unat sz" if "j < k"
    using that by (metis Suc_leI mult_Suc mult_le_mono1 add.commute)
  moreover have "k * unat sz + unat sz \<le> j * unat sz" if "k < j"
    using that by (metis Suc_leI mult_Suc mult_le_mono1 add.commute)
  ultimately show "elements (rt\<lparr>arena := write_range (arena rt) (unat b + k * unat sz) bs\<rparr>) b sz n ! j = (elements rt b sz n)[k := bs] ! j"
    using assms j by (cases j k rule: linorder_cases) (auto simp: elements_nth read_write_same intro!: read_write_disjoint)
qed simp

lemma array_ok_write:
  "array_ok rt b sz n \<Longrightarrow> a + length bs \<le> mem_bytes rt \<Longrightarrow> array_ok (rt\<lparr>arena := write_range (arena rt) a bs\<rparr>) b sz n"
  by (auto simp: array_ok_def)

section \<open>The loops on lists\<close>

text \<open>Insertion into a list kept in descending order.\<close>

fun place :: "comparison \<Rightarrow> u8 list \<Rightarrow> u8 list list \<Rightarrow> u8 list list" where
  "place cmp x [] = [x]"
| "place cmp x (y # ys) = (if cmp y x > 0 then y # place cmp x ys else x # y # ys)"

fun shift_list :: "comparison \<Rightarrow> u8 list \<Rightarrow> u8 list list \<Rightarrow> nat \<Rightarrow> u8 list list \<times> nat" where
  "shift_list cmp x es 0 = (es, 0)"
| "shift_list cmp x es (Suc j) = (if cmp (es ! j) x > 0 then shift_list cmp x (es[Suc j := es ! j]) j else (es, Suc j))"

definition insert_list :: "comparison \<Rightarrow> nat \<Rightarrow> u8 list list \<Rightarrow> u8 list list" where
  "insert_list cmp i es = (case shift_list cmp (es ! i) es i of (es', j) \<Rightarrow> es'[j := es ! i])"

lemma shift_list_place:
  "i < length es \<Longrightarrow> shift_list cmp x es i = (es', j) \<Longrightarrow>
   j \<le> i \<and> es'[j := x] = rev (place cmp x (rev (take i es))) @ drop (Suc i) es"
proof (induction i arbitrary: es)
  case (Suc i)
  have t: "take (Suc i) es = take i es @ [es ! i]" using Suc.prems(1) by (simp add: take_Suc_conv_app_nth)
  show ?case
  proof (cases "cmp (es ! i) x > 0")
    case True
    with Suc.IH [of "es[Suc i := es ! i]"] Suc.prems
    have "j \<le> i \<and> es'[j := x] = rev (place cmp x (rev (take i es))) @ drop (Suc i) (es[Suc i := es ! i])" by simp
    moreover have "drop (Suc i) (es[Suc i := es ! i]) = es ! i # drop (Suc (Suc i)) es"
      using Suc.prems(1) by (simp add: drop_update_swap Cons_nth_drop_Suc [symmetric])
    ultimately show ?thesis using True by (simp add: t)
  next
    case False
    then have "j = Suc i" "es' = es" using Suc.prems(2) by simp_all
    moreover have "es[Suc i := x] = take (Suc i) es @ x # drop (Suc (Suc i)) es"
      using Suc.prems(1) by (simp add: upd_conv_take_nth_drop)
    ultimately show ?thesis using False by (simp add: t)
  qed
qed (simp add: upd_conv_take_nth_drop)

definition insertion_sort :: "comparison \<Rightarrow> u8 list list \<Rightarrow> u8 list list" where
  "insertion_sort cmp es = rev (fold (place cmp) es [])"

lemma insert_list_eq:
  assumes "i < length es" "take i es = insertion_sort cmp (take i es0)" "drop i es = drop i es0"
  shows "take (Suc i) (insert_list cmp i es) = insertion_sort cmp (take (Suc i) es0)"
    "drop (Suc i) (insert_list cmp i es) = drop (Suc i) es0" "length (insert_list cmp i es) = length es"
proof -
  obtain es' j where s: "shift_list cmp (es ! i) es i = (es', j)" by fastforce
  have l: "length es0 = length es" "es ! i = es0 ! i"
    using assms(1,3) by (metis diff_is_0_eq length_drop linorder_not_less less_imp_le_nat le_add_diff_inverse,
      metis Cons_nth_drop_Suc length_drop diff_is_0_eq linorder_not_less list.inject)
  have d: "drop (Suc i) es = drop (Suc i) es0" using arg_cong [OF assms(3), of "drop 1"] by simp
  have p: "length (place cmp x ys) = Suc (length ys)" for x ys by (induction ys) simp_all
  have "length (take i es) = i" using assms(1) by simp
  then have i: "length (insertion_sort cmp (take i es0)) = i" by (simp add: assms(2))
  have e: "insert_list cmp i es = rev (place cmp (es0 ! i) (rev (take i es))) @ drop (Suc i) es0"
    using shift_list_place [OF assms(1) s] s by (simp add: insert_list_def l(2) d)
  have "take (Suc i) es0 = take i es0 @ [es0 ! i]" using assms(1) l(1) by (simp add: take_Suc_conv_app_nth)
  then show "take (Suc i) (insert_list cmp i es) = insertion_sort cmp (take (Suc i) es0)"
    using assms(1) i by (simp add: e p assms(2)) (simp add: insertion_sort_def)
  show "drop (Suc i) (insert_list cmp i es) = drop (Suc i) es0" "length (insert_list cmp i es) = length es"
    using assms(1) l(1) by (simp_all add: e p)
qed

lemma insert_all_eq:
  "n \<le> length es \<Longrightarrow> take n (fold (insert_list cmp) [1..<n] es) = insertion_sort cmp (take n es)
     \<and> drop n (fold (insert_list cmp) [1..<n] es) = drop n es
     \<and> length (fold (insert_list cmp) [1..<n] es) = length es"
proof (induction n)
  case (Suc n)
  show ?case
  proof (cases "n = 0")
    case True
    have "take (Suc 0) es = [es ! 0]" using Suc.prems True by (cases es) simp_all
    then show ?thesis using True by (simp add: insertion_sort_def)
  next
    case False
    then show ?thesis
      using Suc insert_list_eq [of n "fold (insert_list cmp) [1..<n] es" cmp es] by simp
  qed
qed (simp add: insertion_sort_def)

section \<open>The loops in memory\<close>

text \<open>What a step may change: the bytes of the array.\<close>

definition only_array :: "runtime \<Rightarrow> u32 \<Rightarrow> u32 \<Rightarrow> nat \<Rightarrow> runtime \<Rightarrow> bool" where
  "only_array rt b sz n rt' \<longleftrightarrow> (\<exists>a. rt' = rt\<lparr>arena := a\<rparr>
     \<and> (\<forall>i. i < unat b \<or> unat b + n * unat sz \<le> i \<longrightarrow> a i = arena rt i))"

lemma only_array_refl: "only_array rt b sz n rt"
  unfolding only_array_def by (rule exI [of _ "arena rt"]) simp

lemma only_array_trans:
  "only_array rt b sz n rt1 \<Longrightarrow> only_array rt1 b sz n rt2 \<Longrightarrow> only_array rt b sz n rt2"
  by (auto simp: only_array_def)

lemma only_array_write:
  assumes "k < n" "length bs = unat sz"
  shows "only_array rt b sz n (rt\<lparr>arena := write_range (arena rt) (unat b + k * unat sz) bs\<rparr>)"
proof -
  have "Suc k * unat sz \<le> n * unat sz" using assms(1) by (intro mult_le_mono1) simp
  then have "write_range (arena rt) (unat b + k * unat sz) bs i = arena rt i"
    if "i < unat b \<or> unat b + n * unat sz \<le> i" for i
    using that assms(2) by (intro write_range_outside) auto
  then show ?thesis by (auto simp: only_array_def)
qed

lemma shift_up_eq:
  "array_ok rt b sz n \<Longrightarrow> i < n \<Longrightarrow> shift_list cmp tmp (elements rt b sz n) i = (es', j) \<Longrightarrow>
   \<exists>rt'. shift_up cmp b sz tmp rt i = Val (rt', j) \<and> elements rt' b sz n = es' \<and> array_ok rt' b sz n
     \<and> only_array rt b sz n rt' \<and> j \<le> i"
proof (induction i arbitrary: rt)
  case (Suc i)
  have i: "i < n" using Suc.prems(2) by simp
  note U = unat_elt [OF Suc.prems(1) i] and V = unat_elt [OF Suc.prems(1,2)]
  have inv: "mem_inv rt" using Suc.prems(1) by (simp add: array_ok_def)
  have l: "load_bytes rt (elt b sz i) (unat sz) = Val (elements rt b sz n ! i)"
    using load_bytes_eq [OF inv, of "elt b sz i" "unat sz"] U i by (simp add: elements_nth)
  show ?case
  proof (cases "cmp (elements rt b sz n ! i) tmp > 0")
    case True
    let ?rt = "rt\<lparr>arena := write_range (arena rt) (unat b + Suc i * unat sz) (elements rt b sz n ! i)\<rparr>"
    have len: "length (elements rt b sz n ! i) = unat sz" using i by (simp add: elements_nth)
    have m: "libc_memcpy rt (elt b sz (Suc i)) (elt b sz i) sz = Val ?rt"
      using libc_memcpy_eq [OF inv, of "elt b sz (Suc i)" sz "elt b sz i"] U V i by (simp add: elements_nth)
    have ok: "array_ok ?rt b sz n" by (rule array_ok_write [OF Suc.prems(1)]) (use V len in simp)
    have e: "elements ?rt b sz n = (elements rt b sz n)[Suc i := elements rt b sz n ! i]"
      by (rule elements_write [OF Suc.prems(2) len])
    have "shift_list cmp tmp (elements ?rt b sz n) i = (es', j)" using Suc.prems(3) True unfolding e by simp
    from Suc.IH [OF ok i this] show ?thesis
      using l m True only_array_trans [OF only_array_write [OF Suc.prems(2) len]] by auto
  next
    case False
    then show ?thesis using l Suc.prems only_array_refl by auto
  qed
qed (use only_array_refl in auto)

lemma insert_element_eq:
  assumes "array_ok rt b sz n" "i < n"
  obtains rt' where "insert_element cmp b sz i rt = Val rt'" "elements rt' b sz n = insert_list cmp i (elements rt b sz n)"
    "array_ok rt' b sz n" "only_array rt b sz n rt'"
proof -
  obtain es' j where s: "shift_list cmp (elements rt b sz n ! i) (elements rt b sz n) i = (es', j)" by fastforce
  let ?x = "elements rt b sz n ! i"
  obtain rt1 where 1: "shift_up cmp b sz ?x rt i = Val (rt1, j)" "elements rt1 b sz n = es'" "array_ok rt1 b sz n"
    "only_array rt b sz n rt1" "j \<le> i"
    using shift_up_eq [OF assms s] by blast
  have j: "j < n" using 1(5) assms(2) by simp
  note U = unat_elt [OF assms] and V = unat_elt [OF 1(3) j]
  have len: "length ?x = unat sz" using assms(2) by (simp add: elements_nth)
  have inv: "mem_inv rt" "mem_inv rt1" using assms(1) 1(3) by (simp_all add: array_ok_def)
  have l: "load_bytes rt (elt b sz i) (unat sz) = Val ?x"
    using load_bytes_eq [OF inv(1), of "elt b sz i" "unat sz"] U assms(2) by (simp add: elements_nth)
  let ?rt = "rt1\<lparr>arena := write_range (arena rt1) (unat b + j * unat sz) ?x\<rparr>"
  have "store_bytes rt1 (elt b sz j) ?x = Val ?rt"
    using store_bytes_eq [OF inv(2), of "elt b sz j" ?x] V len by simp
  then have r: "insert_element cmp b sz i rt = Val ?rt" using l 1(1) by (simp add: insert_element_def)
  show thesis
  proof (rule that [OF r])
    show "elements ?rt b sz n = insert_list cmp i (elements rt b sz n)"
      using elements_write [OF j len, of rt1 b] s 1(2) by (simp add: insert_list_def)
    show "array_ok ?rt b sz n" by (rule array_ok_write [OF 1(3)]) (use V len in simp)
    show "only_array rt b sz n ?rt" by (rule only_array_trans [OF 1(4) only_array_write [OF j len]])
  qed
qed

lemma insert_all_memory:
  "array_ok rt b sz n \<Longrightarrow> list_all (\<lambda>i. i < n) is' \<Longrightarrow>
   \<exists>rt'. res_fold (insert_element cmp b sz) is' rt = Val rt'
     \<and> elements rt' b sz n = fold (insert_list cmp) is' (elements rt b sz n) \<and> only_array rt b sz n rt'"
proof (induction is' arbitrary: rt)
  case (Cons i is')
  obtain rt1 where 1: "insert_element cmp b sz i rt = Val rt1" "elements rt1 b sz n = insert_list cmp i (elements rt b sz n)"
    "array_ok rt1 b sz n" "only_array rt b sz n rt1"
    by (rule insert_element_eq [OF Cons.prems(1), of i cmp]) (use Cons.prems(2) in simp_all)
  have "list_all (\<lambda>i. i < n) is'" using Cons.prems(2) by simp
  from Cons.IH [OF 1(3) this] obtain rt2 where "res_fold (insert_element cmp b sz) is' rt1 = Val rt2"
    "elements rt2 b sz n = fold (insert_list cmp) is' (elements rt1 b sz n)" "only_array rt1 b sz n rt2" by blast
  then show ?case using 1(1,2) only_array_trans [OF 1(4)] by auto
qed (simp add: only_array_refl)

section \<open>Sorting\<close>

definition consistent :: "comparison \<Rightarrow> u8 list set \<Rightarrow> bool" where
  "consistent cmp A \<longleftrightarrow> (\<forall>x \<in> A. \<forall>y \<in> A. cmp x y > 0 \<longrightarrow> cmp y x \<le> 0)
     \<and> (\<forall>x \<in> A. \<forall>y \<in> A. \<forall>z \<in> A. cmp x y \<le> 0 \<longrightarrow> cmp y z \<le> 0 \<longrightarrow> cmp x z \<le> 0)"

definition alike :: "comparison \<Rightarrow> u8 list \<Rightarrow> u8 list \<Rightarrow> bool" where
  "alike cmp x y \<longleftrightarrow> cmp x y \<le> 0 \<and> cmp y x \<le> 0"

lemma mset_place [simp]: "mset (place cmp x ys) = add_mset x (mset ys)"
  by (induction ys) simp_all

lemma set_place [simp]: "set (place cmp x ys) = insert x (set ys)"
  by (metis mset_place set_mset_add_mset_insert set_mset_mset)

lemma sorted_place:
  "consistent cmp A \<Longrightarrow> x \<in> A \<Longrightarrow> set ys \<subseteq> A \<Longrightarrow> sorted_wrt (\<lambda>y z. cmp z y \<le> 0) ys
   \<Longrightarrow> sorted_wrt (\<lambda>y z. cmp z y \<le> 0) (place cmp x ys)"
proof (induction ys)
  case (Cons y ys)
  show ?case
  proof (cases "cmp y x > 0")
    case True
    then have "cmp x y \<le> 0" using Cons.prems(1-3) by (simp add: consistent_def)
    then show ?thesis using Cons True by simp
  next
    case False
    have "cmp z x \<le> 0" if "z \<in> set ys" for z
    proof -
      have "cmp z y \<le> 0" "cmp y x \<le> 0" using that Cons.prems(4) False by simp_all
      then show ?thesis using that Cons.prems(1-3) unfolding consistent_def by (meson list.set_intros subsetD)
    qed
    then show ?thesis using Cons.prems(4) False by simp
  qed
qed simp

lemma filter_place:
  "consistent cmp A \<Longrightarrow> a \<in> A \<Longrightarrow> x \<in> A \<Longrightarrow> set ys \<subseteq> A
   \<Longrightarrow> filter (alike cmp a) (place cmp x ys) = filter (alike cmp a) [x] @ filter (alike cmp a) ys"
proof (induction ys)
  case (Cons y ys)
  have "cmp y x \<le> 0" if "alike cmp a y" "alike cmp a x"
    using that Cons.prems unfolding alike_def consistent_def by (meson list.set_intros(1) subsetD)
  then show ?case using Cons by auto
qed simp

lemma insertion_sort_fold:
  assumes "consistent cmp A"
  shows "set es \<subseteq> A \<Longrightarrow> set ys \<subseteq> A \<Longrightarrow> sorted_wrt (\<lambda>y z. cmp z y \<le> 0) ys \<Longrightarrow>
     mset (fold (place cmp) es ys) = mset es + mset ys \<and> sorted_wrt (\<lambda>y z. cmp z y \<le> 0) (fold (place cmp) es ys)
     \<and> (\<forall>a \<in> A. filter (alike cmp a) (fold (place cmp) es ys) = rev (filter (alike cmp a) es) @ filter (alike cmp a) ys)"
proof (induction es arbitrary: ys)
  case (Cons e es)
  then show ?case
    using Cons.IH [of "place cmp e ys"] sorted_place [OF assms, of e ys] filter_place [OF assms, of _ e ys] by simp
qed simp

text \<open>
  C28. \<^verbatim>\<open>qsort\<close> of an array in memory whose elements have at most 64 bytes, for a comparison that is a total
  preorder on them, ends without a trap; the elements are then a sorted permutation of what they were, elements
  that compare equal keep their order, and no byte outside the array has changed. Larger elements abort.
\<close>

theorem qsort_sorts:
  assumes "array_ok rt base sz (unat n)" "sz \<le> 64 \<longrightarrow> consistent cmp (set (elements rt base sz (unat n)))"
  shows "if sz > 64 then qsort rt base n sz cmp = Stop (Exited 134)
    else \<exists>rt'. qsort rt base n sz cmp = Val rt' \<and> only_array rt base sz (unat n) rt'
      \<and> mset (elements rt' base sz (unat n)) = mset (elements rt base sz (unat n))
      \<and> sorted_wrt (\<lambda>x y. cmp x y \<le> 0) (elements rt' base sz (unat n))
      \<and> (\<forall>a \<in> set (elements rt base sz (unat n)). filter (alike cmp a) (elements rt' base sz (unat n))
           = filter (alike cmp a) (elements rt base sz (unat n)))"
proof (cases "sz > 64")
  case False
  let ?es = "elements rt base sz (unat n)"
  obtain rt' where 1: "res_fold (insert_element cmp base sz) [1..<unat n] rt = Val rt'"
    "elements rt' base sz (unat n) = fold (insert_list cmp) [1..<unat n] ?es" "only_array rt base sz (unat n) rt'"
    using insert_all_memory [OF assms(1), of "[1..<unat n]" cmp] by (auto simp: list_all_iff)
  have e: "elements rt' base sz (unat n) = insertion_sort cmp ?es"
    using insert_all_eq [of "unat n" ?es cmp] 1(2) take_all [of "fold (insert_list cmp) [1..<unat n] ?es" "unat n"] by simp
  have c: "consistent cmp (set ?es)" using assms(2) False by simp
  from insertion_sort_fold [OF c order.refl, of "[]"] False 1(1,3) show ?thesis
    by (simp add: qsort_def e insertion_sort_def sorted_wrt_rev rev_filter [symmetric])
qed (simp add: qsort_def)

section \<open>Example\<close>

definition ex_array :: runtime where
  "ex_array = one_page\<lparr>arena := write_range (\<lambda>_. 0) 100 [3, 1, 1, 2, 3, 0]\<rparr>"

definition by_key :: comparison where
  "by_key x y = int (unat (hd x)) - int (unat (hd y))"

lemma ex_array_ok: "array_ok ex_array 100 2 3" "elements ex_array 100 2 3 = [[3, 1], [1, 2], [3, 0]]"
  by (simp_all add: array_ok_def elements_def ex_array_def one_page_def mem_bytes_def mem_inv_def mem_ok_def mem_zero_def
      WASM_PAGE_SIZE_def arena_bytes_def write_range_def read_range_def upt_rec)

lemma by_key_consistent: "consistent by_key A"
  by (simp add: consistent_def by_key_def)

lemma qsort_sorts_witness:
  "\<exists>rt'. qsort ex_array 100 3 2 by_key = Val rt' \<and> mset (elements rt' 100 2 3) = {#[3, 1], [1, 2], [3, 0]#}
     \<and> sorted_wrt (\<lambda>x y. by_key x y \<le> 0) (elements rt' 100 2 3)
     \<and> filter (alike by_key [3, 1]) (elements rt' 100 2 3) = [[3, 1], [3, 0]]"
  using qsort_sorts [of ex_array 100 2 3 by_key] ex_array_ok by_key_consistent
  by (auto simp: alike_def by_key_def)

end
