(* ===== verification/Spec2Isabelle.thy ===== *)
theory Spec2Isabelle
  imports Host Sha1 C_Program Cc_Tables Cc_Source Guest_Sort
begin

text \<open>
  A verification library for the sandbox stack: a C compiler to WebAssembly (\<^verbatim>\<open>src/cc\<close>), a translator
  from WebAssembly back to C (\<^verbatim>\<open>src/w2c2\<close>), the runtime header the translated guest is compiled
  against (\<^verbatim>\<open>src/rt\<close>), the host that confines it (\<^verbatim>\<open>src/host\<close>) and the guest's C library
  (\<^verbatim>\<open>src/libc\<close>). A guest is compiled to a module, the module is translated to C, and the C runs inside
  the host with every memory access checked; the theories follow that path.

  \<^bold>\<open>Common ground.\<close> \<open>Prelude\<close>: machine integers as words, the outcome type \<open>res\<close> (\<open>Val\<close>, the code's own
  end \<open>Stop\<close>, undefined behaviour \<open>Unsafe\<close>), loops over lists, byte-addressed memory. An access outside an
  object is a value of the model, so that a theorem that an operation returns \<open>Val\<close> also says that it stays
  inside its objects.

  \<^bold>\<open>Guest runtime and host.\<close> \<open>Rt_Arith\<close> and \<open>Runtime\<close> are \<^verbatim>\<open>src/rt/w2c2_base.h\<close>: arithmetic that traps,
  linear memory with its bounds check, growth and bulk operations, tables and the checked indirect call.
  \<open>Host\<close> is \<^verbatim>\<open>src/host/main.c\<close>: the start sequence, the three imports, the traps and the memory functions,
  as a trace of system calls against a kernel that is a parameter.

  \<^bold>\<open>Guest C library.\<close> \<open>Guest_Libc\<close> and \<open>Guest_Strings\<close> are \<^verbatim>\<open>libc.c\<close>: the allocator and the functions on bytes and
  strings over the runtime's memory; blocks never overlap, and one range of sizes is served wrongly. \<open>Guest_Sort\<close> is the sort of \<^verbatim>\<open>stdio.c\<close>.

  \<^bold>\<open>Compiler.\<close> \<open>Cc_Types\<close> and \<open>Cc_Node\<close> are the types, the tree and the typing pass (\<^verbatim>\<open>type.c\<close>);
  \<open>Cc_Unicode\<close>, \<open>Cc_Lexer\<close>, \<open>Cc_Lexer_Safe\<close> and \<open>Cc_Source\<close> are the lexer (\<^verbatim>\<open>unicode.c\<close>, \<^verbatim>\<open>tokenize.c\<close>): the
  passes over the text of a file and the loop that cuts it into tokens, with the bounds of every buffer;
  \<open>Cc_Hashmap\<close> is the hash table (\<^verbatim>\<open>hashmap.c\<close>), and \<open>Cc_Tables\<close> the back end with its hash tables in place of
  the maps that the other theories use, and the proof that it is the same; \<open>Emit_Buf\<close>,
  \<open>Codegen\<close> and \<open>Emit_Module\<close> the back end (\<^verbatim>\<open>codegen.c\<close>) from buffers to the bytes of a module.
  \<open>Wasm_Typing\<close> states validation of WebAssembly code as a relation; \<open>Codegen_Typing\<close>,
  \<open>Codegen_Valid\<close>, \<open>Codegen_Stmt\<close> and \<open>Codegen_Correct\<close> show with a Hoare logic over the generator that
  what it accepts validates.

  \<^bold>\<open>Translator.\<close> \<open>Leb128\<close>, \<open>Wasm_Module\<close>, \<open>Opcode\<close> and \<open>Instruction\<close> are its data (\<^verbatim>\<open>buffer.h\<close>,
  \<^verbatim>\<open>leb128.h\<close>, \<^verbatim>\<open>module.h\<close>, \<^verbatim>\<open>array.h\<close>, \<^verbatim>\<open>opcode.c\<close>, \<^verbatim>\<open>instruction.c\<close>), \<open>Sha1\<close> is \<^verbatim>\<open>sha1.c\<close>, \<open>Read_Monad\<close>
  the way a reader threads its buffer and its count of allocations, \<open>Reader_Error\<close> and \<open>Reader\<close> are
  \<^verbatim>\<open>reader.c\<close> with all its error codes, for any allocator. \<open>Reader_Safety\<close> shows where it stays inside its
  buffers and that it ends, \<open>Reader_Codec\<close>, \<open>Emit_Read\<close> and \<open>Compile_Read\<close> that it reads back what the
  compiler wrote, \<open>Compile_Module\<close> that the module read is the program compiled. \<open>C_Builder\<close>, \<open>C_Names\<close>,
  \<open>C_Expr\<close>, \<open>C_Atomics\<close> and \<open>C_Function\<close> are the writer of C (\<^verbatim>\<open>c.c\<close>, \<^verbatim>\<open>stringbuilder.c\<close>,
  \<^verbatim>\<open>typestack.h\<close>, \<^verbatim>\<open>labelstack.h\<close>) for functions; \<open>C_Runs\<close>, \<open>C_Typed\<close>, \<open>C_Translate\<close>, \<open>C_Body\<close> and
  \<open>C_Program\<close> relate its stacks to the configurations of validation, and compose it with the compiler.

  \<^bold>\<open>Interfaces.\<close> The locales are \<open>codec\<close> (a reader that inverts an encoder) and \<open>name_table\<close> (a table of
  names that is only filled); each is interpreted on the program's own definitions.

  \<^bold>\<open>Bounds and fuel.\<close> The writer of function code takes one unit of fuel for every instruction and is started
  with one more than the bytes of the body, which suffices for code that validates. The reader's loops recurse on the input
  that is left. The hash table's recursion through rehashing is at most one level deep (the depth argument 2).
  Theorems of success assume an allocator that never fails (\<open>plenty\<close>); the safety theorems of the reader
  hold for every allocator.

  \<^bold>\<open>Not modelled.\<close> Diagnostics on standard error, files and the command line; assertions are taken to be
  compiled in. Of the translator, the text around functions (instances, initialisers, headers), \<^verbatim>\<open>main.c\<close>, and
  the upstream header, which guests here do not use. Of the compiler, the conversion of numbers and keywords after
  preprocessing, the preprocessor, the parser, the x86-64 back end and its assembler: the typed tree is the input of
  the model's back end, and the model's lexer ends with tokens. The casts between floating
  point and integers in the runtime header rest on the host's floating-point unit.
\<close>

end
